(* ===== verification/Prelude.thy ===== *)
theory Prelude
  imports Main
begin

text \<open>
  Shared vocabulary of the development: results of code that may throw, association lists with
  the semantics of the JavaScript \<open>Map\<close> (insertion order, update in place, deletion), and the
  generic invariant principle used for the state machines.
\<close>

named_theorems js_map_simps \<open>look-up and update laws of insertion-ordered maps\<close>

section \<open>Results\<close>

text \<open>
  A call that may throw returns a sum: \<open>Inl\<close> is the thrown error, \<open>Inr\<close> the value. A method
  that mutates its object and may throw returns the object as it is when the call ends, paired
  with such a sum: what was written before a throw stays written.
\<close>

definition bind_res :: "'e + 'a \<Rightarrow> ('a \<Rightarrow> 'e + 'b) \<Rightarrow> 'e + 'b" where
  "bind_res m f = (case m of Inl e \<Rightarrow> Inl e | Inr a \<Rightarrow> f a)"

lemma bind_res_simps [simp]:
  "bind_res (Inl e) f = Inl e"
  "bind_res (Inr a) f = f a"
  by (simp_all add: bind_res_def)

lemma bind_res_Inr_iff: "bind_res m f = Inr b \<longleftrightarrow> (\<exists>a. m = Inr a \<and> f a = Inr b)"
  by (cases m) simp_all

type_synonym ('s, 'e, 'a) eff = "'s \<Rightarrow> 's \<times> ('e + 'a)"

definition eff_return :: "'a \<Rightarrow> ('s, 'e, 'a) eff" where
  "eff_return a = (\<lambda>s. (s, Inr a))"

definition eff_throw :: "'e \<Rightarrow> ('s, 'e, 'a) eff" where
  "eff_throw e = (\<lambda>s. (s, Inl e))"

definition eff_bind :: "('s, 'e, 'a) eff \<Rightarrow> ('a \<Rightarrow> ('s, 'e, 'b) eff) \<Rightarrow> ('s, 'e, 'b) eff" where
  "eff_bind m f = (\<lambda>s. case m s of (s', Inl e) \<Rightarrow> (s', Inl e) | (s', Inr a) \<Rightarrow> f a s')"

definition eff_lift :: "'e + 'a \<Rightarrow> ('s, 'e, 'a) eff" where
  "eff_lift r = (\<lambda>s. (s, r))"

definition eff_modify :: "('s \<Rightarrow> 's) \<Rightarrow> ('s, 'e, unit) eff" where
  "eff_modify f = (\<lambda>s. (f s, Inr ()))"

text \<open>\<open>try ... finally\<close>: the clean-up runs whether the body throws or not.\<close>

definition eff_finally :: "('s, 'e, 'a) eff \<Rightarrow> ('s \<Rightarrow> 's) \<Rightarrow> ('s, 'e, 'a) eff" where
  "eff_finally m f = (\<lambda>s. case m s of (s', r) \<Rightarrow> (f s', r))"

lemmas eff_defs = eff_return_def eff_throw_def eff_bind_def eff_lift_def eff_modify_def eff_finally_def

text \<open>
  A relation between states that every step of a computation keeps is kept by the computation:
  the rule behind every frame and monotonicity fact about the methods.
\<close>

definition eff_keeps :: "('s \<Rightarrow> 's \<Rightarrow> bool) \<Rightarrow> ('s, 'e, 'a) eff \<Rightarrow> bool" where
  "eff_keeps R m \<longleftrightarrow> (\<forall>s. R s (fst (m s)))"

lemma eff_keepsI: "(\<And>s. R s (fst (m s))) \<Longrightarrow> eff_keeps R m"
  by (simp add: eff_keeps_def)

lemma eff_keepsD: "eff_keeps R m \<Longrightarrow> R s (fst (m s))"
  by (simp add: eff_keeps_def)

lemma eff_keeps_bind:
  assumes "transp R" and "eff_keeps R m" and "\<And>a. eff_keeps R (f a)"
  shows "eff_keeps R (eff_bind m f)"
proof (rule eff_keepsI)
  fix s
  have "R s (fst (m s))" using assms(2) by (rule eff_keepsD)
  then show "R s (fst (eff_bind m f s))"
    using assms(1) eff_keepsD [OF assms(3)]
    by (cases "m s") (auto simp: eff_bind_def split: sum.splits intro: transpD)
qed

lemma eff_keeps_simple [simp]:
  "reflp R \<Longrightarrow> eff_keeps R (eff_return a)"
  "reflp R \<Longrightarrow> eff_keeps R (eff_throw e)"
  "reflp R \<Longrightarrow> eff_keeps R (eff_lift r)"
  by (simp_all add: eff_keeps_def eff_defs reflpD)

fun map_res :: "('a \<Rightarrow> 'e + 'b) \<Rightarrow> 'a list \<Rightarrow> 'e + 'b list" where
  "map_res f [] = Inr []"
| "map_res f (x # xs) = bind_res (f x) (\<lambda>y. bind_res (map_res f xs) (\<lambda>ys. Inr (y # ys)))"

lemma map_res_Inr_length: "map_res f xs = Inr ys \<Longrightarrow> length ys = length xs"
  by (induction xs arbitrary: ys) (auto simp: bind_res_Inr_iff)

lemma map_res_all_Inr: "(\<And>x. x \<in> set xs \<Longrightarrow> f x = Inr (g x)) \<Longrightarrow> map_res f xs = Inr (map g xs)"
  by (induction xs) simp_all

section \<open>Insertion-ordered maps\<close>

text \<open>
  A JavaScript \<open>Map\<close> iterates its entries in insertion order; \<open>set\<close> on a present key keeps the
  entry's place, \<open>delete\<close> removes it.
\<close>

type_synonym ('k, 'v) js_map = "('k \<times> 'v) list"

definition js_get :: "('k, 'v) js_map \<Rightarrow> 'k \<Rightarrow> 'v option" where
  "js_get m k = map_of m k"

definition js_has :: "('k, 'v) js_map \<Rightarrow> 'k \<Rightarrow> bool" where
  "js_has m k = (k \<in> fst ` set m)"

fun js_set :: "('k, 'v) js_map \<Rightarrow> 'k \<Rightarrow> 'v \<Rightarrow> ('k, 'v) js_map" where
  "js_set [] k v = [(k, v)]"
| "js_set ((k', v') # m) k v = (if k' = k then (k, v) # m else (k', v') # js_set m k v)"

definition js_delete :: "('k, 'v) js_map \<Rightarrow> 'k \<Rightarrow> ('k, 'v) js_map" where
  "js_delete m k = filter (\<lambda>e. fst e \<noteq> k) m"

lemma js_get_set [js_map_simps, simp]: "js_get (js_set m k v) k' = (if k' = k then Some v else js_get m k')"
  by (induction m k v rule: js_set.induct) (auto simp: js_get_def)

lemma js_get_delete [js_map_simps, simp]: "js_get (js_delete m k) k' = (if k' = k then None else js_get m k')"
  by (induction m) (auto simp: js_get_def js_delete_def)

lemma js_get_Nil [simp]: "js_get [] k = None"
  by (simp add: js_get_def)

lemma js_has_get: "js_has m k \<longleftrightarrow> js_get m k \<noteq> None"
  by (simp add: js_has_def js_get_def map_of_eq_None_iff)

lemma js_keys_set: "fst ` set (js_set m k v) = insert k (fst ` set m)"
  by (induction m k v rule: js_set.induct) auto

lemma js_keys_delete: "fst ` set (js_delete m k) = fst ` set m - {k}"
  by (auto simp: js_delete_def)

lemma js_set_fresh: "\<not> js_has m k \<Longrightarrow> js_set m k v = m @ [(k, v)]"
  by (induction m k v rule: js_set.induct) (auto simp: js_has_def)

lemma js_set_distinct: "distinct (map fst m) \<Longrightarrow> distinct (map fst (js_set m k v))"
proof (induction m k v rule: js_set.induct)
  case (2 k' v' m k v)
  then show ?case
    using js_keys_set [of m k v] by (auto simp: image_iff)
qed simp

lemma js_delete_distinct: "distinct (map fst m) \<Longrightarrow> distinct (map fst (js_delete m k))"
  by (induction m) (auto simp: js_delete_def)

lemma js_get_SomeD: "js_get m k = Some v \<Longrightarrow> (k, v) \<in> set m"
  by (simp add: js_get_def map_of_SomeD)

text \<open>A JavaScript \<open>Set\<close>, iterated in insertion order.\<close>

definition set_add :: "'a list \<Rightarrow> 'a \<Rightarrow> 'a list" where
  "set_add xs x = (if x \<in> set xs then xs else xs @ [x])"

lemma set_set_add [simp]: "set (set_add xs x) = insert x (set xs)"
  by (auto simp: set_add_def)

lemma distinct_set_add [simp]: "distinct (set_add xs x) = distinct xs"
  by (simp add: set_add_def)

lemma set_add_idem [simp]: "set_add (set_add xs x) x = set_add xs x"
  by (simp add: set_add_def)

section \<open>String tests\<close>

definition starts_with :: "string \<Rightarrow> string \<Rightarrow> bool" where
  "starts_with s p = (take (length p) s = p)"

lemma starts_with_append [simp]: "starts_with (p @ s) p"
  by (simp add: starts_with_def)

lemma starts_with_iff: "starts_with s p \<longleftrightarrow> (\<exists>t. s = p @ t)"
  by (metis append_eq_conv_conj append_take_drop_id starts_with_def)

section \<open>Reachability and invariants\<close>

text \<open>
  A machine is a start predicate and a step relation. An inductive invariant holds in every
  reachable state; the machines of the development are instances of this locale.
\<close>

locale machine =
  fixes start :: "'s \<Rightarrow> bool"
    and step :: "'s \<Rightarrow> 's \<Rightarrow> bool"
    and inv :: "'s \<Rightarrow> bool"
  assumes inv_start: "start s \<Longrightarrow> inv s"
    and inv_step: "inv s \<Longrightarrow> step s t \<Longrightarrow> inv t"
begin

lemma inv_steps: "step\<^sup>*\<^sup>* s t \<Longrightarrow> inv s \<Longrightarrow> inv t"
  by (induction rule: rtranclp_induct) (auto intro: inv_step)

lemma inv_reachable: "start s \<Longrightarrow> step\<^sup>*\<^sup>* s t \<Longrightarrow> inv t"
  by (blast intro: inv_steps inv_start)

end

end
