(* ===== verification/JsRuntime.thy ===== *)
theory JsRuntime
  imports Prelude
begin

text \<open>
  The part of the JavaScript language the SDK's workflow runtime is written against: values,
  promises with their reaction lists, and the first-in first-out microtask queue. Promises are
  numbered in creation order; a reaction is a handler code (the code components give their own
  type of handler codes and interpret them) with the promise that \<open>then\<close>, \<open>catch\<close> or \<open>finally\<close>
  returned for it.
\<close>

section \<open>Values\<close>

text \<open>
  Numbers are the integers (the runtime's own numbers are counters, identifiers and
  milliseconds); binary data is a list of bytes. A \<open>Payload\<close> is the serialized form of a value; both
  its fields may be absent. \<open>JRaw\<close> is an instance of the SDK's \<open>RawValue\<close> class, which carries a
  payload instead of a value.
\<close>

record payload =
  metadata :: "(string \<times> string) list option"
  data :: "string option"

datatype jsval =
    Undefined
  | Null
  | JBool bool
  | JNum int
  | JStr string
  | JBytes string
  | JArr "jsval list"
  | JObj "(string \<times> jsval) list"
  | JPromise nat
  | JRaw payload

fun truthy :: "jsval \<Rightarrow> bool" where
  "truthy Undefined = False"
| "truthy Null = False"
| "truthy (JBool b) = b"
| "truthy (JNum n) = (n \<noteq> 0)"
| "truthy (JStr s) = (s \<noteq> [])"
| "truthy _ = True"

section \<open>Promises and microtasks\<close>

datatype 'o pstate = Pending | Settled 'o

record ('o, 'h) pcell =
  p_state :: "'o pstate"
  p_reactions :: "('h \<times> nat) list"

record ('o, 'h) runtime =
  cells :: "('o, 'h) pcell list"
  microtasks :: "('h \<times> nat \<times> 'o) list"

definition empty_runtime :: "('o, 'h) runtime" where
  "empty_runtime = \<lparr>cells = [], microtasks = []\<rparr>"

definition promise_state :: "('o, 'h) runtime \<Rightarrow> nat \<Rightarrow> 'o pstate" where
  "promise_state rt p = (if p < length (cells rt) then p_state (cells rt ! p) else Pending)"

definition new_promise :: "('o, 'h) runtime \<Rightarrow> nat \<times> ('o, 'h) runtime" where
  "new_promise rt = (length (cells rt),
     rt\<lparr>cells := cells rt @ [\<lparr>p_state = Pending, p_reactions = []\<rparr>]\<rparr>)"

text \<open>
  The resolving functions of a promise: the first call decides the promise and schedules its
  reactions in registration order, every later call does nothing.
\<close>

definition settle :: "nat \<Rightarrow> 'o \<Rightarrow> ('o, 'h) runtime \<Rightarrow> ('o, 'h) runtime" where
  "settle p v rt =
     (if p < length (cells rt)
      then case p_state (cells rt ! p) of
             Pending \<Rightarrow> rt\<lparr>cells := (cells rt)[p := \<lparr>p_state = Settled v, p_reactions = []\<rparr>],
                           microtasks := microtasks rt
                             @ map (\<lambda>(h, d). (h, d, v)) (p_reactions (cells rt ! p))\<rparr>
           | Settled _ \<Rightarrow> rt
      else rt)"

text \<open>Registering a reaction: kept while the promise is pending, scheduled at once otherwise.\<close>

definition then_react :: "nat \<Rightarrow> 'h \<Rightarrow> ('o, 'h) runtime \<Rightarrow> nat \<times> ('o, 'h) runtime" where
  "then_react p h rt =
     (let (d, rt') = new_promise rt in
      if p < length (cells rt)
      then case p_state (cells rt ! p) of
             Pending \<Rightarrow> (d, rt'\<lparr>cells := (cells rt')
                 [p := (cells rt' ! p)\<lparr>p_reactions := p_reactions (cells rt ! p) @ [(h, d)]\<rparr>]\<rparr>)
           | Settled v \<Rightarrow> (d, rt'\<lparr>microtasks := microtasks rt' @ [(h, d, v)]\<rparr>)
      else (d, rt'))"

definition pop_microtask :: "('o, 'h) runtime \<Rightarrow> (('h \<times> nat \<times> 'o) \<times> ('o, 'h) runtime) option" where
  "pop_microtask rt = (case microtasks rt of [] \<Rightarrow> None | m # ms \<Rightarrow> Some (m, rt\<lparr>microtasks := ms\<rparr>))"

section \<open>Laws of promises\<close>

definition settled_le :: "('o, 'h) runtime \<Rightarrow> ('o, 'h) runtime \<Rightarrow> bool" where
  "settled_le rt rt' \<longleftrightarrow> length (cells rt) \<le> length (cells rt') \<and>
     (\<forall>p v. promise_state rt p = Settled v \<longrightarrow> promise_state rt' p = Settled v)"

lemma settled_le_refl [simp]: "settled_le rt rt"
  by (simp add: settled_le_def)

lemma settled_le_trans [trans]: "settled_le a b \<Longrightarrow> settled_le b c \<Longrightarrow> settled_le a c"
  by (auto simp: settled_le_def)

lemma length_cells_settle [simp]: "length (cells (settle p v rt)) = length (cells rt)"
  by (simp add: settle_def split: pstate.splits)

lemma promise_state_settle:
  "promise_state (settle p v rt) q =
     (if q = p \<and> p < length (cells rt) \<and> promise_state rt p = Pending then Settled v
      else promise_state rt q)"
  by (auto simp: settle_def promise_state_def nth_list_update split: pstate.splits)

lemma settle_settled: "promise_state rt p = Settled w \<Longrightarrow> settle p v rt = rt"
  by (auto simp: settle_def promise_state_def split: pstate.splits if_splits)

lemma settle_twice: "settle p w (settle p v rt) = settle p v rt"
proof (cases "p < length (cells rt) \<and> promise_state rt p = Pending")
  case True
  then show ?thesis by (intro settle_settled) (simp add: promise_state_settle)
next
  case False
  then show ?thesis
    by (auto simp: settle_def promise_state_def split: pstate.splits)
qed

lemma settled_le_settle: "settled_le rt (settle p v rt)"
  by (simp add: settled_le_def promise_state_settle)

lemma new_promise_simps [simp]:
  "fst (new_promise rt) = length (cells rt)"
  "length (cells (snd (new_promise rt))) = Suc (length (cells rt))"
  "microtasks (snd (new_promise rt)) = microtasks rt"
  by (simp_all add: new_promise_def)

lemma promise_state_new [simp]: "promise_state (snd (new_promise rt)) p = promise_state rt p"
  by (auto simp: promise_state_def new_promise_def nth_append less_Suc_eq)

lemma settled_le_new: "settled_le rt (snd (new_promise rt))"
  by (simp add: settled_le_def)

lemma fst_then_react [simp]: "fst (then_react p h rt) = length (cells rt)"
  by (simp add: then_react_def new_promise_def split: pstate.splits)

lemma length_then_react [simp]: "length (cells (snd (then_react p h rt))) = Suc (length (cells rt))"
  by (simp add: then_react_def new_promise_def split: pstate.splits)

lemma promise_state_then [simp]: "promise_state (snd (then_react p h rt)) q = promise_state rt q"
  by (auto simp: promise_state_def then_react_def new_promise_def nth_append nth_list_update
      less_Suc_eq split: pstate.splits)

lemma settled_le_then: "settled_le rt (snd (then_react p h rt))"
  by (simp add: settled_le_def)

lemma then_react_settled_microtasks:
  "promise_state rt p = Settled v \<Longrightarrow>
     microtasks (snd (then_react p h rt)) = microtasks rt @ [(h, length (cells rt), v)]"
  by (auto simp: promise_state_def then_react_def new_promise_def split: if_splits)

text \<open>
  The order of reactions: reactions registered on a pending promise run in the order of their
  registration once it is settled, after everything that was already queued.
\<close>

lemma microtasks_settle_pending:
  assumes "p < length (cells rt)" and "promise_state rt p = Pending"
  shows "microtasks (settle p v rt) =
     microtasks rt @ map (\<lambda>(h, d). (h, d, v)) (p_reactions (cells rt ! p))"
  using assms by (simp add: settle_def promise_state_def)

section \<open>Reactions and the queue\<close>

definition reactions_at :: "('o, 'h) runtime \<Rightarrow> nat \<Rightarrow> ('h \<times> nat) list" where
  "reactions_at r p = (if p < length (cells r) then p_reactions (cells r ! p) else [])"

lemma reactions_at_beyond [simp]: "length (cells r) \<le> p \<Longrightarrow> reactions_at r p = []"
  by (simp add: reactions_at_def)

lemma reactions_at_new [simp]: "reactions_at (snd (new_promise r)) p = reactions_at r p"
  by (auto simp: reactions_at_def new_promise_def nth_append less_Suc_eq)

lemma reactions_at_then:
  "reactions_at (snd (then_react p h r)) q =
     (if q = p \<and> p < length (cells r) \<and> promise_state r p = Pending
      then reactions_at r p @ [(h, length (cells r))] else reactions_at r q)"
  by (auto simp: reactions_at_def then_react_def new_promise_def promise_state_def nth_append
      nth_list_update less_Suc_eq split: pstate.splits)

lemma reactions_at_settle:
  "reactions_at (settle p v r) q =
     (if q = p \<and> p < length (cells r) \<and> promise_state r p = Pending then [] else reactions_at r q)"
  by (auto simp: reactions_at_def settle_def promise_state_def nth_list_update split: pstate.splits)

lemma microtasks_then:
  "microtasks (snd (then_react p h r)) = microtasks r @
     (case promise_state r p of Pending \<Rightarrow> [] | Settled v \<Rightarrow> [(h, length (cells r), v)])"
  by (auto simp: then_react_def new_promise_def promise_state_def split: pstate.splits)

lemma microtasks_settle:
  "microtasks (settle p v r) = microtasks r @
     (if promise_state r p = Pending then map (\<lambda>(h, d). (h, d, v)) (reactions_at r p) else [])"
  by (auto simp: settle_def promise_state_def reactions_at_def split: pstate.splits)

lemma promise_state_beyond [simp]: "length (cells r) \<le> p \<Longrightarrow> promise_state r p = Pending"
  by (simp add: promise_state_def)

lemma empty_runtime_simps [simp]:
  "cells empty_runtime = []" "microtasks empty_runtime = []"
  "promise_state empty_runtime p = Pending" "reactions_at empty_runtime p = []"
  by (simp_all add: empty_runtime_def promise_state_def reactions_at_def)

lemma pop_simps [simp]:
  "promise_state (r\<lparr>microtasks := ms\<rparr>) p = promise_state r p"
  "reactions_at (r\<lparr>microtasks := ms\<rparr>) p = reactions_at r p"
  by (simp_all add: promise_state_def reactions_at_def)

end
