(* ===== verification/Errors.thy ===== *)
theory Errors
  imports JsRuntime Complex_Main
begin

text \<open>
  The data every component shares: numbers and durations, payloads and serialization contexts,
  the wire form of failures, and the errors the SDK throws and receives, with the functions of
  \<^verbatim>\<open>packages/common/src/failure.ts\<close> and \<^verbatim>\<open>packages/workflow/src/errors.ts\<close> on them.
\<close>

section \<open>Numbers, durations, timestamps\<close>

text \<open>
  A JavaScript number: a rational for the finite ones (rounding is not modelled), the two
  infinities and \<open>NaN\<close>. A \<open>Duration\<close> is a number of milliseconds or a string.
\<close>

datatype jsnum = NaN | PosInf | NegInf | Num rat

datatype duration = Millis jsnum | MsString string

text \<open>\<open>google.protobuf.ITimestamp\<close> and \<open>IDuration\<close>: both flds may be absent.\<close>

record timestamp =
  seconds :: "int option"
  nanos :: "rat option"

section \<open>Serialization contexts\<close>

datatype serialization_context =
    WorkflowContext (ctx_namespace: string) (ctx_workflowId: string)
  | ActivityContext string "string option" "string option" bool
  | NexusContext (ctx_endpoint: string) (ctx_service: string) (ctx_operation: string)

definition nexusSerializationContextFromProto ::
  "(string option \<times> string option \<times> string option) option \<Rightarrow> serialization_context option" where
  "nexusSerializationContextFromProto c = (case c of
     None \<Rightarrow> None
   | Some (e, sv, op) \<Rightarrow> Some (NexusContext (case e of None \<Rightarrow> [] | Some x \<Rightarrow> x)
       (case sv of None \<Rightarrow> [] | Some x \<Rightarrow> x) (case op of None \<Rightarrow> [] | Some x \<Rightarrow> x)))"

section \<open>Failures on the wire\<close>

text \<open>The variants of \<open>temporal.api.failure.v1.Failure.failure_info\<close>, a protobuf one-of.\<close>

record workflow_execution =
  ex_workflowId :: "string option"
  ex_runId :: "string option"

datatype failure_info =
    NoInfo
  | ApplicationInfo "string option" bool "payload list option" "timestamp option" "int option"
  | ServerInfo bool
  | TimeoutInfo "int option" "payload list option"
  | TerminatedInfo
  | CanceledInfo "payload list option"
  | ResetWorkflowInfo "payload list option"
  | ChildWorkflowInfo "string option" "workflow_execution option" "string option" "int option"
  | ActivityInfo "string option" "string option" "int option" "string option"
  | NexusHandlerInfo "string option" "int option"
  | NexusOperationInfo "int option" "string option" "string option" "string option" "string option"

datatype proto_failure = Failure
  (f_message: "string option")
  (f_source: "string option")
  (f_stackTrace: "string option")
  (f_encodedAttributes: "payload option")
  (f_cause: "proto_failure option")
  (f_info: failure_info)

section \<open>Errors\<close>

text \<open>
  The \<open>Failure\<close> object of the \<^verbatim>\<open>nexus-rpc\<close> package: one whose metadata name the wire form of failures and
  whose details are one, or any other object, given by its own entries.
\<close>

datatype nexus_failure = NexusTemporalFailure string "proto_failure option" | NexusOtherFailure "(string \<times> jsval) list"

text \<open>
  \<open>tf_kind\<close> is the subclass of \<open>TemporalFailure\<close> with the flds of its constructor. An
  \<open>OtherError\<close> is any other \<open>Error\<close>: the classes of its constructor chain from the most derived
  one to \<open>Error\<close> (a class is its identity and its name), message, stack and cause. A \<open>HandlerError\<close> is the
  class of the \<^verbatim>\<open>nexus-rpc\<close> package: type, message, stack, cause, \<open>retryableOverride\<close> and \<open>originalFailure\<close>. Code can throw
  a value that is no \<open>Error\<close>: \<open>ThrownValue\<close>.
\<close>

type_synonym err_class = "nat \<times> string"

datatype tf_kind =
    BaseFailure
  | ServerFailure bool
  | ApplicationFailure "string option" bool "jsval list option" "duration option" "string option"
  | CancelledFailure "jsval list"
  | TerminatedFailure
  | TimeoutFailure jsval "string option"
  | ActivityFailure string "string option" "string option" "string option"
  | ChildWorkflowFailure "string option" workflow_execution string "string option"
  | NexusOperationFailure "int option" string string string "string option"
  | WorkflowExecutionAlreadyStarted string string "string option"
  | InvalidVersioningOverride string string

record do_backoff =
  backoffDuration :: "timestamp option"
  bo_attempt :: "nat option"
  bo_originalScheduleTime :: "timestamp option"

text \<open>
  What the encoder of an enumeration returns (\<open>Enums\<close>): a number, or a member that the lookup table
  inherits from \<open>Object.prototype\<close>.
\<close>

datatype enum_value = EnumNum int | InheritedMember string

record can_command =
  can_workflowType :: string
  can_arguments :: "payload list option"
  can_headers :: "(string \<times> payload) list"
  can_taskQueue :: string
  can_memo :: "(string \<times> payload) list option"
  can_searchAttributes :: "(string \<times> payload) list option"
  can_workflowRunTimeout :: "timestamp option"
  can_workflowTaskTimeout :: "timestamp option"
  can_backoffStartInterval :: "timestamp option"
  can_versioningIntent :: int
  can_initialVersioningBehavior :: "enum_value option"

datatype event_marker =
    InboundEvent int
  | InboundUpdate string
  | LabelMarker string "payload option"

datatype js_error =
    TemporalFailure (tf_kind_of: tf_kind) string string "js_error option" "proto_failure option"
  | HandlerError string string string "js_error option" "bool option" "nexus_failure option"
  | OtherError "err_class list" string string "js_error option"
  | DoBackoff do_backoff
  | ContinueAsNew can_command "event_marker list option"
  | ThrownValue jsval

type_synonym outcome = "js_error + jsval"

abbreviation Error_class :: err_class where "Error_class \<equiv> (0, ''Error'')"
abbreviation TypeError :: "string \<Rightarrow> js_error" where
  "TypeError m \<equiv> OtherError [(1, ''TypeError''), Error_class] m [] None"
abbreviation ReferenceError :: "string \<Rightarrow> js_error" where
  "ReferenceError m \<equiv> OtherError [(2, ''ReferenceError''), Error_class] m [] None"
abbreviation RangeError :: "string \<Rightarrow> js_error" where
  "RangeError m \<equiv> OtherError [(3, ''RangeError''), Error_class] m [] None"
abbreviation IllegalStateError :: "string \<Rightarrow> js_error" where
  "IllegalStateError m \<equiv> OtherError [(4, ''IllegalStateError''), Error_class] m [] None"
abbreviation ValueError :: "string \<Rightarrow> js_error" where
  "ValueError m \<equiv> OtherError [(5, ''ValueError''), Error_class] m [] None"
abbreviation DeterminismViolationError :: "string \<Rightarrow> js_error" where
  "DeterminismViolationError m \<equiv>
     OtherError [(6, ''DeterminismViolationError''), (7, ''WorkflowError''), Error_class] m [] None"
abbreviation NamespaceNotFoundError :: "string \<Rightarrow> js_error" where
  "NamespaceNotFoundError ns \<equiv> OtherError [(8, ''NamespaceNotFoundError''), Error_class]
     (''Namespace not found: '' @ [CHR 0x27] @ ns @ [CHR 0x27]) [] None"
abbreviation PlainError :: "string \<Rightarrow> js_error" where
  "PlainError m \<equiv> OtherError [Error_class] m [] None"

fun classes_of :: "js_error \<Rightarrow> err_class list" where
  "classes_of (OtherError cs _ _ _) = cs"
| "classes_of (HandlerError _ _ _ _ _ _) = [(9, ''HandlerError''), Error_class]"
| "classes_of (DoBackoff _) = [(10, ''LocalActivityDoBackoff''), Error_class]"
| "classes_of (ContinueAsNew _ _) = [(11, ''ContinueAsNew''), Error_class]"
| "classes_of (TemporalFailure _ _ _ _ _) = [(12, ''TemporalFailure''), Error_class]"
| "classes_of (ThrownValue _) = []"

fun err_message :: "js_error \<Rightarrow> string" where
  "err_message (TemporalFailure _ m _ _ _) = m"
| "err_message (HandlerError _ m _ _ _ _) = m"
| "err_message (OtherError _ m _ _) = m"
| "err_message (DoBackoff _) = []"
| "err_message (ContinueAsNew _ _) = ''Workflow continued as new''"
| "err_message (ThrownValue _) = []"

fun err_cause :: "js_error \<Rightarrow> js_error option" where
  "err_cause (TemporalFailure _ _ _ c _) = c"
| "err_cause (HandlerError _ _ _ c _ _) = c"
| "err_cause (OtherError _ _ _ c) = c"
| "err_cause _ = None"

text \<open>Whether a thrown thing is truthy: every \<open>Error\<close> object is, a thrown value need not be.\<close>

fun err_truthy :: "js_error \<Rightarrow> bool" where
  "err_truthy (ThrownValue v) = truthy v"
| "err_truthy _ = True"

fun is_TemporalFailure :: "js_error \<Rightarrow> bool" where
  "is_TemporalFailure (TemporalFailure _ _ _ _ _) = True"
| "is_TemporalFailure _ = False"

fun is_CancelledFailure :: "js_error \<Rightarrow> bool" where
  "is_CancelledFailure (TemporalFailure (CancelledFailure _) _ _ _ _) = True"
| "is_CancelledFailure _ = False"

text \<open>\<^verbatim>\<open>isCancellation\<close> of \<^verbatim>\<open>packages/workflow/src/errors.ts\<close>.\<close>

fun wraps_cause :: "tf_kind \<Rightarrow> bool" where
  "wraps_cause (ActivityFailure _ _ _ _) = True"
| "wraps_cause (ChildWorkflowFailure _ _ _ _) = True"
| "wraps_cause (NexusOperationFailure _ _ _ _ _) = True"
| "wraps_cause _ = False"

fun isCancellation :: "js_error \<Rightarrow> bool" where
  "isCancellation (TemporalFailure k m st c f) =
     (is_CancelledFailure (TemporalFailure k m st c f) \<or>
      (wraps_cause k \<and> (case c of None \<Rightarrow> False | Some e \<Rightarrow> is_CancelledFailure e)))"
| "isCancellation _ = False"

definition cancelled_failure :: "string \<Rightarrow> js_error" where
  "cancelled_failure m = TemporalFailure (CancelledFailure []) m [] None None"

lemma isCancellation_cancelled [simp]: "isCancellation (cancelled_failure m)"
  by (simp add: cancelled_failure_def)

text \<open>
  \<^verbatim>\<open>ApplicationFailure.create\<close> and \<^verbatim>\<open>ApplicationFailure.nonRetryable\<close>; the type of a failure made
  from a caught error is the name of the error's constructor.
\<close>

definition ApplicationFailure_nonRetryable :: "string \<Rightarrow> js_error" where
  "ApplicationFailure_nonRetryable m =
     TemporalFailure (ApplicationFailure (Some ''Error'') True (Some []) None None) m [] None None"

definition createPayloadValidationError :: "jsval \<Rightarrow> js_error" where
  "createPayloadValidationError details =
     TemporalFailure (ApplicationFailure (Some ''PayloadValidationError'') True
       (Some (if details = Undefined \<or> details = Null then [] else [details])) None None)
       ''Payload validation failed'' [] None None"

text \<open>
  \<open>String(value)\<close> for the primitive values that can be thrown; the text of a thrown object is
  JavaScript's default one.
\<close>

fun digit_char :: "nat \<Rightarrow> char" where
  "digit_char d = char_of (48 + d)"

fun nat_to_string :: "nat \<Rightarrow> string" where
  "nat_to_string n = (if n < 10 then [digit_char n] else nat_to_string (n div 10) @ [digit_char (n mod 10)])"

declare nat_to_string.simps [simp del]

definition int_to_string :: "int \<Rightarrow> string" where
  "int_to_string i = (if i < 0 then ''-'' @ nat_to_string (nat (- i)) else nat_to_string (nat i))"

fun js_String :: "jsval \<Rightarrow> string" where
  "js_String Undefined = ''undefined''"
| "js_String Null = ''null''"
| "js_String (JBool b) = (if b then ''true'' else ''false'')"
| "js_String (JNum n) = int_to_string n"
| "js_String (JStr s) = s"
| "js_String _ = ''[object Object]''"

fun is_ApplicationFailure :: "js_error \<Rightarrow> bool" where
  "is_ApplicationFailure (TemporalFailure (ApplicationFailure _ _ _ _ _) _ _ _ _) = True"
| "is_ApplicationFailure _ = False"

fun js_or :: "string \<Rightarrow> string \<Rightarrow> string" where
  "js_or a b = (if a = [] then b else a)"

fun err_stack :: "js_error \<Rightarrow> string" where
  "err_stack (TemporalFailure _ _ st _ _) = st"
| "err_stack (HandlerError _ _ st _ _ _) = st"
| "err_stack (OtherError _ _ st _) = st"
| "err_stack _ = []"

text \<open>
  \<open>String(error)\<close> of an \<open>Error\<close> object with an empty message is its name.
\<close>

definition ensureApplicationFailure :: "js_error \<Rightarrow> js_error" where
  "ensureApplicationFailure e =
     (if is_ApplicationFailure e then e
      else case e of
        ThrownValue v \<Rightarrow>
          (case v of
             JObj flds \<Rightarrow> TemporalFailure (ApplicationFailure (Some ''Object'') False None None None)
               (js_or (case map_of flds ''message'' of None \<Rightarrow> ''undefined'' | Some m \<Rightarrow> js_String m)
                 ''[object Object]'')
               (case map_of flds ''stack'' of None \<Rightarrow> ''undefined'' | Some m \<Rightarrow> js_String m) None None
           | JArr _ \<Rightarrow> TemporalFailure (ApplicationFailure (Some ''Array'') False None None None)
               ''undefined'' ''undefined'' None None
           | JBytes _ \<Rightarrow> TemporalFailure (ApplicationFailure (Some ''Uint8Array'') False None None None)
               ''undefined'' ''undefined'' None None
           | JPromise _ \<Rightarrow> TemporalFailure (ApplicationFailure (Some ''Promise'') False None None None)
               ''undefined'' ''undefined'' None None
           | JRaw _ \<Rightarrow> TemporalFailure (ApplicationFailure (Some ''RawValue'') False None None None)
               ''undefined'' ''undefined'' None None
           | _ \<Rightarrow> TemporalFailure (ApplicationFailure None False None None None) (js_String v) [] None None)
      | _ \<Rightarrow> TemporalFailure
          (ApplicationFailure (case classes_of e of [] \<Rightarrow> None | c # _ \<Rightarrow> Some (snd c)) False None None None)
          (js_or (err_message e) (case classes_of e of [] \<Rightarrow> [] | c # _ \<Rightarrow> snd c))
          (err_stack e) (err_cause e) None)"

definition ensureTemporalFailure :: "js_error \<Rightarrow> js_error" where
  "ensureTemporalFailure e = (if is_TemporalFailure e then e else ensureApplicationFailure e)"

lemma ensureTemporalFailure_is [simp]: "is_TemporalFailure (ensureTemporalFailure e)"
  by (cases e) (simp_all add: ensureTemporalFailure_def ensureApplicationFailure_def split: jsval.splits)

lemma ensureTemporalFailure_id: "is_TemporalFailure e \<Longrightarrow> ensureTemporalFailure e = e"
  by (simp add: ensureTemporalFailure_def)

text \<open>\<^verbatim>\<open>rootCause\<close>: the message of the innermost cause below a chain of \<open>TemporalFailure\<close>s.\<close>

definition errorMessage :: "js_error \<Rightarrow> string option" where
  "errorMessage e = (case e of ThrownValue (JStr s) \<Rightarrow> Some s
     | ThrownValue (JObj flds) \<Rightarrow>
         (case (map_of flds ''name'', map_of flds ''message'') of
            (Some (JStr _), Some (JStr m)) \<Rightarrow>
              (case map_of flds ''stack'' of None \<Rightarrow> Some m | Some Null \<Rightarrow> Some m
               | Some Undefined \<Rightarrow> Some m | Some (JStr _) \<Rightarrow> Some m | _ \<Rightarrow> None)
          | _ \<Rightarrow> None)
     | ThrownValue _ \<Rightarrow> None
     | _ \<Rightarrow> Some (err_message e))"

fun rootCause :: "js_error \<Rightarrow> string option" where
  "rootCause (TemporalFailure k m st c f) = (case c of Some e \<Rightarrow> rootCause e | None \<Rightarrow> Some m)"
| "rootCause e = errorMessage e"

end
