(* ===== verification/Time.thy ===== *)
theory Time
  imports Errors "HOL-Library.Word"
begin

text \<open>
  \<^verbatim>\<open>packages/common/src/time.ts\<close>: conversion between durations in milliseconds and protobuf
  timestamps. Seconds travel as 64-bit integers. The string parser of the \<^verbatim>\<open>ms\<close> package is a
  parameter: it maps a string to a number of milliseconds, or to \<open>None\<close> where the package returns
  nothing or \<open>NaN\<close>.
\<close>

section \<open>64-bit integers\<close>

text \<open>
  A \<open>Long\<close> is a 64-bit integer with a flag that says whether it is read as unsigned; sums and
  products wrap around.
\<close>

record long =
  bits :: "64 word"
  unsigned :: bool

definition Long_fromInt :: "int \<Rightarrow> long" where
  "Long_fromInt n = \<lparr>bits = word_of_int n, unsigned = False\<rparr>"

definition Long_UZERO :: long where
  "Long_UZERO = \<lparr>bits = 0, unsigned = True\<rparr>"

definition Long_toNumber :: "long \<Rightarrow> int" where
  "Long_toNumber l = (if unsigned l then uint (bits l) else sint (bits l))"

definition Long_mul :: "long \<Rightarrow> int \<Rightarrow> long" where
  "Long_mul l n = l\<lparr>bits := bits l * word_of_int n\<rparr>"

definition Long_add :: "long \<Rightarrow> int \<Rightarrow> long" where
  "Long_add l n = l\<lparr>bits := bits l + word_of_int n\<rparr>"

section \<open>The conversions\<close>

text \<open>The wire value of an absent or zero field is no \<open>Long\<close> object, hence the default.\<close>

definition tsToMs :: "timestamp option \<Rightarrow> js_error + int" where
  "tsToMs ts = (case ts of
     None \<Rightarrow> Inl (PlainError ''Expected timestamp, got undefined'')
   | Some t \<Rightarrow>
       Inr (Long_toNumber
         (Long_add
           (Long_mul (case seconds t of None \<Rightarrow> Long_UZERO | Some s \<Rightarrow> Long_fromInt s) 1000)
           \<lfloor>(case nanos t of None \<Rightarrow> 0 | Some n \<Rightarrow> n) / 1000000\<rfloor>)))"

definition optionalTsToMs :: "timestamp option \<Rightarrow> js_error + int option" where
  "optionalTsToMs ts = (case ts of None \<Rightarrow> Inr None | Some t \<Rightarrow> bind_res (tsToMs (Some t)) (\<lambda>m. Inr (Some m)))"

definition requiredTsToMs :: "timestamp option \<Rightarrow> string \<Rightarrow> js_error + int" where
  "requiredTsToMs ts fieldName = (case ts of
     None \<Rightarrow> Inl (TypeError (''Expected '' @ fieldName @ '' to be a timestamp, got undefined''))
   | Some t \<Rightarrow> tsToMs (Some t))"

text \<open>JavaScript's \<open>%\<close> takes the sign of its left operand; on an infinity it is \<open>NaN\<close>.\<close>

definition js_rem :: "rat \<Rightarrow> rat \<Rightarrow> rat" where
  "js_rem a b = (if a < 0 then - (- a - b * of_int \<lfloor>- a / b\<rfloor>) else a - b * of_int \<lfloor>a / b\<rfloor>)"

definition msNumberToTs :: "jsnum \<Rightarrow> js_error + timestamp" where
  "msNumberToTs millis = (case millis of
     Num m \<Rightarrow> Inr \<lparr>seconds = Some \<lfloor>m / 1000\<rfloor>, nanos = Some (js_rem m 1000 * 1000000)\<rparr>
   | NaN \<Rightarrow> Inl (ValueError ''Invalid millis NaN'')
   | PosInf \<Rightarrow> Inl (ValueError ''Invalid millis Infinity'')
   | NegInf \<Rightarrow> Inl (ValueError ''Invalid millis -Infinity''))"

definition msWithValidation :: "(string \<Rightarrow> rat option) \<Rightarrow> string \<Rightarrow> js_error + jsnum" where
  "msWithValidation ms str = (case ms str of
     None \<Rightarrow> Inl (TypeError (''Invalid duration string: '' @ [CHR 0x27] @ str @ [CHR 0x27]))
   | Some m \<Rightarrow> Inr (Num m))"

fun msToNumber :: "(string \<Rightarrow> rat option) \<Rightarrow> duration \<Rightarrow> js_error + jsnum" where
  "msToNumber ms (Millis n) = Inr n"
| "msToNumber ms (MsString s) = msWithValidation ms s"

definition msToTs :: "(string \<Rightarrow> rat option) \<Rightarrow> duration \<Rightarrow> js_error + timestamp" where
  "msToTs ms d = bind_res (msToNumber ms d) msNumberToTs"

definition msOptionalToTs :: "(string \<Rightarrow> rat option) \<Rightarrow> duration option \<Rightarrow> js_error + timestamp option" where
  "msOptionalToTs ms d = (case d of None \<Rightarrow> Inr None | Some d \<Rightarrow> bind_res (msToTs ms d) (\<lambda>t. Inr (Some t)))"

definition msOptionalToNumber :: "(string \<Rightarrow> rat option) \<Rightarrow> duration option \<Rightarrow> js_error + jsnum option" where
  "msOptionalToNumber ms d =
     (case d of None \<Rightarrow> Inr None | Some d \<Rightarrow> bind_res (msToNumber ms d) (\<lambda>n. Inr (Some n)))"

text \<open>A \<open>Date\<close> is its number of milliseconds since the epoch.\<close>

definition tsToDate :: "timestamp \<Rightarrow> js_error + int" where
  "tsToDate ts = tsToMs (Some ts)"

definition requiredTsToDate :: "timestamp option \<Rightarrow> string \<Rightarrow> js_error + int" where
  "requiredTsToDate ts fieldName = requiredTsToMs ts fieldName"

definition optionalTsToDate :: "timestamp option \<Rightarrow> js_error + int option" where
  "optionalTsToDate ts = (case ts of None \<Rightarrow> Inr None | Some t \<Rightarrow> bind_res (tsToMs (Some t)) (\<lambda>m. Inr (Some m)))"

definition optionalDateToTs :: "int option \<Rightarrow> js_error + timestamp option" where
  "optionalDateToTs date = (case date of
     None \<Rightarrow> Inr None
   | Some d \<Rightarrow> bind_res (msNumberToTs (Num (of_int d))) (\<lambda>t. Inr (Some t)))"

section \<open>Round trips\<close>

lemma sint_word_of_int_id: "- (2 ^ 63) \<le> (n::int) \<Longrightarrow> n < 2 ^ 63 \<Longrightarrow> sint (word_of_int n :: 64 word) = n"
  using signed_take_bit_int_eq_self [of 63 n] by (simp add: sint_sbintrunc')

lemma word_scale_add:
  "word_of_int s * 1000 + word_of_int m = (word_of_int (s * 1000 + m) :: 64 word)"
  by simp

text \<open>What a signed timestamp reads as: seconds and the whole milliseconds of the nanoseconds.\<close>

lemma tsToMs_signed:
  assumes "- (2 ^ 63) \<le> s * 1000 + \<lfloor>n / 1000000\<rfloor>" and "s * 1000 + \<lfloor>n / 1000000\<rfloor> < 2 ^ 63"
  shows "tsToMs (Some \<lparr>seconds = Some s, nanos = Some n\<rparr>) = Inr (s * 1000 + \<lfloor>n / 1000000\<rfloor>)"
proof -
  have "sint (word_of_int (s * 1000 + \<lfloor>n / 1000000\<rfloor>) :: 64 word) = s * 1000 + \<lfloor>n / 1000000\<rfloor>"
    using assms by (rule sint_word_of_int_id)
  then show ?thesis
    by (simp add: tsToMs_def Long_toNumber_def Long_add_def Long_mul_def Long_fromInt_def)
qed

lemma floor_div_1000: "\<lfloor>of_int a / (1000::rat)\<rfloor> = a div 1000"
  using floor_divide_of_int_eq [of a 1000, where ?'a = rat] by simp

lemma js_rem_nonneg: "0 \<le> a \<Longrightarrow> js_rem (of_int a) 1000 = of_int (a mod 1000)"
  by (simp add: js_rem_def floor_div_1000 minus_mult_div_eq_mod [symmetric])

lemma js_rem_neg: "a < 0 \<Longrightarrow> js_rem (of_int a) 1000 = of_int (- ((- a) mod 1000))"
  using floor_div_1000 [of "- a"]
  by (simp add: js_rem_def minus_mult_div_eq_mod [symmetric])

lemma neg_rem_div_sum:
  fixes a :: int
  assumes "a < 0"
  shows "a div 1000 * 1000 - (- a) mod 1000 = (if a mod 1000 = 0 then a else a - 1000)"
  by (simp only: minus_mod_eq_div_mult [symmetric] zmod_zminus1_eq_if) simp

text \<open>The timestamp of a whole number of milliseconds, by sign.\<close>

lemma msNumberToTs_int:
  "msNumberToTs (Num (of_int m)) = Inr \<lparr>seconds = Some (m div 1000),
     nanos = Some (of_int (if m < 0 then - ((- m) mod 1000) else m mod 1000) * 1000000)\<rparr>"
  by (simp add: msNumberToTs_def floor_div_1000 js_rem_neg js_rem_nonneg)

text \<open>
  writing a whole number of milliseconds as a timestamp and reading it back gives the same
  number for every non-negative value a 64-bit integer holds, and for a negative multiple of a
  second; any other negative value comes back one second too early, because the remainder keeps
  the sign of the dividend while the quotient is rounded down.
\<close>

theorem ts_roundtrip:
  assumes "- (2 ^ 63) + 1000 \<le> m" and "m < 2 ^ 63"
  shows "bind_res (msNumberToTs (Num (of_int m))) (\<lambda>t. tsToMs (Some t)) =
     Inr (if m < 0 \<and> m mod 1000 \<noteq> 0 then m - 1000 else m)"
proof -
  define r where "r = (if m < 0 then - ((- m) mod 1000) else m mod 1000)"
  have floor: "\<lfloor>(of_int r * 1000000 :: rat) / 1000000\<rfloor> = r" by simp
  have sum: "m div 1000 * 1000 + r = (if m < 0 \<and> m mod 1000 \<noteq> 0 then m - 1000 else m)"
    using neg_rem_div_sum [of m] by (auto simp: r_def)
  have "tsToMs (Some \<lparr>seconds = Some (m div 1000), nanos = Some (of_int r * 1000000)\<rparr>) =
      Inr (m div 1000 * 1000 + r)"
    using tsToMs_signed [of "m div 1000" "of_int r * 1000000"] assms sum floor by (auto split: if_splits)
  then show ?thesis by (simp add: msNumberToTs_int r_def [symmetric] sum)
qed

theorem ts_roundtrip_witness:
  "bind_res (msNumberToTs (Num 1500)) (\<lambda>t. tsToMs (Some t)) = Inr 1500 \<and>
   bind_res (msNumberToTs (Num (- 1500))) (\<lambda>t. tsToMs (Some t)) = Inr (- 2500)"
  using ts_roundtrip [of 1500] ts_roundtrip [of "- 1500"] by simp

text \<open>Every non-finite number is refused before it reaches the wire.\<close>

lemma msNumberToTs_Inl_iff: "(\<exists>e. msNumberToTs n = Inl e) \<longleftrightarrow> n = NaN \<or> n = PosInf \<or> n = NegInf"
  by (cases n) (simp_all add: msNumberToTs_def)

end
