(* ===== verification/Enums.thy ===== *)
theory Enums
  imports Errors
begin

text \<open>
  \<^verbatim>\<open>makeProtoEnumConverters\<close> of \<^verbatim>\<open>packages/common/src/internal-workflow/enums-helpers.ts\<close>: the pair of
  functions between the string names the public API uses for an enumeration and the numbers of the
  protobuf definition, and the table of every enumeration of the SDK that is built with it.
\<close>

section \<open>The converters\<close>

text \<open>
  What the encoder can be given: nothing, a string, a number, or a value of another type (with the
  name \<open>typeof\<close> gives it). The encoder tests a name with the \<open>in\<close> operator on a plain object, which
  also holds for the members every object inherits; for those it returns the inherited member.
\<close>

record enum_table =
  mapTable :: "(string \<times> int) list"
  prefix :: string

datatype enum_input = NoEnum | EnumString string | EnumNumber int | EnumOther string

definition object_members :: "string list" where
  "object_members = [''constructor'', ''toString'', ''valueOf'', ''toLocaleString'', ''hasOwnProperty'',
     ''isPrototypeOf'', ''propertyIsEnumerable'', ''__proto__'', ''__defineGetter__'',
     ''__defineSetter__'', ''__lookupGetter__'', ''__lookupSetter__'']"

text \<open>\<open>Object.fromEntries\<close> keeps the last entry of a key.\<close>

definition reverseTable :: "enum_table \<Rightarrow> int \<Rightarrow> string option" where
  "reverseTable t = map_of (rev (map (\<lambda>(k, v). (v, k)) (mapTable t)))"

definition hasUnspecified :: "enum_table \<Rightarrow> bool" where
  "hasUnspecified t \<longleftrightarrow> map_of (mapTable t) ''UNSPECIFIED'' = Some 0 \<or>
     map_of (mapTable t) (prefix t @ ''UNSPECIFIED'') = Some 0"

definition shorten :: "enum_table \<Rightarrow> string \<Rightarrow> string" where
  "shorten t s = (if starts_with s (prefix t) then drop (length (prefix t)) s else s)"

fun encodeEnum :: "enum_table \<Rightarrow> enum_input \<Rightarrow> js_error + enum_value option" where
  "encodeEnum t NoEnum = Inr None"
| "encodeEnum t (EnumString s) =
     (case map_of (mapTable t) (shorten t s) of
        Some v \<Rightarrow> Inr (Some (EnumNum v))
      | None \<Rightarrow> if shorten t s \<in> set object_members then Inr (Some (InheritedMember (shorten t s)))
                else Inl (ValueError (''Invalid enum value: '' @ [CHR 0x27] @ s @ [CHR 0x27])))"
| "encodeEnum t (EnumNumber n) = Inr (Some (EnumNum n))"
| "encodeEnum t (EnumOther ty) = Inl (ValueError (''Invalid enum value of type '' @ ty))"

fun decodeEnum :: "enum_table \<Rightarrow> enum_input \<Rightarrow> js_error + string option" where
  "decodeEnum t NoEnum = Inr None"
| "decodeEnum t (EnumNumber n) =
     (if hasUnspecified t \<and> n = 0 then Inr None
      else case reverseTable t n of
             Some k \<Rightarrow> Inr (Some k)
           | None \<Rightarrow> Inr (Some (''unknown_'' @ int_to_string n)))"
| "decodeEnum t (EnumString s) = Inl (ValueError (''Invalid proto enum value: '' @ s))"
| "decodeEnum t (EnumOther ty) = Inl (ValueError (''Invalid proto enum value of type '' @ ty))"

text \<open>The form the callers use: the name of an option that may be unset, and a number that may be.\<close>

definition enum_name :: "string option \<Rightarrow> enum_input" where
  "enum_name s = (case s of None \<Rightarrow> NoEnum | Some s \<Rightarrow> EnumString s)"

definition enum_num :: "int option \<Rightarrow> enum_input" where
  "enum_num n = (case n of None \<Rightarrow> NoEnum | Some n \<Rightarrow> EnumNumber n)"

section \<open>The contract of a table\<close>

text \<open>
  What the type signature of \<^verbatim>\<open>makeProtoEnumConverters\<close> demands of a table: every name and every
  number once, no name that starts with the prefix (unless the prefix is empty), and the number 0
  for \<open>UNSPECIFIED\<close> where the table has it.
\<close>

definition enum_table_ok :: "enum_table \<Rightarrow> bool" where
  "enum_table_ok t \<longleftrightarrow> distinct (map fst (mapTable t)) \<and> distinct (map snd (mapTable t)) \<and>
     list_all (\<lambda>(k, v). (prefix t = [] \<or> \<not> starts_with k (prefix t)) \<and> (k = ''UNSPECIFIED'' \<longrightarrow> v = 0)) (mapTable t)"

locale enum_converters =
  fixes t :: enum_table
  assumes table_ok: "enum_table_ok t"
begin

lemma lookup_key: "(k, v) \<in> set (mapTable t) \<Longrightarrow> map_of (mapTable t) k = Some v"
  using table_ok by (simp add: enum_table_ok_def)

lemma reverse_lookup: "(k, v) \<in> set (mapTable t) \<Longrightarrow> reverseTable t v = Some k"
proof -
  assume kv: "(k, v) \<in> set (mapTable t)"
  have "distinct (map fst (rev (map (\<lambda>(k, v). (v, k)) (mapTable t))))"
    using table_ok by (simp add: enum_table_ok_def rev_map [symmetric] comp_def case_prod_beta')
  moreover have "(v, k) \<in> set (rev (map (\<lambda>(k, v). (v, k)) (mapTable t)))"
    using kv by force
  ultimately show ?thesis
    by (simp add: reverseTable_def)
qed

lemma shorten_key: "(k, v) \<in> set (mapTable t) \<Longrightarrow> shorten t k = k"
  using table_ok by (auto simp: enum_table_ok_def shorten_def list_all_iff)

lemma shorten_prefixed: "shorten t (prefix t @ k) = k"
  by (simp add: shorten_def)

lemma encode_key:
  "(k, v) \<in> set (mapTable t) \<Longrightarrow> encodeEnum t (EnumString k) = Inr (Some (EnumNum v))"
  by (simp add: shorten_key lookup_key)

lemma encode_prefixed_key:
  "(k, v) \<in> set (mapTable t) \<Longrightarrow> encodeEnum t (EnumString (prefix t @ k)) = Inr (Some (EnumNum v))"
  by (simp add: shorten_prefixed lookup_key)

lemma decode_key:
  "(k, v) \<in> set (mapTable t) \<Longrightarrow> \<not> (hasUnspecified t \<and> v = 0) \<Longrightarrow>
     decodeEnum t (EnumNumber v) = Inr (Some k)"
  by (simp add: reverse_lookup)

lemma decode_unspecified: "hasUnspecified t \<Longrightarrow> decodeEnum t (EnumNumber 0) = Inr None"
  by simp

text \<open>A decoded name of the table encodes to the number it came from.\<close>

lemma encode_decode:
  assumes "decodeEnum t (EnumNumber n) = Inr (Some k)" and "n \<in> snd ` set (mapTable t)"
  shows "encodeEnum t (EnumString k) = Inr (Some (EnumNum n))"
proof -
  obtain k' where k': "(k', n) \<in> set (mapTable t)" using assms(2) by auto
  have "k = k'" using assms(1) reverse_lookup [OF k'] by (auto split: if_splits)
  then show ?thesis using encode_key [OF k'] by simp
qed

end

section \<open>The enumerations of the SDK\<close>

definition nexusHandlerErrorRetryBehavior_table :: enum_table where
  "nexusHandlerErrorRetryBehavior_table = \<lparr>mapTable =
     [(''UNSPECIFIED'', 0),
      (''RETRYABLE'', 1),
      (''NON_RETRYABLE'', 2)],
     prefix = ''NEXUS_HANDLER_ERROR_RETRY_BEHAVIOR_''\<rparr>"

definition workflowIdReusePolicy_table :: enum_table where
  "workflowIdReusePolicy_table = \<lparr>mapTable =
     [(''ALLOW_DUPLICATE'', 1),
      (''ALLOW_DUPLICATE_FAILED_ONLY'', 2),
      (''REJECT_DUPLICATE'', 3),
      (''TERMINATE_IF_RUNNING'', 4),
      (''UNSPECIFIED'', 0)],
     prefix = ''WORKFLOW_ID_REUSE_POLICY_''\<rparr>"

definition workflowIdConflictPolicy_table :: enum_table where
  "workflowIdConflictPolicy_table = \<lparr>mapTable =
     [(''FAIL'', 1),
      (''USE_EXISTING'', 2),
      (''TERMINATE_EXISTING'', 3),
      (''UNSPECIFIED'', 0)],
     prefix = ''WORKFLOW_ID_CONFLICT_POLICY_''\<rparr>"

definition timeoutType_table :: enum_table where
  "timeoutType_table = \<lparr>mapTable =
     [(''START_TO_CLOSE'', 1),
      (''SCHEDULE_TO_START'', 2),
      (''SCHEDULE_TO_CLOSE'', 3),
      (''HEARTBEAT'', 4),
      (''UNSPECIFIED'', 0)],
     prefix = ''TIMEOUT_TYPE_''\<rparr>"

definition retryState_table :: enum_table where
  "retryState_table = \<lparr>mapTable =
     [(''IN_PROGRESS'', 1),
      (''NON_RETRYABLE_FAILURE'', 2),
      (''TIMEOUT'', 3),
      (''MAXIMUM_ATTEMPTS_REACHED'', 4),
      (''RETRY_POLICY_NOT_SET'', 5),
      (''INTERNAL_SERVER_ERROR'', 6),
      (''CANCEL_REQUESTED'', 7),
      (''UNSPECIFIED'', 0)],
     prefix = ''RETRY_STATE_''\<rparr>"

definition applicationFailureCategory_table :: enum_table where
  "applicationFailureCategory_table = \<lparr>mapTable =
     [(''BENIGN'', 1),
      (''UNSPECIFIED'', 0)],
     prefix = ''APPLICATION_ERROR_CATEGORY_''\<rparr>"

definition suggestContinueAsNewReason_table :: enum_table where
  "suggestContinueAsNewReason_table = \<lparr>mapTable =
     [(''HISTORY_SIZE_TOO_LARGE'', 1),
      (''TOO_MANY_HISTORY_EVENTS'', 2),
      (''TOO_MANY_UPDATES'', 3),
      (''UNSPECIFIED'', 0)],
     prefix = ''SUGGEST_CONTINUE_AS_NEW_REASON_''\<rparr>"

definition searchAttributeIndexedValueType_table :: enum_table where
  "searchAttributeIndexedValueType_table = \<lparr>mapTable =
     [(''TEXT'', 1),
      (''KEYWORD'', 2),
      (''INT'', 3),
      (''DOUBLE'', 4),
      (''BOOL'', 5),
      (''DATETIME'', 6),
      (''KEYWORD_LIST'', 7),
      (''UNSPECIFIED'', 0)],
     prefix = ''INDEXED_VALUE_TYPE_''\<rparr>"

definition versioningBehavior_table :: enum_table where
  "versioningBehavior_table = \<lparr>mapTable =
     [(''PINNED'', 1),
      (''AUTO_UPGRADE'', 2),
      (''UNSPECIFIED'', 0)],
     prefix = ''VERSIONING_BEHAVIOR_''\<rparr>"

definition initialVersioningBehavior_table :: enum_table where
  "initialVersioningBehavior_table = \<lparr>mapTable =
     [(''AUTO_UPGRADE'', 1),
      (''USE_RAMPING_VERSION'', 2),
      (''UNSPECIFIED'', 0)],
     prefix = ''CONTINUE_AS_NEW_VERSIONING_BEHAVIOR_''\<rparr>"

definition activityCancellationType_table :: enum_table where
  "activityCancellationType_table = \<lparr>mapTable =
     [(''TRY_CANCEL'', 0),
      (''WAIT_CANCELLATION_COMPLETED'', 1),
      (''ABANDON'', 2)],
     prefix = []\<rparr>"

definition startChildWorkflowExecutionFailedCause_table :: enum_table where
  "startChildWorkflowExecutionFailedCause_table = \<lparr>mapTable =
     [(''WORKFLOW_ALREADY_EXISTS'', 1),
      (''NAMESPACE_NOT_FOUND'', 2),
      (''INVALID_VERSIONING_OVERRIDE'', 3),
      (''UNSPECIFIED'', 0)],
     prefix = ''START_CHILD_WORKFLOW_EXECUTION_FAILED_CAUSE_''\<rparr>"

definition nexusOperationCancellationType_table :: enum_table where
  "nexusOperationCancellationType_table = \<lparr>mapTable =
     [(''WAIT_CANCELLATION_COMPLETED'', 0),
      (''ABANDON'', 1),
      (''TRY_CANCEL'', 2),
      (''WAIT_CANCELLATION_REQUESTED'', 3)],
     prefix = []\<rparr>"

definition childWorkflowCancellationType_table :: enum_table where
  "childWorkflowCancellationType_table = \<lparr>mapTable =
     [(''ABANDON'', 0),
      (''TRY_CANCEL'', 1),
      (''WAIT_CANCELLATION_COMPLETED'', 2),
      (''WAIT_CANCELLATION_REQUESTED'', 3)],
     prefix = []\<rparr>"

definition parentClosePolicy_table :: enum_table where
  "parentClosePolicy_table = \<lparr>mapTable =
     [(''TERMINATE'', 1),
      (''ABANDON'', 2),
      (''REQUEST_CANCEL'', 3),
      (''UNSPECIFIED'', 0)],
     prefix = ''PARENT_CLOSE_POLICY_''\<rparr>"

definition workflowUpdateStage_table :: enum_table where
  "workflowUpdateStage_table = \<lparr>mapTable =
     [(''ADMITTED'', 1),
      (''ACCEPTED'', 2),
      (''COMPLETED'', 3),
      (''UNSPECIFIED'', 0)],
     prefix = ''UPDATE_WORKFLOW_EXECUTION_LIFECYCLE_STAGE_''\<rparr>"

definition nexusOperationIdReusePolicy_table :: enum_table where
  "nexusOperationIdReusePolicy_table = \<lparr>mapTable =
     [(''ALLOW_DUPLICATE'', 1),
      (''ALLOW_DUPLICATE_FAILED_ONLY'', 2),
      (''REJECT_DUPLICATE'', 3),
      (''UNSPECIFIED'', 0)],
     prefix = ''NEXUS_OPERATION_ID_REUSE_POLICY_''\<rparr>"

definition nexusOperationIdConflictPolicy_table :: enum_table where
  "nexusOperationIdConflictPolicy_table = \<lparr>mapTable =
     [(''FAIL'', 1),
      (''USE_EXISTING'', 2),
      (''UNSPECIFIED'', 0)],
     prefix = ''NEXUS_OPERATION_ID_CONFLICT_POLICY_''\<rparr>"

definition nexusOperationExecutionStatus_table :: enum_table where
  "nexusOperationExecutionStatus_table = \<lparr>mapTable =
     [(''RUNNING'', 1),
      (''COMPLETED'', 2),
      (''FAILED'', 3),
      (''CANCELED'', 4),
      (''TERMINATED'', 5),
      (''TIMED_OUT'', 6),
      (''UNSPECIFIED'', 0)],
     prefix = ''NEXUS_OPERATION_EXECUTION_STATUS_''\<rparr>"

definition pendingNexusOperationState_table :: enum_table where
  "pendingNexusOperationState_table = \<lparr>mapTable =
     [(''SCHEDULED'', 1),
      (''BACKING_OFF'', 2),
      (''STARTED'', 3),
      (''BLOCKED'', 4),
      (''UNSPECIFIED'', 0)],
     prefix = ''PENDING_NEXUS_OPERATION_STATE_''\<rparr>"

definition nexusOperationCancellationState_table :: enum_table where
  "nexusOperationCancellationState_table = \<lparr>mapTable =
     [(''SCHEDULED'', 1),
      (''BACKING_OFF'', 2),
      (''SUCCEEDED'', 3),
      (''FAILED'', 4),
      (''TIMED_OUT'', 5),
      (''BLOCKED'', 6),
      (''UNSPECIFIED'', 0)],
     prefix = ''NEXUS_OPERATION_CANCELLATION_STATE_''\<rparr>"

definition taskReachability_table :: enum_table where
  "taskReachability_table = \<lparr>mapTable =
     [(''NEW_WORKFLOWS'', 1),
      (''EXISTING_WORKFLOWS'', 2),
      (''OPEN_WORKFLOWS'', 3),
      (''CLOSED_WORKFLOWS'', 4),
      (''UNSPECIFIED'', 0)],
     prefix = ''TASK_REACHABILITY_''\<rparr>"

definition scheduleOverlapPolicy_table :: enum_table where
  "scheduleOverlapPolicy_table = \<lparr>mapTable =
     [(''SKIP'', 1),
      (''BUFFER_ONE'', 2),
      (''BUFFER_ALL'', 3),
      (''CANCEL_OTHER'', 4),
      (''TERMINATE_OTHER'', 5),
      (''ALLOW_ALL'', 6),
      (''UNSPECIFIED'', 0)],
     prefix = ''SCHEDULE_OVERLAP_POLICY_''\<rparr>"

definition queryRejectCondition_table :: enum_table where
  "queryRejectCondition_table = \<lparr>mapTable =
     [(''NONE'', 1),
      (''NOT_OPEN'', 2),
      (''NOT_COMPLETED_CLEANLY'', 3),
      (''UNSPECIFIED'', 0)],
     prefix = ''QUERY_REJECT_CONDITION_''\<rparr>"

definition activityIdReusePolicy_table :: enum_table where
  "activityIdReusePolicy_table = \<lparr>mapTable =
     [(''ALLOW_DUPLICATE'', 1),
      (''ALLOW_DUPLICATE_FAILED_ONLY'', 2),
      (''REJECT_DUPLICATE'', 3),
      (''UNSPECIFIED'', 0)],
     prefix = ''ACTIVITY_ID_REUSE_POLICY_''\<rparr>"

definition activityIdConflictPolicy_table :: enum_table where
  "activityIdConflictPolicy_table = \<lparr>mapTable =
     [(''FAIL'', 1),
      (''USE_EXISTING'', 2),
      (''UNSPECIFIED'', 0)],
     prefix = ''ACTIVITY_ID_CONFLICT_POLICY_''\<rparr>"

definition activityExecutionStatus_table :: enum_table where
  "activityExecutionStatus_table = \<lparr>mapTable =
     [(''RUNNING'', 1),
      (''COMPLETED'', 2),
      (''FAILED'', 3),
      (''CANCELED'', 4),
      (''TERMINATED'', 5),
      (''TIMED_OUT'', 6),
      (''PAUSED'', 7),
      (''UNSPECIFIED'', 0)],
     prefix = ''ACTIVITY_EXECUTION_STATUS_''\<rparr>"

definition pendingActivityState_table :: enum_table where
  "pendingActivityState_table = \<lparr>mapTable =
     [(''SCHEDULED'', 1),
      (''STARTED'', 2),
      (''CANCEL_REQUESTED'', 3),
      (''PAUSED'', 4),
      (''PAUSE_REQUESTED'', 5),
      (''UNSPECIFIED'', 0)],
     prefix = ''PENDING_ACTIVITY_STATE_''\<rparr>"

definition sdk_enum_tables :: "enum_table list" where
  "sdk_enum_tables = [nexusHandlerErrorRetryBehavior_table,
     workflowIdReusePolicy_table,
     workflowIdConflictPolicy_table,
     timeoutType_table,
     retryState_table,
     applicationFailureCategory_table,
     suggestContinueAsNewReason_table,
     searchAttributeIndexedValueType_table,
     versioningBehavior_table,
     initialVersioningBehavior_table,
     activityCancellationType_table,
     startChildWorkflowExecutionFailedCause_table,
     nexusOperationCancellationType_table,
     childWorkflowCancellationType_table,
     parentClosePolicy_table,
     workflowUpdateStage_table,
     nexusOperationIdReusePolicy_table,
     nexusOperationIdConflictPolicy_table,
     nexusOperationExecutionStatus_table,
     pendingNexusOperationState_table,
     nexusOperationCancellationState_table,
     taskReachability_table,
     scheduleOverlapPolicy_table,
     queryRejectCondition_table,
     activityIdReusePolicy_table,
     activityIdConflictPolicy_table,
     activityExecutionStatus_table,
     pendingActivityState_table]"

lemmas enum_table_defs = nexusHandlerErrorRetryBehavior_table_def
  workflowIdReusePolicy_table_def
  workflowIdConflictPolicy_table_def
  timeoutType_table_def
  retryState_table_def
  applicationFailureCategory_table_def
  suggestContinueAsNewReason_table_def
  searchAttributeIndexedValueType_table_def
  versioningBehavior_table_def
  initialVersioningBehavior_table_def
  activityCancellationType_table_def
  startChildWorkflowExecutionFailedCause_table_def
  nexusOperationCancellationType_table_def
  childWorkflowCancellationType_table_def
  parentClosePolicy_table_def
  workflowUpdateStage_table_def
  nexusOperationIdReusePolicy_table_def
  nexusOperationIdConflictPolicy_table_def
  nexusOperationExecutionStatus_table_def
  pendingNexusOperationState_table_def
  nexusOperationCancellationState_table_def
  taskReachability_table_def
  scheduleOverlapPolicy_table_def
  queryRejectCondition_table_def
  activityIdReusePolicy_table_def
  activityIdConflictPolicy_table_def
  activityExecutionStatus_table_def
  pendingActivityState_table_def

lemma sdk_enum_tables_ok: "list_all enum_table_ok sdk_enum_tables"
  unfolding sdk_enum_tables_def enum_table_ok_def enum_table_defs
  by (simp add: starts_with_def)

lemma sdk_enum_table_ok: "t \<in> set sdk_enum_tables \<Longrightarrow> enum_table_ok t"
  using sdk_enum_tables_ok by (simp add: list_all_iff)

interpretation nexusHandlerErrorRetryBehavior: enum_converters nexusHandlerErrorRetryBehavior_table
  by unfold_locales (rule sdk_enum_table_ok, simp add: sdk_enum_tables_def)

interpretation workflowIdReusePolicy: enum_converters workflowIdReusePolicy_table
  by unfold_locales (rule sdk_enum_table_ok, simp add: sdk_enum_tables_def)

interpretation workflowIdConflictPolicy: enum_converters workflowIdConflictPolicy_table
  by unfold_locales (rule sdk_enum_table_ok, simp add: sdk_enum_tables_def)

interpretation timeoutType: enum_converters timeoutType_table
  by unfold_locales (rule sdk_enum_table_ok, simp add: sdk_enum_tables_def)

interpretation retryState: enum_converters retryState_table
  by unfold_locales (rule sdk_enum_table_ok, simp add: sdk_enum_tables_def)

interpretation applicationFailureCategory: enum_converters applicationFailureCategory_table
  by unfold_locales (rule sdk_enum_table_ok, simp add: sdk_enum_tables_def)

interpretation suggestContinueAsNewReason: enum_converters suggestContinueAsNewReason_table
  by unfold_locales (rule sdk_enum_table_ok, simp add: sdk_enum_tables_def)

interpretation searchAttributeIndexedValueType: enum_converters searchAttributeIndexedValueType_table
  by unfold_locales (rule sdk_enum_table_ok, simp add: sdk_enum_tables_def)

interpretation versioningBehavior: enum_converters versioningBehavior_table
  by unfold_locales (rule sdk_enum_table_ok, simp add: sdk_enum_tables_def)

interpretation initialVersioningBehavior: enum_converters initialVersioningBehavior_table
  by unfold_locales (rule sdk_enum_table_ok, simp add: sdk_enum_tables_def)

interpretation activityCancellationType: enum_converters activityCancellationType_table
  by unfold_locales (rule sdk_enum_table_ok, simp add: sdk_enum_tables_def)

interpretation startChildWorkflowExecutionFailedCause: enum_converters startChildWorkflowExecutionFailedCause_table
  by unfold_locales (rule sdk_enum_table_ok, simp add: sdk_enum_tables_def)

interpretation nexusOperationCancellationType: enum_converters nexusOperationCancellationType_table
  by unfold_locales (rule sdk_enum_table_ok, simp add: sdk_enum_tables_def)

interpretation childWorkflowCancellationType: enum_converters childWorkflowCancellationType_table
  by unfold_locales (rule sdk_enum_table_ok, simp add: sdk_enum_tables_def)

interpretation parentClosePolicy: enum_converters parentClosePolicy_table
  by unfold_locales (rule sdk_enum_table_ok, simp add: sdk_enum_tables_def)

interpretation workflowUpdateStage: enum_converters workflowUpdateStage_table
  by unfold_locales (rule sdk_enum_table_ok, simp add: sdk_enum_tables_def)

interpretation nexusOperationIdReusePolicy: enum_converters nexusOperationIdReusePolicy_table
  by unfold_locales (rule sdk_enum_table_ok, simp add: sdk_enum_tables_def)

interpretation nexusOperationIdConflictPolicy: enum_converters nexusOperationIdConflictPolicy_table
  by unfold_locales (rule sdk_enum_table_ok, simp add: sdk_enum_tables_def)

interpretation nexusOperationExecutionStatus: enum_converters nexusOperationExecutionStatus_table
  by unfold_locales (rule sdk_enum_table_ok, simp add: sdk_enum_tables_def)

interpretation pendingNexusOperationState: enum_converters pendingNexusOperationState_table
  by unfold_locales (rule sdk_enum_table_ok, simp add: sdk_enum_tables_def)

interpretation nexusOperationCancellationState: enum_converters nexusOperationCancellationState_table
  by unfold_locales (rule sdk_enum_table_ok, simp add: sdk_enum_tables_def)

interpretation taskReachability: enum_converters taskReachability_table
  by unfold_locales (rule sdk_enum_table_ok, simp add: sdk_enum_tables_def)

interpretation scheduleOverlapPolicy: enum_converters scheduleOverlapPolicy_table
  by unfold_locales (rule sdk_enum_table_ok, simp add: sdk_enum_tables_def)

interpretation queryRejectCondition: enum_converters queryRejectCondition_table
  by unfold_locales (rule sdk_enum_table_ok, simp add: sdk_enum_tables_def)

interpretation activityIdReusePolicy: enum_converters activityIdReusePolicy_table
  by unfold_locales (rule sdk_enum_table_ok, simp add: sdk_enum_tables_def)

interpretation activityIdConflictPolicy: enum_converters activityIdConflictPolicy_table
  by unfold_locales (rule sdk_enum_table_ok, simp add: sdk_enum_tables_def)

interpretation activityExecutionStatus: enum_converters activityExecutionStatus_table
  by unfold_locales (rule sdk_enum_table_ok, simp add: sdk_enum_tables_def)

interpretation pendingActivityState: enum_converters pendingActivityState_table
  by unfold_locales (rule sdk_enum_table_ok, simp add: sdk_enum_tables_def)

section \<open>Properties\<close>

text \<open>
  C27: for every enumeration of the SDK, every name of its table except the unset one goes to a
  protobuf number and back unchanged, with or without the enumeration's prefix.
\<close>

theorem sdk_enums_roundtrip:
  assumes "t \<in> set sdk_enum_tables" and "(k, v) \<in> set (mapTable t)" and "\<not> (hasUnspecified t \<and> v = 0)"
  shows "encodeEnum t (EnumString k) = Inr (Some (EnumNum v)) \<and>
     encodeEnum t (EnumString (prefix t @ k)) = Inr (Some (EnumNum v)) \<and>
     decodeEnum t (EnumNumber v) = Inr (Some k)"
proof -
  have ok: "enum_converters t"
    by unfold_locales (rule sdk_enum_table_ok [OF assms(1)])
  show ?thesis
    using enum_converters.encode_key [OF ok assms(2)] enum_converters.encode_prefixed_key [OF ok assms(2)]
      enum_converters.decode_key [OF ok assms(2,3)] by simp
qed

theorem sdk_enums_roundtrip_witness:
  "encodeEnum parentClosePolicy_table (EnumString ''ABANDON'') = Inr (Some (EnumNum 2)) \<and>
   encodeEnum parentClosePolicy_table (EnumString ''PARENT_CLOSE_POLICY_ABANDON'') = Inr (Some (EnumNum 2)) \<and>
   decodeEnum parentClosePolicy_table (EnumNumber 2) = Inr (Some ''ABANDON'')"
  using sdk_enums_roundtrip [of parentClosePolicy_table "''ABANDON''" 2]
  by (simp add: sdk_enum_tables_def parentClosePolicy_table_def)

text \<open>
  The \<open>in\<close> test lets the name of an inherited object member through: no error is raised and the
  result is no number.
\<close>

lemma encodeEnum_inherited:
  "encodeEnum parentClosePolicy_table (EnumString ''toString'') = Inr (Some (InheritedMember ''toString''))"
  by (simp add: parentClosePolicy_table_def shorten_def starts_with_def object_members_def)

end
