(* ===== verification/RetryPolicy.thy ===== *)
theory RetryPolicy
  imports Time
begin

text \<open>
  \<^verbatim>\<open>packages/common/src/retry-policy.ts\<close> and \<^verbatim>\<open>packages/common/src/priority.ts\<close>: the validation and
  translation of retry policies, priorities and versioning overrides between the public API and the wire.
\<close>

section \<open>Retry policies\<close>

record retry_policy =
  backoffCoefficient :: "jsnum option"
  initialInterval :: "duration option"
  maximumAttempts :: "jsnum option"
  maximumInterval :: "duration option"
  nonRetryableErrorTypes :: "string list option"

record proto_retry_policy =
  pr_maximumAttempts :: "jsnum option"
  pr_initialInterval :: "timestamp option"
  pr_maximumInterval :: "timestamp option"
  pr_backoffCoefficient :: "jsnum option"
  pr_nonRetryableErrorTypes :: "string list option"

text \<open>JavaScript's comparisons: anything compared with \<open>NaN\<close> is false.\<close>

fun js_lt :: "jsnum \<Rightarrow> jsnum \<Rightarrow> bool" where
  "js_lt NaN _ = False"
| "js_lt _ NaN = False"
| "js_lt _ NegInf = False"
| "js_lt PosInf _ = False"
| "js_lt NegInf _ = True"
| "js_lt _ PosInf = True"
| "js_lt (Num a) (Num b) = (a < b)"

definition js_le :: "jsnum \<Rightarrow> jsnum \<Rightarrow> bool" where
  "js_le a b \<longleftrightarrow> a \<noteq> NaN \<and> b \<noteq> NaN \<and> (js_lt a b \<or> a = b)"

fun js_isInteger :: "jsnum \<Rightarrow> bool" where
  "js_isInteger (Num a) = (of_int \<lfloor>a\<rfloor> = a)"
| "js_isInteger _ = False"

definition check_maximumAttempts :: "retry_policy \<Rightarrow> js_error + retry_policy" where
  "check_maximumAttempts p = (case maximumAttempts p of
     None \<Rightarrow> Inr p
   | Some n \<Rightarrow>
       if n = PosInf \<or> n = Num 0 then Inr (p\<lparr>maximumAttempts := None\<rparr>)
       else if js_lt n (Num 0) then Inl (ValueError
         ''RetryPolicy.maximumAttempts must be a positive integer, 0 (unlimited), or Infinity (unlimited)'')
       else if \<not> js_isInteger n then Inl (ValueError ''RetryPolicy.maximumAttempts must be an integer'')
       else Inr p)"

definition compileRetryPolicy :: "(string \<Rightarrow> rat option) \<Rightarrow> retry_policy \<Rightarrow> js_error + proto_retry_policy" where
  "compileRetryPolicy ms p =
     (if (case backoffCoefficient p of None \<Rightarrow> False | Some c \<Rightarrow> js_le c (Num 0))
      then Inl (ValueError ''RetryPolicy.backoffCoefficient must be greater than 0'')
      else bind_res (check_maximumAttempts p) (\<lambda>p.
        bind_res (msOptionalToNumber ms (maximumInterval p)) (\<lambda>maxI.
        bind_res (msToNumber ms (case initialInterval p of None \<Rightarrow> Millis (Num 1000) | Some d \<Rightarrow> d)) (\<lambda>initI.
          if maxI = Some (Num 0) then Inl (ValueError ''RetryPolicy.maximumInterval cannot be 0'')
          else if initI = Num 0 then Inl (ValueError ''RetryPolicy.initialInterval cannot be 0'')
          else if (case maxI of None \<Rightarrow> False | Some m \<Rightarrow> js_lt m initI)
          then Inl (ValueError ''RetryPolicy.maximumInterval cannot be less than its initialInterval'')
          else bind_res (msToTs ms (Millis initI)) (\<lambda>it.
            bind_res (msOptionalToTs ms (map_option Millis maxI)) (\<lambda>mt.
              Inr \<lparr>pr_maximumAttempts = maximumAttempts p, pr_initialInterval = Some it,
                   pr_maximumInterval = mt, pr_backoffCoefficient = backoffCoefficient p,
                   pr_nonRetryableErrorTypes = nonRetryableErrorTypes p\<rparr>))))))"

definition decompileRetryPolicy :: "proto_retry_policy option \<Rightarrow> js_error + retry_policy option" where
  "decompileRetryPolicy q = (case q of
     None \<Rightarrow> Inr None
   | Some q \<Rightarrow>
       bind_res (optionalTsToMs (pr_maximumInterval q)) (\<lambda>maxI.
       bind_res (optionalTsToMs (pr_initialInterval q)) (\<lambda>initI.
         Inr (Some \<lparr>backoffCoefficient = pr_backoffCoefficient q,
                    initialInterval = map_option (\<lambda>m. Millis (Num (of_int m))) initI,
                    maximumAttempts = pr_maximumAttempts q,
                    maximumInterval = map_option (\<lambda>m. Millis (Num (of_int m))) maxI,
                    nonRetryableErrorTypes = pr_nonRetryableErrorTypes q\<rparr>))))"

section \<open>Priorities\<close>

record priority =
  priorityKey :: "jsnum option"
  fairnessKey :: "string option"
  fairnessWeight :: "jsnum option"

definition compilePriority :: "priority \<Rightarrow> js_error + priority" where
  "compilePriority p =
     bind_res (case priorityKey p of
         None \<Rightarrow> Inr ()
       | Some k \<Rightarrow> if \<not> js_isInteger k then Inl (TypeError ''priorityKey must be an integer'')
                   else if js_lt k (Num 0) then Inl (RangeError ''priorityKey must be a positive integer'')
                   else Inr ())
       (\<lambda>_. Inr \<lparr>priorityKey = Some (case priorityKey p of None \<Rightarrow> Num 0 | Some k \<Rightarrow> k),
                 fairnessKey = Some (case fairnessKey p of None \<Rightarrow> [] | Some k \<Rightarrow> k),
                 fairnessWeight = Some (case fairnessWeight p of None \<Rightarrow> Num 0 | Some w \<Rightarrow> w)\<rparr>)"

definition decodePriority :: "priority option \<Rightarrow> priority" where
  "decodePriority p = (case p of
     None \<Rightarrow> \<lparr>priorityKey = None, fairnessKey = None, fairnessWeight = None\<rparr>
   | Some p \<Rightarrow> \<lparr>priorityKey = priorityKey p, fairnessKey = fairnessKey p, fairnessWeight = fairnessWeight p\<rparr>)"

section \<open>Optional options and versioning overrides\<close>

definition compile_optional :: "('a \<Rightarrow> js_error + 'b) \<Rightarrow> 'a option \<Rightarrow> js_error + 'b option" where
  "compile_optional f x = (case x of None \<Rightarrow> Inr None | Some y \<Rightarrow> bind_res (f y) (\<lambda>z. Inr (Some z)))"

text \<open>\<^verbatim>\<open>VersioningOverride\<close> and its protobuf form.\<close>

datatype versioning_override = AutoUpgrade | OneTimeTo string | PinnedTo string

datatype proto_versioning_override = ProtoAutoUpgrade | ProtoOneTime string | ProtoPinned string int

text \<open>\<^verbatim>\<open>packages/common/src/worker-deployments.ts\<close>; the behaviour of a pinned override is the number 1.\<close>

definition versioningOverrideToProto :: "versioning_override option \<Rightarrow> proto_versioning_override option" where
  "versioningOverrideToProto v = (case v of
     None \<Rightarrow> None
   | Some AutoUpgrade \<Rightarrow> Some ProtoAutoUpgrade
   | Some (OneTimeTo d) \<Rightarrow> Some (ProtoOneTime d)
   | Some (PinnedTo d) \<Rightarrow> Some (ProtoPinned d 1))"

section \<open>What a compiled policy promises\<close>

lemma check_maximumAttempts_Inr:
  assumes "check_maximumAttempts p = Inr p'"
  shows "p' = p \<and> (\<exists>n. maximumAttempts p = Some (Num (of_int n)) \<and> 0 < n) \<or>
         p' = p\<lparr>maximumAttempts := None\<rparr> \<and> maximumAttempts p \<in> {None, Some PosInf, Some (Num 0)}"
proof (cases "maximumAttempts p")
  case None
  with assms show ?thesis by (simp add: check_maximumAttempts_def)
next
  case (Some n)
  show ?thesis
  proof (cases n)
    case (Num a)
    then show ?thesis
      using assms Some by (fastforce simp: check_maximumAttempts_def split: if_splits
          intro: exI [of _ "\<lfloor>a\<rfloor>"])
  qed (use assms Some in \<open>auto simp: check_maximumAttempts_def split: if_splits\<close>)
qed



end
