(* ===== verification/SdkFlags.thy ===== *)
theory SdkFlags
  imports Errors
begin

text \<open>
  \<^verbatim>\<open>packages/workflow/src/flags.ts\<close>: the registry of SDK flags, which gate changes of the runtime's
  behaviour so that the histories written by older SDK versions replay as they ran.
\<close>

section \<open>Versions\<close>

record semver =
  major :: nat
  minor :: nat
  patch :: nat

definition is_digit :: "char \<Rightarrow> bool" where
  "is_digit c \<longleftrightarrow> 48 \<le> (of_char c :: nat) \<and> (of_char c :: nat) \<le> 57"

definition parseInt10 :: "string \<Rightarrow> nat" where
  "parseInt10 s = foldl (\<lambda>n c. 10 * n + (of_char c - 48)) 0 s"

text \<open>
  The regular expression: three groups of digits separated by dots. A group takes every digit it
  can; what follows it is no digit, so a shorter group never helps.
\<close>

fun match_semver_here :: "string \<Rightarrow> (string \<times> string \<times> string) option" where
  "match_semver_here s =
     (let a = takeWhile is_digit s; r1 = dropWhile is_digit s in
      if a = [] then None
      else case r1 of
        [] \<Rightarrow> None
      | c1 # r1' \<Rightarrow>
          if c1 \<noteq> CHR ''.'' then None
          else let b = takeWhile is_digit r1'; r2 = dropWhile is_digit r1' in
            if b = [] then None
            else case r2 of
              [] \<Rightarrow> None
            | c2 # r2' \<Rightarrow>
                if c2 \<noteq> CHR ''.'' then None
                else let c = takeWhile is_digit r2' in
                  if c = [] then None else Some (a, b, c))"

fun match_semver :: "string \<Rightarrow> (string \<times> string \<times> string) option" where
  "match_semver [] = None"
| "match_semver (c # s) =
     (case match_semver_here (c # s) of Some m \<Rightarrow> Some m | None \<Rightarrow> match_semver s)"

declare match_semver_here.simps [simp del]

definition parseSemver :: "string \<Rightarrow> semver option" where
  "parseSemver version = (case match_semver version of
     None \<Rightarrow> None
   | Some (a, b, c) \<Rightarrow> Some \<lparr>major = parseInt10 a, minor = parseInt10 b, patch = parseInt10 c\<rparr>)"

definition compareSemver :: "semver \<Rightarrow> semver \<Rightarrow> int" where
  "compareSemver a b =
     (if major a < major b then -1
      else if major a > major b then 1
      else if minor a < minor b then -1
      else if minor a > minor b then 1
      else if patch a < patch b then -1
      else if patch a > patch b then 1
      else 0)"

section \<open>Alternative conditions and flags\<close>

record flag_context =
  currentBuildId :: "string option"
  ctx_sdkVersion :: "string option"

type_synonym alt_condition = "flag_context \<Rightarrow> bool"

text \<open>The build ids of the workers 1.11.0 and 1.11.1: \<^verbatim>\<open>^@temporalio/worker@(1\.11\.[01])[+]\<close>.\<close>

definition buildIdSdkVersionMatches_1_11_01 :: alt_condition where
  "buildIdSdkVersionMatches_1_11_01 ctx = (case currentBuildId ctx of
     None \<Rightarrow> False
   | Some b \<Rightarrow> starts_with b ''@temporalio/worker@1.11.0+'' \<or> starts_with b ''@temporalio/worker@1.11.1+'')"

definition isCompared :: "semver \<Rightarrow> int \<Rightarrow> bool \<Rightarrow> alt_condition" where
  "isCompared cmp comparison missingDefault ctx = (case ctx_sdkVersion ctx of
     None \<Rightarrow> missingDefault
   | Some v \<Rightarrow>
       if v = [] then missingDefault
       else case parseSemver v of
         None \<Rightarrow> missingDefault
       | Some version \<Rightarrow> compareSemver cmp version = comparison)"

definition isAtLeast :: "semver \<Rightarrow> bool \<Rightarrow> alt_condition" where
  "isAtLeast cmp missingDefault ctx \<longleftrightarrow> isCompared cmp (-1) missingDefault ctx \<or> isCompared cmp 0 missingDefault ctx"

record sdk_flag =
  flag_id :: nat
  flag_default :: bool
  alternativeConditions :: "alt_condition list"

definition NonCancellableScopesAreShieldedFromPropagation :: sdk_flag where
  "NonCancellableScopesAreShieldedFromPropagation = \<lparr>flag_id = 1, flag_default = True,
     alternativeConditions = [buildIdSdkVersionMatches_1_11_01]\<rparr>"

definition ProcessWorkflowActivationJobsAsSingleBatch :: sdk_flag where
  "ProcessWorkflowActivationJobsAsSingleBatch = \<lparr>flag_id = 2, flag_default = True,
     alternativeConditions = [buildIdSdkVersionMatches_1_11_01]\<rparr>"

definition OpenTelemetryInterceptorsTracesInboundSignals :: sdk_flag where
  "OpenTelemetryInterceptorsTracesInboundSignals = \<lparr>flag_id = 3, flag_default = True,
     alternativeConditions = [isAtLeast \<lparr>major = 1, minor = 11, patch = 5\<rparr> False]\<rparr>"

definition OpenTelemetryInterceptorsTracesLocalActivities :: sdk_flag where
  "OpenTelemetryInterceptorsTracesLocalActivities = \<lparr>flag_id = 4, flag_default = True,
     alternativeConditions = [isAtLeast \<lparr>major = 1, minor = 11, patch = 6\<rparr> False]\<rparr>"

definition OpenTelemetryInterceporsAvoidsExtraYields :: sdk_flag where
  "OpenTelemetryInterceporsAvoidsExtraYields = \<lparr>flag_id = 5, flag_default = True,
     alternativeConditions = [isAtLeast \<lparr>major = 1, minor = 13, patch = 2\<rparr> False]\<rparr>"

definition OpenTelemetryInterceptorsInstrumentsAllMethods :: sdk_flag where
  "OpenTelemetryInterceptorsInstrumentsAllMethods = \<lparr>flag_id = 6, flag_default = True,
     alternativeConditions = []\<rparr>"

definition flagsRegistry :: "(nat, sdk_flag) js_map" where
  "flagsRegistry = map (\<lambda>f. (flag_id f, f))
     [NonCancellableScopesAreShieldedFromPropagation, ProcessWorkflowActivationJobsAsSingleBatch,
      OpenTelemetryInterceptorsTracesInboundSignals, OpenTelemetryInterceptorsTracesLocalActivities,
      OpenTelemetryInterceporsAvoidsExtraYields, OpenTelemetryInterceptorsInstrumentsAllMethods]"

definition assertValidFlag :: "nat \<Rightarrow> js_error + unit" where
  "assertValidFlag flag =
     (if js_has flagsRegistry flag then Inr ()
      else Inl (TypeError (''Unknown SDK flag: '' @ nat_to_string flag)))"

lemmas sdk_flag_defs = NonCancellableScopesAreShieldedFromPropagation_def
  ProcessWorkflowActivationJobsAsSingleBatch_def OpenTelemetryInterceptorsTracesInboundSignals_def
  OpenTelemetryInterceptorsTracesLocalActivities_def OpenTelemetryInterceporsAvoidsExtraYields_def
  OpenTelemetryInterceptorsInstrumentsAllMethods_def

section \<open>Facts\<close>

text \<open>Comparison of versions is the lexicographic order of the three numbers.\<close>

definition semver_le :: "semver \<Rightarrow> semver \<Rightarrow> bool" where
  "semver_le a b \<longleftrightarrow> major a < major b \<or> (major a = major b \<and>
     (minor a < minor b \<or> (minor a = minor b \<and> patch a \<le> patch b)))"

lemma compareSemver_le: "compareSemver a b \<le> 0 \<longleftrightarrow> semver_le a b"
  by (auto simp: compareSemver_def semver_le_def)

lemma compareSemver_antisym: "compareSemver b a = - compareSemver a b"
  by (simp add: compareSemver_def)

lemma compareSemver_cases: "compareSemver a b \<in> {-1, 0, 1}"
  by (simp add: compareSemver_def)

lemma semver_le_trans: "semver_le a b \<Longrightarrow> semver_le b c \<Longrightarrow> semver_le a c"
  by (auto simp: semver_le_def)

lemma isAtLeast_iff:
  assumes "ctx_sdkVersion ctx = Some v" and "v \<noteq> []" and "parseSemver v = Some w"
  shows "isAtLeast cmp d ctx \<longleftrightarrow> semver_le cmp w"
  using assms compareSemver_cases [of cmp w] compareSemver_le [of cmp w]
  by (auto simp: isAtLeast_def isCompared_def)

text \<open>A version string made of three numbers parses to them, whatever text follows.\<close>

lemma takeWhile_digits_dot:
  "list_all is_digit a \<Longrightarrow> takeWhile is_digit (a @ CHR ''.'' # s) = a \<and>
     dropWhile is_digit (a @ CHR ''.'' # s) = CHR ''.'' # s"
  by (induction a) (simp_all add: is_digit_def)

lemma match_semver_triple:
  assumes "list_all is_digit a" "a \<noteq> []" "list_all is_digit b" "b \<noteq> []" "list_all is_digit c" "c \<noteq> []"
    and "s = [] \<or> \<not> is_digit (hd s)"
  shows "match_semver (a @ ''.'' @ b @ ''.'' @ c @ s) = Some (a, b, c)"
proof -
  have c: "takeWhile is_digit (c @ s) = c"
    using assms(5,7) by (cases s) (simp_all add: takeWhile_append2 list_all_iff takeWhile_append)
  have "match_semver_here (a @ ''.'' @ b @ ''.'' @ c @ s) = Some (a, b, c)"
    using assms takeWhile_digits_dot [OF assms(1), of "b @ ''.'' @ c @ s"]
      takeWhile_digits_dot [OF assms(3), of "c @ s"] c
    by (simp add: match_semver_here.simps Let_def)
  then show ?thesis
    using assms(2) by (cases a) simp_all
qed

lemma parseSemver_triple:
  assumes "list_all is_digit a" "a \<noteq> []" "list_all is_digit b" "b \<noteq> []" "list_all is_digit c" "c \<noteq> []"
    and "s = [] \<or> \<not> is_digit (hd s)"
  shows "parseSemver (a @ ''.'' @ b @ ''.'' @ c @ s) =
     Some \<lparr>major = parseInt10 a, minor = parseInt10 b, patch = parseInt10 c\<rparr>"
  using match_semver_triple [OF assms] by (simp add: parseSemver_def)

lemma assertValidFlag_iff: "assertValidFlag flag = Inr () \<longleftrightarrow> flag \<in> {1, 2, 3, 4, 5, 6}"
  by (auto simp: assertValidFlag_def js_has_def flagsRegistry_def sdk_flag_defs)

end
