(* ===== verification/PayloadConverter.thy ===== *)
theory PayloadConverter
  imports Errors
begin

text \<open>
  The interface of payload converters and the helper functions around it,
  \<^verbatim>\<open>packages/common/src/converter/payload-converter.ts\<close>. A payload converter is user-replaceable code:
  a pair of functions that may throw. Objects are lists of their own entries.
\<close>

record payload_converter =
  toPayload :: "jsval \<Rightarrow> serialization_context option \<Rightarrow> string option \<Rightarrow> js_error + payload"
  fromPayload :: "payload \<Rightarrow> serialization_context option \<Rightarrow> string option \<Rightarrow> js_error + jsval"

text \<open>
  A \<open>TypeInfo\<close>: whether it is the marker object of raw values, the pair of transfer conversions
  (to and from) and the converter hint.
\<close>

record type_info =
  ti_raw :: bool
  ti_transfer :: "((jsval \<Rightarrow> js_error + jsval) \<times> (jsval \<Rightarrow> js_error + jsval)) option"
  ti_hint :: "string option"

record payload_type_info =
  inputTypes :: "type_info list option"
  outputType :: "type_info option"

definition input_types :: "payload_type_info option \<Rightarrow> type_info list option" where
  "input_types ti = (case ti of None \<Rightarrow> None | Some t \<Rightarrow> inputTypes t)"

definition hint_of :: "type_info option \<Rightarrow> string option" where
  "hint_of ti = (case ti of None \<Rightarrow> None | Some t \<Rightarrow> ti_hint t)"

definition isRawValueTypeInfo :: "type_info option \<Rightarrow> bool" where
  "isRawValueTypeInfo ti = (case ti of None \<Rightarrow> False | Some t \<Rightarrow> ti_raw t)"

definition toPayloadWithTypeInfo ::
  "payload_converter \<Rightarrow> jsval \<Rightarrow> serialization_context option \<Rightarrow> type_info option \<Rightarrow> js_error + payload" where
  "toPayloadWithTypeInfo conv v ctx ti =
     (if isRawValueTypeInfo ti
      then case v of JRaw p \<Rightarrow> Inr p | _ \<Rightarrow> Inl (ValueError ''RawValue TypeInfo requires a RawValue value'')
      else bind_res (case ti of None \<Rightarrow> Inr v
                     | Some t \<Rightarrow> (case ti_transfer t of None \<Rightarrow> Inr v | Some (to, _) \<Rightarrow> to v))
             (\<lambda>tv. toPayload conv tv ctx (hint_of ti)))"

definition fromPayloadWithTypeInfo ::
  "payload_converter \<Rightarrow> payload \<Rightarrow> serialization_context option \<Rightarrow> type_info option \<Rightarrow> js_error + jsval" where
  "fromPayloadWithTypeInfo conv p ctx ti =
     (if isRawValueTypeInfo ti then Inr (JRaw p)
      else bind_res (fromPayload conv p ctx (hint_of ti)) (\<lambda>tv.
        case ti of None \<Rightarrow> Inr tv
        | Some t \<Rightarrow> (case ti_transfer t of None \<Rightarrow> Inr tv | Some (_, from) \<Rightarrow> from tv)))"

text \<open>\<open>typeInfo?.[index]\<close>: absent beyond the end of the list.\<close>

definition type_at :: "type_info list option \<Rightarrow> nat \<Rightarrow> type_info option" where
  "type_at tis i = (case tis of None \<Rightarrow> None | Some ts \<Rightarrow> if i < length ts then Some (ts ! i) else None)"

definition toPayloadsWithContext ::
  "payload_converter \<Rightarrow> serialization_context option \<Rightarrow> jsval list \<Rightarrow> type_info list option \<Rightarrow>
     js_error + payload list option" where
  "toPayloadsWithContext conv ctx vs tis =
     (if vs = [] then Inr None
      else bind_res (map_res (\<lambda>(i, v). toPayloadWithTypeInfo conv v ctx (type_at tis i)) (enumerate 0 vs))
             (\<lambda>ps. Inr (Some ps)))"

definition arrayFromPayloads ::
  "payload_converter \<Rightarrow> payload list option \<Rightarrow> serialization_context option \<Rightarrow> type_info list option \<Rightarrow>
     js_error + jsval list" where
  "arrayFromPayloads conv ps ctx tis = (case ps of
     None \<Rightarrow> Inr []
   | Some ps \<Rightarrow> map_res (\<lambda>(i, p). fromPayloadWithTypeInfo conv p ctx (type_at tis i)) (enumerate 0 ps))"

definition convertOptionalToPayload ::
  "payload_converter \<Rightarrow> string option \<Rightarrow> serialization_context option \<Rightarrow> js_error + payload option" where
  "convertOptionalToPayload conv v ctx = (case v of
     None \<Rightarrow> Inr None
   | Some s \<Rightarrow> bind_res (toPayload conv (JStr s) ctx None) (\<lambda>p. Inr (Some p)))"

definition mapToPayloads ::
  "payload_converter \<Rightarrow> (string \<times> jsval) list \<Rightarrow> serialization_context option \<Rightarrow>
     js_error + (string \<times> payload) list" where
  "mapToPayloads conv m ctx =
     map_res (\<lambda>(k, v). bind_res (toPayload conv v ctx None) (\<lambda>p. Inr (k, p))) m"

definition mapFromPayloads ::
  "payload_converter \<Rightarrow> (string \<times> payload) list option \<Rightarrow> serialization_context option \<Rightarrow>
     js_error + (string \<times> jsval) list option" where
  "mapFromPayloads conv m ctx = (case m of
     None \<Rightarrow> Inr None
   | Some m \<Rightarrow> bind_res (map_res (\<lambda>(k, p). bind_res (fromPayload conv p ctx None) (\<lambda>v. Inr (k, v))) m)
       (\<lambda>vs. Inr (Some vs)))"

definition fromPayloadsAtIndex ::
  "payload_converter \<Rightarrow> nat \<Rightarrow> payload list option \<Rightarrow> serialization_context option \<Rightarrow> type_info option \<Rightarrow>
     js_error + jsval" where
  "fromPayloadsAtIndex conv i ps ctx ti = (case ps of
     None \<Rightarrow> Inr Undefined
   | Some ps \<Rightarrow> if i \<ge> length ps then Inr Undefined else fromPayloadWithTypeInfo conv (ps ! i) ctx ti)"

text \<open>
  A value that its type information transfers to one the converter handles, and back: a raw value where
  the type information asks for one.
\<close>

definition ti_transfer_ok :: "(jsval \<Rightarrow> bool) \<Rightarrow> type_info option \<Rightarrow> jsval \<Rightarrow> bool" where
  "ti_transfer_ok ok ti v = (case ti of
     None \<Rightarrow> ok v
   | Some t \<Rightarrow> ti_raw t \<or> (case ti_transfer t of
       None \<Rightarrow> ok v
     | Some (to, from) \<Rightarrow> (case to v of Inl e \<Rightarrow> True | Inr w \<Rightarrow> ok w \<and> from w = Inr v)))"

text \<open>\<^verbatim>\<open>packages/common/src/user-metadata.ts\<close>.\<close>

record user_metadata =
  um_summary :: "payload option"
  um_details :: "payload option"

definition userMetadataToPayload ::
  "payload_converter \<Rightarrow> string option \<Rightarrow> string option \<Rightarrow> serialization_context option \<Rightarrow>
     js_error + user_metadata option" where
  "userMetadataToPayload conv staticSummary staticDetails ctx =
     (if staticSummary = None \<and> staticDetails = None then Inr None
      else bind_res (convertOptionalToPayload conv staticSummary ctx) (\<lambda>summary.
        bind_res (convertOptionalToPayload conv staticDetails ctx) (\<lambda>details.
          if summary = None \<and> details = None then Inr None
          else Inr (Some \<lparr>um_summary = summary, um_details = details\<rparr>))))"

section \<open>The contract of a converter\<close>

text \<open>
  The law every data converter is expected to keep: the values of a class \<open>ok\<close> are read back from what
  they are serialized to. Everything the helpers promise follows from it.
\<close>

locale lossless_converter =
  fixes conv :: payload_converter
    and ok :: "jsval \<Rightarrow> bool"
  assumes lossless: "ok v \<Longrightarrow> toPayload conv v ctx h = Inr p \<Longrightarrow> fromPayload conv p ctx h = Inr v"
begin

lemma value_roundtrip:
  assumes "toPayloadWithTypeInfo conv v ctx ti = Inr p" and "ti_transfer_ok ok ti v"
  shows "fromPayloadWithTypeInfo conv p ctx ti = Inr v"
  using assms
  by (auto simp: toPayloadWithTypeInfo_def fromPayloadWithTypeInfo_def bind_res_Inr_iff hint_of_def ti_transfer_ok_def
      isRawValueTypeInfo_def lossless split: option.splits if_splits jsval.splits sum.splits)

lemma map_roundtrip:
  assumes "mapToPayloads conv m ctx = Inr ps" and "list_all (\<lambda>(k, v). ok v) m"
  shows "mapFromPayloads conv (Some ps) ctx = Inr (Some m)"
  using assms unfolding mapToPayloads_def mapFromPayloads_def
  by (induction m arbitrary: ps) (auto simp: bind_res_Inr_iff lossless)

lemma values_roundtrip_enum:
  assumes "map_res (\<lambda>(i, v). toPayloadWithTypeInfo conv v ctx (type_at tis i)) (enumerate n vs) = Inr ps"
    and "list_all (\<lambda>(i, v). ti_transfer_ok ok (type_at tis i) v) (enumerate n vs)"
  shows "map_res (\<lambda>(i, p). fromPayloadWithTypeInfo conv p ctx (type_at tis i)) (enumerate n ps) = Inr vs"
  using assms
proof (induction vs arbitrary: n ps)
  case (Cons v vs)
  then obtain q qs where q: "toPayloadWithTypeInfo conv v ctx (type_at tis n) = Inr q" and ps: "ps = q # qs"
    and qs: "map_res (\<lambda>(i, v). toPayloadWithTypeInfo conv v ctx (type_at tis i)) (enumerate (Suc n) vs) = Inr qs"
    by (auto simp: bind_res_Inr_iff)
  show ?case
    using value_roundtrip [OF q] Cons.IH [OF qs] Cons.prems(2) by (simp add: ps)
qed simp

lemma values_roundtrip:
  assumes "toPayloadsWithContext conv ctx vs tis = Inr ps"
    and "list_all (\<lambda>(i, v). ti_transfer_ok ok (type_at tis i) v) (enumerate 0 vs)"
  shows "arrayFromPayloads conv ps ctx tis = Inr vs"
  using assms values_roundtrip_enum [of ctx tis 0 vs]
  by (auto simp: toPayloadsWithContext_def arrayFromPayloads_def bind_res_Inr_iff split: if_splits)

end

end
