(* ===== verification/Encoding.thy ===== *)
theory Encoding
  imports Errors "HOL-Library.Code_Target_Nat"
begin

text \<open>
  The UTF-8 encoder and decoder of \<^verbatim>\<open>packages/common/src/encoding.ts\<close>, which run inside the workflow isolate.
  A JavaScript string is the list of its UTF-16 code units, a typed array the list of its elements: a
  write outside its bounds is dropped, a read outside of them gives \<open>undefined\<close>, which the bit operations
  turn into \<open>0\<close>. Lengths of JavaScript strings are below \<open>2 ^ 29\<close>, so the 32-bit operations on indices do
  not overflow.
\<close>

unbundle bit_operations_syntax

section \<open>The encoder\<close>

fun put :: "nat list \<Rightarrow> nat \<Rightarrow> nat list \<Rightarrow> nat list" where
  "put r pos [] = r"
| "put r pos (b # bs) = put (r[pos := b mod 256]) (Suc pos) bs"

definition charCodeAt :: "nat list \<Rightarrow> nat \<Rightarrow> nat" where
  "charCodeAt s i = (if i < length s then s ! i else 0)"

definition bytes2 :: "nat \<Rightarrow> nat list" where
  "bytes2 p = [push_bit 5 0x6 OR drop_bit 6 p, push_bit 6 0x2 OR (p AND 0x3f)]"

definition bytes3 :: "nat \<Rightarrow> nat list" where
  "bytes3 p = [push_bit 4 0xe OR drop_bit 12 p, push_bit 6 0x2 OR (drop_bit 6 p AND 0x3f), push_bit 6 0x2 OR (p AND 0x3f)]"

definition bytes4 :: "nat \<Rightarrow> nat list" where
  "bytes4 p = [push_bit 3 0x1e OR drop_bit 18 p, push_bit 6 0x2 OR (drop_bit 12 p AND 0x3f),
     push_bit 6 0x2 OR (drop_bit 6 p AND 0x3f), push_bit 6 0x2 OR (p AND 0x3f)]"

text \<open>
  The loop of \<^verbatim>\<open>TextEncoder.encode\<close>. The array has two bytes per code unit and eight spare ones; it is
  replaced by one of three bytes per unit when the output runs ahead of the input. \<^verbatim>\<open>set\<close> throws if the
  new array is too short.
\<close>

function encode_loop :: "nat list \<Rightarrow> nat \<Rightarrow> nat \<Rightarrow> bool \<Rightarrow> nat list \<Rightarrow> js_error + nat list" where
  "encode_loop s i pos upgraded result =
     (if length s \<le> i then Inr (take pos result)
      else
        let point = charCodeAt s i in
        if point \<le> 0x7f then encode_loop s (i + 1) (pos + 1) upgraded (put result pos [point])
        else if point \<le> 0x7ff then encode_loop s (i + 1) (pos + 2) upgraded (put result pos (bytes2 point))
        else
          let high = (0xd800 \<le> point \<and> point \<le> 0xdbff);
              i' = (if high then i + 1 else i);
              nextcode = charCodeAt s i';
              paired = (high \<and> 0xdc00 \<le> nextcode \<and> nextcode \<le> 0xdfff);
              pair = push_bit 10 point + nextcode - 0x35fdc00
          in if paired \<and> 0xffff < pair
             then encode_loop s (i' + 1) (pos + 4) upgraded (put result pos (bytes4 pair))
             else if paired
             then encode_loop s (i' + 1) (pos + 3) upgraded (put result pos (bytes3 pair))
             else
               let point' = (if 0xd800 \<le> point \<and> point \<le> 0xdfff then 65533 else point);
                   grow = (\<not> upgraded \<and> 2 * i' < pos \<and> 2 * i' + 7 < pos)
               in if grow \<and> 3 * length s < length result
                  then Inl (OtherError [Error_class] ''offset is out of bounds'' [] None)
                  else encode_loop s (i' + 1) (pos + 3) (upgraded \<or> grow)
                         (put (if grow then result @ replicate (3 * length s - length result) 0 else result)
                            pos (bytes3 point')))"
  by pat_completeness auto
termination by (relation "measure (\<lambda>(s, i, pos, u, r). length s - i)") (auto simp: Let_def)

declare encode_loop.simps [simp del]

definition encode :: "nat list \<Rightarrow> js_error + nat list" where
  "encode s = encode_loop s 0 0 False (replicate (2 * length s + 8) 0)"

section \<open>The decoder\<close>

definition byteAt :: "nat list \<Rightarrow> nat \<Rightarrow> nat" where
  "byteAt bs i = (if i < length bs then bs ! i AND 0xff else 0)"

text \<open>
  The \<open>switch\<close> statement on the byte at \<open>index\<close>. \<open>Unit u j\<close> puts one code unit into the buffer, \<open>Wide u j\<close> one that
  took several bytes or was replaced in the last case, \<open>Pair h l j\<close> a surrogate pair; \<open>j\<close> is the
  index of the last byte that was read for it.
\<close>

datatype decoded = Unit nat nat | Wide nat nat | Pair nat nat nat

text \<open>The label \<^verbatim>\<open>case 12\<close>, reached with the values of \<open>index\<close>, \<open>cp0\<close>, \<open>codePoint\<close> and \<open>minBits\<close>.\<close>

definition case12 :: "nat list \<Rightarrow> nat \<Rightarrow> nat \<Rightarrow> nat \<Rightarrow> nat \<Rightarrow> decoded" where
  "case12 bs index cp0 codePoint minBits =
     (let j = index + 1;
          cp1 = byteAt bs j;
          cp = push_bit 6 codePoint OR (push_bit 6 (cp0 AND 0x1f) OR (cp1 AND 0x3f));
          mb = minBits + 7
      in if j < length bs \<and> drop_bit 6 cp1 = 2 \<and> drop_bit mb cp \<noteq> 0 \<and> cp < 0x110000
         then if 0x10000 \<le> cp
              then Pair (drop_bit 10 (cp - 0x10000) + 0xd800) ((cp - 0x10000 AND 0x3ff) + 0xdc00) j
              else Wide cp j
         else Wide 0xfffd (j - drop_bit 8 cp0 - 1))"

definition case14 :: "nat list \<Rightarrow> nat \<Rightarrow> nat \<Rightarrow> nat \<Rightarrow> nat \<Rightarrow> decoded" where
  "case14 bs index cp0 codePoint minBits =
     (let j = index + 1;
          cp1 = byteAt bs j;
          cp = push_bit 6 codePoint OR (push_bit 6 (cp0 AND 0xf) OR (cp1 AND 0x3f));
          mb = (if drop_bit 6 cp1 = 2 then minBits + 4 else 24)
      in case12 bs j (cp0 + 0x100 AND 0x300) cp mb)"

definition case15 :: "nat list \<Rightarrow> nat \<Rightarrow> nat \<Rightarrow> decoded" where
  "case15 bs index cp0 =
     (let cp1 = byteAt bs (index + 1) in
      if drop_bit 6 cp1 \<noteq> 2 \<or> 0xf7 < cp0 then Unit 0xfffd index
      else case14 bs (index + 1) 0x100 (push_bit 6 (cp0 AND 0x7) OR (cp1 AND 0x3f)) 5)"

definition decode_switch :: "nat list \<Rightarrow> nat \<Rightarrow> decoded" where
  "decode_switch bs index =
     (let cp0 = byteAt bs index; c = drop_bit 4 cp0 in
      if c = 15 then case15 bs index cp0
      else if c = 14 then case14 bs index cp0 0 0
      else if c = 13 \<or> c = 12 then case12 bs index cp0 0 0
      else if 8 \<le> c \<and> c \<le> 11 then Unit 0xfffd index
      else Unit cp0 index)"

definition limit :: "nat list \<Rightarrow> nat \<Rightarrow> nat" where
  "limit bs index = (if index + 32 \<le> length bs then 32 else length bs - index)"

text \<open>
  The inner loop fills the buffer of 32 code units from position \<open>pos\<close> on; the low surrogate of a pair that
  does not fit is left over in \<open>tmp\<close>.
\<close>

function fill :: "nat list \<Rightarrow> nat \<Rightarrow> nat \<Rightarrow> nat \<Rightarrow> nat list \<Rightarrow> nat option \<Rightarrow> nat \<times> nat \<times> nat list \<times> nat option" where
  "fill bs nextEnd index pos buf tmp =
     (if \<not> pos < nextEnd then (index, pos, buf, tmp)
      else case decode_switch bs index of
             Unit u j \<Rightarrow> fill bs nextEnd (j + 1) (pos + 1) (buf[pos := u]) tmp
           | Wide u j \<Rightarrow> fill bs (limit bs j) (j + 1) (pos + 1) (buf[pos := u]) tmp
           | Pair h l j \<Rightarrow>
               if pos < 31 then fill bs (limit bs j) (j + 1) (pos + 2) (buf[pos := h, pos + 1 := l]) None
               else fill bs (limit bs j) (j + 1) (pos + 1) (buf[pos := h]) (Some l))"
  by pat_completeness auto
termination
  by (relation "measure (\<lambda>(bs, nextEnd, index, pos, buf, tmp). max 32 nextEnd - pos)") (auto simp: limit_def)

declare fill.simps [simp del]

fun last_index :: "decoded \<Rightarrow> nat" where
  "last_index (Unit u j) = j"
| "last_index (Wide u j) = j"
| "last_index (Pair h l j) = j"

lemma lead3_bits: "drop_bit 4 x = 14 \<Longrightarrow> drop_bit 8 (x + 256) AND 3 = Suc 0"
proof -
  assume "drop_bit 4 x = 14"
  then have "x div 16 = 14" by (simp add: drop_bit_eq_div)
  moreover define r where "r = x mod 16"
  ultimately have "x = 224 + r" using mult_div_mod_eq [of 16 x] by simp
  moreover have "r < 16" by (simp add: r_def)
  ultimately have "(x + 256) div 256 = 1" by (intro div_nat_eqI) simp_all
  then have "drop_bit 8 (x + 256) = 1" by (simp add: drop_bit_eq_div)
  then show ?thesis by simp
qed

lemma lead2_bits: "drop_bit 4 x = 13 \<or> drop_bit 4 x = 12 \<Longrightarrow> drop_bit 8 x = (0::nat)"
  by (auto simp: drop_bit_eq_div)

lemma case12_index: "index \<le> last_index (case12 bs index' cp0 cp mb)" if "index' = index + drop_bit 8 cp0"
  using that by (simp add: case12_def Let_def)

lemma case14_index: "index \<le> last_index (case14 bs index' cp0 cp mb)"
  if "index' + 1 = index + drop_bit 8 (cp0 + 0x100 AND 0x300)"
  using that by (simp add: case14_def Let_def case12_index)

lemma decode_switch_index: "index \<le> last_index (decode_switch bs index)"
proof -
  have "index \<le> last_index (case14 bs (index + 1) 0x100 cp 5)" for cp
    by (rule case14_index) simp
  then show ?thesis
    by (auto simp: decode_switch_def case15_def Let_def lead3_bits lead2_bits intro!: case14_index case12_index)
qed

lemma fill_index:
  assumes "fill bs nextEnd index pos buf tmp = (index', pos', buf', tmp')"
  shows "index \<le> index' \<and> (index < index' \<or> (index', pos', buf', tmp') = (index, pos, buf, tmp) \<and> nextEnd \<le> pos)"
  using assms
proof (induction bs nextEnd index pos buf tmp rule: fill.induct)
  case (1 bs nextEnd index pos buf tmp)
  have sw: "index \<le> last_index (decode_switch bs index)" by (rule decode_switch_index)
  show ?case
  proof (cases "pos < nextEnd")
    case True
    note run = "1.prems" [unfolded fill.simps [of bs nextEnd index]]
    show ?thesis
    proof (cases "decode_switch bs index")
      case (Unit u j)
      then show ?thesis using "1.IH"(1) [OF _ Unit] run sw True by fastforce
    next
      case (Wide u j)
      then show ?thesis using "1.IH"(2) [OF _ Wide] run sw True by fastforce
    next
      case (Pair h l j)
      then show ?thesis
        using "1.IH"(3,4) [OF _ Pair] run sw True by (cases "pos < 31") fastforce+
    qed
  qed (use "1.prems" fill.simps [of bs nextEnd index] in simp)
qed

text \<open>
  The outer loop: \<open>tmpStr\<close> takes the filled part of the buffer and is moved to the result when it is at
  least as long, or at the end.
\<close>

definition flush_buffer :: "nat list \<Rightarrow> nat list \<Rightarrow> nat \<Rightarrow> nat list" where
  "flush_buffer tmpStr buf pos = (let t = tmpStr @ buf in if pos < 32 then take (length t - (32 - pos)) t else t)"

definition restart :: "nat list \<Rightarrow> nat option \<Rightarrow> nat list \<times> nat" where
  "restart buf tmp = (case tmp of None \<Rightarrow> (buf[0 := 0xffff], 0) | Some l \<Rightarrow> (buf[0 := l], 1))"

function decode_loop :: "nat list \<Rightarrow> nat \<Rightarrow> nat \<Rightarrow> nat list \<Rightarrow> nat list \<Rightarrow> nat list \<Rightarrow> nat list" where
  "decode_loop bs index pos buf tmpStr result =
     (if \<not> index < length bs then result
      else case fill bs (limit bs index) index pos buf None of
        (index', pos', buf', tmp) \<Rightarrow>
          if index' < length bs
          then if length (flush_buffer tmpStr buf' pos') < length result
               then decode_loop bs index' (snd (restart buf' tmp)) (fst (restart buf' tmp))
                      (flush_buffer tmpStr buf' pos') result
               else decode_loop bs index' (snd (restart buf' tmp)) (fst (restart buf' tmp))
                      [] (result @ flush_buffer tmpStr buf' pos')
          else result @ (case tmp of
                           None \<Rightarrow> flush_buffer tmpStr buf' pos'
                         | Some l \<Rightarrow> flush_buffer tmpStr buf' pos' @ [l]))"
  by pat_completeness auto

lemma outer_progress:
  assumes "index < length bs" and "(index', pos', buf', tmp) = fill bs (limit bs index) index pos buf None"
  shows "length bs - index' < length bs - index \<or> length bs - index' = length bs - index \<and> snd (restart buf' tmp) < pos"
proof -
  have "0 < limit bs index" using assms(1) by (simp add: limit_def)
  then show ?thesis
    using assms fill_index [OF assms(2) [symmetric]] by (auto simp: restart_def)
qed

termination decode_loop
  by (relation "measures [\<lambda>(bs, index, pos, buf, t, r). length bs - index, \<lambda>(bs, index, pos, buf, t, r). pos]")
     (auto dest: outer_progress)

declare decode_loop.simps [simp del]

definition decode :: "nat list \<Rightarrow> nat list" where
  "decode bs = decode_loop bs 0 0 (replicate 32 0) [] []"

section \<open>Encoding into a given array\<close>

definition encoderReplacer :: "nat list \<Rightarrow> nat list" where
  "encoderReplacer nonAsciiChars =
     (let point = charCodeAt nonAsciiChars 0;
          nextcode = charCodeAt nonAsciiChars 1;
          high = (0xd800 \<le> point \<and> point \<le> 0xdbff);
          paired = (high \<and> 0xdc00 \<le> nextcode \<and> nextcode \<le> 0xdfff);
          point' = (if paired then push_bit 10 point + nextcode - 0x35fdc00
                    else if 0xd800 \<le> point \<and> point \<le> 0xdfff then 65533 else point)
      in if paired \<and> 0xffff < point' then bytes4 point'
         else if point' \<le> 0x7ff then bytes2 point' else bytes3 point')"

text \<open>\<^verbatim>\<open>replace(encoderRegexp, encoderReplacer)\<close>: every code unit above 0x7f, with a low surrogate that follows a high one.\<close>

fun replaceChars :: "nat list \<Rightarrow> nat list" where
  "replaceChars [] = []"
| "replaceChars [u] = (if u < 0x80 then [u] else encoderReplacer [u])"
| "replaceChars (u # l # s) =
     (if u < 0x80 then u # replaceChars (l # s)
      else if 0xd800 \<le> u \<and> u \<le> 0xdbff \<and> 0xdc00 \<le> l \<and> l \<le> 0xdfff
      then encoderReplacer [u, l] @ replaceChars s
      else encoderReplacer [u] @ replaceChars (l # s))"

text \<open>The loop of \<^verbatim>\<open>encodeInto\<close>, with the cases of the \<open>switch\<close> that fall through to the next.\<close>

function into_loop :: "nat list \<Rightarrow> nat \<Rightarrow> nat \<Rightarrow> nat list \<Rightarrow> nat \<Rightarrow> nat \<times> nat \<times> nat list" where
  "into_loop encodedString len i u8Arr read =
     (if \<not> i < len then (i, read, u8Arr)
      else let char = charCodeAt encodedString i;
               c = drop_bit 4 char;
               next = (\<lambda>read. into_loop encodedString len (i + 1) (put u8Arr i [char]) read)
           in if c \<le> 7 then next (read + 1)
              else if c \<le> 11 then next read
              else if (c = 12 \<or> c = 13) \<and> i + 1 < length u8Arr then next (read + 1)
              else if c \<le> 14 \<and> i + 2 < length u8Arr then next (read + 1)
              else if c \<le> 15 \<and> i + 3 < length u8Arr then next (read + 1)
              else (i, read, u8Arr))"
  by pat_completeness auto
termination by (relation "measure (\<lambda>(s, len, i, a, r). len - i)") auto

declare into_loop.simps [simp del]

definition encodeInto :: "nat list \<Rightarrow> nat list \<Rightarrow> nat \<times> nat \<times> nat list" where
  "encodeInto s u8Arr =
     (let encodedString = replaceChars s;
          (written, read, arr) = into_loop encodedString (min (length encodedString) (length u8Arr)) 0 u8Arr 0
      in (written, if length s < read then length s else read, arr))"

section \<open>Decoding without the buffer\<close>

fun units_of :: "decoded \<Rightarrow> nat list" where
  "units_of (Unit u j) = [u]"
| "units_of (Wide u j) = [u]"
| "units_of (Pair h l j) = [h, l]"

function decode_units :: "nat list \<Rightarrow> nat \<Rightarrow> nat list" where
  "decode_units bs index = (if index < length bs
     then units_of (decode_switch bs index) @ decode_units bs (last_index (decode_switch bs index) + 1) else [])"
  by pat_completeness auto
termination
  by (relation "measure (\<lambda>(bs, index). length bs - index)")
     (auto simp: diff_less_mono2 less_Suc_eq_le decode_switch_index)

declare decode_units.simps [simp del]

lemma case12_bound: "index < length bs \<Longrightarrow> index' = index + drop_bit 8 cp0 \<Longrightarrow>
    last_index (case12 bs index' cp0 cp mb) < length bs"
  by (auto simp: case12_def Let_def)

lemma case14_bound: "index < length bs \<Longrightarrow> index' + 1 = index + drop_bit 8 (cp0 + 0x100 AND 0x300) \<Longrightarrow>
    last_index (case14 bs index' cp0 cp mb) < length bs"
  by (auto simp: case14_def Let_def intro!: case12_bound)

lemma decode_switch_bound: "index < length bs \<Longrightarrow> last_index (decode_switch bs index) < length bs"
proof -
  assume i: "index < length bs"
  then have "last_index (case14 bs (index + 1) 0x100 cp 5) < length bs" for cp
    by (rule case14_bound) simp
  then show ?thesis
    using i by (auto simp: decode_switch_def case15_def Let_def lead3_bits lead2_bits intro!: case14_bound case12_bound)
qed

lemma limit_bounds: "limit bs index \<le> 32" "index \<le> length bs \<Longrightarrow> limit bs index + index \<le> length bs"
  by (auto simp: limit_def)

definition carry :: "nat option \<Rightarrow> nat list" where
  "carry tmp = (case tmp of None \<Rightarrow> [] | Some l \<Rightarrow> [l])"

lemma carry_simps [simp]: "carry None = []" "carry (Some l) = [l]"
  by (simp_all add: carry_def)

lemma take_put: "pos < length buf \<Longrightarrow> take (Suc pos) (buf[pos := u]) = take pos buf @ [u]"
  by (simp add: take_Suc_conv_app_nth)

lemma fill_spec:
  assumes "fill bs nextEnd index pos buf tmp = (index', pos', buf', tmp')"
    and "length buf = 32" and "nextEnd \<le> 32" and "pos \<le> 32" and "nextEnd + index \<le> pos + length bs"
    and "tmp \<noteq> None \<longrightarrow> pos = 32"
  shows "take pos buf @ carry tmp @ decode_units bs index = take pos' buf' @ carry tmp' @ decode_units bs index' \<and>
     length buf' = 32 \<and> pos' \<le> 32"
  using assms
proof (induction bs nextEnd index pos buf tmp rule: fill.induct)
  case (1 bs nextEnd index pos buf tmp)
  show ?case
  proof (cases "pos < nextEnd")
    case True
    have i: "index < length bs" and pos: "pos < length buf" and tmp: "tmp = None"
      using True "1.prems" by auto
    have step: "decode_units bs index = units_of (decode_switch bs index) @ decode_units bs (last_index (decode_switch bs index) + 1)"
      using i by (subst decode_units.simps) simp
    have b: "last_index (decode_switch bs index) < length bs" using i by (rule decode_switch_bound)
    have lim: "limit bs j + (j + 1) \<le> pos + 1 + length bs" if "j < length bs" for j
      using limit_bounds(2) [of j bs] that by simp
    note run = "1.prems"(1) [unfolded fill.simps [of bs nextEnd index]]
    have mono: "index \<le> last_index (decode_switch bs index)" by (rule decode_switch_index)
    show ?thesis
    proof (cases "decode_switch bs index")
      case (Unit u j)
      then have j: "j = index" by (auto simp: decode_switch_def case15_def case14_def case12_def Let_def split: if_splits)
      show ?thesis
        using "1.IH"(1) [OF _ Unit] run True Unit tmp "1.prems" step j pos by (simp add: take_put)
    next
      case (Wide u j)
      then show ?thesis
        using "1.IH"(2) [OF _ Wide] run True tmp "1.prems" step pos lim [of j] b by (simp add: take_put limit_bounds)
    next
      case (Pair h l j)
      show ?thesis
      proof (cases "pos < 31")
        case p: True
        have "take (pos + 2) (buf[pos := h, pos + 1 := l]) = take pos buf @ [h, l]"
          using p "1.prems"(2) take_put [of "pos + 1" "buf[pos := h]" l] take_put [of pos buf h] by simp
        then show ?thesis
          using "1.IH"(3) [OF _ Pair p] run True tmp "1.prems" step pos lim [of j] b Pair p
          by (simp add: limit_bounds)
      next
        case p: False
        then have "pos = 31" using pos "1.prems"(2) by simp
        moreover from this have "buf[31 := h] = take 31 buf @ [h]"
          using "1.prems"(2) take_put [of 31 buf h] by simp
        ultimately show ?thesis
          using "1.IH"(4) [OF _ Pair p] run True tmp "1.prems" step pos lim [of j] b Pair
          by (simp add: limit_bounds take_put)
      qed
    qed
  qed (use "1.prems" fill.simps [of bs nextEnd index] in simp)
qed

lemma decode_loop_spec:
  assumes "index < length bs" and "length buf = 32" and "pos \<le> 32"
  shows "decode_loop bs index pos buf tmpStr result = result @ tmpStr @ take pos buf @ decode_units bs index"
  using assms
proof (induction bs index pos buf tmpStr result rule: decode_loop.induct)
  case (1 bs index pos buf tmpStr result)
  obtain index' pos' buf' tmp where f: "fill bs (limit bs index) index pos buf None = (index', pos', buf', tmp)"
    by (metis prod_cases4)
  have spec: "take pos buf @ decode_units bs index = take pos' buf' @ carry tmp @ decode_units bs index'"
    "length buf' = 32" "pos' \<le> 32"
    using fill_spec [OF f] "1.prems" limit_bounds(1) [of bs index] limit_bounds(2) [of index bs] by auto
  have str: "flush_buffer tmpStr buf' pos' = tmpStr @ take pos' buf'"
    using spec(2,3) by (auto simp: flush_buffer_def Let_def)
  have re: "take (snd (restart buf' tmp)) (fst (restart buf' tmp)) = carry tmp"
    "length (fst (restart buf' tmp)) = 32" "snd (restart buf' tmp) \<le> 32"
    using spec(2) by (auto simp: restart_def take_put split: option.splits)
  show ?case
  proof (cases "index' < length bs")
    case True
    have "decode_loop bs index' (snd (restart buf' tmp)) (fst (restart buf' tmp)) (flush_buffer tmpStr buf' pos') result =
        result @ flush_buffer tmpStr buf' pos' @ carry tmp @ decode_units bs index'"
      if "length (flush_buffer tmpStr buf' pos') < length result"
      using "1.IH"(1) [OF _ f [symmetric] refl refl True that] "1.prems"(1) True re by simp
    moreover have "decode_loop bs index' (snd (restart buf' tmp)) (fst (restart buf' tmp)) [] (result @ flush_buffer tmpStr buf' pos') =
        (result @ flush_buffer tmpStr buf' pos') @ carry tmp @ decode_units bs index'"
      if "\<not> length (flush_buffer tmpStr buf' pos') < length result"
      using "1.IH"(2) [OF _ f [symmetric] refl refl True that] "1.prems"(1) True re by simp
    ultimately show ?thesis
      using "1.prems"(1) True spec(1) by (subst decode_loop.simps) (simp add: f str)
  next
    case False
    then have "decode_units bs index' = []" by (subst decode_units.simps) simp
    then show ?thesis
      using "1.prems"(1) False spec(1) str
      by (subst decode_loop.simps) (auto simp: f carry_def split: option.splits)
  qed
qed

lemma decode_unbuffered: "decode bs = decode_units bs 0"
proof (cases bs)
  case Nil
  then show ?thesis
    by (simp add: decode_def decode_loop.simps [of "[]"] decode_units.simps [of "[]"])
qed (simp add: decode_def decode_loop_spec)

section \<open>The encoding forms of Unicode\<close>

text \<open>Scalar values, and their encodings as RFC 3629 and RFC 2781 define them.\<close>

definition scalar :: "nat \<Rightarrow> bool" where
  "scalar c \<longleftrightarrow> c < 0xd800 \<or> 0xe000 \<le> c \<and> c < 0x110000"

definition utf16 :: "nat \<Rightarrow> nat list" where
  "utf16 c = (if c < 0x10000 then [c] else [0xd800 + (c - 0x10000) div 0x400, 0xdc00 + (c - 0x10000) mod 0x400])"

definition utf8 :: "nat \<Rightarrow> nat list" where
  "utf8 c =
     (if c < 0x80 then [c]
      else if c < 0x800 then [0xc0 + c div 64, 0x80 + c mod 64]
      else if c < 0x10000 then [0xe0 + c div 4096, 0x80 + c div 64 mod 64, 0x80 + c mod 64]
      else [0xf0 + c div 262144, 0x80 + c div 4096 mod 64, 0x80 + c div 64 mod 64, 0x80 + c mod 64])"

lemma and_mask_mod: "(x::nat) AND 0x3f = x mod 64" "x AND 0xff = x mod 256" "x AND 0x3ff = x mod 1024"
  "x AND 0x1f = x mod 32" "x AND 0xf = x mod 16" "x AND 0x7 = x mod 8"
  using take_bit_eq_mask [of 6 x] take_bit_eq_mask [of 8 x] take_bit_eq_mask [of 10 x]
    take_bit_eq_mask [of 5 x] take_bit_eq_mask [of 4 x] take_bit_eq_mask [of 3 x]
  by (simp_all add: take_bit_eq_mod mask_eq_exp_minus_1)

lemma or_add: "b < 2 ^ n \<Longrightarrow> push_bit n a OR b = push_bit n a + (b::nat)"
proof -
  assume "b < 2 ^ n"
  then have b: "take_bit n b = b" by (simp add: take_bit_nat_eq_self)
  have "push_bit n a AND b = 0"
    by (rule bit_eqI, subst b [symmetric]) (auto simp: bit_and_iff bit_push_bit_iff bit_take_bit_iff)
  then show ?thesis by (simp add: disjunctive_add_eq_or)
qed

lemma or_lead:
  "b < 32 \<Longrightarrow> 192 OR b = 192 + (b::nat)" "b < 64 \<Longrightarrow> 128 OR b = 128 + (b::nat)"
  "b < 16 \<Longrightarrow> 224 OR b = 224 + (b::nat)" "b < 8 \<Longrightarrow> 240 OR b = 240 + (b::nat)"
  using or_add [of b 5 6] or_add [of b 6 2] or_add [of b 4 14] or_add [of b 3 30]
  by (simp_all add: push_bit_eq_mult)

lemmas bit_arith = and_mask_mod or_lead drop_bit_eq_div push_bit_eq_mult

lemma div_small: "(c::nat) < 0x800 \<Longrightarrow> c div 64 < 32" "c < 0x10000 \<Longrightarrow> c div 4096 < 16" "c < 0x200000 \<Longrightarrow> c div 262144 < 8"
  by (simp_all add: less_mult_imp_div_less)

lemma bytes_utf8:
  "0x80 \<le> c \<Longrightarrow> c < 0x800 \<Longrightarrow> bytes2 c = utf8 c"
  "0x800 \<le> c \<Longrightarrow> c < 0x10000 \<Longrightarrow> bytes3 c = utf8 c"
  "0x10000 \<le> c \<Longrightarrow> c < 0x110000 \<Longrightarrow> bytes4 c = utf8 c"
  by (simp_all add: bytes2_def bytes3_def bytes4_def utf8_def bit_arith div_small)

lemma utf8_bytes: "scalar c \<Longrightarrow> b \<in> set (utf8 c) \<Longrightarrow> b < 256"
proof -
  assume c: "scalar c" and b: "b \<in> set (utf8 c)"
  have "c mod 64 < 64" "c div 64 mod 64 < 64" "c div 4096 mod 64 < 64" by simp_all
  moreover have "c < 0x200000" using c by (auto simp: scalar_def)
  ultimately show ?thesis
    using b div_small [of c] by (auto simp: utf8_def split: if_splits)
qed

lemma put_props:
  "length (put r pos bs) = length r"
  "pos + length bs \<le> length r \<Longrightarrow> \<forall>b \<in> set bs. b < 256 \<Longrightarrow> take (pos + length bs) (put r pos bs) = take pos r @ bs"
proof -
  show "length (put r pos bs) = length r" by (induction r pos bs rule: put.induct) simp_all
  show "pos + length bs \<le> length r \<Longrightarrow> \<forall>b \<in> set bs. b < 256 \<Longrightarrow> take (pos + length bs) (put r pos bs) = take pos r @ bs"
    by (induction r pos bs rule: put.induct) (simp_all add: take_put)
qed

section \<open>The encoder is UTF-8\<close>

text \<open>
  What holds before each character: the bytes so far fit, and as long as the array has not been
  replaced, the output is at most eight bytes ahead of two bytes per code unit.
\<close>

definition room :: "nat list \<Rightarrow> nat \<Rightarrow> nat \<Rightarrow> bool \<Rightarrow> nat list \<Rightarrow> bool" where
  "room s i pos upgraded result \<longleftrightarrow> pos \<le> 3 * i \<and>
     (if upgraded then length result = 3 * length s else length result = 2 * length s + 8 \<and> pos \<le> 2 * i + 8)"

lemma surrogates:
  fixes c :: nat
  assumes "0x10000 \<le> c" and "c < 0x110000"
  shows "push_bit 10 (0xd800 + (c - 0x10000) div 0x400) + (0xdc00 + (c - 0x10000) mod 0x400) - 0x35fdc00 = c"
    and "0xd800 + (c - 0x10000) div 0x400 \<le> 0xdbff" and "0xdc00 + (c - 0x10000) mod 0x400 \<le> 0xdfff"
proof -
  define d where "d = c - 0x10000"
  have c: "c = 0x10000 + d" and d: "d < 0x100000" using assms by (simp_all add: d_def)
  have "d div 1024 < 1024" using d by (simp add: less_mult_imp_div_less)
  then show "0xd800 + (c - 0x10000) div 0x400 \<le> 0xdbff" by (simp add: c)
  have "d mod 1024 < 1024" by simp
  then show "0xdc00 + (c - 0x10000) mod 0x400 \<le> 0xdfff" by (simp add: c)
  have "1024 * (d div 1024) + d mod 1024 = d" by simp
  then show "push_bit 10 (0xd800 + (c - 0x10000) div 0x400) + (0xdc00 + (c - 0x10000) mod 0x400) - 0x35fdc00 = c"
    by (simp add: c push_bit_eq_mult algebra_simps)
qed

lemma encode_loop_step:
  assumes s: "s = pre @ utf16 c @ post" and i: "i = length pre" and sc: "scalar c" and r: "room s i pos up result"
  shows "\<exists>up' result'. encode_loop s i pos up result =
      encode_loop s (i + length (utf16 c)) (pos + length (utf8 c)) up' result' \<and>
     room s (i + length (utf16 c)) (pos + length (utf8 c)) up' result' \<and>
     take (pos + length (utf8 c)) result' = take pos result @ utf8 c"
proof -
  have bytes: "\<forall>b \<in> set (utf8 c). b < 256" using utf8_bytes [OF sc] by blast
  consider (one) "c < 0x80" | (two) "0x80 \<le> c" "c < 0x800" | (three) "0x800 \<le> c" "c < 0x10000" "c < 0xd800 \<or> 0xe000 \<le> c"
    | (four) "0x10000 \<le> c" "c < 0x110000"
    using sc by (fastforce simp: scalar_def)
  then show ?thesis
  proof cases
    case one
    then have at: "utf16 c = [c]" "utf8 c = [c]" "charCodeAt s i = c" "i < length s"
      by (simp_all add: utf16_def utf8_def charCodeAt_def s i)
    have "encode_loop s i pos up result = encode_loop s (i + 1) (pos + 1) up (put result pos [c])"
      using at one by (subst encode_loop.simps) simp
    moreover have "room s (i + 1) (pos + 1) up (put result pos [c])"
      using r by (auto simp: room_def put_props)
    moreover have "pos + length [c] \<le> length result"
      using r at(4) by (auto simp: room_def split: if_splits)
    ultimately show ?thesis using put_props(2) [of pos "[c]" result] one by (auto simp: at(1,2))
  next
    case two
    then have at: "utf16 c = [c]" "charCodeAt s i = c" "i < length s" "length (utf8 c) = 2"
      by (simp_all add: utf16_def utf8_def charCodeAt_def s i)
    have "encode_loop s i pos up result = encode_loop s (i + 1) (pos + 2) up (put result pos (utf8 c))"
      using at two by (subst encode_loop.simps) (simp add: bytes_utf8)
    moreover have "room s (i + 1) (pos + 2) up (put result pos (utf8 c))"
      using r by (auto simp: room_def put_props)
    moreover have "pos + length (utf8 c) \<le> length result"
      using r at(3,4) by (auto simp: room_def split: if_splits)
    ultimately show ?thesis using put_props(2) [OF _ bytes, of pos result] by (auto simp: at(1,4))
  next
    case three
    then have at: "utf16 c = [c]" "charCodeAt s i = c" "i < length s" "length (utf8 c) = 3"
      by (simp_all add: utf16_def utf8_def charCodeAt_def s i)
    have bmp: "(0xd800 \<le> c \<and> c \<le> 0xdbff) = False" "(0xd800 \<le> c \<and> c \<le> 0xdfff) = False"
      and small: "(c \<le> 0x7f) = False" "(c \<le> 0x7ff) = False" "(length s \<le> i) = False"
      using three at(3) by auto
    define grow where "grow \<longleftrightarrow> \<not> up \<and> 2 * i < pos \<and> 2 * i + 7 < pos"
    define result' where "result' = (if grow then result @ replicate (3 * length s - length result) 0 else result)"
    have g: "\<not> (grow \<and> 3 * length s < length result)"
      using r at(3) by (auto simp: grow_def room_def)
    have "encode_loop s i pos up result = encode_loop s (i + 1) (pos + 3) (up \<or> grow) (put result' pos (utf8 c))"
      using at three(1,2) g by (subst encode_loop.simps)
        (simp only: bmp Let_def simp_thms if_False if_True at bytes_utf8(2) [OF three(1,2)] grow_def [symmetric]
           result'_def [symmetric] small)
    moreover have "room s (i + 1) (pos + 3) (up \<or> grow) (put result' pos (utf8 c))"
      using r g by (auto simp: room_def put_props result'_def grow_def)
    moreover have l: "pos + length (utf8 c) \<le> length result'" "take pos result' = take pos result"
      using r at(3,4) g by (auto simp: room_def result'_def grow_def split: if_splits)
    ultimately show ?thesis using put_props(2) [OF l(1) bytes] by (auto simp: at(1,4) l(2))
  next
    case four
    define h l where "h = 0xd800 + (c - 0x10000) div 0x400" and "l = 0xdc00 + (c - 0x10000) mod 0x400"
    have at: "utf16 c = [h, l]" "charCodeAt s i = h" "charCodeAt s (i + 1) = l" "i + 1 < length s" "length (utf8 c) = 4"
      using four by (simp_all add: utf16_def utf8_def charCodeAt_def s i h_def l_def nth_append)
    have hl: "push_bit 10 h + l - 0x35fdc00 = c" "0xd800 \<le> h" "h \<le> 0xdbff" "0xdc00 \<le> l" "l \<le> 0xdfff"
      using surrogates [OF four] by (simp_all add: h_def l_def)
    have "encode_loop s i pos up result = encode_loop s (i + 2) (pos + 4) up (put result pos (utf8 c))"
      using at hl four by (subst encode_loop.simps) (simp add: bytes_utf8 Let_def)
    moreover have "room s (i + 2) (pos + 4) up (put result pos (utf8 c))"
      using r by (auto simp: room_def put_props)
    moreover have "pos + length (utf8 c) \<le> length result"
      using r at(4,5) by (auto simp: room_def split: if_splits)
    ultimately show ?thesis using put_props(2) [OF _ bytes, of pos result] by (auto simp: at(1,5))
  qed
qed

lemma encode_loop_spec:
  assumes "s = pre @ concat (map utf16 cs)" and "i = length pre" and "list_all scalar cs" and "room s i pos up result"
  shows "encode_loop s i pos up result = Inr (take pos result @ concat (map utf8 cs))"
  using assms
proof (induction cs arbitrary: pre i pos up result)
  case Nil
  then show ?case by (subst encode_loop.simps) simp
next
  case (Cons c cs)
  obtain up' result' where step: "encode_loop s i pos up result =
      encode_loop s (i + length (utf16 c)) (pos + length (utf8 c)) up' result'"
    "room s (i + length (utf16 c)) (pos + length (utf8 c)) up' result'"
    "take (pos + length (utf8 c)) result' = take pos result @ utf8 c"
    using encode_loop_step [of s pre c "concat (map utf16 cs)" i pos up result] Cons.prems by auto
  have "encode_loop s (i + length (utf16 c)) (pos + length (utf8 c)) up' result' =
      Inr (take (pos + length (utf8 c)) result' @ concat (map utf8 cs))"
    using Cons.prems step(2) by (intro Cons.IH [where pre = "pre @ utf16 c"]) auto
  then show ?case by (simp add: step)
qed

lemma encode_utf16: "list_all scalar cs \<Longrightarrow> encode (concat (map utf16 cs)) = Inr (concat (map utf8 cs))"
  unfolding encode_def by (subst encode_loop_spec [where pre = "[]"]) (auto simp: room_def)

section \<open>The decoder inverts it\<close>

lemma continuation:
  fixes x :: nat
  assumes "x < 64"
  shows "128 + x AND 0x3f = x" and "drop_bit 6 (128 + x) = 2" and "128 + x < 256"
proof -
  have "(128 + x) div 64 = 2" using assms by (intro div_nat_eqI) simp_all
  then show "drop_bit 6 (128 + x) = 2" by (simp add: drop_bit_eq_div)
  have "(128 + x) mod 64 = (2 * 64 + x) mod 64" by simp
  then show "128 + x AND 0x3f = x" using assms by (simp only: and_mask_mod mod_mult_self3) simp
qed (use assms in simp)

lemma or_digit: "b < 64 \<Longrightarrow> push_bit 6 a OR b = 64 * a + (b::nat)"
  using or_add [of b 6 a] by (simp add: push_bit_eq_mult)

lemma byteAt_middle: "k < length bs \<Longrightarrow> bs ! k < 256 \<Longrightarrow> byteAt (pre @ bs @ post) (length pre + k) = bs ! k"
  by (simp add: byteAt_def nth_append and_mask_mod)

lemma digits: "64 * (c div 64) + c mod 64 = (c::nat)" "64 * (c div 4096) + c div 64 mod 64 = c div 64"
  "64 * (c div 262144) + c div 4096 mod 64 = c div 4096"
proof -
  have "64 * (c div 64 div 64) + c div 64 mod 64 = c div 64" by (rule mult_div_mod_eq)
  then show "64 * (c div 4096) + c div 64 mod 64 = c div 64" by (simp add: div_mult2_eq [symmetric])
  have "64 * (c div 4096 div 64) + c div 4096 mod 64 = c div 4096" by (rule mult_div_mod_eq)
  then show "64 * (c div 262144) + c div 4096 mod 64 = c div 4096" by (simp add: div_mult2_eq [symmetric])
qed simp

lemma case12_last:
  assumes "index + 1 < length bs" and "byteAt bs (index + 1) = 128 + x" and "x < 64"
    and "push_bit 6 codePoint OR (push_bit 6 (cp0 AND 0x1f) OR x) = c" and "2 ^ (minBits + 7) \<le> c" and "c < 0x110000"
  shows "units_of (case12 bs index cp0 codePoint minBits) = utf16 c \<and> last_index (case12 bs index cp0 codePoint minBits) = index + 1"
proof -
  have "drop_bit (minBits + 7) c \<noteq> 0"
    using assms(5) by (simp add: drop_bit_eq_div div_greater_zero_iff)
  moreover have "drop_bit 10 (c - 0x10000) = (c - 0x10000) div 0x400" by (simp add: drop_bit_eq_div)
  ultimately show ?thesis
    using assms(1,6)
    unfolding case12_def Let_def assms(2) continuation(1,2) [OF assms(3)] assms(4) and_mask_mod(3)
    by (simp add: utf16_def)
qed

lemma lead_bytes:
  fixes x :: nat
  shows "x < 32 \<Longrightarrow> drop_bit 4 (192 + x) = 12 \<or> drop_bit 4 (192 + x) = 13" "x < 32 \<Longrightarrow> 192 + x AND 0x1f = x"
    and "x < 16 \<Longrightarrow> drop_bit 4 (224 + x) = 14" "x < 16 \<Longrightarrow> 224 + x AND 0xf = x" "x < 16 \<Longrightarrow> 224 + x + 0x100 AND 0x300 = 0x100"
    and "x < 8 \<Longrightarrow> drop_bit 4 (240 + x) = 15" "x < 8 \<Longrightarrow> 240 + x AND 0x7 = x"
proof -
  show "drop_bit 4 (192 + x) = 12 \<or> drop_bit 4 (192 + x) = 13" if "x < 32"
    using that by (auto simp: drop_bit_eq_div)
  show "192 + x AND 0x1f = x" if "x < 32"
  proof -
    have "(192 + x) mod 32 = (6 * 32 + x) mod 32" by simp
    then show ?thesis using that by (simp only: and_mask_mod mod_mult_self3) simp
  qed
  show "224 + x AND 0xf = x" if "x < 16"
  proof -
    have "(224 + x) mod 16 = (14 * 16 + x) mod 16" by simp
    then show ?thesis using that by (simp only: and_mask_mod mod_mult_self3) simp
  qed
  show "240 + x AND 0x7 = x" if "x < 8"
  proof -
    have "(240 + x) mod 8 = (30 * 8 + x) mod 8" by simp
    then show ?thesis using that by (simp only: and_mask_mod mod_mult_self3) simp
  qed
  show "drop_bit 4 (224 + x) = 14" if "x < 16" using that by (auto simp: drop_bit_eq_div intro!: div_nat_eqI)
  show "drop_bit 4 (240 + x) = 15" if "x < 8" using that by (auto simp: drop_bit_eq_div intro!: div_nat_eqI)
  show "224 + x + 0x100 AND 0x300 = 0x100" if "x < 16"
  proof -
    have "x = 0 \<or> x = 1 \<or> x = 2 \<or> x = 3 \<or> x = 4 \<or> x = 5 \<or> x = 6 \<or> x = 7 \<or> x = 8 \<or> x = 9 \<or> x = 10 \<or>
        x = 11 \<or> x = 12 \<or> x = 13 \<or> x = 14 \<or> x = 15"
      using that by presburger
    then show ?thesis by (elim disjE) simp_all
  qed
qed

lemma decode_switch_utf8:
  assumes bs: "bs = pre @ utf8 c @ post" and sc: "scalar c"
  shows "units_of (decode_switch bs (length pre)) = utf16 c \<and>
     last_index (decode_switch bs (length pre)) + 1 = length pre + length (utf8 c)"
proof -
  have at: "byteAt bs (length pre + k) = utf8 c ! k" if "k < length (utf8 c)" for k
    using byteAt_middle [OF that] utf8_bytes [OF sc nth_mem [OF that]] by (simp add: bs)
  have len: "length pre + length (utf8 c) \<le> length bs" by (simp add: bs)
  have cont: "c mod 64 < 64" "c div 64 mod 64 < 64" "c div 4096 mod 64 < 64" by simp_all
  consider (one) "c < 0x80" | (two) "0x80 \<le> c" "c < 0x800" | (three) "0x800 \<le> c" "c < 0x10000"
    | (four) "0x10000 \<le> c" "c < 0x110000"
    using sc by (fastforce simp: scalar_def)
  then show ?thesis
  proof cases
    case one
    then have "c div 16 < 8" by (simp add: less_mult_imp_div_less)
    then show ?thesis
      using one at [of 0] by (simp add: decode_switch_def Let_def utf8_def utf16_def drop_bit_eq_div)
  next
    case two
    then have u: "utf8 c = [192 + c div 64, 128 + c mod 64]" by (simp add: utf8_def)
    have lead: "c div 64 < 32" using two by (simp add: less_mult_imp_div_less)
    have "decode_switch bs (length pre) = case12 bs (length pre) (192 + c div 64) 0 0"
      using at [of 0] lead_bytes(1) [OF lead] by (auto simp: decode_switch_def Let_def u)
    moreover have "units_of (case12 bs (length pre) (192 + c div 64) 0 0) = utf16 c \<and>
        last_index (case12 bs (length pre) (192 + c div 64) 0 0) = length pre + 1"
      using len at [of 1] two
      by (intro case12_last [where x = "c mod 64"]) (simp_all add: u cont lead_bytes(2) [OF lead] or_digit digits)
    ultimately show ?thesis by (simp add: u)
  next
    case three
    then have u: "utf8 c = [224 + c div 4096, 128 + c div 64 mod 64, 128 + c mod 64]" by (simp add: utf8_def)
    have lead: "c div 4096 < 16" using three by (simp add: less_mult_imp_div_less)
    have "decode_switch bs (length pre) = case14 bs (length pre) (224 + c div 4096) 0 0"
      using at [of 0] lead_bytes(3) [OF lead] by (auto simp: decode_switch_def Let_def u)
    moreover have "case14 bs (length pre) (224 + c div 4096) 0 0 = case12 bs (length pre + 1) 0x100 (c div 64) 4"
      using at [of 1] lead_bytes(4,5) [OF lead]
      by (simp add: case14_def Let_def u continuation cont or_digit digits)
    moreover have "units_of (case12 bs (length pre + 1) 0x100 (c div 64) 4) = utf16 c \<and>
        last_index (case12 bs (length pre + 1) 0x100 (c div 64) 4) = length pre + 1 + 1"
      using len at [of 2] three by (intro case12_last [where x = "c mod 64"]) (simp_all add: u cont or_digit digits)
    ultimately show ?thesis by (simp add: u)
  next
    case four
    then have u: "utf8 c = [240 + c div 262144, 128 + c div 4096 mod 64, 128 + c div 64 mod 64, 128 + c mod 64]"
      by (simp add: utf8_def)
    have lead: "c div 262144 < 8" using four by (simp add: less_mult_imp_div_less)
    have "decode_switch bs (length pre) = case15 bs (length pre) (240 + c div 262144)"
      using at [of 0] lead_bytes(6) [OF lead] by (auto simp: decode_switch_def Let_def u)
    moreover have "case15 bs (length pre) (240 + c div 262144) = case14 bs (length pre + 1) 0x100 (c div 4096) 5"
      using at [of 1] lead_bytes(7) [OF lead] lead by (simp add: case15_def Let_def u continuation cont or_digit digits)
    moreover have "case14 bs (length pre + 1) 0x100 (c div 4096) 5 = case12 bs (length pre + 2) 0x200 (c div 64) 9"
      using at [of 2] by (simp add: case14_def Let_def u continuation cont or_digit digits)
    moreover have "units_of (case12 bs (length pre + 2) 0x200 (c div 64) 9) = utf16 c \<and>
        last_index (case12 bs (length pre + 2) 0x200 (c div 64) 9) = length pre + 2 + 1"
      using len at [of 3, unfolded numeral_3_eq_3] four
      by (intro case12_last [where x = "c mod 64"]) (simp_all add: u cont or_digit digits)
    ultimately show ?thesis by (simp add: u)
  qed
qed

lemma decode_units_utf8:
  "bs = pre @ concat (map utf8 cs) \<Longrightarrow> list_all scalar cs \<Longrightarrow> decode_units bs (length pre) = concat (map utf16 cs)"
proof (induction cs arbitrary: pre)
  case Nil
  then show ?case by (subst decode_units.simps) simp
next
  case (Cons c cs)
  have sw: "units_of (decode_switch bs (length pre)) = utf16 c"
    "last_index (decode_switch bs (length pre)) + 1 = length (pre @ utf8 c)"
    using decode_switch_utf8 [of bs pre c "concat (map utf8 cs)"] Cons.prems by simp_all
  have "length pre < length bs" using Cons.prems by (simp add: utf8_def)
  then have "decode_units bs (length pre) = utf16 c @ decode_units bs (length (pre @ utf8 c))"
    by (subst decode_units.simps) (simp only: sw if_True)
  then show ?case using Cons.IH [of "pre @ utf8 c"] Cons.prems by simp
qed

section \<open>Encoding into a given array stops between characters\<close>

text \<open>The longest prefix of a text whose UTF-8 form fits into a number of bytes.\<close>

fun fitting :: "nat \<Rightarrow> nat list \<Rightarrow> nat list" where
  "fitting bytes [] = []"
| "fitting bytes (c # cs) = (if length (utf8 c) \<le> bytes then c # fitting (bytes - length (utf8 c)) cs else [])"

lemma encoderReplacer_utf16:
  assumes "scalar c" and "0x80 \<le> c"
  shows "encoderReplacer (utf16 c) = utf8 c"
proof (cases "c < 0x10000")
  case True
  then show ?thesis
    using assms by (auto simp: encoderReplacer_def Let_def utf16_def charCodeAt_def bytes_utf8 scalar_def)
next
  case False
  then have "0x10000 \<le> c" "c < 0x110000" using assms by (auto simp: scalar_def)
  moreover from this surrogates [OF this]
  have "encoderReplacer (utf16 c) = bytes4 c"
    by (simp add: encoderReplacer_def Let_def utf16_def charCodeAt_def del: add_diff_assoc)
  ultimately show ?thesis by (simp add: bytes_utf8)
qed

lemma replaceChars_step: "scalar c \<Longrightarrow> replaceChars (utf16 c @ s) = utf8 c @ replaceChars s"
proof (cases "c < 0x10000")
  case True
  assume c: "scalar c"
  show ?thesis
  proof (cases "c < 0x80")
    case False
    then show ?thesis
      using True c encoderReplacer_utf16 [OF c] by (cases s) (auto simp: utf16_def scalar_def)
  qed (cases s; simp add: utf16_def utf8_def)
next
  case False
  assume c: "scalar c"
  have big: "0x10000 \<le> c" "c < 0x110000" using False c by (auto simp: scalar_def)
  have u: "utf16 c = [0xd800 + (c - 0x10000) div 0x400, 0xdc00 + (c - 0x10000) mod 0x400]"
    using False by (simp add: utf16_def)
  show ?thesis
    using encoderReplacer_utf16 [OF c] big surrogates(2,3) [OF big] unfolding u by simp
qed

lemma replaceChars_utf16: "list_all scalar cs \<Longrightarrow> replaceChars (concat (map utf16 cs)) = concat (map utf8 cs)"
  by (induction cs) (simp_all add: replaceChars_step)

lemma into_continuation:
  assumes "\<forall>b \<in> set bs. 128 \<le> b \<and> b < 192" and "enc = pre @ bs @ post" and "length pre + length bs \<le> len"
  shows "into_loop enc len (length pre) arr r = into_loop enc len (length pre + length bs) (put arr (length pre) bs) r"
  using assms
proof (induction bs arbitrary: pre arr)
  case (Cons b bs)
  have "b div 16 \<le> 11" "7 < b div 16" using Cons.prems(1) by (auto simp: less_mult_imp_div_less less_eq_div_iff_mult_less_eq less_Suc_eq_le [symmetric])
  then have "into_loop enc len (length pre) arr r = into_loop enc len (length (pre @ [b])) (put arr (length pre) [b]) r"
    using Cons.prems(2,3) by (subst into_loop.simps) (simp add: charCodeAt_def Let_def drop_bit_eq_div)
  then show ?case using Cons.IH [of "pre @ [b]"] Cons.prems by simp
qed simp

lemma put_append: "put r pos (as @ bs) = put (put r pos as) (pos + length as) bs"
  by (induction r pos as rule: put.induct) simp_all

lemma lead_class:
  assumes "scalar c"
  obtains b bs where "utf8 c = b # bs" and "\<forall>x \<in> set bs. 128 \<le> x \<and> x < 192"
    and "drop_bit 4 b \<le> 7 \<and> bs = [] \<or> drop_bit 4 b \<in> {12, 13} \<and> length bs = 1 \<or>
         drop_bit 4 b = 14 \<and> length bs = 2 \<or> drop_bit 4 b = 15 \<and> length bs = 3"
proof -
  consider (one) "c < 0x80" | (two) "0x80 \<le> c" "c < 0x800" | (three) "0x800 \<le> c" "c < 0x10000"
    | (four) "0x10000 \<le> c" "c < 0x110000"
    using assms by (fastforce simp: scalar_def)
  then show ?thesis
  proof cases
    case one
    then have "c div 16 < 8" by (simp add: less_mult_imp_div_less)
    with one show ?thesis by (intro that [of c "[]"]) (auto simp: utf8_def drop_bit_eq_div)
  next
    case two
    then have "c div 64 < 32" by (simp add: less_mult_imp_div_less)
    with two lead_bytes(1) show ?thesis by (intro that [of "192 + c div 64" "[128 + c mod 64]"]) (auto simp: utf8_def)
  next
    case three
    then have "c div 4096 < 16" by (simp add: less_mult_imp_div_less)
    with three lead_bytes(3) show ?thesis by (intro that [of "224 + c div 4096" "[128 + c div 64 mod 64, 128 + c mod 64]"]) (auto simp: utf8_def)
  next
    case four
    then have "c div 262144 < 8" by (simp add: less_mult_imp_div_less)
    with four lead_bytes(6) show ?thesis
      by (intro that [of "240 + c div 262144" "[128 + c div 4096 mod 64, 128 + c div 64 mod 64, 128 + c mod 64]"]) (auto simp: utf8_def)
  qed
qed

lemma into_step:
  assumes enc: "enc = pre @ utf8 c @ post" and sc: "scalar c" and len: "len = min (length enc) (length arr)"
  shows "into_loop enc len (length pre) arr r =
     (if length pre + length (utf8 c) \<le> length arr
      then into_loop enc len (length pre + length (utf8 c)) (put arr (length pre) (utf8 c)) (r + 1)
      else (length pre, r, arr))"
proof (cases "length pre < len")
  case False
  then have "into_loop enc len (length pre) arr r = (length pre, r, arr)" by (subst into_loop.simps) simp
  moreover have "\<not> length pre + length (utf8 c) \<le> length arr"
    using False len enc lead_class [OF sc] by (fastforce simp: min_def split: if_splits)
  ultimately show ?thesis by simp
next
  case True
  obtain b bs where u: "utf8 c = b # bs" and cont: "\<forall>x \<in> set bs. 128 \<le> x \<and> x < 192"
    and lead: "drop_bit 4 b \<le> 7 \<and> bs = [] \<or> drop_bit 4 b \<in> {12, 13} \<and> length bs = 1 \<or>
         drop_bit 4 b = 14 \<and> length bs = 2 \<or> drop_bit 4 b = 15 \<and> length bs = 3"
    using lead_class [OF sc] .
  have "charCodeAt enc (length pre) = b" by (simp add: charCodeAt_def enc u)
  then have first: "into_loop enc len (length pre) arr r =
     (if length pre + length (utf8 c) \<le> length arr
      then into_loop enc len (length (pre @ [b])) (put arr (length pre) [b]) (r + 1)
      else (length pre, r, arr))"
    using True lead len unfolding into_loop.simps [of enc len "length pre"] Let_def by (auto simp: u)
  show ?thesis
    using first into_continuation [OF cont, of enc "pre @ [b]" post len] cont
    by (simp add: enc u len)
qed

lemma into_loop_spec:
  assumes "enc = pre @ concat (map utf8 cs)" and "list_all scalar cs" and "len = min (length enc) (length arr)"
  shows "into_loop enc len (length pre) arr r =
    (let w = concat (map utf8 (fitting (length arr - length pre) cs))
     in (length pre + length w, r + length (fitting (length arr - length pre) cs), put arr (length pre) w))"
  using assms
proof (induction cs arbitrary: pre arr r)
  case Nil
  then show ?case by (subst into_loop.simps) simp
next
  case (Cons c cs)
  have "scalar c" "enc = pre @ utf8 c @ concat (map utf8 cs)" using Cons.prems by simp_all
  note step = into_step [OF this(2,1) Cons.prems(3), of r]
  show ?case
  proof (cases "length pre + length (utf8 c) \<le> length arr")
    case True
    then show ?thesis
      using Cons.IH [of "pre @ utf8 c" "put arr (length pre) (utf8 c)" "r + 1"] Cons.prems step
      by (simp add: put_props(1) put_append Let_def diff_diff_add le_diff_conv2 add.commute add.assoc)
  next
    case False
    moreover have "0 < length (utf8 c)" by (simp add: utf8_def)
    ultimately have "\<not> length (utf8 c) \<le> length arr - length pre" by linarith
    then show ?thesis using step False by simp
  qed
qed

lemma fitting_room: "list_all scalar cs \<Longrightarrow>
    length (concat (map utf8 (fitting n cs))) \<le> n \<and> list_all scalar (fitting n cs)"
proof (induction n cs rule: fitting.induct)
  case (2 bytes c cs)
  then show ?case by (cases "length (utf8 c) \<le> bytes") auto
qed simp

lemma fitting_units: "length (fitting n cs) \<le> length (concat (map utf16 cs))"
proof (induction n cs rule: fitting.induct)
  case (2 bytes c cs)
  moreover have "1 \<le> length (utf16 c)" by (simp add: utf16_def)
  ultimately show ?case by (cases "length (utf8 c) \<le> bytes") simp_all
qed simp

lemma drop_put: "pos + length bs \<le> k \<Longrightarrow> drop k (put r pos bs) = drop k r"
  by (induction r pos bs rule: put.induct) simp_all

lemma put_prefix: "length bs \<le> length r \<Longrightarrow> \<forall>b \<in> set bs. b < 256 \<Longrightarrow> put r 0 bs = bs @ drop (length bs) r"
  using put_props(2) [of 0 bs r] drop_put [of 0 bs "length bs" r] append_take_drop_id [of "length bs" "put r 0 bs"] by simp

section \<open>Properties\<close>

text \<open>
  C29: (Equivalence.) The decoder collects code units in a buffer of 32 and carries the second half of a
  surrogate pair over to the next round. The result is that of decoding one character after the other
  without any buffer, on every input, also on bytes that are not UTF-8.
\<close>

theorem decode_is_unbuffered: "decode bs = decode_units bs 0"
  by (rule decode_unbuffered)

text \<open>
  C28: (Round trip.) For every string of Unicode scalar values the encoder returns its UTF-8 form, in
  spite of the array that is allocated for two bytes per code unit and replaced when needed, and the
  decoder gives the string back.
\<close>

theorem encoding_roundtrip:
  assumes "list_all scalar cs"
  shows "encode (concat (map utf16 cs)) = Inr (concat (map utf8 cs)) \<and>
    decode (concat (map utf8 cs)) = concat (map utf16 cs)"
  using encode_utf16 [OF assms] decode_units_utf8 [of _ "[]" cs] assms by (simp_all add: decode_unbuffered)

theorem encoding_roundtrip_witness:
  "encode (concat (map utf16 [0x48, 0xe9, 0x20ac, 0x1f600])) = Inr [0x48, 0xc3, 0xa9, 0xe2, 0x82, 0xac, 0xf0, 0x9f, 0x98, 0x80] \<and>
   decode [0x48, 0xc3, 0xa9, 0xe2, 0x82, 0xac, 0xf0, 0x9f, 0x98, 0x80] = [0x48, 0xe9, 0x20ac, 0xd83d, 0xde00]"
  using encoding_roundtrip [of "[0x48, 0xe9, 0x20ac, 0x1f600]"] by (simp add: scalar_def utf8_def utf16_def)

text \<open>
  C30: (Bounds.) Encoding a text into a given array writes the UTF-8 form of the longest prefix that fits,
  never half a character, leaves the rest of the array as it was, and reports the number of bytes
  written; the number of characters it reports as read is the number of code points, not of code units.
\<close>

theorem encodeInto_whole_characters:
  assumes "list_all scalar cs"
  shows "encodeInto (concat (map utf16 cs)) arr =
    (let fit = fitting (length arr) cs; bytes = concat (map utf8 fit)
     in (length bytes, length fit, bytes @ drop (length bytes) arr))"
proof -
  let ?fit = "fitting (length arr) cs"
  have fit: "length ?fit \<le> length (concat (map utf16 cs))"
    by (rule fitting_units)
  have w: "length (concat (map utf8 ?fit)) \<le> length arr" "list_all scalar ?fit"
    using fitting_room [OF assms] by blast+
  have "put arr 0 (concat (map utf8 ?fit)) = concat (map utf8 ?fit) @ drop (length (concat (map utf8 ?fit))) arr"
    using w utf8_bytes by (intro put_prefix) (auto simp: list_all_iff)
  then show ?thesis
    using into_loop_spec [OF _ assms refl, of "concat (map utf8 cs)" "[]" arr 0] fit
    by (simp add: encodeInto_def replaceChars_utf16 [OF assms] Let_def)
qed

theorem encodeInto_whole_characters_witness:
  "encodeInto (concat (map utf16 [0x48, 0x1f600, 0x20ac])) [9, 9, 9, 9, 9, 9, 9] = (5, 2, [0x48, 0xf0, 0x9f, 0x98, 0x80, 9, 9])"
  using encodeInto_whole_characters [of "[0x48, 0x1f600, 0x20ac]" "[9, 9, 9, 9, 9, 9, 9]"]
  by (simp add: scalar_def utf8_def Let_def)

text \<open>
  (Error.) A high surrogate at the end of a string is encoded as U+FFFD, which takes three bytes, but
  the index has already moved past it when the room is checked: after eight characters of three bytes the
  array is not replaced and the last byte is lost. The result is not UTF-8 and is decoded as one
  replacement character for each byte left.
\<close>

theorem trailing_surrogate_truncated:
  "encode (replicate 8 0x20ac @ [0xd800]) = Inr (concat (replicate 8 [0xe2, 0x82, 0xac]) @ [0xef, 0xbf]) \<and>
   decode (concat (replicate 8 [0xe2, 0x82, 0xac]) @ [0xef, 0xbf]) = replicate 8 0x20ac @ [0xfffd, 0xfffd]"
  by code_simp

end
