(* ===== verification/Json.thy ===== *)
theory Json
  imports Errors
begin

text \<open>
  \<^verbatim>\<open>JSON.stringify\<close> and \<^verbatim>\<open>JSON.parse\<close> on the values of the model, as ECMA-262 defines them: texts are lists
  of UTF-16 code units. The strings of the model have code units below 256 and its numbers are
  integers; the parser answers \<open>unmodelled\<close> for a text that denotes any other value. \<^verbatim>\<open>parse\<close> is called with
  more steps of fuel than the text has characters.
\<close>

section \<open>Printing\<close>

definition codes :: "string \<Rightarrow> nat list" where
  "codes s = map of_char s"

fun decimal :: "nat \<Rightarrow> nat list" where
  "decimal n = (if n < 10 then [48 + n] else decimal (n div 10) @ [48 + n mod 10])"

declare decimal.simps [simp del]

definition json_int :: "int \<Rightarrow> nat list" where
  "json_int i = (if i < 0 then 45 # decimal (nat (- i)) else decimal (nat i))"

definition hex_digit :: "nat \<Rightarrow> nat" where
  "hex_digit n = (if n < 10 then 48 + n else 87 + n)"

definition escape :: "nat \<Rightarrow> nat list" where
  "escape c =
     (if c = 8 then [92, 98] else if c = 9 then [92, 116] else if c = 10 then [92, 110]
      else if c = 12 then [92, 102] else if c = 13 then [92, 114] else if c = 34 then [92, 34]
      else if c = 92 then [92, 92]
      else if c < 32 then [92, 117, 48, 48, hex_digit (c div 16), hex_digit (c mod 16)]
      else [c])"

definition quote :: "string \<Rightarrow> nat list" where
  "quote s = 34 # concat (map escape (codes s)) @ [34]"

fun commas :: "nat list list \<Rightarrow> nat list" where
  "commas [] = []"
| "commas [t] = t"
| "commas (t # ts) = t @ 44 # commas ts"

definition json_bytes :: "string \<Rightarrow> nat list" where
  "json_bytes b = 123 # commas (map (\<lambda>(i, c). 34 # decimal i @ [34, 58] @ decimal (of_char c)) (enumerate 0 b)) @ [125]"

definition json_raw :: "payload \<Rightarrow> nat list" where
  "json_raw p = 123 # quote ''_payload'' @ [58, 123] @
     commas ((case metadata p of None \<Rightarrow> []
              | Some m \<Rightarrow> [quote ''metadata'' @ [58, 123] @ commas (map (\<lambda>(k, b). quote k @ 58 # json_bytes b) m) @ [125]]) @
             (case data p of None \<Rightarrow> [] | Some b \<Rightarrow> [quote ''data'' @ 58 # json_bytes b])) @ [125, 125]"

text \<open>\<open>None\<close> is the value \<open>undefined\<close>: \<open>null\<close> as an element of an array, no member of an object.\<close>

fun stringify :: "jsval \<Rightarrow> nat list option"
  and stringify_elements :: "jsval list \<Rightarrow> nat list list"
  and stringify_members :: "(string \<times> jsval) list \<Rightarrow> nat list list" where
  "stringify Undefined = None"
| "stringify Null = Some (codes ''null'')"
| "stringify (JBool b) = Some (codes (if b then ''true'' else ''false''))"
| "stringify (JNum n) = Some (json_int n)"
| "stringify (JStr s) = Some (quote s)"
| "stringify (JBytes b) = Some (json_bytes b)"
| "stringify (JArr vs) = Some (91 # commas (stringify_elements vs) @ [93])"
| "stringify (JObj kvs) = Some (123 # commas (stringify_members kvs) @ [125])"
| "stringify (JPromise p) = Some (codes ''{}'')"
| "stringify (JRaw p) = Some (json_raw p)"
| "stringify_elements [] = []"
| "stringify_elements (v # vs) = (case stringify v of None \<Rightarrow> codes ''null'' | Some t \<Rightarrow> t) # stringify_elements vs"
| "stringify_members [] = []"
| "stringify_members ((k, v) # kvs) =
     (case stringify v of None \<Rightarrow> stringify_members kvs | Some t \<Rightarrow> (quote k @ 58 # t) # stringify_members kvs)"

section \<open>Parsing\<close>

abbreviation SyntaxError :: js_error where
  "SyntaxError \<equiv> OtherError [(20, ''SyntaxError''), Error_class] ''Unexpected token in JSON'' [] None"

abbreviation unmodelled :: js_error where
  "unmodelled \<equiv> OtherError [] ''value outside of the model'' [] None"

definition skip_ws :: "nat list \<Rightarrow> nat list" where
  "skip_ws ts = dropWhile (\<lambda>c. c \<in> {9, 10, 13, 32}) ts"

definition is_digit :: "nat \<Rightarrow> bool" where
  "is_digit c \<longleftrightarrow> 48 \<le> c \<and> c \<le> 57"

definition decimal_value :: "nat list \<Rightarrow> nat" where
  "decimal_value ds = foldl (\<lambda>n d. 10 * n + (d - 48)) 0 ds"

definition parse_number :: "nat list \<Rightarrow> js_error + jsval \<times> nat list" where
  "parse_number ts =
     (let neg = (case ts of c # _ \<Rightarrow> c = 45 | [] \<Rightarrow> False);
          ts' = (if neg then tl ts else ts);
          ds = takeWhile is_digit ts';
          rest = dropWhile is_digit ts'
      in if ds = [] \<or> hd ds = 48 \<and> 1 < length ds then Inl SyntaxError
         else if rest \<noteq> [] \<and> hd rest \<in> {46, 69, 101} then Inl unmodelled
         else Inr (JNum (if neg then - int (decimal_value ds) else int (decimal_value ds)), rest))"

definition hex_value :: "nat \<Rightarrow> nat option" where
  "hex_value c = (if is_digit c then Some (c - 48) else if 97 \<le> c \<and> c \<le> 102 then Some (c - 87)
     else if 65 \<le> c \<and> c \<le> 70 then Some (c - 55) else None)"

fun hex4 :: "nat list \<Rightarrow> (nat \<times> nat list) option" where
  "hex4 (a # b # c # d # ts) = (case (hex_value a, hex_value b, hex_value c, hex_value d) of
     (Some a, Some b, Some c, Some d) \<Rightarrow> Some (4096 * a + 256 * b + 16 * c + d, ts) | _ \<Rightarrow> None)"
| "hex4 _ = None"

definition unescape :: "nat \<Rightarrow> nat list \<Rightarrow> (nat \<times> nat list) option" where
  "unescape e ts =
     (if e = 34 \<or> e = 47 \<or> e = 92 then Some (e, ts) else if e = 98 then Some (8, ts) else if e = 102 then Some (12, ts)
      else if e = 110 then Some (10, ts) else if e = 114 then Some (13, ts) else if e = 116 then Some (9, ts)
      else if e = 117 then hex4 ts else None)"

lemma hex4_shorter: "hex4 ts = Some (u, ts') \<Longrightarrow> length ts' < length ts"
  by (induction ts rule: hex4.induct) (auto split: option.splits)

lemma unescape_shorter: "unescape e ts = Some (u, ts') \<Longrightarrow> length ts' \<le> length ts"
  by (auto simp: unescape_def dest: hex4_shorter split: if_splits)

text \<open>The code units up to the closing quote.\<close>

function string_body :: "nat list \<Rightarrow> js_error + nat list \<times> nat list" where
  "string_body [] = Inl SyntaxError"
| "string_body (c # ts) =
     (if c = 34 then Inr ([], ts)
      else if c = 92
      then case ts of [] \<Rightarrow> Inl SyntaxError
           | e # ts' \<Rightarrow> (case unescape e ts' of None \<Rightarrow> Inl SyntaxError
               | Some (u, r) \<Rightarrow> bind_res (string_body r) (\<lambda>(us, rest). Inr (u # us, rest)))
      else if c < 32 then Inl SyntaxError
      else bind_res (string_body ts) (\<lambda>(us, rest). Inr (c # us, rest)))"
  by pat_completeness auto
termination
  by (relation "measure length") (auto dest: unescape_shorter)

definition parse_string :: "nat list \<Rightarrow> js_error + string \<times> nat list" where
  "parse_string ts = bind_res (string_body ts) (\<lambda>(us, rest).
     if \<forall>u \<in> set us. u < 256 then Inr (map char_of us, rest) else Inl unmodelled)"

text \<open>The order of the own properties of an object: array indices in ascending order, then the others.\<close>

definition array_index :: "string \<Rightarrow> nat option" where
  "array_index k =
     (let ds = codes k; n = decimal_value ds
      in if list_all is_digit ds \<and> ds = decimal n \<and> n < 4294967295 then Some n else None)"

definition own_order :: "(string \<times> jsval) list \<Rightarrow> (string \<times> jsval) list" where
  "own_order kvs = sort_key (\<lambda>(k, v). the (array_index k)) (filter (\<lambda>(k, v). array_index k \<noteq> None) kvs) @
     filter (\<lambda>(k, v). array_index k = None) kvs"

definition literal :: "string \<Rightarrow> jsval \<Rightarrow> nat list \<Rightarrow> js_error + jsval \<times> nat list" where
  "literal w v ts = (if take (length w) ts = codes w then Inr (v, drop (length w) ts) else Inl SyntaxError)"

fun parse_value :: "nat \<Rightarrow> nat list \<Rightarrow> js_error + jsval \<times> nat list"
  and parse_elements :: "nat \<Rightarrow> nat list \<Rightarrow> js_error + jsval list \<times> nat list"
  and parse_members :: "nat \<Rightarrow> nat list \<Rightarrow> js_error + (string \<times> jsval) list \<times> nat list" where
  "parse_value 0 ts = Inl unmodelled"
| "parse_value (Suc n) ts = (case skip_ws ts of
     [] \<Rightarrow> Inl SyntaxError
   | c # ts' \<Rightarrow>
       if c = 34 then bind_res (parse_string ts') (\<lambda>(s, r). Inr (JStr s, r))
       else if c = 91
       then (case skip_ws ts' of
               [] \<Rightarrow> Inl SyntaxError
             | d # ts'' \<Rightarrow> if d = 93 then Inr (JArr [], ts'')
                 else bind_res (parse_elements n ts') (\<lambda>(vs, r). Inr (JArr vs, r)))
       else if c = 123
       then (case skip_ws ts' of
               [] \<Rightarrow> Inl SyntaxError
             | d # ts'' \<Rightarrow> if d = 125 then Inr (JObj [], ts'')
                 else bind_res (parse_members n ts') (\<lambda>(kvs, r).
                        Inr (JObj (own_order (foldl (\<lambda>m (k, v). js_set m k v) [] kvs)), r)))
       else if c = 110 then literal ''null'' Null (c # ts')
       else if c = 116 then literal ''true'' (JBool True) (c # ts')
       else if c = 102 then literal ''false'' (JBool False) (c # ts')
       else parse_number (c # ts'))"
| "parse_elements 0 ts = Inl unmodelled"
| "parse_elements (Suc n) ts = bind_res (parse_value n ts) (\<lambda>(v, r). case skip_ws r of
     [] \<Rightarrow> Inl SyntaxError
   | c # ts' \<Rightarrow>
       if c = 44 then bind_res (parse_elements n ts') (\<lambda>(vs, r). Inr (v # vs, r))
       else if c = 93 then Inr ([v], ts') else Inl SyntaxError)"
| "parse_members 0 ts = Inl unmodelled"
| "parse_members (Suc n) ts = (case skip_ws ts of
     [] \<Rightarrow> Inl SyntaxError
   | c # ts' \<Rightarrow>
       if c \<noteq> 34 then Inl SyntaxError
       else bind_res (parse_string ts') (\<lambda>(k, r). case skip_ws r of
         [] \<Rightarrow> Inl SyntaxError
       | d # r' \<Rightarrow>
           if d \<noteq> 58 then Inl SyntaxError
           else bind_res (parse_value n r') (\<lambda>(v, r). case skip_ws r of
             [] \<Rightarrow> Inl SyntaxError
           | e # r' \<Rightarrow>
               if e = 44 then bind_res (parse_members n r') (\<lambda>(kvs, r). Inr ((k, v) # kvs, r))
               else if e = 125 then Inr ([(k, v)], r') else Inl SyntaxError)))"

definition json_parse :: "nat list \<Rightarrow> js_error + jsval" where
  "json_parse ts = bind_res (parse_value (2 * length ts + 2) ts) (\<lambda>(v, rest).
     if skip_ws rest = [] then Inr v else Inl SyntaxError)"

section \<open>Parsing inverts printing\<close>

text \<open>
  The values that survive: no \<open>undefined\<close>, bytes, promises or raw payloads inside, integers that a
  JavaScript number represents exactly, and objects whose entries are listed in property order.
\<close>

fun json_value :: "jsval \<Rightarrow> bool"
  and json_members :: "(string \<times> jsval) list \<Rightarrow> bool"
  and json_elements :: "jsval list \<Rightarrow> bool" where
  "json_value Null = True"
| "json_value (JBool b) = True"
| "json_value (JStr s) = True"
| "json_value (JNum n) = (\<bar>n\<bar> \<le> 9007199254740991)"
| "json_value (JArr vs) = json_elements vs"
| "json_value (JObj kvs) = (distinct (map fst kvs) \<and> own_order kvs = kvs \<and> json_members kvs)"
| "json_value _ = False"
| "json_elements [] = True"
| "json_elements (v # vs) = (json_value v \<and> json_elements vs)"
| "json_members [] = True"
| "json_members ((k, v) # kvs) = (json_value v \<and> json_members kvs)"

lemma codes_simps [simp]: "codes [] = []" "codes (c # s) = of_char c # codes s" "length (codes s) = length s"
  by (simp_all add: codes_def)

lemma codes_bytes: "\<forall>u \<in> set (codes s). u < 256"
  by (induction s) simp_all

lemma char_of_codes: "map char_of (codes s) = s"
  by (induction s) simp_all

lemma decimal_digits: "list_all is_digit (decimal n) \<and> decimal n \<noteq> []"
proof (induction n rule: decimal.induct)
  case (1 n)
  have "n mod 10 < 10" by simp
  then have "n mod 10 \<le> 9" by linarith
  then have "is_digit (48 + n mod 10)" "n < 10 \<Longrightarrow> is_digit (48 + n)" by (simp_all add: is_digit_def)
  with 1 show ?case by (subst (1 2) decimal.simps) auto
qed

lemma decimal_value_decimal: "decimal_value (decimal n) = n"
proof (induction n rule: decimal.induct)
  case (1 n)
  then show ?case by (subst decimal.simps) (auto simp: decimal_value_def)
qed

lemma decimal_leading_zero: "hd (decimal n) = 48 \<Longrightarrow> length (decimal n) = 1"
proof (induction n rule: decimal.induct)
  case (1 n)
  show ?case
  proof (cases "n < 10")
    case False
    have h: "hd (decimal n) = hd (decimal (n div 10))"
      using False decimal_digits by (subst decimal.simps) simp
    then have "length (decimal (n div 10)) = 1" using 1 False by simp
    moreover have "decimal_value (decimal (n div 10)) = n div 10" by (rule decimal_value_decimal)
    ultimately have "n div 10 = 0"
      using h "1.prems" by (cases "decimal (n div 10)") (auto simp: decimal_value_def)
    then show ?thesis using False by simp
  qed (simp add: decimal.simps)
qed

definition stops :: "nat list \<Rightarrow> bool" where
  "stops rest \<longleftrightarrow> rest = [] \<or> hd rest \<in> {44, 93, 125}"

lemma digits_stop:
  assumes "list_all is_digit ds" and "stops rest"
  shows "takeWhile is_digit (ds @ rest) = ds" and "dropWhile is_digit (ds @ rest) = rest"
proof -
  have "takeWhile is_digit rest = []" "dropWhile is_digit rest = rest"
    using assms(2) by (cases rest; auto simp: stops_def is_digit_def)+
  then show "takeWhile is_digit (ds @ rest) = ds" "dropWhile is_digit (ds @ rest) = rest"
    using assms(1) by (simp_all add: list_all_iff)
qed

lemma parse_number_int:
  assumes "stops rest"
  shows "parse_number (json_int i @ rest) = Inr (JNum i, rest)"
proof -
  have ok: "\<not> (rest \<noteq> [] \<and> hd rest \<in> {46, 69, 101})" using assms by (auto simp: stops_def)
  have d: "\<not> (decimal n = [] \<or> hd (decimal n) = 48 \<and> 1 < length (decimal n))" for n
    using decimal_digits [of n] decimal_leading_zero [of n] by auto
  have nn: "(case decimal n @ rest of [] \<Rightarrow> False | c # x \<Rightarrow> c = 45) = False" for n
    using decimal_digits [of n] by (cases "decimal n") (auto simp: is_digit_def)
  have tw: "takeWhile is_digit (decimal n @ rest) = decimal n" "dropWhile is_digit (decimal n @ rest) = rest" for n
    using digits_stop [OF _ assms] decimal_digits by blast+
  show ?thesis
  proof (cases "i < 0")
    case True
    then show ?thesis unfolding json_int_def parse_number_def Let_def
      using ok d by (simp only: if_True append_Cons list.case list.sel simp_thms tw if_False decimal_value_decimal) simp
  next
    case False
    then show ?thesis unfolding json_int_def parse_number_def Let_def
      using ok d by (simp only: if_False nn tw decimal_value_decimal) simp
  qed
qed

lemma hex_value_digit: "n < 16 \<Longrightarrow> hex_value (hex_digit n) = Some n"
  by (auto simp: hex_value_def hex_digit_def is_digit_def)

lemma string_body_escape:
  assumes "c < 256"
  shows "string_body (escape c @ ts) = bind_res (string_body ts) (\<lambda>(us, rest). Inr (c # us, rest))"
proof (cases "c < 32 \<and> c \<notin> {8, 9, 10, 12, 13, 34, 92}")
  case True
  moreover have "hex_value (hex_digit (c div 16)) = Some (c div 16)" "hex_value (hex_digit (c mod 16)) = Some (c mod 16)"
    using assms by (auto intro!: hex_value_digit simp: less_mult_imp_div_less)
  moreover have "hex_value 48 = Some 0" by (simp add: hex_value_def is_digit_def)
  ultimately show ?thesis
    by (simp add: escape_def unescape_def)
next
  case False
  then show ?thesis by (auto simp: escape_def unescape_def)
qed

lemma string_body_quote: "string_body (concat (map escape (codes s)) @ 34 # rest) = Inr (codes s, rest)"
  by (induction s) (simp_all add: string_body_escape)

lemma parse_string_quote: "parse_string (concat (map escape (codes s)) @ 34 # rest) = Inr (s, rest)"
  using codes_bytes char_of_codes by (auto simp: parse_string_def string_body_quote)

lemma foldl_js_set:
  "distinct (map fst (m @ kvs)) \<Longrightarrow> foldl (\<lambda>m (k, v). js_set m k v) m kvs = m @ kvs"
proof (induction kvs arbitrary: m)
  case (Cons e kvs)
  obtain k v where e: "e = (k, v)" by force
  have "js_set m k v = m @ [(k, v)]" if "k \<notin> fst ` set m" for m :: "('a, 'b) js_map"
    using that by (induction m k v rule: js_set.induct) auto
  then show ?case using Cons by (auto simp: e)
qed simp

definition reads :: "jsval \<Rightarrow> nat list \<Rightarrow> bool" where
  "reads v t \<longleftrightarrow> t \<noteq> [] \<and> hd t \<notin> {9, 10, 13, 32, 93, 125} \<and>
     (\<forall>n rest. 2 * length t \<le> n \<longrightarrow> stops rest \<longrightarrow> parse_value n (t @ rest) = Inr (v, rest))"

lemma readsI:
  assumes "hd t \<notin> {9, 10, 13, 32, 93, 125}" and "t \<noteq> []"
    and "\<And>n rest. 2 * length t \<le> Suc n \<Longrightarrow> stops rest \<Longrightarrow> parse_value (Suc n) (t @ rest) = Inr (v, rest)"
  shows "reads v t"
proof -
  have "parse_value n (t @ rest) = Inr (v, rest)" if "2 * length t \<le> n" "stops rest" for n rest
    using assms(2,3) that by (cases n) auto
  then show ?thesis using assms(1,2) by (simp add: reads_def)
qed

lemma skip_ws_Cons: "c \<notin> {9, 10, 13, 32} \<Longrightarrow> skip_ws (c # ts) = c # ts"
  by (simp add: skip_ws_def)

lemma reads_word:
  assumes "t = codes w" and "hd t \<in> {110, 116, 102}" and "w \<noteq> []"
    and "\<And>n rest. parse_value (Suc n) (t @ rest) = literal w v (t @ rest)"
  shows "reads v t"
  using assms by (intro readsI) (auto simp: literal_def codes_def)

lemma json_int_hd: "json_int i \<noteq> [] \<and> (hd (json_int i) = 45 \<or> is_digit (hd (json_int i)))"
  using decimal_digits [of "nat i"] by (cases "decimal (nat i)") (auto simp: json_int_def)

lemma reads_int: "reads (JNum i) (json_int i)"
proof -
  obtain c t where t: "json_int i = c # t" "c = 45 \<or> is_digit c" using json_int_hd [of i] by (cases "json_int i") auto
  show ?thesis
  proof (rule readsI)
    fix n rest assume "stops rest"
    then have "parse_number (c # t @ rest) = Inr (JNum i, rest)" using parse_number_int [of rest i] t(1) by simp
    then show "parse_value (Suc n) (json_int i @ rest) = Inr (JNum i, rest)"
      using t by (auto simp: is_digit_def skip_ws_def)
  qed (use t in \<open>auto simp: is_digit_def\<close>)
qed

lemma reads_string: "reads (JStr s) (quote s)"
  by (rule readsI) (simp_all add: quote_def skip_ws_Cons parse_string_quote)

text \<open>The elements of an array and the members of an object, up to the closing bracket.\<close>

definition reads_elements :: "jsval list \<Rightarrow> nat list \<Rightarrow> bool" where
  "reads_elements vs t \<longleftrightarrow> t \<noteq> [] \<and> hd t \<notin> {9, 10, 13, 32, 93} \<and>
     (\<forall>n rest. 2 * length t + 1 \<le> n \<longrightarrow> parse_elements n (t @ 93 # rest) = Inr (vs, rest))"

definition reads_members :: "(string \<times> jsval) list \<Rightarrow> nat list \<Rightarrow> bool" where
  "reads_members kvs t \<longleftrightarrow> t \<noteq> [] \<and> hd t = 34 \<and>
     (\<forall>n rest. 2 * length t + 1 \<le> n \<longrightarrow> parse_members n (t @ 125 # rest) = Inr (kvs, rest))"

lemma reads_elements_one: "reads v t \<Longrightarrow> reads_elements [v] t"
proof -
  assume r: "reads v t"
  have "parse_elements n (t @ 93 # rest) = Inr ([v], rest)" if "2 * length t + 1 \<le> n" for n rest
    using r that by (cases n) (auto simp: reads_def stops_def skip_ws_Cons)
  then show ?thesis using r by (auto simp: reads_elements_def reads_def)
qed

lemma reads_elements_more: "reads v t \<Longrightarrow> reads_elements vs ts \<Longrightarrow> reads_elements (v # vs) (t @ 44 # ts)"
proof -
  assume r: "reads v t" and rs: "reads_elements vs ts"
  have "parse_elements n ((t @ 44 # ts) @ 93 # rest) = Inr (v # vs, rest)" if "2 * length (t @ 44 # ts) + 1 \<le> n" for n rest
  proof (cases n)
    case (Suc k)
    then have "parse_value k (t @ 44 # ts @ 93 # rest) = Inr (v, 44 # ts @ 93 # rest)"
      using r that by (auto simp: reads_def stops_def)
    then show ?thesis using rs that Suc by (auto simp: reads_elements_def skip_ws_Cons)
  qed (use that in simp)
  then show ?thesis using r by (auto simp: reads_elements_def reads_def)
qed

lemma parse_member:
  assumes "reads v t" and "2 * length t \<le> k" and "stops rest"
  shows "parse_members (Suc k) ((quote key @ 58 # t) @ rest) = (case skip_ws rest of
             [] \<Rightarrow> Inl SyntaxError
           | e # r' \<Rightarrow>
               if e = 44 then bind_res (parse_members k r') (\<lambda>(kvs, r). Inr ((key, v) # kvs, r))
               else if e = 125 then Inr ([(key, v)], r') else Inl SyntaxError)"
proof -
  have "parse_value k (t @ rest) = Inr (v, rest)" using assms by (simp add: reads_def)
  then show ?thesis by (simp add: quote_def skip_ws_Cons parse_string_quote)
qed

lemma reads_members_one: "reads v t \<Longrightarrow> reads_members [(k, v)] (quote k @ 58 # t)"
proof -
  assume r: "reads v t"
  have "parse_members n ((quote k @ 58 # t) @ 125 # rest) = Inr ([(k, v)], rest)"
    if "2 * length (quote k @ 58 # t) + 1 \<le> n" for n rest
    using parse_member [OF r, of "n - 1" "125 # rest" k] that by (cases n) (simp_all add: stops_def skip_ws_Cons)
  then show ?thesis by (auto simp: reads_members_def quote_def)
qed

lemma reads_members_more:
  "reads v t \<Longrightarrow> reads_members kvs ts \<Longrightarrow> reads_members ((k, v) # kvs) ((quote k @ 58 # t) @ 44 # ts)"
proof -
  assume r: "reads v t" and rs: "reads_members kvs ts"
  have "parse_members n (((quote k @ 58 # t) @ 44 # ts) @ 125 # rest) = Inr ((k, v) # kvs, rest)"
    if "2 * length ((quote k @ 58 # t) @ 44 # ts) + 1 \<le> n" for n rest
    using parse_member [OF r, of "n - 1" "44 # ts @ 125 # rest" k] that rs
    by (cases n) (simp_all add: stops_def skip_ws_Cons reads_members_def)
  then show ?thesis by (auto simp: reads_members_def quote_def)
qed

lemma commas_Cons: "ts \<noteq> [] \<Longrightarrow> commas (t # ts) = t @ 44 # commas ts"
  by (cases ts) simp_all

lemma reads_array: "vs = [] \<and> t = [] \<or> reads_elements vs t \<Longrightarrow> reads (JArr vs) (91 # t @ [93])"
proof (rule readsI)
  fix n rest
  assume r: "vs = [] \<and> t = [] \<or> reads_elements vs t" and n: "2 * length (91 # t @ [93]) \<le> Suc n"
  show "parse_value (Suc n) ((91 # t @ [93]) @ rest) = Inr (JArr vs, rest)"
  proof (cases "t = []")
    case False
    then obtain c t' where t: "t = c # t'" by (cases t) auto
    have "c \<notin> {9, 10, 13, 32, 93}" "parse_elements n (t @ 93 # rest) = Inr (vs, rest)"
      using r False n by (auto simp: reads_elements_def t)
    then show ?thesis by (simp add: skip_ws_Cons t)
  qed (use r in \<open>auto simp: skip_ws_Cons reads_elements_def\<close>)
qed simp_all

lemma reads_object:
  assumes "kvs = [] \<and> t = [] \<or> reads_members kvs t" and "distinct (map fst kvs)" and "own_order kvs = kvs"
  shows "reads (JObj kvs) (123 # t @ [125])"
proof (rule readsI)
  fix n rest
  assume n: "2 * length (123 # t @ [125]) \<le> Suc n"
  show "parse_value (Suc n) ((123 # t @ [125]) @ rest) = Inr (JObj kvs, rest)"
  proof (cases "t = []")
    case False
    then obtain t' where t: "t = 34 # t'" using assms(1) by (cases t) (auto simp: reads_members_def)
    have "parse_members n (t @ 125 # rest) = Inr (kvs, rest)"
      using assms(1) False n by (auto simp: reads_members_def)
    then show ?thesis using assms(2,3) foldl_js_set [of "[]" kvs] by (simp add: skip_ws_Cons t)
  qed (use assms in \<open>auto simp: skip_ws_Cons reads_members_def\<close>)
qed simp_all

lemma stringify_members_nonempty: "json_members kvs \<Longrightarrow> kvs \<noteq> [] \<Longrightarrow> stringify_members kvs \<noteq> []"
  by (cases kvs rule: stringify_members.cases) (auto split: option.splits elim: json_value.elims)

lemma stringify_reads:
  "json_value v \<Longrightarrow> \<exists>t. stringify v = Some t \<and> reads v t"
  "json_members kvs \<Longrightarrow> kvs = [] \<and> stringify_members kvs = [] \<or> reads_members kvs (commas (stringify_members kvs))"
  "json_elements vs \<Longrightarrow> vs = [] \<and> stringify_elements vs = [] \<or> reads_elements vs (commas (stringify_elements vs))"
proof (induction v and kvs and vs rule: json_value_json_members_json_elements.induct)
  case 1
  have "reads Null (codes ''null'')" by (rule reads_word) (simp_all add: skip_ws_Cons)
  then show ?case by simp
next
  case (2 b)
  have "reads (JBool True) (codes ''true'')" "reads (JBool False) (codes ''false'')"
    by (rule reads_word, simp_all add: skip_ws_Cons)+
  then show ?case by (cases b) simp_all
next
  case (3 s)
  then show ?case by (simp add: reads_string)
next
  case (4 n)
  then show ?case by (simp add: reads_int)
next
  case (5 vs)
  then show ?case using reads_array [of vs "commas (stringify_elements vs)"] by auto
next
  case (6 kvs)
  then show ?case using reads_object [of kvs "commas (stringify_members kvs)"] by auto
next
  case (9 v vs)
  then obtain t where t: "stringify v = Some t" "reads v t" by auto
  show ?case
  proof (cases vs)
    case Nil
    then show ?thesis using t by (simp add: reads_elements_one)
  next
    case (Cons w ws)
    then have "reads_elements vs (commas (stringify_elements vs))" using 9 by auto
    then show ?thesis using reads_elements_more [OF t(2)] t(1) by (simp add: Cons)
  qed
next
  case (11 k v kvs)
  then obtain t where t: "stringify v = Some t" "reads v t" by auto
  show ?case
  proof (cases "kvs = []")
    case True
    then show ?thesis using t by (simp add: reads_members_one)
  next
    case False
    then have "reads_members kvs (commas (stringify_members kvs))" "stringify_members kvs \<noteq> []"
      using 11 stringify_members_nonempty by auto
    then show ?thesis using reads_members_more [OF t(2)] t(1) by (simp add: commas_Cons)
  qed
qed simp_all

lemma json_roundtrip: "json_value v \<Longrightarrow> \<exists>t. stringify v = Some t \<and> json_parse t = Inr v"
proof -
  assume "json_value v"
  then obtain t where t: "stringify v = Some t" "reads v t" using stringify_reads(1) by blast
  have "parse_value (2 * length t + 2) (t @ []) = Inr (v, [])"
    using t(2) by (simp add: reads_def stops_def del: append_Nil2 parse_value.simps)
  then show ?thesis using t(1) by (simp add: json_parse_def skip_ws_def)
qed

text \<open>A printed text consists of code units below 256, so its UTF-8 form is defined.\<close>

lemma escape_units: "c < 256 \<Longrightarrow> \<forall>u \<in> set (escape c). u < 256"
  by (auto simp: escape_def hex_digit_def)

lemma quote_units: "\<forall>u \<in> set (quote s). u < 256"
  using codes_bytes [of s] escape_units by (fastforce simp: quote_def)

lemma decimal_units: "\<forall>u \<in> set (decimal n). u < 256"
  using decimal_digits [of n] by (auto simp: list_all_iff is_digit_def)

lemma commas_units: "\<forall>t \<in> set ts. \<forall>u \<in> set t. u < 256 \<Longrightarrow> \<forall>u \<in> set (commas ts). u < (256 :: nat)"
  by (induction ts rule: commas.induct) auto

lemma stringify_units:
  "json_value v \<Longrightarrow> stringify v = Some t \<Longrightarrow> \<forall>u \<in> set t. u < 256"
  "json_members kvs \<Longrightarrow> \<forall>t \<in> set (stringify_members kvs). \<forall>u \<in> set t. u < 256"
  "json_elements vs \<Longrightarrow> \<forall>t \<in> set (stringify_elements vs). \<forall>u \<in> set t. u < 256"
proof (induction v and kvs and vs arbitrary: t rule: json_value_json_members_json_elements.induct)
  case (9 v vs)
  then show ?case by (auto split: option.splits dest: stringify_reads(1))
next
  case (11 k v kvs)
  then show ?case using quote_units [of k] by (auto split: option.splits dest: stringify_reads(1))
qed (use commas_units quote_units decimal_units in \<open>auto simp: json_int_def split: if_splits\<close>)

end
