(* ===== verification/Converters.thy ===== *)
theory Converters
  imports PayloadConverter Encoding Json
begin

text \<open>
  The payload converters the SDK ships with, \<^verbatim>\<open>packages/common/src/converter/payload-converter.ts\<close>: the composite
  converter over a list of converters for one encoding each, the converters for \<open>undefined\<close>, binary and
  JSON values, and the default converter made of the three. Binary data and the bytes of metadata are
  lists of characters; the text of a value goes through the encoder of \<open>Encoding\<close>.
\<close>

section \<open>Bytes and texts\<close>

definition encode_text :: "nat list \<Rightarrow> js_error + string" where
  "encode_text t = bind_res (encode t) (\<lambda>bs. Inr (map char_of bs))"

definition decode_bytes :: "string \<Rightarrow> nat list" where
  "decode_bytes b = decode (codes b)"

lemma codes_char_of: "\<forall>b \<in> set bs. b < 256 \<Longrightarrow> codes (map char_of bs) = bs"
  by (induction bs) (simp_all add: codes_def)

lemma utf16_bytes: "\<forall>u \<in> set t. u < 256 \<Longrightarrow> concat (map utf16 t) = t \<and> list_all scalar t"
  by (induction t) (auto simp: utf16_def scalar_def)

text \<open>A text of code units below 256 is encoded without an error and decoded again.\<close>

lemma text_roundtrip:
  assumes "\<forall>u \<in> set t. u < 256"
  shows "\<exists>b. encode_text t = Inr b \<and> decode_bytes b = t"
proof -
  note t = utf16_bytes [OF assms]
  have "encode t = Inr (concat (map utf8 t))" "decode (concat (map utf8 t)) = t"
    using encode_utf16 [of t] decode_units_utf8 [of _ "[]" t] t by (simp_all add: decode_unbuffered)
  moreover have "\<forall>b \<in> set (concat (map utf8 t)). b < 256"
    using t utf8_bytes by (auto simp: list_all_iff)
  ultimately show ?thesis
    by (simp add: encode_text_def decode_bytes_def codes_char_of)
qed

section \<open>Converters for one encoding\<close>

definition METADATA_ENCODING_KEY :: string where "METADATA_ENCODING_KEY = ''encoding''"

definition METADATA_ENCODING_NULL :: string where "METADATA_ENCODING_NULL = ''binary/null''"
definition METADATA_ENCODING_RAW :: string where "METADATA_ENCODING_RAW = ''binary/plain''"
definition METADATA_ENCODING_JSON :: string where "METADATA_ENCODING_JSON = ''json/plain''"

definition encodingKey :: "string \<Rightarrow> string" where
  "encodingKey t = (case encode_text (codes t) of Inr b \<Rightarrow> b | Inl _ \<Rightarrow> [])"

record converter_with_encoding =
  encodingType :: string
  enc_toPayload :: "jsval \<Rightarrow> serialization_context option \<Rightarrow> string option \<Rightarrow> js_error + payload option"
  enc_fromPayload :: "payload \<Rightarrow> serialization_context option \<Rightarrow> string option \<Rightarrow> js_error + jsval"
  validateConverterHint :: "(string \<Rightarrow> bool) option"

definition UndefinedPayloadConverter :: converter_with_encoding where
  "UndefinedPayloadConverter =
     \<lparr>encodingType = METADATA_ENCODING_NULL,
      enc_toPayload = (\<lambda>v ctx h. Inr (if v \<noteq> Undefined then None
        else Some \<lparr>metadata = Some [(METADATA_ENCODING_KEY, encodingKey METADATA_ENCODING_NULL)], data = None\<rparr>)),
      enc_fromPayload = (\<lambda>p ctx h. Inr Undefined),
      validateConverterHint = None\<rparr>"

definition BinaryPayloadConverter :: converter_with_encoding where
  "BinaryPayloadConverter =
     \<lparr>encodingType = METADATA_ENCODING_RAW,
      enc_toPayload = (\<lambda>v ctx h. Inr (case v of
          JBytes b \<Rightarrow> Some \<lparr>metadata = Some [(METADATA_ENCODING_KEY, encodingKey METADATA_ENCODING_RAW)], data = Some b\<rparr>
        | _ \<Rightarrow> None)),
      enc_fromPayload = (\<lambda>p ctx h. Inr (case data p of Some b \<Rightarrow> JBytes b | None \<Rightarrow> Undefined)),
      validateConverterHint = None\<rparr>"

definition JsonPayloadConverter :: converter_with_encoding where
  "JsonPayloadConverter =
     \<lparr>encodingType = METADATA_ENCODING_JSON,
      enc_toPayload = (\<lambda>v ctx h.
        if v = Undefined then Inr None
        else case stringify v of
               None \<Rightarrow> Inr None
             | Some json \<Rightarrow> bind_res (encode_text json) (\<lambda>b. Inr (Some
                 \<lparr>metadata = Some [(METADATA_ENCODING_KEY, encodingKey METADATA_ENCODING_JSON)], data = Some b\<rparr>))),
      enc_fromPayload = (\<lambda>p ctx h. case data p of
          None \<Rightarrow> Inl (ValueError ''Got payload with no data'')
        | Some b \<Rightarrow> json_parse (decode_bytes b)),
      validateConverterHint = None\<rparr>"

section \<open>The composite converter\<close>

abbreviation PayloadConverterError :: "string \<Rightarrow> js_error" where
  "PayloadConverterError m \<equiv> OtherError [(21, ''PayloadConverterError''), Error_class] m [] None"

definition supports_hint :: "converter_with_encoding \<Rightarrow> string option \<Rightarrow> bool" where
  "supports_hint c hint = (case hint of None \<Rightarrow> True
     | Some h \<Rightarrow> (case validateConverterHint c of None \<Rightarrow> False | Some f \<Rightarrow> f h))"

fun composite_toPayload ::
  "(jsval \<Rightarrow> string) \<Rightarrow> converter_with_encoding list \<Rightarrow> jsval \<Rightarrow> serialization_context option \<Rightarrow> string option \<Rightarrow> js_error + payload" where
  "composite_toPayload show_value [] v ctx hint = Inl (ValueError (case hint of
       Some h \<Rightarrow> ''No payload converter supports converter hint '' @ h
     | None \<Rightarrow> ''Unable to convert '' @ show_value v @ '' to payload''))"
| "composite_toPayload show_value (c # cs) v ctx hint =
     (if \<not> supports_hint c hint then composite_toPayload show_value cs v ctx hint
      else bind_res (enc_toPayload c v ctx hint) (\<lambda>r. case r of
             Some p \<Rightarrow> Inr p
           | None \<Rightarrow> composite_toPayload show_value cs v ctx hint))"

definition converterByEncoding :: "converter_with_encoding list \<Rightarrow> (string, converter_with_encoding) js_map" where
  "converterByEncoding cs = foldl (\<lambda>m c. js_set m (encodingType c) c) [] cs"

text \<open>
  \<^verbatim>\<open>decode(undefined)\<close>, when the metadata have no encoding, is the empty string. The name of an encoding
  with characters outside of the strings of the model is unknown.
\<close>

definition composite_fromPayload ::
  "converter_with_encoding list \<Rightarrow> payload \<Rightarrow> serialization_context option \<Rightarrow> string option \<Rightarrow> js_error + jsval" where
  "composite_fromPayload cs p ctx hint = (case metadata p of
     None \<Rightarrow> Inl (ValueError ''Missing payload metadata'')
   | Some m \<Rightarrow>
       let us = (case js_get m METADATA_ENCODING_KEY of None \<Rightarrow> [] | Some b \<Rightarrow> decode_bytes b);
           enc = map char_of us
       in if \<not> (\<forall>u \<in> set us. u < 256) then Inl (ValueError ''Unknown encoding'')
          else case js_get (converterByEncoding cs) enc of
            None \<Rightarrow> Inl (ValueError (''Unknown encoding: '' @ enc))
          | Some c \<Rightarrow>
              if \<not> supports_hint c hint
              then Inl (PayloadConverterError (''Payload encoding '' @ enc @ '' does not support converter hint ''
                     @ (case hint of Some h \<Rightarrow> h | None \<Rightarrow> [])))
              else enc_fromPayload c p ctx hint)"

definition CompositePayloadConverter ::
  "(jsval \<Rightarrow> string) \<Rightarrow> converter_with_encoding list \<Rightarrow> js_error + payload_converter" where
  "CompositePayloadConverter show_value cs =
     (if cs = [] then Inl (PayloadConverterError ''Must provide at least one PayloadConverterWithEncoding'')
      else Inr \<lparr>toPayload = (\<lambda>v ctx h. case v of JRaw p \<Rightarrow> Inr p | _ \<Rightarrow> composite_toPayload show_value cs v ctx h),
                fromPayload = composite_fromPayload cs\<rparr>)"

definition DefaultPayloadConverter :: "(jsval \<Rightarrow> string) \<Rightarrow> payload_converter" where
  "DefaultPayloadConverter show_value =
     (case CompositePayloadConverter show_value [UndefinedPayloadConverter, BinaryPayloadConverter, JsonPayloadConverter] of
        Inr conv \<Rightarrow> conv
      | Inl e \<Rightarrow> \<lparr>toPayload = (\<lambda>v ctx h. Inl e), fromPayload = (\<lambda>p ctx h. Inl e)\<rparr>)"

section \<open>A composite of lossless converters is lossless\<close>

text \<open>
  What the composite relies on: a converter marks its payloads with the name of its encoding and reads
  them back.
\<close>

locale encoding_converter =
  fixes c :: converter_with_encoding
    and ok :: "jsval \<Rightarrow> bool"
  assumes marks: "enc_toPayload c v ctx h = Inr (Some p) \<Longrightarrow> metadata p = Some [(METADATA_ENCODING_KEY, encodingKey (encodingType c))]"
    and reads_back: "ok v \<Longrightarrow> enc_toPayload c v ctx h = Inr (Some p) \<Longrightarrow> enc_fromPayload c p ctx h = Inr v"
begin

lemma marked_encoding:
  assumes "enc_toPayload c v ctx h = Inr (Some p)"
  shows "\<exists>m. metadata p = Some m \<and> js_get m METADATA_ENCODING_KEY = Some (encodingKey (encodingType c))"
  using marks [OF assms] by (simp add: js_get_def)

end

lemma codes_inverse: "decode_bytes (encodingKey t) = codes t"
proof -
  obtain b where "encode_text (codes t) = Inr b" "decode_bytes b = codes t"
    using text_roundtrip [OF codes_bytes] by blast
  then show ?thesis by (simp add: encodingKey_def)
qed

lemma converterByEncoding_get:
  assumes "distinct (map encodingType cs)" and "c \<in> set cs"
  shows "js_get (converterByEncoding cs) (encodingType c) = Some c"
proof -
  have "js_get (foldl (\<lambda>m c. js_set m (encodingType c) c) m cs) k =
      (case find (\<lambda>c. encodingType c = k) cs of Some c \<Rightarrow> Some c | None \<Rightarrow> js_get m k)"
    if "distinct (map encodingType cs)" for k m
    using that
  proof (induction cs arbitrary: m)
    case (Cons d cs)
    have "encodingType x \<noteq> encodingType d" if "x \<in> set cs" for x
      using Cons.prems imageI [OF that, of encodingType] by auto
    then have "find (\<lambda>c. encodingType c = encodingType d) cs = None" by (simp add: find_None_iff)
    then show ?case using Cons by (auto split: option.splits)
  qed simp
  moreover have "find (\<lambda>d. encodingType d = encodingType c) cs = Some c"
    using assms by (induction cs) auto
  ultimately show ?thesis using assms(1) by (simp add: converterByEncoding_def)
qed

lemma composite_lossless:
  assumes cs: "list_all (\<lambda>c. encoding_converter c ok) ds" and sub: "set ds \<subseteq> set cs"
    and dist: "distinct (map encodingType cs)" and ok: "ok v"
    and to: "composite_toPayload sv ds v ctx h = Inr p"
  shows "composite_fromPayload cs p ctx h = Inr v"
  using cs sub to
proof (induction ds)
  case (Cons c ds)
  show ?case
  proof (cases "supports_hint c h \<and> enc_toPayload c v ctx h = Inr (Some p)")
    case True
    have c: "encoding_converter c ok" using Cons.prems(1) by simp
    from encoding_converter.marked_encoding [OF c] True
    obtain m where m: "metadata p = Some m" "js_get m METADATA_ENCODING_KEY = Some (encodingKey (encodingType c))" by blast
    have "js_get (converterByEncoding cs) (encodingType c) = Some c"
      using converterByEncoding_get [OF dist] Cons.prems(2) by simp
    then show ?thesis
      using m True encoding_converter.reads_back [OF c ok] codes_bytes
      by (simp add: composite_fromPayload_def Let_def codes_inverse char_of_codes)
  next
    case False
    then have "composite_toPayload sv ds v ctx h = Inr p"
      using Cons.prems(3) by (auto simp: bind_res_Inr_iff split: if_splits option.splits)
    then show ?thesis using Cons by simp
  qed
qed simp

section \<open>The converters of the SDK keep the contract\<close>

text \<open>The values that come back: \<open>undefined\<close>, bytes, and the JSON values.\<close>

fun plain_value :: "jsval \<Rightarrow> bool" where
  "plain_value Undefined = True"
| "plain_value (JBytes b) = True"
| "plain_value v = json_value v"

interpretation undefined_conv: encoding_converter UndefinedPayloadConverter "\<lambda>v. True"
  by unfold_locales (auto simp: UndefinedPayloadConverter_def split: if_splits)

interpretation binary_conv: encoding_converter BinaryPayloadConverter "\<lambda>v. True"
  by unfold_locales (auto simp: BinaryPayloadConverter_def split: jsval.splits)

text \<open>The JSON converter also accepts bytes, which it does not read back.\<close>

interpretation json_conv: encoding_converter JsonPayloadConverter "\<lambda>v. v = Undefined \<or> json_value v"
proof
  fix v ctx h p
  assume v: "v = Undefined \<or> json_value v" and p: "enc_toPayload JsonPayloadConverter v ctx h = Inr (Some p)"
  then have v: "json_value v" by (auto simp: JsonPayloadConverter_def)
  obtain t where t: "stringify v = Some t" "json_parse t = Inr v" using json_roundtrip [OF v] by blast
  obtain b where b: "encode_text t = Inr b" "decode_bytes b = t"
    using text_roundtrip stringify_units(1) [OF v t(1)] by blast
  show "enc_fromPayload JsonPayloadConverter p ctx h = Inr v"
    using p t b by (auto simp: JsonPayloadConverter_def split: if_splits)
qed (auto simp: JsonPayloadConverter_def bind_res_Inr_iff split: if_splits option.splits)

lemma encoding_converter_weaken: "encoding_converter c (\<lambda>v. True) \<Longrightarrow> encoding_converter c ok"
  unfolding encoding_converter_def by blast

abbreviation defaultConverters :: "converter_with_encoding list" where
  "defaultConverters \<equiv> [UndefinedPayloadConverter, BinaryPayloadConverter, JsonPayloadConverter]"

lemma defaultConverters_distinct: "distinct (map encodingType defaultConverters)"
  by (simp add: UndefinedPayloadConverter_def BinaryPayloadConverter_def JsonPayloadConverter_def
      METADATA_ENCODING_NULL_def METADATA_ENCODING_RAW_def METADATA_ENCODING_JSON_def)

lemma default_conv_simps:
  "toPayload (DefaultPayloadConverter sv) v ctx h = (case v of JRaw p \<Rightarrow> Inr p
     | _ \<Rightarrow> composite_toPayload sv defaultConverters v ctx h)"
  "fromPayload (DefaultPayloadConverter sv) p ctx h = composite_fromPayload defaultConverters p ctx h"
  by (simp_all add: DefaultPayloadConverter_def CompositePayloadConverter_def)

lemma default_bytes:
  "composite_toPayload sv defaultConverters (JBytes b) ctx h = Inr p \<Longrightarrow>
   composite_toPayload sv [UndefinedPayloadConverter, BinaryPayloadConverter] (JBytes b) ctx h = Inr p"
  by (auto simp: UndefinedPayloadConverter_def BinaryPayloadConverter_def JsonPayloadConverter_def supports_hint_def
      split: option.splits if_splits)

lemma default_lossless:
  assumes v: "plain_value v" and p: "composite_toPayload sv defaultConverters v ctx h = Inr p"
  shows "composite_fromPayload defaultConverters p ctx h = Inr v"
proof (cases "\<exists>b. v = JBytes b")
  case True
  then have p': "composite_toPayload sv [UndefinedPayloadConverter, BinaryPayloadConverter] v ctx h = Inr p"
    using p default_bytes by blast
  have "list_all (\<lambda>c. encoding_converter c (\<lambda>v. True)) [UndefinedPayloadConverter, BinaryPayloadConverter]"
    using undefined_conv.encoding_converter_axioms binary_conv.encoding_converter_axioms by simp
  from composite_lossless [OF this _ defaultConverters_distinct TrueI p'] show ?thesis by simp
next
  case False
  then have ok: "v = Undefined \<or> json_value v" using v by (cases v) auto
  have "list_all (\<lambda>c. encoding_converter c (\<lambda>v. v = Undefined \<or> json_value v)) defaultConverters"
    using undefined_conv.encoding_converter_axioms binary_conv.encoding_converter_axioms json_conv.encoding_converter_axioms
    by (simp add: encoding_converter_weaken)
  from composite_lossless [OF this _ defaultConverters_distinct _ p] ok show ?thesis by simp
qed

interpretation default_conv: lossless_converter "DefaultPayloadConverter sv" plain_value
proof
  fix v ctx h p
  assume "plain_value v" and "toPayload (DefaultPayloadConverter sv) v ctx h = Inr p"
  then show "fromPayload (DefaultPayloadConverter sv) p ctx h = Inr v"
    by (cases v) (simp_all add: default_conv_simps default_lossless del: composite_toPayload.simps)
qed

lemma default_accepts:
  assumes "plain_value v"
  shows "\<exists>p. toPayload (DefaultPayloadConverter sv) v ctx None = Inr p"
proof -
  have "\<exists>p. composite_toPayload sv defaultConverters v ctx None = Inr p" if jv: "json_value v"
  proof -
    from json_roundtrip [OF jv] obtain t where t: "stringify v = Some t" by blast
    obtain b where "encode_text t = Inr b" using text_roundtrip stringify_units(1) [OF jv t] by blast
    then show ?thesis using t
      by (auto simp: UndefinedPayloadConverter_def BinaryPayloadConverter_def JsonPayloadConverter_def supports_hint_def
          split: jsval.splits)
  qed
  then show ?thesis using assms
    by (cases v) (auto simp: default_conv_simps UndefinedPayloadConverter_def BinaryPayloadConverter_def supports_hint_def)
qed

lemma default_values_roundtrip:
  assumes "list_all plain_value vs"
  shows "\<exists>ps. toPayloadsWithContext (DefaultPayloadConverter sv) ctx vs None = Inr ps \<and>
    arrayFromPayloads (DefaultPayloadConverter sv) ps ctx None = Inr vs"
proof -
  have one: "\<exists>p. toPayloadWithTypeInfo (DefaultPayloadConverter sv) v ctx None = Inr p" if "plain_value v" for v
    using default_accepts [OF that] by (auto simp: toPayloadWithTypeInfo_def isRawValueTypeInfo_def hint_of_def)
  have "\<exists>ps. map_res (\<lambda>(i, v). toPayloadWithTypeInfo (DefaultPayloadConverter sv) v ctx None) (enumerate n vs) = Inr ps" for n
    using assms
  proof (induction vs arbitrary: n)
    case (Cons v vs)
    then obtain ps where "map_res (\<lambda>(i, v). toPayloadWithTypeInfo (DefaultPayloadConverter sv) v ctx None)
        (enumerate (Suc n) vs) = Inr ps" by (auto dest: Cons.IH [of "Suc n"])
    moreover obtain p where "toPayloadWithTypeInfo (DefaultPayloadConverter sv) v ctx None = Inr p"
      using one [of v] Cons.prems by auto
    ultimately show ?case by simp
  qed simp
  from this [of 0] obtain ps where ps: "toPayloadsWithContext (DefaultPayloadConverter sv) ctx vs None = Inr ps"
    by (cases "vs = []") (auto simp: toPayloadsWithContext_def type_at_def)
  have "list_all (\<lambda>(i, v). ti_transfer_ok plain_value (type_at None i) v) (enumerate 0 vs)"
    using assms by (auto simp: list_all_iff in_set_enumerate_eq ti_transfer_ok_def type_at_def)
  then show ?thesis using ps default_conv.values_roundtrip [OF ps] by blast
qed

section \<open>Properties\<close>

text \<open>
  C23: (Round trip.) The default payload converter: every list of plain values (\<open>undefined\<close>, bytes, and JSON values
  of any depth) is serialized without an error, and the payloads are read back to the same list.
  The payloads pass through the JSON printer, the UTF-8 encoder, the choice of the converter by the
  encoding named in the metadata, the decoder and the JSON parser.
\<close>

theorem default_converter_roundtrip:
  assumes "list_all plain_value vs"
  shows "\<exists>ps. toPayloadsWithContext (DefaultPayloadConverter sv) ctx vs None = Inr ps \<and>
    arrayFromPayloads (DefaultPayloadConverter sv) ps ctx None = Inr vs"
  using assms by (rule default_values_roundtrip)

theorem default_converter_roundtrip_witness:
  "\<exists>ps. toPayloadsWithContext (DefaultPayloadConverter (\<lambda>v. [])) None
       [Undefined, JBytes ''abc'', JObj [(''n'', JNum (-12)), (''xs'', JArr [JStr ''hi'', Null, JBool True])]] None = Inr ps \<and>
     arrayFromPayloads (DefaultPayloadConverter (\<lambda>v. [])) ps None None =
       Inr [Undefined, JBytes ''abc'', JObj [(''n'', JNum (-12)), (''xs'', JArr [JStr ''hi'', Null, JBool True])]]"
  by (rule default_converter_roundtrip) (simp add: own_order_def array_index_def is_digit_def Let_def)

end
