(* ===== verification/Regex.thy ===== *)
theory Regex
  imports Prelude
begin

text \<open>
  Regular expressions as far as the SDK's patterns need them: character classes, sequence,
  alternatives, repetition. \<open>matches\<close> says which strings a pattern matches; the matcher follows
  derivatives and is shown to decide it.
\<close>

datatype rx =
    Never
  | Empty
  | Cls "char list"
  | NotCls "char list"
  | Seq rx rx
  | Alt rx rx
  | Star rx

inductive matches :: "rx \<Rightarrow> string \<Rightarrow> bool" where
  empty: "matches Empty []"
| cls: "c \<in> set cs \<Longrightarrow> matches (Cls cs) [c]"
| not_cls: "c \<notin> set cs \<Longrightarrow> matches (NotCls cs) [c]"
| seq: "matches r s \<Longrightarrow> matches q t \<Longrightarrow> matches (Seq r q) (s @ t)"
| alt1: "matches r s \<Longrightarrow> matches (Alt r q) s"
| alt2: "matches q s \<Longrightarrow> matches (Alt r q) s"
| star0: "matches (Star r) []"
| star1: "s \<noteq> [] \<Longrightarrow> matches r s \<Longrightarrow> matches (Star r) t \<Longrightarrow> matches (Star r) (s @ t)"

inductive_cases matches_SeqE: "matches (Seq r q) s"
inductive_cases matches_StarE: "matches (Star r) s"
inductive_simps matches_simps [simp]:
  "matches Never s" "matches Empty s" "matches (Cls cs) s" "matches (NotCls cs) s" "matches (Alt r q) s"

fun nullable :: "rx \<Rightarrow> bool" where
  "nullable Never = False"
| "nullable Empty = True"
| "nullable (Cls cs) = False"
| "nullable (NotCls cs) = False"
| "nullable (Seq r q) = (nullable r \<and> nullable q)"
| "nullable (Alt r q) = (nullable r \<or> nullable q)"
| "nullable (Star r) = True"

fun seq_of :: "rx \<Rightarrow> rx \<Rightarrow> rx" where
  "seq_of Never q = Never"
| "seq_of Empty q = q"
| "seq_of r q = Seq r q"

fun alt_of :: "rx \<Rightarrow> rx \<Rightarrow> rx" where
  "alt_of Never q = q"
| "alt_of r Never = r"
| "alt_of r q = (if r = q then r else Alt r q)"

fun deriv :: "char \<Rightarrow> rx \<Rightarrow> rx" where
  "deriv c Never = Never"
| "deriv c Empty = Never"
| "deriv c (Cls cs) = (if c \<in> set cs then Empty else Never)"
| "deriv c (NotCls cs) = (if c \<in> set cs then Never else Empty)"
| "deriv c (Seq r q) = (let d = seq_of (deriv c r) q in if nullable r then alt_of d (deriv c q) else d)"
| "deriv c (Alt r q) = alt_of (deriv c r) (deriv c q)"
| "deriv c (Star r) = seq_of (deriv c r) (Star r)"

definition rx_match :: "rx \<Rightarrow> string \<Rightarrow> bool" where
  "rx_match r s = nullable (foldl (\<lambda>r c. deriv c r) r s)"

text \<open>\<^verbatim>\<open>RegExp.prototype.test\<close>: whether the pattern matches somewhere in the string.\<close>

definition rx_test :: "rx \<Rightarrow> string \<Rightarrow> bool" where
  "rx_test r s = rx_match (Seq (Star (NotCls [])) (Seq r (Star (NotCls [])))) s"

section \<open>The matcher decides matching\<close>

lemma matches_Seq: "matches (Seq r q) u \<longleftrightarrow> (\<exists>s t. u = s @ t \<and> matches r s \<and> matches q t)"
  by (metis matches_SeqE matches.seq)

lemma nullable_correct: "nullable r \<longleftrightarrow> matches r []"
  by (induction r) (auto simp: matches_Seq intro: matches.star0)

lemma seq_of_correct: "matches (seq_of r q) u \<longleftrightarrow> matches (Seq r q) u"
  by (cases r) (simp_all add: matches_Seq)

lemma alt_of_correct: "matches (alt_of r q) u \<longleftrightarrow> matches r u \<or> matches q u"
  by (cases r; cases q) (auto)

lemma deriv_correct: "matches (deriv c r) s \<longleftrightarrow> matches r (c # s)"
proof (induction r arbitrary: s)
  case (Seq r q)
  have "matches (Seq r q) (c # s) \<longleftrightarrow>
      (\<exists>t u. s = t @ u \<and> matches r (c # t) \<and> matches q u) \<or> matches r [] \<and> matches q (c # s)"
    by (auto simp: matches_Seq Cons_eq_append_conv)
  then show ?case
    by (auto simp: Seq.IH seq_of_correct alt_of_correct matches_Seq nullable_correct Let_def)
next
  case (Star r)
  have "matches (Star r) (c # s) \<longleftrightarrow> (\<exists>t u. s = t @ u \<and> matches r (c # t) \<and> matches (Star r) u)"
  proof
    assume "matches (Star r) (c # s)"
    then obtain a b where ab: "c # s = a @ b" "a \<noteq> []" "matches r a" "matches (Star r) b"
      by (metis matches_StarE list.distinct(1))
    then obtain a' where "a = c # a'" "s = a' @ b" by (cases a) auto
    then show "\<exists>t u. s = t @ u \<and> matches r (c # t) \<and> matches (Star r) u" using ab by blast
  qed (use matches.star1 [of "c # _" r] in fastforce)
  then show ?case by (simp add: Star.IH seq_of_correct matches_Seq)
qed (auto simp: alt_of_correct)

lemma rx_match_correct: "rx_match r s \<longleftrightarrow> matches r s"
  by (induction s arbitrary: r) (simp_all add: rx_match_def nullable_correct deriv_correct)

lemma matches_anything: "matches (Star (NotCls [])) s"
proof (induction s)
  case (Cons c s)
  then show ?case using matches.star1 [of "[c]" "NotCls []" s] by simp
qed (rule matches.star0)

lemma rx_test_correct: "rx_test r s \<longleftrightarrow> (\<exists>a b c. s = a @ b @ c \<and> matches r b)"
  by (auto simp: rx_test_def rx_match_correct matches_Seq matches_anything)

section \<open>Notation of patterns\<close>

definition lit :: "string \<Rightarrow> rx" where
  "lit s = foldr (\<lambda>c r. Seq (Cls [c]) r) s Empty"

definition opt :: "rx \<Rightarrow> rx" where "opt r = Alt r Empty"
definition plus :: "rx \<Rightarrow> rx" where "plus r = Seq r (Star r)"
definition seqs :: "rx list \<Rightarrow> rx" where "seqs rs = foldr Seq rs Empty"
definition alts :: "rx list \<Rightarrow> rx" where "alts rs = foldr Alt rs Never"

definition space :: rx where
  "space = Cls (map char_of [9::nat, 10, 11, 12, 13, 32, 160])"

definition digit :: rx where "digit = Cls ''0123456789''"
definition dot :: rx where "dot = NotCls (map char_of [10::nat, 13])"

lemma matches_lit: "matches (lit p) s \<longleftrightarrow> s = p"
  by (induction p arbitrary: s) (auto simp: lit_def matches_Seq)

lemma matches_alts: "matches (alts rs) s \<longleftrightarrow> (\<exists>r \<in> set rs. matches r s)"
  by (induction rs) (auto simp: alts_def)

end
