(* ===== verification/FailureConverter.thy ===== *)
theory FailureConverter
  imports Converters Enums Time Regex
begin

text \<open>
  The default failure converter, \<^verbatim>\<open>packages/common/src/converter/failure-converter.ts\<close>: errors to their wire form and
  back, with the option to hide message and stack trace in an encoded payload, and the clean-up of stack
  traces. \<^verbatim>\<open>errorToFailure\<close> writes into the failure object an error carries, so it returns the error as it
  is afterwards, too.

  \<open>failure_env\<close> holds what the code takes from other packages: the parser of duration strings of \<^verbatim>\<open>ms\<close>, and from
  \<^verbatim>\<open>nexus-rpc\<close> the table \<^verbatim>\<open>HandlerErrorType\<close> and the property \<^verbatim>\<open>retryable\<close> of a handler error.
\<close>

section \<open>Stack traces\<close>

definition slash :: rx where "slash = Cls [CHR 0x5c, CHR ''/'']"
definition srcOrLib :: rx where "srcOrLib = alts [lit ''src'', lit ''lib'']"
definition frameAt :: rx where "frameAt = Seq (plus space) (lit ''at'')"
definition position :: rx where "position = seqs [lit ''.'', Cls ''jt'', lit ''s:'', plus digit, lit '':'', plus digit, lit '')'']"

definition CUTOFF_STACK_PATTERNS :: rx where
  "CUTOFF_STACK_PATTERNS = alts [
     seqs [frameAt, lit '' '', opt (lit ''Activity.''), lit ''execute ('', Star dot, slash, lit ''worker'', slash, srcOrLib,
       slash, lit ''activity'', position],
     seqs [frameAt, opt (lit '' async''), lit '' '', opt (lit ''NexusHandler.''), lit ''invokeUserCode ('', Star dot, slash,
       lit ''worker'', slash, srcOrLib, slash, lit ''nexus'', slash, lit ''index'', position],
     seqs [frameAt, opt (lit '' async''), lit '' '', opt (lit ''Activator.''),
       alts [lit ''startWorkflow'', lit ''queryWorkflow'', lit ''signalWorkflow'', lit ''update'', lit ''validateUpdate''],
       lit ''NextHandler ('', Star dot, position],
     alts [
       seqs [frameAt, lit '' '', opt (lit ''Script.''), lit ''runInContext (native''],
       lit ''unknown'',
       seqs [alts [lit ''node:vm'', lit ''vm.js''], lit '':'', plus digit, lit '':'', plus digit, lit '')'']]]"

definition DROPPED_STACK_FRAMES_PATTERNS :: rx where
  "DROPPED_STACK_FRAMES_PATTERNS = alts [
     seqs [frameAt, lit '' '', opt (lit ''null.''), lit ''next ('', Star dot, slash, lit ''common'', slash, srcOrLib, slash,
       lit ''interceptors'', position],
     seqs [frameAt, lit '' '', opt (lit ''null.''), lit ''executeNextHandler ('', Star dot, slash, lit ''worker'', slash, srcOrLib,
       slash, lit ''activity'', position]]"

text \<open>\<^verbatim>\<open>split(/\r?\n/)\<close> and \<^verbatim>\<open>join('\n')\<close>.\<close>

fun split_lines :: "string \<Rightarrow> string list" where
  "split_lines [] = [[]]"
| "split_lines (c # s) =
     (if c = CHR 0x0a then [] # split_lines s
      else if c = CHR 0x0d \<and> s \<noteq> [] \<and> hd s = CHR 0x0a then split_lines s
      else case split_lines s of l # ls \<Rightarrow> (c # l) # ls | [] \<Rightarrow> [[c]])"

fun join_lines :: "string list \<Rightarrow> string" where
  "join_lines [] = []"
| "join_lines [l] = l"
| "join_lines (l # ls) = l @ CHR 0x0a # join_lines ls"

definition cutoffStackTrace :: "string \<Rightarrow> string" where
  "cutoffStackTrace stack =
     join_lines (filter (\<lambda>l. \<not> rx_test DROPPED_STACK_FRAMES_PATTERNS l)
       (takeWhile (\<lambda>l. \<not> rx_test CUTOFF_STACK_PATTERNS l) (split_lines stack)))"

section \<open>From a failure to an error\<close>

record failure_env =
  fe_ms :: "string \<Rightarrow> rat option"
  fe_handlerErrorType :: "string \<Rightarrow> string option"
  fe_retryable :: "string \<Rightarrow> bool option \<Rightarrow> bool"

definition FAILURE_SOURCE :: string where "FAILURE_SOURCE = ''TypeScriptSDK''"

abbreviation decode_retryState :: "int option \<Rightarrow> js_error + string option" where
  "decode_retryState n \<equiv> decodeEnum retryState_table (enum_num n)"

definition or_empty :: "string option \<Rightarrow> string" where
  "or_empty s = (case s of None \<Rightarrow> [] | Some s \<Rightarrow> s)"

definition str_field :: "(string \<times> jsval) list \<Rightarrow> string \<Rightarrow> string option \<Rightarrow> string option" where
  "str_field flds k old = (case map_of flds k of Some (JStr s) \<Rightarrow> Some s | _ \<Rightarrow> old)"

text \<open>The message and the stack trace after \<open>encodedAttributes\<close> have been read.\<close>

definition decode_common ::
  "payload_converter \<Rightarrow> serialization_context option \<Rightarrow> string option \<Rightarrow> string option \<Rightarrow> payload option \<Rightarrow>
     js_error + string option \<times> string option" where
  "decode_common conv ctx m st enc = (case enc of
     None \<Rightarrow> Inr (m, st)
   | Some p \<Rightarrow> bind_res (fromPayload conv p ctx None) (\<lambda>attrs. Inr (case attrs of
       JObj flds \<Rightarrow> (str_field flds ''message'' m, str_field flds ''stack_trace'' st)
     | _ \<Rightarrow> (m, st))))"

definition nexus_override :: "string option \<Rightarrow> bool option" where
  "nexus_override b = (if b = Some ''RETRYABLE'' then Some True else if b = Some ''NON_RETRYABLE'' then Some False else None)"

definition temporalFailureToNexusFailure :: "proto_failure \<Rightarrow> nexus_failure" where
  "temporalFailureToNexusFailure f = NexusTemporalFailure (or_empty (f_message f)) (Some f)"

fun failureToError_default ::
  "failure_env \<Rightarrow> payload_converter \<Rightarrow> serialization_context option \<Rightarrow> proto_failure \<Rightarrow> js_error + js_error" where
  "failureToError_default env conv ctx (Failure msg src stk enc cse fi) =
     bind_res (decode_common conv ctx msg stk enc) (\<lambda>(m, st).
       let f = Failure m src st enc cse fi;
           cause = (case cse of None \<Rightarrow> Inr None
                    | Some c \<Rightarrow> bind_res (failureToError_default env conv ctx c) (\<lambda>e. Inr (Some e)));
           made = (\<lambda>k m c. Inr (TemporalFailure k (or_empty m) (or_empty st) c (Some f)))
       in case fi of
         ApplicationInfo ty nr details delay cat \<Rightarrow>
           bind_res (arrayFromPayloads conv details ctx None) (\<lambda>ds. bind_res cause (\<lambda>c.
             bind_res (decodeEnum applicationFailureCategory_table (enum_num cat)) (\<lambda>cat.
               made (ApplicationFailure ty nr (Some ds) None cat) m c)))
       | ServerInfo nr \<Rightarrow> bind_res cause (\<lambda>c. made (ServerFailure nr) m c)
       | TimeoutInfo ty hb \<Rightarrow>
           bind_res (fromPayloadsAtIndex conv 0 hb ctx None) (\<lambda>d.
             bind_res (decodeEnum timeoutType_table (enum_num ty)) (\<lambda>ty. made (TimeoutFailure d ty) m None))
       | TerminatedInfo \<Rightarrow> bind_res cause (\<lambda>c. made TerminatedFailure m c)
       | CanceledInfo details \<Rightarrow>
           bind_res (arrayFromPayloads conv details ctx None) (\<lambda>ds. bind_res cause (\<lambda>c. made (CancelledFailure ds) m c))
       | ResetWorkflowInfo hb \<Rightarrow>
           bind_res (arrayFromPayloads conv hb ctx None) (\<lambda>ds. bind_res cause (\<lambda>c.
             made (ApplicationFailure (Some ''ResetWorkflow'') False (Some ds) None None) m c))
       | ChildWorkflowInfo ns ex ty rs \<Rightarrow>
           (case (ty, ex) of
              (Some (ch # t), Some x) \<Rightarrow>
                bind_res (decode_retryState rs) (\<lambda>rs. bind_res cause (\<lambda>c.
                  made (ChildWorkflowFailure ns x (ch # t) rs) (Some ''Child Workflow execution failed'') c))
            | _ \<Rightarrow> Inl (TypeError ''Missing attributes on childWorkflowExecutionFailureInfo''))
       | ActivityInfo ty aid rs ident \<Rightarrow>
           (case ty of
              Some (ch # t) \<Rightarrow>
                bind_res (decode_retryState rs) (\<lambda>rs. bind_res cause (\<lambda>c. made (ActivityFailure (ch # t) aid rs ident) m c))
            | _ \<Rightarrow> Inl (TypeError ''Missing activityType?.name on activityFailureInfo''))
       | NexusHandlerInfo ty rb \<Rightarrow>
           bind_res (decodeEnum nexusHandlerErrorRetryBehavior_table (enum_num rb)) (\<lambda>b. bind_res cause (\<lambda>c.
             Inr (HandlerError (case fe_handlerErrorType env (or_empty ty) of Some t \<Rightarrow> t | None \<Rightarrow> ''UNKNOWN'')
               (case m of Some s \<Rightarrow> s | None \<Rightarrow> ''Nexus handler error'') (or_empty st) c (nexus_override b)
               (Some (temporalFailureToNexusFailure f)))))
       | NexusOperationInfo ev ep sv op tok \<Rightarrow>
           bind_res cause (\<lambda>c. made (NexusOperationFailure ev (or_empty ep) (or_empty sv) (or_empty op) tok) m c)
       | NoInfo \<Rightarrow> bind_res cause (\<lambda>c. made BaseFailure m c))"

section \<open>From an error to a failure\<close>

text \<open>A member that an enumeration's table inherits is no number: it is not sent.\<close>

definition enum_int :: "js_error + enum_value option \<Rightarrow> js_error + int option" where
  "enum_int r = bind_res r (\<lambda>v. Inr (case v of Some (EnumNum n) \<Rightarrow> Some n | _ \<Rightarrow> None))"

definition details_of ::
  "payload_converter \<Rightarrow> serialization_context option \<Rightarrow> jsval list option \<Rightarrow> js_error + payload list option" where
  "details_of conv ctx ds = (case ds of
     None \<Rightarrow> Inr None
   | Some [] \<Rightarrow> Inr None
   | Some (d # ds) \<Rightarrow> toPayloadsWithContext conv ctx (d # ds) None)"

fun kind_info ::
  "failure_env \<Rightarrow> payload_converter \<Rightarrow> serialization_context option \<Rightarrow> tf_kind \<Rightarrow> js_error + failure_info" where
  "kind_info env conv ctx (ActivityFailure ty aid rs ident) =
     bind_res (enum_int (encodeEnum retryState_table (enum_name rs))) (\<lambda>rs. Inr (ActivityInfo (Some ty) aid rs ident))"
| "kind_info env conv ctx (ChildWorkflowFailure ns ex ty rs) =
     bind_res (enum_int (encodeEnum retryState_table (enum_name rs))) (\<lambda>rs. Inr (ChildWorkflowInfo ns (Some ex) (Some ty) rs))"
| "kind_info env conv ctx (ApplicationFailure ty nr ds delay cat) =
     bind_res (details_of conv ctx ds) (\<lambda>ds. bind_res (msOptionalToTs (fe_ms env) delay) (\<lambda>delay.
       bind_res (enum_int (encodeEnum applicationFailureCategory_table (enum_name cat))) (\<lambda>cat.
         Inr (ApplicationInfo ty nr ds delay cat))))"
| "kind_info env conv ctx (CancelledFailure ds) =
     bind_res (details_of conv ctx (Some ds)) (\<lambda>ds. Inr (CanceledInfo ds))"
| "kind_info env conv ctx (TimeoutFailure d ty) =
     bind_res (enum_int (encodeEnum timeoutType_table (enum_name ty))) (\<lambda>ty.
       bind_res (if truthy d then toPayloadsWithContext conv ctx [d] None else Inr None) (\<lambda>hb. Inr (TimeoutInfo ty hb)))"
| "kind_info env conv ctx (ServerFailure nr) = Inr (ServerInfo nr)"
| "kind_info env conv ctx TerminatedFailure = Inr TerminatedInfo"
| "kind_info env conv ctx (NexusOperationFailure ev ep sv op tok) =
     Inr (NexusOperationInfo (if ev = Some 0 then None else ev) (Some ep) (Some sv) (Some op) tok)"
| "kind_info env conv ctx BaseFailure = Inr NoInfo"
| "kind_info env conv ctx (WorkflowExecutionAlreadyStarted _ _ _) = Inr NoInfo"
| "kind_info env conv ctx (InvalidVersioningOverride _ _) = Inr NoInfo"

definition nexusFailureToTemporalFailure :: "nexus_failure \<Rightarrow> bool \<Rightarrow> js_error + proto_failure" where
  "nexusFailureToTemporalFailure nf retryable = (case nf of
     NexusTemporalFailure m None \<Rightarrow> Inl (TypeError ''missing details for Nexus Failure of type temporal.api.failure.v1.Failure'')
   | NexusTemporalFailure m (Some f) \<Rightarrow> Inr f
   | NexusOtherFailure flds \<Rightarrow>
       bind_res (encode_text (the (stringify (JObj (js_set flds ''message'' (JStr []))))))(\<lambda>b.
         Inr (Failure (str_field flds ''message'' None) None (Some (or_empty (str_field flds ''stackTrace'' None))) None None
           (ApplicationInfo (Some ''NexusFailure'') (\<not> retryable)
             (Some [\<lparr>metadata = Some [(METADATA_ENCODING_KEY, encodingKey METADATA_ENCODING_JSON)], data = Some b\<rparr>]) None None))))"

definition recommendation :: string where
  "recommendation = '' [A non-Error value was thrown from your code. We recommend throwing Error objects so that we can provide a stack trace]''"

text \<open>The message for a thrown value: strings as they are, objects as JSON, the others by \<^verbatim>\<open>String\<close>.\<close>

fun thrown_text :: "jsval \<Rightarrow> string" where
  "thrown_text (JStr s) = s"
| "thrown_text Undefined = js_String Undefined"
| "thrown_text (JBool b) = js_String (JBool b)"
| "thrown_text (JNum n) = js_String (JNum n)"
| "thrown_text v = map char_of (the (stringify v))"

text \<open>\<^verbatim>\<open>isError\<close> of a value that is no instance of \<open>Error\<close>.\<close>

fun isError :: "jsval \<Rightarrow> bool" where
  "isError (JObj flds) =
     ((case map_of flds ''name'' of Some (JStr _) \<Rightarrow> True | _ \<Rightarrow> False) \<and>
      (case map_of flds ''message'' of Some (JStr _) \<Rightarrow> True | _ \<Rightarrow> False) \<and>
      (case map_of flds ''stack'' of None \<Rightarrow> True | Some Undefined \<Rightarrow> True | Some Null \<Rightarrow> True | Some (JStr _) \<Rightarrow> True | _ \<Rightarrow> False))"
| "isError _ = False"

fun field_of :: "jsval \<Rightarrow> string \<Rightarrow> jsval" where
  "field_of (JObj flds) k = (case map_of flds k of Some v \<Rightarrow> v | None \<Rightarrow> Undefined)"
| "field_of _ k = Undefined"

definition as_string :: "jsval \<Rightarrow> string" where
  "as_string v = (case v of JStr s \<Rightarrow> s | _ \<Rightarrow> [])"

text \<open>
  The last step of \<^verbatim>\<open>errorToFailure\<close>: with \<open>encodeCommonAttributes\<close> the message and the stack trace are moved into a
  payload. The first component is the failure object as the step leaves it, also when the payload
  converter throws.
\<close>

definition optional_string :: "string option \<Rightarrow> jsval" where
  "optional_string s = (case s of None \<Rightarrow> Undefined | Some s \<Rightarrow> JStr s)"

definition encode_common ::
  "bool \<Rightarrow> payload_converter \<Rightarrow> serialization_context option \<Rightarrow> proto_failure \<Rightarrow> proto_failure \<times> (js_error + proto_failure)" where
  "encode_common encodeCommonAttributes conv ctx f =
     (if \<not> encodeCommonAttributes then (f, Inr f)
      else case f of Failure m src st enc c fi \<Rightarrow>
        (case toPayload conv (JObj [(''message'', optional_string m), (''stack_trace'', optional_string st)]) ctx None of
           Inl e \<Rightarrow> (Failure (Some ''Encoded failure'') src (Some []) enc c fi, Inl e)
         | Inr p \<Rightarrow> let f' = Failure (Some ''Encoded failure'') src (Some []) (Some p) c fi in (f', Inr f')))"

text \<open>The failure object the error keeps is the one that was written to.\<close>

fun write_back :: "js_error \<Rightarrow> proto_failure \<Rightarrow> js_error" where
  "write_back (TemporalFailure k m st c (Some _)) f = TemporalFailure k m st c (Some f)"
| "write_back (HandlerError t m st c o' (Some (NexusTemporalFailure nm (Some _)))) f =
     HandlerError t m st c o' (Some (NexusTemporalFailure nm (Some f)))"
| "write_back e f = e"

definition finish_failure ::
  "bool \<Rightarrow> payload_converter \<Rightarrow> serialization_context option \<Rightarrow> js_error \<Rightarrow> js_error + proto_failure \<Rightarrow>
     js_error \<times> (js_error + proto_failure)" where
  "finish_failure enc conv ctx e r = (case r of
     Inl err \<Rightarrow> (e, Inl err)
   | Inr f \<Rightarrow> (case encode_common enc conv ctx f of (f', r') \<Rightarrow> (write_back e f', r')))"

definition retry_behavior :: "bool option \<Rightarrow> js_error + int option" where
  "retry_behavior ov = enum_int (encodeEnum nexusHandlerErrorRetryBehavior_table (enum_name
     (case ov of None \<Rightarrow> None | Some True \<Rightarrow> Some ''RETRYABLE'' | Some False \<Rightarrow> Some ''NON_RETRYABLE'')))"

definition base_failure :: "string \<Rightarrow> string \<Rightarrow> proto_failure option \<Rightarrow> failure_info \<Rightarrow> proto_failure" where
  "base_failure m st c fi = Failure (Some m) (Some FAILURE_SOURCE) (Some (cutoffStackTrace st)) None c fi"

lemma size_map_of: "map_of flds k = Some v \<Longrightarrow> size v < size (JObj flds)"
proof -
  assume "map_of flds k = Some v"
  then have "(k, v) \<in> set flds" by (rule map_of_SomeD)
  then show ?thesis by (induction flds) auto
qed

lemma size_field_of: "isError v \<Longrightarrow> size (field_of v k) < size v"
  by (cases v) (auto dest: size_map_of split: option.splits)

fun thrown_size :: "js_error \<Rightarrow> nat" where
  "thrown_size (ThrownValue v) = size v"
| "thrown_size _ = 0"

function errorToFailure_default ::
  "failure_env \<Rightarrow> bool \<Rightarrow> payload_converter \<Rightarrow> serialization_context option \<Rightarrow> js_error \<Rightarrow> js_error \<times> (js_error + proto_failure)"
  and causeToFailure ::
  "failure_env \<Rightarrow> bool \<Rightarrow> payload_converter \<Rightarrow> serialization_context option \<Rightarrow> js_error option \<Rightarrow>
     js_error option \<times> (js_error + proto_failure option)" where
  "errorToFailure_default env enc conv ctx (TemporalFailure k m st c fl) = (case fl of
     Some f \<Rightarrow> finish_failure enc conv ctx (TemporalFailure k m st c fl) (Inr f)
   | None \<Rightarrow> (case causeToFailure env enc conv ctx c of (c', rc) \<Rightarrow>
       finish_failure enc conv ctx (TemporalFailure k m st c' None)
         (bind_res rc (\<lambda>cf. bind_res (kind_info env conv ctx k) (\<lambda>fi. Inr (base_failure m st cf fi))))))"
| "errorToFailure_default env enc conv ctx (HandlerError t m st c ov orig) =
     (case causeToFailure env enc conv ctx c of (c', rc) \<Rightarrow>
       finish_failure enc conv ctx (HandlerError t m st c' ov orig)
         (bind_res rc (\<lambda>cf. case orig of
            Some nf \<Rightarrow> nexusFailureToTemporalFailure nf (fe_retryable env t ov)
          | None \<Rightarrow> bind_res (retry_behavior ov) (\<lambda>rb. Inr (base_failure m st cf (NexusHandlerInfo (Some t) rb))))))"
| "errorToFailure_default env enc conv ctx (OtherError cs m st c) =
     (case causeToFailure env enc conv ctx c of (c', rc) \<Rightarrow>
       finish_failure enc conv ctx (OtherError cs m st c') (bind_res rc (\<lambda>cf. Inr (base_failure m st cf NoInfo))))"
| "errorToFailure_default env enc conv ctx (DoBackoff b) =
     finish_failure enc conv ctx (DoBackoff b) (Inr (base_failure (err_message (DoBackoff b)) [] None NoInfo))"
| "errorToFailure_default env enc conv ctx (ContinueAsNew cmd mk) =
     finish_failure enc conv ctx (ContinueAsNew cmd mk) (Inr (base_failure (err_message (ContinueAsNew cmd mk)) [] None NoInfo))"
| "errorToFailure_default env enc conv ctx (ThrownValue v) =
     (if isError v
      then (case causeToFailure env enc conv ctx (Some (ThrownValue (field_of v ''cause''))) of (c', rc) \<Rightarrow>
              finish_failure enc conv ctx (ThrownValue v)
                (bind_res rc (\<lambda>cf. Inr (base_failure (as_string (field_of v ''message'')) (as_string (field_of v ''stack'')) cf NoInfo))))
      else finish_failure enc conv ctx (ThrownValue v)
             (Inr (Failure (Some (thrown_text v @ recommendation)) (Some FAILURE_SOURCE) None None None NoInfo)))"
| "causeToFailure env enc conv ctx None = (None, Inr None)"
| "causeToFailure env enc conv ctx (Some e) =
     (if err_truthy e
      then (case errorToFailure_default env enc conv ctx e of (e', r) \<Rightarrow> (Some e', bind_res r (\<lambda>f. Inr (Some f))))
      else (Some e, Inr None))"
  by pat_completeness auto
termination
  by (relation "measures
        [\<lambda>x. case x of Inl (env, enc, conv, ctx, e) \<Rightarrow> size e | Inr (env, enc, conv, ctx, c) \<Rightarrow> (case c of None \<Rightarrow> 0 | Some e \<Rightarrow> size e),
         \<lambda>x. case x of Inl (env, enc, conv, ctx, e) \<Rightarrow> 2 * thrown_size e
             | Inr (env, enc, conv, ctx, c) \<Rightarrow> (case c of None \<Rightarrow> 0 | Some e \<Rightarrow> 2 * thrown_size e + 1)]")
     (auto split: option.splits dest: size_field_of [where k = "''cause''"])

section \<open>A received failure is passed on unchanged\<close>

text \<open>The failure with its message and stack trace as they are after decoding.\<close>

definition restored :: "payload_converter \<Rightarrow> serialization_context option \<Rightarrow> proto_failure \<Rightarrow> proto_failure" where
  "restored conv ctx f = (case decode_common conv ctx (f_message f) (f_stackTrace f) (f_encodedAttributes f) of
     Inl e \<Rightarrow> f
   | Inr (m, st) \<Rightarrow> Failure m (f_source f) st (f_encodedAttributes f) (f_cause f) (f_info f))"

fun carried :: "js_error \<Rightarrow> proto_failure option" where
  "carried (TemporalFailure k m st c f) = f"
| "carried (HandlerError t m st c ov (Some (NexusTemporalFailure nm f))) = f"
| "carried _ = None"

lemma finish_plain: "finish_failure False conv ctx e (Inr f) = (write_back e f, Inr f)"
  by (simp add: finish_failure_def encode_common_def)

lemmas failure_defs = bind_res_Inr_iff Let_def restored_def

text \<open>The error for a failure has the failure with it, and so have the errors in its chain of causes.\<close>

fun carries :: "js_error \<Rightarrow> bool" where
  "carries (TemporalFailure k m st c f) = (f \<noteq> None)"
| "carries (HandlerError t m st c ov (Some (NexusTemporalFailure nm (Some f)))) = (case c of None \<Rightarrow> True | Some e \<Rightarrow> carries e)"
| "carries _ = False"

lemma carries_truthy: "carries e \<Longrightarrow> err_truthy e"
  by (cases e rule: carries.cases) auto

lemma carried_sent_on:
  "carries e \<Longrightarrow> errorToFailure_default env False conv ctx e = (e, Inr (the (carried e)))"
proof (induction e rule: carries.induct)
  case (1 k m st c f)
  then show ?case by (cases f) (auto simp: finish_plain)
next
  case (2 t m st c ov nm f)
  have "causeToFailure env False conv ctx c = (c, Inr (map_option (\<lambda>e. the (carried e)) c))"
    using 2 by (cases c) (auto simp: carries_truthy)
  then show ?case by (simp add: nexusFailureToTemporalFailure_def finish_plain)
qed auto

lemma failureToError_carries:
  "failureToError_default env conv ctx f = Inr e \<Longrightarrow> carries e \<and> carried e = Some (restored conv ctx f)"
proof (induction env conv ctx f arbitrary: e rule: failureToError_default.induct)
  case (1 env conv ctx msg src stk enc cse fi)
  obtain m st where d: "decode_common conv ctx msg stk enc = Inr (m, st)"
    using "1.prems" by (auto simp: bind_res_Inr_iff)
  have c: "carries x" if "cse = Some y" "failureToError_default env conv ctx y = Inr x" for x y
    using "1.IH" [OF refl that] by blast
  show ?case
    using "1.prems" d
    by (cases fi) (auto simp: failure_defs temporalFailureToNexusFailure_def split: option.splits list.splits intro: c)
qed

section \<open>What arrives of an error\<close>

text \<open>
  \<open>received e\<close> is the error the other side gets for \<open>e\<close>, apart from the failure objects it carries: the framework's part
  of the stack trace is cut off, the delay of the next retry is dropped, details of a timeout that
  JavaScript takes for false are dropped together with the cause of a timeout, a child workflow failure has
  the fixed message of its constructor, and errors of other classes arrive as a plain \<open>TemporalFailure\<close>.
\<close>

fun received_kind :: "tf_kind \<Rightarrow> tf_kind" where
  "received_kind (ApplicationFailure ty nr ds delay cat) =
     ApplicationFailure ty nr (Some (case ds of None \<Rightarrow> [] | Some d \<Rightarrow> d)) None cat"
| "received_kind (TimeoutFailure d ty) = TimeoutFailure (if truthy d then d else Undefined) ty"
| "received_kind (NexusOperationFailure ev ep sv op tok) = NexusOperationFailure (if ev = Some 0 then None else ev) ep sv op tok"
| "received_kind (WorkflowExecutionAlreadyStarted _ _ _) = BaseFailure"
| "received_kind (InvalidVersioningOverride _ _) = BaseFailure"
| "received_kind k = k"

fun received_message :: "tf_kind \<Rightarrow> string \<Rightarrow> string" where
  "received_message (ChildWorkflowFailure _ _ _ _) m = ''Child Workflow execution failed''"
| "received_message _ m = m"

fun received_cause :: "tf_kind \<Rightarrow> js_error option \<Rightarrow> js_error option" where
  "received_cause (TimeoutFailure _ _) c = None"
| "received_cause _ c = c"

fun received :: "js_error \<Rightarrow> js_error" where
  "received (TemporalFailure k m st c f) =
     TemporalFailure (received_kind k) (received_message k m) (cutoffStackTrace st) (received_cause k (map_option received c)) None"
| "received (HandlerError t m st c ov orig) = HandlerError t m (cutoffStackTrace st) (map_option received c) ov None"
| "received (OtherError cs m st c) = TemporalFailure BaseFailure m (cutoffStackTrace st) (map_option received c) None"
| "received e = TemporalFailure BaseFailure (err_message e) (cutoffStackTrace []) None None"

fun erase :: "js_error \<Rightarrow> js_error" where
  "erase (TemporalFailure k m st c f) = TemporalFailure k m st (map_option erase c) None"
| "erase (HandlerError t m st c ov orig) = HandlerError t m st (map_option erase c) ov None"
| "erase (OtherError cs m st c) = OtherError cs m st (map_option erase c)"
| "erase e = e"

text \<open>
  The errors this holds for: instances of \<open>Error\<close> with no failure object, with details the payload converter
  keeps, names of the enumerations, and a type where the wire form demands one.
\<close>

definition enum_ok :: "enum_table \<Rightarrow> string option \<Rightarrow> bool" where
  "enum_ok t s = (case s of None \<Rightarrow> True | Some k \<Rightarrow> (case map_of (mapTable t) k of None \<Rightarrow> False | Some n \<Rightarrow> n \<noteq> 0))"

fun portable_kind :: "failure_env \<Rightarrow> tf_kind \<Rightarrow> bool" where
  "portable_kind env (ActivityFailure ty aid rs ident) = (ty \<noteq> [] \<and> enum_ok retryState_table rs)"
| "portable_kind env (ChildWorkflowFailure ns ex ty rs) = (ty \<noteq> [] \<and> enum_ok retryState_table rs)"
| "portable_kind env (ApplicationFailure ty nr ds delay cat) =
     ((case ds of None \<Rightarrow> True | Some ds \<Rightarrow> list_all plain_value ds) \<and> \<not> isl (msOptionalToTs (fe_ms env) delay) \<and>
      enum_ok applicationFailureCategory_table cat)"
| "portable_kind env (CancelledFailure ds) = list_all plain_value ds"
| "portable_kind env (TimeoutFailure d ty) = (plain_value d \<and> enum_ok timeoutType_table ty)"
| "portable_kind env k = True"

fun portable :: "failure_env \<Rightarrow> js_error \<Rightarrow> bool" where
  "portable env (TemporalFailure k m st c f) = (f = None \<and> portable_kind env k \<and> (case c of None \<Rightarrow> True | Some e \<Rightarrow> portable env e))"
| "portable env (HandlerError t m st c ov orig) =
     (orig = None \<and> fe_handlerErrorType env t = Some t \<and> (case c of None \<Rightarrow> True | Some e \<Rightarrow> portable env e))"
| "portable env (OtherError cs m st c) = (case c of None \<Rightarrow> True | Some e \<Rightarrow> portable env e)"
| "portable env (ThrownValue v) = False"
| "portable env e = True"

lemma portable_truthy: "portable env e \<Longrightarrow> err_truthy e"
  by (cases e) simp_all

abbreviation delivered :: "(jsval \<Rightarrow> string) \<Rightarrow> failure_env \<Rightarrow> bool \<Rightarrow> serialization_context option \<Rightarrow> js_error \<Rightarrow> bool" where
  "delivered sv env enc ctx e \<equiv> \<exists>f e'. errorToFailure_default env enc (DefaultPayloadConverter sv) ctx e = (e, Inr f) \<and>
     failureToError_default env (DefaultPayloadConverter sv) ctx f = Inr e' \<and> erase e' = received e"

lemma common_roundtrip:
  "\<exists>m' st' a. encode_common enc (DefaultPayloadConverter sv) ctx (Failure (Some m) src (Some st) None c fi) =
      (Failure m' src st' a c fi, Inr (Failure m' src st' a c fi)) \<and>
     decode_common (DefaultPayloadConverter sv) ctx m' st' a = Inr (Some m, Some st)"
proof (cases enc)
  case True
  let ?v = "JObj [(''message'', JStr m), (''stack_trace'', JStr st)]"
  have v: "plain_value ?v"
    by (simp add: own_order_def array_index_def Let_def is_digit_def)
  obtain p where p: "toPayload (DefaultPayloadConverter sv) ?v ctx None = Inr p" using default_accepts [OF v] by blast
  then have "fromPayload (DefaultPayloadConverter sv) p ctx None = Inr ?v" by (rule default_conv.lossless [OF v])
  then show ?thesis using True p
    by (auto simp: encode_common_def decode_common_def optional_string_def str_field_def Let_def)
qed (simp add: encode_common_def decode_common_def)

lemma enum_roundtrip:
  assumes "enum_converters t" and "enum_ok t s"
  shows "\<exists>n. enum_int (encodeEnum t (enum_name s)) = Inr n \<and> decodeEnum t (enum_num n) = Inr s"
proof (cases s)
  case None
  then show ?thesis by (simp add: enum_int_def enum_name_def enum_num_def)
next
  case (Some k)
  then obtain n where n: "map_of (mapTable t) k = Some n" "n \<noteq> 0"
    using assms(2) by (auto simp: enum_ok_def split: option.splits)
  have "(k, n) \<in> set (mapTable t)" using n(1) by (rule map_of_SomeD)
  then have "encodeEnum t (EnumString k) = Inr (Some (EnumNum n))" "decodeEnum t (EnumNumber n) = Inr (Some k)"
    using enum_converters.encode_key [OF assms(1)] enum_converters.decode_key [OF assms(1)] n(2) by blast+
  then show ?thesis using Some by (simp add: enum_int_def enum_name_def enum_num_def del: encodeEnum.simps decodeEnum.simps)
qed

lemma details_roundtrip:
  assumes "case ds of None \<Rightarrow> True | Some d \<Rightarrow> list_all plain_value d"
  shows "\<exists>ps. details_of (DefaultPayloadConverter sv) ctx ds = Inr ps \<and>
    arrayFromPayloads (DefaultPayloadConverter sv) ps ctx None = Inr (case ds of None \<Rightarrow> [] | Some d \<Rightarrow> d)"
proof (cases ds)
  case (Some d)
  then show ?thesis using default_values_roundtrip [of d sv ctx] assms
    by (cases d) (auto simp: details_of_def arrayFromPayloads_def)
qed (simp add: details_of_def arrayFromPayloads_def)

definition cause_read :: "(jsval \<Rightarrow> string) \<Rightarrow> failure_env \<Rightarrow> serialization_context option \<Rightarrow> proto_failure option \<Rightarrow> js_error option \<Rightarrow> bool" where
  "cause_read sv env ctx cse c = ((case cse of None \<Rightarrow> Inr None
     | Some f \<Rightarrow> bind_res (failureToError_default env (DefaultPayloadConverter sv) ctx f) (\<lambda>e. Inr (Some e))) = Inr c)"

text \<open>A failure whose message and stack trace decode to \<open>m\<close> and \<open>st\<close>, with the cause read.\<close>

lemma failureToError_step:
  assumes "decode_common (DefaultPayloadConverter sv) ctx m' st' a = Inr (Some m, Some st)" and "cause_read sv env ctx cse c"
    and "portable_kind env k"
  shows "\<exists>fi. kind_info env (DefaultPayloadConverter sv) ctx k = Inr fi"
    and "kind_info env (DefaultPayloadConverter sv) ctx k = Inr fi \<Longrightarrow>
      \<exists>F. failureToError_default env (DefaultPayloadConverter sv) ctx (Failure m' src st' a cse fi) =
        Inr (TemporalFailure (received_kind k) (received_message k m) st (received_cause k c) (Some F))"
proof -
  note retry = enum_roundtrip [OF retryState.enum_converters_axioms]
  note cat = enum_roundtrip [OF applicationFailureCategory.enum_converters_axioms]
  note tt = enum_roundtrip [OF timeoutType.enum_converters_axioms]
  note facts = assms(1) assms(2) [unfolded cause_read_def]
  note simps = Let_def or_empty_def bind_res_Inr_iff
  have "(\<exists>fi. kind_info env (DefaultPayloadConverter sv) ctx k = Inr fi) \<and>
    (\<forall>fi. kind_info env (DefaultPayloadConverter sv) ctx k = Inr fi \<longrightarrow>
      (\<exists>F. failureToError_default env (DefaultPayloadConverter sv) ctx (Failure m' src st' a cse fi) =
        Inr (TemporalFailure (received_kind k) (received_message k m) st (received_cause k c) (Some F))))"
  proof (cases k)
    case (ApplicationFailure ty nr ds delay ct)
    obtain ps where ps: "details_of (DefaultPayloadConverter sv) ctx ds = Inr ps"
      "arrayFromPayloads (DefaultPayloadConverter sv) ps ctx None = Inr (case ds of None \<Rightarrow> [] | Some d \<Rightarrow> d)"
      using details_roundtrip [of ds sv ctx] assms(3) ApplicationFailure by auto
    obtain n where "enum_int (encodeEnum applicationFailureCategory_table (enum_name ct)) = Inr n"
      "decodeEnum applicationFailureCategory_table (enum_num n) = Inr ct"
      using cat [of ct] assms(3) ApplicationFailure by auto
    moreover obtain d where "msOptionalToTs (fe_ms env) delay = Inr d"
      using assms(3) ApplicationFailure by (cases "msOptionalToTs (fe_ms env) delay") auto
    ultimately show ?thesis using ps facts ApplicationFailure by (simp add: simps)
  next
    case (CancelledFailure ds)
    then show ?thesis using details_roundtrip [of "Some ds" sv ctx] assms(3) facts by (auto simp: simps)
  next
    case (TimeoutFailure d ty)
    obtain n where n: "enum_int (encodeEnum timeoutType_table (enum_name ty)) = Inr n"
      "decodeEnum timeoutType_table (enum_num n) = Inr ty"
      using tt [of ty] assms(3) TimeoutFailure by auto
    obtain ps where ps: "toPayloadsWithContext (DefaultPayloadConverter sv) ctx [d] None = Inr ps"
      "arrayFromPayloads (DefaultPayloadConverter sv) ps ctx None = Inr [d]"
      using default_values_roundtrip [of "[d]" sv ctx] assms(3) TimeoutFailure by auto
    obtain qs where qs: "ps = Some qs" using ps(2) by (cases ps) (auto simp: arrayFromPayloads_def)
    then have "length qs = 1"
      using ps(2) by (auto simp: arrayFromPayloads_def dest: map_res_Inr_length)
    then obtain q where "qs = [q]" by (cases qs) auto
    then have at0: "fromPayloadsAtIndex (DefaultPayloadConverter sv) 0 ps ctx None = Inr d"
      using ps(2) qs by (auto simp: arrayFromPayloads_def fromPayloadsAtIndex_def type_at_def bind_res_Inr_iff)
    show ?thesis using n ps(1) at0 facts TimeoutFailure
      by (cases "truthy d") (simp_all add: simps fromPayloadsAtIndex_def)
  next
    case (ActivityFailure ty aid rs ident)
    then obtain h t where "ty = h # t" using assms(3) by (cases ty) auto
    then show ?thesis using retry [of rs] assms(3) facts ActivityFailure by (auto simp: simps)
  next
    case (ChildWorkflowFailure ns ex ty rs)
    then obtain h t where "ty = h # t" using assms(3) by (cases ty) auto
    then show ?thesis using retry [of rs] assms(3) facts ChildWorkflowFailure by (auto simp: simps)
  qed (use facts in \<open>auto simp: simps\<close>)
  then show "\<exists>fi. kind_info env (DefaultPayloadConverter sv) ctx k = Inr fi"
    "kind_info env (DefaultPayloadConverter sv) ctx k = Inr fi \<Longrightarrow>
      \<exists>F. failureToError_default env (DefaultPayloadConverter sv) ctx (Failure m' src st' a cse fi) =
        Inr (TemporalFailure (received_kind k) (received_message k m) st (received_cause k c) (Some F))"
    by blast+
qed

lemma retry_behavior_roundtrip:
  "\<exists>rb. retry_behavior ov = Inr rb \<and>
     (\<exists>b. decodeEnum nexusHandlerErrorRetryBehavior_table (enum_num rb) = Inr b \<and> nexus_override b = ov)"
proof -
  define s where "s = (case ov of None \<Rightarrow> None | Some True \<Rightarrow> Some ''RETRYABLE'' | Some False \<Rightarrow> Some ''NON_RETRYABLE'')"
  have "enum_ok nexusHandlerErrorRetryBehavior_table s"
    by (cases ov) (auto simp: s_def enum_ok_def nexusHandlerErrorRetryBehavior_table_def split: bool.splits)
  from enum_roundtrip [OF nexusHandlerErrorRetryBehavior.enum_converters_axioms this]
  have "\<exists>rb. retry_behavior ov = Inr rb \<and> decodeEnum nexusHandlerErrorRetryBehavior_table (enum_num rb) = Inr s"
    by (simp add: retry_behavior_def s_def)
  moreover have "nexus_override s = ov"
    by (cases ov) (auto simp: s_def nexus_override_def split: bool.splits)
  ultimately show ?thesis by blast
qed

lemma finish_roundtrip:
  "\<exists>m' st' a. finish_failure enc (DefaultPayloadConverter sv) ctx e (Inr (base_failure m st c fi)) =
      (write_back e (Failure m' (Some FAILURE_SOURCE) st' a c fi), Inr (Failure m' (Some FAILURE_SOURCE) st' a c fi)) \<and>
     decode_common (DefaultPayloadConverter sv) ctx m' st' a = Inr (Some m, Some (cutoffStackTrace st))"
  using common_roundtrip [of enc sv ctx m "Some FAILURE_SOURCE" "cutoffStackTrace st" c fi]
  by (auto simp: finish_failure_def base_failure_def)

lemma erase_cause: "map_option erase (received_cause k c) = received_cause k (map_option erase c)"
  by (cases "(k, c)" rule: received_cause.cases) auto

lemma delivered_cause:
  assumes "\<And>e. c = Some e \<Longrightarrow> delivered sv env enc ctx e" and "case c of None \<Rightarrow> True | Some e \<Rightarrow> portable env e"
  obtains cse c' where "causeToFailure env enc (DefaultPayloadConverter sv) ctx c = (c, Inr cse)"
    and "cause_read sv env ctx cse c'" and "map_option erase c' = map_option received c"
proof (cases c)
  case None
  then show ?thesis using that [of None None] by (simp add: cause_read_def)
next
  case (Some e)
  then obtain f e' where "errorToFailure_default env enc (DefaultPayloadConverter sv) ctx e = (e, Inr f)"
    "failureToError_default env (DefaultPayloadConverter sv) ctx f = Inr e'" "erase e' = received e"
    using assms(1) by blast
  then show ?thesis using Some assms(2) that [of "Some f" "Some e'"] portable_truthy
    by (simp add: cause_read_def)
qed

lemma delivered_plain:
  assumes "causeToFailure env enc (DefaultPayloadConverter sv) ctx c = (c, Inr cse)" and "cause_read sv env ctx cse c'"
    and "map_option erase c' = map_option received c" and "\<And>f. write_back e f = e"
  shows "\<exists>f e'. finish_failure enc (DefaultPayloadConverter sv) ctx e (Inr (base_failure m st cse NoInfo)) = (e, Inr f) \<and>
     failureToError_default env (DefaultPayloadConverter sv) ctx f = Inr e' \<and>
     erase e' = TemporalFailure BaseFailure m (cutoffStackTrace st) (map_option received c) None"
proof -
  obtain m' st' a where fin: "finish_failure enc (DefaultPayloadConverter sv) ctx e (Inr (base_failure m st cse NoInfo)) =
      (e, Inr (Failure m' (Some FAILURE_SOURCE) st' a cse NoInfo))"
    and dec: "decode_common (DefaultPayloadConverter sv) ctx m' st' a = Inr (Some m, Some (cutoffStackTrace st))"
    using finish_roundtrip [of enc sv ctx e m st cse NoInfo] assms(4) by auto
  show ?thesis
    using fin failureToError_step(2) [OF dec assms(2), of BaseFailure NoInfo "Some FAILURE_SOURCE"] assms(3)
    by (fastforce simp del: failureToError_default.simps)
qed

lemma portable_delivered: "portable env e \<Longrightarrow> delivered sv env enc ctx e"
proof (induction e)
  case (TemporalFailure k m st c f)
  then have p: "f = None" "portable_kind env k" by auto
  obtain cse c' where c: "causeToFailure env enc (DefaultPayloadConverter sv) ctx c = (c, Inr cse)"
    "cause_read sv env ctx cse c'" "map_option erase c' = map_option received c"
    using delivered_cause [where c = c and sv = sv and env = env and enc = enc and ctx = ctx] TemporalFailure by (auto split: option.splits)
  obtain fi where fi: "kind_info env (DefaultPayloadConverter sv) ctx k = Inr fi"
    using failureToError_step(1) [OF _ c(2) p(2), of "Some []" "Some []" None] by (auto simp: decode_common_def)
  obtain m' st' a where fin: "finish_failure enc (DefaultPayloadConverter sv) ctx (TemporalFailure k m st c None)
        (Inr (base_failure m st cse fi)) =
      (TemporalFailure k m st c None, Inr (Failure m' (Some FAILURE_SOURCE) st' a cse fi))"
    and dec: "decode_common (DefaultPayloadConverter sv) ctx m' st' a = Inr (Some m, Some (cutoffStackTrace st))"
    using finish_roundtrip [of enc sv ctx "TemporalFailure k m st c None" m st cse fi] by auto
  from failureToError_step(2) [OF dec c(2) p(2) fi, of "Some FAILURE_SOURCE"]
  show ?case using fin c fi p by (auto simp: erase_cause simp del: failureToError_default.simps)
next
  case (OtherError cs m st c)
  obtain cse c' where c: "causeToFailure env enc (DefaultPayloadConverter sv) ctx c = (c, Inr cse)"
    "cause_read sv env ctx cse c'" "map_option erase c' = map_option received c"
    using delivered_cause [where c = c and sv = sv and env = env and enc = enc and ctx = ctx] OtherError by (auto split: option.splits)
  from delivered_plain [OF this, of "OtherError cs m st c" m st] show ?case
    by (simp add: c(1) del: failureToError_default.simps)
next
  case (DoBackoff b)
  have "causeToFailure env enc (DefaultPayloadConverter sv) ctx None = (None, Inr None)" "cause_read sv env ctx None None" by (simp_all add: cause_read_def)
  from delivered_plain [OF this, of "DoBackoff b" "[]" "[]"] show ?case
    by (simp del: failureToError_default.simps)
next
  case (ContinueAsNew cmd mk)
  have "causeToFailure env enc (DefaultPayloadConverter sv) ctx None = (None, Inr None)" "cause_read sv env ctx None None" by (simp_all add: cause_read_def)
  from delivered_plain [OF this, of "ContinueAsNew cmd mk" "err_message (ContinueAsNew cmd mk)" "[]"] show ?case
    by (simp del: failureToError_default.simps)
next
  case (HandlerError t m st c ov orig)
  then have p: "orig = None" "fe_handlerErrorType env t = Some t" by auto
  obtain cse c' where c: "causeToFailure env enc (DefaultPayloadConverter sv) ctx c = (c, Inr cse)"
    "cause_read sv env ctx cse c'" "map_option erase c' = map_option received c"
    using delivered_cause [where c = c and sv = sv and env = env and enc = enc and ctx = ctx] HandlerError by (auto split: option.splits)
  obtain rb where rb: "retry_behavior ov = Inr rb"
    "\<exists>b. decodeEnum nexusHandlerErrorRetryBehavior_table (enum_num rb) = Inr b \<and> nexus_override b = ov"
    using retry_behavior_roundtrip by blast
  obtain m' st' a where fin: "finish_failure enc (DefaultPayloadConverter sv) ctx (HandlerError t m st c ov None)
        (Inr (base_failure m st cse (NexusHandlerInfo (Some t) rb))) =
      (HandlerError t m st c ov None, Inr (Failure m' (Some FAILURE_SOURCE) st' a cse (NexusHandlerInfo (Some t) rb)))"
    and dec: "decode_common (DefaultPayloadConverter sv) ctx m' st' a = Inr (Some m, Some (cutoffStackTrace st))"
    using finish_roundtrip [of enc sv ctx "HandlerError t m st c ov None" m st cse "NexusHandlerInfo (Some t) rb"] by auto
  show ?case using fin dec c rb p
    by (auto simp: cause_read_def or_empty_def Let_def)
qed simp

section \<open>Properties\<close>

text \<open>
  (Round trip.) An error that was made from a failure is turned back into that failure, with message and
  stack trace as they are after decoding, by any failure converter that does not encode them, and stays
  as it was: an error that is only passed on loses nothing, its chain of causes included.
\<close>

theorem received_failure_passed_on:
  assumes "failureToError_default env conv ctx f = Inr e"
  shows "errorToFailure_default env' False conv' ctx' e = (e, Inr (restored conv ctx f))"
  using failureToError_carries [OF assms] carried_sent_on [of e env' conv' ctx'] by simp

definition example_env :: failure_env where
  "example_env = \<lparr>fe_ms = (\<lambda>s. None), fe_handlerErrorType = (\<lambda>t. if t = ''INTERNAL'' then Some t else None),
     fe_retryable = (\<lambda>t ov. True)\<rparr>"

abbreviation example_failure :: proto_failure where
  "example_failure \<equiv> Failure (Some ''charge failed'') (Some ''GoSDK'') (Some ''stack'') None
     (Some (Failure (Some ''handler'') None None None None (NexusHandlerInfo (Some ''INTERNAL'') (Some 1))))
     (ActivityInfo (Some ''charge'') (Some ''7'') (Some 5) (Some ''worker''))"

theorem received_failure_passed_on_witness:
  "\<exists>e. failureToError_default example_env (DefaultPayloadConverter (\<lambda>v. [])) None example_failure = Inr e \<and>
     errorToFailure_default example_env False (DefaultPayloadConverter (\<lambda>v. [])) None e = (e, Inr example_failure)"
proof -
  have "\<exists>e. failureToError_default example_env (DefaultPayloadConverter (\<lambda>v. [])) None example_failure = Inr e"
    by (simp add: decode_common_def Let_def example_env_def or_empty_def enum_num_def retryState_table_def
        nexusHandlerErrorRetryBehavior_table_def hasUnspecified_def reverseTable_def)
  moreover have "restored (DefaultPayloadConverter (\<lambda>v. [])) None example_failure = example_failure"
    by (simp add: restored_def decode_common_def)
  ultimately show ?thesis by (metis received_failure_passed_on)
qed

text \<open>
  C22: (Round trip.) An error, with its whole chain of causes, survives the way through the default converters: it is turned
  into a failure without an error, stays as it was, and the failure is read back as the error \<open>received\<close>
  describes. This holds with and without the encoding of message and stack trace.
\<close>

theorem error_delivered:
  assumes "portable env e"
  shows "\<exists>f e'. errorToFailure_default env enc (DefaultPayloadConverter sv) ctx e = (e, Inr f) \<and>
     failureToError_default env (DefaultPayloadConverter sv) ctx f = Inr e' \<and> erase e' = received e"
  using portable_delivered [OF assms] .

abbreviation example_error :: js_error where
  "example_error \<equiv> TemporalFailure (ActivityFailure ''charge'' (Some ''7'') (Some ''TIMEOUT'') None) ''activity failed'' []
     (Some (TemporalFailure (ApplicationFailure (Some ''Card'') True (Some [JNum 3, JStr ''x'']) None (Some ''BENIGN'')) ''declined'' []
        (Some (OtherError [Error_class] ''socket'' [] None)) None)) None"

theorem error_delivered_witness:
  "portable example_env example_error \<and>
   (\<exists>f e'. errorToFailure_default example_env True (DefaultPayloadConverter (\<lambda>v. [])) None example_error = (example_error, Inr f) \<and>
     failureToError_default example_env (DefaultPayloadConverter (\<lambda>v. [])) None f = Inr e' \<and> erase e' = received example_error)"
proof -
  have p: "portable example_env example_error"
    by (simp add: enum_ok_def retryState_table_def applicationFailureCategory_table_def msOptionalToTs_def)
  show ?thesis using error_delivered [OF p, of True "\<lambda>v. []" None] p by blast
qed

text \<open>
  (Error.) With the encoding of common attributes, a received error that is converted twice loses its
  message: the first conversion writes the placeholder into the failure object the error carries, the
  second one encodes the placeholder, and the receiver gets it as the message, with an empty stack trace.
\<close>

theorem second_conversion_loses_message:
  fixes k m st c f sv
  defines "e \<equiv> TemporalFailure k m st c (Some f)" and "conv \<equiv> DefaultPayloadConverter sv"
  assumes "f_message f = Some msg" and "f_stackTrace f = Some stk"
  shows "\<exists>e1 f1 e2 f2. errorToFailure_default env True conv ctx e = (e1, Inr f1) \<and>
     decode_common conv ctx (f_message f1) (f_stackTrace f1) (f_encodedAttributes f1) = Inr (Some msg, Some stk) \<and>
     errorToFailure_default env True conv ctx e1 = (e2, Inr f2) \<and>
     decode_common conv ctx (f_message f2) (f_stackTrace f2) (f_encodedAttributes f2) = Inr (Some ''Encoded failure'', Some [])"
proof -
  obtain src enc cs fi where f: "f = Failure (Some msg) src (Some stk) enc cs fi" using assms(3,4) by (cases f) auto
  have v: "plain_value (JObj [(''message'', JStr x), (''stack_trace'', JStr y)])" for x y
    by (simp add: own_order_def array_index_def Let_def is_digit_def)
  obtain p where p: "toPayload conv (JObj [(''message'', JStr msg), (''stack_trace'', JStr stk)]) ctx None = Inr p"
    using default_accepts [OF v] unfolding conv_def by blast
  obtain q where q: "toPayload conv (JObj [(''message'', JStr ''Encoded failure''), (''stack_trace'', JStr [])]) ctx None = Inr q"
    using default_accepts [OF v] unfolding conv_def by blast
  have "fromPayload conv p ctx None = Inr (JObj [(''message'', JStr msg), (''stack_trace'', JStr stk)])"
    "fromPayload conv q ctx None = Inr (JObj [(''message'', JStr ''Encoded failure''), (''stack_trace'', JStr [])])"
    using default_conv.lossless [OF v] p q unfolding conv_def by blast+
  then show ?thesis using p q
    by (simp add: e_def f finish_failure_def encode_common_def optional_string_def decode_common_def str_field_def Let_def)
qed

theorem second_conversion_loses_message_witness:
  "\<exists>e1 f1 e2 f2. errorToFailure_default example_env True (DefaultPayloadConverter (\<lambda>v. [])) None
       (TemporalFailure BaseFailure ''boom'' [] None (Some (Failure (Some ''boom'') None (Some ''at f'') None None NoInfo))) = (e1, Inr f1) \<and>
     decode_common (DefaultPayloadConverter (\<lambda>v. [])) None (f_message f1) (f_stackTrace f1) (f_encodedAttributes f1) =
       Inr (Some ''boom'', Some ''at f'') \<and>
     errorToFailure_default example_env True (DefaultPayloadConverter (\<lambda>v. [])) None e1 = (e2, Inr f2) \<and>
     decode_common (DefaultPayloadConverter (\<lambda>v. [])) None (f_message f2) (f_stackTrace f2) (f_encodedAttributes f2) =
       Inr (Some ''Encoded failure'', Some [])"
  by (rule second_conversion_loses_message) simp_all

text \<open>
  (Error.) The pattern for frames of \<^verbatim>\<open>runInContext\<close> has its alternatives at the top level, so every line with the
  word \<open>unknown\<close> ends the stack trace: where the first line, which has the message of the error, contains it,
  nothing is left of the stack trace.
\<close>

theorem unknown_cuts_stack:
  assumes "split_lines stack = l # ls" and "l = a @ ''unknown'' @ b"
  shows "cutoffStackTrace stack = []"
proof -
  have "matches CUTOFF_STACK_PATTERNS ''unknown''"
    unfolding CUTOFF_STACK_PATTERNS_def by (auto simp: matches_alts matches_lit)
  then have "rx_test CUTOFF_STACK_PATTERNS l" unfolding rx_test_correct using assms(2) by blast
  then show ?thesis using assms(1) by (simp add: cutoffStackTrace_def)
qed

theorem unknown_cuts_stack_witness:
  "cutoffStackTrace (''Error: unknown host'' @ CHR 0x0a # ''    at connect (net.js:1:1)'') = []"
proof -
  have "split_lines (''Error: unknown host'' @ CHR 0x0a # ''    at connect (net.js:1:1)'') =
      [''Error: unknown host'', ''    at connect (net.js:1:1)'']" by simp
  from unknown_cuts_stack [OF this, of "''Error: ''" "'' host''"] show ?thesis by simp
qed

end
