(* ===== verification/EventGroups.thy ===== *)
theory EventGroups
  imports PayloadConverter
begin

text \<open>
  \<^verbatim>\<open>packages/workflow/src/event-groups.ts\<close>: the markers that attribute commands to the signal, update
  or user-defined group they come from. The active scopes live in an \<open>AsyncLocalStorage\<close>; its current
  value is an argument of the functions that read it. Object properties are listed in the order of
  their creation, which is JavaScript's order for group ids that are no array indices.
\<close>

datatype event_group =
    InboundEventGroup int
  | InboundUpdateGroup string
  | StubImplicitGroup
  | ExplicitGroup string "string option"

record marker_scopes =
  implicitScope :: "event_group option"
  explicitScopes :: "(string, event_group) js_map"

fun is_explicit :: "event_group \<Rightarrow> bool" where
  "is_explicit (ExplicitGroup _ _) = True"
| "is_explicit _ = False"

fun applyOverActiveMarkerScopes :: "event_group \<Rightarrow> marker_scopes \<Rightarrow> marker_scopes" where
  "applyOverActiveMarkerScopes (ExplicitGroup i l) active =
     \<lparr>implicitScope = implicitScope active,
      explicitScopes = js_set (explicitScopes active) i (ExplicitGroup i l)\<rparr>"
| "applyOverActiveMarkerScopes StubImplicitGroup active = \<lparr>implicitScope = None, explicitScopes = []\<rparr>"
| "applyOverActiveMarkerScopes g active = \<lparr>implicitScope = Some g, explicitScopes = []\<rparr>"

text \<open>\<open>withScope\<close>: the scopes that are active while the given function runs.\<close>

definition withScope :: "event_group \<Rightarrow> marker_scopes option \<Rightarrow> marker_scopes" where
  "withScope g store = applyOverActiveMarkerScopes g
     (case store of None \<Rightarrow> \<lparr>implicitScope = None, explicitScopes = []\<rparr> | Some a \<Rightarrow> a)"

definition createEventGroup :: "string \<Rightarrow> string option \<Rightarrow> js_error + event_group" where
  "createEventGroup i label =
     (if i = [] then Inl (TypeError ''Event group id cannot be empty'')
      else if label = Some [] then Inl (TypeError ''Event group label cannot be empty'')
      else Inr (ExplicitGroup i label))"

definition createInboundEventMarker :: "int option \<Rightarrow> event_group" where
  "createInboundEventMarker eventId = (case eventId of
     None \<Rightarrow> StubImplicitGroup
   | Some e \<Rightarrow> if e \<le> 0 then StubImplicitGroup else InboundEventGroup e)"

definition createInboundUpdateMarker :: "string \<Rightarrow> event_group" where
  "createInboundUpdateMarker updateId = InboundUpdateGroup updateId"

fun merge_direct :: "(string, event_group) js_map \<Rightarrow> event_group \<Rightarrow> (string, event_group) js_map" where
  "merge_direct m (ExplicitGroup i l) = js_set m i (ExplicitGroup i l)"
| "merge_direct m _ = m"

definition mergeScopeAndDirectEventGroupMarkers ::
  "event_group list option \<Rightarrow> marker_scopes option \<Rightarrow> js_error + event_group list" where
  "mergeScopeAndDirectEventGroupMarkers directs store =
     (if (case directs of None \<Rightarrow> False | Some gs \<Rightarrow> \<exists>g \<in> set gs. \<not> is_explicit g)
      then Inl (TypeError ''Directly attached Event Groups must be created with createEventGroup()'')
      else let merged = foldl merge_direct
                 (case store of None \<Rightarrow> [] | Some a \<Rightarrow> explicitScopes a)
                 (case directs of None \<Rightarrow> [] | Some gs \<Rightarrow> gs)
           in Inr ((case store of None \<Rightarrow> []
                    | Some a \<Rightarrow> (case implicitScope a of None \<Rightarrow> [] | Some g \<Rightarrow> [g])) @ map snd merged))"

text \<open>\<open>toProto\<close>; the label is serialized with the SDK's default payload converter, \<open>dpc\<close>.\<close>

fun toProto :: "payload_converter \<Rightarrow> event_group \<Rightarrow> js_error + event_marker" where
  "toProto dpc (InboundEventGroup e) = Inr (InboundEvent e)"
| "toProto dpc (InboundUpdateGroup u) = Inr (InboundUpdate u)"
| "toProto dpc StubImplicitGroup = Inr (LabelMarker [] None)"
| "toProto dpc (ExplicitGroup i l) =
     bind_res (convertOptionalToPayload dpc l None) (\<lambda>p. Inr (LabelMarker i p))"

definition eventGroupMarkersToProto ::
  "payload_converter \<Rightarrow> event_group list option \<Rightarrow> marker_scopes option \<Rightarrow> js_error + event_marker list option" where
  "eventGroupMarkersToProto dpc explicit store =
     bind_res (mergeScopeAndDirectEventGroupMarkers explicit store) (\<lambda>markers.
       if markers = [] then Inr None
       else bind_res (map_res (toProto dpc) markers) (\<lambda>ms. Inr (Some ms)))"

section \<open>Facts\<close>

text \<open>The scopes a program can build: explicit scopes hold explicit groups under their own id.\<close>

definition scopes_ok :: "marker_scopes \<Rightarrow> bool" where
  "scopes_ok a \<longleftrightarrow> distinct (map fst (explicitScopes a)) \<and>
     (\<forall>(i, g) \<in> set (explicitScopes a). \<exists>l. g = ExplicitGroup i l) \<and>
     (\<forall>g. implicitScope a = Some g \<longrightarrow> g \<noteq> StubImplicitGroup \<and> \<not> is_explicit g)"

lemma js_set_entries: "(i, g) \<in> set (js_set m k v) \<Longrightarrow> (i, g) = (k, v) \<or> (i, g) \<in> set m"
  by (induction m k v rule: js_set.induct) (auto split: if_splits)

lemma apply_scopes_ok: "scopes_ok a \<Longrightarrow> scopes_ok (applyOverActiveMarkerScopes g a)"
proof (cases g)
  case (ExplicitGroup i l)
  moreover assume "scopes_ok a"
  ultimately show ?thesis
    by (auto simp: scopes_ok_def js_set_distinct dest!: js_set_entries)
qed (auto simp: scopes_ok_def)

lemma withScope_ok: "(\<And>a. store = Some a \<Longrightarrow> scopes_ok a) \<Longrightarrow> scopes_ok (withScope g store)"
  unfolding withScope_def by (rule apply_scopes_ok) (auto simp: scopes_ok_def split: option.splits)

text \<open>An implicit scope (a signal or an update) hides every explicit scope around it.\<close>

lemma implicit_scope_resets: "\<not> is_explicit g \<Longrightarrow> explicitScopes (withScope g store) = []"
  by (cases g) (simp_all add: withScope_def)

definition all_explicit :: "(string, event_group) js_map \<Rightarrow> bool" where
  "all_explicit m \<longleftrightarrow> (\<forall>e \<in> set m. is_explicit (snd e))"

lemma all_explicit_set: "all_explicit m \<Longrightarrow> all_explicit (js_set m i (ExplicitGroup i l))"
  unfolding all_explicit_def by (auto dest!: js_set_entries)

lemma all_explicit_merge: "all_explicit m \<Longrightarrow> all_explicit (foldl merge_direct m ds)"
proof (induction ds arbitrary: m)
  case (Cons d ds)
  then show ?case by (cases d) (simp_all add: all_explicit_set)
qed simp

lemma all_explicit_no_stub: "all_explicit m \<Longrightarrow> StubImplicitGroup \<notin> snd ` set m"
  by (auto simp: all_explicit_def)

text \<open>A stub marker is never serialized: it removes the implicit scope.\<close>

lemma merge_no_stub:
  assumes "store = None \<or> (\<exists>a. store = Some a \<and> scopes_ok a)"
    and "mergeScopeAndDirectEventGroupMarkers directs store = Inr gs"
  shows "StubImplicitGroup \<notin> set gs"
proof -
  define m where "m = foldl merge_direct (case store of None \<Rightarrow> [] | Some a \<Rightarrow> explicitScopes a)
     (case directs of None \<Rightarrow> [] | Some gs \<Rightarrow> gs)"
  have "all_explicit (case store of None \<Rightarrow> [] | Some a \<Rightarrow> explicitScopes a)"
    using assms(1) by (fastforce simp: all_explicit_def scopes_ok_def split: option.splits)
  then have "StubImplicitGroup \<notin> snd ` set m"
    unfolding m_def by (intro all_explicit_no_stub all_explicit_merge)
  moreover have "gs = (case store of None \<Rightarrow> []
       | Some a \<Rightarrow> (case implicitScope a of None \<Rightarrow> [] | Some g \<Rightarrow> [g])) @ map snd m"
    using assms(2) by (auto simp: mergeScopeAndDirectEventGroupMarkers_def m_def split: if_splits)
  ultimately show ?thesis
    using assms(1) by (auto simp: scopes_ok_def split: option.splits)
qed

end
