(* ===== verification/ActivatorState.thy ===== *)
theory ActivatorState
  imports Time RetryPolicy Enums SdkFlags EventGroups
begin

text \<open>
  The state of one workflow execution inside the isolate: the fields of the class \<open>Activator\<close> of
  \<^verbatim>\<open>packages/workflow/src/internals.ts\<close>, the cancellation scopes of the execution and the promises
  and microtasks of its context, with the commands it emits and the operations on the state that
  call no user code.
\<close>

section \<open>Commands\<close>

record schedule_activity =
  sa_seq :: nat
  sa_activityId :: string
  sa_activityType :: string
  sa_arguments :: "payload list option"
  sa_retryPolicy :: "proto_retry_policy option"
  sa_taskQueue :: string
  sa_heartbeatTimeout :: "timestamp option"
  sa_scheduleToCloseTimeout :: "timestamp option"
  sa_startToCloseTimeout :: "timestamp option"
  sa_scheduleToStartTimeout :: "timestamp option"
  sa_headers :: "(string \<times> payload) list"
  sa_cancellationType :: "enum_value option"
  sa_doNotEagerlyExecute :: bool
  sa_versioningIntent :: int
  sa_priority :: "priority option"

record schedule_local_activity =
  sl_seq :: nat
  sl_attempt :: nat
  sl_originalScheduleTime :: "timestamp option"
  sl_activityId :: string
  sl_activityType :: string
  sl_arguments :: "payload list option"
  sl_retryPolicy :: "proto_retry_policy option"
  sl_scheduleToCloseTimeout :: "timestamp option"
  sl_startToCloseTimeout :: "timestamp option"
  sl_scheduleToStartTimeout :: "timestamp option"
  sl_localRetryThreshold :: "timestamp option"
  sl_includeArgumentsInMarker :: "bool option"
  sl_headers :: "(string \<times> payload) list"
  sl_cancellationType :: "enum_value option"

record start_child =
  cw_seq :: nat
  cw_workflowId :: string
  cw_workflowType :: string
  cw_input :: "payload list option"
  cw_retryPolicy :: "proto_retry_policy option"
  cw_taskQueue :: string
  cw_workflowExecutionTimeout :: "timestamp option"
  cw_workflowRunTimeout :: "timestamp option"
  cw_workflowTaskTimeout :: "timestamp option"
  cw_namespace :: string
  cw_headers :: "(string \<times> payload) list"
  cw_cancellationType :: "enum_value option"
  cw_workflowIdReusePolicy :: "enum_value option"
  cw_parentClosePolicy :: "enum_value option"
  cw_cronSchedule :: "string option"
  cw_searchAttributes :: "(string \<times> payload) list option"
  cw_memo :: "(string \<times> payload) list option"
  cw_versioningIntent :: int
  cw_versioningOverride :: "proto_versioning_override option"
  cw_priority :: "priority option"

datatype signal_target = ExternalTarget string string "string option" | ChildTarget string

datatype query_result = QuerySucceeded payload | QueryFailed proto_failure

datatype update_result = UpdateAccepted | UpdateRejected proto_failure | UpdateCompleted payload

datatype command_variant =
    StartTimer nat timestamp
  | CancelTimer nat
  | ScheduleActivity schedule_activity
  | RequestCancelActivity nat
  | ScheduleLocalActivity schedule_local_activity
  | RequestCancelLocalActivity nat
  | StartChildWorkflowExecution start_child
  | CancelChildWorkflowExecution nat
  | SignalExternalWorkflowExecution nat string "payload list option" "(string \<times> payload) list" signal_target
  | CancelSignalWorkflow nat
  | RequestCancelExternalWorkflowExecution nat string string "string option"
  | SetPatchMarker string bool
  | ModifyWorkflowProperties "(string \<times> payload) list"
  | RespondToQuery string query_result
  | UpdateResponse string update_result
  | CompleteWorkflowExecution payload
  | FailWorkflowExecution proto_failure
  | CancelWorkflowExecution
  | ContinueAsNewWorkflowExecution can_command

record wf_command =
  variant :: command_variant
  cmd_userMetadata :: "user_metadata option"
  cmd_eventGroupMarkers :: "event_marker list option"

definition plain_command :: "command_variant \<Rightarrow> wf_command" where
  "plain_command v = \<lparr>variant = v, cmd_userMetadata = None, cmd_eventGroupMarkers = None\<rparr>"

section \<open>Pending work and handlers\<close>

datatype completion_kind =
    TimerC | ActivityC | NexusOperationStartC | NexusOperationCompleteC
  | ChildWorkflowStartC | ChildWorkflowCompleteC | SignalWorkflowC | CancelWorkflowC

datatype seq_kind =
    TimerS | ActivityS | ChildWorkflowS | SignalWorkflowS | CancelWorkflowS | ConditionS | NexusOperationS | StackS

text \<open>A completion is the pair of resolving functions of a promise, hence the promise itself.\<close>

record completion =
  c_promise :: nat
  c_context :: "serialization_context option"
  c_outputTypeInfo :: "type_info option"

datatype unfinished_policy = WARN_AND_ABANDON | ABANDON

record message_handler_execution =
  mh_name :: string
  mh_unfinishedPolicy :: unfinished_policy
  mh_id :: "string option"

text \<open>A registered handler; user functions are numbered.\<close>

record handler_entry =
  he_handler :: nat
  he_validator :: "nat option"
  he_description :: "string option"
  he_unfinishedPolicy :: unfinished_policy
  he_typeInfo :: "payload_type_info option"

record cond_entry =
  cond_fn :: nat
  cond_promise :: nat

record signal_job =
  signalName :: "string option"
  sig_input :: "payload list option"
  sig_originatingEventId :: "int option"
  sig_headers :: "(string \<times> payload) list"

record update_job =
  upd_id :: "string option"
  upd_protocolInstanceId :: "string option"
  upd_name :: "string option"
  upd_input :: "payload list option"
  upd_runValidator :: bool
  upd_headers :: "(string \<times> payload) list"

record system_nexus_context =
  sn_service :: string
  sn_operation :: string
  sn_context :: "serialization_context option"
  sn_outputType :: "type_info option"

text \<open>
  A warning logged when the workflow ends with running handlers: the name and id of each update, the
  name of each signal with the number of its executions.
\<close>

datatype wf_warning =
    UnfinishedUpdates "(string \<times> string option) list"
  | UnfinishedSignals "(string \<times> nat) list"

section \<open>Options of local activities\<close>

text \<open>
  \<^verbatim>\<open>LocalActivityOptions\<close>, and the variables of the retry loop of \<^verbatim>\<open>scheduleLocalActivity\<close>.
\<close>

record local_activity_options =
  lo_retry :: "retry_policy option"
  lo_scheduleToCloseTimeout :: "duration option"
  lo_startToCloseTimeout :: "duration option"
  lo_scheduleToStartTimeout :: "duration option"
  lo_localRetryThreshold :: "duration option"
  lo_includeArgumentsInMarker :: "bool option"
  lo_cancellationType :: "string option"
  lo_summary :: "string option"
  lo_eventGroups :: "event_group list option"

record local_activity_call =
  la_activityType :: string
  la_args :: "jsval list"
  la_options :: local_activity_options
  la_typeInfo :: "payload_type_info option"
  la_attempt :: nat
  la_originalScheduleTime :: "timestamp option"
  la_result :: nat
  la_scope :: nat
  la_markers :: "marker_scopes option"

section \<open>Reactions\<close>

text \<open>
  The callbacks the runtime attaches to promises. Each carries the variables its closure captures;
  the active event-group scopes at the time of registration are captured by \<open>AsyncLocalStorage\<close>.
\<close>

datatype react =
    PropagateCancel nat
  | PropagateCancelUnlessShielded nat
  | RejectPromise nat
  | CancelTimerR nat nat "event_group list option" "marker_scopes option"
  | CancelActivityR nat "event_group list option" "marker_scopes option"
  | CancelLocalActivityR nat
  | CancelChildR nat "event_group list option" "marker_scopes option"
  | CancelSignalR nat
  | CancelExternalR nat "marker_scopes option"
  | CancelConditionR nat nat
  | Follow nat
  | LifecycleLog
  | WorkflowSettled
  | SignalCatch
  | SignalFinally nat
  | UpdateThen string "type_info option"
  | UpdateCatch string
  | UpdateFinally string
  | QuerySettled string
  | Swallow
  | TimeoutExpired nat
  | LocalActivitySettled local_activity_call
  | LocalActivitySlept local_activity_call do_backoff
  | UserReact nat

type_synonym wf_runtime = "(outcome, react) runtime"

section \<open>Cancellation scopes\<close>

record cscope =
  sc_cancellable :: bool
  sc_cancelRequested :: bool
  sc_promise :: nat
  sc_parent :: "nat option"
  sc_timeout :: "jsnum option"

section \<open>The activator\<close>

text \<open>
  The last five fields are not fields of the class: the scopes and promises of the execution, the
  warnings it logged, the variable \<open>outputTypeInfo\<close> that the closures of a query share, by query id, and
  the variables of the workflow's own code, which the SDK never touches.
\<close>

record workflow_info =
  workflowId :: string
  runId :: string
  workflowType :: string
  namespace :: string
  taskQueue :: string
  memo :: "(string \<times> jsval) list option"
  lastResult :: jsval
  lastFailure :: "js_error option"
  isReplaying :: bool
  isReplayingHistoryEvents :: bool
  info_currentBuildId :: "string option"
  historyLength :: int
  historySize :: int
  continueAsNewSuggested :: bool
  targetWorkerDeploymentVersionChanged :: bool
  suggestedContinueAsNewReasons :: "string list option"
  info_currentDeploymentVersion :: "(string \<times> string) option"

record failure_converter =
  fc_errorToFailure :: "js_error \<Rightarrow> payload_converter \<Rightarrow> serialization_context option \<Rightarrow> js_error + proto_failure"
  fc_failureToError :: "proto_failure \<Rightarrow> payload_converter \<Rightarrow> serialization_context option \<Rightarrow> js_error + js_error"

record activator =
  completions :: "completion_kind \<Rightarrow> nat \<Rightarrow> completion option"
  systemNexusOperationContexts :: "nat \<Rightarrow> system_nexus_context option"
  bufferedUpdates :: "update_job list"
  bufferedSignals :: "signal_job list"
  updateHandlers :: "(string, handler_entry) js_map"
  signalHandlers :: "(string, handler_entry) js_map"
  queryHandlers :: "(string, handler_entry) js_map"
  inProgressUpdates :: "(string, message_handler_execution) js_map"
  inProgressSignals :: "(nat, message_handler_execution) js_map"
  signalHandlerExecutionSeq :: nat
  defaultSignalHandler :: "nat option"
  defaultUpdateHandler :: "nat option"
  defaultQueryHandler :: "nat option"
  workflowTaskError :: "js_error option"
  failureExceptionTypeNames :: "string list"
  workflowDefinitionFailureExceptionTypes :: "err_class list option"
  rethrowSynchronously :: bool
  checkConditions :: bool
  commands :: "wf_command list"
  blockedConditions :: "(nat, cond_entry) js_map"
  completed :: bool
  cancelled :: bool
  nextSeqs :: "seq_kind \<Rightarrow> nat"
  workflow :: "nat option"
  info :: workflow_info
  now :: int
  randomnessSeed :: "nat list"
  payloadConverter :: payload_converter
  failureConverter :: failure_converter
  nexusSerializationContext :: "serialization_context option"
  knownPresentPatches :: "string list"
  sentPatches :: "string list"
  patchDecisions :: "(string, bool) js_map"
  knownFlags :: "nat list"
  sdkVersion :: "string option"
  registeredActivityNames :: "string list"
  currentDetails :: string
  versioningBehavior :: "string option"
  patchActivationCallback :: "(workflow_info \<Rightarrow> string \<Rightarrow> bool) option"
  typeInfo :: "payload_type_info option"
  scopes :: "cscope list"
  rt :: wf_runtime
  warnings :: "wf_warning list"
  queryOutputTypes :: "(string, type_info option) js_map"
  heap :: "(string, jsval) js_map"

text \<open>
  A new activator: the field initializers of the class and its constructor. The root scope is the
  first scope, and its promise the first promise of the execution. The default converters are
  parameters. The three built-in queries have the function numbers \<open>0\<close> to \<open>2\<close>.
\<close>

definition builtin_query :: "nat \<Rightarrow> string \<Rightarrow> handler_entry" where
  "builtin_query n d = \<lparr>he_handler = n, he_validator = None, he_description = Some d,
     he_unfinishedPolicy = WARN_AND_ABANDON, he_typeInfo = None\<rparr>"

definition new_activator ::
  "payload_converter \<Rightarrow> failure_converter \<Rightarrow> workflow_info \<Rightarrow> nat list \<Rightarrow> string list \<Rightarrow> string list option \<Rightarrow>
     (workflow_info \<Rightarrow> string \<Rightarrow> bool) option \<Rightarrow> int \<Rightarrow> activator" where
  "new_activator dpc dfc i seed activityNames failureTypes patchCallback time =
     \<lparr>completions = (\<lambda>_ _. None),
      systemNexusOperationContexts = (\<lambda>_. None),
      bufferedUpdates = [],
      bufferedSignals = [],
      updateHandlers = [],
      signalHandlers = [],
      queryHandlers = [
        (''__stack_trace'', builtin_query 0 ''Returns a sensible stack trace.''),
        (''__enhanced_stack_trace'', builtin_query 1 ''Returns a stack trace annotated with source information.''),
        (''__temporal_workflow_metadata'', builtin_query 2 ''Returns metadata associated with this workflow.'')],
      inProgressUpdates = [],
      inProgressSignals = [],
      signalHandlerExecutionSeq = 0,
      defaultSignalHandler = None,
      defaultUpdateHandler = None,
      defaultQueryHandler = None,
      workflowTaskError = None,
      failureExceptionTypeNames = (case failureTypes of None \<Rightarrow> [] | Some ts \<Rightarrow> ts),
      workflowDefinitionFailureExceptionTypes = None,
      rethrowSynchronously = False,
      checkConditions = False,
      commands = [],
      blockedConditions = [],
      completed = False,
      cancelled = False,
      nextSeqs = (\<lambda>_. 1),
      workflow = None,
      info = i,
      now = time,
      randomnessSeed = seed,
      payloadConverter = dpc,
      failureConverter = dfc,
      nexusSerializationContext = None,
      knownPresentPatches = [],
      sentPatches = [],
      patchDecisions = [],
      knownFlags = [],
      sdkVersion = None,
      registeredActivityNames = activityNames,
      currentDetails = [],
      versioningBehavior = None,
      patchActivationCallback = patchCallback,
      typeInfo = None,
      scopes = [\<lparr>sc_cancellable = True, sc_cancelRequested = False, sc_promise = 0, sc_parent = None,
                 sc_timeout = None\<rparr>],
      rt = snd (then_react 0 Swallow (snd (new_promise empty_runtime))),
      warnings = [],
      queryOutputTypes = [],
      heap = []\<rparr>"

section \<open>An example execution\<close>

text \<open>
  Concrete values for the examples: a converter that keeps a string as its bytes and refuses every
  other value, a failure converter that keeps the message of an application failure, and a live
  execution with them.
\<close>

definition string_converter :: payload_converter where
  "string_converter = \<lparr>
     toPayload = (\<lambda>v _ _. case v of JStr x \<Rightarrow> Inr \<lparr>metadata = None, data = Some x\<rparr>
                          | _ \<Rightarrow> Inl (ValueError ''Unable to convert'')),
     fromPayload = (\<lambda>p _ _. case data p of None \<Rightarrow> Inl (ValueError ''Unable to convert'') | Some x \<Rightarrow> Inr (JStr x))\<rparr>"

definition message_failure_converter :: failure_converter where
  "message_failure_converter = \<lparr>
     fc_errorToFailure = (\<lambda>e _ _. Inr (Failure (Some (err_message e)) None None None None NoInfo)),
     fc_failureToError = (\<lambda>f _ _. Inr (PlainError (case f_message f of None \<Rightarrow> [] | Some m \<Rightarrow> m)))\<rparr>"

definition example_info :: workflow_info where
  "example_info = \<lparr>workflowId = ''wid'', runId = ''rid'', workflowType = ''wf'', namespace = ''default'',
     taskQueue = ''tq'', memo = None, lastResult = Undefined, lastFailure = None, isReplaying = False,
     isReplayingHistoryEvents = False, info_currentBuildId = None,
     historyLength = 3, historySize = 0, continueAsNewSuggested = False, targetWorkerDeploymentVersionChanged = False,
     suggestedContinueAsNewReasons = None, info_currentDeploymentVersion = None\<rparr>"

definition example_activator :: activator where
  "example_activator = new_activator string_converter message_failure_converter example_info [] [] None None 0"

lemmas example_defs = example_activator_def new_activator_def example_info_def builtin_query_def
  string_converter_def message_failure_converter_def

end
