(* ===== verification/ActivatorCore.thy ===== *)
theory ActivatorCore
  imports ActivatorState
begin

text \<open>
  The methods of \<open>Activator\<close> that call no handler: the command buffer, the completions, failure
  handling, responses to queries and updates, patches and flags.
\<close>

section \<open>Promises of the execution\<close>

type_synonym 'a act = "(activator, js_error, 'a) eff"

definition upd_rt :: "(wf_runtime \<Rightarrow> wf_runtime) \<Rightarrow> activator \<Rightarrow> activator" where
  "upd_rt f s = s\<lparr>rt := f (rt s)\<rparr>"

definition resolve_promise :: "nat \<Rightarrow> jsval \<Rightarrow> activator \<Rightarrow> activator" where
  "resolve_promise p v = upd_rt (settle p (Inr v))"

definition reject_promise :: "nat \<Rightarrow> js_error \<Rightarrow> activator \<Rightarrow> activator" where
  "reject_promise p e = upd_rt (settle p (Inl e))"

definition fresh_promise :: "activator \<Rightarrow> nat \<times> activator" where
  "fresh_promise s = (let (p, r) = new_promise (rt s) in (p, s\<lparr>rt := r\<rparr>))"

definition react_to :: "nat \<Rightarrow> react \<Rightarrow> activator \<Rightarrow> nat \<times> activator" where
  "react_to p h s = (let (d, r) = then_react p h (rt s) in (d, s\<lparr>rt := r\<rparr>))"

lemmas promise_op_defs = upd_rt_def resolve_promise_def reject_promise_def fresh_promise_def react_to_def

lemma react_to_simps [simp]:
  "fst (react_to p h s) = length (cells (rt s))"
  "rt (snd (react_to p h s)) = snd (then_react p h (rt s))"
  "scopes (snd (react_to p h s)) = scopes s"
  by (simp_all add: react_to_def split_beta)

lemma fresh_promise_simps [simp]:
  "fst (fresh_promise s) = length (cells (rt s))"
  "rt (snd (fresh_promise s)) = snd (new_promise (rt s))"
  "scopes (snd (fresh_promise s)) = scopes s"
  by (simp_all add: fresh_promise_def split_beta)

lemma upd_rt_simps [simp]: "rt (upd_rt f s) = f (rt s)" "scopes (upd_rt f s) = scopes s"
  by (simp_all add: upd_rt_def)

section \<open>Commands\<close>

definition pushCommand :: "wf_command \<Rightarrow> bool \<Rightarrow> activator \<Rightarrow> activator" where
  "pushCommand cmd isFinal s =
     (let s' = s\<lparr>commands := commands s @ [cmd]\<rparr> in
      if isFinal then s'\<lparr>completed := True\<rparr> else s')"

record activation_completion =
  ac_commands :: "wf_command list"
  usedInternalFlags :: "nat list"
  ac_versioningBehavior :: "string option"

definition concludeActivation :: "activator \<Rightarrow> activation_completion \<times> activator" where
  "concludeActivation s =
     (\<lparr>ac_commands = commands s, usedInternalFlags = knownFlags s,
       ac_versioningBehavior = versioningBehavior s\<rparr>, s\<lparr>commands := []\<rparr>)"

section \<open>Completions\<close>

definition set_completion :: "completion_kind \<Rightarrow> nat \<Rightarrow> completion \<Rightarrow> activator \<Rightarrow> activator" where
  "set_completion k seq c s =
     s\<lparr>completions := (completions s)(k := (completions s k)(seq := Some c))\<rparr>"

definition delete_completion :: "completion_kind \<Rightarrow> nat \<Rightarrow> activator \<Rightarrow> activator" where
  "delete_completion k seq s =
     s\<lparr>completions := (completions s)(k := (completions s k)(seq := None))\<rparr>"

definition maybeConsumeCompletion :: "completion_kind \<Rightarrow> nat \<Rightarrow> activator \<Rightarrow> completion option \<times> activator" where
  "maybeConsumeCompletion k taskSeq s =
     (case completions s k taskSeq of
        None \<Rightarrow> (None, s)
      | Some c \<Rightarrow> (Some c, delete_completion k taskSeq s))"

definition consumeCompletion :: "completion_kind \<Rightarrow> nat \<Rightarrow> completion act" where
  "consumeCompletion k taskSeq s =
     (case maybeConsumeCompletion k taskSeq s of
        (None, s') \<Rightarrow> (s', Inl (IllegalStateError (''No completion for taskSeq '' @ nat_to_string taskSeq)))
      | (Some c, s') \<Rightarrow> (s', Inr c))"

definition getSeq :: "nat option \<Rightarrow> js_error + nat" where
  "getSeq seq = (case seq of
     None \<Rightarrow> Inl (TypeError ''Got activation with no seq attribute'')
   | Some n \<Rightarrow> Inr n)"

section \<open>Contexts and failures\<close>

definition workflowSerializationContext :: "activator \<Rightarrow> serialization_context" where
  "workflowSerializationContext s = WorkflowContext (namespace (info s)) (workflowId (info s))"

definition resultSerializationContext :: "activator \<Rightarrow> serialization_context" where
  "resultSerializationContext s = (case nexusSerializationContext s of
     None \<Rightarrow> workflowSerializationContext s | Some c \<Rightarrow> c)"

definition errorToFailure :: "js_error \<Rightarrow> serialization_context option \<Rightarrow> proto_failure act" where
  "errorToFailure e ctx s = (s, fc_errorToFailure (failureConverter s) e (payloadConverter s)
     (Some (case ctx of None \<Rightarrow> workflowSerializationContext s | Some c \<Rightarrow> c)))"

definition failureToError :: "proto_failure \<Rightarrow> serialization_context option \<Rightarrow> js_error act" where
  "failureToError f ctx s = (s, fc_failureToError (failureConverter s) f (payloadConverter s)
     (Some (case ctx of None \<Rightarrow> workflowSerializationContext s | Some c \<Rightarrow> c)))"

definition maybeRethrowWorkflowTaskError :: "unit act" where
  "maybeRethrowWorkflowTaskError s = (case workflowTaskError s of
     None \<Rightarrow> (s, Inr ())
   | Some e \<Rightarrow> if err_truthy e then (s, Inl e) else (s, Inr ()))"

definition recordWorkflowTaskError :: "js_error \<Rightarrow> unit act" where
  "recordWorkflowTaskError e s =
     (let s' = (if workflowTaskError s = None \<and> e \<noteq> ThrownValue Undefined
                then s\<lparr>workflowTaskError := Some e\<rparr> else s)
      in if rethrowSynchronously s' then maybeRethrowWorkflowTaskError s' else (s', Inr ()))"

text \<open>The names along the constructor chain of an object; primitive values have none.\<close>

fun ctor_names :: "js_error \<Rightarrow> string list" where
  "ctor_names (ThrownValue (JObj _)) = [''Object'']"
| "ctor_names (ThrownValue (JArr _)) = [''Array'']"
| "ctor_names (ThrownValue (JBytes _)) = [''Uint8Array'', ''TypedArray'']"
| "ctor_names (ThrownValue (JPromise _)) = [''Promise'']"
| "ctor_names (ThrownValue (JRaw _)) = [''RawValue'']"
| "ctor_names (ThrownValue _) = []"
| "ctor_names e = map snd (classes_of e)"

definition isConfiguredFailureException :: "activator \<Rightarrow> js_error \<Rightarrow> bool" where
  "isConfiguredFailureException s e \<longleftrightarrow>
     (case workflowDefinitionFailureExceptionTypes s of
        None \<Rightarrow> False
      | Some ts \<Rightarrow> Error_class \<in> set ts \<or> (\<exists>t \<in> set ts. t \<in> set (classes_of e))) \<or>
     (failureExceptionTypeNames s \<noteq> [] \<and>
       (''Error'' \<in> set (failureExceptionTypeNames s) \<or>
        (\<exists>n \<in> set (ctor_names e). n \<noteq> [] \<and> n \<in> set (failureExceptionTypeNames s))))"

definition handleWorkflowFailure :: "js_error \<Rightarrow> unit act" where
  "handleWorkflowFailure e s =
     (if cancelled s \<and> isCancellation e
      then (pushCommand (plain_command CancelWorkflowExecution) True s, Inr ())
      else case e of
        ContinueAsNew cmd markers \<Rightarrow>
          (pushCommand \<lparr>variant = ContinueAsNewWorkflowExecution cmd, cmd_userMetadata = None,
             cmd_eventGroupMarkers = markers\<rparr> True s, Inr ())
      | _ \<Rightarrow>
          if is_TemporalFailure e \<or> isConfiguredFailureException s e
          then eff_bind
                 (\<lambda>s. errorToFailure (ensureTemporalFailure e) (Some (resultSerializationContext s)) s)
                 (\<lambda>f. eff_modify (pushCommand (plain_command (FailWorkflowExecution f)) True))
                 (s\<lparr>inProgressSignals := [], inProgressUpdates := []\<rparr>)
          else recordWorkflowTaskError e s)"

section \<open>Answers\<close>

definition to_payload_act :: "jsval \<Rightarrow> serialization_context \<Rightarrow> type_info option \<Rightarrow> payload act" where
  "to_payload_act v ctx ti s = (s, toPayloadWithTypeInfo (payloadConverter s) v (Some ctx) ti)"

definition completeQuery :: "string \<Rightarrow> jsval \<Rightarrow> type_info option \<Rightarrow> unit act" where
  "completeQuery queryId result ti s =
     eff_bind (to_payload_act result (workflowSerializationContext s) ti)
       (\<lambda>p. eff_modify (pushCommand (plain_command (RespondToQuery queryId (QuerySucceeded p))) False)) s"

definition failQuery :: "string \<Rightarrow> js_error \<Rightarrow> unit act" where
  "failQuery queryId e =
     eff_bind (errorToFailure (ensureTemporalFailure e) None)
       (\<lambda>f. eff_modify (pushCommand (plain_command (RespondToQuery queryId (QueryFailed f))) False))"

definition acceptUpdate :: "string \<Rightarrow> activator \<Rightarrow> activator" where
  "acceptUpdate pid s =
     pushCommand (plain_command (UpdateResponse pid UpdateAccepted)) False (s\<lparr>checkConditions := True\<rparr>)"

definition completeUpdate :: "string \<Rightarrow> jsval \<Rightarrow> type_info option \<Rightarrow> unit act" where
  "completeUpdate pid result ti s =
     eff_bind (to_payload_act result (workflowSerializationContext s) ti)
       (\<lambda>p. eff_modify (pushCommand (plain_command (UpdateResponse pid (UpdateCompleted p))) False)) s"

definition rejectUpdate :: "string \<Rightarrow> js_error \<Rightarrow> unit act" where
  "rejectUpdate pid e =
     eff_bind (errorToFailure (ensureTemporalFailure e) None)
       (\<lambda>f. eff_modify (pushCommand (plain_command (UpdateResponse pid (UpdateRejected f))) False))"

definition completeWorkflow :: "jsval \<Rightarrow> unit act" where
  "completeWorkflow result s =
     eff_bind (to_payload_act result (resultSerializationContext s)
         (case typeInfo s of None \<Rightarrow> None | Some t \<Rightarrow> outputType t))
       (\<lambda>p. eff_modify (pushCommand (plain_command (CompleteWorkflowExecution p)) True)) s"

section \<open>Patches, flags, random seed\<close>

definition notifyHasPatch :: "string option \<Rightarrow> unit act" where
  "notifyHasPatch patchId s =
     (if \<not> isReplaying (info s)
      then (s, Inl (IllegalStateError ''Unexpected notifyHasPatch job on non-replay activation''))
      else case patchId of
        None \<Rightarrow> (s, Inl (TypeError ''notifyHasPatch missing patch id''))
      | Some p \<Rightarrow>
          if p = [] then (s, Inl (TypeError ''notifyHasPatch missing patch id''))
          else (s\<lparr>knownPresentPatches := set_add (knownPresentPatches s) p\<rparr>, Inr ()))"

definition patchInternal ::
  "payload_converter \<Rightarrow> marker_scopes option \<Rightarrow> string \<Rightarrow> bool \<Rightarrow> event_group list option \<Rightarrow> bool act" where
  "patchInternal dpc store patchId deprecated groups s =
     (if workflow s = None
      then (s, Inl (IllegalStateError ''Patches cannot be used before Workflow starts''))
      else case js_get (patchDecisions s) patchId of
        Some d \<Rightarrow> (s, Inr d)
      | None \<Rightarrow>
          let knownPresent = patchId \<in> set (knownPresentPatches s) in
          if isReplaying (info s) \<and> \<not> knownPresent then (s, Inr False)
          else
            let usePatch = (if \<not> knownPresent \<and> \<not> deprecated
                            then (case patchActivationCallback s of None \<Rightarrow> True | Some cb \<Rightarrow> cb (info s) patchId)
                            else True);
                s1 = s\<lparr>patchDecisions := js_set (patchDecisions s) patchId usePatch\<rparr>
            in if usePatch \<and> patchId \<notin> set (sentPatches s1)
               then case eventGroupMarkersToProto dpc groups store of
                      Inl e \<Rightarrow> (s1, Inl e)
                    | Inr markers \<Rightarrow>
                        let s2 = pushCommand \<lparr>variant = SetPatchMarker patchId deprecated,
                              cmd_userMetadata = None, cmd_eventGroupMarkers = markers\<rparr> False s1
                        in (s2\<lparr>sentPatches := set_add (sentPatches s2) patchId\<rparr>, Inr usePatch)
               else (s1, Inr usePatch))"

fun addKnownFlags :: "nat list \<Rightarrow> unit act" where
  "addKnownFlags [] s = (s, Inr ())"
| "addKnownFlags (f # fs) s =
     (case assertValidFlag f of
        Inl e \<Rightarrow> (s, Inl e)
      | Inr _ \<Rightarrow> addKnownFlags fs (s\<lparr>knownFlags := set_add (knownFlags s) f\<rparr>))"

definition hasFlag :: "sdk_flag \<Rightarrow> activator \<Rightarrow> bool \<times> activator" where
  "hasFlag flag s =
     (if flag_id flag \<in> set (knownFlags s) then (True, s)
      else if \<not> isReplaying (info s) \<and> flag_default flag
      then (True, s\<lparr>knownFlags := set_add (knownFlags s) (flag_id flag)\<rparr>)
      else if isReplaying (info s)
      then (\<exists>cond \<in> set (alternativeConditions flag).
              cond \<lparr>currentBuildId = info_currentBuildId (info s), ctx_sdkVersion = sdkVersion s\<rparr>, s)
      else (False, s))"

definition updateRandomSeed :: "nat list option \<Rightarrow> unit act" where
  "updateRandomSeed seed s = (case seed of
     None \<Rightarrow> (s, Inl (TypeError ''Expected activation with randomnessSeed attribute''))
   | Some bytes \<Rightarrow> (s\<lparr>randomnessSeed := bytes\<rparr>, Inr ()))"

definition removeFromCache :: "unit act" where
  "removeFromCache s = (s, Inl (IllegalStateError ''removeFromCache activation job should not reach workflow''))"

section \<open>Initialization\<close>

record init_job =
  ij_arguments :: "payload list option"
  ij_continuedFailure :: "proto_failure option"
  ij_lastCompletionResult :: "payload list option"
  ij_memo :: "(string \<times> payload) list option"
  ij_nexusContext :: "(string option \<times> string option \<times> string option) option"

text \<open>
  \<open>opts\<close> is what the workflow's options getter returns, where the workflow was defined with one.
\<close>

definition initializeWorkflow ::
  "(string option \<times> err_class list option) option \<Rightarrow> init_job \<Rightarrow> unit act" where
  "initializeWorkflow opts job s =
     (let ctx = workflowSerializationContext s;
          s1 = s\<lparr>nexusSerializationContext := nexusSerializationContextFromProto (ij_nexusContext job)\<rparr>;
          prev = resultSerializationContext s1
      in case mapFromPayloads (payloadConverter s1) (ij_memo job) (Some ctx) of
           Inl e \<Rightarrow> (s1, Inl e)
         | Inr m \<Rightarrow>
         case fromPayloadsAtIndex (payloadConverter s1) 0 (ij_lastCompletionResult job) (Some prev) None of
           Inl e \<Rightarrow> (s1, Inl e)
         | Inr lr \<Rightarrow>
         case (case ij_continuedFailure job of
                 None \<Rightarrow> Inr None
               | Some f \<Rightarrow> bind_res (snd (failureToError f (Some prev) s1)) (\<lambda>e. Inr (Some e))) of
           Inl e \<Rightarrow> (s1, Inl e)
         | Inr lf \<Rightarrow>
             let s2 = s1\<lparr>info := (info s1)\<lparr>memo := Some (case m of None \<Rightarrow> [] | Some x \<Rightarrow> x),
                                            lastResult := lr, lastFailure := lf\<rparr>\<rparr>
             in (case opts of
                   None \<Rightarrow> s2
                 | Some (vb, fts) \<Rightarrow> s2\<lparr>versioningBehavior := vb,
                                       workflowDefinitionFailureExceptionTypes := fts\<rparr>, Inr ()))"

section \<open>Unfinished handlers\<close>

definition getWarnable :: "('k, message_handler_execution) js_map \<Rightarrow> message_handler_execution list" where
  "getWarnable m = filter (\<lambda>ex. mh_unfinishedPolicy ex = WARN_AND_ABANDON) (map snd m)"

definition count_names :: "message_handler_execution list \<Rightarrow> (string, nat) js_map" where
  "count_names exs = foldl (\<lambda>names ex.
     js_set names (mh_name ex) (Suc (case js_get names (mh_name ex) of None \<Rightarrow> 0 | Some n \<Rightarrow> n))) [] exs"

definition warnIfUnfinishedHandlers :: "activator \<Rightarrow> activator" where
  "warnIfUnfinishedHandlers s =
     (if (case workflowTaskError s of None \<Rightarrow> False | Some e \<Rightarrow> err_truthy e) then s
      else let us = getWarnable (inProgressUpdates s);
               s1 = (if us = [] then s
                     else s\<lparr>warnings := warnings s @ [UnfinishedUpdates (map (\<lambda>ex. (mh_name ex, mh_id ex)) us)]\<rparr>);
               ss = getWarnable (inProgressSignals s1)
           in if ss = [] then s1
              else s1\<lparr>warnings := warnings s1 @ [UnfinishedSignals (count_names ss)]\<rparr>)"


section \<open>Facts about the command buffer and the completions\<close>

lemma pushCommand_simps [simp]:
  "commands (pushCommand c b s) = commands s @ [c]"
  "completed (pushCommand c b s) = (b \<or> completed s)"
  "sentPatches (pushCommand c b s) = sentPatches s"
  "patchDecisions (pushCommand c b s) = patchDecisions s"
  "knownPresentPatches (pushCommand c b s) = knownPresentPatches s"
  "completions (pushCommand c b s) = completions s"
  "nextSeqs (pushCommand c b s) = nextSeqs s"
  "info (pushCommand c b s) = info s"
  "workflow (pushCommand c b s) = workflow s"
  "knownFlags (pushCommand c b s) = knownFlags s"
  "workflowTaskError (pushCommand c b s) = workflowTaskError s"
  "rt (pushCommand c b s) = rt s"
  "scopes (pushCommand c b s) = scopes s"
  "blockedConditions (pushCommand c b s) = blockedConditions s"
  "checkConditions (pushCommand c b s) = checkConditions s"
  "inProgressSignals (pushCommand c b s) = inProgressSignals s"
  "inProgressUpdates (pushCommand c b s) = inProgressUpdates s"
  "signalHandlerExecutionSeq (pushCommand c b s) = signalHandlerExecutionSeq s"
  "bufferedSignals (pushCommand c b s) = bufferedSignals s"
  "bufferedUpdates (pushCommand c b s) = bufferedUpdates s"
  "signalHandlers (pushCommand c b s) = signalHandlers s"
  "updateHandlers (pushCommand c b s) = updateHandlers s"
  "cancelled (pushCommand c b s) = cancelled s"
  "rethrowSynchronously (pushCommand c b s) = rethrowSynchronously s"
  by (simp_all add: pushCommand_def Let_def)

lemma completions_set [simp]:
  "completions (set_completion k n c s) k' n' =
     (if k' = k \<and> n' = n then Some c else completions s k' n')"
  by (simp add: set_completion_def)

lemma completions_delete [simp]:
  "completions (delete_completion k n s) k' n' =
     (if k' = k \<and> n' = n then None else completions s k' n')"
  by (simp add: delete_completion_def)

text \<open>
  The interface of a table of pending completions: a completion that was stored under a sequence
  number is handed out once, to the first consumer of that number.
\<close>

locale completion_table =
  fixes lookup :: "'s \<Rightarrow> nat \<Rightarrow> 'c option"
    and store :: "nat \<Rightarrow> 'c \<Rightarrow> 's \<Rightarrow> 's"
    and take :: "nat \<Rightarrow> 's \<Rightarrow> 'c option \<times> 's"
  assumes lookup_store: "lookup (store n c s) m = (if m = n then Some c else lookup s m)"
    and fst_take: "fst (take n s) = lookup s n"
    and lookup_take: "lookup (snd (take n s)) m = (if m = n then None else lookup s m)"
begin

lemma take_once: "fst (take n (snd (take n s))) = None"
  by (simp add: fst_take lookup_take)

lemma take_stored: "fst (take n (store n c s)) = Some c"
  by (simp add: fst_take lookup_store)

lemma take_other: "m \<noteq> n \<Longrightarrow> fst (take m (snd (take n s))) = fst (take m s)"
  by (simp add: fst_take lookup_take)

lemma take_store_other: "m \<noteq> n \<Longrightarrow> fst (take m (store n c s)) = fst (take m s)"
  by (simp add: fst_take lookup_store)

end

interpretation ct: completion_table
  "\<lambda>s. completions s k" "set_completion k" "maybeConsumeCompletion k" for k
  by unfold_locales (auto simp: maybeConsumeCompletion_def split: option.splits)

lemma consumeCompletion_simps:
  "completions s k n = Some c \<Longrightarrow> consumeCompletion k n s = (delete_completion k n s, Inr c)"
  "completions s k n = None \<Longrightarrow>
     consumeCompletion k n s = (s, Inl (IllegalStateError (''No completion for taskSeq '' @ nat_to_string n)))"
  by (simp_all add: consumeCompletion_def maybeConsumeCompletion_def)

section \<open>Patches\<close>

text \<open>A call with a recorded decision returns it and changes nothing, deprecated or not.\<close>

lemma patchInternal_decided:
  "workflow s \<noteq> None \<Longrightarrow> js_get (patchDecisions s) p = Some d \<Longrightarrow>
     patchInternal dpc store p depr g s = (s, Inr d)"
  by (simp add: patchInternal_def)

lemma patchInternal_records:
  assumes "patchInternal dpc store p depr g s = (s', Inr b)"
  shows "js_get (patchDecisions s') p = Some b \<or>
     (s' = s \<and> b = False \<and> isReplaying (info s) \<and> p \<notin> set (knownPresentPatches s))"
  using assms
  by (auto simp: patchInternal_def Let_def split: if_splits option.splits sum.splits)

text \<open>
  The marker is lost when its event groups are refused: the decision is already recorded, so the
  next call says the patch is active without having emitted the marker that makes it so on replay.
\<close>

lemma patchInternal_refused_groups:
  assumes "workflow s \<noteq> None" "js_get (patchDecisions s) p = None" "\<not> isReplaying (info s)"
    and "patchActivationCallback s = None" "p \<notin> set (sentPatches s)"
    and "eventGroupMarkersToProto dpc g store = Inl e"
  shows "\<exists>s'. patchInternal dpc store p depr g s = (s', Inl e) \<and> commands s' = commands s \<and>
     patchInternal dpc store p depr None s' = (s', Inr True)"
  using assms by (auto simp: patchInternal_def Let_def)

datatype patch_op =
    PatchCall string bool "event_group list option" "marker_scopes option"
  | PatchNotify "string option"
  | PatchReplay bool
  | PatchConclude

fun patch_step :: "payload_converter \<Rightarrow> patch_op \<Rightarrow> activator \<times> wf_command list \<Rightarrow> activator \<times> wf_command list" where
  "patch_step dpc (PatchCall p d g st) (s, out) = (fst (patchInternal dpc st p d g s), out)"
| "patch_step dpc (PatchNotify p) (s, out) = (fst (notifyHasPatch p s), out)"
| "patch_step dpc (PatchReplay b) (s, out) = (s\<lparr>info := (info s)\<lparr>isReplaying := b\<rparr>\<rparr>, out)"
| "patch_step dpc PatchConclude (s, out) =
     (snd (concludeActivation s), out @ ac_commands (fst (concludeActivation s)))"

definition patch_run :: "payload_converter \<Rightarrow> patch_op list \<Rightarrow> activator \<times> wf_command list \<Rightarrow> activator \<times> wf_command list" where
  "patch_run dpc ops x = foldl (\<lambda>x op. patch_step dpc op x) x ops"

fun is_patch_marker :: "string \<Rightarrow> command_variant \<Rightarrow> bool" where
  "is_patch_marker p (SetPatchMarker q d) = (q = p)"
| "is_patch_marker p _ = False"

definition patch_markers :: "string \<Rightarrow> wf_command list \<Rightarrow> nat" where
  "patch_markers p cs = length (filter (\<lambda>c. is_patch_marker p (variant c)) cs)"

lemma patch_markers_append [simp]: "patch_markers p (xs @ ys) = patch_markers p xs + patch_markers p ys"
  by (simp add: patch_markers_def)

lemma patch_markers_simps [simp]:
  "patch_markers p [] = 0"
  "patch_markers p [c] = (if is_patch_marker p (variant c) then 1 else 0)"
  by (simp_all add: patch_markers_def)

definition patch_inv :: "string \<Rightarrow> activator \<times> wf_command list \<Rightarrow> bool" where
  "patch_inv p x \<longleftrightarrow> patch_markers p (snd x @ commands (fst x)) \<le> (if p \<in> set (sentPatches (fst x)) then 1 else 0)"

lemma patch_step_inv: "patch_inv p x \<Longrightarrow> patch_inv p (patch_step dpc op x)"
proof (cases x; cases op)
  fix s out q d g st
  assume "patch_inv p x" "x = (s, out)" "op = PatchCall q d g st"
  then show ?thesis
    by (auto simp: patch_inv_def patchInternal_def Let_def split: if_splits option.splits sum.splits)
next
  fix s out q
  assume "patch_inv p x" "x = (s, out)" "op = PatchNotify q"
  then show ?thesis
    by (auto simp: patch_inv_def notifyHasPatch_def split: option.splits if_splits)
qed (auto simp: patch_inv_def concludeActivation_def split: if_splits)

lemma patch_run_inv: "patch_inv p x \<Longrightarrow> patch_inv p (patch_run dpc ops x)"
  unfolding patch_run_def by (induction ops arbitrary: x) (simp_all add: patch_step_inv)

text \<open>
  C24: over any sequence of calls to \<^verbatim>\<open>patched\<close> and \<^verbatim>\<open>deprecatePatch\<close>, patch notifications, changes
  between replay and live execution and completed activations, at most one marker is emitted for
  each patch id.
\<close>

theorem patch_marker_once:
  assumes "commands s = []" and "sentPatches s = []"
    and "patch_run dpc ops (s, []) = (s', out)"
  shows "patch_markers p (out @ commands s') \<le> 1"
proof -
  have "patch_inv p (patch_run dpc ops (s, []))"
    using assms by (intro patch_run_inv) (simp add: patch_inv_def)
  then show ?thesis
    using assms(3) by (auto simp: patch_inv_def split: if_splits)
qed

theorem patch_marker_once_witness:
  "patch_markers ''p'' (snd (patch_run string_converter
       [PatchCall ''p'' False None None, PatchConclude, PatchCall ''p'' True None None]
       (example_activator\<lparr>workflow := Some 5\<rparr>, []))
     @ commands (fst (patch_run string_converter
       [PatchCall ''p'' False None None, PatchConclude, PatchCall ''p'' True None None]
       (example_activator\<lparr>workflow := Some 5\<rparr>, [])))) \<le> 1"
  by (rule patch_marker_once [where s = "example_activator\<lparr>workflow := Some 5\<rparr>"])
     (simp_all add: example_defs)

section \<open>Flags\<close>

lemma hasFlag_known: "flag_id f \<in> set (knownFlags s) \<Longrightarrow> hasFlag f s = (True, s)"
  by (simp add: hasFlag_def)

lemma addKnownFlags_ok:
  "\<forall>f \<in> set fs. assertValidFlag f = Inr () \<Longrightarrow>
     \<exists>s'. addKnownFlags fs s = (s', Inr ()) \<and> set (knownFlags s') = set (knownFlags s) \<union> set fs"
proof (induction fs arbitrary: s)
  case (Cons f fs)
  then obtain s' where
    "addKnownFlags fs (s\<lparr>knownFlags := set_add (knownFlags s) f\<rparr>) = (s', Inr ())"
    "set (knownFlags s') = insert f (set (knownFlags s)) \<union> set fs"
    by fastforce
  then show ?case using Cons.prems by auto
qed simp

text \<open>
  C25: a flag that was reported as enabled during live execution is among the flags the activation
  reports as used, and replaying with these flags enables it again, whatever the replaying worker's
  own state is.
\<close>

theorem hasFlag_replay:
  assumes "hasFlag f s = (True, s')" and "\<not> isReplaying (info s)"
    and "\<forall>i \<in> set (knownFlags s'). assertValidFlag i = Inr ()"
  shows "flag_id f \<in> set (usedInternalFlags (fst (concludeActivation s'))) \<and>
     (\<exists>r'. addKnownFlags (usedInternalFlags (fst (concludeActivation s'))) r = (r', Inr ()) \<and>
           hasFlag f r' = (True, r'))"
proof -
  have used: "flag_id f \<in> set (knownFlags s')"
    using assms(1,2) by (auto simp: hasFlag_def split: if_splits)
  obtain r' where r': "addKnownFlags (knownFlags s') r = (r', Inr ())"
    and "set (knownFlags r') = set (knownFlags r) \<union> set (knownFlags s')"
    using addKnownFlags_ok [OF assms(3)] by blast
  then show ?thesis
    using used by (auto simp: concludeActivation_def hasFlag_known)
qed

theorem hasFlag_replay_witness:
  "2 \<in> set (usedInternalFlags (fst (concludeActivation
       (example_activator\<lparr>knownFlags := [2]\<rparr>)))) \<and>
   (\<exists>r'. addKnownFlags (usedInternalFlags (fst (concludeActivation
       (example_activator\<lparr>knownFlags := [2]\<rparr>)))) example_activator = (r', Inr ()) \<and>
     hasFlag ProcessWorkflowActivationJobsAsSingleBatch r' = (True, r'))"
proof -
  have "hasFlag ProcessWorkflowActivationJobsAsSingleBatch example_activator =
      (True, example_activator\<lparr>knownFlags := [2]\<rparr>)" "\<not> isReplaying (info example_activator)"
    by (simp_all add: hasFlag_def sdk_flag_defs example_defs set_add_def)
  from hasFlag_replay [OF this, of example_activator] show ?thesis
    by (simp add: sdk_flag_defs assertValidFlag_iff)
qed

section \<open>Failures\<close>

text \<open>
  What a failure of the workflow function or of a handler turns into: a command that ends the
  workflow, an error of the converter, or a recorded task error.
\<close>

lemma handleWorkflowFailure_temporal:
  assumes "is_TemporalFailure e \<or> isConfiguredFailureException s e"
    and "\<not> (cancelled s \<and> isCancellation e)" and "\<And>c m. e \<noteq> ContinueAsNew c m"
    and "fc_errorToFailure (failureConverter s) (ensureTemporalFailure e) (payloadConverter s)
       (Some (resultSerializationContext s)) = Inr f"
  shows "handleWorkflowFailure e s =
     (pushCommand (plain_command (FailWorkflowExecution f)) True
       (s\<lparr>inProgressSignals := [], inProgressUpdates := []\<rparr>), Inr ())"
proof -
  have ctx: "resultSerializationContext (s\<lparr>inProgressSignals := [], inProgressUpdates := []\<rparr>) =
      resultSerializationContext s"
    by (simp add: resultSerializationContext_def workflowSerializationContext_def split: option.splits)
  show ?thesis
    using assms by (cases e) (auto simp: handleWorkflowFailure_def eff_defs errorToFailure_def ctx)
qed

lemma handleWorkflowFailure_other:
  assumes "\<not> is_TemporalFailure e" "\<not> isConfiguredFailureException s e" "\<And>c m. e \<noteq> ContinueAsNew c m"
  shows "handleWorkflowFailure e s = recordWorkflowTaskError e s"
proof -
  have "\<not> isCancellation e" using assms(1) by (cases e) auto
  then show ?thesis using assms by (cases e) (auto simp: handleWorkflowFailure_def)
qed

text \<open>
  a workflow that fails with a falsy value that is no \<open>Error\<close> (\<^verbatim>\<open>throw undefined\<close>, \<open>null\<close>, \<open>0\<close>,
  the empty string or \<open>false\<close>) and no configured failure type is lost: no command is emitted, the
  workflow is not completed, and the check that rethrows captured errors lets the activation go on
  as if nothing had happened.
\<close>

theorem falsy_failure_is_lost:
  assumes "\<not> truthy v" and "workflowTaskError s = None"
    and "\<not> isConfiguredFailureException s (ThrownValue v)"
    and "handleWorkflowFailure (ThrownValue v) s = (s', r)"
  shows "r = Inr () \<and> commands s' = commands s \<and> completed s' = completed s \<and>
     maybeRethrowWorkflowTaskError s' = (s', Inr ())"
proof -
  have "handleWorkflowFailure (ThrownValue v) s = recordWorkflowTaskError (ThrownValue v) s"
    using assms(3) by (intro handleWorkflowFailure_other) auto
  then show ?thesis
    using assms by (auto simp: recordWorkflowTaskError_def maybeRethrowWorkflowTaskError_def Let_def
        split: if_splits)
qed

text \<open>Only the first task error is kept, and an error that is an object is rethrown at the next check.\<close>

lemma recordWorkflowTaskError_first:
  "workflowTaskError s = Some e0 \<Longrightarrow> workflowTaskError (fst (recordWorkflowTaskError e s)) = Some e0"
  by (auto simp: recordWorkflowTaskError_def maybeRethrowWorkflowTaskError_def Let_def split: option.splits)

lemma recordWorkflowTaskError_rethrown:
  assumes "err_truthy e" "workflowTaskError s = None"
  shows "snd (maybeRethrowWorkflowTaskError (fst (recordWorkflowTaskError e s))) = Inl e"
  using assms by (auto simp: recordWorkflowTaskError_def maybeRethrowWorkflowTaskError_def Let_def)

theorem falsy_failure_is_lost_witness:
  "handleWorkflowFailure (ThrownValue Null) example_activator =
     (example_activator\<lparr>workflowTaskError := Some (ThrownValue Null)\<rparr>, Inr ()) \<and>
   completed (example_activator\<lparr>workflowTaskError := Some (ThrownValue Null)\<rparr>) = False \<and>
   maybeRethrowWorkflowTaskError (example_activator\<lparr>workflowTaskError := Some (ThrownValue Null)\<rparr>) =
     (example_activator\<lparr>workflowTaskError := Some (ThrownValue Null)\<rparr>, Inr ())"
proof -
  have ok: "\<not> isConfiguredFailureException example_activator (ThrownValue Null)"
    by (simp add: isConfiguredFailureException_def example_defs)
  have h: "handleWorkflowFailure (ThrownValue Null) example_activator =
     (example_activator\<lparr>workflowTaskError := Some (ThrownValue Null)\<rparr>, Inr ())"
    using ok by (simp add: handleWorkflowFailure_def recordWorkflowTaskError_def example_defs)
  show ?thesis
    using h falsy_failure_is_lost [OF _ _ ok h] by (simp add: example_defs)
qed

end
