(* ===== verification/CancellationScopes.thy ===== *)
theory CancellationScopes
  imports ActivatorCore
begin

text \<open>
  \<^verbatim>\<open>packages/workflow/src/cancellation-scope.ts\<close> and \<^verbatim>\<open>trigger.ts\<close>: the tree of cancellation scopes of a
  workflow execution. A scope is its index in \<open>scopes\<close>; scope \<open>0\<close> is the root scope. The scope that
  is current, which the source keeps in an \<open>AsyncLocalStorage\<close>, is an argument.

  Cancellation reaches the scopes below a cancelled one through microtasks, so it is delayed and
  interleaved with everything else the workflow does. The theorems at the end describe what holds
  once the microtask queue is empty.
\<close>

section \<open>Scopes\<close>

datatype scope_parent = NoParent | ParentScope nat | CurrentScope

definition scope_at :: "activator \<Rightarrow> nat \<Rightarrow> cscope" where
  "scope_at s i = scopes s ! i"

definition consideredCancelled :: "activator \<Rightarrow> nat \<Rightarrow> bool" where
  "consideredCancelled s i \<longleftrightarrow> sc_cancelRequested (scope_at s i) \<and> sc_cancellable (scope_at s i)"

definition scope_reject :: "nat \<Rightarrow> js_error \<Rightarrow> activator \<Rightarrow> activator" where
  "scope_reject i err s =
     reject_promise (sc_promise (scope_at s i)) err
       (s\<lparr>scopes := (scopes s)[i := (scope_at s i)\<lparr>sc_cancelRequested := True\<rparr>]\<rparr>)"

definition cancel_scope :: "nat \<Rightarrow> activator \<Rightarrow> activator" where
  "cancel_scope i s = scope_reject i
     (cancelled_failure (if i = 0 then ''Workflow cancelled'' else ''Cancellation scope cancelled'')) s"

text \<open>
  The constructor. \<open>inherits\<close> is the condition under which a scope takes over the state of its parent
  and reacts to its cancellation unconditionally; the flag is looked up, and so recorded as used, only
  when the parent is a cancelled non-cancellable scope.
\<close>

definition inherits_cancellation :: "nat \<Rightarrow> activator \<Rightarrow> bool \<times> activator" where
  "inherits_cancellation j s =
     (if sc_cancellable (scope_at s j) then (True, s)
      else if sc_cancelRequested (scope_at s j)
      then (case hasFlag NonCancellableScopesAreShieldedFromPropagation s of (b, s') \<Rightarrow> (\<not> b, s'))
      else (False, s))"

definition parent_of :: "scope_parent \<Rightarrow> nat \<Rightarrow> nat option" where
  "parent_of parent current = (case parent of
     NoParent \<Rightarrow> None | ParentScope j \<Rightarrow> Some j | CurrentScope \<Rightarrow> Some current)"

definition add_scope :: "jsnum option \<Rightarrow> bool \<Rightarrow> nat option \<Rightarrow> activator \<Rightarrow> nat \<times> activator" where
  "add_scope timeout canc parent s =
     (let i = length (scopes s);
          (p, s1) = fresh_promise s;
          s2 = snd (react_to p Swallow s1)
      in case parent of
           None \<Rightarrow> (i, s2\<lparr>scopes := scopes s2 @ [\<lparr>sc_cancellable = canc, sc_cancelRequested = False,
                        sc_promise = p, sc_parent = None, sc_timeout = timeout\<rparr>]\<rparr>)
         | Some j \<Rightarrow>
             let (inh, s3) = inherits_cancellation j s2;
                 s4 = snd (react_to (sc_promise (scope_at s3 j))
                        (if inh then PropagateCancel i else PropagateCancelUnlessShielded i) s3)
             in (i, s4\<lparr>scopes := scopes s4 @ [\<lparr>sc_cancellable = canc,
                        sc_cancelRequested = (inh \<and> sc_cancelRequested (scope_at s4 j)),
                        sc_promise = p, sc_parent = Some j, sc_timeout = timeout\<rparr>]\<rparr>))"

definition new_scope ::
  "(string \<Rightarrow> rat option) \<Rightarrow> duration option \<Rightarrow> bool option \<Rightarrow> scope_parent \<Rightarrow> nat \<Rightarrow> nat act" where
  "new_scope ms timeout cancellable parent current s =
     (case msOptionalToNumber ms timeout of
        Inl e \<Rightarrow> (s, Inl e)
      | Inr t \<Rightarrow>
          let (i, s') = add_scope t (case cancellable of None \<Rightarrow> True | Some b \<Rightarrow> b)
                          (parent_of parent current) s
          in (s', Inr i))"

text \<open>The handlers the constructor attaches to the promise of the parent.\<close>

fun scope_react :: "react \<Rightarrow> outcome \<Rightarrow> activator \<Rightarrow> activator \<times> outcome" where
  "scope_react (PropagateCancel i) (Inl err) s = (scope_reject i err s, Inr Undefined)"
| "scope_react (PropagateCancelUnlessShielded i) (Inl err) s =
     (case hasFlag NonCancellableScopesAreShieldedFromPropagation s of
        (b, s') \<Rightarrow> (if b then s' else scope_reject i err s', Inr Undefined))"
| "scope_react h r s = (s, r)"

definition new_trigger :: "nat \<Rightarrow> activator \<Rightarrow> nat \<times> activator" where
  "new_trigger current s =
     (let (p, s1) = fresh_promise s;
          s2 = (if sc_cancellable (scope_at s1 current)
                then snd (react_to (sc_promise (scope_at s1 current)) (RejectPromise p) s1) else s1)
      in (p, snd (react_to p Swallow s2)))"

section \<open>The scope machine\<close>

fun propagates :: "react \<Rightarrow> bool" where
  "propagates (PropagateCancel i) = True"
| "propagates (PropagateCancelUnlessShielded i) = True"
| "propagates _ = False"

definition scope_promises :: "activator \<Rightarrow> nat set" where
  "scope_promises s = sc_promise ` set (scopes s)"

definition run_scope_microtask :: "activator \<Rightarrow> activator" where
  "run_scope_microtask s = (case microtasks (rt s) of
     [] \<Rightarrow> s
   | (h, d, v) # ms \<Rightarrow>
       case scope_react h v (s\<lparr>rt := (rt s)\<lparr>microtasks := ms\<rparr>\<rparr>) of (s', r) \<Rightarrow> upd_rt (settle d r) s')"

text \<open>
  What everything else the workflow does respects: scopes change through their own operations only,
  nobody else settles the promise of a scope, and the reactions of scopes are neither added nor
  removed, on a promise or in the queue.
\<close>

definition scope_frame :: "activator \<Rightarrow> activator \<Rightarrow> bool" where
  "scope_frame s t \<longleftrightarrow>
     scopes t = scopes s \<and> length (cells (rt s)) \<le> length (cells (rt t)) \<and>
     (\<forall>p \<in> scope_promises s. promise_state (rt t) p = promise_state (rt s) p) \<and>
     (\<forall>p h d. propagates h \<longrightarrow>
        ((h, d) \<in> set (reactions_at (rt t) p) \<longleftrightarrow> (h, d) \<in> set (reactions_at (rt s) p))) \<and>
     (\<forall>h d v. propagates h \<longrightarrow> ((h, d, v) \<in> set (microtasks (rt t)) \<longleftrightarrow> (h, d, v) \<in> set (microtasks (rt s))))"

datatype scope_label = CreateL | CancelL nat | DeliverL | OtherL

inductive scope_step :: "scope_label \<Rightarrow> activator \<Rightarrow> activator \<Rightarrow> bool" where
  create: "j < length (scopes s) \<Longrightarrow> scope_step CreateL s (snd (add_scope t c (Some j) s))"
| cancel: "i < length (scopes s) \<Longrightarrow> scope_step (CancelL i) s (cancel_scope i s)"
| deliver: "microtasks (rt s) = (h, d, v) # ms \<Longrightarrow> propagates h \<Longrightarrow>
    scope_step DeliverL s (run_scope_microtask s)"
| other: "scope_frame s t \<Longrightarrow> set (knownFlags s) \<subseteq> set (knownFlags t) \<Longrightarrow> scope_step OtherL s t"

definition scope_moves :: "activator \<Rightarrow> activator \<Rightarrow> bool" where
  "scope_moves s t \<longleftrightarrow> (\<exists>l. scope_step l s t)"

definition scope_moves_but :: "nat \<Rightarrow> activator \<Rightarrow> activator \<Rightarrow> bool" where
  "scope_moves_but i s t \<longleftrightarrow> (\<exists>l. l \<noteq> CancelL i \<and> scope_step l s t)"

definition scope_start :: "activator \<Rightarrow> bool" where
  "scope_start s \<longleftrightarrow> (\<exists>dpc dfc i seed an ft cb time. s = new_activator dpc dfc i seed an ft cb time)"

section \<open>The invariant of scopes\<close>

abbreviation promise_at :: "activator \<Rightarrow> nat \<Rightarrow> nat" where
  "promise_at s i \<equiv> sc_promise (scope_at s i)"

abbreviation pstate_at :: "activator \<Rightarrow> nat \<Rightarrow> outcome pstate" where
  "pstate_at s i \<equiv> promise_state (rt s) (promise_at s i)"

fun target :: "react \<Rightarrow> nat" where
  "target (PropagateCancel i) = i"
| "target (PropagateCancelUnlessShielded i) = i"
| "target _ = 0"

text \<open>
  \<open>linked s i j\<close>: the cancellation of scope \<open>j\<close> will reach scope \<open>i\<close>: the reaction waits on the promise
  of \<open>j\<close>, or is queued, or has run.
\<close>

definition linked :: "activator \<Rightarrow> nat \<Rightarrow> nat \<Rightarrow> bool" where
  "linked s i j \<longleftrightarrow> (if pstate_at s j = Pending
     then \<exists>d. (PropagateCancel i, d) \<in> set (reactions_at (rt s) (promise_at s j))
     else (\<exists>d e. (PropagateCancel i, d, Inl e) \<in> set (microtasks (rt s))) \<or> pstate_at s i \<noteq> Pending)"

definition scopes_wf :: "activator \<Rightarrow> bool" where
  "scopes_wf s \<longleftrightarrow>
     distinct (map sc_promise (scopes s)) \<and>
     (\<forall>p \<in> scope_promises s. p < length (cells (rt s))) \<and>
     (\<forall>i < length (scopes s). \<forall>j. sc_parent (scope_at s i) = Some j \<longrightarrow> j < i) \<and>
     (\<forall>p h d. propagates h \<longrightarrow> (h, d) \<in> set (reactions_at (rt s) p) \<longrightarrow>
        p \<in> scope_promises s \<and> d \<notin> scope_promises s \<and> d < length (cells (rt s)) \<and> target h < length (scopes s)) \<and>
     (\<forall>h d v. propagates h \<longrightarrow> (h, d, v) \<in> set (microtasks (rt s)) \<longrightarrow>
        d \<notin> scope_promises s \<and> d < length (cells (rt s)) \<and> target h < length (scopes s))"

definition scope_inv :: "activator \<Rightarrow> bool" where
  "scope_inv s \<longleftrightarrow> scopes_wf s \<and>
     (\<forall>i < length (scopes s). \<forall>v. pstate_at s i = Settled v \<longrightarrow>
        sc_cancelRequested (scope_at s i) \<and> (\<exists>e. v = Inl e)) \<and>
     (\<forall>i < length (scopes s). \<forall>j. sc_parent (scope_at s i) = Some j \<longrightarrow> sc_cancellable (scope_at s j) \<longrightarrow>
        linked s i j) \<and>
     (\<forall>i < length (scopes s). sc_cancelRequested (scope_at s i) \<longrightarrow> pstate_at s i \<noteq> Pending \<or>
        (\<exists>j. sc_parent (scope_at s i) = Some j \<and> sc_cancelRequested (scope_at s j) \<and> linked s i j))"

lemma scopes_wfI:
  assumes "distinct (map sc_promise (scopes s))"
    and "\<And>p. p \<in> scope_promises s \<Longrightarrow> p < length (cells (rt s))"
    and "\<And>i j. i < length (scopes s) \<Longrightarrow> sc_parent (scope_at s i) = Some j \<Longrightarrow> j < i"
    and "\<And>p h d. propagates h \<Longrightarrow> (h, d) \<in> set (reactions_at (rt s) p) \<Longrightarrow>
        p \<in> scope_promises s \<and> d \<notin> scope_promises s \<and> d < length (cells (rt s)) \<and> target h < length (scopes s)"
    and "\<And>h d v. propagates h \<Longrightarrow> (h, d, v) \<in> set (microtasks (rt s)) \<Longrightarrow>
        d \<notin> scope_promises s \<and> d < length (cells (rt s)) \<and> target h < length (scopes s)"
  shows "scopes_wf s"
  unfolding scopes_wf_def using assms by metis

lemma scopes_wfD:
  assumes "scopes_wf s"
  shows "distinct (map sc_promise (scopes s))"
    and "p \<in> scope_promises s \<Longrightarrow> p < length (cells (rt s))"
    and "i < length (scopes s) \<Longrightarrow> sc_parent (scope_at s i) = Some j \<Longrightarrow> j < i"
    and "propagates h \<Longrightarrow> (h, d) \<in> set (reactions_at (rt s) p) \<Longrightarrow>
        p \<in> scope_promises s \<and> d \<notin> scope_promises s \<and> d < length (cells (rt s)) \<and> target h < length (scopes s)"
    and "propagates h \<Longrightarrow> (h, d, v) \<in> set (microtasks (rt s)) \<Longrightarrow>
        d \<notin> scope_promises s \<and> d < length (cells (rt s)) \<and> target h < length (scopes s)"
  using assms unfolding scopes_wf_def by metis+

lemma scope_invI:
  assumes "scopes_wf s"
    and "\<And>i v. i < length (scopes s) \<Longrightarrow> pstate_at s i = Settled v \<Longrightarrow>
        sc_cancelRequested (scope_at s i) \<and> (\<exists>e. v = Inl e)"
    and "\<And>i j. i < length (scopes s) \<Longrightarrow> sc_parent (scope_at s i) = Some j \<Longrightarrow> j < i \<Longrightarrow>
        sc_cancellable (scope_at s j) \<Longrightarrow> linked s i j"
    and "\<And>i. i < length (scopes s) \<Longrightarrow> sc_cancelRequested (scope_at s i) \<Longrightarrow> pstate_at s i = Pending \<Longrightarrow>
        \<exists>j. sc_parent (scope_at s i) = Some j \<and> sc_cancelRequested (scope_at s j) \<and> linked s i j"
  shows "scope_inv s"
  unfolding scope_inv_def using assms(1,2,4) assms(3) [OF _ _ scopes_wfD(3) [OF assms(1)]] by blast

lemma scope_invD:
  assumes "scope_inv s"
  shows "scopes_wf s"
    and "i < length (scopes s) \<Longrightarrow> pstate_at s i = Settled v \<Longrightarrow>
        sc_cancelRequested (scope_at s i) \<and> (\<exists>e. v = Inl e)"
    and "i < length (scopes s) \<Longrightarrow> sc_parent (scope_at s i) = Some j \<Longrightarrow>
        sc_cancellable (scope_at s j) \<Longrightarrow> linked s i j"
    and "i < length (scopes s) \<Longrightarrow> sc_cancelRequested (scope_at s i) \<Longrightarrow> pstate_at s i = Pending \<Longrightarrow>
        \<exists>j. sc_parent (scope_at s i) = Some j \<and> sc_cancelRequested (scope_at s j) \<and> linked s i j \<and> j < i"
  using assms scopes_wfD(3) unfolding scope_inv_def by blast+

lemma promise_at_mem [simp]: "i < length (scopes s) \<Longrightarrow> promise_at s i \<in> scope_promises s"
  by (simp add: scope_promises_def scope_at_def)

lemma promise_at_inj:
  "scopes_wf s \<Longrightarrow> i < length (scopes s) \<Longrightarrow> j < length (scopes s) \<Longrightarrow>
     promise_at s i = promise_at s j \<longleftrightarrow> i = j"
  by (auto simp: scopes_wf_def scope_at_def distinct_conv_nth)

lemma scope_frame_inv: "scope_inv s \<Longrightarrow> scope_frame s t \<Longrightarrow> scope_inv t"
proof -
  assume inv: "scope_inv s" and fr: "scope_frame s t"
  have sc: "scopes t = scopes s" "scope_promises t = scope_promises s"
    using fr by (simp_all add: scope_frame_def scope_promises_def)
  have at: "scope_at t = scope_at s" using sc(1) by (auto simp: scope_at_def)
  have ps: "pstate_at t i = pstate_at s i" if "i < length (scopes s)" for i
    using fr that at by (simp add: scope_frame_def)
  have lk: "linked t i j" if "linked s i j" "i < length (scopes s)" "j < length (scopes s)" for i j
    using that fr ps at by (simp add: linked_def scope_frame_def split: if_splits)
  have le: "length (cells (rt s)) \<le> length (cells (rt t))"
    and re: "propagates h \<Longrightarrow> (h, d) \<in> set (reactions_at (rt t) p) \<Longrightarrow> (h, d) \<in> set (reactions_at (rt s) p)"
    and mi: "propagates h \<Longrightarrow> (h, d, v) \<in> set (microtasks (rt t)) \<Longrightarrow> (h, d, v) \<in> set (microtasks (rt s))"
    for h d p v
    using fr by (simp_all add: scope_frame_def)
  note wf = scopes_wfD [OF scope_invD(1) [OF inv]]
  have wf_t: "scopes_wf t"
  proof (rule scopes_wfI)
    fix p h d
    assume "propagates h" "(h, d) \<in> set (reactions_at (rt t) p)"
    then show "p \<in> scope_promises t \<and> d \<notin> scope_promises t \<and> d < length (cells (rt t)) \<and> target h < length (scopes t)"
      using wf(4) [of h d p] re le by (simp add: sc)
  next
    fix h d v
    assume "propagates h" "(h, d, v) \<in> set (microtasks (rt t))"
    then show "d \<notin> scope_promises t \<and> d < length (cells (rt t)) \<and> target h < length (scopes t)"
      using wf(5) [of h d v] mi le by (simp add: sc)
  qed (use wf(1-3) le in \<open>auto simp: sc at intro: order_less_le_trans\<close>)
  show ?thesis
  proof (rule scope_invI [OF wf_t])
    fix i
    assume "i < length (scopes t)" "sc_cancelRequested (scope_at t i)" "pstate_at t i = Pending"
    then show "\<exists>j. sc_parent (scope_at t i) = Some j \<and> sc_cancelRequested (scope_at t j) \<and> linked t i j"
      using scope_invD(4) [OF inv, of i] ps [of i] lk by (auto simp: sc at)
  qed (use scope_invD(2,3) [OF inv] ps lk in \<open>auto simp: sc at\<close>)
qed

lemma hasFlag_frame [simp]:
  "scopes (snd (hasFlag f s)) = scopes s" "rt (snd (hasFlag f s)) = rt s"
  by (simp_all add: hasFlag_def)

lemma inherits_frame [simp]:
  "scopes (snd (inherits_cancellation j s)) = scopes s" "rt (snd (inherits_cancellation j s)) = rt s"
  by (auto simp: inherits_cancellation_def split: prod.splits dest: arg_cong [where f = snd])
    (metis hasFlag_frame snd_conv)+

lemma inherits_cancellable: "sc_cancellable (scope_at s j) \<Longrightarrow> fst (inherits_cancellation j s)"
  by (simp add: inherits_cancellation_def)

text \<open>What creating a scope does to the scopes, the promises and the queue.\<close>

lemma add_scope_effect:
  fixes s j c tm
  defines "t \<equiv> snd (add_scope tm c (Some j) s)" and "n \<equiv> length (cells (rt s))"
    and "i \<equiv> length (scopes s)"
  assumes j: "j < length (scopes s)" and wf: "scopes_wf s"
  obtains inh where "scopes t = scopes s @ [\<lparr>sc_cancellable = c,
        sc_cancelRequested = (inh \<and> sc_cancelRequested (scope_at s j)),
        sc_promise = n, sc_parent = Some j, sc_timeout = tm\<rparr>]"
    and "length (cells (rt t)) = n + 3"
    and "\<And>p. promise_state (rt t) p = promise_state (rt s) p"
    and "\<And>p. reactions_at (rt t) p = (if p = n then [(Swallow, Suc n)]
        else if p = promise_at s j \<and> pstate_at s j = Pending
        then reactions_at (rt s) p @ [(if inh then PropagateCancel i else PropagateCancelUnlessShielded i, n + 2)]
        else reactions_at (rt s) p)"
    and "microtasks (rt t) = microtasks (rt s) @ (case pstate_at s j of Pending \<Rightarrow> []
        | Settled v \<Rightarrow> [(if inh then PropagateCancel i else PropagateCancelUnlessShielded i, n + 2, v)])"
    and "sc_cancellable (scope_at s j) \<longrightarrow> inh"
    and "inh \<longrightarrow> sc_cancellable (scope_at s j) \<or> 1 \<notin> set (knownFlags s)"
proof -
  define s2 where "s2 = snd (react_to n Swallow (snd (fresh_promise s)))"
  define inh where "inh = fst (inherits_cancellation j s2)"
  have pj: "promise_at s j < n"
    using wf j by (simp add: scopes_wf_def n_def)
  define s3 where "s3 = snd (inherits_cancellation j s2)"
  have s3: "scopes s3 = scopes s" "length (cells (rt s3)) = n + 2"
    "promise_state (rt s3) p = promise_state (rt s) p"
    "reactions_at (rt s3) p = (if p = n then [(Swallow, Suc n)] else reactions_at (rt s) p)"
    "microtasks (rt s3) = microtasks (rt s)" for p
    by (auto simp: s3_def s2_def n_def reactions_at_then microtasks_then)
  have at: "scope_at s3 = scope_at s" "scope_at s2 = scope_at s"
    by (simp_all add: scope_at_def s3 s2_def fun_eq_iff)
  define s4 where "s4 = snd (react_to (promise_at s j)
     (if inh then PropagateCancel i else PropagateCancelUnlessShielded i) s3)"
  have s4: "scopes s4 = scopes s" "rt s4 = snd (then_react (promise_at s j)
     (if inh then PropagateCancel i else PropagateCancelUnlessShielded i) (rt s3))"
    by (simp_all add: s4_def s3)
  have at4: "scope_at s4 = scope_at s"
    by (simp add: scope_at_def s4 fun_eq_iff)
  have t: "t = s4\<lparr>scopes := scopes s4 @ [\<lparr>sc_cancellable = c,
        sc_cancelRequested = (inh \<and> sc_cancelRequested (scope_at s4 j)),
        sc_promise = n, sc_parent = Some j, sc_timeout = tm\<rparr>]\<rparr>"
    by (simp add: t_def add_scope_def split_beta Let_def n_def [symmetric] s2_def [symmetric]
        s3_def [symmetric] inh_def [symmetric] i_def [symmetric] at s4_def [symmetric] s4(1))
  have inh: "sc_cancellable (scope_at s j) \<longrightarrow> inh"
    by (simp add: inh_def at inherits_cancellable)
  have "knownFlags s2 = knownFlags s"
    by (simp add: s2_def promise_op_defs split_beta)
  then have inh': "inh \<longrightarrow> sc_cancellable (scope_at s j) \<or> 1 \<notin> set (knownFlags s)"
    by (auto simp: inh_def inherits_cancellation_def at hasFlag_def sdk_flag_defs split: if_splits)
  show thesis
    by (rule that [of inh])
       (use pj inh inh' in \<open>auto simp: t s4 s3 at4 reactions_at_then microtasks_then split: pstate.splits\<close>)
qed

lemma fst_add_scope: "fst (add_scope tm c p s) = length (scopes s)"
  by (auto simp: add_scope_def Let_def split_beta split: option.splits)

lemma create_inv:
  assumes inv: "scope_inv s" and j: "j < length (scopes s)"
  shows "scope_inv (snd (add_scope tm c (Some j) s))"
proof -
  define t where "t = snd (add_scope tm c (Some j) s)"
  define n where "n = length (cells (rt s))"
  define l where "l = length (scopes s)"
  note wf = scopes_wfD [OF scope_invD(1) [OF inv]]
  obtain inh where
    sc: "scopes t = scopes s @ [\<lparr>sc_cancellable = c,
        sc_cancelRequested = (inh \<and> sc_cancelRequested (scope_at s j)),
        sc_promise = n, sc_parent = Some j, sc_timeout = tm\<rparr>]"
    and len: "length (cells (rt t)) = n + 3"
    and st: "\<And>p. promise_state (rt t) p = promise_state (rt s) p"
    and re: "\<And>p. reactions_at (rt t) p = (if p = n then [(Swallow, Suc n)]
        else if p = promise_at s j \<and> pstate_at s j = Pending
        then reactions_at (rt s) p @ [(if inh then PropagateCancel l else PropagateCancelUnlessShielded l, n + 2)]
        else reactions_at (rt s) p)"
    and mi: "microtasks (rt t) = microtasks (rt s) @ (case pstate_at s j of Pending \<Rightarrow> []
        | Settled v \<Rightarrow> [(if inh then PropagateCancel l else PropagateCancelUnlessShielded l, n + 2, v)])"
    and inh: "sc_cancellable (scope_at s j) \<longrightarrow> inh"
    by (rule add_scope_effect [OF j scope_invD(1) [OF inv], of tm c, folded t_def n_def l_def]) (rule that)
  have old: "scope_at t k = scope_at s k" if "k < l" for k
    using that by (simp add: scope_at_def sc l_def nth_append)
  have new: "scope_at t l = \<lparr>sc_cancellable = c,
      sc_cancelRequested = (inh \<and> sc_cancelRequested (scope_at s j)),
      sc_promise = n, sc_parent = Some j, sc_timeout = tm\<rparr>"
    by (simp add: scope_at_def sc l_def)
  have pr: "scope_promises t = insert n (scope_promises s)"
    by (simp add: scope_promises_def sc)
  have below: "p < n" if "p \<in> scope_promises s" for p
    using that wf(2) by (simp add: n_def)
  have lk: "linked t i k" if "linked s i k" "i < l" "k < l" for i k
    using that old st below [of "promise_at s k"]
    by (fastforce simp: linked_def re mi l_def split: if_splits)
  have lk_new: "linked t l j" if inh
  proof (cases "pstate_at s j")
    case Pending
    then show ?thesis
      using that j below [of "promise_at s j"] by (auto simp: linked_def old st re l_def)
  next
    case (Settled v)
    then obtain e where "v = Inl e" using scope_invD(2) [OF inv j] by blast
    then show ?thesis
      using Settled that j by (auto simp: linked_def old st mi l_def)
  qed
  have "scopes_wf t"
  proof (rule scopes_wfI)
    show "distinct (map sc_promise (scopes t))"
      using wf(1) below by (auto simp: sc scope_promises_def)
    show "p < length (cells (rt t))" if "p \<in> scope_promises t" for p
      using that below by (fastforce simp: pr len)
    show "k < i" if "i < length (scopes t)" "sc_parent (scope_at t i) = Some k" for i k
      using that wf(3) [of i k] old [of i] new j by (cases "i = l") (auto simp: sc l_def less_Suc_eq)
    show "p \<in> scope_promises t \<and> d \<notin> scope_promises t \<and> d < length (cells (rt t)) \<and> target h < length (scopes t)"
      if "propagates h" "(h, d) \<in> set (reactions_at (rt t) p)" for p h d
      using that wf(4) [of h d p] j below
      by (fastforce simp: re pr len sc n_def [symmetric] l_def [symmetric] split: if_splits)
    show "d \<notin> scope_promises t \<and> d < length (cells (rt t)) \<and> target h < length (scopes t)"
      if "propagates h" "(h, d, v) \<in> set (microtasks (rt t))" for h d v
      using that wf(5) [of h d v] below
      by (fastforce simp: mi pr len sc n_def [symmetric] l_def [symmetric] split: pstate.splits if_splits)
  qed
  moreover have "pstate_at t l = Pending"
    by (simp add: new st n_def)
  moreover have "\<exists>k. sc_parent (scope_at t i) = Some k \<and> sc_cancelRequested (scope_at t k) \<and> linked t i k"
    if "i < l" "sc_cancelRequested (scope_at s i)" "pstate_at s i = Pending" for i
    using that scope_invD(4) [OF inv, of i] lk old by (metis l_def less_trans)
  ultimately have "scope_inv t"
    using scope_invD(2,3) [OF inv] old new lk lk_new inh j st
    by (intro scope_invI) (auto simp: sc less_Suc_eq l_def [symmetric])
  then show ?thesis by (simp add: t_def)
qed

lemma scope_reject_effect:
  fixes s i err
  defines "t \<equiv> scope_reject i err s"
  assumes i: "i < length (scopes s)" and wf: "scopes_wf s"
  shows "length (scopes t) = length (scopes s)" and "scope_promises t = scope_promises s"
    and "scope_at t k = (if k = i then (scope_at s i)\<lparr>sc_cancelRequested := True\<rparr> else scope_at s k)"
    and "length (cells (rt t)) = length (cells (rt s))"
    and "promise_state (rt t) p =
      (if p = promise_at s i \<and> pstate_at s i = Pending then Settled (Inl err) else promise_state (rt s) p)"
    and "reactions_at (rt t) p =
      (if p = promise_at s i \<and> pstate_at s i = Pending then [] else reactions_at (rt s) p)"
    and "microtasks (rt t) = microtasks (rt s) @ (if pstate_at s i = Pending
      then map (\<lambda>(h, d). (h, d, Inl err)) (reactions_at (rt s) (promise_at s i)) else [])"
proof -
  have "map sc_promise (scopes t) = map sc_promise (scopes s)"
    using i by (intro nth_equalityI)
      (auto simp: t_def scope_reject_def reject_promise_def scope_at_def nth_list_update)
  then show "scope_promises t = scope_promises s"
    unfolding scope_promises_def by (metis list.set_map)
  have "promise_at s i < length (cells (rt s))" using wf i by (simp add: scopes_wfD(2))
  then show "promise_state (rt t) p =
      (if p = promise_at s i \<and> pstate_at s i = Pending then Settled (Inl err) else promise_state (rt s) p)"
    "reactions_at (rt t) p =
      (if p = promise_at s i \<and> pstate_at s i = Pending then [] else reactions_at (rt s) p)"
    by (simp_all add: t_def scope_reject_def reject_promise_def promise_state_settle reactions_at_settle)
qed (use i in \<open>simp_all add: t_def scope_reject_def reject_promise_def scope_at_def nth_list_update
      microtasks_settle\<close>)

lemma scope_reject_inv:
  assumes inv: "scope_inv s" and i: "i < length (scopes s)"
  shows "scope_inv (scope_reject i err s)"
proof -
  define t where "t = scope_reject i err s"
  note wf0 = scope_invD(1) [OF inv]
  note wf = scopes_wfD [OF wf0]
  note eff = scope_reject_effect [OF i wf0, of err, folded t_def]
  have pr: "promise_at t k = promise_at s k" for k by (simp add: eff)
  have inj: "promise_at s k = promise_at s i \<longleftrightarrow> k = i" if "k < length (scopes s)" for k
    using promise_at_inj [OF wf0 that i] by simp
  have lk: "linked t k j" if "linked s k j" "k < length (scopes s)" "j < length (scopes s)" for k j
    using that inj [of k] inj [of j] by (fastforce simp: linked_def pr eff split: if_splits)
  have "scopes_wf t"
  proof (rule scopes_wfI)
    have "map sc_promise (scopes t) = map sc_promise (scopes s)"
      using pr eff(1) by (intro nth_equalityI) (auto simp: scope_at_def)
    then show "distinct (map sc_promise (scopes t))" using wf(1) by metis
    show "d \<notin> scope_promises t \<and> d < length (cells (rt t)) \<and> target h < length (scopes t)"
      if "propagates h" "(h, d, v) \<in> set (microtasks (rt t))" for h d v
      using that wf(5) [of h d v] wf(4) [of h d "promise_at s i"] by (auto simp: eff split: if_splits)
  qed (use wf(2-4) i in \<open>auto simp: eff split: if_splits\<close>)
  moreover have "\<exists>j. sc_parent (scope_at t k) = Some j \<and> sc_cancelRequested (scope_at t j) \<and> linked t k j"
    if "k < length (scopes s)" "sc_cancelRequested (scope_at t k)" "pstate_at t k = Pending" for k
  proof -
    have "k \<noteq> i" using that by (auto simp: eff split: if_splits)
    then show ?thesis
      using that scope_invD(4) [OF inv, of k] lk inj by (fastforce simp: eff pr)
  qed
  ultimately have "scope_inv t"
    using scope_invD(2,3) [OF inv] lk inj by (intro scope_invI) (auto simp: eff pr split: if_splits)
  then show ?thesis by (simp add: t_def)
qed

text \<open>A queued reaction may be dropped once its target has been cancelled.\<close>

definition pop_rt :: "activator \<Rightarrow> activator" where
  "pop_rt s = s\<lparr>rt := (rt s)\<lparr>microtasks := tl (microtasks (rt s))\<rparr>\<rparr>"

lemma pop_rt_simps [simp]:
  "scopes (pop_rt s) = scopes s" "cells (rt (pop_rt s)) = cells (rt s)" "scope_at (pop_rt s) = scope_at s"
  "promise_state (rt (pop_rt s)) = promise_state (rt s)" "reactions_at (rt (pop_rt s)) = reactions_at (rt s)"
  "microtasks (rt (pop_rt s)) = tl (microtasks (rt s))" "scope_promises (pop_rt s) = scope_promises s"
  by (simp_all add: pop_rt_def scope_at_def scope_promises_def fun_eq_iff)

lemma pop_inv:
  assumes inv: "scope_inv s" and hd: "microtasks (rt s) = (h, d, v) # ms"
    and reached: "\<And>i e. h = PropagateCancel i \<Longrightarrow> v = Inl e \<Longrightarrow> pstate_at s i \<noteq> Pending"
  shows "scope_inv (pop_rt s)"
proof -
  note wf = scopes_wfD [OF scope_invD(1) [OF inv]]
  have lk: "linked (pop_rt s) i j" if "linked s i j" for i j
    using that reached by (auto simp: linked_def hd split: if_splits)
  have q: "d' \<notin> scope_promises s \<and> d' < length (cells (rt s)) \<and> target h' < length (scopes s)"
    if "propagates h'" "(h', d', v') \<in> set ms" for h' d' v'
    using that wf(5) [of h' d' v'] by (simp add: hd)
  have "scopes_wf (pop_rt s)"
    by (rule scopes_wfI) (use wf(1-4) q in \<open>simp_all add: hd\<close>)
  then show ?thesis
    using scope_invD(2-4) [OF inv] lk by (intro scope_invI) (simp_all, blast)
qed

lemma settle_pop:
  "microtasks r = m # ms \<Longrightarrow>
     settle p v (r\<lparr>microtasks := ms\<rparr>) = (settle p v r)\<lparr>microtasks := tl (microtasks (settle p v r))\<rparr>"
  by (auto simp: settle_def split: pstate.splits)

lemma scope_reject_pop:
  "microtasks (rt s) = m # ms \<Longrightarrow> scope_reject i e (pop_rt s) = pop_rt (scope_reject i e s)"
  by (simp add: scope_reject_def reject_promise_def upd_rt_def pop_rt_def settle_pop scope_at_def)

lemma settle_other_frame:
  assumes "scopes_wf s" and "d \<notin> scope_promises s"
  shows "scope_frame s (upd_rt (settle d r) s)"
  using assms scopes_wfD(4) [OF assms(1), of _ _ d]
  by (auto simp: scope_frame_def promise_state_settle reactions_at_settle microtasks_settle
      scope_promises_def split: if_splits)

lemma flags_frame: "scope_inv s \<Longrightarrow> scopes t = scopes s \<Longrightarrow> rt t = rt s \<Longrightarrow> scope_inv t"
  by (erule scope_frame_inv) (simp add: scope_frame_def)

lemma deliver_inv:
  assumes inv: "scope_inv s" and hd: "microtasks (rt s) = (h, d, v) # ms" and h: "propagates h"
  shows "scope_inv (run_scope_microtask s)"
proof -
  have pop: "s\<lparr>rt := (rt s)\<lparr>microtasks := ms\<rparr>\<rparr> = pop_rt s" by (simp add: pop_rt_def hd)
  define s1 where "s1 = fst (scope_react h v (pop_rt s))"
  have d: "d \<notin> scope_promises s" "target h < length (scopes s)"
    using scopes_wfD(5) [OF scope_invD(1) [OF inv] h, of d v] hd by simp_all
  have rej: "scope_inv (pop_rt (scope_reject i e s))" if "target h = i" for i e
  proof -
    have i: "i < length (scopes s)" using d that by simp
    note eff = scope_reject_effect [OF i scope_invD(1) [OF inv], of e]
    obtain q where "microtasks (rt (scope_reject i e s)) = (h, d, v) # q"
      by (simp add: eff hd)
    then show ?thesis
      by (rule pop_inv [OF scope_reject_inv [OF inv i]]) (use that in \<open>auto simp: eff\<close>)
  qed
  have "scope_inv s1 \<and> scope_promises s1 = scope_promises s"
  proof (cases "\<exists>i. h = PropagateCancel i \<and> (\<exists>e. v = Inl e)")
    case True
    then obtain i e where "h = PropagateCancel i" "v = Inl e" by blast
    then show ?thesis
      using rej [of i e] d scope_reject_effect(2) [OF _ scope_invD(1) [OF inv], of i e]
      by (simp add: s1_def scope_reject_pop [OF hd])
  next
    case False
    then have popped: "scope_inv (pop_rt s)" by (intro pop_inv [OF inv hd]) auto
    show ?thesis
    proof (cases "\<exists>i. h = PropagateCancelUnlessShielded i \<and> (\<exists>e. v = Inl e)")
      case True
      then obtain i e where h: "h = PropagateCancelUnlessShielded i" "v = Inl e" by blast
      define s2 where "s2 = snd (hasFlag NonCancellableScopesAreShieldedFromPropagation (pop_rt s))"
      have s2: "scope_inv s2" "scopes s2 = scopes s" "rt s2 = rt (pop_rt s)"
        by (auto simp: s2_def intro: flags_frame [OF popped])
      then have "scope_inv (scope_reject i e s2)" "scope_promises (scope_reject i e s2) = scope_promises s2"
        using d h scope_reject_effect(2) [OF _ scope_invD(1)] by (auto intro: scope_reject_inv)
      then show ?thesis
        using s2 by (simp add: s1_def h s2_def [symmetric] scope_promises_def split_beta)
    next
      case False
      then have "s1 = pop_rt s"
        using h \<open>\<not> (\<exists>i. h = PropagateCancel i \<and> (\<exists>e. v = Inl e))\<close>
        unfolding s1_def by (cases h; cases v) auto
      then show ?thesis using popped by simp
    qed
  qed
  moreover have "run_scope_microtask s = upd_rt (settle d (snd (scope_react h v (pop_rt s)))) s1"
    by (simp add: run_scope_microtask_def hd pop s1_def split_beta)
  ultimately show ?thesis
    using d(1) by (auto intro: scope_frame_inv settle_other_frame dest: scope_invD(1))
qed

lemma start_inv: "scope_start s \<Longrightarrow> scope_inv s"
proof -
  assume "scope_start s"
  then have s: "scopes s = [\<lparr>sc_cancellable = True, sc_cancelRequested = False, sc_promise = 0,
        sc_parent = None, sc_timeout = None\<rparr>]"
    "rt s = snd (then_react 0 Swallow (snd (new_promise empty_runtime)))"
    by (auto simp: scope_start_def new_activator_def)
  have r: "promise_state (rt s) p = Pending" "microtasks (rt s) = []" "length (cells (rt s)) = 2"
    "reactions_at (rt s) p = (if p = 0 then [(Swallow, 1)] else [])" for p
    by (auto simp: s reactions_at_then microtasks_then)
  have "scopes_wf s"
    by (rule scopes_wfI) (auto simp: r s(1) scope_promises_def scope_at_def split: if_splits)
  then show ?thesis
    by (rule scope_invI) (auto simp: r s(1) scope_at_def)
qed

lemma step_inv: "scope_inv s \<Longrightarrow> scope_moves s t \<Longrightarrow> scope_inv t"
  unfolding scope_moves_def cancel_scope_def
  by (auto elim!: scope_step.cases
      simp: cancel_scope_def create_inv scope_reject_inv deliver_inv scope_frame_inv)

interpretation sm: machine scope_start scope_moves scope_inv
  by unfold_locales (fact start_inv, fact step_inv)

lemma quiet_settled:
  assumes inv: "scope_inv s" and quiet: "microtasks (rt s) = []"
  shows "i < length (scopes s) \<Longrightarrow> sc_cancelRequested (scope_at s i) \<Longrightarrow> pstate_at s i \<noteq> Pending"
proof (induction i rule: less_induct)
  case (less i)
  show ?case
  proof
    assume p: "pstate_at s i = Pending"
    then obtain j where j: "sc_cancelRequested (scope_at s j)" "linked s i j" "j < i"
      using scope_invD(4) [OF inv less.prems] by blast
    then have "pstate_at s j \<noteq> Pending" using less.IH [OF j(3)] less.prems by simp
    then show False using j(2) p quiet by (simp add: linked_def)
  qed
qed

text \<open>
  C2: cancellation propagates. Whenever the microtask queue is empty, every scope whose parent is a
  cancellable scope with a cancellation request has one too, and the promise of every scope with a
  cancellation request is rejected. This holds however the creation of scopes, explicit cancellations
  and the delivery of reactions are interleaved with each other and with the rest of the execution.
\<close>

theorem cancellation_propagates:
  assumes "scope_start s" and "scope_moves\<^sup>*\<^sup>* s t" and "microtasks (rt t) = []"
    and "i < length (scopes t)" and "sc_parent (scope_at t i) = Some j"
    and "consideredCancelled t j"
  shows "sc_cancelRequested (scope_at t i) \<and> (\<exists>e. promise_state (rt t) (sc_promise (scope_at t i)) = Settled (Inl e))"
proof -
  have inv: "scope_inv t" using assms(1,2) by (rule sm.inv_reachable)
  have "j < i" using scopes_wfD(3) [OF scope_invD(1) [OF inv] assms(4,5)] .
  then have "pstate_at t j \<noteq> Pending" "linked t i j"
    using assms(4-6) quiet_settled [OF inv assms(3), of j] scope_invD(3) [OF inv assms(4,5)]
    by (auto simp: consideredCancelled_def)
  then have "pstate_at t i \<noteq> Pending" by (simp add: linked_def assms(3))
  then obtain v where v: "pstate_at t i = Settled v" by (cases "pstate_at t i") simp_all
  then show ?thesis using scope_invD(2) [OF inv assms(4) v] by auto
qed

text \<open>Running the reaction that only keeps a rejection from being unhandled.\<close>

definition run_swallow :: "activator \<Rightarrow> activator" where
  "run_swallow s = (case microtasks (rt s) of
     (Swallow, d, v) # ms \<Rightarrow> upd_rt (settle d (Inr Undefined)) (pop_rt s) | _ \<Rightarrow> s)"

lemma run_swallow_moves:
  assumes "scopes_wf s" "microtasks (rt s) = (Swallow, d, v) # ms" "d \<notin> scope_promises s"
  shows "scope_moves s (run_swallow s)"
proof -
  have "scope_frame s (run_swallow s)"
    using assms scopes_wfD(4) [OF assms(1), of _ _ d]
    by (auto simp: run_swallow_def scope_frame_def promise_state_settle reactions_at_settle
        microtasks_settle split: if_splits)
  then show ?thesis
    using assms unfolding scope_moves_def
    by (intro exI [of _ OtherL] scope_step.other) (simp_all add: run_swallow_def upd_rt_def pop_rt_def)
qed

lemma scope_movesI: "scope_step l s t \<Longrightarrow> scope_moves s t"
  by (auto simp: scope_moves_def)

definition propagation_example :: activator where
  "propagation_example = run_swallow (run_scope_microtask (run_swallow
     (cancel_scope 0 (snd (add_scope None True (Some 0) example_activator)))))"

lemmas scope_example_defs = example_defs run_swallow_def run_scope_microtask_def add_scope_def
  inherits_cancellation_def promise_op_defs then_react_def new_promise_def empty_runtime_def
  scope_at_def cancel_scope_def scope_reject_def settle_def pop_rt_def scope_promises_def

lemma propagation_example_reached: "scope_moves\<^sup>*\<^sup>* example_activator propagation_example"
proof -
  define a where "a = snd (add_scope None True (Some 0) example_activator)"
  define b where "b = cancel_scope 0 a"
  define c where "c = run_swallow b"
  define d where "d = run_scope_microtask c"
  have start: "scope_start example_activator"
    unfolding scope_start_def example_activator_def by blast
  have ma: "scope_moves example_activator a"
    unfolding a_def by (rule scope_movesI, rule scope_step.create) (simp add: example_defs)
  have mb: "scope_moves a b"
    unfolding b_def by (rule scope_movesI, rule scope_step.cancel) (simp add: a_def scope_example_defs Let_def)
  have inv_b: "scope_inv b" using start_inv [OF start] ma mb by (blast intro: step_inv)
  have mc: "scope_moves b c"
    unfolding c_def
    by (rule run_swallow_moves [OF scope_invD(1) [OF inv_b]])
       (simp add: b_def a_def scope_example_defs, simp_all add: b_def a_def scope_example_defs)
  have md: "scope_moves c d"
    unfolding d_def by (rule scope_movesI, rule scope_step.deliver)
      (simp add: c_def b_def a_def scope_example_defs, simp)
  have inv_d: "scope_inv d" using inv_b mc md by (blast intro: step_inv)
  have "scope_moves d (run_swallow d)"
    by (rule run_swallow_moves [OF scope_invD(1) [OF inv_d]])
       (simp add: d_def c_def b_def a_def scope_example_defs, simp_all add: d_def c_def b_def a_def scope_example_defs)
  then show ?thesis
    using ma mb mc md unfolding propagation_example_def a_def b_def c_def d_def
    by (meson converse_rtranclp_into_rtranclp rtranclp.rtrancl_refl)
qed

theorem cancellation_propagates_witness:
  "sc_cancelRequested (scope_at propagation_example 1)"
proof -
  have "scope_start example_activator"
    unfolding scope_start_def example_activator_def by blast
  from cancellation_propagates [OF this propagation_example_reached, of 1 0] show ?thesis
    by (simp add: propagation_example_def consideredCancelled_def scope_example_defs)
qed

section \<open>Shielding\<close>

definition shielded :: "nat \<Rightarrow> activator \<Rightarrow> bool" where
  "shielded i s \<longleftrightarrow> i < length (scopes s) \<and> 1 \<in> set (knownFlags s) \<and> \<not> sc_cancelRequested (scope_at s i) \<and>
     (\<forall>p d. (PropagateCancel i, d) \<notin> set (reactions_at (rt s) p)) \<and>
     (\<forall>d v. (PropagateCancel i, d, v) \<notin> set (microtasks (rt s)))"

lemma hasFlag_shield:
  "1 \<in> set (knownFlags s) \<Longrightarrow> hasFlag NonCancellableScopesAreShieldedFromPropagation s = (True, s)"
  by (simp add: hasFlag_def sdk_flag_defs)

lemma shielded_reject:
  assumes "shielded i s" and "k \<noteq> i" "k < length (scopes s)" "scope_inv s"
  shows "shielded i (scope_reject k e s)"
proof -
  note eff = scope_reject_effect [OF assms(3) scope_invD(1) [OF assms(4)], of e]
  have "knownFlags (scope_reject k e s) = knownFlags s"
    by (simp add: scope_reject_def reject_promise_def upd_rt_def)
  then show ?thesis
    using assms by (auto simp: shielded_def eff split: if_splits)
qed

lemma shielded_pop: "shielded i s \<Longrightarrow> shielded i (pop_rt s)"
  by (cases "microtasks (rt s)") (auto simp: shielded_def pop_rt_def scope_at_def)

lemma shielded_settle:
  "shielded i s \<Longrightarrow> shielded i (upd_rt (settle d r) s)"
  by (auto simp: shielded_def upd_rt_def scope_at_def reactions_at_settle microtasks_settle split: if_splits)

lemma shielded_deliver:
  assumes sh: "shielded i s" and inv: "scope_inv s"
    and hd: "microtasks (rt s) = (h, d, v) # ms" and h: "propagates h"
  shows "shielded i (run_scope_microtask s)"
proof -
  have pop: "s\<lparr>rt := (rt s)\<lparr>microtasks := ms\<rparr>\<rparr> = pop_rt s" by (simp add: pop_rt_def hd)
  have sp: "shielded i (pop_rt s)" using sh by (rule shielded_pop)
  have "shielded i (fst (scope_react h v (pop_rt s)))"
  proof (cases "\<exists>k e. h = PropagateCancel k \<and> v = Inl e")
    case True
    then obtain k e where k: "h = PropagateCancel k" "v = Inl e" by blast
    then have "k \<noteq> i" "k < length (scopes s)"
      using sh hd scopes_wfD(5) [OF scope_invD(1) [OF inv] h, of d v] by (auto simp: shielded_def)
    then show ?thesis
      using k shielded_pop [OF shielded_reject [OF sh _ _ inv]] by (simp add: scope_reject_pop [OF hd])
  next
    case False
    then show ?thesis
      using h sp hasFlag_shield [of "pop_rt s"] by (cases h; cases v) (auto simp: shielded_def)
  qed
  then show ?thesis
    by (simp add: run_scope_microtask_def hd pop split_beta shielded_settle)
qed

lemma add_scope_flags: "set (knownFlags s) \<subseteq> set (knownFlags (snd (add_scope tm c p s)))"
  by (auto simp: add_scope_def inherits_cancellation_def promise_op_defs hasFlag_def Let_def split_beta
      split: option.splits)

lemma shielded_create:
  assumes sh: "shielded i s" and inv: "scope_inv s" and j: "j < length (scopes s)"
  shows "shielded i (snd (add_scope tm c (Some j) s))"
proof -
  have i: "i < length (scopes s)" using sh by (simp add: shielded_def)
  have "1 \<in> set (knownFlags (snd (add_scope tm c (Some j) s)))"
    using sh add_scope_flags [of s tm c "Some j"] by (auto simp: shielded_def)
  then have flag: "Suc 0 \<in> set (knownFlags (snd (add_scope tm c (Some j) s)))" by simp
  show ?thesis
    by (rule add_scope_effect [OF j scope_invD(1) [OF inv], of tm c])
       (use sh i flag in \<open>auto simp: shielded_def scope_at_def nth_append split: if_splits pstate.splits\<close>)
qed

lemma shielded_step:
  assumes "scope_inv s" and "shielded i s" and "scope_moves_but i s t"
  shows "shielded i t"
proof -
  obtain l where l: "l \<noteq> CancelL i" "scope_step l s t"
    using assms(3) by (auto simp: scope_moves_but_def)
  from l(2) show ?thesis
  proof cases
    case other
    then show ?thesis
      using assms(2) by (auto simp: shielded_def scope_frame_def scope_at_def)
  qed (use assms l in \<open>auto simp: cancel_scope_def shielded_reject shielded_deliver shielded_create\<close>)
qed

interpretation shield: machine
  "\<lambda>s. scope_inv s \<and> shielded i s" "scope_moves_but i" "\<lambda>s. scope_inv s \<and> shielded i s" for i
proof (unfold_locales, assumption)
  fix s t
  assume *: "scope_inv s \<and> shielded i s" "scope_moves_but i s t"
  then have "scope_moves s t" by (auto simp: scope_moves_def scope_moves_but_def)
  with * show "scope_inv t \<and> shielded i t" by (blast intro: shielded_step step_inv)
qed

text \<open>
  C3: once the shielding flag is in use, a scope created inside a non-cancellable scope is shielded:
  whatever is cancelled around it, also the whole workflow, it has no cancellation request unless
  it is cancelled itself.
\<close>

theorem non_cancellable_shields:
  assumes "scope_start s\<^sub>0" and "scope_moves\<^sup>*\<^sup>* s\<^sub>0 s" and "1 \<in> set (knownFlags s)"
    and "j < length (scopes s)" and "\<not> sc_cancellable (scope_at s j)"
    and "add_scope timeout canc (Some j) s = (i, s')"
    and "(scope_moves_but i)\<^sup>*\<^sup>* s' t"
  shows "\<not> sc_cancelRequested (scope_at t i)"
proof -
  have inv: "scope_inv s" using assms(1,2) by (rule sm.inv_reachable)
  have wf: "scopes_wf s" using inv by (rule scope_invD)
  have i: "i = length (scopes s)" and s': "s' = snd (add_scope timeout canc (Some j) s)"
    using assms(6) fst_add_scope [of timeout canc "Some j" s] by simp_all
  have fresh: "(PropagateCancel i, d) \<notin> set (reactions_at (rt s) p)"
    "(PropagateCancel i, d, v) \<notin> set (microtasks (rt s))" for p d v
    using scopes_wfD(4) [OF wf, of "PropagateCancel i" d p] scopes_wfD(5) [OF wf, of "PropagateCancel i" d v]
    by (auto simp: i)
  have flag: "1 \<in> set (knownFlags s')"
    using assms(3) add_scope_flags [of s timeout canc "Some j"] by (auto simp: s')
  have "shielded i s'"
    by (rule add_scope_effect [OF assms(4) wf, of timeout canc, folded s' i])
       (use fresh flag assms(3,5) in \<open>auto simp: shielded_def scope_at_def i split: if_splits pstate.splits\<close>)
  moreover have "scope_inv s'" using inv assms(4) by (simp add: s' create_inv)
  ultimately have "shielded i t" using shield.inv_steps [OF assms(7)] by blast
  then show ?thesis by (simp add: shielded_def)
qed

theorem non_cancellable_shields_witness:
  "\<not> sc_cancelRequested (scope_at (cancel_scope 0 (snd (add_scope None True (Some 1)
      (snd (add_scope None False (Some 0) (example_activator\<lparr>knownFlags := [1]\<rparr>)))))) 2)"
proof -
  define a where "a = example_activator\<lparr>knownFlags := [1]\<rparr>"
  define b where "b = snd (add_scope None False (Some 0) a)"
  define c where "c = snd (add_scope None True (Some 1) b)"
  have b_scopes: "length (scopes b) = 2" "\<not> sc_cancellable (scope_at b 1)" "1 \<in> set (knownFlags b)"
    by (simp_all add: b_def a_def scope_example_defs)
  have start: "scope_start example_activator"
    unfolding scope_start_def example_activator_def by blast
  have "scope_moves example_activator a"
    by (rule scope_movesI, rule scope_step.other)
       (simp_all add: a_def scope_frame_def scope_promises_def, simp add: example_defs)
  moreover have "scope_moves a b"
    unfolding b_def by (rule scope_movesI, rule scope_step.create) (simp add: a_def example_defs)
  ultimately have reach: "scope_moves\<^sup>*\<^sup>* example_activator b" by simp
  have c: "add_scope None True (Some 1) b = (2, c)"
    using fst_add_scope [of None True "Some 1" b] b_scopes(1) by (simp add: c_def prod_eq_iff)
  have "0 < length (scopes c)"
    by (rule add_scope_effect [of 1 b None True, folded c_def])
       (use b_scopes start_inv [OF start] reach in \<open>auto dest: sm.inv_steps scope_invD(1)\<close>)
  then have "scope_moves_but 2 c (cancel_scope 0 c)"
    unfolding scope_moves_but_def by (intro exI [of _ "CancelL 0"] conjI scope_step.cancel) simp_all
  then have "(scope_moves_but 2)\<^sup>*\<^sup>* c (cancel_scope 0 c)" by (rule r_into_rtranclp)
  from non_cancellable_shields [OF start reach b_scopes(3) _ b_scopes(2) c this] b_scopes(1)
  show ?thesis unfolding c_def b_def a_def by simp
qed

end
