(* ===== verification/ActivatorResolve.thy ===== *)
theory ActivatorResolve
  imports CancellationScopes
begin

text \<open>
  The activation jobs that resolve pending work of a workflow: timers, activities, child workflows,
  Nexus operations, signals to and cancellations of other workflows, and the cancellation of the
  workflow itself (\<^verbatim>\<open>packages/workflow/src/internals.ts\<close>).
\<close>

section \<open>Jobs\<close>

text \<open>The variants of the result messages; a message can also carry none of its variants.\<close>

datatype activity_resolution =
    ActCompleted "payload option"
  | ActFailed "proto_failure option"
  | ActCancelled "proto_failure option"
  | ActBackoff do_backoff
  | ActNone

datatype child_start_resolution =
    ChildSucceeded "string option"
  | ChildStartFailed "string option" "string option" "int option"
  | ChildStartCancelled "proto_failure option"
  | ChildStartNone

datatype child_resolution =
    ChildCompleted "payload option"
  | ChildFailed "proto_failure option"
  | ChildCancelled "proto_failure option"
  | ChildNone

datatype nexus_resolution =
    NexusCompleted payload
  | NexusFailed proto_failure
  | NexusCancelled proto_failure
  | NexusTimedOut proto_failure
  | NexusNone

section \<open>The jobs\<close>

definition cancelWorkflow :: "activator \<Rightarrow> activator" where
  "cancelWorkflow s = cancel_scope 0 (s\<lparr>cancelled := True\<rparr>)"

definition fireTimer :: "nat option \<Rightarrow> unit act" where
  "fireTimer seq = eff_bind (eff_lift (getSeq seq)) (\<lambda>n s.
     case maybeConsumeCompletion TimerC n s of
       (None, s') \<Rightarrow> (s', Inr ())
     | (Some c, s') \<Rightarrow> (resolve_promise (c_promise c) Undefined s', Inr ()))"

text \<open>
  A completed operation without a payload resolves to \<open>undefined\<close>; a failure is converted with the
  context the completion was registered with.
\<close>

definition resolve_with_payload :: "completion \<Rightarrow> payload option \<Rightarrow> unit act" where
  "resolve_with_payload c p s =
     (case p of
        None \<Rightarrow> (resolve_promise (c_promise c) Undefined s, Inr ())
      | Some p \<Rightarrow>
          (case fromPayloadWithTypeInfo (payloadConverter s) p (c_context c) (c_outputTypeInfo c) of
             Inl e \<Rightarrow> (s, Inl e)
           | Inr v \<Rightarrow> (resolve_promise (c_promise c) v s, Inr ())))"

definition reject_with_failure :: "completion \<Rightarrow> proto_failure \<Rightarrow> unit act" where
  "reject_with_failure c f s =
     (case fc_failureToError (failureConverter s) f (payloadConverter s) (c_context c) of
        Inl e \<Rightarrow> (s, Inl e)
      | Inr err \<Rightarrow> (reject_promise (c_promise c) err s, Inr ()))"

definition reject_or_missing :: "string \<Rightarrow> completion \<Rightarrow> proto_failure option \<Rightarrow> unit act" where
  "reject_or_missing msg c f = (case f of
     None \<Rightarrow> eff_throw (TypeError msg)
   | Some f \<Rightarrow> reject_with_failure c f)"

fun settle_activity :: "activity_resolution \<Rightarrow> completion \<Rightarrow> unit act" where
  "settle_activity (ActCompleted p) c = resolve_with_payload c p"
| "settle_activity (ActFailed f) c = reject_or_missing ''Got failed result with no failure attribute'' c f"
| "settle_activity (ActCancelled f) c = reject_or_missing ''Got cancelled result with no failure attribute'' c f"
| "settle_activity (ActBackoff b) c = eff_modify (reject_promise (c_promise c) (DoBackoff b))"
| "settle_activity ActNone c = eff_return ()"

definition resolveActivity :: "nat option \<Rightarrow> activity_resolution option \<Rightarrow> unit act" where
  "resolveActivity seq result = (case result of
     None \<Rightarrow> eff_throw (TypeError ''Got ResolveActivity activation with no result'')
   | Some r \<Rightarrow> eff_bind (eff_lift (getSeq seq)) (\<lambda>n.
       eff_bind (consumeCompletion ActivityC n) (settle_activity r)))"

definition invalid_override_message :: "string \<Rightarrow> string \<Rightarrow> string" where
  "invalid_override_message wid wtype = ''Invalid versioning override for Child Workflow '' @ [CHR 0x27] @ wid @
     [CHR 0x27] @ '' of type '' @ [CHR 0x27] @ wtype @ [CHR 0x27]"

text \<open>The error a failed start rejects with; \<open>ns\<close> is the namespace of the parent.\<close>

definition child_start_error :: "string \<Rightarrow> string \<Rightarrow> string \<Rightarrow> int option \<Rightarrow> js_error + js_error" where
  "child_start_error ns wid wtype cause =
     bind_res (decodeEnum startChildWorkflowExecutionFailedCause_table (enum_num cause)) (\<lambda>c.
       if c = Some ''WORKFLOW_ALREADY_EXISTS''
       then Inr (TemporalFailure (WorkflowExecutionAlreadyStarted wid wtype None)
              ''Workflow execution already started'' [] None None)
       else if c = Some ''NAMESPACE_NOT_FOUND'' then Inr (NamespaceNotFoundError ns)
       else if c = Some ''INVALID_VERSIONING_OVERRIDE''
       then Inr (TemporalFailure (InvalidVersioningOverride wid wtype)
              (invalid_override_message wid wtype) [] None None)
       else Inl (IllegalStateError ''Got unknown StartChildWorkflowExecutionFailedCause''))"

definition present :: "string option \<Rightarrow> bool" where
  "present x = (case x of None \<Rightarrow> False | Some y \<Rightarrow> y \<noteq> [])"

fun settle_child_start :: "nat \<Rightarrow> child_start_resolution \<Rightarrow> completion \<Rightarrow> unit act" where
  "settle_child_start n (ChildSucceeded rid) c =
     (if \<not> present rid then eff_throw (TypeError ''Got ResolveChildWorkflowExecutionStart with no runId'')
      else eff_modify (resolve_promise (c_promise c) (JStr (the rid))))"
| "settle_child_start n (ChildStartFailed wid wtype cause) c =
     (if \<not> (n \<noteq> 0 \<and> present wid \<and> present wtype)
      then eff_throw (TypeError ''Missing attributes in activation job'')
      else (\<lambda>s. case child_start_error (namespace (info s)) (the wid) (the wtype) cause of
              Inl e \<Rightarrow> (s, Inl e)
            | Inr err \<Rightarrow>
                (delete_completion ChildWorkflowCompleteC n (reject_promise (c_promise c) err s), Inr ())))"
| "settle_child_start n (ChildStartCancelled f) c =
     (case f of
        None \<Rightarrow> eff_throw (TypeError ''Got no failure in cancelled variant'')
      | Some f \<Rightarrow> eff_bind (reject_with_failure c f)
          (\<lambda>_. eff_modify (delete_completion ChildWorkflowCompleteC n)))"
| "settle_child_start n ChildStartNone c =
     eff_throw (TypeError ''Got ResolveChildWorkflowExecutionStart with no status'')"

definition resolveChildWorkflowExecutionStart :: "nat option \<Rightarrow> child_start_resolution \<Rightarrow> unit act" where
  "resolveChildWorkflowExecutionStart seq r = eff_bind (eff_lift (getSeq seq)) (\<lambda>n.
     eff_bind (consumeCompletion ChildWorkflowStartC n) (settle_child_start n r))"

fun settle_child :: "child_resolution \<Rightarrow> completion \<Rightarrow> unit act" where
  "settle_child (ChildCompleted p) c = resolve_with_payload c p"
| "settle_child (ChildFailed f) c = reject_or_missing ''Got failed result with no failure attribute'' c f"
| "settle_child (ChildCancelled f) c = reject_or_missing ''Got cancelled result with no failure attribute'' c f"
| "settle_child ChildNone c = eff_return ()"

definition resolveChildWorkflowExecution :: "nat option \<Rightarrow> child_resolution option \<Rightarrow> unit act" where
  "resolveChildWorkflowExecution seq result = (case result of
     None \<Rightarrow> eff_throw (TypeError ''Got ResolveChildWorkflowExecution activation with no result'')
   | Some r \<Rightarrow> eff_bind (eff_lift (getSeq seq)) (\<lambda>n.
       eff_bind (consumeCompletion ChildWorkflowCompleteC n) (settle_child r)))"

text \<open>
  The promise of the operation's result is created when the operation has started and handed out in
  the value of the start promise.
\<close>

definition resolveNexusOperationStart :: "nat option \<Rightarrow> proto_failure option \<Rightarrow> string option \<Rightarrow> unit act" where
  "resolveNexusOperationStart seq failed token = eff_bind (eff_lift (getSeq seq)) (\<lambda>n.
     eff_bind (consumeCompletion NexusOperationStartC n) (\<lambda>c s.
       case failed of
         None \<Rightarrow>
           let (p, s1) = fresh_promise s;
               s2 = set_completion NexusOperationCompleteC n
                      \<lparr>c_promise = p, c_context = c_context c, c_outputTypeInfo = c_outputTypeInfo c\<rparr> s1;
               s3 = snd (react_to p Swallow s2)
           in (resolve_promise (c_promise c)
                 (JObj [(''token'', case token of None \<Rightarrow> Undefined | Some x \<Rightarrow> JStr x), (''result'', JPromise p)]) s3,
               Inr ())
       | Some f \<Rightarrow> eff_bind (failureToError f (c_context c))
             (\<lambda>err. eff_modify (reject_promise (c_promise c) err)) s))"

text \<open>
  \<^verbatim>\<open>packages/workflow/src/nexus/system/payload-converter.ts\<close>. The registry of the system operations is
  generated code, hence a parameter: the list of their services and names. The default payload
  converter is used the way it acts inside the conversion scope of system operations.
\<close>

definition isSystemNexusOperation :: "(string \<times> string) list \<Rightarrow> string option \<Rightarrow> string option \<Rightarrow> bool" where
  "isSystemNexusOperation reg service operation = (case (service, operation) of
     (Some sv, Some op) \<Rightarrow> (sv, op) \<in> set reg
   | _ \<Rightarrow> False)"

definition deserializeSystemNexusOutput ::
  "(string \<times> string) list \<Rightarrow> payload_converter \<Rightarrow> string option \<Rightarrow> string option \<Rightarrow> payload \<Rightarrow>
     type_info option \<Rightarrow> js_error + jsval" where
  "deserializeSystemNexusOutput reg dpc service operation p outputTypeInfo =
     (if \<not> isSystemNexusOperation reg service operation then Inr Undefined
      else fromPayloadWithTypeInfo dpc p None outputTypeInfo)"

definition js_nullish :: "jsval \<Rightarrow> bool" where
  "js_nullish v \<longleftrightarrow> v = Undefined \<or> v = Null"

definition nexus_result ::
  "(string \<times> string) list \<Rightarrow> payload_converter \<Rightarrow> payload_converter \<Rightarrow> system_nexus_context option \<Rightarrow> payload \<Rightarrow>
     completion \<Rightarrow> js_error + jsval" where
  "nexus_result reg dpc conv sys p c =
     bind_res (deserializeSystemNexusOutput reg dpc (map_option sn_service sys) (map_option sn_operation sys) p
         (case sys of None \<Rightarrow> None | Some x \<Rightarrow> sn_outputType x))
       (\<lambda>v. if js_nullish v then fromPayloadWithTypeInfo conv p (c_context c) (c_outputTypeInfo c) else Inr v)"

text \<open>The completion a Nexus result goes to: the start of the operation if it is still pending.\<close>

definition nexus_completion :: "nat \<Rightarrow> (bool \<times> completion) act" where
  "nexus_completion n s = (case maybeConsumeCompletion NexusOperationStartC n s of
     (Some c, s') \<Rightarrow> (s', Inr (True, c))
   | (None, s') \<Rightarrow> eff_bind (consumeCompletion NexusOperationCompleteC n) (\<lambda>c. eff_return (False, c)) s')"

definition resolve_nexus_value :: "bool \<Rightarrow> completion \<Rightarrow> jsval \<Rightarrow> activator \<Rightarrow> activator" where
  "resolve_nexus_value atStart c v s =
     (if atStart
      then let (p, s1) = fresh_promise s
           in resolve_promise (c_promise c) (JObj [(''result'', JPromise p)]) (resolve_promise p v s1)
      else resolve_promise (c_promise c) v s)"

fun nexus_failure :: "nexus_resolution \<Rightarrow> proto_failure option" where
  "nexus_failure (NexusFailed f) = Some f"
| "nexus_failure (NexusCancelled f) = Some f"
| "nexus_failure (NexusTimedOut f) = Some f"
| "nexus_failure _ = None"

definition settle_nexus ::
  "(string \<times> string) list \<Rightarrow> payload_converter \<Rightarrow> system_nexus_context option \<Rightarrow> nexus_resolution \<Rightarrow>
     bool \<times> completion \<Rightarrow> unit act" where
  "settle_nexus reg dpc sys result x s = (case x of (atStart, c) \<Rightarrow>
     (case result of
        NexusCompleted p \<Rightarrow>
          (case nexus_result reg dpc (payloadConverter s) sys p c of
             Inl e \<Rightarrow> (s, Inl e)
           | Inr v \<Rightarrow> (resolve_nexus_value atStart c v s, Inr ()))
      | _ \<Rightarrow>
          (case nexus_failure result of
             Some f \<Rightarrow> eff_bind (failureToError f (c_context c))
               (\<lambda>err. eff_modify (reject_promise (c_promise c) err)) s
           | None \<Rightarrow> (reject_promise (c_promise c) (ThrownValue Undefined) s, Inr ()))))"

definition resolveNexusOperation ::
  "(string \<times> string) list \<Rightarrow> payload_converter \<Rightarrow> nat option \<Rightarrow> nexus_resolution \<Rightarrow> unit act" where
  "resolveNexusOperation reg dpc seq result = eff_bind (eff_lift (getSeq seq)) (\<lambda>n s.
     eff_bind (nexus_completion n) (settle_nexus reg dpc (systemNexusOperationContexts s n) result)
       (s\<lparr>systemNexusOperationContexts := (systemNexusOperationContexts s)(n := None)\<rparr>))"

definition settle_external :: "proto_failure option \<Rightarrow> completion \<Rightarrow> unit act" where
  "settle_external failure c = (case failure of
     Some f \<Rightarrow> reject_with_failure c f
   | None \<Rightarrow> eff_modify (resolve_promise (c_promise c) Undefined))"

definition resolveSignalExternalWorkflow :: "nat option \<Rightarrow> proto_failure option \<Rightarrow> unit act" where
  "resolveSignalExternalWorkflow seq failure = eff_bind (eff_lift (getSeq seq)) (\<lambda>n.
     eff_bind (consumeCompletion SignalWorkflowC n) (settle_external failure))"

definition resolveRequestCancelExternalWorkflow :: "nat option \<Rightarrow> proto_failure option \<Rightarrow> unit act" where
  "resolveRequestCancelExternalWorkflow seq failure = eff_bind (eff_lift (getSeq seq)) (\<lambda>n.
     eff_bind (consumeCompletion CancelWorkflowC n) (settle_external failure))"

section \<open>Every pending operation is resolved once\<close>

text \<open>
  The contract of a job that resolves one kind of pending work: it takes the completion with its
  sequence number out of the table and settles the promise of that completion. \<open>void\<close> are the messages
  that carry none of their variants; \<open>drops\<close> are further completions of the operation the job removes.
\<close>

locale resolver =
  fixes kind :: completion_kind
    and settle_by :: "nat \<Rightarrow> 'r \<Rightarrow> completion \<Rightarrow> unit act"
    and job :: "nat option \<Rightarrow> 'r \<Rightarrow> unit act"
    and void :: "'r \<Rightarrow> bool"
    and drops :: "completion_kind set"
  assumes job_some: "job (Some n) r = eff_bind (consumeCompletion kind n) (settle_by n r)"
    and job_none: "job None r s = (s, Inl (TypeError ''Got activation with no seq attribute''))"
    and settle_throws: "settle_by n r c s = (s', Inl e) \<Longrightarrow> s' = s"
    and settle_settles: "settle_by n r c s = (s', Inr ()) \<Longrightarrow> \<not> void r \<Longrightarrow>
       (\<exists>v. rt s' = settle (c_promise c) v (rt s)) \<and> commands s' = commands s"
    and settle_frame: "settle_by n r c s = (s', x) \<Longrightarrow> k \<notin> drops \<or> m \<noteq> n \<Longrightarrow>
       completions s' k m = completions s k m"
    and drops_others: "kind \<notin> drops"
begin

lemma job_unknown:
  "completions s kind n = None \<Longrightarrow>
     job (Some n) r s = (s, Inl (IllegalStateError (''No completion for taskSeq '' @ nat_to_string n)))"
  by (simp add: job_some eff_defs consumeCompletion_simps)

lemma job_pending:
  "completions s kind n = Some c \<Longrightarrow> job (Some n) r s = settle_by n r c (delete_completion kind n s)"
  by (simp add: job_some eff_defs consumeCompletion_simps)

lemma job_consumes:
  assumes "completions s kind n = Some c" and "job (Some n) r s = (s', x)"
  shows "completions s' kind n = None"
  using assms settle_frame [of n r c "delete_completion kind n s" s' x kind n] drops_others
  by (simp add: job_pending)

lemma job_settles:
  assumes "completions s kind n = Some c" and "job (Some n) r s = (s', Inr ())" and "\<not> void r"
  shows "\<exists>v. rt s' = settle (c_promise c) v (rt s)" and "commands s' = commands s"
  using assms settle_settles [of n r c "delete_completion kind n s" s']
  by (auto simp: job_pending delete_completion_def)

lemma job_keeps_others:
  assumes "job (Some n) r s = (s', x)" and "k \<noteq> kind \<and> k \<notin> drops \<or> m \<noteq> n"
  shows "completions s' k m = completions s k m"
proof (cases "completions s kind n")
  case None
  then show ?thesis using assms(1) by (simp add: job_unknown)
next
  case (Some c)
  then show ?thesis
    using assms settle_frame [of n r c "delete_completion kind n s" s' x k m] by (auto simp: job_pending)
qed

end

lemma resolve_with_payload_cases:
  "resolve_with_payload c p s = (s', x) \<Longrightarrow>
     (s' = s \<and> (\<exists>e. x = Inl e)) \<or> (x = Inr () \<and> (\<exists>v. s' = upd_rt (settle (c_promise c) v) s))"
  by (auto simp: resolve_with_payload_def resolve_promise_def split: option.splits sum.splits)

lemma reject_with_failure_cases:
  "reject_with_failure c f s = (s', x) \<Longrightarrow>
     (s' = s \<and> (\<exists>e. x = Inl e)) \<or> (x = Inr () \<and> (\<exists>v. s' = upd_rt (settle (c_promise c) v) s))"
  by (auto simp: reject_with_failure_def reject_promise_def split: sum.splits)

lemma reject_or_missing_cases:
  "reject_or_missing m c f s = (s', x) \<Longrightarrow>
     (s' = s \<and> (\<exists>e. x = Inl e)) \<or> (x = Inr () \<and> (\<exists>v. s' = upd_rt (settle (c_promise c) v) s))"
  by (auto simp: reject_or_missing_def eff_defs dest: reject_with_failure_cases split: option.splits)

lemma upd_rt_fields [simp]:
  "completions (upd_rt f s) = completions s" "commands (upd_rt f s) = commands s"
  by (simp_all add: upd_rt_def)

lemma settle_activity_cases:
  "settle_activity r c s = (s', x) \<Longrightarrow>
     (s' = s \<and> ((\<exists>e. x = Inl e) \<or> r = ActNone)) \<or> (x = Inr () \<and> (\<exists>v. s' = upd_rt (settle (c_promise c) v) s))"
  by (cases r) (auto simp: eff_defs reject_promise_def dest: resolve_with_payload_cases reject_or_missing_cases)

lemma settle_child_cases:
  "settle_child r c s = (s', x) \<Longrightarrow>
     (s' = s \<and> ((\<exists>e. x = Inl e) \<or> r = ChildNone)) \<or> (x = Inr () \<and> (\<exists>v. s' = upd_rt (settle (c_promise c) v) s))"
  by (cases r) (auto simp: eff_defs reject_promise_def dest: resolve_with_payload_cases reject_or_missing_cases)

lemma settle_child_start_cases:
  "settle_child_start n r c s = (s', x) \<Longrightarrow>
     (s' = s \<and> (\<exists>e. x = Inl e)) \<or> (x = Inr () \<and> (\<exists>v. s' = upd_rt (settle (c_promise c) v) s \<or>
        s' = delete_completion ChildWorkflowCompleteC n (upd_rt (settle (c_promise c) v) s)))"
  by (cases r) (auto simp: eff_defs reject_promise_def resolve_promise_def
      dest!: reject_with_failure_cases split: if_splits sum.splits option.splits prod.splits)

lemma settle_external_cases:
  "settle_external f c s = (s', x) \<Longrightarrow>
     (s' = s \<and> (\<exists>e. x = Inl e)) \<or> (x = Inr () \<and> (\<exists>v. s' = upd_rt (settle (c_promise c) v) s))"
  by (auto simp: settle_external_def eff_defs resolve_promise_def dest: reject_with_failure_cases
      split: option.splits)

interpretation activities: resolver ActivityC "\<lambda>_. settle_activity" "\<lambda>n r. resolveActivity n (Some r)"
  "\<lambda>r. r = ActNone" "{}"
  by unfold_locales
     (auto simp: resolveActivity_def eff_defs getSeq_def fun_eq_iff dest!: settle_activity_cases)

interpretation children: resolver ChildWorkflowCompleteC "\<lambda>_. settle_child"
  "\<lambda>n r. resolveChildWorkflowExecution n (Some r)" "\<lambda>r. r = ChildNone" "{}"
  by unfold_locales
     (auto simp: resolveChildWorkflowExecution_def eff_defs getSeq_def fun_eq_iff dest!: settle_child_cases)

interpretation child_starts: resolver ChildWorkflowStartC settle_child_start
  resolveChildWorkflowExecutionStart "\<lambda>_. False" "{ChildWorkflowCompleteC}"
proof unfold_locales
  fix n r c s s' x k m
  assume a: "settle_child_start n r c s = (s', x)"
  show "k \<notin> {ChildWorkflowCompleteC} \<or> m \<noteq> n \<Longrightarrow> completions s' k m = completions s k m"
    using settle_child_start_cases [OF a] by auto
qed (auto simp: resolveChildWorkflowExecutionStart_def eff_defs getSeq_def fun_eq_iff delete_completion_def
      dest!: settle_child_start_cases)

interpretation signals: resolver SignalWorkflowC "\<lambda>_. settle_external" resolveSignalExternalWorkflow "\<lambda>_. False" "{}"
  by unfold_locales
     (auto simp: resolveSignalExternalWorkflow_def eff_defs getSeq_def fun_eq_iff dest!: settle_external_cases)

interpretation cancellations: resolver CancelWorkflowC "\<lambda>_. settle_external"
  resolveRequestCancelExternalWorkflow "\<lambda>_. False" "{}"
  by unfold_locales
     (auto simp: resolveRequestCancelExternalWorkflow_def eff_defs getSeq_def fun_eq_iff dest!: settle_external_cases)

text \<open>The jobs of the five kinds under one name.\<close>

datatype resolution =
    OfActivity activity_resolution
  | OfChildStart child_start_resolution
  | OfChild child_resolution
  | OfSignal "proto_failure option"
  | OfCancel "proto_failure option"

fun resolution_kind :: "resolution \<Rightarrow> completion_kind" where
  "resolution_kind (OfActivity _) = ActivityC"
| "resolution_kind (OfChildStart _) = ChildWorkflowStartC"
| "resolution_kind (OfChild _) = ChildWorkflowCompleteC"
| "resolution_kind (OfSignal _) = SignalWorkflowC"
| "resolution_kind (OfCancel _) = CancelWorkflowC"

fun run_resolution :: "nat option \<Rightarrow> resolution \<Rightarrow> unit act" where
  "run_resolution n (OfActivity r) = resolveActivity n (Some r)"
| "run_resolution n (OfChildStart r) = resolveChildWorkflowExecutionStart n r"
| "run_resolution n (OfChild r) = resolveChildWorkflowExecution n (Some r)"
| "run_resolution n (OfSignal r) = resolveSignalExternalWorkflow n r"
| "run_resolution n (OfCancel r) = resolveRequestCancelExternalWorkflow n r"

definition resolution_void :: "resolution \<Rightarrow> bool" where
  "resolution_void r \<longleftrightarrow> r = OfActivity ActNone \<or> r = OfChild ChildNone"

lemma run_resolution_unknown:
  "completions s (resolution_kind r) n = None \<Longrightarrow>
     run_resolution (Some n) r s = (s, Inl (IllegalStateError (''No completion for taskSeq '' @ nat_to_string n)))"
  by (cases r) (simp_all add: activities.job_unknown child_starts.job_unknown children.job_unknown
      signals.job_unknown cancellations.job_unknown)

lemma run_resolution_settles:
  assumes "completions s (resolution_kind r) n = Some c" and "run_resolution (Some n) r s = (s', Inr ())"
    and "\<not> resolution_void r"
  shows "completions s' (resolution_kind r) n = None \<and> (\<exists>v. rt s' = settle (c_promise c) v (rt s))"
  using assms
  by (cases r) (auto simp: resolution_void_def
      dest: activities.job_consumes activities.job_settles child_starts.job_consumes child_starts.job_settles
        children.job_consumes children.job_settles signals.job_consumes signals.job_settles
        cancellations.job_consumes cancellations.job_settles)

lemma run_resolution_others:
  assumes "run_resolution (Some n) r s = (s', x)" and "m \<noteq> n"
  shows "completions s' k m = completions s k m"
  using assms
  by (cases r) (auto dest: activities.job_keeps_others child_starts.job_keeps_others
      children.job_keeps_others signals.job_keeps_others cancellations.job_keeps_others)

text \<open>
  C6: a job that resolves a pending activity, child workflow start, child workflow, signal or external
  cancellation settles the promise of the operation with its sequence number and no other promise,
  leaves the operations with other numbers pending, and can succeed only once: a second job for the
  same operation is refused and changes nothing.
\<close>

theorem resolve_settles_once:
  assumes "completions s (resolution_kind r) n = Some c"
    and "c_promise c < length (cells (rt s))" and "promise_state (rt s) (c_promise c) = Pending"
    and "\<not> resolution_void r" and "run_resolution (Some n) r s = (s', Inr ())"
  shows "(\<exists>v. promise_state (rt s') (c_promise c) = Settled v) \<and>
     (\<forall>q. q \<noteq> c_promise c \<longrightarrow> promise_state (rt s') q = promise_state (rt s) q) \<and>
     (\<forall>k m. m \<noteq> n \<longrightarrow> completions s' k m = completions s k m) \<and>
     (\<forall>r2. resolution_kind r2 = resolution_kind r \<longrightarrow> run_resolution (Some n) r2 s' =
        (s', Inl (IllegalStateError (''No completion for taskSeq '' @ nat_to_string n))))"
proof -
  obtain v where v: "rt s' = settle (c_promise c) v (rt s)"
    and gone: "completions s' (resolution_kind r) n = None"
    using run_resolution_settles [OF assms(1,5,4)] by blast
  have "run_resolution (Some n) r2 s' =
      (s', Inl (IllegalStateError (''No completion for taskSeq '' @ nat_to_string n)))"
    if "resolution_kind r2 = resolution_kind r" for r2
    using gone that by (intro run_resolution_unknown) simp
  then show ?thesis
    using assms(2,3) run_resolution_others [OF assms(5)] by (simp add: v promise_state_settle)
qed

text \<open>An execution with one pending activity, whose promise is the third one.\<close>

definition pending_activity_example :: activator where
  "pending_activity_example = set_completion ActivityC 1
     \<lparr>c_promise = 2, c_context = None, c_outputTypeInfo = None\<rparr> (snd (fresh_promise example_activator))"

lemmas runtime_eval_defs = promise_op_defs then_react_def new_promise_def empty_runtime_def settle_def
  promise_state_def

theorem resolve_settles_once_witness:
  "\<exists>s'. resolveActivity (Some 1) (Some (ActCompleted None)) pending_activity_example = (s', Inr ()) \<and>
     (\<exists>v. promise_state (rt s') 2 = Settled v) \<and>
     run_resolution (Some 1) (OfActivity ActNone) s' =
        (s', Inl (IllegalStateError (''No completion for taskSeq '' @ nat_to_string 1)))"
proof -
  define s where "s = pending_activity_example"
  define c :: completion where "c = \<lparr>c_promise = 2, c_context = None, c_outputTypeInfo = None\<rparr>"
  define r where "r = OfActivity (ActCompleted None)"
  have c: "completions s (resolution_kind r) 1 = Some c"
    "c_promise c < length (cells (rt s))" "promise_state (rt s) (c_promise c) = Pending" "\<not> resolution_void r"
    by (simp_all add: s_def pending_activity_example_def c_def r_def resolution_void_def set_completion_def
        example_defs runtime_eval_defs)
  have run: "run_resolution (Some 1) r s = (resolve_promise 2 Undefined (delete_completion ActivityC 1 s), Inr ())"
    using c(1) by (simp add: r_def activities.job_pending resolve_with_payload_def c_def)
  define s' where "s' = resolve_promise 2 Undefined (delete_completion ActivityC 1 s)"
  note once = resolve_settles_once [OF c run, folded s'_def]
  have "run_resolution (Some 1) (OfActivity ActNone) s' =
      (s', Inl (IllegalStateError (''No completion for taskSeq '' @ nat_to_string 1)))"
    using once by (simp only: r_def resolution_kind.simps)
  moreover have "\<exists>v. promise_state (rt s') 2 = Settled v"
    using once by (simp add: c_def)
  ultimately show ?thesis
    using run by (intro exI [of _ s'] conjI) (simp_all only: s_def r_def run_resolution.simps s'_def)
qed

end
