(* ===== verification/Interceptors.thy ===== *)
theory Interceptors
  imports Prelude
begin

text \<open>
  \<^verbatim>\<open>packages/common/src/interceptors.ts\<close>: the composition of interceptors. An interceptor that does not
  define the method is \<open>None\<close>; one that does is a function of the input and of the continuation.
\<close>

type_synonym ('i, 'r) interceptor = "('i \<Rightarrow> ('i \<Rightarrow> 'r) \<Rightarrow> 'r) option"

definition composeInterceptorsWith ::
  "('i, 'r) interceptor list \<Rightarrow> ('i \<Rightarrow> 'r) \<Rightarrow> (('i \<Rightarrow> 'r) \<Rightarrow> 'i \<Rightarrow> 'r) \<Rightarrow> 'i \<Rightarrow> 'r" where
  "composeInterceptorsWith interceptors next_fn wrapNext =
     foldl (\<lambda>composedNext interceptor. case interceptor of
              None \<Rightarrow> composedNext
            | Some f \<Rightarrow> (\<lambda>input. f input (wrapNext composedNext)))
       next_fn (rev interceptors)"

definition composeInterceptors :: "('i, 'r) interceptor list \<Rightarrow> ('i \<Rightarrow> 'r) \<Rightarrow> 'i \<Rightarrow> 'r" where
  "composeInterceptors interceptors next_fn = composeInterceptorsWith interceptors next_fn (\<lambda>n. n)"

lemma composeInterceptors_simps [simp]:
  "composeInterceptors [] next_fn = next_fn"
  "composeInterceptors (None # ics) next_fn = composeInterceptors ics next_fn"
  "composeInterceptors (Some f # ics) next_fn = (\<lambda>input. f input (composeInterceptors ics next_fn))"
  by (simp_all add: composeInterceptors_def composeInterceptorsWith_def)

lemma composeInterceptors_append:
  "composeInterceptors (xs @ ys) next_fn = composeInterceptors xs (composeInterceptors ys next_fn)"
  by (simp add: composeInterceptors_def composeInterceptorsWith_def)

text \<open>Interceptors that leave input and result alone can be removed.\<close>

lemma composeInterceptors_transparent:
  "\<forall>ic \<in> set ics. ic = None \<or> ic = Some (\<lambda>input next. next input) \<Longrightarrow> composeInterceptors ics next_fn = next_fn"
  by (induction ics) auto

text \<open>
  A property of results that the innermost function establishes and every interceptor preserves holds
  of the composition.
\<close>

lemma composeInterceptors_invariant:
  assumes "\<And>i. P (next_fn i)"
    and "\<And>f i n. Some f \<in> set ics \<Longrightarrow> (\<And>j. P (n j)) \<Longrightarrow> P (f i n)"
  shows "P (composeInterceptors ics next_fn i)"
  using assms(2)
proof (induction ics arbitrary: i)
  case (Cons ic ics)
  then show ?case by (cases ic) simp_all
qed (simp add: assms(1))

end
