(* ===== verification/ActivatorMessages.thy ===== *)
theory ActivatorMessages
  imports ActivatorResolve Interceptors "HOL-Library.Sublist"
begin

text \<open>
  Queries, updates and signals of a workflow (\<^verbatim>\<open>packages/workflow/src/internals.ts\<close>): dispatch to the
  registered or the default handler, buffering of messages that have no handler yet, validation and
  the responses to the server; and the start of the workflow function.

  User functions are parameters. A call returns what the function returns or throws synchronously;
  an asynchronous function returns a promise of the execution. Both may change the state, since user
  code calls the workflow API.
\<close>

section \<open>User code\<close>

text \<open>The values of the asynchronous local storages a call runs with.\<close>

record als =
  cur_scope :: nat
  cur_markers :: "marker_scopes option"
  cur_update :: "(string \<times> string) option"

definition root_als :: als where
  "root_als = \<lparr>cur_scope = 0, cur_markers = None, cur_update = None\<rparr>"

type_synonym call = "als \<Rightarrow> jsval act"

record message_input =
  in_name :: string
  in_args :: "jsval list"
  in_headers :: "(string \<times> payload) list"
  in_id :: "string option"

type_synonym hook = "(message_input, call) interceptor"

text \<open>
  The functions of the workflow bundle: \<open>uc_call\<close> runs a numbered function on arguments, \<open>uc_react\<close> a
  numbered continuation on the outcome of the promise it waited for; the hooks are the methods of the
  inbound interceptors.
\<close>

record user_code =
  uc_call :: "nat \<Rightarrow> jsval list \<Rightarrow> call"
  uc_react :: "nat \<Rightarrow> outcome \<Rightarrow> activator \<Rightarrow> activator \<times> outcome"
  ic_execute :: "hook list"
  ic_handleSignal :: "hook list"
  ic_handleQuery :: "hook list"
  ic_handleUpdate :: "hook list"
  ic_validateUpdate :: "hook list"

section \<open>Promises of asynchronous functions\<close>

text \<open>
  \<open>async\<close> functions of the form \<^verbatim>\<open>return await f(...)\<close>: the result promise is rejected if the call
  throws, and otherwise settled one reaction after the awaited value.
\<close>

definition settled_promise :: "outcome \<Rightarrow> activator \<Rightarrow> nat \<times> activator" where
  "settled_promise r s = (let (p, s1) = fresh_promise s in (p, upd_rt (settle p r) s1))"

definition async_result :: "nat \<Rightarrow> outcome \<Rightarrow> activator \<Rightarrow> activator" where
  "async_result q r s = (case r of
     Inl e \<Rightarrow> reject_promise q e s
   | Inr (JPromise p) \<Rightarrow> snd (react_to p (Follow q) s)
   | Inr v \<Rightarrow> (let (p, s') = settled_promise (Inr v) s in snd (react_to p (Follow q) s')))"

definition async_return_await :: "jsval act \<Rightarrow> jsval act" where
  "async_return_await m s =
     (let (q, s1) = fresh_promise s; (s2, r) = m s1
      in (async_result q r s2, Inr (JPromise q)))"

text \<open>\<open>value.then(...)\<close> on the result of a call: only promises have the method.\<close>

definition then_on :: "jsval \<Rightarrow> react \<Rightarrow> nat act" where
  "then_on v h = (case v of
     JPromise p \<Rightarrow> (\<lambda>s. case react_to p h s of (d, s') \<Rightarrow> (s', Inr d))
   | _ \<Rightarrow> eff_throw (TypeError ''then is not a function''))"

section \<open>Starting the workflow\<close>

definition startWorkflowNextHandler :: "user_code \<Rightarrow> message_input \<Rightarrow> call" where
  "startWorkflowNextHandler uc input a = async_return_await (\<lambda>s.
     case workflow s of
       None \<Rightarrow> (s, Inl (IllegalStateError ''Workflow uninitialized''))
     | Some w \<Rightarrow> uc_call uc w (in_args input) a s)"

definition executeWithLifecycleLogging :: "jsval act \<Rightarrow> nat act" where
  "executeWithLifecycleLogging fn = eff_bind fn (\<lambda>v. then_on v LifecycleLog)"

definition startWorkflow ::
  "user_code \<Rightarrow> payload list option \<Rightarrow> (string \<times> payload) list \<Rightarrow> unit act" where
  "startWorkflow uc arguments headers s =
     eff_bind
       (executeWithLifecycleLogging (\<lambda>s.
          case arrayFromPayloads (payloadConverter s) arguments (Some (workflowSerializationContext s))
                 (input_types (typeInfo s)) of
            Inl e \<Rightarrow> (s, Inl e)
          | Inr args \<Rightarrow> composeInterceptors (ic_execute uc) (startWorkflowNextHandler uc)
              \<lparr>in_name = [], in_args = args, in_headers = headers, in_id = None\<rparr> root_als s))
       (\<lambda>p. eff_modify (\<lambda>s. snd (react_to p WorkflowSettled s))) s"

section \<open>Reserved names\<close>

definition TEMPORAL_RESERVED_PREFIX :: string where
  "TEMPORAL_RESERVED_PREFIX = ''__temporal_''"

definition is_internal_name :: "string \<Rightarrow> bool" where
  "is_internal_name n \<longleftrightarrow> starts_with n TEMPORAL_RESERVED_PREFIX \<or> n = ''__stack_trace'' \<or>
     n = ''__enhanced_stack_trace''"

definition reserved_name_error :: "string \<Rightarrow> string \<Rightarrow> js_error" where
  "reserved_name_error ty n = TypeError (''Cannot use '' @ ty @ '' name: '' @ [CHR 0x27] @ n @ [CHR 0x27] @
     '', with reserved prefix: '' @ [CHR 0x27] @ TEMPORAL_RESERVED_PREFIX @ [CHR 0x27])"

section \<open>Queries\<close>

definition join_names :: "string list \<Rightarrow> string" where
  "join_names ns = (case ns of [] \<Rightarrow> [] | n # ns \<Rightarrow> foldl (\<lambda>acc x. acc @ '' '' @ x) n ns)"

definition handler_of :: "(string, handler_entry) js_map \<Rightarrow> nat option \<Rightarrow> string \<Rightarrow> (nat \<times> jsval list) option" where
  "handler_of hs dflt n = (case js_get hs n of
     Some en \<Rightarrow> Some (he_handler en, [])
   | None \<Rightarrow> (case dflt of None \<Rightarrow> None | Some f \<Rightarrow> Some (f, [JStr n])))"

definition queryWorkflowNextHandler :: "user_code \<Rightarrow> message_input \<Rightarrow> call" where
  "queryWorkflowNextHandler uc input a s =
     (case handler_of (queryHandlers s) (defaultQueryHandler s) (in_name input) of
        None \<Rightarrow>
          let (p, s') = settled_promise (Inl (ReferenceError
                (''Workflow did not register a handler for '' @ in_name input @ ''. Registered queries: ['' @
                 join_names (map fst (queryHandlers s)) @ '']''))) s
          in (s', Inr (JPromise p))
      | Some (f, pre) \<Rightarrow>
          (case uc_call uc f (pre @ in_args input) a s of
             (s1, Inl e) \<Rightarrow> let (p, s2) = settled_promise (Inl e) s1 in (s2, Inr (JPromise p))
           | (s1, Inr (JPromise _)) \<Rightarrow>
               let (p, s2) = settled_promise
                     (Inl (DeterminismViolationError ''Query handlers should not return a Promise'')) s1
               in (s2, Inr (JPromise p))
           | (s1, Inr v) \<Rightarrow> let (p, s2) = settled_promise (Inr v) s1 in (s2, Inr (JPromise p))))"

record query_job =
  q_type :: "string option"
  q_id :: "string option"
  q_arguments :: "payload list option"
  q_headers :: "(string \<times> payload) list"

definition type_info_of :: "(string, handler_entry) js_map \<Rightarrow> string \<Rightarrow> payload_type_info option" where
  "type_info_of hs n = (case js_get hs n of None \<Rightarrow> None | Some en \<Rightarrow> he_typeInfo en)"

definition output_type :: "payload_type_info option \<Rightarrow> type_info option" where
  "output_type ti = (case ti of None \<Rightarrow> None | Some t \<Rightarrow> outputType t)"

definition queryWorkflow :: "user_code \<Rightarrow> query_job \<Rightarrow> unit act" where
  "queryWorkflow uc job s =
     (if \<not> (present (q_type job) \<and> present (q_id job))
      then (s, Inl (TypeError ''Missing query activation attributes''))
      else
        let queryType = the (q_type job); queryId = the (q_id job) in
        if starts_with queryType TEMPORAL_RESERVED_PREFIX \<and> \<not> js_has (queryHandlers s) queryType \<and>
           defaultQueryHandler s \<noteq> None
        then (s, Inl (reserved_name_error ''query'' queryType))
        else
          let interceptors = (if is_internal_name queryType then [] else ic_handleQuery uc);
              ti = type_info_of (queryHandlers s) queryType;
              s1 = s\<lparr>queryOutputTypes := js_set (queryOutputTypes s) queryId (output_type ti)\<rparr>;
              base = (\<lambda>input a s. queryWorkflowNextHandler uc input a
                 (s\<lparr>queryOutputTypes := js_set (queryOutputTypes s) queryId
                      (output_type (type_info_of (queryHandlers s) (in_name input)))\<rparr>))
          in case arrayFromPayloads (payloadConverter s1) (q_arguments job)
                    (Some (workflowSerializationContext s1)) (input_types ti) of
               Inl e \<Rightarrow> (s1, Inl e)
             | Inr args \<Rightarrow>
                 eff_bind
                   (composeInterceptors interceptors base
                      \<lparr>in_name = queryType, in_args = args, in_headers = q_headers job, in_id = Some queryId\<rparr> root_als)
                   (\<lambda>v. eff_bind (then_on v (QuerySettled queryId)) (\<lambda>_. eff_return ())) s1)"

section \<open>Updates\<close>

definition rejectBufferedUpdate :: "update_job \<Rightarrow> unit act" where
  "rejectBufferedUpdate u = rejectUpdate (case upd_protocolInstanceId u of None \<Rightarrow> [] | Some p \<Rightarrow> p)
     (ApplicationFailure_nonRetryable (''No registered handler for update: '' @
        (case upd_name u of None \<Rightarrow> ''undefined'' | Some n \<Rightarrow> n)))"

function rejectBufferedUpdates :: "unit act" where
  "rejectBufferedUpdates s = (case bufferedUpdates s of
     [] \<Rightarrow> (s, Inr ())
   | u # us \<Rightarrow>
       (case rejectBufferedUpdate u (s\<lparr>bufferedUpdates := us\<rparr>) of
          (s', Inl e) \<Rightarrow> (s', Inl e)
        | (s', Inr _) \<Rightarrow> rejectBufferedUpdates s'))"
  by pat_completeness auto

lemma rejectUpdate_buffer [simp]: "bufferedUpdates (fst (rejectUpdate pid e s)) = bufferedUpdates s"
  by (auto simp: rejectUpdate_def eff_defs errorToFailure_def split: sum.splits)

termination rejectBufferedUpdates
  by (relation "measure (\<lambda>s. length (bufferedUpdates s))")
     (auto simp: rejectBufferedUpdate_def dest!: arg_cong [where f = fst] dest: sym)

text \<open>The handler of an update: registered under its name, or the default one.\<close>

record update_entry =
  ue_handler :: nat
  ue_prefix :: "jsval list"
  ue_validator :: "nat option"
  ue_policy :: unfinished_policy
  ue_typeInfo :: "payload_type_info option"

definition update_entry_of :: "activator \<Rightarrow> string \<Rightarrow> update_entry option" where
  "update_entry_of s n = (case js_get (updateHandlers s) n of
     Some en \<Rightarrow> Some \<lparr>ue_handler = he_handler en, ue_prefix = [], ue_validator = he_validator en,
                   ue_policy = he_unfinishedPolicy en, ue_typeInfo = he_typeInfo en\<rparr>
   | None \<Rightarrow> (case defaultUpdateHandler s of
       None \<Rightarrow> None
     | Some f \<Rightarrow> Some \<lparr>ue_handler = f, ue_prefix = [JStr n], ue_validator = None,
                      ue_policy = WARN_AND_ABANDON, ue_typeInfo = None\<rparr>))"

definition makeInput :: "update_job \<Rightarrow> update_entry \<Rightarrow> message_input act" where
  "makeInput job en s =
     (s, bind_res (arrayFromPayloads (payloadConverter s) (upd_input job)
            (Some (workflowSerializationContext s)) (input_types (ue_typeInfo en)))
          (\<lambda>args. Inr \<lparr>in_name = the (upd_name job), in_args = args, in_headers = upd_headers job,
                        in_id = upd_id job\<rparr>))"

definition updateNextHandler :: "user_code \<Rightarrow> update_entry \<Rightarrow> message_input \<Rightarrow> call" where
  "updateNextHandler uc en input a =
     async_return_await (uc_call uc (ue_handler en) (ue_prefix en @ in_args input) a)"

definition validateUpdateNextHandler :: "user_code \<Rightarrow> nat option \<Rightarrow> message_input \<Rightarrow> call" where
  "validateUpdateNextHandler uc validator input a = (case validator of
     None \<Rightarrow> eff_return Undefined
   | Some v \<Rightarrow> eff_bind (uc_call uc v (in_args input) a) (\<lambda>_. eff_return Undefined))"

definition set_replaying_events :: "bool \<Rightarrow> activator \<Rightarrow> activator" where
  "set_replaying_events b s = s\<lparr>info := (info s)\<lparr>isReplayingHistoryEvents := b\<rparr>\<rparr>"

text \<open>The body of the \<open>try\<close> block: validation, then the input for the handler.\<close>

definition validate_update :: "user_code \<Rightarrow> hook list \<Rightarrow> update_job \<Rightarrow> update_entry \<Rightarrow> als \<Rightarrow> message_input act" where
  "validate_update uc hooks job en a s =
     eff_bind
       (if upd_runValidator job \<and> ue_validator en \<noteq> None
        then (let was = isReplayingHistoryEvents (info s) in
              eff_bind (eff_modify (set_replaying_events False)) (\<lambda>_.
                eff_finally
                  (eff_bind (makeInput job en) (\<lambda>input.
                     eff_bind (composeInterceptors hooks (validateUpdateNextHandler uc (ue_validator en)) input a)
                       (\<lambda>_. eff_return ())))
                  (set_replaying_events was)))
        else eff_return ())
       (\<lambda>_. makeInput job en) s"

definition run_update :: "user_code \<Rightarrow> hook list \<Rightarrow> update_job \<Rightarrow> update_entry \<Rightarrow> als \<Rightarrow> message_input \<Rightarrow> unit act" where
  "run_update uc hooks job en a input s =
     (let pid = the (upd_protocolInstanceId job);
          s1 = acceptUpdate pid s;
          s2 = s1\<lparr>inProgressUpdates := js_set (inProgressUpdates s1) (the (upd_id job))
                 \<lparr>mh_name = the (upd_name job), mh_unfinishedPolicy = ue_policy en, mh_id = upd_id job\<rparr>\<rparr>
      in eff_bind
           (composeInterceptors hooks (updateNextHandler uc en) input
              (a\<lparr>cur_markers := Some (withScope (createInboundUpdateMarker (the (upd_id job))) (cur_markers a))\<rparr>))
           (\<lambda>v. eff_bind (then_on v (UpdateThen pid (output_type (ue_typeInfo en)))) (\<lambda>d1.
              eff_bind (then_on (JPromise d1) (UpdateCatch pid)) (\<lambda>d2.
                eff_bind (then_on (JPromise d2) (UpdateFinally (the (upd_id job)))) (\<lambda>_. eff_return ())))) s2)"

definition doUpdateImpl :: "user_code \<Rightarrow> update_job \<Rightarrow> update_entry \<Rightarrow> als \<Rightarrow> unit act" where
  "doUpdateImpl uc job en a s =
     (let internal = is_internal_name (the (upd_name job));
          a' = a\<lparr>cur_update := Some (the (upd_id job), the (upd_name job))\<rparr>
      in case validate_update uc (if internal then [] else ic_validateUpdate uc) job en a' s of
           (s1, Inl e) \<Rightarrow> rejectUpdate (the (upd_protocolInstanceId job)) e s1
         | (s1, Inr input) \<Rightarrow> run_update uc (if internal then [] else ic_handleUpdate uc) job en a' input s1)"

text \<open>
  The promise of an \<open>async\<close> function whose result nobody uses: a throw leaves a rejected promise without
  reactions.
\<close>

definition async_void :: "unit act \<Rightarrow> unit act" where
  "async_void m s = (case m s of
     (s', Inl e) \<Rightarrow> (snd (settled_promise (Inl e) s'), Inr ())
   | (s', Inr _) \<Rightarrow> (s', Inr ()))"

definition doUpdate :: "user_code \<Rightarrow> als \<Rightarrow> update_job \<Rightarrow> unit act" where
  "doUpdate uc a job s =
     (if \<not> present (upd_id job) then (s, Inl (TypeError ''Missing activation update id''))
      else if \<not> present (upd_name job) then (s, Inl (TypeError ''Missing activation update name''))
      else if \<not> present (upd_protocolInstanceId job)
      then (s, Inl (TypeError ''Missing activation update protocolInstanceId''))
      else
        let n = the (upd_name job) in
        if starts_with n TEMPORAL_RESERVED_PREFIX \<and> \<not> js_has (updateHandlers s) n \<and> defaultUpdateHandler s \<noteq> None
        then (s, Inl (reserved_name_error ''update'' n))
        else case update_entry_of s n of
               None \<Rightarrow> (s\<lparr>bufferedUpdates := bufferedUpdates s @ [job]\<rparr>, Inr ())
             | Some en \<Rightarrow> async_void (doUpdateImpl uc job en a) s)"

section \<open>Signals\<close>

definition signalWorkflowNextHandler :: "user_code \<Rightarrow> message_input \<Rightarrow> call" where
  "signalWorkflowNextHandler uc input a = async_return_await (\<lambda>s.
     case handler_of (signalHandlers s) (defaultSignalHandler s) (in_name input) of
       Some (f, pre) \<Rightarrow> uc_call uc f (pre @ in_args input) a s
     | None \<Rightarrow> (s, Inl (IllegalStateError (''No registered signal handler for signal: '' @ in_name input))))"

definition run_signal :: "user_code \<Rightarrow> als \<Rightarrow> signal_job \<Rightarrow> unit act" where
  "run_signal uc a job s =
     (let n = the (signalName job);
          policy = (case js_get (signalHandlers s) n of
                      None \<Rightarrow> WARN_AND_ABANDON | Some en \<Rightarrow> he_unfinishedPolicy en);
          num = signalHandlerExecutionSeq s;
          s1 = s\<lparr>signalHandlerExecutionSeq := Suc num,
                 inProgressSignals := js_set (inProgressSignals s) num
                   \<lparr>mh_name = n, mh_unfinishedPolicy = policy, mh_id = None\<rparr>\<rparr>
      in case arrayFromPayloads (payloadConverter s1) (sig_input job) (Some (workflowSerializationContext s1))
                (input_types (type_info_of (signalHandlers s) n)) of
           Inl e \<Rightarrow> (s1, Inl e)
         | Inr args \<Rightarrow>
             eff_bind
               (composeInterceptors (if is_internal_name n then [] else ic_handleSignal uc)
                  (signalWorkflowNextHandler uc)
                  \<lparr>in_name = n, in_args = args, in_headers = sig_headers job, in_id = None\<rparr>
                  (a\<lparr>cur_markers := Some (withScope (createInboundEventMarker (sig_originatingEventId job))
                       (cur_markers a))\<rparr>))
               (\<lambda>v. eff_bind (then_on v SignalCatch) (\<lambda>d.
                  eff_bind (then_on (JPromise d) (SignalFinally num)) (\<lambda>_. eff_return ()))) s1)"

definition signalWorkflow :: "user_code \<Rightarrow> als \<Rightarrow> signal_job \<Rightarrow> unit act" where
  "signalWorkflow uc a job s =
     (if \<not> present (signalName job) then (s, Inl (TypeError ''Missing activation signalName''))
      else
        let n = the (signalName job) in
        if starts_with n TEMPORAL_RESERVED_PREFIX \<and> \<not> js_has (signalHandlers s) n \<and> defaultSignalHandler s \<noteq> None
        then (s, Inl (reserved_name_error ''signal'' n))
        else if \<not> js_has (signalHandlers s) n \<and> defaultSignalHandler s = None
        then (s\<lparr>bufferedSignals := bufferedSignals s @ [job]\<rparr>, Inr ())
        else run_signal uc a job s)"

section \<open>Dispatch of buffered messages\<close>

text \<open>
  \<open>splice(findIndex(p), 1)\<close>: the first element with the property, and the list without it.
\<close>

fun splice_first :: "('a \<Rightarrow> bool) \<Rightarrow> 'a list \<Rightarrow> ('a \<times> 'a list) option" where
  "splice_first P [] = None"
| "splice_first P (x # xs) = (if P x then Some (x, xs)
     else case splice_first P xs of None \<Rightarrow> None | Some (y, ys) \<Rightarrow> Some (y, x # ys))"

definition has_name :: "(string, handler_entry) js_map \<Rightarrow> string option \<Rightarrow> bool" where
  "has_name hs n = (case n of None \<Rightarrow> False | Some x \<Rightarrow> js_has hs x)"

text \<open>
  The loops take a bound on the number of iterations; \<open>None\<close> says that the bound was too small. The next
  message is the first one if there is a default handler, else the first one with a handler.
\<close>

definition next_signal :: "activator \<Rightarrow> (signal_job \<times> signal_job list) option" where
  "next_signal s = (if defaultSignalHandler s \<noteq> None
     then (case bufferedSignals s of [] \<Rightarrow> None | x # xs \<Rightarrow> Some (x, xs))
     else splice_first (\<lambda>j. has_name (signalHandlers s) (signalName j)) (bufferedSignals s))"

fun dispatchBufferedSignals :: "user_code \<Rightarrow> als \<Rightarrow> nat \<Rightarrow> activator \<Rightarrow> (activator \<times> (js_error + unit)) option" where
  "dispatchBufferedSignals uc a fuel s =
     (case next_signal s of
        None \<Rightarrow> Some (s, Inr ())
      | Some (job, rest) \<Rightarrow>
          (case fuel of
             0 \<Rightarrow> None
           | Suc fuel' \<Rightarrow>
               (case signalWorkflow uc a job (s\<lparr>bufferedSignals := rest\<rparr>) of
                  (s', Inl e) \<Rightarrow> Some (s', Inl e)
                | (s', Inr _) \<Rightarrow> dispatchBufferedSignals uc a fuel' s')))"

definition next_update :: "activator \<Rightarrow> (update_job \<times> update_job list) option" where
  "next_update s = (if defaultUpdateHandler s \<noteq> None
     then (case bufferedUpdates s of [] \<Rightarrow> None | x # xs \<Rightarrow> Some (x, xs))
     else splice_first (\<lambda>j. has_name (updateHandlers s) (upd_name j)) (bufferedUpdates s))"

fun dispatchBufferedUpdates :: "user_code \<Rightarrow> als \<Rightarrow> nat \<Rightarrow> activator \<Rightarrow> (activator \<times> (js_error + unit)) option" where
  "dispatchBufferedUpdates uc a fuel s =
     (case next_update s of
        None \<Rightarrow> Some (s, Inr ())
      | Some (job, rest) \<Rightarrow>
          (case fuel of
             0 \<Rightarrow> None
           | Suc fuel' \<Rightarrow>
               (case doUpdate uc a job (s\<lparr>bufferedUpdates := rest\<rparr>) of
                  (s', Inl e) \<Rightarrow> Some (s', Inl e)
                | (s', Inr _) \<Rightarrow> dispatchBufferedUpdates uc a fuel' s')))"

declare dispatchBufferedSignals.simps [simp del] dispatchBufferedUpdates.simps [simp del]

section \<open>Buffered messages are dispatched\<close>

text \<open>
  User code never adds to the buffers: it can only dispatch from them, by registering handlers. The
  relation is kept by every step of the SDK on the way.
\<close>

definition buffers_shrink :: "activator \<Rightarrow> activator \<Rightarrow> bool" where
  "buffers_shrink s t \<longleftrightarrow> subseq (bufferedSignals t) (bufferedSignals s) \<and> subseq (bufferedUpdates t) (bufferedUpdates s)"

lemma buffers_shrink_preorder: "reflp buffers_shrink" "transp buffers_shrink"
  by (auto simp: reflp_def transp_def buffers_shrink_def intro: subseq_order.trans)

definition hook_keeps :: "(activator \<Rightarrow> activator \<Rightarrow> bool) \<Rightarrow> hook list \<Rightarrow> bool" where
  "hook_keeps R hs \<longleftrightarrow> (\<forall>f i n. Some f \<in> set hs \<longrightarrow> (\<forall>j a. eff_keeps R (n j a)) \<longrightarrow> (\<forall>a. eff_keeps R (f i n a)))"

definition code_keeps :: "(activator \<Rightarrow> activator \<Rightarrow> bool) \<Rightarrow> user_code \<Rightarrow> bool" where
  "code_keeps R uc \<longleftrightarrow> (\<forall>f args a. eff_keeps R (uc_call uc f args a)) \<and>
     (\<forall>f r s. R s (fst (uc_react uc f r s))) \<and> hook_keeps R (ic_execute uc) \<and>
     hook_keeps R (ic_handleSignal uc) \<and> hook_keeps R (ic_handleQuery uc) \<and> hook_keeps R (ic_handleUpdate uc) \<and>
     hook_keeps R (ic_validateUpdate uc)"

lemma hook_keeps_Nil [simp]: "hook_keeps R []"
  by (simp add: hook_keeps_def)

lemma compose_keeps:
  assumes "hook_keeps R hs" and "\<And>i a. eff_keeps R (base i a)"
  shows "eff_keeps R (composeInterceptors hs base i a)"
proof -
  have "\<forall>a. eff_keeps R (composeInterceptors hs base i a)"
    by (rule composeInterceptors_invariant [where P = "\<lambda>c. \<forall>a. eff_keeps R (c a)"])
       (use assms in \<open>auto simp: hook_keeps_def\<close>)
  then show ?thesis by blast
qed

text \<open>
  A relation on states that ignores promises and microtasks is kept by the combinators for
  asynchronous functions.
\<close>

locale ignores_promises =
  fixes R :: "activator \<Rightarrow> activator \<Rightarrow> bool"
  assumes refl: "reflp R" and trans: "transp R"
    and rt_step: "R s (s\<lparr>rt := r\<rparr>)"
begin

lemma R_refl [simp]: "R s s" using refl by (simp add: reflpD)

lemma R_trans [trans]: "R a b \<Longrightarrow> R b c \<Longrightarrow> R a c" using trans by (rule transpD)

lemma promise_ops: "R s (upd_rt f s)" "R s (snd (fresh_promise s))" "R s (snd (react_to p h s))"
  "R s (reject_promise p e s)" "R s (resolve_promise p v s)" "R s (snd (settled_promise x s))"
proof -
  show u: "R s (upd_rt f s)" for f s by (simp add: upd_rt_def rt_step)
  show "R s (reject_promise p e s)" "R s (resolve_promise p v s)"
    by (simp_all add: reject_promise_def resolve_promise_def u)
  show f: "R s (snd (fresh_promise s))" by (simp add: fresh_promise_def split_beta rt_step)
  show "R s (snd (react_to p h s))" by (simp add: react_to_def split_beta rt_step)
  show "R s (snd (settled_promise x s))"
    using f u by (simp add: settled_promise_def split_beta) (rule R_trans)
qed

lemma async_result_step: "R s (async_result q r s)"
proof (cases r)
  case (Inr v)
  have "R s (snd (react_to p h (snd (settled_promise x s))))" for p h x
    by (blast intro: R_trans promise_ops)
  then show ?thesis by (cases v) (simp_all add: Inr async_result_def split_beta Let_def promise_ops)
qed (simp add: async_result_def promise_ops)

lemma keeps_async:
  assumes "eff_keeps R m"
  shows "eff_keeps R (async_return_await m)"
proof (rule eff_keepsI)
  fix s
  have "R s (snd (fresh_promise s))" by (rule promise_ops)
  also have "R (snd (fresh_promise s)) (fst (m (snd (fresh_promise s))))"
    using assms by (rule eff_keepsD)
  finally show "R s (fst (async_return_await m s))"
    unfolding async_return_await_def
    by (simp add: split_beta Let_def) (rule R_trans [OF _ async_result_step])
qed

lemma keeps_then_on: "eff_keeps R (then_on v h)"
  by (rule eff_keepsI) (cases v; simp add: then_on_def eff_defs split_beta promise_ops)

lemma keeps_bind: "eff_keeps R m \<Longrightarrow> (\<And>x. eff_keeps R (f x)) \<Longrightarrow> eff_keeps R (eff_bind m f)"
  using trans by (rule eff_keeps_bind)

lemma keeps_simple [simp]: "eff_keeps R (eff_return x)" "eff_keeps R (eff_throw e)" "eff_keeps R (eff_lift r)"
  using refl by simp_all

lemma keeps_modify: "(\<And>s. R s (f s)) \<Longrightarrow> eff_keeps R (eff_modify f)"
  by (simp add: eff_keeps_def eff_defs)

lemma keeps_async_void:
  assumes "eff_keeps R m"
  shows "eff_keeps R (async_void m)"
proof (rule eff_keepsI)
  fix s
  have "R s (fst (m s))" using assms by (rule eff_keepsD)
  then show "R s (fst (async_void m s))"
    by (cases "m s"; cases "snd (m s)")
       (auto simp: async_void_def intro: R_trans [OF _ promise_ops(6)])
qed

lemma keeps_finally:
  assumes "eff_keeps R m" and "\<And>s. R s (f s)"
  shows "eff_keeps R (eff_finally m f)"
proof (rule eff_keepsI)
  fix s
  have "R s (fst (m s))" using assms(1) by (rule eff_keepsD)
  then show "R s (fst (eff_finally m f s))"
    using assms(2) by (simp add: eff_finally_def split_beta) (rule R_trans)
qed

lemma case_sum_step:
  "(\<And>e. R s (fst (f e))) \<Longrightarrow> (\<And>x. R s (fst (g x))) \<Longrightarrow> R s (fst (case r of Inl e \<Rightarrow> f e | Inr x \<Rightarrow> g x))"
  by (cases r) simp_all

end

lemma keeps_code:
  "code_keeps R uc \<Longrightarrow> eff_keeps R (uc_call uc f args a)"
  "code_keeps R uc \<Longrightarrow> hook_keeps R (ic_handleSignal uc)"
  "code_keeps R uc \<Longrightarrow> hook_keeps R (ic_handleUpdate uc)"
  "code_keeps R uc \<Longrightarrow> hook_keeps R (ic_validateUpdate uc)"
  by (simp_all add: code_keeps_def)

text \<open>
  A relation that also allows what the dispatch of messages does to the state: the records of running
  handlers, the replay flags, and the responses to updates. Dispatching a message keeps every such
  relation that the user's code keeps.
\<close>

locale message_frame = ignores_promises +
  assumes signal_step: "R s (s\<lparr>signalHandlerExecutionSeq := n, inProgressSignals := m\<rparr>)"
    and update_step: "R s (s\<lparr>inProgressUpdates := u\<rparr>)"
    and info_step: "R s (s\<lparr>info := i\<rparr>)"
    and query_step: "R s (s\<lparr>queryOutputTypes := q\<rparr>)"
    and accept_step: "R s (acceptUpdate p s)"
    and reject_step: "R s (fst (rejectUpdate p e s))"
begin

lemma signal_handler_keeps:
  assumes "code_keeps R uc"
  shows "eff_keeps R (signalWorkflowNextHandler uc i a)"
  unfolding signalWorkflowNextHandler_def
  by (rule keeps_async, rule eff_keepsI)
     (use assms in \<open>auto split: option.splits simp: eff_keepsD keeps_code\<close>)

lemma run_signal_keeps:
  assumes "code_keeps R uc"
  shows "R s (fst (run_signal uc a job s))"
proof -
  have k: "eff_keeps R
      (eff_bind (composeInterceptors (if is_internal_name n then [] else ic_handleSignal uc)
          (signalWorkflowNextHandler uc) i b)
        (\<lambda>v. eff_bind (then_on v SignalCatch) (\<lambda>d.
           eff_bind (then_on (JPromise d) (SignalFinally num)) (\<lambda>_. eff_return ()))))" for n i b num
    using assms
    by (intro keeps_bind compose_keeps keeps_then_on)
       (auto simp: keeps_code signal_handler_keeps)
  have "R s (s\<lparr>signalHandlerExecutionSeq := x, inProgressSignals := y\<rparr>)" for x y
    by (rule signal_step)
  then show ?thesis
    unfolding run_signal_def Let_def
    by (intro case_sum_step) (simp, rule R_trans [OF _ eff_keepsD [OF k]])
qed

lemma rejectUpdate_keeps: "eff_keeps R (rejectUpdate pid e)"
  by (rule eff_keepsI) (rule reject_step)

lemma makeInput_keeps: "eff_keeps R (makeInput job en)"
  by (rule eff_keepsI) (simp add: makeInput_def)

lemma validate_update_keeps:
  assumes "code_keeps R uc" and "hook_keeps R hooks"
  shows "eff_keeps R (validate_update uc hooks job en a)"
proof (rule eff_keepsI)
  fix s :: activator
  have v: "eff_keeps R (validateUpdateNextHandler uc w i b)" for w i b
    unfolding validateUpdateNextHandler_def
    using assms by (auto split: option.splits intro!: keeps_bind simp: keeps_code)
  have m: "eff_keeps R (eff_modify (set_replaying_events b))" for b
    by (rule keeps_modify) (simp add: set_replaying_events_def info_step)
  have "eff_keeps R
     (eff_bind
       (if upd_runValidator job \<and> ue_validator en \<noteq> None
        then (let was = isReplayingHistoryEvents (info s) in
              eff_bind (eff_modify (set_replaying_events False)) (\<lambda>_.
                eff_finally
                  (eff_bind (makeInput job en) (\<lambda>input.
                     eff_bind (composeInterceptors hooks (validateUpdateNextHandler uc (ue_validator en)) input a)
                       (\<lambda>_. eff_return ())))
                  (set_replaying_events was)))
        else eff_return ())
       (\<lambda>_. makeInput job en))"
    unfolding Let_def
    by (auto intro!: keeps_bind keeps_finally m compose_keeps makeInput_keeps v assms
        simp: set_replaying_events_def info_step)
  then show "R s (fst (validate_update uc hooks job en a s))"
    unfolding validate_update_def by (rule eff_keepsD)
qed

lemma run_update_keeps:
  assumes "code_keeps R uc" and "hook_keeps R hooks"
  shows "eff_keeps R (run_update uc hooks job en a input)"
proof (rule eff_keepsI)
  fix s
  have u: "eff_keeps R (updateNextHandler uc en i b)" for i b
    unfolding updateNextHandler_def using assms by (intro keeps_async) (simp add: keeps_code)
  have k: "eff_keeps R (eff_bind
           (composeInterceptors hooks (updateNextHandler uc en) input b)
           (\<lambda>v. eff_bind (then_on v h1) (\<lambda>d1.
              eff_bind (then_on (JPromise d1) h2) (\<lambda>d2.
                eff_bind (then_on (JPromise d2) h3) (\<lambda>_. eff_return ())))))" for b h1 h2 h3
    using assms u by (intro keeps_bind compose_keeps keeps_then_on) auto
  have "R s ((acceptUpdate p s)\<lparr>inProgressUpdates := y\<rparr>)" for p y
    by (rule R_trans [OF accept_step update_step])
  then show "R s (fst (run_update uc hooks job en a input s))"
    unfolding run_update_def Let_def by (rule R_trans) (rule eff_keepsD [OF k])
qed

lemma doUpdateImpl_keeps:
  assumes "code_keeps R uc"
  shows "eff_keeps R (doUpdateImpl uc job en a)"
proof (rule eff_keepsI)
  fix s
  define b where "b = a\<lparr>cur_update := Some (the (upd_id job), the (upd_name job))\<rparr>"
  define hs where "hs = (if is_internal_name (the (upd_name job)) then [] else ic_validateUpdate uc)"
  define ks where "ks = (if is_internal_name (the (upd_name job)) then [] else ic_handleUpdate uc)"
  have h: "hook_keeps R hs" "hook_keeps R ks"
    using assms by (simp_all add: hs_def ks_def keeps_code)
  have "R s (fst (validate_update uc hs job en b s))"
    using validate_update_keeps [OF assms h(1)] by (rule eff_keepsD)
  then show "R s (fst (doUpdateImpl uc job en a s))"
    unfolding doUpdateImpl_def Let_def b_def [symmetric] hs_def [symmetric] ks_def [symmetric]
    by (auto split: prod.splits sum.splits
        intro: R_trans [OF _ eff_keepsD [OF rejectUpdate_keeps]]
          R_trans [OF _ eff_keepsD [OF run_update_keeps [OF assms h(2)]]])
qed

lemma doUpdate_keeps_handled:
  assumes "code_keeps R uc" and "update_entry_of s (the (upd_name job)) \<noteq> None"
  shows "R s (fst (doUpdate uc a job s))"
proof -
  have "R s (fst (async_void (doUpdateImpl uc job en a) s))" for en
    using keeps_async_void [OF doUpdateImpl_keeps [OF assms(1)]] by (rule eff_keepsD)
  then show ?thesis using assms(2) by (auto simp: doUpdate_def Let_def)
qed

lemma query_handler_keeps:
  assumes "code_keeps R uc"
  shows "eff_keeps R (queryWorkflowNextHandler uc i a)"
proof (rule eff_keepsI)
  fix s
  have c: "R s (fst (uc_call uc f args a s))" for f args using assms by (simp add: keeps_code eff_keepsD)
  have p: "R s (snd (settled_promise x t))" if "R s t" for x t
    using that by (blast intro: R_trans promise_ops)
  show "R s (fst (queryWorkflowNextHandler uc i a s))"
    unfolding queryWorkflowNextHandler_def
    using p [OF R_refl] p [OF c]
    by (auto simp: split_beta Let_def split: option.splits sum.splits jsval.splits)
qed

lemma queryWorkflow_keeps:
  assumes "code_keeps R uc"
  shows "R s (fst (queryWorkflow uc job s))"
proof -
  define q where "q = the (q_id job)"
  have base: "eff_keeps R (\<lambda>s. queryWorkflowNextHandler uc i a
      (s\<lparr>queryOutputTypes := js_set (queryOutputTypes s) q (output_type (type_info_of (queryHandlers s) (in_name i)))\<rparr>))" for i a
    by (rule eff_keepsI) (blast intro: R_trans query_step eff_keepsD query_handler_keeps [OF assms])
  have hooks: "hook_keeps R (ic_handleQuery uc)" "hook_keeps R []"
    using assms by (simp_all add: code_keeps_def)
  have k: "eff_keeps R (eff_bind (composeInterceptors hs
      (\<lambda>i a s. queryWorkflowNextHandler uc i a
        (s\<lparr>queryOutputTypes := js_set (queryOutputTypes s) q (output_type (type_info_of (queryHandlers s) (in_name i)))\<rparr>)) i a)
      (\<lambda>v. eff_bind (then_on v (QuerySettled q)) (\<lambda>_. eff_return ())))" if "hook_keeps R hs" for hs i a
    by (intro keeps_bind compose_keeps keeps_then_on that base) simp
  have if_step: "R s (fst (if c then (s, r) else y))" if "R s (fst y)" for c and r :: "'e" and y
    using that R_refl by simp
  show ?thesis
    unfolding queryWorkflow_def Let_def q_def [symmetric]
    by (rule if_step, rule if_step, rule case_sum_step, simp add: query_step,
        rule R_trans [OF query_step eff_keepsD [OF k]], simp add: hooks)
qed

lemma startWorkflow_keeps:
  assumes "code_keeps R uc"
  shows "eff_keeps R (startWorkflow uc args headers)"
proof (rule eff_keepsI)
  fix s
  have n: "eff_keeps R (startWorkflowNextHandler uc i a)" for i a
    unfolding startWorkflowNextHandler_def
    by (rule keeps_async, rule eff_keepsI) (use assms in \<open>auto split: option.splits simp: eff_keepsD keeps_code\<close>)
  have h: "hook_keeps R (ic_execute uc)" using assms by (simp add: code_keeps_def)
  have "eff_keeps R (\<lambda>s. case arrayFromPayloads (payloadConverter s) args (Some (workflowSerializationContext s))
        (input_types (typeInfo s)) of
       Inl e \<Rightarrow> (s, Inl e)
     | Inr args \<Rightarrow> composeInterceptors (ic_execute uc) (startWorkflowNextHandler uc)
         \<lparr>in_name = [], in_args = args, in_headers = headers, in_id = None\<rparr> root_als s)"
    by (rule eff_keepsI, rule case_sum_step) (auto intro: eff_keepsD compose_keeps h n)
  then show "R s (fst (startWorkflow uc args headers s))"
    unfolding startWorkflow_def executeWithLifecycleLogging_def
    by (rule eff_keepsD [OF keeps_bind [OF keeps_bind]]) (auto intro: keeps_then_on keeps_modify promise_ops)
qed

end

interpretation buffers: message_frame buffers_shrink
  by unfold_locales (simp_all add: buffers_shrink_preorder buffers_shrink_def acceptUpdate_def rejectUpdate_def
      eff_defs errorToFailure_def split: sum.splits)

subsection \<open>The dispatch loops\<close>

text \<open>
  The two loops are instances of one scheme: take the next message out of the buffer, process it, go
  on. They end because processing never adds to the buffer, given that user code does not (\<open>polite\<close>).
\<close>

locale dispatch_loop =
  fixes buf :: "activator \<Rightarrow> 'm list"
    and set_buf :: "'m list \<Rightarrow> activator \<Rightarrow> activator"
    and next_msg :: "activator \<Rightarrow> ('m \<times> 'm list) option"
    and process :: "'m \<Rightarrow> unit act"
    and loop :: "nat \<Rightarrow> activator \<Rightarrow> (activator \<times> (js_error + unit)) option"
    and polite :: bool
  assumes loop_eq: "loop fuel s = (case next_msg s of
        None \<Rightarrow> Some (s, Inr ())
      | Some (job, rest) \<Rightarrow>
          (case fuel of
             0 \<Rightarrow> None
           | Suc fuel' \<Rightarrow>
               (case process job (set_buf rest s) of
                  (s', Inl e) \<Rightarrow> Some (s', Inl e)
                | (s', Inr _) \<Rightarrow> loop fuel' s')))"
    and next_removes: "next_msg s = Some (m, rest) \<Longrightarrow> \<exists>xs ys. buf s = xs @ m # ys \<and> rest = xs @ ys"
    and process_shrinks: "polite \<Longrightarrow> next_msg s = Some (m, rest) \<Longrightarrow>
        subseq (buf (fst (process m (set_buf rest s)))) rest"
begin

lemma next_shorter:
  assumes "polite" and "next_msg s = Some (m, rest)" and "process m (set_buf rest s) = (s', r)"
  shows "subseq (buf s') (buf s)" and "length (buf s') < length (buf s)"
proof -
  obtain xs ys where b: "buf s = xs @ m # ys" "rest = xs @ ys" using next_removes [OF assms(2)] by blast
  have s: "subseq (buf s') rest" using process_shrinks [OF assms(1,2)] assms(3) by simp
  then show "length (buf s') < length (buf s)" using b by (auto dest: list_emb_length)
  have "subseq (xs @ ys) (xs @ m # ys)" by (intro list_emb_append_mono) auto
  with s show "subseq (buf s') (buf s)" unfolding b by (rule subseq_order.trans)
qed

lemma loop_total:
  assumes "polite" and "length (buf s) \<le> fuel"
  shows "\<exists>s' r. loop fuel s = Some (s', r) \<and> subseq (buf s') (buf s) \<and> (r = Inr () \<longrightarrow> next_msg s' = None)"
  using assms(2)
proof (induction fuel arbitrary: s)
  case 0
  then have "next_msg s = None" using next_removes by (cases "next_msg s") fastforce+
  then show ?case by (subst loop_eq) simp
next
  case (Suc fuel)
  show ?case
  proof (cases "next_msg s")
    case None
    then show ?thesis by (subst loop_eq) simp
  next
    case (Some mr)
    then obtain m rest where n: "next_msg s = Some (m, rest)" by (cases mr) auto
    obtain s1 r where p: "process m (set_buf rest s) = (s1, r)" by fastforce
    note less = next_shorter [OF assms(1) n p]
    show ?thesis
    proof (cases r)
      case (Inl e)
      then show ?thesis using n p less by (subst loop_eq) simp
    next
      case (Inr u)
      have "length (buf s1) \<le> fuel" using less(2) Suc.prems by simp
      then obtain s' r' where "loop fuel s1 = Some (s', r')" "subseq (buf s') (buf s1)"
        "r' = Inr () \<longrightarrow> next_msg s' = None"
        using Suc.IH by blast
      then show ?thesis
        using n p Inr less(1) by (subst loop_eq) (auto intro: subseq_order.trans)
    qed
  qed
qed

end

lemma splice_first_Some:
  "splice_first P xs = Some (x, rest) \<Longrightarrow>
     \<exists>a b. xs = a @ x # b \<and> rest = a @ b \<and> P x \<and> (\<forall>y \<in> set a. \<not> P y)"
proof (induction xs arbitrary: rest)
  case (Cons z xs)
  show ?case
  proof (cases "P z")
    case False
    then obtain ys where "splice_first P xs = Some (x, ys)" "rest = z # ys"
      using Cons.prems by (auto split: option.splits)
    with Cons.IH obtain a b where "xs = a @ x # b" "ys = a @ b" "P x" "\<forall>y \<in> set a. \<not> P y" by blast
    then show ?thesis using False \<open>rest = z # ys\<close> by (intro exI [of _ "z # a"] exI [of _ b]) simp
  qed (use Cons.prems in \<open>auto intro: exI [of _ "[]"] exI [of _ rest]\<close>)
qed simp

lemma splice_first_None: "splice_first P xs = None \<longleftrightarrow> (\<forall>x \<in> set xs. \<not> P x)"
  by (induction xs) (auto split: option.splits)

lemma next_signal_Some:
  "next_signal s = Some (m, rest) \<Longrightarrow> \<exists>xs ys. bufferedSignals s = xs @ m # ys \<and> rest = xs @ ys \<and>
     (defaultSignalHandler s \<noteq> None \<or> has_name (signalHandlers s) (signalName m))"
  by (auto simp: next_signal_def split: if_splits list.splits dest!: splice_first_Some)

lemma next_signal_None:
  "next_signal s = None \<longleftrightarrow> (\<forall>j \<in> set (bufferedSignals s).
     defaultSignalHandler s = None \<and> \<not> has_name (signalHandlers s) (signalName j))"
  by (auto simp: next_signal_def splice_first_None split: list.splits)

lemma next_update_Some:
  "next_update s = Some (m, rest) \<Longrightarrow> \<exists>xs ys. bufferedUpdates s = xs @ m # ys \<and> rest = xs @ ys \<and>
     (defaultUpdateHandler s \<noteq> None \<or> has_name (updateHandlers s) (upd_name m))"
  by (auto simp: next_update_def split: if_splits list.splits dest!: splice_first_Some)

lemma next_update_None:
  "next_update s = None \<longleftrightarrow> (\<forall>j \<in> set (bufferedUpdates s).
     defaultUpdateHandler s = None \<and> \<not> has_name (updateHandlers s) (upd_name j))"
  by (auto simp: next_update_def splice_first_None split: list.splits)

lemma signalWorkflow_handled:
  assumes "code_keeps buffers_shrink uc"
    and "defaultSignalHandler s \<noteq> None \<or> has_name (signalHandlers s) (signalName job)"
  shows "buffers_shrink s (fst (signalWorkflow uc a job s))"
  using assms buffers.run_signal_keeps [OF assms(1)]
  by (auto simp: signalWorkflow_def Let_def has_name_def present_def split: option.splits)

lemma doUpdate_handled:
  assumes "code_keeps buffers_shrink uc"
    and "defaultUpdateHandler s \<noteq> None \<or> has_name (updateHandlers s) (upd_name job)"
  shows "buffers_shrink s (fst (doUpdate uc a job s))"
proof -
  have "buffers_shrink s (fst (async_void (doUpdateImpl uc job en a) s))" for en
    using buffers.keeps_async_void [OF buffers.doUpdateImpl_keeps [OF assms(1)]] by (rule eff_keepsD)
  then show ?thesis
    using assms(2)
    by (auto simp: doUpdate_def Let_def has_name_def present_def update_entry_of_def js_has_get split: option.splits)
qed

interpretation signal_dispatch: dispatch_loop bufferedSignals "\<lambda>b s. s\<lparr>bufferedSignals := b\<rparr>" next_signal
  "signalWorkflow uc a" "dispatchBufferedSignals uc a" "code_keeps buffers_shrink uc" for uc a
proof (unfold_locales, goal_cases)
  case (1 fuel s)
  show ?case by (rule dispatchBufferedSignals.simps)
next
  case (2 s m rest)
  then show ?case by (blast dest: next_signal_Some)
next
  case (3 s m rest)
  then show ?case
    using signalWorkflow_handled [of uc "s\<lparr>bufferedSignals := rest\<rparr>" m a] next_signal_Some [of s m rest]
    by (auto simp: buffers_shrink_def)
qed

interpretation update_dispatch: dispatch_loop bufferedUpdates "\<lambda>b s. s\<lparr>bufferedUpdates := b\<rparr>" next_update
  "doUpdate uc a" "dispatchBufferedUpdates uc a" "code_keeps buffers_shrink uc" for uc a
proof (unfold_locales, goal_cases)
  case (1 fuel s)
  show ?case by (rule dispatchBufferedUpdates.simps)
next
  case (2 s m rest)
  then show ?case by (blast dest: next_update_Some)
next
  case (3 s m rest)
  then show ?case
    using doUpdate_handled [of uc "s\<lparr>bufferedUpdates := rest\<rparr>" m a] next_update_Some [of s m rest]
    by (auto simp: buffers_shrink_def)
qed

text \<open>
  C7: dispatching the buffered signals and the buffered updates ends, after at most as many iterations
  as there are buffered messages, for all user code that does not add to the buffers. Unless a job is
  malformed, no message that has a handler, or that the default handler would take, is left in the
  buffer; the messages left are in their order of arrival.
\<close>

theorem buffered_messages_dispatched:
  assumes "code_keeps buffers_shrink uc"
  shows "(\<exists>s' r. dispatchBufferedSignals uc a (length (bufferedSignals s)) s = Some (s', r) \<and>
       subseq (bufferedSignals s') (bufferedSignals s) \<and>
       (r = Inr () \<longrightarrow> (\<forall>j \<in> set (bufferedSignals s').
          defaultSignalHandler s' = None \<and> \<not> has_name (signalHandlers s') (signalName j)))) \<and>
     (\<exists>s' r. dispatchBufferedUpdates uc a (length (bufferedUpdates s)) s = Some (s', r) \<and>
       subseq (bufferedUpdates s') (bufferedUpdates s) \<and>
       (r = Inr () \<longrightarrow> (\<forall>j \<in> set (bufferedUpdates s').
          defaultUpdateHandler s' = None \<and> \<not> has_name (updateHandlers s') (upd_name j))))"
  using signal_dispatch.loop_total [OF assms order_refl, of a s]
    update_dispatch.loop_total [OF assms order_refl, of a s]
  by (simp add: next_signal_None next_update_None)

text \<open>User code that records the number of the function in the details of the workflow.\<close>

definition recording_code :: user_code where
  "recording_code = \<lparr>uc_call = (\<lambda>f args a s. (s\<lparr>currentDetails := currentDetails s @ nat_to_string f\<rparr>, Inr Undefined)),
     uc_react = (\<lambda>f r s. (s, r)),
     ic_execute = [], ic_handleSignal = [], ic_handleQuery = [], ic_handleUpdate = [], ic_validateUpdate = []\<rparr>"

definition named_signal :: "string \<Rightarrow> signal_job" where
  "named_signal n = \<lparr>signalName = Some n, sig_input = None, sig_originatingEventId = None, sig_headers = []\<rparr>"

definition user_handler :: "nat \<Rightarrow> handler_entry" where
  "user_handler f = \<lparr>he_handler = f, he_validator = None, he_description = None,
     he_unfinishedPolicy = WARN_AND_ABANDON, he_typeInfo = None\<rparr>"

definition buffered_example :: activator where
  "buffered_example = example_activator\<lparr>
     bufferedSignals := [named_signal ''a'', named_signal ''b'', named_signal ''a''],
     signalHandlers := [(''a'', user_handler 7)]\<rparr>"

lemma recording_code_keeps: "code_keeps buffers_shrink recording_code"
  by (simp add: code_keeps_def recording_code_def eff_keeps_def buffers_shrink_def)

theorem buffered_messages_dispatched_witness:
  "\<exists>s' r. dispatchBufferedSignals recording_code root_als 3 buffered_example = Some (s', r) \<and>
     subseq (bufferedSignals s') [named_signal ''a'', named_signal ''b'', named_signal ''a'']"
  using buffered_messages_dispatched [OF recording_code_keeps, of root_als buffered_example]
  by (auto simp: buffered_example_def numeral_3_eq_3)

text \<open>
  when the workflow has ended, every buffered update is answered by one rejection that names it, in
  order of arrival, and the buffer is empty, provided failures can be serialized.
\<close>

theorem rejectBufferedUpdates_all:
  assumes "\<And>e. fc_errorToFailure (failureConverter s) e (payloadConverter s)
       (Some (workflowSerializationContext s)) = Inr (conv e)"
  shows "\<exists>s'. rejectBufferedUpdates s = (s', Inr ()) \<and> bufferedUpdates s' = [] \<and>
     commands s' = commands s @ map (\<lambda>u. plain_command (UpdateResponse
        (case upd_protocolInstanceId u of None \<Rightarrow> [] | Some p \<Rightarrow> p)
        (UpdateRejected (conv (ApplicationFailure_nonRetryable (''No registered handler for update: '' @
           (case upd_name u of None \<Rightarrow> ''undefined'' | Some n \<Rightarrow> n))))))) (bufferedUpdates s)"
  using assms
proof (induction "bufferedUpdates s" arbitrary: s)
  case Nil
  then show ?case by (subst rejectBufferedUpdates.simps) simp
next
  case (Cons u us)
  define s1 where "s1 = pushCommand (plain_command (UpdateResponse
      (case upd_protocolInstanceId u of None \<Rightarrow> [] | Some p \<Rightarrow> p)
      (UpdateRejected (conv (ApplicationFailure_nonRetryable (''No registered handler for update: '' @
         (case upd_name u of None \<Rightarrow> ''undefined'' | Some n \<Rightarrow> n))))))) False (s\<lparr>bufferedUpdates := us\<rparr>)"
  have ctx: "workflowSerializationContext (s\<lparr>bufferedUpdates := us\<rparr>) = workflowSerializationContext s"
    by (simp add: workflowSerializationContext_def)
  have tf: "ensureTemporalFailure (ApplicationFailure_nonRetryable m) = ApplicationFailure_nonRetryable m" for m
    by (rule ensureTemporalFailure_id) (simp add: ApplicationFailure_nonRetryable_def)
  have step: "rejectBufferedUpdate u (s\<lparr>bufferedUpdates := us\<rparr>) = (s1, Inr ())"
    using Cons.prems by (simp add: rejectBufferedUpdate_def rejectUpdate_def eff_defs errorToFailure_def ctx tf s1_def)
  have s1: "bufferedUpdates s1 = us" "failureConverter s1 = failureConverter s"
    "payloadConverter s1 = payloadConverter s" "workflowSerializationContext s1 = workflowSerializationContext s"
    by (simp_all add: s1_def pushCommand_def Let_def workflowSerializationContext_def)
  have "rejectBufferedUpdates s = rejectBufferedUpdates s1"
    using step Cons.hyps(2) by (subst rejectBufferedUpdates.simps) (simp add: Cons.hyps(2) [symmetric])
  then show ?case
    using Cons.hyps(1) [of s1] Cons.prems Cons.hyps(2) [symmetric] s1
    by (simp add: s1_def)
qed

definition buffered_update_example :: activator where
  "buffered_update_example = example_activator\<lparr>bufferedUpdates := [\<lparr>upd_id = Some ''u'',
     upd_protocolInstanceId = Some ''p'', upd_name = Some ''n'', upd_input = None, upd_runValidator = True,
     upd_headers = []\<rparr>]\<rparr>"

theorem rejectBufferedUpdates_all_witness:
  "\<exists>s'. rejectBufferedUpdates buffered_update_example = (s', Inr ()) \<and> bufferedUpdates s' = [] \<and>
     length (commands s') = 1"
proof -
  have "fc_errorToFailure (failureConverter buffered_update_example) e (payloadConverter buffered_update_example)
      (Some (workflowSerializationContext buffered_update_example)) =
      Inr (Failure (Some (err_message e)) None None None None NoInfo)" for e
    by (simp add: buffered_update_example_def example_defs)
  from rejectBufferedUpdates_all [OF this] show ?thesis
    by (auto simp: buffered_update_example_def example_defs)
qed

end
