(* ===== verification/WorkflowApi.thy ===== *)
theory WorkflowApi
  imports ActivatorMessages
begin

text \<open>
  The functions workflow code calls (\<^verbatim>\<open>packages/workflow/src/workflow.ts\<close>, and \<open>runInContext\<close> of
  \<^verbatim>\<open>cancellation-scope.ts\<close>): timers, activities, child workflows, signals and cancellations of other
  workflows, conditions, handlers, patches and memo. Each operation that waits returns a promise; its
  command is emitted in the executor of the promise, so an error there rejects the promise.
\<close>

section \<open>Environment\<close>

text \<open>
  \<open>ev_ms\<close> is the parser of duration strings of the package \<open>ms\<close>, \<open>ev_dpc\<close> the default payload converter,
  \<open>ev_uuid4\<close> the generator of identifiers.
\<close>

record api_env =
  ev_ms :: "string \<Rightarrow> rat option"
  ev_dpc :: payload_converter
  ev_uuid4 :: "activator \<Rightarrow> string \<times> activator"

definition take_seq :: "seq_kind \<Rightarrow> activator \<Rightarrow> nat \<times> activator" where
  "take_seq k s = (nextSeqs s k, s\<lparr>nextSeqs := (nextSeqs s)(k := Suc (nextSeqs s k))\<rparr>)"

text \<open>\<open>new Promise(executor)\<close>: a throw of the executor rejects the promise.\<close>

definition new_Promise :: "(nat \<Rightarrow> unit act) \<Rightarrow> jsval act" where
  "new_Promise executor s =
     (let (p, s1) = fresh_promise s in
      case executor p s1 of
        (s2, Inl e) \<Rightarrow> (reject_promise p e s2, Inr (JPromise p))
      | (s2, Inr _) \<Rightarrow> (s2, Inr (JPromise p)))"

text \<open>
  The opening lines shared by the executors: in a cancelled scope the promise is rejected with the
  reason of the cancellation and nothing else happens; in a cancellable scope \<open>h\<close> runs when the scope
  is cancelled.
\<close>

definition in_scope :: "als \<Rightarrow> nat \<Rightarrow> react \<Rightarrow> unit act \<Rightarrow> unit act" where
  "in_scope a p h body s =
     (let i = cur_scope a; sp = sc_promise (scope_at s i) in
      if consideredCancelled s i then (snd (react_to sp (RejectPromise p) s), Inr ())
      else body (if sc_cancellable (scope_at s i) then snd (react_to sp h s) else s))"

definition current_context :: "activator \<Rightarrow> serialization_context" where
  "current_context s = WorkflowContext (namespace (info s)) (workflowId (info s))"

definition target_context :: "activator \<Rightarrow> string \<Rightarrow> serialization_context" where
  "target_context s wid = WorkflowContext (namespace (info s)) wid"

definition activity_context :: "activator \<Rightarrow> string option \<Rightarrow> bool \<Rightarrow> serialization_context" where
  "activity_context s aid isLocal = ActivityContext (namespace (info s)) aid (Some (workflowId (info s))) isLocal"

definition new_completion :: "nat \<Rightarrow> serialization_context option \<Rightarrow> type_info option \<Rightarrow> completion" where
  "new_completion p ctx ti = \<lparr>c_promise = p, c_context = ctx, c_outputTypeInfo = ti\<rparr>"

text \<open>Emitting a command whose parts may throw, then storing the completion.\<close>

definition push_and_wait :: "js_error + wf_command \<Rightarrow> completion_kind \<Rightarrow> nat \<Rightarrow> completion \<Rightarrow> unit act" where
  "push_and_wait cmd k n c s = (case cmd of
     Inl e \<Rightarrow> (s, Inl e)
   | Inr cmd \<Rightarrow> (set_completion k n c (pushCommand cmd False s), Inr ()))"

section \<open>Timers\<close>

record timer_input =
  t_seq :: nat
  t_durationMs :: jsnum
  t_summary :: "string option"
  t_eventGroups :: "event_group list option"

definition timer_command :: "api_env \<Rightarrow> als \<Rightarrow> timer_input \<Rightarrow> activator \<Rightarrow> js_error + wf_command" where
  "timer_command env a i s =
     bind_res (msToTs (ev_ms env) (Millis (t_durationMs i))) (\<lambda>d.
     bind_res (userMetadataToPayload (payloadConverter s) (t_summary i) None (Some (current_context s))) (\<lambda>um.
     bind_res (eventGroupMarkersToProto (ev_dpc env) (t_eventGroups i) (cur_markers a)) (\<lambda>mk.
       Inr \<lparr>variant = StartTimer (t_seq i) d, cmd_userMetadata = um, cmd_eventGroupMarkers = mk\<rparr>)))"

definition timerNextHandler :: "api_env \<Rightarrow> timer_input \<Rightarrow> call" where
  "timerNextHandler env i a = new_Promise (\<lambda>p.
     in_scope a p (CancelTimerR (t_seq i) p (t_eventGroups i) (cur_markers a)) (\<lambda>s.
       push_and_wait (timer_command env a i s) TimerC (t_seq i) (new_completion p None None) s))"

definition js_max1 :: "jsnum \<Rightarrow> jsnum" where
  "js_max1 n = (if n = NaN then NaN else if js_lt n (Num 1) then Num 1 else n)"

definition sleep ::
  "api_env \<Rightarrow> (timer_input, call) interceptor list \<Rightarrow> duration \<Rightarrow> string option \<Rightarrow> event_group list option \<Rightarrow> call" where
  "sleep env ics ms summary groups a s =
     (let (n, s1) = take_seq TimerS s in
      case msToNumber (ev_ms env) ms of
        Inl e \<Rightarrow> (s1, Inl e)
      | Inr d \<Rightarrow> composeInterceptors ics (timerNextHandler env)
          \<lparr>t_seq = n, t_durationMs = js_max1 d, t_summary = summary, t_eventGroups = groups\<rparr> a s1)"

section \<open>Activities\<close>

record activity_options =
  ao_activityId :: "string option"
  ao_taskQueue :: "string option"
  ao_heartbeatTimeout :: "duration option"
  ao_retry :: "retry_policy option"
  ao_startToCloseTimeout :: "duration option"
  ao_scheduleToStartTimeout :: "duration option"
  ao_scheduleToCloseTimeout :: "duration option"
  ao_cancellationType :: "string option"
  ao_allowEagerDispatch :: "bool option"
  ao_versioningIntent :: "string option"
  ao_summary :: "string option"
  ao_priority :: "priority option"
  ao_eventGroups :: "event_group list option"

record activity_input =
  ai_activityType :: string
  ai_args :: "jsval list"
  ai_options :: activity_options
  ai_headers :: "(string \<times> payload) list"
  ai_seq :: nat
  ai_typeInfo :: "payload_type_info option"

text \<open>\<^verbatim>\<open>packages/common/src/versioning-intent-enum.ts\<close>.\<close>

definition versioningIntentToProto :: "string option \<Rightarrow> js_error + int" where
  "versioningIntentToProto intent =
     (if intent = Some ''DEFAULT'' then Inr 2
      else if intent = Some ''COMPATIBLE'' then Inr 1
      else if intent = None then Inr 0
      else Inl (TypeError ''Unexpected VersioningIntent''))"

definition validateActivityOptions :: "duration option \<Rightarrow> duration option \<Rightarrow> js_error + unit" where
  "validateActivityOptions scheduleToClose startToClose =
     (if scheduleToClose = None \<and> startToClose = None
      then Inl (TypeError ''Required either scheduleToCloseTimeout or startToCloseTimeout'') else Inr ())"

definition string_or :: "string option \<Rightarrow> string \<Rightarrow> string" where
  "string_or x d = (case x of None \<Rightarrow> d | Some y \<Rightarrow> if y = [] then d else y)"

definition activity_command ::
  "api_env \<Rightarrow> als \<Rightarrow> activity_input \<Rightarrow> string \<Rightarrow> serialization_context \<Rightarrow> activator \<Rightarrow> js_error + wf_command" where
  "activity_command env a i aid ctx s =
     (let opts = ai_options i; ms = ev_ms env in
      bind_res (toPayloadsWithContext (payloadConverter s) (Some ctx) (ai_args i) (input_types (ai_typeInfo i))) (\<lambda>args.
      bind_res (compile_optional (compileRetryPolicy ms) (ao_retry opts)) (\<lambda>retry.
      bind_res (msOptionalToTs ms (ao_heartbeatTimeout opts)) (\<lambda>hb.
      bind_res (msOptionalToTs ms (ao_scheduleToCloseTimeout opts)) (\<lambda>s2c.
      bind_res (msOptionalToTs ms (ao_startToCloseTimeout opts)) (\<lambda>st2c.
      bind_res (msOptionalToTs ms (ao_scheduleToStartTimeout opts)) (\<lambda>s2s.
      bind_res (encodeEnum activityCancellationType_table (enum_name (ao_cancellationType opts))) (\<lambda>ct.
      bind_res (versioningIntentToProto (ao_versioningIntent opts)) (\<lambda>vi.
      bind_res (compile_optional compilePriority (ao_priority opts)) (\<lambda>prio.
      bind_res (userMetadataToPayload (payloadConverter s) (ao_summary opts) None (Some ctx)) (\<lambda>um.
      bind_res (eventGroupMarkersToProto (ev_dpc env) (ao_eventGroups opts) (cur_markers a)) (\<lambda>mk.
        Inr \<lparr>variant = ScheduleActivity \<lparr>sa_seq = ai_seq i, sa_activityId = aid,
               sa_activityType = ai_activityType i, sa_arguments = args, sa_retryPolicy = retry,
               sa_taskQueue = string_or (ao_taskQueue opts) (taskQueue (info s)),
               sa_heartbeatTimeout = hb, sa_scheduleToCloseTimeout = s2c, sa_startToCloseTimeout = st2c,
               sa_scheduleToStartTimeout = s2s, sa_headers = ai_headers i, sa_cancellationType = ct,
               sa_doNotEagerlyExecute = (ao_allowEagerDispatch opts = Some False),
               sa_versioningIntent = vi, sa_priority = prio\<rparr>,
             cmd_userMetadata = um, cmd_eventGroupMarkers = mk\<rparr>))))))))))))"

definition scheduleActivityNextHandler :: "api_env \<Rightarrow> activity_input \<Rightarrow> call" where
  "scheduleActivityNextHandler env i a s =
     (case validateActivityOptions (ao_scheduleToCloseTimeout (ai_options i)) (ao_startToCloseTimeout (ai_options i)) of
        Inl e \<Rightarrow> (s, Inl e)
      | Inr _ \<Rightarrow>
          let aid = (case ao_activityId (ai_options i) of None \<Rightarrow> nat_to_string (ai_seq i) | Some x \<Rightarrow> x);
              ctx = activity_context s (Some aid) False
          in new_Promise (\<lambda>p.
               in_scope a p (CancelActivityR (ai_seq i) (ao_eventGroups (ai_options i)) (cur_markers a)) (\<lambda>s.
                 push_and_wait (activity_command env a i aid ctx s) ActivityC (ai_seq i)
                   (new_completion p (Some ctx) (output_type (ai_typeInfo i))) s)) s)"

definition scheduleActivity ::
  "api_env \<Rightarrow> (activity_input, call) interceptor list \<Rightarrow> string \<Rightarrow> jsval list \<Rightarrow> activity_options option \<Rightarrow>
     payload_type_info option \<Rightarrow> call" where
  "scheduleActivity env ics activityType args opts ti a s = (case opts of
     None \<Rightarrow> (s, Inl (TypeError ''Got empty activity options''))
   | Some opts \<Rightarrow>
       let (n, s1) = take_seq ActivityS s
       in composeInterceptors ics (scheduleActivityNextHandler env)
            \<lparr>ai_activityType = activityType, ai_args = args, ai_options = opts, ai_headers = [], ai_seq = n,
             ai_typeInfo = ti\<rparr> a s1)"

section \<open>Local activities\<close>

record local_activity_input =
  li_call :: local_activity_call
  li_headers :: "(string \<times> payload) list"
  li_seq :: nat

definition local_activity_command ::
  "api_env \<Rightarrow> als \<Rightarrow> local_activity_input \<Rightarrow> serialization_context \<Rightarrow> activator \<Rightarrow> js_error + wf_command" where
  "local_activity_command env a i ctx s =
     (let c = li_call i; opts = la_options c; ms = ev_ms env in
      bind_res (toPayloadsWithContext (payloadConverter s) (Some ctx) (la_args c) (input_types (la_typeInfo c))) (\<lambda>args.
      bind_res (compile_optional (compileRetryPolicy ms) (lo_retry opts)) (\<lambda>retry.
      bind_res (msOptionalToTs ms (lo_scheduleToCloseTimeout opts)) (\<lambda>s2c.
      bind_res (msOptionalToTs ms (lo_startToCloseTimeout opts)) (\<lambda>st2c.
      bind_res (msOptionalToTs ms (lo_scheduleToStartTimeout opts)) (\<lambda>s2s.
      bind_res (msOptionalToTs ms (lo_localRetryThreshold opts)) (\<lambda>lrt.
      bind_res (encodeEnum activityCancellationType_table (enum_name (lo_cancellationType opts))) (\<lambda>ct.
      bind_res (userMetadataToPayload (payloadConverter s) (lo_summary opts) None (Some ctx)) (\<lambda>um.
      bind_res (eventGroupMarkersToProto (ev_dpc env) (lo_eventGroups opts) (cur_markers a)) (\<lambda>mk.
        Inr \<lparr>variant = ScheduleLocalActivity \<lparr>sl_seq = li_seq i, sl_attempt = la_attempt c,
               sl_originalScheduleTime = la_originalScheduleTime c, sl_activityId = nat_to_string (li_seq i),
               sl_activityType = la_activityType c, sl_arguments = args, sl_retryPolicy = retry,
               sl_scheduleToCloseTimeout = s2c, sl_startToCloseTimeout = st2c, sl_scheduleToStartTimeout = s2s,
               sl_localRetryThreshold = lrt, sl_includeArgumentsInMarker = lo_includeArgumentsInMarker opts,
               sl_headers = li_headers i, sl_cancellationType = ct\<rparr>,
             cmd_userMetadata = um, cmd_eventGroupMarkers = mk\<rparr>))))))))))"

text \<open>
  An \<open>async\<close> function: its checks reject the returned promise. The promise of the executor is returned
  without \<open>await\<close>, hence adopted; the adoption is one reaction here, where JavaScript takes three.
\<close>

definition scheduleLocalActivityNextHandler :: "api_env \<Rightarrow> local_activity_input \<Rightarrow> call" where
  "scheduleLocalActivityNextHandler env i a = async_return_await (\<lambda>s.
     let c = li_call i; ctx = activity_context s (Some (nat_to_string (li_seq i))) True in
     if \<not> isReplaying (info s) \<and> la_activityType c \<notin> set (registeredActivityNames s) \<and>
        ''default'' \<notin> set (registeredActivityNames s)
     then (s, Inl (ReferenceError (''Local activity of type '' @ [CHR 0x27] @ la_activityType c @ [CHR 0x27] @
             '' not registered on worker'')))
     else case validateActivityOptions (lo_scheduleToCloseTimeout (la_options c)) (lo_startToCloseTimeout (la_options c)) of
            Inl e \<Rightarrow> (s, Inl e)
          | Inr _ \<Rightarrow> new_Promise (\<lambda>p. in_scope a p (CancelLocalActivityR (li_seq i)) (\<lambda>s.
              push_and_wait (local_activity_command env a i ctx s) ActivityC (li_seq i)
                (new_completion p (Some ctx) (output_type (la_typeInfo c))) s)) s)"

text \<open>One iteration of the retry loop: schedule, then wait for the outcome.\<close>

definition local_activity_attempt ::
  "api_env \<Rightarrow> (local_activity_input, call) interceptor list \<Rightarrow> local_activity_call \<Rightarrow> activator \<Rightarrow> activator" where
  "local_activity_attempt env ics c s =
     (let (n, s1) = take_seq ActivityS s;
          a = \<lparr>cur_scope = la_scope c, cur_markers = la_markers c, cur_update = None\<rparr>
      in case composeInterceptors ics (scheduleLocalActivityNextHandler env)
                \<lparr>li_call = c, li_headers = [], li_seq = n\<rparr> a s1 of
           (s2, Inl e) \<Rightarrow> (let (p, s3) = settled_promise (Inl e) s2 in snd (react_to p (LocalActivitySettled c) s3))
         | (s2, Inr (JPromise p)) \<Rightarrow> snd (react_to p (LocalActivitySettled c) s2)
         | (s2, Inr v) \<Rightarrow> (let (p, s3) = settled_promise (Inr v) s2 in snd (react_to p (LocalActivitySettled c) s3)))"

definition scheduleLocalActivity ::
  "api_env \<Rightarrow> (local_activity_input, call) interceptor list \<Rightarrow> string \<Rightarrow> jsval list \<Rightarrow>
     local_activity_options option \<Rightarrow> payload_type_info option \<Rightarrow> call" where
  "scheduleLocalActivity env ics activityType args opts ti a s =
     (let (q, s1) = fresh_promise s in
      case opts of
        None \<Rightarrow> (reject_promise q (TypeError ''Got empty activity options'') s1, Inr (JPromise q))
      | Some opts \<Rightarrow>
          (local_activity_attempt env ics
             \<lparr>la_activityType = activityType, la_args = args, la_options = opts, la_typeInfo = ti, la_attempt = 1,
              la_originalScheduleTime = None, la_result = q, la_scope = cur_scope a, la_markers = cur_markers a\<rparr> s1,
           Inr (JPromise q)))"

text \<open>The \<open>catch\<close> block of the loop: a backoff sleeps and tries again, any other error ends the loop.\<close>

definition local_activity_settled ::
  "api_env \<Rightarrow> (timer_input, call) interceptor list \<Rightarrow> local_activity_call \<Rightarrow> outcome \<Rightarrow> activator \<Rightarrow> activator" where
  "local_activity_settled env tics c r s = (case r of
     Inr v \<Rightarrow> resolve_promise (la_result c) v s
   | Inl (DoBackoff b) \<Rightarrow>
       (case requiredTsToMs (backoffDuration b) ''backoffDuration'' of
          Inl e \<Rightarrow> reject_promise (la_result c) e s
        | Inr d \<Rightarrow>
            (case sleep env tics (Millis (Num (of_int d))) None (lo_eventGroups (la_options c))
                   \<lparr>cur_scope = la_scope c, cur_markers = la_markers c, cur_update = None\<rparr> s of
               (s1, Inr (JPromise p)) \<Rightarrow> snd (react_to p (LocalActivitySlept c b) s1)
             | (s1, Inr v) \<Rightarrow> (let (p, s2) = settled_promise (Inr v) s1 in snd (react_to p (LocalActivitySlept c b) s2))
             | (s1, Inl e) \<Rightarrow> reject_promise (la_result c) e s1))
   | Inl e \<Rightarrow> reject_promise (la_result c) e s)"

definition local_activity_slept ::
  "api_env \<Rightarrow> (local_activity_input, call) interceptor list \<Rightarrow> local_activity_call \<Rightarrow> do_backoff \<Rightarrow> outcome \<Rightarrow>
     activator \<Rightarrow> activator" where
  "local_activity_slept env ics c b r s = (case r of
     Inl e \<Rightarrow> reject_promise (la_result c) e s
   | Inr _ \<Rightarrow>
       (case bo_attempt b of
          None \<Rightarrow> reject_promise (la_result c) (TypeError ''Invalid backoff attempt type'') s
        | Some n \<Rightarrow> local_activity_attempt env ics
            (c\<lparr>la_attempt := n, la_originalScheduleTime := bo_originalScheduleTime b\<rparr>) s))"

section \<open>Child workflows\<close>

text \<open>
  Search attributes are given by what their encoder, \<^verbatim>\<open>encodeUnifiedSearchAttributes\<close>, returns or throws.
\<close>

record child_options =
  co_workflowId :: "string option"
  co_args :: "jsval list"
  co_retry :: "retry_policy option"
  co_taskQueue :: "string option"
  co_workflowExecutionTimeout :: "duration option"
  co_workflowRunTimeout :: "duration option"
  co_workflowTaskTimeout :: "duration option"
  co_cancellationType :: "string option"
  co_workflowIdReusePolicy :: "string option"
  co_parentClosePolicy :: "string option"
  co_cronSchedule :: "string option"
  co_searchAttributes :: "(js_error + (string \<times> payload) list) option"
  co_memo :: "(string \<times> jsval) list option"
  co_versioningIntent :: "string option"
  co_versioningOverride :: "versioning_override option"
  co_priority :: "priority option"
  co_staticSummary :: "string option"
  co_staticDetails :: "string option"
  co_eventGroups :: "event_group list option"
  co_typeInfo :: "payload_type_info option"

record child_input =
  ci_workflowType :: string
  ci_options :: child_options
  ci_headers :: "(string \<times> payload) list"
  ci_seq :: nat

definition child_command ::
  "api_env \<Rightarrow> als \<Rightarrow> child_input \<Rightarrow> string \<Rightarrow> serialization_context \<Rightarrow> activator \<Rightarrow> js_error + wf_command" where
  "child_command env a i wid ctx s =
     (let opts = ci_options i; ms = ev_ms env in
      bind_res (toPayloadsWithContext (payloadConverter s) (Some ctx) (co_args opts) (input_types (co_typeInfo opts))) (\<lambda>args.
      bind_res (compile_optional (compileRetryPolicy ms) (co_retry opts)) (\<lambda>retry.
      bind_res (msOptionalToTs ms (co_workflowExecutionTimeout opts)) (\<lambda>et.
      bind_res (msOptionalToTs ms (co_workflowRunTimeout opts)) (\<lambda>rnt.
      bind_res (msOptionalToTs ms (co_workflowTaskTimeout opts)) (\<lambda>tt.
      bind_res (encodeEnum childWorkflowCancellationType_table (enum_name (co_cancellationType opts))) (\<lambda>ct.
      bind_res (encodeEnum workflowIdReusePolicy_table (enum_name (co_workflowIdReusePolicy opts))) (\<lambda>rp.
      bind_res (encodeEnum parentClosePolicy_table (enum_name (co_parentClosePolicy opts))) (\<lambda>pcp.
      bind_res (compile_optional (\<lambda>r. r) (co_searchAttributes opts)) (\<lambda>sas.
      bind_res (compile_optional (\<lambda>m. mapToPayloads (payloadConverter s) m (Some ctx)) (co_memo opts)) (\<lambda>mem.
      bind_res (versioningIntentToProto (co_versioningIntent opts)) (\<lambda>vi.
      bind_res (compile_optional compilePriority (co_priority opts)) (\<lambda>prio.
      bind_res (userMetadataToPayload (payloadConverter s) (co_staticSummary opts) (co_staticDetails opts) (Some ctx)) (\<lambda>um.
      bind_res (eventGroupMarkersToProto (ev_dpc env) (co_eventGroups opts) (cur_markers a)) (\<lambda>mk.
        Inr \<lparr>variant = StartChildWorkflowExecution \<lparr>cw_seq = ci_seq i, cw_workflowId = wid,
               cw_workflowType = ci_workflowType i, cw_input = args, cw_retryPolicy = retry,
               cw_taskQueue = string_or (co_taskQueue opts) (taskQueue (info s)),
               cw_workflowExecutionTimeout = et, cw_workflowRunTimeout = rnt, cw_workflowTaskTimeout = tt,
               cw_namespace = namespace (info s), cw_headers = ci_headers i, cw_cancellationType = ct,
               cw_workflowIdReusePolicy = rp, cw_parentClosePolicy = pcp,
               cw_cronSchedule = co_cronSchedule opts, cw_searchAttributes = sas, cw_memo = mem,
               cw_versioningIntent = vi, cw_versioningOverride = versioningOverrideToProto (co_versioningOverride opts),
               cw_priority = prio\<rparr>,
             cmd_userMetadata = um, cmd_eventGroupMarkers = mk\<rparr>)))))))))))))))"

text \<open>
  The promise of the result is rejected when the start fails; its completion is stored in any case, also
  when the scope was cancelled and nothing was started.
\<close>

definition startChildWorkflowExecutionNextHandler :: "api_env \<Rightarrow> child_input \<Rightarrow> call" where
  "startChildWorkflowExecutionNextHandler env i a s =
     (let (wid, s0) = (case co_workflowId (ci_options i) of Some w \<Rightarrow> (w, s) | None \<Rightarrow> ev_uuid4 env s);
          ctx = target_context s0 wid;
          (s1, r1) = new_Promise (\<lambda>p.
             in_scope a p (CancelChildR (ci_seq i) (co_eventGroups (ci_options i)) (cur_markers a)) (\<lambda>s.
               push_and_wait (child_command env a i wid ctx s) ChildWorkflowStartC (ci_seq i)
                 (new_completion p (Some ctx) None) s)) s0;
          startP = (case r1 of Inr (JPromise p) \<Rightarrow> p | _ \<Rightarrow> 0);
          (completeP, s2) = fresh_promise s1;
          s3 = snd (react_to startP (RejectPromise completeP) s2);
          s4 = set_completion ChildWorkflowCompleteC (ci_seq i)
                 (new_completion completeP (Some ctx) (output_type (co_typeInfo (ci_options i)))) s3;
          s5 = snd (react_to completeP Swallow s4);
          (ret, s6) = settled_promise (Inr (JArr [JPromise startP, JPromise completeP])) s5
      in (s6, Inr (JPromise ret)))"

definition addDefaultWorkflowOptions :: "api_env \<Rightarrow> child_options \<Rightarrow> activator \<Rightarrow> child_options \<times> activator" where
  "addDefaultWorkflowOptions env opts s =
     (let (wid, s') = (case co_workflowId opts of Some w \<Rightarrow> (w, s) | None \<Rightarrow> ev_uuid4 env s)
      in (opts\<lparr>co_workflowId := Some wid,
               co_cancellationType := (case co_cancellationType opts of
                  None \<Rightarrow> Some ''WAIT_CANCELLATION_COMPLETED'' | Some c \<Rightarrow> Some c)\<rparr>, s'))"

text \<open>The first part of \<^verbatim>\<open>startChild\<close> and of \<^verbatim>\<open>executeChild\<close>, up to the promise they wait for.\<close>

definition start_child_execution ::
  "api_env \<Rightarrow> (child_input, call) interceptor list \<Rightarrow> string \<Rightarrow> child_options \<Rightarrow> call" where
  "start_child_execution env ics wtype opts a s =
     (let (opts', s1) = addDefaultWorkflowOptions env opts s; (n, s2) = take_seq ChildWorkflowS s1
      in composeInterceptors ics (startChildWorkflowExecutionNextHandler env)
           \<lparr>ci_workflowType = wtype, ci_options = opts', ci_headers = [], ci_seq = n\<rparr> a s2)"

section \<open>Signals to other workflows\<close>

record signal_input =
  si_seq :: nat
  si_signalName :: string
  si_args :: "jsval list"
  si_typeInfo :: "payload_type_info option"
  si_eventGroups :: "event_group list option"
  si_target :: signal_target
  si_headers :: "(string \<times> payload) list"

fun target_workflow_id :: "signal_target \<Rightarrow> string" where
  "target_workflow_id (ExternalTarget ns wid rid) = wid"
| "target_workflow_id (ChildTarget wid) = wid"

definition signal_command ::
  "api_env \<Rightarrow> als \<Rightarrow> signal_input \<Rightarrow> serialization_context \<Rightarrow> activator \<Rightarrow> js_error + wf_command" where
  "signal_command env a i ctx s =
     bind_res (toPayloadsWithContext (payloadConverter s) (Some ctx) (si_args i) (input_types (si_typeInfo i))) (\<lambda>args.
     bind_res (eventGroupMarkersToProto (ev_dpc env) (si_eventGroups i) (cur_markers a)) (\<lambda>mk.
       Inr \<lparr>variant = SignalExternalWorkflowExecution (si_seq i) (si_signalName i) args (si_headers i)
              (case si_target i of
                 ExternalTarget _ wid rid \<Rightarrow> ExternalTarget (namespace (info s)) wid rid
               | ChildTarget wid \<Rightarrow> ChildTarget wid),
            cmd_userMetadata = None, cmd_eventGroupMarkers = mk\<rparr>))"

definition signalExternalNextHandler :: "api_env \<Rightarrow> signal_input \<Rightarrow> call" where
  "signalExternalNextHandler env i a s =
     (let ctx = target_context s (target_workflow_id (si_target i)) in
      new_Promise (\<lambda>p. in_scope a p (CancelSignalR (si_seq i)) (\<lambda>s.
        push_and_wait (signal_command env a i ctx s) SignalWorkflowC (si_seq i)
          (new_completion p (Some ctx) None) s)) s)"

text \<open>The \<open>signal\<close> of an external handle and of a child handle.\<close>

definition handle_signal ::
  "api_env \<Rightarrow> (signal_input, call) interceptor list \<Rightarrow> signal_target \<Rightarrow> string \<Rightarrow> jsval list \<Rightarrow>
     payload_type_info option \<Rightarrow> event_group list option \<Rightarrow> call" where
  "handle_signal env ics tgt n args ti groups a s =
     (let (sq, s1) = take_seq SignalWorkflowS s
      in composeInterceptors ics (signalExternalNextHandler env)
           \<lparr>si_seq = sq, si_signalName = n, si_args = args, si_typeInfo = ti, si_eventGroups = groups,
            si_target = tgt, si_headers = []\<rparr> a s1)"

section \<open>Cancellation of other workflows\<close>

definition EXTERNAL_WF_CANCEL_PATCH :: string where
  "EXTERNAL_WF_CANCEL_PATCH = ''__temporal_internal_connect_external_handle_cancel_to_scope''"

definition patched :: "api_env \<Rightarrow> als \<Rightarrow> string \<Rightarrow> event_group list option \<Rightarrow> bool act" where
  "patched env a patchId groups = patchInternal (ev_dpc env) (cur_markers a) patchId False groups"

definition deprecatePatch :: "api_env \<Rightarrow> als \<Rightarrow> string \<Rightarrow> event_group list option \<Rightarrow> unit act" where
  "deprecatePatch env a patchId groups =
     eff_bind (patchInternal (ev_dpc env) (cur_markers a) patchId True groups) (\<lambda>_. eff_return ())"

definition request_cancel_external ::
  "api_env \<Rightarrow> als \<Rightarrow> string \<Rightarrow> string option \<Rightarrow> event_group list option \<Rightarrow> nat \<Rightarrow> unit act" where
  "request_cancel_external env a wid rid groups p s =
     (let (n, s1) = take_seq CancelWorkflowS s in
      push_and_wait
        (bind_res (eventGroupMarkersToProto (ev_dpc env) groups (cur_markers a)) (\<lambda>mk.
           Inr \<lparr>variant = RequestCancelExternalWorkflowExecution n (namespace (info s1)) wid rid,
                cmd_userMetadata = None, cmd_eventGroupMarkers = mk\<rparr>))
        CancelWorkflowC n (new_completion p (Some (target_context s1 wid)) None) s1)"

definition external_cancel ::
  "api_env \<Rightarrow> string \<Rightarrow> string option \<Rightarrow> event_group list option \<Rightarrow> call" where
  "external_cancel env wid rid groups a = new_Promise (\<lambda>p s.
     let i = cur_scope a;
         s1 = (if sc_cancellable (scope_at s i)
               then snd (react_to (sc_promise (scope_at s i)) (CancelExternalR p (cur_markers a)) s) else s)
     in if consideredCancelled s1 i
        then eff_bind (patched env a EXTERNAL_WF_CANCEL_PATCH None)
               (\<lambda>b. if b then eff_return () else request_cancel_external env a wid rid groups p) s1
        else request_cancel_external env a wid rid groups p s1)"

section \<open>Conditions\<close>

definition conditionInner :: "user_code \<Rightarrow> nat \<Rightarrow> call" where
  "conditionInner uc fn a = new_Promise (\<lambda>p s.
     let i = cur_scope a; sp = sc_promise (scope_at s i) in
     if consideredCancelled s i then (snd (react_to sp (RejectPromise p) s), Inr ())
     else
       let (n, s1) = take_seq ConditionS s;
           s2 = (if sc_cancellable (scope_at s1 i) then snd (react_to sp (CancelConditionR n p) s1) else s1)
       in eff_bind (uc_call uc fn [] a) (\<lambda>v.
            if truthy v then eff_modify (resolve_promise p Undefined)
            else eff_modify (\<lambda>s. s\<lparr>blockedConditions := js_set (blockedConditions s) n
                   \<lparr>cond_fn = fn, cond_promise = p\<rparr>\<rparr>)) s2)"

section \<open>Handlers\<close>

datatype def_type = QueryDef | SignalDef | UpdateDef

definition def_type_name :: "def_type \<Rightarrow> string" where
  "def_type_name d = (case d of QueryDef \<Rightarrow> ''query'' | SignalDef \<Rightarrow> ''signal'' | UpdateDef \<Rightarrow> ''update'')"

text \<open>\<^verbatim>\<open>packages/common/src/reserved.ts\<close>.\<close>

definition INTERNAL_RESERVED_NAME_ALLOWLIST :: "(string, string) js_map" where
  "INTERNAL_RESERVED_NAME_ALLOWLIST = [
     (''__temporal_workflow_stream_publish'', ''signal''),
     (''__temporal_workflow_stream_poll'', ''update''),
     (''__temporal_workflow_stream_offset'', ''query''),
     (''__temporal_openai_agents_tracing'', ''sink''),
     (''__temporal_langsmith'', ''sink'')]"

definition throwIfReservedName :: "string \<Rightarrow> string \<Rightarrow> js_error + unit" where
  "throwIfReservedName ty n =
     (if starts_with n TEMPORAL_RESERVED_PREFIX \<and> js_get INTERNAL_RESERVED_NAME_ALLOWLIST n \<noteq> Some ty
      then Inl (reserved_name_error ty n)
      else if n = ''__stack_trace'' \<or> n = ''__enhanced_stack_trace''
      then Inl (TypeError (''Cannot use '' @ ty @ '' name: '' @ [CHR 0x27] @ n @ [CHR 0x27] @ '', which is a reserved name''))
      else Inr ())"

record handler_options =
  ho_validator :: "nat option"
  ho_description :: "string option"
  ho_unfinishedPolicy :: "unfinished_policy option"

definition handler_entry_of :: "nat \<Rightarrow> handler_options \<Rightarrow> payload_type_info option \<Rightarrow> handler_entry" where
  "handler_entry_of f opts ti = \<lparr>he_handler = f, he_validator = ho_validator opts,
     he_description = ho_description opts,
     he_unfinishedPolicy = (case ho_unfinishedPolicy opts of None \<Rightarrow> WARN_AND_ABANDON | Some p \<Rightarrow> p),
     he_typeInfo = ti\<rparr>"

text \<open>
  Registering a handler dispatches what was buffered; the bound of the loop is the number of buffered
  messages. The result is \<open>None\<close> if the loop would not end.
\<close>

definition setHandler ::
  "user_code \<Rightarrow> als \<Rightarrow> def_type \<Rightarrow> string \<Rightarrow> nat option \<Rightarrow> handler_options \<Rightarrow> payload_type_info option \<Rightarrow>
     activator \<Rightarrow> (activator \<times> (js_error + unit)) option" where
  "setHandler uc a d n handler opts ti s =
     (case throwIfReservedName (def_type_name d) n of
        Inl e \<Rightarrow> Some (s, Inl e)
      | Inr _ \<Rightarrow>
          (case (d, handler) of
             (UpdateDef, Some f) \<Rightarrow>
               let s1 = s\<lparr>updateHandlers := js_set (updateHandlers s) n (handler_entry_of f opts ti)\<rparr>
               in dispatchBufferedUpdates uc a (length (bufferedUpdates s1)) s1
           | (UpdateDef, None) \<Rightarrow> Some (s\<lparr>updateHandlers := js_delete (updateHandlers s) n\<rparr>, Inr ())
           | (SignalDef, Some f) \<Rightarrow>
               let s1 = s\<lparr>signalHandlers := js_set (signalHandlers s) n
                            ((handler_entry_of f opts ti)\<lparr>he_validator := None\<rparr>)\<rparr>
               in dispatchBufferedSignals uc a (length (bufferedSignals s1)) s1
           | (SignalDef, None) \<Rightarrow> Some (s\<lparr>signalHandlers := js_delete (signalHandlers s) n\<rparr>, Inr ())
           | (QueryDef, Some f) \<Rightarrow>
               Some (s\<lparr>queryHandlers := js_set (queryHandlers s) n
                 ((handler_entry_of f opts ti)\<lparr>he_validator := None, he_unfinishedPolicy := WARN_AND_ABANDON\<rparr>)\<rparr>, Inr ())
           | (QueryDef, None) \<Rightarrow> Some (s\<lparr>queryHandlers := js_delete (queryHandlers s) n\<rparr>, Inr ())))"

definition setDefaultSignalHandler ::
  "user_code \<Rightarrow> als \<Rightarrow> nat option \<Rightarrow> activator \<Rightarrow> (activator \<times> (js_error + unit)) option" where
  "setDefaultSignalHandler uc a handler s = (case handler of
     Some f \<Rightarrow> let s1 = s\<lparr>defaultSignalHandler := Some f\<rparr>
               in dispatchBufferedSignals uc a (length (bufferedSignals s1)) s1
   | None \<Rightarrow> Some (s\<lparr>defaultSignalHandler := None\<rparr>, Inr ()))"

definition setDefaultUpdateHandler ::
  "user_code \<Rightarrow> als \<Rightarrow> nat option \<Rightarrow> activator \<Rightarrow> (activator \<times> (js_error + unit)) option" where
  "setDefaultUpdateHandler uc a handler s = (case handler of
     Some f \<Rightarrow> let s1 = s\<lparr>defaultUpdateHandler := Some f\<rparr>
               in dispatchBufferedUpdates uc a (length (bufferedUpdates s1)) s1
   | None \<Rightarrow> Some (s\<lparr>defaultUpdateHandler := None\<rparr>, Inr ()))"

definition setDefaultQueryHandler :: "nat option \<Rightarrow> activator \<Rightarrow> activator" where
  "setDefaultQueryHandler handler s = s\<lparr>defaultQueryHandler := handler\<rparr>"

section \<open>Memo, continue-as-new, details\<close>

fun js_spread :: "(string \<times> jsval) list \<Rightarrow> (string \<times> jsval) list \<Rightarrow> (string \<times> jsval) list" where
  "js_spread m [] = m"
| "js_spread m ((k, v) # kvs) = js_spread (js_set m k v) kvs"

definition upsertMemo ::
  "api_env \<Rightarrow> als \<Rightarrow> (string \<times> jsval) list option \<Rightarrow> event_group list option \<Rightarrow> unit act" where
  "upsertMemo env a m groups s = (case m of
     None \<Rightarrow> (s, Inl (PlainError ''memo must be a non-null Record''))
   | Some m \<Rightarrow>
       (case bind_res (mapToPayloads (payloadConverter s)
                (map (\<lambda>(k, v). (k, if js_nullish v then Undefined else v)) m) (Some (current_context s))) (\<lambda>fs.
              bind_res (eventGroupMarkersToProto (ev_dpc env) groups (cur_markers a)) (\<lambda>mk.
                Inr \<lparr>variant = ModifyWorkflowProperties fs, cmd_userMetadata = None, cmd_eventGroupMarkers = mk\<rparr>)) of
          Inl e \<Rightarrow> (s, Inl e)
        | Inr cmd \<Rightarrow>
            let s1 = pushCommand cmd False s
            in (s1\<lparr>info := (info s1)\<lparr>memo := Some (filter (\<lambda>(k, v). \<not> js_nullish v)
                  (js_spread (case memo (info s1) of None \<Rightarrow> [] | Some x \<Rightarrow> x) m))\<rparr>\<rparr>, Inr ())))"

record can_options =
  cn_workflowType :: "string option"
  cn_taskQueue :: "string option"
  cn_memo :: "(string \<times> jsval) list option"
  cn_searchAttributes :: "(js_error + (string \<times> payload) list) option"
  cn_workflowRunTimeout :: "duration option"
  cn_workflowTaskTimeout :: "duration option"
  cn_backoffStartInterval :: "duration option"
  cn_versioningIntent :: "string option"
  cn_initialVersioningBehavior :: "string option"
  cn_typeInfo :: "payload_type_info option"
  cn_eventGroups :: "event_group list option"

text \<open>
  The body of the function that \<^verbatim>\<open>makeContinueAsNewFunc\<close> returns: it always throws, the special error
  with the command if nothing goes wrong before.
\<close>

definition continue_as_new_error ::
  "api_env \<Rightarrow> als \<Rightarrow> can_options \<Rightarrow> (string \<times> payload) list \<Rightarrow> jsval list \<Rightarrow> activator \<Rightarrow> js_error" where
  "continue_as_new_error env a opts headers args s =
     (let ms = ev_ms env; ctx = Some (current_context s); conv = payloadConverter s;
          wtype = (case cn_workflowType opts of None \<Rightarrow> workflowType (info s) | Some w \<Rightarrow> w);
          tq = (case cn_taskQueue opts of None \<Rightarrow> taskQueue (info s) | Some q \<Rightarrow> q);
          ti = (case cn_typeInfo opts of Some t \<Rightarrow> Some t
                | None \<Rightarrow> if wtype = workflowType (info s) then typeInfo s else None)
      in case
           bind_res (toPayloadsWithContext conv ctx args (input_types ti)) (\<lambda>ps.
           bind_res (compile_optional (\<lambda>m. mapToPayloads conv m ctx) (cn_memo opts)) (\<lambda>mem.
           bind_res (compile_optional (\<lambda>r. r) (cn_searchAttributes opts)) (\<lambda>sas.
           bind_res (msOptionalToTs ms (cn_workflowRunTimeout opts)) (\<lambda>rnt.
           bind_res (msOptionalToTs ms (cn_workflowTaskTimeout opts)) (\<lambda>tt.
           bind_res (msOptionalToTs ms (cn_backoffStartInterval opts)) (\<lambda>bi.
           bind_res (versioningIntentToProto (cn_versioningIntent opts)) (\<lambda>vi.
           bind_res (encodeEnum initialVersioningBehavior_table (enum_name (cn_initialVersioningBehavior opts))) (\<lambda>ivb.
           bind_res (eventGroupMarkersToProto (ev_dpc env) (cn_eventGroups opts) (cur_markers a)) (\<lambda>mk.
             Inr (ContinueAsNew \<lparr>can_workflowType = wtype, can_arguments = ps, can_headers = headers,
                 can_taskQueue = tq, can_memo = mem, can_searchAttributes = sas, can_workflowRunTimeout = rnt,
                 can_workflowTaskTimeout = tt, can_backoffStartInterval = bi, can_versioningIntent = vi,
                 can_initialVersioningBehavior = ivb\<rparr> mk)))))))))) of
           Inl e \<Rightarrow> e
         | Inr e \<Rightarrow> e)"

definition allHandlersFinished :: "activator \<Rightarrow> bool" where
  "allHandlersFinished s \<longleftrightarrow> inProgressSignals s = [] \<and> inProgressUpdates s = []"

definition setCurrentDetails :: "string \<Rightarrow> activator \<Rightarrow> activator" where
  "setCurrentDetails d s = s\<lparr>currentDetails := d\<rparr>"

end
