(* ===== verification/WorkerInterface.thy ===== *)
theory WorkerInterface
  imports WorkflowApi
begin

text \<open>
  What the worker does with a workflow execution: the functions of
  \<^verbatim>\<open>packages/workflow/src/worker-interface.ts\<close> that run inside the isolate, the reactions of promises and
  the microtask queue, and \<^verbatim>\<open>BaseVMWorkflow\<close> of \<^verbatim>\<open>packages/worker/src/workflow/vm-shared.ts\<close>, which orders the
  jobs of an activation.
\<close>

section \<open>Reactions\<close>

text \<open>
  The outbound interceptors that reactions of the SDK itself call.
\<close>

record outbound =
  ob_startTimer :: "(timer_input, call) interceptor list"
  ob_scheduleLocalActivity :: "(local_activity_input, call) interceptor list"

definition push_with_markers ::
  "api_env \<Rightarrow> command_variant \<Rightarrow> event_group list option \<Rightarrow> marker_scopes option \<Rightarrow> unit act" where
  "push_with_markers env v groups store s = (case eventGroupMarkersToProto (ev_dpc env) groups store of
     Inl e \<Rightarrow> (s, Inl e)
   | Inr mk \<Rightarrow> (pushCommand \<lparr>variant = v, cmd_userMetadata = None, cmd_eventGroupMarkers = mk\<rparr> False s, Inr ()))"

text \<open>The callbacks of a cancelled scope; \<open>err\<close> is the reason of the cancellation.\<close>

fun on_cancel :: "api_env \<Rightarrow> react \<Rightarrow> js_error \<Rightarrow> unit act" where
  "on_cancel env (RejectPromise p) err s = (reject_promise p err s, Inr ())"
| "on_cancel env (CancelTimerR n p groups store) err s =
     (if completions s TimerC n = None then (s, Inr ())
      else eff_bind (push_with_markers env (CancelTimer n) groups store)
             (\<lambda>_. eff_modify (reject_promise p err)) (delete_completion TimerC n s))"
| "on_cancel env (CancelActivityR n groups store) err s =
     (if completions s ActivityC n = None then (s, Inr ())
      else push_with_markers env (RequestCancelActivity n) groups store s)"
| "on_cancel env (CancelLocalActivityR n) err s =
     (if completions s ActivityC n = None then (s, Inr ())
      else (pushCommand (plain_command (RequestCancelLocalActivity n)) False s, Inr ()))"
| "on_cancel env (CancelChildR n groups store) err s =
     (if completions s ChildWorkflowCompleteC n = None then (s, Inr ())
      else push_with_markers env (CancelChildWorkflowExecution n) groups store s)"
| "on_cancel env (CancelSignalR n) err s =
     (if completions s SignalWorkflowC n = None then (s, Inr ())
      else (pushCommand (plain_command (CancelSignalWorkflow n)) False s, Inr ()))"
| "on_cancel env (CancelExternalR p store) err s =
     eff_bind (patchInternal (ev_dpc env) store EXTERNAL_WF_CANCEL_PATCH False None)
       (\<lambda>b. if b then eff_modify (reject_promise p err) else eff_return ()) s"
| "on_cancel env (CancelConditionR n p) err s =
     (reject_promise p err (s\<lparr>blockedConditions := js_delete (blockedConditions s) n\<rparr>), Inr ())"
| "on_cancel env h err s = (s, Inr ())"

definition as_outcome :: "activator \<times> (js_error + unit) \<Rightarrow> activator \<times> outcome" where
  "as_outcome x = (fst x, case snd x of Inl e \<Rightarrow> Inl e | Inr _ \<Rightarrow> Inr Undefined)"

fun cancels :: "react \<Rightarrow> bool" where
  "cancels (RejectPromise _) = True"
| "cancels (CancelTimerR _ _ _ _) = True"
| "cancels (CancelActivityR _ _ _) = True"
| "cancels (CancelLocalActivityR _) = True"
| "cancels (CancelChildR _ _ _) = True"
| "cancels (CancelSignalR _) = True"
| "cancels (CancelExternalR _ _) = True"
| "cancels (CancelConditionR _ _) = True"
| "cancels _ = False"

definition query_output_type :: "activator \<Rightarrow> string \<Rightarrow> type_info option" where
  "query_output_type s qid = (case js_get (queryOutputTypes s) qid of None \<Rightarrow> None | Some ti \<Rightarrow> ti)"

text \<open>
  A reaction runs with the outcome of its promise and produces the outcome of the promise that
  \<open>then\<close>, \<open>catch\<close> or \<open>finally\<close> returned.
\<close>

fun run_react :: "api_env \<Rightarrow> outbound \<Rightarrow> user_code \<Rightarrow> react \<Rightarrow> outcome \<Rightarrow> activator \<Rightarrow> activator \<times> outcome" where
  "run_react env ob uc (PropagateCancel i) r s = scope_react (PropagateCancel i) r s"
| "run_react env ob uc (PropagateCancelUnlessShielded i) r s = scope_react (PropagateCancelUnlessShielded i) r s"
| "run_react env ob uc (Follow q) r s = (upd_rt (settle q r) s, r)"
| "run_react env ob uc LifecycleLog r s = (s, r)"
| "run_react env ob uc WorkflowSettled r s =
     as_outcome (case r of Inr v \<Rightarrow> completeWorkflow v s | Inl e \<Rightarrow> handleWorkflowFailure e s)"
| "run_react env ob uc SignalCatch r s =
     (case r of Inr v \<Rightarrow> (s, r) | Inl e \<Rightarrow> as_outcome (handleWorkflowFailure e s))"
| "run_react env ob uc (SignalFinally n) r s =
     (s\<lparr>inProgressSignals := js_delete (inProgressSignals s) n\<rparr>, r)"
| "run_react env ob uc (UpdateThen pid ti) r s =
     (case r of Inr v \<Rightarrow> as_outcome (completeUpdate pid v ti s) | Inl e \<Rightarrow> (s, r))"
| "run_react env ob uc (UpdateCatch pid) r s =
     (case r of
        Inr v \<Rightarrow> (s, r)
      | Inl e \<Rightarrow> as_outcome (if is_TemporalFailure e then rejectUpdate pid e s else handleWorkflowFailure e s))"
| "run_react env ob uc (UpdateFinally uid) r s =
     (s\<lparr>inProgressUpdates := js_delete (inProgressUpdates s) uid\<rparr>, r)"
| "run_react env ob uc (QuerySettled qid) r s =
     as_outcome (case r of Inr v \<Rightarrow> completeQuery qid v (query_output_type s qid) s | Inl e \<Rightarrow> failQuery qid e s)"
| "run_react env ob uc Swallow r s = (s, case r of Inl _ \<Rightarrow> Inr Undefined | Inr v \<Rightarrow> Inr v)"
| "run_react env ob uc (TimeoutExpired i) r s =
     (case r of Inr _ \<Rightarrow> (cancel_scope i s, Inr Undefined) | Inl _ \<Rightarrow> (s, Inr Undefined))"
| "run_react env ob uc (LocalActivitySettled c) r s =
     (local_activity_settled env (ob_startTimer ob) c r s, Inr Undefined)"
| "run_react env ob uc (LocalActivitySlept c b) r s =
     (local_activity_slept env (ob_scheduleLocalActivity ob) c b r s, Inr Undefined)"
| "run_react env ob uc (UserReact f) r s = uc_react uc f r s"
| "run_react env ob uc h r s = (case r of Inl e \<Rightarrow> as_outcome (on_cancel env h e s) | Inr v \<Rightarrow> (s, r))"

section \<open>Microtasks\<close>

text \<open>
  One microtask: the outcome of the handler settles the derived promise; a promise as outcome is
  adopted.
\<close>

definition settle_derived :: "nat \<Rightarrow> outcome \<Rightarrow> activator \<Rightarrow> activator" where
  "settle_derived d r s = (case r of
     Inr (JPromise q) \<Rightarrow> snd (react_to q (Follow d) s)
   | _ \<Rightarrow> upd_rt (settle d r) s)"

definition run_microtask :: "api_env \<Rightarrow> outbound \<Rightarrow> user_code \<Rightarrow> activator \<Rightarrow> activator" where
  "run_microtask env ob uc s = (case pop_microtask (rt s) of
     None \<Rightarrow> s
   | Some ((h, d, v), r) \<Rightarrow>
       case run_react env ob uc h v (s\<lparr>rt := r\<rparr>) of (s', out) \<Rightarrow> settle_derived d out s')"

text \<open>Draining the queue; \<open>None\<close> if it is not empty after \<open>fuel\<close> microtasks.\<close>

fun run_microtasks :: "api_env \<Rightarrow> outbound \<Rightarrow> user_code \<Rightarrow> nat \<Rightarrow> activator \<Rightarrow> activator option" where
  "run_microtasks env ob uc fuel s =
     (if microtasks (rt s) = [] then Some s
      else case fuel of 0 \<Rightarrow> None | Suc f \<Rightarrow> run_microtasks env ob uc f (run_microtask env ob uc s))"

declare run_microtasks.simps [simp del]

section \<open>Conditions\<close>

text \<open>
  One pass over the blocked conditions. The iterator of a \<open>Map\<close> is live: entries removed during the
  pass are skipped and entries added at the end are visited. New entries have new keys, so the next
  entry is the first one whose key is not among those \<open>seen\<close>. The loops end unless condition functions
  keep adding conditions; \<open>fuel\<close> bounds the entries visited by a pass and the number of passes, and \<open>None\<close>
  stands for a loop that exceeds it.
\<close>

definition next_entry :: "nat list \<Rightarrow> activator \<Rightarrow> (nat \<times> cond_entry) option" where
  "next_entry seen s = find (\<lambda>(n, c). n \<notin> set seen) (blockedConditions s)"

fun unblock_pass ::
  "user_code \<Rightarrow> nat \<Rightarrow> nat list \<Rightarrow> nat \<Rightarrow> activator \<Rightarrow> (activator \<times> (js_error + nat)) option" where
  "unblock_pass uc fuel seen count s = (case next_entry seen s of
     None \<Rightarrow> Some (s, Inr count)
   | Some (n, c) \<Rightarrow>
       (case fuel of
          0 \<Rightarrow> None
        | Suc f \<Rightarrow>
            (case uc_call uc (cond_fn c) [] root_als s of
               (s1, Inl e) \<Rightarrow> Some (s1, Inl e)
             | (s1, Inr v) \<Rightarrow>
                 if truthy v
                 then let s2 = resolve_promise (cond_promise c) Undefined s1
                      in unblock_pass uc f (n # seen) (Suc count)
                           (s2\<lparr>blockedConditions := js_delete (blockedConditions s2) n\<rparr>)
                 else unblock_pass uc f (n # seen) count s1)))"

declare unblock_pass.simps [simp del]

fun unblock_loop ::
  "user_code \<Rightarrow> nat \<Rightarrow> nat \<Rightarrow> nat \<Rightarrow> activator \<Rightarrow> (activator \<times> (js_error + nat)) option" where
  "unblock_loop uc bound 0 count s = None"
| "unblock_loop uc bound (Suc f) count s =
     (case maybeRethrowWorkflowTaskError s of
        (s1, Inl e) \<Rightarrow> Some (s1, Inl e)
      | (s1, Inr _) \<Rightarrow>
          if \<not> checkConditions s1 then Some (s1, Inr count)
          else case unblock_pass uc bound [] count s1 of
                 None \<Rightarrow> None
               | Some (s2, Inl e) \<Rightarrow> Some (s2, Inl e)
               | Some (s2, Inr count') \<Rightarrow>
                   if count' = count then Some (s2, Inr count') else unblock_loop uc bound f count' s2)"

definition set_rethrow :: "bool \<Rightarrow> activator \<Rightarrow> activator" where
  "set_rethrow b s = s\<lparr>rethrowSynchronously := b\<rparr>"

definition finally_no_rethrow :: "(activator \<times> 'a) option \<Rightarrow> (activator \<times> 'a) option" where
  "finally_no_rethrow x = map_option (\<lambda>(s, r). (set_rethrow False s, r)) x"

definition tryUnblockConditions :: "user_code \<Rightarrow> nat \<Rightarrow> activator \<Rightarrow> (activator \<times> (js_error + nat)) option" where
  "tryUnblockConditions uc fuel s = finally_no_rethrow (unblock_loop uc fuel fuel 0 (set_rethrow True s))"

section \<open>Activation\<close>

datatype job =
    JInitialize init_job "(string \<times> payload) list"
  | JFireTimer "nat option"
  | JUpdateRandomSeed "nat list option"
  | JQuery query_job
  | JCancelWorkflow
  | JSignal signal_job
  | JResolveActivity "nat option" "activity_resolution option"
  | JNotifyHasPatch "string option"
  | JChildStart "nat option" child_start_resolution
  | JChild "nat option" "child_resolution option"
  | JSignalExternal "nat option" "proto_failure option"
  | JCancelExternal "nat option" "proto_failure option"
  | JDoUpdate update_job
  | JNexusStart "nat option" "proto_failure option" "string option"
  | JNexus "nat option" nexus_resolution
  | JRemoveFromCache
  | JNoVariant

fun is_query :: "job \<Rightarrow> bool" where
  "is_query (JQuery _) = True"
| "is_query _ = False"

fun is_safe_with_start :: "job \<Rightarrow> bool" where
  "is_safe_with_start (JInitialize _ _) = True"
| "is_safe_with_start (JSignal _) = True"
| "is_safe_with_start (JDoUpdate _) = True"
| "is_safe_with_start JCancelWorkflow = True"
| "is_safe_with_start (JUpdateRandomSeed _) = True"
| "is_safe_with_start _ = False"

fun job_variant :: "job \<Rightarrow> string" where
  "job_variant (JInitialize _ _) = ''initializeWorkflow''"
| "job_variant (JFireTimer _) = ''fireTimer''"
| "job_variant (JUpdateRandomSeed _) = ''updateRandomSeed''"
| "job_variant (JQuery _) = ''queryWorkflow''"
| "job_variant JCancelWorkflow = ''cancelWorkflow''"
| "job_variant (JSignal _) = ''signalWorkflow''"
| "job_variant (JResolveActivity _ _) = ''resolveActivity''"
| "job_variant (JNotifyHasPatch _) = ''notifyHasPatch''"
| "job_variant (JChildStart _ _) = ''resolveChildWorkflowExecutionStart''"
| "job_variant (JChild _ _) = ''resolveChildWorkflowExecution''"
| "job_variant (JSignalExternal _ _) = ''resolveSignalExternalWorkflow''"
| "job_variant (JCancelExternal _ _) = ''resolveRequestCancelExternalWorkflow''"
| "job_variant (JDoUpdate _) = ''doUpdate''"
| "job_variant (JNexusStart _ _ _) = ''resolveNexusOperationStart''"
| "job_variant (JNexus _ _) = ''resolveNexusOperation''"
| "job_variant JRemoveFromCache = ''removeFromCache''"
| "job_variant JNoVariant = ''undefined''"

text \<open>\<open>JSON.stringify\<close> on an array of names.\<close>

definition json_names :: "string list \<Rightarrow> string" where
  "json_names xs = ''['' @ concat (map2 (\<lambda>sep x. sep @ [CHR 0x22] @ x @ [CHR 0x22]) ([] # replicate (length xs - 1) '','') xs) @ '']''"

text \<open>
  The parameters of a run: the environment of the API, interceptors, user code, the options the
  workflow's options getter returns, the registry of system Nexus operations, and the number of steps after
  which a loop that has not ended counts as endless.
\<close>

record worker_env =
  we_api :: api_env
  we_outbound :: outbound
  we_code :: user_code
  we_options :: "(string option \<times> err_class list option) option"
  we_nexus :: "(string \<times> string) list"
  we_fuel :: nat

fun run_job :: "worker_env \<Rightarrow> job \<Rightarrow> unit act" where
  "run_job we (JInitialize ij hs) = initializeWorkflow (we_options we) ij"
| "run_job we (JFireTimer n) = fireTimer n"
| "run_job we (JUpdateRandomSeed seed) = updateRandomSeed seed"
| "run_job we (JQuery q) = queryWorkflow (we_code we) q"
| "run_job we JCancelWorkflow = eff_modify cancelWorkflow"
| "run_job we (JSignal j) = signalWorkflow (we_code we) root_als j"
| "run_job we (JResolveActivity n r) = resolveActivity n r"
| "run_job we (JNotifyHasPatch p) = notifyHasPatch p"
| "run_job we (JChildStart n r) = resolveChildWorkflowExecutionStart n r"
| "run_job we (JChild n r) = resolveChildWorkflowExecution n r"
| "run_job we (JSignalExternal n f) = resolveSignalExternalWorkflow n f"
| "run_job we (JCancelExternal n f) = resolveRequestCancelExternalWorkflow n f"
| "run_job we (JDoUpdate j) = doUpdate (we_code we) root_als j"
| "run_job we (JNexusStart n f tok) = resolveNexusOperationStart n f tok"
| "run_job we (JNexus n r) = resolveNexusOperation (we_nexus we) (ev_dpc (we_api we)) n r"
| "run_job we JRemoveFromCache = removeFromCache"
| "run_job we JNoVariant = eff_throw (TypeError ''Expected job.variant to be defined'')"

fun run_jobs :: "worker_env \<Rightarrow> job list \<Rightarrow> activator \<Rightarrow> (activator \<times> (js_error + unit)) option" where
  "run_jobs we [] s = Some (s, Inr ())"
| "run_jobs we (j # js) s =
     (case run_job we j s of
        (s1, Inl e) \<Rightarrow> Some (s1, Inl e)
      | (s1, Inr _) \<Rightarrow>
          if is_query j then run_jobs we js s1
          else case tryUnblockConditions (we_code we) (we_fuel we) s1 of
                 None \<Rightarrow> None
               | Some (s2, Inl e) \<Rightarrow> Some (s2, Inl e)
               | Some (s2, Inr _) \<Rightarrow> run_jobs we js s2)"

definition activate_body :: "worker_env \<Rightarrow> job list \<Rightarrow> activator \<Rightarrow> (activator \<times> (js_error + unit)) option" where
  "activate_body we jobs s =
     (case jobs of
        JInitialize ij hs # rest \<Rightarrow>
          (case run_jobs we rest s of
             None \<Rightarrow> None
           | Some (s1, Inl e) \<Rightarrow> Some (s1, Inl e)
           | Some (s1, Inr _) \<Rightarrow>
               if \<exists>j \<in> set rest. \<not> is_safe_with_start j
               then Some (s1, Inl (TypeError
                 (''Received both initializeWorkflow and non-signal/non-update jobs in the same activation: '' @
                  json_names (map job_variant rest))))
               else (case startWorkflow (we_code we) (ij_arguments ij) hs s1 of
                       (s2, Inl e) \<Rightarrow> Some (s2, Inl e)
                     | (s2, Inr _) \<Rightarrow>
                         (case tryUnblockConditions (we_code we) (we_fuel we) s2 of
                            None \<Rightarrow> None
                          | Some (s3, Inl e) \<Rightarrow> Some (s3, Inl e)
                          | Some (s3, Inr _) \<Rightarrow> Some (s3, Inr ()))))
      | _ \<Rightarrow> run_jobs we jobs s)"

text \<open>Without interceptors of the internals; \<open>batchIndex\<close> is only passed to them.\<close>

definition activate :: "worker_env \<Rightarrow> job list \<Rightarrow> activator \<Rightarrow> (activator \<times> (js_error + unit)) option" where
  "activate we jobs s = finally_no_rethrow (activate_body we jobs (set_rethrow True s))"

definition initialize :: "worker_env \<Rightarrow> init_job \<Rightarrow> unit act" where
  "initialize we ij s =
     (case initializeWorkflow (we_options we) ij (set_rethrow True s) of (s', r) \<Rightarrow> (set_rethrow False s', r))"

record activation_result =
  ar_runId :: string
  ar_commands :: "wf_command list"
  ar_usedInternalFlags :: "nat list"
  ar_versioningBehavior :: "enum_value option"

definition conclude :: "activation_result act" where
  "conclude s =
     (case rejectBufferedUpdates (set_rethrow True s) of
        (s1, Inl e) \<Rightarrow> (set_rethrow False s1, Inl e)
      | (s1, Inr _) \<Rightarrow>
          let (ac, s2) = concludeActivation s1;
              s3 = (if completed s2 then warnIfUnfinishedHandlers s2 else s2)
          in case encodeEnum versioningBehavior_table (enum_name (ac_versioningBehavior ac)) of
               Inl e \<Rightarrow> (set_rethrow False s3, Inl e)
             | Inr vb \<Rightarrow> (set_rethrow False s3, Inr \<lparr>ar_runId = runId (info s3), ar_commands = ac_commands ac,
                 ar_usedInternalFlags = usedInternalFlags ac, ar_versioningBehavior = vb\<rparr>))"

section \<open>Conditions are unblocked\<close>

text \<open>
  A condition function is \<open>pure\<close> if it changes nothing and its value depends on the variables of the
  workflow code only.
\<close>

definition cond_value :: "user_code \<Rightarrow> (string, jsval) js_map \<Rightarrow> nat \<Rightarrow> jsval \<Rightarrow> bool" where
  "cond_value uc h f v \<longleftrightarrow> (\<forall>s. heap s = h \<longrightarrow> uc_call uc f [] root_als s = (s, Inr v))"

definition resolve_all :: "(nat \<times> cond_entry) list \<Rightarrow> wf_runtime \<Rightarrow> wf_runtime" where
  "resolve_all cs r = foldl (\<lambda>r (n, c). settle (cond_promise c) (Inr Undefined) r) r cs"

lemma next_entry_split:
  assumes "blockedConditions s = pre @ post" and "fst ` set pre \<subseteq> set seen" and "fst ` set post \<inter> set seen = {}"
  shows "next_entry seen s = (case post of [] \<Rightarrow> None | e # es \<Rightarrow> Some e)"
proof -
  have skip: "find P (pre @ post) = find P post" if "\<forall>e \<in> set pre. \<not> P e" for P
    using that by (induction pre) auto
  have "next_entry seen s = find (\<lambda>(n, c). n \<notin> set seen) post"
    unfolding next_entry_def assms(1) by (rule skip) (use assms(2) in force)
  then show ?thesis using assms(3) by (cases post) auto
qed

lemma js_delete_middle:
  "n \<notin> fst ` set pre \<Longrightarrow> n \<notin> fst ` set post \<Longrightarrow> js_delete (pre @ (n, c) # post) n = pre @ post"
  by (auto simp: js_delete_def image_iff intro!: arg_cong2 [where f = "(@)"] filter_True)

lemma unblock_pass_pure:
  assumes "blockedConditions s = pre @ post" and "distinct (map fst (pre @ post))"
    and "fst ` set pre \<subseteq> set seen" and "fst ` set post \<inter> set seen = {}" and "length post \<le> fuel"
    and "\<forall>(n, c) \<in> set post. cond_value uc (heap s) (cond_fn c) (val c)"
  shows "unblock_pass uc fuel seen count s =
     Some (s\<lparr>rt := resolve_all (filter (\<lambda>(n, c). truthy (val c)) post) (rt s),
              blockedConditions := pre @ filter (\<lambda>(n, c). \<not> truthy (val c)) post\<rparr>,
           Inr (count + length (filter (\<lambda>(n, c). truthy (val c)) post)))"
  using assms
proof (induction post arbitrary: s pre seen fuel count)
  case Nil
  have "next_entry seen s = None" using next_entry_split [OF Nil.prems(1,3,4)] by simp
  then show ?case using Nil.prems(1) by (subst unblock_pass.simps) (simp add: resolve_all_def)
next
  case (Cons e post)
  obtain n c where e: "e = (n, c)" by fastforce
  obtain f where f: "fuel = Suc f" "length post \<le> f" using Cons.prems(5) by (cases fuel) auto
  have ne: "next_entry seen s = Some (n, c)" using next_entry_split [OF Cons.prems(1,3,4)] by (simp add: e)
  have call: "uc_call uc (cond_fn c) [] root_als s = (s, Inr (val c))"
    using Cons.prems(6) by (simp add: e cond_value_def)
  have n: "n \<notin> fst ` set pre" "n \<notin> fst ` set post" using Cons.prems(2) by (auto simp: e)
  have seen: "fst ` set pre \<subseteq> set (n # seen)" "fst ` set post \<inter> set (n # seen) = {}"
    using Cons.prems(3,4) n(2) by (auto simp: e)
  have vals: "\<forall>(m, d) \<in> set post. cond_value uc (heap s) (cond_fn d) (val d)"
    using Cons.prems(6) by simp
  show ?case
  proof (cases "truthy (val c)")
    case True
    define t where "t = s\<lparr>rt := settle (cond_promise c) (Inr Undefined) (rt s), blockedConditions := pre @ post\<rparr>"
    have del: "js_delete (blockedConditions s) n = pre @ post"
      using n by (simp add: Cons.prems(1) e js_delete_middle)
    have "unblock_pass uc fuel seen count s = unblock_pass uc f (n # seen) (Suc count) t"
      using del True by (subst unblock_pass.simps) (simp add: ne f(1) call resolve_promise_def upd_rt_def t_def Let_def)
    also have "\<dots> = Some (t\<lparr>rt := resolve_all (filter (\<lambda>(n, c). truthy (val c)) post) (rt t),
              blockedConditions := pre @ filter (\<lambda>(n, c). \<not> truthy (val c)) post\<rparr>,
           Inr (Suc count + length (filter (\<lambda>(n, c). truthy (val c)) post)))"
      by (rule Cons.IH) (use seen Cons.prems(2) f(2) vals in \<open>auto simp: t_def\<close>)
    finally show ?thesis using True by (simp add: t_def e resolve_all_def)
  next
    case False
    have "unblock_pass uc fuel seen count s = unblock_pass uc f (n # seen) count s"
      using False by (subst unblock_pass.simps) (simp add: ne f(1) call)
    also have "\<dots> = Some (s\<lparr>rt := resolve_all (filter (\<lambda>(n, c). truthy (val c)) post) (rt s),
              blockedConditions := (pre @ [e]) @ filter (\<lambda>(n, c). \<not> truthy (val c)) post\<rparr>,
           Inr (count + length (filter (\<lambda>(n, c). truthy (val c)) post)))"
      by (rule Cons.IH) (use seen f(2) vals Cons.prems(1,2) in \<open>auto simp: e\<close>)
    finally show ?thesis using False by (simp add: e)
  qed
qed

lemma unblock_pass_all:
  assumes "distinct (map fst (blockedConditions s))"
    and "\<forall>(n, c) \<in> set (blockedConditions s). cond_value uc (heap s) (cond_fn c) (val c)"
    and "length (blockedConditions s) \<le> fuel"
  shows "unblock_pass uc fuel [] count s =
     Some (s\<lparr>rt := resolve_all (filter (\<lambda>(n, c). truthy (val c)) (blockedConditions s)) (rt s),
              blockedConditions := filter (\<lambda>(n, c). \<not> truthy (val c)) (blockedConditions s)\<rparr>,
           Inr (count + length (filter (\<lambda>(n, c). truthy (val c)) (blockedConditions s))))"
  using assms unblock_pass_pure [where pre = "[]" and post = "blockedConditions s" and s = s and seen = "[]"]
  by simp

text \<open>
  C8: with pure condition functions, \<^verbatim>\<open>tryUnblockConditions\<close> ends and is exact: the promises of the
  conditions that hold are resolved, in the order the conditions were created, and exactly these
  conditions are removed; it returns how many they are. No condition that holds stays blocked.
\<close>

theorem tryUnblockConditions_exact:
  assumes "distinct (map fst (blockedConditions s))" and "checkConditions s" and "workflowTaskError s = None"
    and "\<forall>(n, c) \<in> set (blockedConditions s). cond_value uc (heap s) (cond_fn c) (val c)"
    and "length (blockedConditions s) < fuel"
  shows "tryUnblockConditions uc fuel s =
     Some (s\<lparr>rt := resolve_all (filter (\<lambda>(n, c). truthy (val c)) (blockedConditions s)) (rt s),
              blockedConditions := filter (\<lambda>(n, c). \<not> truthy (val c)) (blockedConditions s),
              rethrowSynchronously := False\<rparr>,
           Inr (length (filter (\<lambda>(n, c). truthy (val c)) (blockedConditions s))))"
proof -
  define T where "T = filter (\<lambda>(n, c). truthy (val c)) (blockedConditions s)"
  define F where "F = filter (\<lambda>(n, c). \<not> truthy (val c)) (blockedConditions s)"
  define s1 where "s1 = set_rethrow True s"
  define s2 where "s2 = s1\<lparr>rt := resolve_all T (rt s), blockedConditions := F\<rparr>"
  have s1: "blockedConditions s1 = blockedConditions s" "rt s1 = rt s" "distinct (map fst (blockedConditions s1))"
    "\<forall>(n, c) \<in> set (blockedConditions s1). cond_value uc (heap s1) (cond_fn c) (val c)"
    using assms(1,4) by (simp_all add: s1_def set_rethrow_def)
  have pass1: "unblock_pass uc fuel [] 0 s1 = Some (s2, Inr (length T))"
    using unblock_pass_all [OF s1(3,4), of fuel 0] assms(5) by (simp add: s1(1,2) s2_def T_def F_def)
  have ord2: "distinct (map fst (blockedConditions s2))"
    using assms(1) by (simp add: s2_def F_def distinct_map_filter)
  have none: "filter (\<lambda>(n, c). truthy (val c)) F = []" "filter (\<lambda>(n, c). \<not> truthy (val c)) F = F"
    by (auto simp: F_def filter_empty_conv filter_id_conv)
  have "\<forall>(n, c) \<in> set (blockedConditions s2). cond_value uc (heap s2) (cond_fn c) (val c)"
    using s1(4) by (auto simp: s2_def F_def s1(1))
  moreover have "length (blockedConditions s2) \<le> fuel"
    unfolding s2_def F_def
    using assms(5) by (simp, intro order_trans [OF length_filter_le]) simp
  ultimately have pass2: "unblock_pass uc fuel [] (length T) s2 = Some (s2, Inr (length T))"
    using unblock_pass_all [OF ord2, of uc val fuel "length T"] none by (simp add: s2_def resolve_all_def)
  have go: "maybeRethrowWorkflowTaskError s1 = (s1, Inr ())" "checkConditions s1"
    "maybeRethrowWorkflowTaskError s2 = (s2, Inr ())" "checkConditions s2"
    using assms(2,3) by (simp_all add: s1_def s2_def set_rethrow_def maybeRethrowWorkflowTaskError_def)
  obtain f where f: "fuel = Suc f" using assms(5) by (cases fuel) auto
  have "unblock_loop uc fuel fuel 0 s1 = Some (s2, Inr (length T))"
  proof (cases "T = []")
    case True
    then show ?thesis using pass1 go by (simp add: f)
  next
    case False
    then obtain g where "f = Suc g" using assms(5) f by (cases "blockedConditions s"; cases f) (simp_all add: T_def)
    then show ?thesis using pass1 pass2 go False f by simp
  qed
  then show ?thesis
    by (simp add: tryUnblockConditions_def finally_no_rethrow_def s1_def [symmetric] T_def [symmetric] F_def [symmetric])
       (simp add: s2_def s1_def set_rethrow_def)
qed

definition pure_code :: user_code where
  "pure_code = recording_code\<lparr>uc_call := (\<lambda>f args a s. (s, Inr (JBool (js_has (heap s) (nat_to_string f)))))\<rparr>"

definition blocked_example :: activator where
  "blocked_example = example_activator\<lparr>checkConditions := True, heap := [(nat_to_string 7, Null)],
     blockedConditions := [(1, \<lparr>cond_fn = 6, cond_promise = 2\<rparr>), (2, \<lparr>cond_fn = 7, cond_promise = 3\<rparr>)]\<rparr>"

theorem tryUnblockConditions_exact_witness:
  "\<exists>s'. tryUnblockConditions pure_code 3 blocked_example = Some (s', Inr 1) \<and>
     blockedConditions s' = [(1, \<lparr>cond_fn = 6, cond_promise = 2\<rparr>)]"
proof -
  define val where "val = (\<lambda>c :: cond_entry. JBool (cond_fn c = 7))"
  have h: "js_has [(nat_to_string 7, Null)] (nat_to_string 6) = False" "js_has [(nat_to_string 7, Null)] (nat_to_string 7)"
    by (simp_all add: js_has_def nat_to_string.simps)
  have "distinct (map fst (blockedConditions blocked_example))" "checkConditions blocked_example" "workflowTaskError blocked_example = None"
    by (simp_all add: blocked_example_def example_defs)
  moreover have "\<forall>(n, c) \<in> set (blockedConditions blocked_example).
      cond_value pure_code (heap blocked_example) (cond_fn c) (val c)"
    using h by (simp add: blocked_example_def cond_value_def pure_code_def val_def)
  ultimately show ?thesis
    using tryUnblockConditions_exact [of blocked_example pure_code val]
    by (simp add: blocked_example_def val_def)
qed

end
