(* ===== verification/VmWorkflow.thy ===== *)
theory VmWorkflow
  imports WorkerInterface
begin

text \<open>
  The worker's side of an activation: \<^verbatim>\<open>BaseVMWorkflow\<close> of \<^verbatim>\<open>packages/worker/src/workflow/vm-shared.ts\<close>. It
  checks the activation, prepares the activator, orders the jobs, calls into the isolate, and turns
  every error into a failed completion.
\<close>

section \<open>Calls into the isolate\<close>

text \<open>
  Code that changes the activator, may throw, and may not end (\<open>None\<close>).
\<close>

type_synonym 'a vact = "activator \<Rightarrow> (activator \<times> (js_error + 'a)) option"

definition v_return :: "'a \<Rightarrow> 'a vact" where
  "v_return x s = Some (s, Inr x)"

definition v_act :: "'a act \<Rightarrow> 'a vact" where
  "v_act m s = Some (m s)"

definition v_bind :: "'a vact \<Rightarrow> ('a \<Rightarrow> 'b vact) \<Rightarrow> 'b vact" where
  "v_bind m f s = (case m s of
     None \<Rightarrow> None
   | Some (s1, Inl e) \<Rightarrow> Some (s1, Inl e)
   | Some (s1, Inr x) \<Rightarrow> f x s1)"

fun v_each :: "('a \<Rightarrow> unit act) \<Rightarrow> 'a list \<Rightarrow> unit vact" where
  "v_each f [] = v_return ()"
| "v_each f (x # xs) = v_bind (v_act (f x)) (\<lambda>_. v_each f xs)"

text \<open>
  The context runs with \<open>microtaskMode: 'afterEvaluate'\<close>: a call that returns drains the queue of
  microtasks before control is back outside.
\<close>

definition in_vm :: "worker_env \<Rightarrow> 'a vact \<Rightarrow> 'a vact" where
  "in_vm we m = v_bind m (\<lambda>x s.
     case run_microtasks (we_api we) (we_outbound we) (we_code we) (we_fuel we) s of
       None \<Rightarrow> None
     | Some s' \<Rightarrow> Some (s', Inr x))"

fun unblock_until_quiet :: "worker_env \<Rightarrow> nat \<Rightarrow> unit vact" where
  "unblock_until_quiet we 0 s = None"
| "unblock_until_quiet we (Suc n) s =
     v_bind (in_vm we (tryUnblockConditions (we_code we) (we_fuel we)))
       (\<lambda>numUnblocked. if numUnblocked = 0 then v_return () else unblock_until_quiet we n) s"

definition tryUnblockConditionsAndMicrotasks :: "worker_env \<Rightarrow> unit vact" where
  "tryUnblockConditionsAndMicrotasks we = unblock_until_quiet we (we_fuel we)"

section \<open>The activation\<close>

record wf_activation =
  av_jobs :: "job list option"
  av_timestamp :: "timestamp option"
  av_isReplaying :: "bool option"
  av_historyLength :: int
  av_historySizeBytes :: "int option"
  av_continueAsNewSuggested :: "bool option"
  av_targetWorkerDeploymentVersionChanged :: "bool option"
  av_suggestContinueAsNewReasons :: "int list option"
  av_deploymentVersion :: "(string option \<times> string option) option"
  av_availableInternalFlags :: "nat list option"
  av_lastSdkVersion :: "string option"

datatype wf_completion = Successful activation_result | CompletionFailed string proto_failure

definition or_false :: "bool option \<Rightarrow> bool" where
  "or_false b = (case b of None \<Rightarrow> False | Some x \<Rightarrow> x)"

definition suggestContinueAsNewReasonsFromProto :: "int list option \<Rightarrow> js_error + string list option" where
  "suggestContinueAsNewReasonsFromProto reasons = (case reasons of
     None \<Rightarrow> Inr None
   | Some rs \<Rightarrow>
       bind_res (map_res (\<lambda>r. decodeEnum suggestContinueAsNewReason_table (EnumNumber r)) rs) (\<lambda>ds.
         let res = List.map_filter id ds in Inr (if res = [] then None else Some res)))"

text \<open>\<^verbatim>\<open>IWorkerDeploymentVersion\<close> is modelled as its build id and deployment name.\<close>

definition convertDeploymentVersion :: "(string option \<times> string option) option \<Rightarrow> (string \<times> string) option" where
  "convertDeploymentVersion v = (case v of
     None \<Rightarrow> None
   | Some (b, d) \<Rightarrow> if present b then Some (the b, case d of None \<Rightarrow> [] | Some x \<Rightarrow> x) else None)"

definition partition_jobs :: "(job \<Rightarrow> bool) \<Rightarrow> job list \<Rightarrow> job list \<times> job list" where
  "partition_jobs p js = (filter p js, filter (\<lambda>j. \<not> p j) js)"

fun is_patch :: "job \<Rightarrow> bool" where
  "is_patch (JNotifyHasPatch _) = True"
| "is_patch _ = False"

fun is_seed :: "job \<Rightarrow> bool" where
  "is_seed (JUpdateRandomSeed _) = True"
| "is_seed _ = False"

fun is_signal :: "job \<Rightarrow> bool" where
  "is_signal (JSignal _) = True"
| "is_signal _ = False"

fun is_update :: "job \<Rightarrow> bool" where
  "is_update (JDoUpdate _) = True"
| "is_update _ = False"

fun is_init :: "job \<Rightarrow> bool" where
  "is_init (JInitialize _ _) = True"
| "is_init _ = False"

definition mutateWorkflowInfo :: "(workflow_info \<Rightarrow> workflow_info) \<Rightarrow> activator \<Rightarrow> activator" where
  "mutateWorkflowInfo f s = s\<lparr>info := f (info s)\<rparr>"

text \<open>
  The state of the activator before the jobs of an activation without queries.
\<close>

definition prepare_activator :: "wf_activation \<Rightarrow> job list \<Rightarrow> unit act" where
  "prepare_activator av jobs s =
     (if av_timestamp av = None
      then (s, Inl (TypeError ''Expected activation.timestamp to be set for non-query activation''))
      else case tsToMs (av_timestamp av) of
        Inl e \<Rightarrow> (s, Inl e)
      | Inr t \<Rightarrow>
          let s1 = s\<lparr>now := t, checkConditions := (\<exists>j \<in> set jobs. \<not> is_update j)\<rparr> in
          case suggestContinueAsNewReasonsFromProto (av_suggestContinueAsNewReasons av) of
            Inl e \<Rightarrow> (s1, Inl e)
          | Inr reasons \<Rightarrow>
              let s2 = mutateWorkflowInfo (\<lambda>i. i\<lparr>
                    historyLength := av_historyLength av,
                    historySize := (case av_historySizeBytes av of None \<Rightarrow> 0 | Some n \<Rightarrow> n),
                    continueAsNewSuggested := or_false (av_continueAsNewSuggested av),
                    targetWorkerDeploymentVersionChanged := or_false (av_targetWorkerDeploymentVersionChanged av),
                    suggestedContinueAsNewReasons := reasons,
                    info_currentBuildId := Some (case av_deploymentVersion av of
                        Some (Some b, _) \<Rightarrow> b | _ \<Rightarrow> []),
                    info_currentDeploymentVersion := convertDeploymentVersion (av_deploymentVersion av),
                    isReplaying := or_false (av_isReplaying av),
                    isReplayingHistoryEvents := or_false (av_isReplaying av)\<rparr>) s1
              in case addKnownFlags (case av_availableInternalFlags av of None \<Rightarrow> [] | Some fs \<Rightarrow> fs) s2 of
                   (s3, Inl e) \<Rightarrow> (s3, Inl e)
                 | (s3, Inr _) \<Rightarrow>
                     (if present (av_lastSdkVersion av) then s3\<lparr>sdkVersion := av_lastSdkVersion av\<rparr> else s3, Inr ()))"

fun notify_patch :: "job \<Rightarrow> unit act" where
  "notify_patch (JNotifyHasPatch p) = notifyHasPatch p"
| "notify_patch _ = eff_throw (TypeError ''Expected notifyHasPatch to be set'')"

fun update_seed :: "job \<Rightarrow> unit act" where
  "update_seed (JUpdateRandomSeed b) = updateRandomSeed b"
| "update_seed _ = eff_return ()"

definition activate_batch :: "worker_env \<Rightarrow> job list \<Rightarrow> unit vact" where
  "activate_batch we jobs = v_bind (in_vm we (activate we jobs)) (\<lambda>_. tryUnblockConditionsAndMicrotasks we)"

definition run_batches :: "worker_env \<Rightarrow> bool \<Rightarrow> job list \<Rightarrow> unit vact" where
  "run_batches we doSingleBatch nonPatches =
     (if doSingleBatch
      then let (seeds, rest) = partition_jobs is_seed nonPatches in
           v_bind (v_act (if seeds = [] then eff_return () else update_seed (last seeds)))
             (\<lambda>_. activate_batch we rest)
      else let (signals, nonSignals) = partition_jobs is_signal nonPatches in
           v_bind (if signals = [] then v_return () else activate_batch we signals)
             (\<lambda>_. if nonSignals = [] then v_return () else activate_batch we nonSignals))"

definition single_batch :: "job list \<Rightarrow> bool act" where
  "single_batch jobs s =
     (if \<exists>j \<in> set jobs. is_signal j
      then case hasFlag ProcessWorkflowActivationJobsAsSingleBatch s of (b, s') \<Rightarrow> (s', Inr b)
      else (s, Inr True))"

definition initialize_first :: "worker_env \<Rightarrow> job list \<Rightarrow> unit vact" where
  "initialize_first we jobs = (case find is_init jobs of
     Some (JInitialize ij hs) \<Rightarrow> in_vm we (v_act (initialize we ij))
   | _ \<Rightarrow> v_return ())"

definition activate_jobs :: "worker_env \<Rightarrow> wf_activation \<Rightarrow> job list \<Rightarrow> activation_result vact" where
  "activate_jobs we av jobs =
     v_bind (v_act (prepare_activator av jobs)) (\<lambda>_.
     v_bind (initialize_first we jobs) (\<lambda>_.
     v_bind (v_act (single_batch jobs)) (\<lambda>doSingleBatch.
     let (patches, nonPatches) = partition_jobs is_patch jobs in
     v_bind (v_each notify_patch patches) (\<lambda>_.
     v_bind (run_batches we doSingleBatch nonPatches) (\<lambda>_.
     in_vm we (v_act conclude))))))"

definition activateQueries :: "worker_env \<Rightarrow> job list \<Rightarrow> activation_result vact" where
  "activateQueries we jobs =
     v_bind (v_act (eff_modify (mutateWorkflowInfo (\<lambda>i. i\<lparr>isReplaying := True, isReplayingHistoryEvents := False\<rparr>)))) (\<lambda>_.
     v_bind (in_vm we (activate we jobs)) (\<lambda>_.
     in_vm we (v_act conclude)))"

section \<open>The workflow object\<close>

record vm_workflow =
  vm_context :: bool
  vm_activator :: activator
  unhandledRejection :: "js_error option"

definition setUnhandledRejection :: "js_error \<Rightarrow> vm_workflow \<Rightarrow> vm_workflow" where
  "setUnhandledRejection e w =
     w\<lparr>vm_activator := (vm_activator w)\<lparr>workflowTaskError := Some e\<rparr>, unhandledRejection := Some e\<rparr>"

definition failed_completion :: "js_error \<Rightarrow> activator \<Rightarrow> activator \<times> (js_error + wf_completion)" where
  "failed_completion e s = (case errorToFailure e None s of
     (s', Inl e') \<Rightarrow> (s', Inl e')
   | (s', Inr f) \<Rightarrow> (s', Inr (CompletionFailed (runId (info s')) f)))"

text \<open>
  \<open>rejections\<close> are the unhandled rejections that Node.js reports while the method waits for the next
  macrotask. An error of a query activation is not caught here: the promise of \<^verbatim>\<open>activateQueries\<close> is returned
  and not awaited in the \<^verbatim>\<open>try\<close> block, so the promise of \<^verbatim>\<open>activate\<close> is rejected.
\<close>

definition fail_activation :: "js_error \<Rightarrow> vm_workflow \<Rightarrow> vm_workflow \<times> (js_error + wf_completion)" where
  "fail_activation e w = (case failed_completion e (vm_activator w) of (s, r) \<Rightarrow> (w\<lparr>vm_activator := s\<rparr>, r))"

definition report_rejections ::
  "js_error list \<Rightarrow> activation_result \<Rightarrow> vm_workflow \<Rightarrow> vm_workflow \<times> (js_error + wf_completion)" where
  "report_rejections rejections c w =
     (let w' = fold setUnhandledRejection rejections w in
      case unhandledRejection w' of
        None \<Rightarrow> (w', Inr (Successful c))
      | Some e \<Rightarrow> if err_truthy e then fail_activation e w' else (w', Inr (Successful c)))"

definition vm_activate ::
  "worker_env \<Rightarrow> js_error list \<Rightarrow> wf_activation \<Rightarrow> vm_workflow \<Rightarrow> (vm_workflow \<times> (js_error + wf_completion)) option" where
  "vm_activate we rejections av w =
     (if \<not> vm_context w then Some (fail_activation (IllegalStateError ''Workflow isolate context uninitialized'') w)
      else case av_jobs av of
        None \<Rightarrow> Some (fail_activation (TypeError ''Expected workflow activation jobs to be defined'') w)
      | Some jobs \<Rightarrow>
          let (queries, nonQueries) = partition_jobs is_query jobs in
          if queries \<noteq> []
          then if nonQueries \<noteq> []
               then Some (fail_activation (TypeError ''Got both queries and other jobs in a single activation'') w)
               else (case activateQueries we jobs (vm_activator w) of
                       None \<Rightarrow> None
                     | Some (s, Inl e) \<Rightarrow> Some (w\<lparr>vm_activator := s\<rparr>, Inl e)
                     | Some (s, Inr c) \<Rightarrow> Some (w\<lparr>vm_activator := s\<rparr>, Inr (Successful c)))
          else (case activate_jobs we av jobs (vm_activator w) of
                  None \<Rightarrow> None
                | Some (s, Inl e) \<Rightarrow> Some (fail_activation e (w\<lparr>vm_activator := s\<rparr>))
                | Some (s, Inr c) \<Rightarrow> Some (report_rejections rejections c (w\<lparr>vm_activator := s\<rparr>))))"

end
