(* ===== verification/ExecutionFrame.thy ===== *)
theory ExecutionFrame
  imports VmWorkflow
begin

text \<open>
  What the runtime as a whole can do to the state of an execution. The locale \<open>execution_frame\<close> lists the few
  kinds of steps on the commands, the sequence numbers, the patches and the recorded error of a
  workflow task; a relation that allows them is kept by every function of the workflow API, every
  reaction, every job and whole activations, if the user's code keeps it. Properties of executions
  follow by interpretation.
\<close>

section \<open>The observed part of the state\<close>

fun start_seq :: "command_variant \<Rightarrow> (seq_kind \<times> nat) option" where
  "start_seq (StartTimer n d) = Some (TimerS, n)"
| "start_seq (ScheduleActivity a) = Some (ActivityS, sa_seq a)"
| "start_seq (ScheduleLocalActivity a) = Some (ActivityS, sl_seq a)"
| "start_seq (StartChildWorkflowExecution c) = Some (ChildWorkflowS, cw_seq c)"
| "start_seq (SignalExternalWorkflowExecution n x y z w) = Some (SignalWorkflowS, n)"
| "start_seq (RequestCancelExternalWorkflowExecution n x y z) = Some (CancelWorkflowS, n)"
| "start_seq _ = None"

fun is_marker_variant :: "command_variant \<Rightarrow> bool" where
  "is_marker_variant (SetPatchMarker p d) = True"
| "is_marker_variant _ = False"

definition view where
  "view s = (commands s, nextSeqs s, workflowTaskError s, patchDecisions s, sentPatches s, completed s)"

lemma view_eqD:
  "view s = view t \<Longrightarrow> commands s = commands t" "view s = view t \<Longrightarrow> nextSeqs s = nextSeqs t"
  "view s = view t \<Longrightarrow> workflowTaskError s = workflowTaskError t" "view s = view t \<Longrightarrow> patchDecisions s = patchDecisions t"
  "view s = view t \<Longrightarrow> sentPatches s = sentPatches t" "view s = view t \<Longrightarrow> completed s = completed t"
  by (simp_all add: view_def)

lemma view_simps [simp]:
  "view (s\<lparr>rt := x1\<rparr>) = view s" "view (s\<lparr>scopes := x2\<rparr>) = view s" "view (s\<lparr>info := x3\<rparr>) = view s"
  "view (s\<lparr>completions := x4\<rparr>) = view s" "view (s\<lparr>blockedConditions := x5\<rparr>) = view s"
  "view (s\<lparr>inProgressSignals := x6\<rparr>) = view s" "view (s\<lparr>inProgressUpdates := x7\<rparr>) = view s"
  "view (s\<lparr>signalHandlerExecutionSeq := x8\<rparr>) = view s" "view (s\<lparr>queryOutputTypes := x9\<rparr>) = view s"
  "view (s\<lparr>rethrowSynchronously := x10\<rparr>) = view s" "view (s\<lparr>checkConditions := x11\<rparr>) = view s"
  "view (s\<lparr>bufferedSignals := x12\<rparr>) = view s" "view (s\<lparr>bufferedUpdates := x13\<rparr>) = view s"
  "view (s\<lparr>cancelled := x14\<rparr>) = view s" "view (s\<lparr>randomnessSeed := x15\<rparr>) = view s"
  "view (s\<lparr>knownPresentPatches := x16\<rparr>) = view s" "view (s\<lparr>knownFlags := x17\<rparr>) = view s"
  "view (s\<lparr>sdkVersion := x18\<rparr>) = view s" "view (s\<lparr>now := x19\<rparr>) = view s" "view (s\<lparr>warnings := x20\<rparr>) = view s"
  "view (s\<lparr>nexusSerializationContext := x21\<rparr>) = view s" "view (s\<lparr>versioningBehavior := x22\<rparr>) = view s"
  "view (s\<lparr>workflowDefinitionFailureExceptionTypes := x23\<rparr>) = view s"
  "view (s\<lparr>systemNexusOperationContexts := x24\<rparr>) = view s"
  by (simp_all add: view_def)

lemma view_promise_ops [simp]:
  "view (upd_rt f s) = view s" "view (snd (fresh_promise s)) = view s" "view (snd (react_to p h s)) = view s"
  "view (reject_promise p e s) = view s" "view (resolve_promise p v s) = view s" "view (snd (settled_promise r s)) = view s"
  by (simp_all add: promise_op_defs settled_promise_def split_beta Let_def)

lemma view_completion_ops [simp]:
  "view (set_completion k n c s) = view s" "view (delete_completion k n s) = view s"
  "view (snd (maybeConsumeCompletion k n s)) = view s" "view (fst (consumeCompletion k n s)) = view s"
  by (simp_all add: set_completion_def delete_completion_def consumeCompletion_def maybeConsumeCompletion_def
      split: option.splits)

lemma view_scope_ops [simp]:
  "view (scope_reject i e s) = view s" "view (cancel_scope i s) = view s" "view (cancelWorkflow s) = view s"
  by (simp_all add: cancel_scope_def scope_reject_def cancelWorkflow_def)

lemma view_hasFlag [simp]: "view (snd (hasFlag f s)) = view s"
  by (simp add: hasFlag_def)

lemma view_scope_react [simp]: "view (fst (scope_react h r s)) = view s"
  by (cases "(h, r, s)" rule: scope_react.cases) (auto simp: split_beta)

lemma view_async_result [simp]: "view (async_result q r s) = view s"
  by (auto simp: async_result_def split_beta Let_def split: sum.splits jsval.splits)

lemma view_set_rethrow [simp]: "view (set_rethrow b s) = view s"
  by (simp add: set_rethrow_def)

lemma view_push: "view s = view t \<Longrightarrow> view (pushCommand c b s) = view (pushCommand c b t)"
  by (simp add: view_def pushCommand_def Let_def)

section \<open>Handlers start at most one operation\<close>

definition one_start :: "seq_kind \<times> nat \<Rightarrow> activator \<Rightarrow> activator \<Rightarrow> bool" where
  "one_start x s t \<longleftrightarrow> view t = view s \<or>
     (\<exists>c. start_seq (variant c) = Some x \<and> view t = view (pushCommand c False s))"

lemma one_start_same [simp]: "one_start x s s"
  by (simp add: one_start_def)

lemma one_start_push:
  "start_seq (variant c) = Some x \<Longrightarrow> one_start x s (set_completion k n d (pushCommand c False s))"
  by (auto simp: one_start_def)

lemma one_start_cong: "view s' = view s \<Longrightarrow> view t' = view t \<Longrightarrow> one_start x s t \<Longrightarrow> one_start x s' t'"
  unfolding one_start_def by (metis view_push)

lemma new_Promise_view:
  "view (fst (new_Promise executor s)) = view (fst (executor (fst (fresh_promise s)) (snd (fresh_promise s))))"
  by (auto simp: new_Promise_def split_beta Let_def simp del: fresh_promise_simps split: sum.splits)

lemma guarded_push:
  assumes "\<And>s c. cmd s = Inr c \<Longrightarrow> start_seq (variant c) = Some x"
  shows "one_start x s (fst (new_Promise (\<lambda>p. in_scope a p (h p) (\<lambda>s. push_and_wait (cmd s) k n (mk p) s)) s))"
proof -
  have push: "one_start x s (fst (push_and_wait (cmd t) k n c t))" if "view t = view s" for t c
    using that assms by (auto simp: push_and_wait_def one_start_def dest: view_push split: sum.splits)
  have "one_start x s (fst (in_scope a p (h p) (\<lambda>s. push_and_wait (cmd s) k n (mk p) s) t))"
    if "view t = view s" for p t
    using that push by (auto simp: in_scope_def Let_def intro: one_start_cong [OF _ _ one_start_same])
  then show ?thesis
    by (rule one_start_cong [OF refl new_Promise_view]) simp
qed

lemma command_seqs:
  "timer_command env a i s = Inr c \<Longrightarrow> start_seq (variant c) = Some (TimerS, t_seq i)"
  "activity_command env a j aid ctx s = Inr c \<Longrightarrow> start_seq (variant c) = Some (ActivityS, ai_seq j)"
  "local_activity_command env a l ctx s = Inr c \<Longrightarrow> start_seq (variant c) = Some (ActivityS, li_seq l)"
  "child_command env a m wid ctx s = Inr c \<Longrightarrow> start_seq (variant c) = Some (ChildWorkflowS, ci_seq m)"
  "signal_command env a g ctx s = Inr c \<Longrightarrow> start_seq (variant c) = Some (SignalWorkflowS, si_seq g)"
  by (auto simp: timer_command_def activity_command_def local_activity_command_def child_command_def
      signal_command_def Let_def bind_res_Inr_iff)

lemma handler_starts:
  "one_start (TimerS, t_seq i) s (fst (timerNextHandler env i a s))"
  "one_start (ActivityS, ai_seq j) s (fst (scheduleActivityNextHandler env j a s))"
  "one_start (SignalWorkflowS, si_seq g) s (fst (signalExternalNextHandler env g a s))"
proof -
  show "one_start (TimerS, t_seq i) s (fst (timerNextHandler env i a s))"
    unfolding timerNextHandler_def by (rule guarded_push) (rule command_seqs)
  show "one_start (ActivityS, ai_seq j) s (fst (scheduleActivityNextHandler env j a s))"
    unfolding scheduleActivityNextHandler_def Let_def
    by (split sum.split, intro conjI allI impI, simp, rule guarded_push, rule command_seqs)
  show "one_start (SignalWorkflowS, si_seq g) s (fst (signalExternalNextHandler env g a s))"
    unfolding signalExternalNextHandler_def Let_def by (rule guarded_push) (rule command_seqs)
qed

lemma async_view: "view (fst (async_return_await m s)) = view (fst (m (snd (fresh_promise s))))"
  by (simp add: async_return_await_def split_beta Let_def)

lemma local_handler_starts:
  "one_start (ActivityS, li_seq i) s (fst (scheduleLocalActivityNextHandler env i a s))"
proof -
  have push: "one_start (ActivityS, li_seq i) t (fst (new_Promise (\<lambda>p. in_scope a p (CancelLocalActivityR (li_seq i)) (\<lambda>s.
        push_and_wait (local_activity_command env a i ctx s) ActivityC (li_seq i) (new_completion p (Some ctx) ot) s)) t))"
    for ctx ot t
    by (rule guarded_push) (rule command_seqs)
  show ?thesis
    unfolding scheduleLocalActivityNextHandler_def
    by (rule one_start_cong [OF _ async_view, of _ "snd (fresh_promise s)"])
       (simp_all add: Let_def push split: sum.split)
qed

text \<open>The generator of identifiers takes no numbers and emits no commands.\<close>

definition uuid_ok :: "api_env \<Rightarrow> bool" where
  "uuid_ok env \<longleftrightarrow> (\<forall>s. view (snd (ev_uuid4 env s)) = view s)"

lemma child_handler_starts:
  assumes "uuid_ok env"
  shows "one_start (ChildWorkflowS, ci_seq i) s (fst (startChildWorkflowExecutionNextHandler env i a s))"
proof -
  obtain wid s0 where w: "(case co_workflowId (ci_options i) of Some w \<Rightarrow> (w, s) | None \<Rightarrow> ev_uuid4 env s) = (wid, s0)"
    by fastforce
  have s0: "view s = view s0"
    using w assms unfolding uuid_ok_def by (auto split: option.splits) (metis snd_conv)+
  define ctx where "ctx = target_context s0 wid"
  define s1 where "s1 = fst (new_Promise (\<lambda>p.
       in_scope a p (CancelChildR (ci_seq i) (co_eventGroups (ci_options i)) (cur_markers a)) (\<lambda>s.
         push_and_wait (child_command env a i wid ctx s) ChildWorkflowStartC (ci_seq i)
           (new_completion p (Some ctx) None) s)) s0)"
  have "one_start (ChildWorkflowS, ci_seq i) s0 s1"
    unfolding s1_def by (rule guarded_push) (rule command_seqs)
  moreover have "view (fst (startChildWorkflowExecutionNextHandler env i a s)) = view s1"
    by (simp add: startChildWorkflowExecutionNextHandler_def w ctx_def [symmetric] s1_def split_beta Let_def)
  ultimately show ?thesis using s0 by (blast intro: one_start_cong)
qed

section \<open>The frame\<close>

locale execution_frame =
  fixes R :: "activator \<Rightarrow> activator \<Rightarrow> bool"
  assumes frame_trans: "transp R"
    and view_step: "view t = view s \<Longrightarrow> R s t"
    and push_step: "start_seq (variant c) = None \<Longrightarrow> \<not> is_marker_variant (variant c) \<Longrightarrow> R s (pushCommand c final s)"
    and start_step: "take_seq k s = (n, s1) \<Longrightarrow> one_start (k, n) s1 t \<Longrightarrow> R s t"
    and patch_step: "R s (fst (patchInternal dpc store p d g s))"
    and record_step: "R s (fst (recordWorkflowTaskError e s))"

sublocale execution_frame \<subseteq> ignores_promises R
  by unfold_locales (auto simp: reflp_def frame_trans view_step)

context execution_frame
begin

lemma view_after: "R s t \<Longrightarrow> view u = view t \<Longrightarrow> R s u"
  using R_trans view_step by blast

lemma view_before: "view t = view s \<Longrightarrow> R t u \<Longrightarrow> R s u"
  using R_trans view_step by blast

lemma reject_update_step: "R s (fst (rejectUpdate p e s))"
  by (auto simp: rejectUpdate_def eff_defs errorToFailure_def plain_command_def split: sum.splits intro: push_step)

lemma accept_update_step: "R s (acceptUpdate p s)"
  unfolding acceptUpdate_def
  by (rule view_before [OF _ push_step]) (simp_all add: plain_command_def)

end

sublocale execution_frame \<subseteq> message_frame R
  by unfold_locales (simp_all add: view_step reject_update_step accept_update_step)

section \<open>The workflow API\<close>

context execution_frame
begin

lemma sleep_keeps: "R s (fst (sleep env [] ms summary groups a s))"
proof -
  obtain n s1 where n: "take_seq TimerS s = (n, s1)" by fastforce
  have "one_start (TimerS, n) s1 (fst (sleep env [] ms summary groups a s))"
    using handler_starts(1) [of "\<lparr>t_seq = n, t_durationMs = js_max1 d, t_summary = summary, t_eventGroups = groups\<rparr>" s1 env a for d]
    by (auto simp: sleep_def n split: sum.splits)
  then show ?thesis by (rule start_step [OF n])
qed

lemma scheduleActivity_keeps: "R s (fst (scheduleActivity env [] ty args opts ti a s))"
proof (cases opts)
  case (Some o')
  obtain n s1 where n: "take_seq ActivityS s = (n, s1)" by fastforce
  have "one_start (ActivityS, n) s1 (fst (scheduleActivity env [] ty args opts ti a s))"
    using handler_starts(2) [of "\<lparr>ai_activityType = ty, ai_args = args, ai_options = o', ai_headers = [],
        ai_seq = n, ai_typeInfo = ti\<rparr>" s1 env a]
    by (simp add: scheduleActivity_def n Some)
  then show ?thesis by (rule start_step [OF n])
qed (simp add: scheduleActivity_def)

lemma handle_signal_keeps: "R s (fst (handle_signal env [] tgt nm args ti groups a s))"
proof -
  obtain n s1 where n: "take_seq SignalWorkflowS s = (n, s1)" by fastforce
  have "one_start (SignalWorkflowS, n) s1 (fst (handle_signal env [] tgt nm args ti groups a s))"
    using handler_starts(3) [of "\<lparr>si_seq = n, si_signalName = nm, si_args = args, si_typeInfo = ti,
        si_eventGroups = groups, si_target = tgt, si_headers = []\<rparr>" s1 env a]
    by (simp add: handle_signal_def n)
  then show ?thesis by (rule start_step [OF n])
qed

lemma local_activity_attempt_keeps: "R s (local_activity_attempt env [] c s)"
proof -
  obtain n s1 where n: "take_seq ActivityS s = (n, s1)" by fastforce
  define i where "i = \<lparr>li_call = c, li_headers = [], li_seq = n\<rparr>"
  define a where "a = \<lparr>cur_scope = la_scope c, cur_markers = la_markers c, cur_update = None\<rparr>"
  obtain t r where r: "scheduleLocalActivityNextHandler env i a s1 = (t, r)" by fastforce
  have "view (local_activity_attempt env [] c s) = view t"
    by (cases r; cases "projr r")
       (simp_all add: local_activity_attempt_def n i_def [symmetric] a_def [symmetric] r split_beta Let_def)
  moreover have "one_start (ActivityS, n) s1 t"
    using local_handler_starts [of i s1 env a] r by (simp add: i_def)
  ultimately have "one_start (ActivityS, n) s1 (local_activity_attempt env [] c s)"
    by (blast intro: one_start_cong)
  then show ?thesis by (rule start_step [OF n])
qed

lemma scheduleLocalActivity_keeps: "R s (fst (scheduleLocalActivity env [] ty args opts ti a s))"
proof (cases opts)
  case None
  then show ?thesis by (simp add: scheduleLocalActivity_def split_beta Let_def view_step)
next
  case (Some o')
  then show ?thesis
    by (simp add: scheduleLocalActivity_def split_beta Let_def)
       (rule view_before [OF _ local_activity_attempt_keeps], simp)
qed

lemma start_child_keeps:
  assumes "uuid_ok env"
  shows "R s (fst (start_child_execution env [] wt opts a s))"
proof -
  obtain opts' s1 where o: "addDefaultWorkflowOptions env opts s = (opts', s1)" by fastforce
  have "view s1 = view s"
    using o assms unfolding addDefaultWorkflowOptions_def uuid_ok_def
    by (auto simp: split_beta Let_def split: option.splits)
  moreover obtain n s2 where n: "take_seq ChildWorkflowS s1 = (n, s2)" by fastforce
  have "R s1 (fst (start_child_execution env [] wt opts a s))"
    using child_handler_starts [OF assms, of "\<lparr>ci_workflowType = wt, ci_options = opts', ci_headers = [], ci_seq = n\<rparr>" s2 a]
    by (intro start_step [OF n]) (simp add: start_child_execution_def o n)
  ultimately show ?thesis by (rule view_before)
qed

lemma new_Promise_keeps:
  assumes "\<And>p. eff_keeps R (executor p)"
  shows "eff_keeps R (new_Promise executor)"
proof (rule eff_keepsI)
  fix s
  have "R s (fst (executor p (snd (fresh_promise s))))" for p
    by (rule view_before [OF _ eff_keepsD [OF assms]]) simp
  then show "R s (fst (new_Promise executor s))"
    by (rule view_after) (rule new_Promise_view)
qed

lemma request_cancel_keeps: "eff_keeps R (request_cancel_external env a wid rid groups p)"
proof (rule eff_keepsI)
  fix s
  obtain n s1 where n: "take_seq CancelWorkflowS s = (n, s1)" by fastforce
  show "R s (fst (request_cancel_external env a wid rid groups p s))"
    by (rule start_step [OF n])
       (auto simp: request_cancel_external_def n push_and_wait_def bind_res_Inr_iff one_start_push Let_def split: sum.splits)
qed

lemma patched_keeps: "eff_keeps R (patched env a p g)"
  unfolding patched_def by (rule eff_keepsI) (rule patch_step)

lemma external_cancel_keeps: "eff_keeps R (external_cancel env wid rid groups a)"
  unfolding external_cancel_def
proof (rule new_Promise_keeps, rule eff_keepsI)
  fix p s
  let ?i = "cur_scope a"
  define s1 where "s1 = (if sc_cancellable (scope_at s ?i)
      then snd (react_to (sc_promise (scope_at s ?i)) (CancelExternalR p (cur_markers a)) s) else s)"
  have s1: "view s1 = view s" by (simp add: s1_def)
  have k: "eff_keeps R (eff_bind (patched env a EXTERNAL_WF_CANCEL_PATCH None)
      (\<lambda>b. if b then eff_return () else request_cancel_external env a wid rid groups p))"
    by (intro keeps_bind patched_keeps) (simp add: request_cancel_keeps)
  show "R s (fst (let i = cur_scope a;
         s1 = (if sc_cancellable (scope_at s i)
               then snd (react_to (sc_promise (scope_at s i)) (CancelExternalR p (cur_markers a)) s) else s)
     in if consideredCancelled s1 i
        then eff_bind (patched env a EXTERNAL_WF_CANCEL_PATCH None)
               (\<lambda>b. if b then eff_return () else request_cancel_external env a wid rid groups p) s1
        else request_cancel_external env a wid rid groups p s1))"
    unfolding Let_def s1_def [symmetric]
    using view_before [OF s1 eff_keepsD [OF request_cancel_keeps]] view_before [OF s1 eff_keepsD [OF k]] by auto
qed

lemma conditionInner_keeps:
  assumes "code_keeps R uc"
  shows "eff_keeps R (conditionInner uc fn a)"
  unfolding conditionInner_def
proof (rule new_Promise_keeps, rule eff_keepsI)
  fix p s
  let ?i = "cur_scope a"
  define sp where "sp = sc_promise (scope_at s ?i)"
  obtain n s1 where n: "take_seq ConditionS s = (n, s1)" by fastforce
  define s2 where "s2 = (if sc_cancellable (scope_at s1 ?i) then snd (react_to sp (CancelConditionR n p) s1) else s1)"
  have i2: "R s s2" by (rule start_step [OF n]) (simp add: s2_def one_start_def)
  have k: "eff_keeps R (eff_bind (uc_call uc fn [] a) (\<lambda>v.
            if truthy v then eff_modify (resolve_promise p Undefined)
            else eff_modify (\<lambda>s. s\<lparr>blockedConditions := js_set (blockedConditions s) n
                   \<lparr>cond_fn = fn, cond_promise = p\<rparr>\<rparr>)))"
    using assms by (intro keeps_bind) (auto intro!: keeps_modify view_step simp: keeps_code)
  show "R s (fst (let i = cur_scope a; sp = sc_promise (scope_at s i) in
     if consideredCancelled s i then (snd (react_to sp (RejectPromise p) s), Inr ())
     else
       let (n, s1) = take_seq ConditionS s;
           s2 = (if sc_cancellable (scope_at s1 i) then snd (react_to sp (CancelConditionR n p) s1) else s1)
       in eff_bind (uc_call uc fn [] a) (\<lambda>v.
            if truthy v then eff_modify (resolve_promise p Undefined)
            else eff_modify (\<lambda>s. s\<lparr>blockedConditions := js_set (blockedConditions s) n
                   \<lparr>cond_fn = fn, cond_promise = p\<rparr>\<rparr>)) s2))"
    unfolding Let_def sp_def [symmetric] n prod.case s2_def [symmetric]
    using R_trans [OF i2 eff_keepsD [OF k]] by (simp add: promise_ops)
qed

end

section \<open>Reactions and microtasks\<close>

definition no_outbound :: "outbound \<Rightarrow> bool" where
  "no_outbound ob \<longleftrightarrow> ob_startTimer ob = [] \<and> ob_scheduleLocalActivity ob = []"

lemma as_outcome_fst [simp]: "fst (as_outcome x) = fst x"
  by (simp add: as_outcome_def)

context execution_frame
begin

lemma answers_keep:
  "R s (fst (completeWorkflow v s))" "R s (fst (completeUpdate pid v ti s))"
  "R s (fst (completeQuery qid v ti s))" "R s (fst (failQuery qid e s))"
  by (auto simp: completeWorkflow_def completeUpdate_def completeQuery_def failQuery_def
      to_payload_act_def errorToFailure_def eff_defs plain_command_def split: sum.splits intro: push_step)

lemma handleWorkflowFailure_keeps: "R s (fst (handleWorkflowFailure e s))"
proof -
  define s1 where "s1 = s\<lparr>inProgressSignals := [], inProgressUpdates := []\<rparr>"
  have v: "view s1 = view s" by (simp add: s1_def)
  have "R s (pushCommand c True s1)" if "start_seq (variant c) = None" "\<not> is_marker_variant (variant c)" for c
    using v push_step [OF that] by (rule view_before)
  then show ?thesis
    using record_step [of s e] view_step [OF v]
    by (auto simp: handleWorkflowFailure_def errorToFailure_def eff_defs plain_command_def s1_def [symmetric]
        intro: push_step split: js_error.splits sum.splits if_splits)
qed

lemma push_with_markers_keeps:
  "start_seq v = None \<Longrightarrow> \<not> is_marker_variant v \<Longrightarrow> eff_keeps R (push_with_markers env v groups store)"
  by (auto simp: eff_keeps_def push_with_markers_def split: sum.splits intro: push_step)

lemma on_cancel_keeps: "R s (fst (on_cancel env h e s))"
proof (cases h)
  case (CancelTimerR n p groups store)
  have "eff_keeps R (eff_bind (push_with_markers env (CancelTimer n) groups store) (\<lambda>_. eff_modify (reject_promise p e)))"
    by (intro keeps_bind push_with_markers_keeps keeps_modify promise_ops) simp_all
  from view_before [OF _ eff_keepsD [OF this], of "delete_completion TimerC n s"]
  show ?thesis by (simp add: CancelTimerR)
next
  case (CancelExternalR p store)
  have "eff_keeps R (eff_bind (patchInternal (ev_dpc env) store EXTERNAL_WF_CANCEL_PATCH False None)
       (\<lambda>b. if b then eff_modify (reject_promise p e) else eff_return ()))"
    by (intro keeps_bind eff_keepsI [of _ "patchInternal _ _ _ _ _"] patch_step) (simp add: keeps_modify promise_ops)
  then show ?thesis unfolding CancelExternalR on_cancel.simps by (rule eff_keepsD)
qed (auto simp: plain_command_def eff_keepsD push_with_markers_keeps intro: view_step push_step)

lemma local_activity_settled_keeps: "R s (local_activity_settled env [] c r s)"
proof -
  have step: "R s (snd (react_to p h t))" "R s (reject_promise p e t)"
    "R s (snd (react_to p h (snd (settled_promise x t))))"
    if "R s t" for p h e t x
    using that by (auto intro: view_after)
  show ?thesis
    using sleep_keeps [of s env] step [OF R_refl] step promise_ops
    unfolding local_activity_settled_def
    by (auto split: sum.splits js_error.splits prod.splits jsval.splits simp: split_beta Let_def)
qed

lemma local_activity_slept_keeps: "R s (local_activity_slept env [] c b r s)"
  unfolding local_activity_slept_def
  by (auto split: sum.splits option.splits intro: promise_ops local_activity_attempt_keeps)

lemma run_react_keeps:
  assumes "code_keeps R uc" and "no_outbound ob"
  shows "R s (fst (run_react env ob uc h r s))"
proof -
  have u: "R s (fst (uc_react uc f r s))" for f using assms(1) by (simp add: code_keeps_def)
  have sc: "R s (fst (scope_react h' r s))" for h' by (rule view_step) simp
  show ?thesis
  proof (cases h)
    case (UserReact f)
    then show ?thesis using u by simp
  qed (use assms(2) in \<open>auto split: sum.split
        intro: answers_keep handleWorkflowFailure_keeps sc on_cancel_keeps reject_update_step
          promise_ops view_step local_activity_settled_keeps local_activity_slept_keeps
        simp: no_outbound_def simp del: scope_react.simps on_cancel.simps\<close>)
qed

lemma settle_derived_view: "view (settle_derived d r s) = view s"
  by (auto simp: settle_derived_def split: sum.splits jsval.splits)

lemma run_microtask_keeps:
  assumes "code_keeps R uc" and "no_outbound ob"
  shows "R s (run_microtask env ob uc s)"
proof (cases "pop_microtask (rt s)")
  case (Some x)
  obtain h d v r where x: "x = ((h, d, v), r)" by (cases x) auto
  have "R s (fst (run_react env ob uc h v (s\<lparr>rt := r\<rparr>)))"
    by (rule view_before [OF _ run_react_keeps [OF assms]]) simp
  then show ?thesis
    by (rule view_after) (simp add: run_microtask_def Some x split_beta settle_derived_view)
qed (simp add: run_microtask_def)

lemma run_microtasks_keeps:
  assumes "code_keeps R uc" and "no_outbound ob"
  shows "run_microtasks env ob uc fuel s = Some t \<Longrightarrow> R s t"
proof (induction fuel arbitrary: s)
  case 0
  then show ?case by (subst (asm) run_microtasks.simps) (auto split: if_splits)
next
  case (Suc fuel)
  then show ?case
    using run_microtask_keeps [OF assms, of s env]
    by (subst (asm) run_microtasks.simps) (auto split: if_splits intro: R_trans)
qed

end

section \<open>Jobs\<close>

text \<open>Jobs that only settle promises and update tables.\<close>

lemma view_settle [simp]:
  "view (fst (resolve_with_payload c p s)) = view s" "view (fst (reject_with_failure c f s)) = view s"
  "view (fst (reject_or_missing m c mf s)) = view s" "view (fst (settle_external mf c s)) = view s"
  "view (fst (settle_activity ar c s)) = view s" "view (fst (settle_child cr c s)) = view s"
proof -
  show p: "view (fst (resolve_with_payload c p s)) = view s" for p
    by (auto simp: resolve_with_payload_def split: option.splits sum.splits)
  show f: "view (fst (reject_with_failure c f s)) = view s" for f
    by (auto simp: reject_with_failure_def split: sum.splits)
  show m: "view (fst (reject_or_missing m c mf s)) = view s" for m mf
    using f by (auto simp: reject_or_missing_def eff_defs split: option.splits)
  show "view (fst (settle_external mf c s)) = view s"
    using f by (auto simp: settle_external_def eff_defs split: option.splits)
  show "view (fst (settle_activity ar c s)) = view s"
    using p m by (cases ar) (simp_all add: eff_defs)
  show "view (fst (settle_child cr c s)) = view s"
    using p m by (cases cr) (simp_all add: eff_defs)
qed

lemma view_settle_child_start [simp]: "view (fst (settle_child_start n r c s)) = view s"
proof (cases r)
  case (ChildStartCancelled f)
  then show ?thesis
    by (cases f) (auto simp: eff_defs reject_with_failure_def split: sum.splits)
qed (auto simp: eff_defs split: sum.splits)

context execution_frame
begin

lemma keeps_view: "(\<And>s. view (fst (m s)) = view s) \<Longrightarrow> eff_keeps R m"
  by (rule eff_keepsI) (rule view_step)

lemma resolve_jobs_keep:
  "eff_keeps R (fireTimer n)" "eff_keeps R (resolveActivity n ar)"
  "eff_keeps R (resolveChildWorkflowExecutionStart n cs)" "eff_keeps R (resolveChildWorkflowExecution n cr)"
  "eff_keeps R (resolveSignalExternalWorkflow n f)" "eff_keeps R (resolveRequestCancelExternalWorkflow n f)"
proof -
  have c: "eff_keeps R (consumeCompletion k m)" for k m by (rule keeps_view) simp
  show "eff_keeps R (fireTimer n)"
    by (rule keeps_view)
       (auto simp: fireTimer_def eff_defs getSeq_def maybeConsumeCompletion_def split: option.splits)
  show "eff_keeps R (resolveActivity n ar)" "eff_keeps R (resolveChildWorkflowExecution n cr)"
    unfolding resolveActivity_def resolveChildWorkflowExecution_def
    by (auto intro!: keeps_bind c intro: keeps_view split: option.splits)
  show "eff_keeps R (resolveChildWorkflowExecutionStart n cs)"
    "eff_keeps R (resolveSignalExternalWorkflow n f)" "eff_keeps R (resolveRequestCancelExternalWorkflow n f)"
    unfolding resolveChildWorkflowExecutionStart_def resolveSignalExternalWorkflow_def
      resolveRequestCancelExternalWorkflow_def
    by (auto intro!: keeps_bind c intro: keeps_view)
qed

lemma nexus_jobs_keep:
  "eff_keeps R (resolveNexusOperationStart n f tok)" "eff_keeps R (resolveNexusOperation reg dpc n r)"
proof -
  have c: "eff_keeps R (consumeCompletion k m)" for k m by (rule keeps_view) simp
  show "eff_keeps R (resolveNexusOperationStart n f tok)"
    unfolding resolveNexusOperationStart_def
    by (intro keeps_bind keeps_simple c keeps_view)
       (auto simp: eff_defs failureToError_def split_beta Let_def split: option.splits sum.splits)
  have nc: "view (fst (nexus_completion m s)) = view s" for m s
    by (auto simp: nexus_completion_def eff_defs consumeCompletion_def maybeConsumeCompletion_def split: option.splits)
  have v: "view (resolve_nexus_value b c v s) = view s" for b c v s
    by (simp add: resolve_nexus_value_def split_beta Let_def)
  have settle: "eff_keeps R (settle_nexus reg dpc sys r x)" for sys x
    by (rule keeps_view, cases x, cases r)
       (auto simp: settle_nexus_def eff_defs failureToError_def v split: sum.splits)
  have k: "eff_keeps R (eff_bind (nexus_completion m) (settle_nexus reg dpc sys r))" for m sys
    by (intro keeps_bind settle keeps_view nc)
  have "eff_keeps R (\<lambda>s. eff_bind (nexus_completion m) (settle_nexus reg dpc (systemNexusOperationContexts s m) r)
       (s\<lparr>systemNexusOperationContexts := (systemNexusOperationContexts s)(m := None)\<rparr>))" for m
    by (rule eff_keepsI, rule view_before [OF _ eff_keepsD [OF k]]) simp
  then show "eff_keeps R (resolveNexusOperation reg dpc n r)"
    unfolding resolveNexusOperation_def by (intro keeps_bind keeps_simple)
qed

lemma message_jobs_keep:
  assumes "code_keeps R uc"
  shows "eff_keeps R (queryWorkflow uc q)" "eff_keeps R (signalWorkflow uc a j)" "eff_keeps R (doUpdate uc a u)"
proof -
  show "eff_keeps R (queryWorkflow uc q)" by (rule eff_keepsI) (rule queryWorkflow_keeps [OF assms])
  show "eff_keeps R (signalWorkflow uc a j)"
    by (rule eff_keepsI)
       (auto simp: signalWorkflow_def Let_def intro: view_step run_signal_keeps [OF assms])
  show "eff_keeps R (doUpdate uc a u)"
  proof (rule eff_keepsI)
    fix s
    show "R s (fst (doUpdate uc a u s))"
    proof (cases "update_entry_of s (the (upd_name u))")
      case None
      then show ?thesis by (auto simp: doUpdate_def Let_def intro: view_step)
    qed (simp add: doUpdate_keeps_handled assms)
  qed
qed

lemma initializeWorkflow_view: "view (fst (initializeWorkflow opts ij s)) = view s"
  by (auto simp: initializeWorkflow_def Let_def split: sum.splits option.splits)

lemma run_job_keeps:
  assumes "code_keeps R (we_code we)"
  shows "eff_keeps R (run_job we j)"
proof (cases j)
  case (JInitialize ij hs)
  then show ?thesis by (simp add: keeps_view initializeWorkflow_view)
next
  case (JUpdateRandomSeed seed)
  then show ?thesis by (auto intro!: keeps_view simp: updateRandomSeed_def split: option.splits)
next
  case (JNotifyHasPatch p)
  then show ?thesis by (auto intro!: keeps_view simp: notifyHasPatch_def split: option.splits)
qed (simp_all add: assms resolve_jobs_keep nexus_jobs_keep message_jobs_keep keeps_modify view_step
      keeps_view removeFromCache_def)

end

section \<open>Activations\<close>

definition v_keeps :: "(activator \<Rightarrow> activator \<Rightarrow> bool) \<Rightarrow> 'a vact \<Rightarrow> bool" where
  "v_keeps R m \<longleftrightarrow> (\<forall>s t r. m s = Some (t, r) \<longrightarrow> R s t)"

lemma v_keepsI: "(\<And>s t r. m s = Some (t, r) \<Longrightarrow> R s t) \<Longrightarrow> v_keeps R m"
  by (simp add: v_keeps_def)

lemma v_keepsD: "v_keeps R m \<Longrightarrow> m s = Some (t, r) \<Longrightarrow> R s t"
  by (simp add: v_keeps_def)

definition env_keeps :: "(activator \<Rightarrow> activator \<Rightarrow> bool) \<Rightarrow> worker_env \<Rightarrow> bool" where
  "env_keeps R we \<longleftrightarrow> code_keeps R (we_code we) \<and> no_outbound (we_outbound we)"

lemma view_prepare [simp]: "view (fst (prepare_activator av jobs s)) = view s"
proof -
  have "view (fst (addKnownFlags fs s)) = view s" for fs s
    by (induction fs arbitrary: s) (auto split: sum.splits)
  then have "view (fst (case addKnownFlags fs t of (u, Inl e) \<Rightarrow> (u, Inl e)
       | (u, Inr _) \<Rightarrow> (if b then u\<lparr>sdkVersion := x\<rparr> else u, Inr ()))) = view t" for fs t b x
    by (cases "addKnownFlags fs t"; cases "snd (addKnownFlags fs t)") (auto, metis fst_conv, metis fst_conv)
  then show ?thesis
    unfolding prepare_activator_def Let_def mutateWorkflowInfo_def by (auto split: sum.split)
qed

context execution_frame
begin

lemma v_keeps_return: "v_keeps R (v_return x)"
  by (rule v_keepsI) (auto simp: v_return_def)

lemma v_keeps_act: "eff_keeps R m \<Longrightarrow> v_keeps R (v_act m)"
  unfolding v_keeps_def v_act_def eff_keeps_def by (metis fst_conv option.inject)

lemma v_keeps_bind:
  assumes "v_keeps R m" and "\<And>x. v_keeps R (f x)"
  shows "v_keeps R (v_bind m f)"
  by (rule v_keepsI)
     (auto simp: v_bind_def split: option.splits sum.splits prod.splits
       dest!: v_keepsD [OF assms(1)] v_keepsD [OF assms(2)] intro: R_trans)

lemma v_keeps_each: "(\<And>x. eff_keeps R (f x)) \<Longrightarrow> v_keeps R (v_each f xs)"
  by (induction xs) (auto intro: v_keeps_return v_keeps_bind v_keeps_act)

lemma v_keeps_in_vm:
  assumes "env_keeps R we" and "v_keeps R m"
  shows "v_keeps R (in_vm we m)"
  unfolding in_vm_def
  by (rule v_keeps_bind [OF assms(2)], rule v_keepsI)
     (use assms(1) in \<open>auto simp: env_keeps_def split: option.splits dest: run_microtasks_keeps\<close>)

lemma unblock_pass_keeps:
  assumes "code_keeps R uc"
  shows "unblock_pass uc fuel seen count s = Some (t, r) \<Longrightarrow> R s t"
proof (induction fuel arbitrary: seen count s)
  case 0
  then show ?case by (subst (asm) unblock_pass.simps) (auto split: option.splits)
next
  case (Suc fuel)
  have call: "uc_call uc f [] root_als s = (s1, x) \<Longrightarrow> R s s1" for f s1 x
    using eff_keepsD [OF keeps_code(1) [OF assms], of s f "[]" root_als] by simp
  have unblocked: "R (resolve_promise p v u\<lparr>blockedConditions := x\<rparr>) t \<Longrightarrow> R u t" for p v u x
    using view_before [of "resolve_promise p v u\<lparr>blockedConditions := x\<rparr>" u t] by simp
  show ?case
    using Suc.prems
    by (subst (asm) unblock_pass.simps)
       (auto split: option.splits sum.splits prod.splits if_splits simp: Let_def
         dest!: Suc.IH call unblocked intro: R_trans)
qed

lemma unblock_loop_keeps:
  assumes "code_keeps R uc"
  shows "unblock_loop uc bound fuel count s = Some (t, r) \<Longrightarrow> R s t"
proof (induction fuel arbitrary: count s)
  case (Suc fuel)
  have "maybeRethrowWorkflowTaskError s = (s1, x) \<Longrightarrow> s1 = s" for s1 x
    by (auto simp: maybeRethrowWorkflowTaskError_def split: option.splits if_splits)
  then show ?case
    using Suc.prems
    by (auto split: option.splits sum.splits prod.splits if_splits
        dest!: Suc.IH unblock_pass_keeps [OF assms] intro: R_trans)
qed simp

lemma finally_keeps:
  assumes "v_keeps R m"
  shows "v_keeps R (\<lambda>s. finally_no_rethrow (m (set_rethrow True s)))"
proof (rule v_keepsI)
  fix s t r
  assume "finally_no_rethrow (m (set_rethrow True s)) = Some (t, r)"
  then obtain u where u: "m (set_rethrow True s) = Some (u, r)" "t = set_rethrow False u"
    by (auto simp: finally_no_rethrow_def)
  have "R s u" by (rule view_before [OF _ v_keepsD [OF assms u(1)]]) simp
  then show "R s t" by (rule view_after) (simp add: u(2))
qed

lemma tryUnblockConditions_keeps:
  assumes "code_keeps R uc"
  shows "v_keeps R (tryUnblockConditions uc fuel)"
  unfolding tryUnblockConditions_def [abs_def]
  by (rule finally_keeps) (rule v_keepsI, rule unblock_loop_keeps [OF assms])

lemma run_jobs_keeps:
  assumes "code_keeps R (we_code we)"
  shows "run_jobs we js s = Some (t, r) \<Longrightarrow> R s t"
proof (induction js arbitrary: s)
  case (Cons j js)
  have job: "run_job we j s = (s1, x) \<Longrightarrow> R s s1" for s1 x
    using eff_keepsD [OF run_job_keeps [OF assms], of s j] by simp
  show ?case
    using Cons.prems
    by (auto split: option.splits sum.splits prod.splits if_splits
        dest!: Cons.IH job v_keepsD [OF tryUnblockConditions_keeps [OF assms]] intro: R_trans)
qed simp

lemma activate_keeps:
  assumes "code_keeps R (we_code we)"
  shows "v_keeps R (activate we jobs)"
  unfolding activate_def [abs_def]
proof (rule finally_keeps, rule v_keepsI)
  fix s t r
  assume run: "activate_body we jobs s = Some (t, r)"
  have start: "startWorkflow (we_code we) args hs u = (v, x) \<Longrightarrow> R u v" for args hs u v x
    using eff_keepsD [OF startWorkflow_keeps [OF assms], of u args hs] by simp
  note steps = run_jobs_keeps [OF assms] v_keepsD [OF tryUnblockConditions_keeps [OF assms]] start
  show "R s t"
  proof (cases "\<exists>ij hs rest. jobs = JInitialize ij hs # rest")
    case True
    then show ?thesis
      using run unfolding activate_body_def
      by (auto split: option.splits sum.splits prod.splits if_splits dest!: steps) (blast intro: R_trans)+
  next
    case False
    then have "activate_body we jobs s = run_jobs we jobs s"
      by (auto simp: activate_body_def split: list.split job.split)
    then have "run_jobs we jobs s = Some (t, r)" using run by simp
    then show ?thesis by (rule steps(1))
  qed
qed

lemma unblock_until_quiet_keeps:
  assumes "env_keeps R we"
  shows "v_keeps R (unblock_until_quiet we n)"
proof (induction n)
  case 0
  show ?case by (rule v_keepsI) simp
next
  case (Suc n)
  have "v_keeps R (in_vm we (tryUnblockConditions (we_code we) (we_fuel we)))"
    using assms by (intro v_keeps_in_vm tryUnblockConditions_keeps) (simp_all add: env_keeps_def)
  then have "v_keeps R (v_bind (in_vm we (tryUnblockConditions (we_code we) (we_fuel we)))
       (\<lambda>k. if k = 0 then v_return () else unblock_until_quiet we n))"
    using Suc by (intro v_keeps_bind) (auto intro: v_keeps_return)
  then show ?case unfolding v_keeps_def unblock_until_quiet.simps .
qed

lemma activate_batch_keeps:
  assumes "env_keeps R we"
  shows "v_keeps R (activate_batch we jobs)"
  unfolding activate_batch_def tryUnblockConditionsAndMicrotasks_def
  using assms
  by (intro v_keeps_bind v_keeps_in_vm activate_keeps unblock_until_quiet_keeps) (simp_all add: env_keeps_def)

lemma run_batches_keeps:
  assumes "env_keeps R we"
  shows "v_keeps R (run_batches we b jobs)"
proof -
  have "eff_keeps R (update_seed j)" for j
    by (cases j) (auto intro!: keeps_view simp: updateRandomSeed_def eff_defs split: option.splits)
  then show ?thesis
    unfolding run_batches_def partition_jobs_def
    by (auto intro!: v_keeps_bind v_keeps_act v_keeps_return activate_batch_keeps [OF assms] simp: Let_def)
qed

text \<open>
  The end of an activation takes the commands out of the activator. \<open>v_emits R m\<close>: a run of \<open>m\<close> keeps \<open>R\<close> up to
  a state \<open>u\<close> and after a state \<open>v\<close> that differs from \<open>u\<close> in having no commands; if it succeeds, the result holds
  the commands of \<open>u\<close>.
\<close>

lemma warn_view [simp]: "view (warnIfUnfinishedHandlers s) = view s"
  by (simp add: warnIfUnfinishedHandlers_def Let_def)

lemma rejectBufferedUpdates_keeps: "eff_keeps R rejectBufferedUpdates"
proof (rule eff_keepsI)
  fix s
  show "R s (fst (rejectBufferedUpdates s))"
  proof (induction s rule: rejectBufferedUpdates.induct)
    case (1 s)
    show ?case
    proof (cases "bufferedUpdates s")
      case (Cons u us)
      obtain s' r where s': "rejectBufferedUpdate u (s\<lparr>bufferedUpdates := us\<rparr>) = (s', r)" by fastforce
      have "R (s\<lparr>bufferedUpdates := us\<rparr>) s'"
        using reject_update_step s' unfolding rejectBufferedUpdate_def by (metis fst_conv)
      then have k: "R s s'" by (rule view_before [rotated]) simp
      show ?thesis
      proof (cases r)
        case (Inr x)
        then show ?thesis using R_trans [OF k "1.IH" [OF Cons s'[unfolded Inr, symmetric]]] Cons s' by (subst rejectBufferedUpdates.simps) simp
      qed (use k Cons s' in \<open>subst rejectBufferedUpdates.simps, simp\<close>)
    qed (subst rejectBufferedUpdates.simps, simp)
  qed
qed

end

definition v_emits :: "(activator \<Rightarrow> activator \<Rightarrow> bool) \<Rightarrow> activation_result vact \<Rightarrow> bool" where
  "v_emits R m \<longleftrightarrow> (\<forall>s t r. m s = Some (t, r) \<longrightarrow>
     (\<exists>u. R s u \<and> (case r of
        Inl e \<Rightarrow> R u t \<or> (\<exists>v. view v = view (u\<lparr>commands := []\<rparr>) \<and> R v t)
      | Inr c \<Rightarrow> ar_commands c = commands u \<and> (\<exists>v. view v = view (u\<lparr>commands := []\<rparr>) \<and> R v t))))"

context execution_frame
begin

lemma conclude_emits:
  assumes "conclude s = (t, r)"
  shows "\<exists>u. R s u \<and> (case r of
        Inl e \<Rightarrow> R u t \<or> view t = view (u\<lparr>commands := []\<rparr>)
      | Inr c \<Rightarrow> ar_commands c = commands u \<and> view t = view (u\<lparr>commands := []\<rparr>))"
proof -
  obtain u x where u: "rejectBufferedUpdates (set_rethrow True s) = (u, x)" by fastforce
  have "R (set_rethrow True s) u"
    using eff_keepsD [OF rejectBufferedUpdates_keeps] u by (metis fst_conv)
  then have k: "R s u" by (rule view_before [rotated]) simp
  show ?thesis
    using assms k
    by (intro exI [of _ u])
       (auto simp: conclude_def u concludeActivation_def Let_def simp del: rejectBufferedUpdates.simps
         intro: view_step split: sum.splits if_splits)
qed

lemma in_vm_conclude_emits:
  assumes "env_keeps R we"
  shows "v_emits R (in_vm we (v_act conclude))"
  unfolding v_emits_def
proof (intro allI impI)
  fix s t r
  assume run: "in_vm we (v_act conclude) s = Some (t, r)"
  obtain s1 x where c: "conclude s = (s1, x)" by fastforce
  obtain u where u: "R s u" "case x of
        Inl e \<Rightarrow> R u s1 \<or> view s1 = view (u\<lparr>commands := []\<rparr>)
      | Inr c \<Rightarrow> ar_commands c = commands u \<and> view s1 = view (u\<lparr>commands := []\<rparr>)"
    using conclude_emits [OF c] by blast
  have self: "\<exists>v. view v = view (u\<lparr>commands := []\<rparr>) \<and> R v t" if "view t = view (u\<lparr>commands := []\<rparr>)"
    using that R_refl by blast
  have "x = r" "R s1 t" if "\<And>e. x \<noteq> Inl e"
    using run that assms
    by (cases x; auto simp: in_vm_def v_bind_def v_act_def c env_keeps_def split: option.splits dest: run_microtasks_keeps)+
  moreover have "x = r \<and> s1 = t" if "x = Inl e" for e
    using run that by (simp add: in_vm_def v_bind_def v_act_def c)
  ultimately show "\<exists>u. R s u \<and> (case r of
        Inl e \<Rightarrow> R u t \<or> (\<exists>v. view v = view (u\<lparr>commands := []\<rparr>) \<and> R v t)
      | Inr c \<Rightarrow> ar_commands c = commands u \<and> (\<exists>v. view v = view (u\<lparr>commands := []\<rparr>) \<and> R v t))"
    using u self by (intro exI [of _ u]) (cases x; auto)
qed

lemma v_emits_bind:
  assumes "v_keeps R m" and "\<And>x. v_emits R (f x)"
  shows "v_emits R (v_bind m f)"
  unfolding v_emits_def
proof (intro allI impI)
  fix s t r
  assume run: "v_bind m f s = Some (t, r)"
  then obtain s1 y where y: "m s = Some (s1, y)" by (auto simp: v_bind_def split: option.splits)
  have k: "R s s1" using assms(1) y by (rule v_keepsD)
  show "\<exists>u. R s u \<and> (case r of
        Inl e \<Rightarrow> R u t \<or> (\<exists>v. view v = view (u\<lparr>commands := []\<rparr>) \<and> R v t)
      | Inr c \<Rightarrow> ar_commands c = commands u \<and> (\<exists>v. view v = view (u\<lparr>commands := []\<rparr>) \<and> R v t))"
  proof (cases y)
    case (Inl e)
    then show ?thesis using run y k by (auto simp: v_bind_def)
  next
    case (Inr x)
    then have "f x s1 = Some (t, r)" using run y by (simp add: v_bind_def)
    then obtain u where "R s1 u" "case r of
        Inl e \<Rightarrow> R u t \<or> (\<exists>v. view v = view (u\<lparr>commands := []\<rparr>) \<and> R v t)
      | Inr c \<Rightarrow> ar_commands c = commands u \<and> (\<exists>v. view v = view (u\<lparr>commands := []\<rparr>) \<and> R v t)"
      using assms(2) unfolding v_emits_def by blast
    then show ?thesis using R_trans [OF k] by blast
  qed
qed

lemma initialize_first_keeps:
  assumes "env_keeps R we"
  shows "v_keeps R (initialize_first we jobs)"
proof -
  have "view (fst (initialize we ij s)) = view s" for ij s
    by (simp add: initialize_def split_beta initializeWorkflow_view)
  then show ?thesis
    unfolding initialize_first_def
    by (auto split: option.split job.split intro!: v_keeps_return v_keeps_in_vm [OF assms] v_keeps_act keeps_view)
qed

lemma activate_jobs_emits:
  assumes "env_keeps R we"
  shows "v_emits R (activate_jobs we av jobs)"
proof -
  have sb: "eff_keeps R (single_batch jobs)"
    by (rule keeps_view) (simp add: single_batch_def split_beta)
  have np: "eff_keeps R (notify_patch j)" for j
    by (cases j) (auto intro!: keeps_view simp: notifyHasPatch_def eff_defs split: option.splits)
  have pr: "eff_keeps R (prepare_activator av jobs)" by (rule keeps_view) simp
  show ?thesis
    unfolding activate_jobs_def partition_jobs_def Let_def prod.case
    by (intro v_emits_bind v_keeps_act v_keeps_each pr sb np initialize_first_keeps run_batches_keeps
        in_vm_conclude_emits assms)
qed

lemma activateQueries_emits:
  assumes "env_keeps R we"
  shows "v_emits R (activateQueries we jobs)"
  unfolding activateQueries_def
  using assms
  by (intro v_emits_bind v_keeps_act v_keeps_in_vm activate_keeps in_vm_conclude_emits keeps_modify)
     (simp_all add: env_keeps_def mutateWorkflowInfo_def view_step)

end

end
