(* ===== verification/Executions.thy ===== *)
theory Executions
  imports ExecutionFrame
begin

text \<open>
  Properties of whole executions: sequences of activations of one workflow, with the completions it
  returned to the server. The user's code is arbitrary code that reaches the state of the runtime
  through the workflow API only, expressed by the relation it keeps.
\<close>

section \<open>Sequences of activations\<close>

fun vm_run ::
  "worker_env \<Rightarrow> (js_error list \<times> wf_activation) list \<Rightarrow> vm_workflow \<Rightarrow>
     (vm_workflow \<times> (js_error + wf_completion) list) option" where
  "vm_run we [] w = Some (w, [])"
| "vm_run we ((rejections, av) # acts) w = (case vm_activate we rejections av w of
     None \<Rightarrow> None
   | Some (w1, r) \<Rightarrow> (case vm_run we acts w1 of None \<Rightarrow> None | Some (w2, rs) \<Rightarrow> Some (w2, r # rs)))"

fun completion_commands :: "js_error + wf_completion \<Rightarrow> wf_command list" where
  "completion_commands (Inr (Successful c)) = ar_commands c"
| "completion_commands _ = []"

definition emitted :: "(js_error + wf_completion) list \<Rightarrow> wf_command list" where
  "emitted rs = concat (map completion_commands rs)"

lemma emitted_simps [simp]: "emitted [] = []" "emitted (r # rs) = completion_commands r @ emitted rs"
  by (simp_all add: emitted_def)

text \<open>
  An invariant of the commands sent so far and the state. It survives the steps of the frame, the end
  of an activation, also when its commands are lost with a failed completion, and the report of an
  unhandled rejection.
\<close>

locale execution_history = execution_frame R for R :: "activator \<Rightarrow> activator \<Rightarrow> bool" +
  fixes I :: "wf_command list \<Rightarrow> activator \<Rightarrow> bool"
  assumes inv_step: "R s t \<Longrightarrow> I em s \<Longrightarrow> I em t"
    and inv_send: "I em s \<Longrightarrow> I (em @ commands s) (s\<lparr>commands := []\<rparr>)"
    and inv_lose: "I em s \<Longrightarrow> I em (s\<lparr>commands := []\<rparr>)"
    and inv_reject: "I em s \<Longrightarrow> I em (s\<lparr>workflowTaskError := x\<rparr>)"
begin

lemma inv_emits:
  assumes "v_emits R m" and "m s = Some (t, r)" and "I em s"
  shows "I em t \<and> (\<forall>c. r = Inr c \<longrightarrow> I (em @ ar_commands c) t)"
proof -
  obtain u where u: "R s u" "case r of
        Inl e \<Rightarrow> R u t \<or> (\<exists>v. view v = view (u\<lparr>commands := []\<rparr>) \<and> R v t)
      | Inr c \<Rightarrow> ar_commands c = commands u \<and> (\<exists>v. view v = view (u\<lparr>commands := []\<rparr>) \<and> R v t)"
    using assms(1,2) unfolding v_emits_def by blast
  have iu: "I em u" using u(1) assms(3) by (rule inv_step)
  have "I x t" if "I x (u\<lparr>commands := []\<rparr>)" "view v = view (u\<lparr>commands := []\<rparr>)" "R v t" for x v
    using inv_step [OF R_trans [OF view_step [OF that(2)] that(3)] that(1)] .
  then show ?thesis
    using u(2) inv_step [OF _ iu] inv_send [OF iu] inv_lose [OF iu] by (cases r) auto
qed

lemma inv_rejections: "I em (vm_activator w) \<Longrightarrow> I em (vm_activator (fold setUnhandledRejection es w))"
  by (induction es arbitrary: w) (simp_all add: setUnhandledRejection_def inv_reject)

lemma fail_activation_state [simp]: "vm_activator (fst (fail_activation e w)) = vm_activator w"
  by (auto simp: fail_activation_def failed_completion_def errorToFailure_def split: sum.splits)

lemma fail_activation_commands [simp]: "completion_commands (snd (fail_activation e w)) = []"
  by (auto simp: fail_activation_def failed_completion_def errorToFailure_def split: sum.splits)

lemma report_rejections_inv:
  assumes "I em (vm_activator w)" and "I (em @ ar_commands c) (vm_activator w)"
  shows "I (em @ completion_commands (snd (report_rejections rej c w))) (vm_activator (fst (report_rejections rej c w)))"
  using assms [THEN inv_rejections] by (auto simp: report_rejections_def Let_def split: option.split)

lemma vm_activate_inv:
  assumes "env_keeps R we" and "vm_activate we rej av w = Some (w', r)" and "I em (vm_activator w)"
  shows "I (em @ completion_commands r) (vm_activator w')"
proof -
  have fail: "I (em @ completion_commands r) (vm_activator w')"
    if "(w', r) = fail_activation e u" "I em (vm_activator u)" for e u
    using that(2) fail_activation_state [of e u] fail_activation_commands [of e u] that(1) [symmetric] by simp
  have q: "I em t \<and> (\<forall>c. x = Inr c \<longrightarrow> I (em @ ar_commands c) t)"
    if "activateQueries we jobs (vm_activator w) = Some (t, x)" for jobs t x
    using activateQueries_emits [OF assms(1)] that assms(3) by (rule inv_emits)
  have j: "I em t \<and> (\<forall>c. x = Inr c \<longrightarrow> I (em @ ar_commands c) t)"
    if "activate_jobs we av jobs (vm_activator w) = Some (t, x)" for jobs t x
    using activate_jobs_emits [OF assms(1)] that assms(3) by (rule inv_emits)
  have rep: "I (em @ completion_commands r) (vm_activator w')"
    if "(w', r) = report_rejections rej c u" "I em (vm_activator u)" "I (em @ ar_commands c) (vm_activator u)" for c u
    using report_rejections_inv [OF that(2,3), of rej] that(1) [symmetric] by simp
  show ?thesis
    using assms(2)
    by (auto simp: vm_activate_def Let_def partition_jobs_def split: if_splits option.splits sum.splits prod.splits
        dest!: q j intro: fail [OF sym] fail rep [OF sym] assms(3))
qed

theorem vm_run_inv:
  assumes "env_keeps R we"
  shows "vm_run we acts w = Some (w', rs) \<Longrightarrow> I em (vm_activator w) \<Longrightarrow> I (em @ emitted rs) (vm_activator w')"
proof (induction acts arbitrary: w rs em)
  case (Cons a acts)
  obtain rej av where a: "a = (rej, av)" by fastforce
  obtain w1 r rs' where s: "vm_activate we rej av w = Some (w1, r)" "vm_run we acts w1 = Some (w', rs')" "rs = r # rs'"
    using Cons.prems(1) by (auto simp: a split: option.splits)
  have "I (em @ completion_commands r) (vm_activator w1)"
    using vm_activate_inv [OF assms s(1) Cons.prems(2)] .
  from Cons.IH [OF s(2) this] show ?case by (simp add: s(3))
qed simp

end

section \<open>Sequence numbers\<close>

definition starts :: "wf_command list \<Rightarrow> (seq_kind \<times> nat) list" where
  "starts cs = List.map_filter (\<lambda>c. start_seq (variant c)) cs"

lemma starts_simps [simp]:
  "starts [] = []"
  "starts (c # cs) = (case start_seq (variant c) of None \<Rightarrow> starts cs | Some x \<Rightarrow> x # starts cs)"
  "starts (xs @ ys) = starts xs @ starts ys"
  by (simp_all add: starts_def map_filter_def split: option.splits)

text \<open>
  \<open>issues s t\<close>: going from \<open>s\<close> to \<open>t\<close> appended commands whose numbers were free in \<open>s\<close> and are taken in \<open>t\<close>.
\<close>

definition issues :: "activator \<Rightarrow> activator \<Rightarrow> bool" where
  "issues s t \<longleftrightarrow> (\<exists>new. commands t = commands s @ new \<and> distinct (starts new) \<and>
     (\<forall>k. nextSeqs s k \<le> nextSeqs t k) \<and>
     (\<forall>(k, n) \<in> set (starts new). nextSeqs s k \<le> n \<and> n < nextSeqs t k))"

lemma issues_trans: "issues a b \<Longrightarrow> issues b c \<Longrightarrow> issues a c"
proof -
  assume "issues a b" "issues b c"
  then obtain x y where x: "commands b = commands a @ x" "distinct (starts x)" "\<forall>k. nextSeqs a k \<le> nextSeqs b k"
    "\<forall>(k, n) \<in> set (starts x). nextSeqs a k \<le> n \<and> n < nextSeqs b k"
    and y: "commands c = commands b @ y" "distinct (starts y)" "\<forall>k. nextSeqs b k \<le> nextSeqs c k"
    "\<forall>(k, n) \<in> set (starts y). nextSeqs b k \<le> n \<and> n < nextSeqs c k"
    unfolding issues_def by blast
  have "set (starts x) \<inter> set (starts y) = {}" using x(4) y(4) by fastforce
  then have "distinct (starts (x @ y))" using x(2) y(2) by simp
  moreover have "nextSeqs a k \<le> nextSeqs c k" for k using x(3) y(3) order_trans by blast
  moreover have "\<forall>(k, n) \<in> set (starts (x @ y)). nextSeqs a k \<le> n \<and> n < nextSeqs c k"
    using x(3,4) y(3,4) by (fastforce intro: order_trans order_less_le_trans)
  ultimately show ?thesis unfolding issues_def using x(1) y(1) by (intro exI [of _ "x @ y"]) simp
qed

lemma issues_none: "commands t = commands s \<Longrightarrow> nextSeqs t = nextSeqs s \<Longrightarrow> issues s t"
  unfolding issues_def by (intro exI [of _ "[]"]) simp

lemma issues_other:
  "commands t = commands s @ [c] \<Longrightarrow> start_seq (variant c) = None \<Longrightarrow> nextSeqs t = nextSeqs s \<Longrightarrow> issues s t"
  unfolding issues_def by (intro exI [of _ "[c]"]) simp

lemma issues_start:
  assumes "take_seq k s = (n, s1)" and "one_start (k, n) s1 t"
  shows "issues s t"
proof -
  have n: "n = nextSeqs s k" "nextSeqs s1 = (nextSeqs s)(k := Suc n)" "commands s1 = commands s"
    using assms(1) by (auto simp: take_seq_def)
  obtain new where new: "commands t = commands s @ new" "new = [] \<or> (\<exists>c. new = [c] \<and> start_seq (variant c) = Some (k, n))"
    "nextSeqs t = nextSeqs s1"
    using assms(2) n(3) unfolding one_start_def
    by (auto dest: view_eqD simp: pushCommand_def view_def)
  then show ?thesis
    unfolding issues_def using n by (intro exI [of _ new]) auto
qed

lemma patchInternal_commands:
  "nextSeqs (fst (patchInternal dpc st p d g s)) = nextSeqs s"
  "commands (fst (patchInternal dpc st p d g s)) = commands s \<or>
   (\<exists>c. commands (fst (patchInternal dpc st p d g s)) = commands s @ [c] \<and> start_seq (variant c) = None)"
  by (auto simp: patchInternal_def Let_def pushCommand_def split: option.splits sum.splits if_splits)

lemma recordError_fields:
  "nextSeqs (fst (recordWorkflowTaskError e s)) = nextSeqs s" "commands (fst (recordWorkflowTaskError e s)) = commands s"
  "patchDecisions (fst (recordWorkflowTaskError e s)) = patchDecisions s"
  "sentPatches (fst (recordWorkflowTaskError e s)) = sentPatches s"
  by (auto simp: recordWorkflowTaskError_def maybeRethrowWorkflowTaskError_def Let_def split: option.splits)

interpretation issuing: execution_frame issues
proof unfold_locales
  show "transp issues" by (rule transpI) (rule issues_trans)
  show "issues s (fst (patchInternal dpc store p d g s))" for s dpc store p d g
    using patchInternal_commands [of dpc store p d g s] issues_none issues_other by blast
  show "issues s (pushCommand c final s)"
    if "start_seq (variant c) = None" for c s final
    using that by (intro issues_other [of _ _ c]) (simp_all add: pushCommand_def Let_def)
qed (auto intro: issues_none issues_start dest: view_eqD simp: recordError_fields)

definition numbers_inv :: "wf_command list \<Rightarrow> activator \<Rightarrow> bool" where
  "numbers_inv em s \<longleftrightarrow> distinct (starts (em @ commands s)) \<and>
     (\<forall>(k, n) \<in> set (starts (em @ commands s)). n < nextSeqs s k)"

interpretation numbers: execution_history issues numbers_inv
proof unfold_locales
  fix s t em
  assume "issues s t" and inv: "numbers_inv em s"
  then obtain new where new: "commands t = commands s @ new" "distinct (starts new)" "\<forall>k. nextSeqs s k \<le> nextSeqs t k"
    "\<forall>(k, n) \<in> set (starts new). nextSeqs s k \<le> n \<and> n < nextSeqs t k"
    unfolding issues_def by blast
  have "set (starts (em @ commands s)) \<inter> set (starts new) = {}"
    using inv new(4) unfolding numbers_inv_def by fastforce
  moreover have "\<forall>(k, n) \<in> set (starts (em @ commands t)). n < nextSeqs t k"
    using inv new unfolding numbers_inv_def by (auto dest!: bspec intro: order_less_le_trans)
  ultimately show "numbers_inv em t"
    using inv new unfolding numbers_inv_def by auto
qed (auto simp: numbers_inv_def)

section \<open>Patches\<close>

definition decided :: "activator \<Rightarrow> activator \<Rightarrow> bool" where
  "decided s t \<longleftrightarrow> (\<forall>p b. js_get (patchDecisions s) p = Some b \<longrightarrow> js_get (patchDecisions t) p = Some b)"

interpretation deciding: execution_frame decided
proof unfold_locales
  show "transp decided" by (auto simp: transp_def decided_def)
  show "decided s t" if "take_seq k s = (n, s1)" "one_start (k, n) s1 t" for k s n s1 t
    using that by (auto simp: decided_def take_seq_def one_start_def pushCommand_def dest: view_eqD(4))
qed (auto simp: decided_def recordError_fields patchInternal_def pushCommand_def Let_def
      dest: view_eqD(4) split: option.split sum.split)

interpretation decisions: execution_history decided "\<lambda>em s. js_get (patchDecisions s) p = Some b" for p b
  by unfold_locales (auto simp: decided_def)

section \<open>Failed workflow tasks\<close>

definition sticky :: "activator \<Rightarrow> activator \<Rightarrow> bool" where
  "sticky s t \<longleftrightarrow> workflowTaskError s = None \<or> workflowTaskError t = workflowTaskError s"

interpretation failing: execution_frame sticky
proof unfold_locales
  show "transp sticky" by (auto simp: transp_def sticky_def)
  show "sticky s t" if "take_seq k s = (n, s1)" "one_start (k, n) s1 t" for k s n s1 t
    using that by (auto simp: sticky_def take_seq_def one_start_def pushCommand_def dest: view_eqD(3))
qed (auto simp: sticky_def recordWorkflowTaskError_def maybeRethrowWorkflowTaskError_def patchInternal_def
      pushCommand_def Let_def dest: view_eqD(3) split: option.split sum.split)

text \<open>
  The task has failed with an error that is not falsy; code that is \<open>stuck\<close> does not return normally from
  then on.
\<close>

definition broken :: "activator \<Rightarrow> bool" where
  "broken s \<longleftrightarrow> (\<exists>e. workflowTaskError s = Some e \<and> err_truthy e)"

definition stuck :: "'a vact \<Rightarrow> bool" where
  "stuck m \<longleftrightarrow> (\<forall>s t x. broken s \<longrightarrow> m s \<noteq> Some (t, Inr x))"

lemma stuckD: "stuck m \<Longrightarrow> broken s \<Longrightarrow> m s \<noteq> Some (t, Inr x)"
  by (simp add: stuck_def)

lemma stuck_first: "stuck m \<Longrightarrow> stuck (v_bind m f)"
  unfolding stuck_def v_bind_def by (auto split: option.splits sum.splits)

lemma broken_step: "v_keeps sticky m \<Longrightarrow> m s = Some (t, r) \<Longrightarrow> broken s \<Longrightarrow> broken t"
  unfolding broken_def by (drule (1) v_keepsD) (auto simp: sticky_def)

lemma stuck_then: "v_keeps sticky m \<Longrightarrow> (\<And>x. stuck (f x)) \<Longrightarrow> stuck (v_bind m f)"
  unfolding stuck_def [of "v_bind m f"]
  by (auto simp: v_bind_def split: option.splits sum.splits dest: broken_step stuckD)

lemma stuck_tryUnblock: "stuck (tryUnblockConditions uc fuel)"
proof -
  have "unblock_loop uc b fuel n s \<noteq> Some (t, Inr x)" if "broken s" for b n s t x
    using that by (cases fuel) (auto simp: broken_def maybeRethrowWorkflowTaskError_def)
  moreover have "broken (set_rethrow True s)" if "broken s" for s
    using that by (simp add: broken_def set_rethrow_def)
  ultimately show ?thesis
    by (auto simp: stuck_def tryUnblockConditions_def finally_no_rethrow_def)
qed

lemma stuck_activate_batch:
  assumes "env_keeps sticky we"
  shows "stuck (activate_batch we jobs)"
proof -
  have "stuck (unblock_until_quiet we n)" for n
  proof (cases n)
    case (Suc m)
    have "stuck (v_bind (in_vm we (tryUnblockConditions (we_code we) (we_fuel we)))
        (\<lambda>k. if k = 0 then v_return () else unblock_until_quiet we m))"
      unfolding in_vm_def by (intro stuck_first stuck_tryUnblock)
    then show ?thesis by (simp add: Suc stuck_def)
  qed (simp add: stuck_def)
  moreover have "v_keeps sticky (in_vm we (activate we jobs))"
    using assms by (intro failing.v_keeps_in_vm failing.activate_keeps) (simp_all add: env_keeps_def)
  ultimately show ?thesis
    unfolding activate_batch_def tryUnblockConditionsAndMicrotasks_def by (intro stuck_then)
qed

lemma stuck_run_batches:
  assumes "env_keeps sticky we" and "b \<or> (\<exists>j \<in> set jobs. is_signal j)"
  shows "stuck (run_batches we b jobs)"
proof (cases b)
  case True
  have "v_keeps sticky (v_act (update_seed j))" for j
    by (cases j) (auto intro!: failing.v_keeps_act failing.keeps_view simp: updateRandomSeed_def eff_defs split: option.splits)
  then show ?thesis
    using True by (auto simp: run_batches_def partition_jobs_def failing.v_keeps_act
        intro!: stuck_then stuck_activate_batch assms(1))
next
  case False
  then have "filter is_signal jobs \<noteq> []" using assms(2) by (auto simp: filter_empty_conv)
  then show ?thesis
    using False by (simp add: run_batches_def partition_jobs_def stuck_first stuck_activate_batch assms(1))
qed

lemma stuck_activate_jobs:
  assumes "env_keeps sticky we"
  shows "stuck (activate_jobs we av jobs)"
proof -
  define nps where "nps = filter (\<lambda>j. \<not> is_patch j) jobs"
  have np: "v_keeps sticky (v_each notify_patch js)" for js
  proof (rule failing.v_keeps_each, rule failing.keeps_view)
    show "view (fst (notify_patch j s)) = view s" for j s
      by (cases j) (auto simp: notifyHasPatch_def eff_defs split: option.splits)
  qed
  have rest: "stuck (v_bind (v_each notify_patch ps) (\<lambda>_. v_bind (run_batches we b nps) (\<lambda>_. in_vm we (v_act conclude))))"
    if "b \<or> (\<exists>j \<in> set nps. is_signal j)" for b ps
    using that by (intro stuck_then np stuck_first stuck_run_batches assms)
  have sig: "\<exists>j \<in> set nps. is_signal j" if "\<exists>j \<in> set jobs. is_signal j"
    using that by (auto simp: nps_def elim!: is_signal.elims)
  have main: "stuck (v_bind (v_act (single_batch jobs)) (\<lambda>b.
      v_bind (v_each notify_patch ps) (\<lambda>_. v_bind (run_batches we b nps) (\<lambda>_. in_vm we (v_act conclude)))))" for ps
    unfolding stuck_def
  proof (intro allI impI)
    fix s t x
    assume br: "broken s"
    define s1 where "s1 = fst (single_batch jobs s)"
    obtain b where b: "single_batch jobs s = (s1, Inr b)" "b \<or> (\<exists>j \<in> set nps. is_signal j)"
      by (cases "\<exists>j \<in> set jobs. is_signal j"; cases "hasFlag ProcessWorkflowActivationJobsAsSingleBatch s")
         (use sig in \<open>auto simp: s1_def single_batch_def\<close>)
    have "view s1 = view s"
      using b(1) by (auto simp: single_batch_def split_beta split: if_splits)
    then have "broken s1" using br view_eqD(3) [of s1 s] by (simp add: broken_def)
    then show "v_bind (v_act (single_batch jobs)) (\<lambda>b.
      v_bind (v_each notify_patch ps) (\<lambda>_. v_bind (run_batches we b nps) (\<lambda>_. in_vm we (v_act conclude)))) s \<noteq> Some (t, Inr x)"
      using stuckD [OF rest [OF b(2)]] by (simp add: v_bind_def [of "v_act (single_batch jobs)"] v_act_def b(1))
  qed
  have "v_keeps sticky (v_act (prepare_activator av jobs))"
    by (intro failing.v_keeps_act failing.keeps_view) simp
  then show ?thesis
    unfolding activate_jobs_def partition_jobs_def Let_def prod.case nps_def [symmetric]
    using main failing.initialize_first_keeps [OF assms]
    by (intro stuck_then [of "v_act (prepare_activator av jobs)"] stuck_then [of "initialize_first we jobs"])
qed

section \<open>An example execution\<close>

text \<open>
  Workflow code that asks for a patch and starts a timer whenever it is called, and leaves the value of a promise as it is.
  The workflow function and the handler of the signal \<^verbatim>\<open>go\<close> are such code.
\<close>

definition example_env :: api_env where
  "example_env = \<lparr>ev_ms = (\<lambda>_. None), ev_dpc = string_converter, ev_uuid4 = (\<lambda>s. (''uuid'', s))\<rparr>"

definition timer_code :: user_code where
  "timer_code = recording_code\<lparr>uc_call := (\<lambda>f args a. eff_bind (patched example_env a ''p'' None)
     (\<lambda>_. sleep example_env [] (Millis (Num 1000)) None None a))\<rparr>"

definition timer_worker :: worker_env where
  "timer_worker = \<lparr>we_api = example_env, we_outbound = \<lparr>ob_startTimer = [], ob_scheduleLocalActivity = []\<rparr>,
     we_code = timer_code, we_options = None, we_nexus = [], we_fuel = 9\<rparr>"

definition empty_init :: init_job where
  "empty_init = \<lparr>ij_arguments = None, ij_continuedFailure = None, ij_lastCompletionResult = None, ij_memo = None,
     ij_nexusContext = None\<rparr>"

definition activation_of :: "bool \<Rightarrow> job list \<Rightarrow> js_error list \<times> wf_activation" where
  "activation_of replaying jobs = ([], \<lparr>av_jobs = Some jobs, av_timestamp = Some \<lparr>seconds = Some 1, nanos = Some 0\<rparr>,
     av_isReplaying = Some replaying,
     av_historyLength = 3, av_historySizeBytes = None, av_continueAsNewSuggested = None,
     av_targetWorkerDeploymentVersionChanged = None, av_suggestContinueAsNewReasons = None,
     av_deploymentVersion = None, av_availableInternalFlags = None, av_lastSdkVersion = None\<rparr>)"

definition example_workflow :: vm_workflow where
  "example_workflow = \<lparr>vm_context = True,
     vm_activator = example_activator\<lparr>workflow := Some 5, queryHandlers := [], signalHandlers := [(''go'', user_handler 6)]\<rparr>,
     unhandledRejection = None\<rparr>"

context execution_frame
begin

lemma timer_env_keeps: "env_keeps R timer_worker"
  by (simp add: env_keeps_def timer_worker_def no_outbound_def code_keeps_def timer_code_def recording_code_def
      keeps_bind patched_keeps eff_keepsI sleep_keeps)

end

definition observed :: "(vm_workflow \<times> (js_error + wf_completion) list) option \<Rightarrow>
    ((seq_kind \<times> nat) list \<times> (string, bool) js_map) option" where
  "observed x = map_option (\<lambda>(w, rs). (starts (emitted rs), patchDecisions (vm_activator w))) x"

lemma example_run:
  "observed (vm_run timer_worker [activation_of False [JSignal (named_signal ''go'')]] example_workflow) =
   Some ([(TimerS, 1)], [(''p'', True)])"
  by code_simp

lemma example_run_Some:
  obtains w rs where "vm_run timer_worker [activation_of False [JSignal (named_signal ''go'')]] example_workflow = Some (w, rs)"
    and "starts (emitted rs) = [(TimerS, 1)]" and "patchDecisions (vm_activator w) = [(''p'', True)]"
  using example_run by (auto simp: observed_def)

section \<open>Properties of executions\<close>






definition broken_workflow :: vm_workflow where
  "broken_workflow = \<lparr>vm_context = False, vm_activator = example_activator\<lparr>workflowTaskError := Some (TypeError ''x'')\<rparr>,
     unhandledRejection = None\<rparr>"


end
