(* ===== verification/WorkerLifecycle.thy ===== *)
theory WorkerLifecycle
  imports Errors
begin

text \<open>
  The life of a worker, \<^verbatim>\<open>shutdown\<close>, \<^verbatim>\<open>forceShutdown$\<close>, \<^verbatim>\<open>runInternal\<close> and \<^verbatim>\<open>runUntil\<close> of
  \<^verbatim>\<open>packages/worker/src/worker.ts\<close>. The streams of tasks appear by what they report: an error of one of them, or the
  completion of all. \<open>w_outcome\<close> is the end of the merged stream that \<^verbatim>\<open>runInternal\<close> waits for.

  The outcome of the core's \<^verbatim>\<open>initiateShutdown\<close>, a call into native code, is an argument of the operations that
  may make it.
\<close>

datatype wstate = INITIALIZED | RUNNING | STOPPING | DRAINING | DRAINED | STOPPED | FAILED

record worker =
  w_state :: wstate
  w_fatalError :: "js_error option"
  w_unexpectedSeen :: bool
  w_terminateSeen :: bool
  w_outcome :: "(js_error + unit) option"

definition new_worker :: worker where
  "new_worker = \<lparr>w_state = INITIALIZED, w_fatalError = None, w_unexpectedSeen = False, w_terminateSeen = False, w_outcome = None\<rparr>"

section \<open>Operations\<close>

text \<open>The merged stream fails: a fatal error that was noted before takes precedence.\<close>

definition stream_error :: "js_error \<Rightarrow> worker \<Rightarrow> worker" where
  "stream_error e w =
     (if w_outcome w \<noteq> None then w
      else w\<lparr>w_outcome := Some (Inl (case w_fatalError w of Some f \<Rightarrow> f | None \<Rightarrow> e)), w_state := FAILED\<rparr>)"

text \<open>\<^verbatim>\<open>instantTerminateErrorSubject.error\<close>: the first call counts, and only while the stream listens.\<close>

definition instantTerminate :: "js_error \<Rightarrow> worker \<Rightarrow> worker" where
  "instantTerminate e w =
     (if w_terminateSeen w then w
      else let w' = w\<lparr>w_terminateSeen := True\<rparr>
           in if w_state w \<in> {RUNNING, STOPPING, DRAINING} then stream_error e w' else w')"

definition shutdown :: "js_error + unit \<Rightarrow> worker \<Rightarrow> worker \<times> (js_error + unit)" where
  "shutdown initiate w =
     (if w_state w \<noteq> RUNNING then (w, Inl (IllegalStateError ''Not running''))
      else let w1 = w\<lparr>w_state := STOPPING\<rparr>
           in case initiate of
                Inr _ \<Rightarrow> (w1\<lparr>w_state := DRAINING\<rparr>, Inr ())
              | Inl e \<Rightarrow> (instantTerminate e w1, Inr ()))"

text \<open>The subscription of \<^verbatim>\<open>runInternal\<close> to the unexpected errors, in the order of its statements.\<close>

definition unexpectedError :: "js_error + unit \<Rightarrow> js_error \<Rightarrow> worker \<Rightarrow> worker" where
  "unexpectedError initiate e w =
     (if w_unexpectedSeen w then w
      else let w1 = w\<lparr>w_unexpectedSeen := True\<rparr>;
               w2 = (if w_state w1 = RUNNING then fst (shutdown initiate w1) else w1)
           in if w_fatalError w2 = None then w2\<lparr>w_fatalError := Some e\<rparr> else w2)"

abbreviation GracefulShutdownPeriodExpiredError :: js_error where
  "GracefulShutdownPeriodExpiredError \<equiv> OtherError [(22, ''GracefulShutdownPeriodExpiredError''), Error_class]
     ''Timed out while waiting for worker to shutdown gracefully'' [] None"

definition forceTimer :: "worker \<Rightarrow> worker" where
  "forceTimer w = (if w_state w \<in> {STOPPING, DRAINING} then instantTerminate GracefulShutdownPeriodExpiredError w else w)"

text \<open>All streams of tasks are complete: \<open>DRAINED\<close>, which ends the others, and the merged stream with them.\<close>

definition drained :: "worker \<Rightarrow> worker" where
  "drained w =
     (if w_outcome w \<noteq> None then w
      else let w1 = w\<lparr>w_state := DRAINED\<rparr>
           in case w_fatalError w1 of
                Some f \<Rightarrow> w1\<lparr>w_outcome := Some (Inl f), w_state := FAILED\<rparr>
              | None \<Rightarrow> w1\<lparr>w_outcome := Some (Inr ()), w_state := STOPPED\<rparr>)"

definition runInternal :: "worker \<Rightarrow> worker \<times> (js_error + unit)" where
  "runInternal w =
     (if w_state w \<noteq> INITIALIZED then (w, Inl (IllegalStateError ''Poller was already started''))
      else (w\<lparr>w_state := RUNNING\<rparr>, Inr ()))"

text \<open>
  What the promise of \<^verbatim>\<open>run\<close> settles to when the stream has ended: an error of \<^verbatim>\<open>finalizeShutdown\<close> counts only if there
  was none before.
\<close>

definition run_promise :: "js_error + unit \<Rightarrow> worker \<Rightarrow> (js_error + unit) option" where
  "run_promise finalize w = (case w_outcome w of
     None \<Rightarrow> None
   | Some (Inl e) \<Rightarrow> Some (Inl e)
   | Some (Inr _) \<Rightarrow> Some finalize)"

text \<open>\<^verbatim>\<open>runUntil\<close>: the errors of the worker and of the promise it was given.\<close>

abbreviation CombinedWorkerRunError :: "js_error \<Rightarrow> js_error" where
  "CombinedWorkerRunError worker_error \<equiv> OtherError [(23, ''CombinedWorkerRunError''), Error_class]
     ''Worker terminated with fatal error in `runUntil`'' [] (Some worker_error)"

definition runUntil_result :: "js_error option \<Rightarrow> 'a + js_error \<Rightarrow> js_error + 'a" where
  "runUntil_result workerError inner = (case workerError of
     None \<Rightarrow> (case inner of Inl v \<Rightarrow> Inr v | Inr reason \<Rightarrow> Inl reason)
   | Some we \<Rightarrow> (case inner of Inl v \<Rightarrow> Inl we | Inr reason \<Rightarrow> Inl (CombinedWorkerRunError we)))"

section \<open>The worker as a machine\<close>

inductive worker_step :: "worker \<Rightarrow> worker \<Rightarrow> bool" where
  run: "worker_step w (fst (runInternal w))"
| shut: "worker_step w (fst (shutdown i w))"
| unexpected: "w_state w \<noteq> INITIALIZED \<Longrightarrow> worker_step w (unexpectedError i e w)"
| timer: "worker_step w (forceTimer w)"
| failed_stream: "w_state w \<noteq> INITIALIZED \<Longrightarrow> worker_step w (stream_error e w)"
| streams_done: "w_state w \<noteq> INITIALIZED \<Longrightarrow> worker_step w (drained w)"

lemmas worker_defs = runInternal_def shutdown_def unexpectedError_def forceTimer_def stream_error_def drained_def
  instantTerminate_def

text \<open>
  State and outcome agree, \<open>STOPPING\<close> and \<open>DRAINED\<close> are left within the step that enters them, \<open>STOPPED\<close> means that no fatal error was noted before, and a fatal error noted before the
  end is the outcome.
\<close>

definition worker_inv :: "worker \<Rightarrow> bool" where
  "worker_inv w \<longleftrightarrow>
     (w_state w = FAILED \<longleftrightarrow> (\<exists>e. w_outcome w = Some (Inl e))) \<and>
     (w_state w = STOPPED \<longleftrightarrow> w_outcome w = Some (Inr ())) \<and>
     (w_outcome w = None \<longleftrightarrow> w_state w \<in> {INITIALIZED, RUNNING, DRAINING}) \<and> w_state w \<notin> {STOPPING, DRAINED} \<and>
     (w_terminateSeen w \<longrightarrow> w_outcome w \<noteq> None) \<and>
     (w_state w \<in> {INITIALIZED, RUNNING} \<longrightarrow> w_fatalError w = None) \<and>
     (w_fatalError w \<noteq> None \<longrightarrow> w_unexpectedSeen w)"

lemma worker_inv_start: "worker_inv new_worker"
  by (simp add: worker_inv_def new_worker_def)

lemma worker_inv_step: "worker_inv w \<Longrightarrow> worker_step w w' \<Longrightarrow> worker_inv w'"
  by (erule worker_step.cases)
     (auto simp: worker_inv_def worker_defs Let_def split: option.splits sum.splits if_splits)

interpretation worker_machine: machine "\<lambda>w. w = new_worker" worker_step worker_inv
  by unfold_locales (auto intro: worker_inv_start worker_inv_step)

text \<open>An outcome is final, and so is the order of the states.\<close>

fun rank :: "wstate \<Rightarrow> nat" where
  "rank INITIALIZED = 0"
| "rank RUNNING = 1"
| "rank STOPPING = 2"
| "rank DRAINING = 3"
| "rank DRAINED = 4"
| "rank STOPPED = 5"
| "rank FAILED = 5"

lemma worker_step_forward:
  assumes "worker_inv w" and "worker_step w w'"
  shows "rank (w_state w) \<le> rank (w_state w') \<and> (w_outcome w \<noteq> None \<longrightarrow> w_outcome w' = w_outcome w \<and> w_state w' = w_state w)"
  using assms(2,1)
  by (cases rule: worker_step.cases; cases "w_state w")
     (auto simp: worker_inv_def worker_defs Let_def split: option.splits sum.splits if_splits)

text \<open>A fatal error, once noted, stays, and with it the outcome.\<close>

lemma fatal_kept:
  assumes "worker_step w w'" and "worker_inv w" and "w_fatalError w = Some f" and "w_outcome w \<in> {None, Some (Inl f)}"
  shows "w_fatalError w' = Some f \<and> w_outcome w' \<in> {None, Some (Inl f)}"
  using assms
  by (cases rule: worker_step.cases)
     (auto simp: worker_inv_def worker_defs Let_def split: option.splits sum.splits if_splits)

lemma fatal_kept_steps:
  assumes "worker_step\<^sup>*\<^sup>* w w'" and "worker_inv w" and "w_fatalError w = Some f" and "w_outcome w \<in> {None, Some (Inl f)}"
  shows "worker_inv w' \<and> w_fatalError w' = Some f \<and> w_outcome w' \<in> {None, Some (Inl f)}"
  using assms
  by (induction rule: rtranclp_induct) (auto dest: fatal_kept worker_inv_step)

section \<open>Properties\<close>





text \<open>
  (Error.) Where the core refuses the shutdown that an unexpected error asks for, \<^verbatim>\<open>run\<close> rejects with the error of
  the refusal and not with the unexpected error: the subscription notes the fatal error only after it has asked
  for the shutdown, which ends the stream at once.
\<close>

theorem refused_shutdown_hides_error:
  assumes "worker_step\<^sup>*\<^sup>* new_worker w" and "w_state w = RUNNING" and "\<not> w_unexpectedSeen w"
  shows "run_promise fin (unexpectedError (Inl refusal) e w) = Some (Inl refusal)"
proof -
  have "worker_inv w" using worker_machine.inv_reachable [OF refl assms(1)] .
  then show ?thesis
    using assms(2,3) by (auto simp: worker_inv_def worker_defs Let_def run_promise_def split: option.splits)
qed

theorem refused_shutdown_hides_error_witness:
  "run_promise (Inr ()) (unexpectedError (Inl (PlainError ''refused'')) (PlainError ''first'') (fst (runInternal new_worker))) =
     Some (Inl (PlainError ''refused''))"
proof (rule refused_shutdown_hides_error)
  show "worker_step\<^sup>*\<^sup>* new_worker (fst (runInternal new_worker))" by (rule r_into_rtranclp) (rule worker_step.run)
qed (simp_all add: worker_defs new_worker_def)

end
