(* ===== verification/WorkerActivations.thy ===== *)
theory WorkerActivations
  imports Errors
begin

text \<open>
  The worker's handling of the activations of one workflow execution, \<^verbatim>\<open>handleWorkflowActivations\<close> and
  \<^verbatim>\<open>handleActivation\<close> of \<^verbatim>\<open>packages/worker/src/worker.ts\<close>, and the way a replay reads the reason of an eviction
  (\<^verbatim>\<open>packages/worker/src/replay.ts\<close>).

  The workflow behind its interface (\<^verbatim>\<open>packages/worker/src/workflow/interface.ts\<close>), the codec runner and the external
  storage are functions of \<open>handler_env\<close> that may throw; \<open>'w\<close> is the type of workflow instances, \<open>'j\<close> that of the contents
  of jobs, \<open>'c\<close> that of the contents of completions. A failure of \<open>encodeErrorToFailure\<close> is an
  error of the whole stream.
\<close>

section \<open>Data\<close>

datatype evict_reason = UNSPECIFIED | CACHE_FULL | CACHE_MISS | NONDETERMINISM | LANG_FAIL | LANG_REQUESTED
  | TASK_NOT_FOUND | UNHANDLED_COMMAND | FATAL | PAGINATION_OR_HISTORY_FETCH

record evict_job =
  ev_message :: string
  ev_reason :: "evict_reason option"

datatype 'j wjob = RemoveFromCache evict_job | InitializeWorkflow "string option" 'j | OtherJob 'j

record 'j wactivation =
  wa_runId :: string
  wa_jobs :: "'j wjob list"

datatype 'c wcompletion = Completed string 'c | FailedTask string proto_failure | Acknowledged string

text \<open>Errors by what the handler tests: \<^verbatim>\<open>WorkflowDisposeError\<close> is a subclass of \<^verbatim>\<open>UnexpectedError\<close>.\<close>

datatype werror = Ordinary js_error | Unexpected js_error | DisposeError js_error

fun is_unexpected :: "werror \<Rightarrow> bool" where
  "is_unexpected (Ordinary e) = False"
| "is_unexpected _ = True"

fun js_error_of :: "werror \<Rightarrow> js_error" where
  "js_error_of (Ordinary e) = e"
| "js_error_of (Unexpected e) = e"
| "js_error_of (DisposeError e) = e"

record ('w, 'j, 'c) handler_env =
  he_decode :: "'j wactivation \<Rightarrow> werror + 'j wactivation"
  he_create :: "'j wactivation \<Rightarrow> werror + 'w"
  he_activate :: "'w \<Rightarrow> 'j wactivation \<Rightarrow> 'w \<times> (werror + 'c)"
  he_encode :: "'w \<Rightarrow> 'c \<Rightarrow> werror + 'c"
  he_sinks :: "'w \<Rightarrow> 'w \<times> (werror + unit)"
  he_dispose :: "'w \<Rightarrow> js_error option"
  he_failure :: "js_error \<Rightarrow> js_error + proto_failure"

text \<open>What a call leaves behind besides its result.\<close>

record 'w handler_effects =
  evictions :: "evict_job list"
  unexpectedErrors :: "js_error list"
  created :: nat
  disposed :: "'w list"

definition no_effects :: "'w handler_effects" where
  "no_effects = \<lparr>evictions = [], unexpectedErrors = [], created = 0, disposed = []\<rparr>"

section \<open>One activation\<close>

fun evict_of :: "'j wjob \<Rightarrow> evict_job option" where
  "evict_of (RemoveFromCache e) = Some e"
| "evict_of _ = None"

fun workflow_id_of :: "'j wjob list \<Rightarrow> string option" where
  "workflow_id_of [] = None"
| "workflow_id_of (InitializeWorkflow i j # js) = i"
| "workflow_id_of (_ # js) = workflow_id_of js"

fun starts_with_init :: "'j wjob list \<Rightarrow> bool" where
  "starts_with_init (InitializeWorkflow i j # js) = True"
| "starts_with_init _ = False"

text \<open>The eviction job, if there is one, is taken out of the list: the first one.\<close>

fun take_eviction :: "'j wjob list \<Rightarrow> evict_job option \<times> 'j wjob list" where
  "take_eviction [] = (None, [])"
| "take_eviction (j # js) = (case evict_of j of
     Some e \<Rightarrow> (Some e, js)
   | None \<Rightarrow> (case take_eviction js of (e, js') \<Rightarrow> (e, j # js')))"

abbreviation no_init :: werror where
  "no_init \<equiv> Ordinary (IllegalStateError ''Received workflow activation for an untracked workflow with no init workflow job'')"

text \<open>
  Getting at the workflow: the activation is decoded and, for an execution that has none, an instance is
  created. An instance comes with its codec runner, so the check for the id of the workflow is made for a new one only.
\<close>

definition obtain_workflow ::
  "('w, 'j, 'c) handler_env \<Rightarrow> 'w option \<Rightarrow> 'j wactivation \<Rightarrow> werror + ('w \<times> 'j wactivation \<times> nat)" where
  "obtain_workflow he inst a =
     (if inst = None \<and> workflow_id_of (wa_jobs a) = None then Inl no_init
      else bind_res (he_decode he a) (\<lambda>d. case inst of
        Some w \<Rightarrow> Inr (w, d, 0)
      | None \<Rightarrow> if \<not> starts_with_init (wa_jobs d) then Inl no_init
                else bind_res (he_create he d) (\<lambda>w. Inr (w, d, 1))))"

text \<open>
  The inner \<^verbatim>\<open>try\<close> with its \<^verbatim>\<open>finally\<close>: the sink calls are collected unless the error is fatal, and an error
  of theirs replaces the result.
\<close>

definition run_activation :: "('w, 'j, 'c) handler_env \<Rightarrow> 'w \<Rightarrow> 'j wactivation \<Rightarrow> 'w \<times> (werror + 'c)" where
  "run_activation he w d =
     (case he_activate he w d of (w1, r) \<Rightarrow>
        let res = bind_res r (he_encode he w1) in
        if (case res of Inl e \<Rightarrow> is_unexpected e | Inr _ \<Rightarrow> False) then (w1, res)
        else case he_sinks he w1 of (w2, rs) \<Rightarrow> (w2, bind_res rs (\<lambda>_. res)))"

type_synonym ('w, 'c) handler_result = "js_error + ('w option \<times> bool \<times> 'c wcompletion option)"

text \<open>The outer \<^verbatim>\<open>catch\<close>.\<close>

definition handler_failure ::
  "('w, 'j, 'c) handler_env \<Rightarrow> 'w option \<Rightarrow> string \<Rightarrow> bool \<Rightarrow> werror \<Rightarrow> 'w handler_effects \<Rightarrow> 'w handler_effects \<times> ('w, 'c) handler_result" where
  "handler_failure he inst runId synthetic e eff =
     (let eff' = (if is_unexpected e then eff\<lparr>unexpectedErrors := unexpectedErrors eff @ [js_error_of e]\<rparr> else eff)
      in case e of
           DisposeError _ \<Rightarrow> (eff', Inr (None, True, if synthetic then None else Some (Acknowledged runId)))
         | _ \<Rightarrow> (eff', bind_res (he_failure he (js_error_of e)) (\<lambda>f. Inr (inst, False, Some (FailedTask runId f)))))"

definition handleActivation ::
  "('w, 'j, 'c) handler_env \<Rightarrow> 'w option \<Rightarrow> 'j wactivation \<Rightarrow> bool \<Rightarrow> 'w handler_effects \<times> ('w, 'c) handler_result" where
  "handleActivation he inst a synthetic =
     (case take_eviction (wa_jobs a) of (evict, jobs) \<Rightarrow>
        let close = (evict \<noteq> None);
            eff = no_effects\<lparr>evictions := (case evict of None \<Rightarrow> [] | Some e \<Rightarrow> [e])\<rparr>;
            a' = a\<lparr>wa_jobs := jobs\<rparr>
        in if jobs = []
           then (case inst of
                   Some w \<Rightarrow>
                     (case he_dispose he w of
                        Some e \<Rightarrow> handler_failure he inst (wa_runId a) synthetic (DisposeError e) (eff\<lparr>disposed := [w]\<rparr>)
                      | None \<Rightarrow>
                          if \<not> close
                          then handler_failure he inst (wa_runId a) synthetic
                                 (Ordinary (IllegalStateError ''Got a Workflow activation with no jobs'')) (eff\<lparr>disposed := [w]\<rparr>)
                          else (eff\<lparr>disposed := [w]\<rparr>, Inr (None, close, if synthetic then None else Some (Acknowledged (wa_runId a)))))
                 | None \<Rightarrow>
                     if \<not> close
                     then handler_failure he inst (wa_runId a) synthetic
                            (Ordinary (IllegalStateError ''Got a Workflow activation with no jobs'')) eff
                     else (eff, Inr (None, close, if synthetic then None else Some (Acknowledged (wa_runId a)))))
           else case obtain_workflow he inst a' of
                  Inl e \<Rightarrow> handler_failure he inst (wa_runId a) synthetic e eff
                | Inr (w, d, n) \<Rightarrow>
                    (case run_activation he w d of
                       (w', Inl e) \<Rightarrow> handler_failure he (Some w') (wa_runId a) synthetic e (eff\<lparr>created := n\<rparr>)
                     | (w', Inr c) \<Rightarrow> (eff\<lparr>created := n\<rparr>, Inr (Some w', close, Some (Completed (wa_runId a) c)))))"

section \<open>The activations of one execution\<close>

text \<open>
  \<^verbatim>\<open>mergeMapWithState\<close> of \<^verbatim>\<open>packages/worker/src/rxutils.ts\<close> handles one input after the other with the state of the
  previous one; the stream ends, inclusively, with the first output that closes, or with an error. The counters
  are those of the worker's status.
\<close>

record ('w, 'c) group_run =
  g_state :: "'w option"
  g_closed :: bool
  g_error :: "js_error option"
  g_completions :: "'c wcompletion list"
  g_inFlight :: int
  g_cached :: int
  g_handled :: nat
  g_disposed :: "'w list"
  g_evictions :: "evict_job list"

definition new_group :: "('w, 'c) group_run" where
  "new_group = \<lparr>g_state = None, g_closed = False, g_error = None, g_completions = [], g_inFlight = 0, g_cached = 0,
     g_handled = 0, g_disposed = [], g_evictions = []\<rparr>"

definition group_step ::
  "('w, 'j, 'c) handler_env \<Rightarrow> ('w, 'c) group_run \<Rightarrow> 'j wactivation \<times> bool \<Rightarrow> ('w, 'c) group_run" where
  "group_step he g i =
     (if g_closed g \<or> g_error g \<noteq> None then g
      else case i of (a, synthetic) \<Rightarrow>
        (case handleActivation he (g_state g) a synthetic of (eff, r) \<Rightarrow>
           let g1 = g\<lparr>g_inFlight := g_inFlight g + 1, g_cached := g_cached g + int (created eff),
                      g_handled := g_handled g + 1, g_disposed := g_disposed g @ disposed eff,
                      g_evictions := g_evictions g @ evictions eff\<rparr>
           in case r of
                Inl e \<Rightarrow> g1\<lparr>g_error := Some e\<rparr>
              | Inr (inst, close, c) \<Rightarrow>
                  g1\<lparr>g_state := inst, g_inFlight := g_inFlight g1 - 1, g_closed := close,
                     g_cached := (if close then g_cached g1 - 1 else g_cached g1),
                     g_completions := g_completions g1 @ (case c of None \<Rightarrow> [] | Some x \<Rightarrow> [x])\<rparr>))"

definition handleWorkflowActivations ::
  "('w, 'j, 'c) handler_env \<Rightarrow> ('j wactivation \<times> bool) list \<Rightarrow> ('w, 'c) group_run" where
  "handleWorkflowActivations he = foldl (group_step he) new_group"

text \<open>The activation a worker that no longer polls feeds in for every cached workflow.\<close>

definition SELF_INDUCED_SHUTDOWN_EVICTION :: evict_job where
  "SELF_INDUCED_SHUTDOWN_EVICTION = \<lparr>ev_message = ''Shutting down'', ev_reason = Some FATAL\<rparr>"

definition synthetic_eviction :: "string \<Rightarrow> 'j wactivation \<times> bool" where
  "synthetic_eviction runId = (\<lparr>wa_runId = runId, wa_jobs = [RemoveFromCache SELF_INDUCED_SHUTDOWN_EVICTION]\<rparr>, True)"

section \<open>Replay\<close>

abbreviation ReplayError :: "string \<Rightarrow> js_error" where
  "ReplayError m \<equiv> OtherError [(24, ''ReplayError''), Error_class] m [] None"

fun reason_name :: "evict_reason \<Rightarrow> string" where
  "reason_name UNSPECIFIED = ''UNSPECIFIED''"
| "reason_name CACHE_FULL = ''CACHE_FULL''"
| "reason_name CACHE_MISS = ''CACHE_MISS''"
| "reason_name NONDETERMINISM = ''NONDETERMINISM''"
| "reason_name LANG_FAIL = ''LANG_FAIL''"
| "reason_name LANG_REQUESTED = ''LANG_REQUESTED''"
| "reason_name TASK_NOT_FOUND = ''TASK_NOT_FOUND''"
| "reason_name UNHANDLED_COMMAND = ''UNHANDLED_COMMAND''"
| "reason_name FATAL = ''FATAL''"
| "reason_name PAGINATION_OR_HISTORY_FETCH = ''PAGINATION_OR_HISTORY_FETCH''"

text \<open>The number of \<open>UNSPECIFIED\<close> is 0, which counts as absent.\<close>

definition evictionReasonToReplayError :: "evict_job \<Rightarrow> js_error option" where
  "evictionReasonToReplayError ev = (case ev_reason ev of
     Some NONDETERMINISM \<Rightarrow> Some (DeterminismViolationError (''Replay failed with a nondeterminism error. This means that the workflow code as written is not compatible with the history that was fed in. Details: '' @ ev_message ev))
   | Some LANG_FAIL \<Rightarrow> Some (ReplayError (''Replay failed due workflow task failure. Details: '' @ ev_message ev))
   | Some LANG_REQUESTED \<Rightarrow> None
   | Some CACHE_FULL \<Rightarrow> None
   | other \<Rightarrow> Some (ReplayError (''Replay failed due to internal SDK issue. Code: '' @
       (if other = None \<or> other = Some UNSPECIFIED then ''absent'' else reason_name (the other)) @ '', Details: '' @ ev_message ev)))"

section \<open>What the handler answers\<close>

fun run_id_of :: "'c wcompletion \<Rightarrow> string" where
  "run_id_of (Completed r c) = r"
| "run_id_of (FailedTask r f) = r"
| "run_id_of (Acknowledged r) = r"

lemma handler_failure_answers:
  assumes "\<And>e. \<not> isl (he_failure he e)"
  shows "\<exists>eff' inst' close c. handler_failure he inst r False e eff = (eff', Inr (inst', close, Some c)) \<and> run_id_of c = r"
proof -
  obtain f where "he_failure he (js_error_of e) = Inr f" using assms by (metis sum.collapse(2))
  then show ?thesis by (cases e) (auto simp: handler_failure_def Let_def)
qed

text \<open>A real activation is answered with one completion for its run; a synthetic eviction with none.\<close>

lemma handleActivation_answers:
  assumes "\<And>e. \<not> isl (he_failure he e)"
  shows "\<exists>eff inst' close c. handleActivation he inst a False = (eff, Inr (inst', close, Some c)) \<and> run_id_of c = wa_runId a"
proof -
  note answers = handler_failure_answers [of he inst "wa_runId a", OF assms]
  obtain evict jobs where t: "take_eviction (wa_jobs a) = (evict, jobs)" by force
  show ?thesis
  proof (cases "jobs = []")
    case True
    then show ?thesis
      using t answers by (cases inst) (auto simp: handleActivation_def Let_def split: option.splits)
  next
    case False
    show ?thesis
    proof (cases "obtain_workflow he inst (a\<lparr>wa_jobs := jobs\<rparr>)")
      case (Inl e)
      then show ?thesis using t False answers by (simp add: handleActivation_def Let_def)
    next
      case (Inr p)
      obtain w d n where p: "p = (w, d, n)" by (cases p)
      obtain w' r where r: "run_activation he w d = (w', r)" by force
      then show ?thesis
        using t False Inr p handler_failure_answers [of he "Some w'" "wa_runId a", OF assms]
        by (cases r) (simp_all add: handleActivation_def Let_def)
    qed
  qed
qed

lemma synthetic_closes:
  "\<exists>eff. handleActivation he inst (fst (synthetic_eviction r)) True = (eff, Inr (None, True, None)) \<and>
     disposed eff = (case inst of None \<Rightarrow> [] | Some w \<Rightarrow> [w]) \<and> created eff = 0"
  by (cases inst) (auto simp: handleActivation_def synthetic_eviction_def handler_failure_def no_effects_def Let_def split: option.splits)

definition real_or_eviction :: "'j wactivation \<times> bool \<Rightarrow> bool" where
  "real_or_eviction i \<longleftrightarrow> (snd i \<longrightarrow> fst i = fst (synthetic_eviction (wa_runId (fst i))))"

text \<open>The completions of a run answer, in order, the real activations that were handled.\<close>

definition answered :: "('j wactivation \<times> bool) list \<Rightarrow> ('w, 'c) group_run \<Rightarrow> bool" where
  "answered is g \<longleftrightarrow> g_error g = None \<and> g_inFlight g = 0 \<and> g_handled g \<le> length is \<and>
     (\<not> g_closed g \<longrightarrow> g_handled g = length is) \<and>
     map run_id_of (g_completions g) = map (\<lambda>i. wa_runId (fst i)) (filter (\<lambda>i. \<not> snd i) (take (g_handled g) is))"

lemma answered_step:
  assumes "\<And>e. \<not> isl (he_failure he e)" and "answered is g" and "real_or_eviction i"
  shows "answered (is @ [i]) (group_step he g i)"
proof (cases "g_closed g")
  case True
  then show ?thesis using assms(2) by (auto simp: group_step_def answered_def)
next
  case False
  obtain a syn where i: "i = (a, syn)" by force
  show ?thesis
  proof (cases syn)
    case True
    obtain eff where "handleActivation he (g_state g) a True = (eff, Inr (None, True, None))"
      using synthetic_closes [of he "g_state g" "wa_runId a"] assms(3) True by (auto simp: real_or_eviction_def i)
    then show ?thesis
      using False assms(2) True by (simp add: i group_step_def answered_def Let_def)
  next
    case real: False
    obtain eff inst' close c where "handleActivation he (g_state g) a False = (eff, Inr (inst', close, Some c))" "run_id_of c = wa_runId a"
      using handleActivation_answers [of he "g_state g" a, OF assms(1)] by blast
    then show ?thesis
      using False assms(2) real by (simp add: i group_step_def answered_def Let_def)
  qed
qed

lemma answered_run:
  assumes "\<And>e. \<not> isl (he_failure he e)" and "list_all real_or_eviction is"
  shows "answered is (handleWorkflowActivations he is)"
  using assms(2)
proof (induction "is" rule: rev_induct)
  case Nil
  then show ?case by (simp add: handleWorkflowActivations_def new_group_def answered_def)
next
  case (snoc i "is")
  then show ?case
    using answered_step [OF assms(1)] by (simp add: handleWorkflowActivations_def)
qed

section \<open>Instances\<close>

text \<open>What the core sends: activations have jobs, and an eviction comes alone.\<close>

definition core_activation :: "'j wactivation \<times> bool \<Rightarrow> bool" where
  "core_activation i \<longleftrightarrow> wa_jobs (fst i) \<noteq> [] \<and>
     ((\<exists>e. wa_jobs (fst i) = [RemoveFromCache e]) \<or> (\<forall>j \<in> set (wa_jobs (fst i)). evict_of j = None)) \<and> real_or_eviction i"

definition instances :: "('w, 'c) group_run \<Rightarrow> bool" where
  "instances g \<longleftrightarrow> (if g_closed g then g_state g = None \<and> length (g_disposed g) \<le> 1 \<and> g_cached g = int (length (g_disposed g)) - 1
     else g_disposed g = [] \<and> g_cached g = (if g_state g = None then 0 else 1))"

lemma take_eviction_none: "\<forall>j \<in> set js. evict_of j = None \<Longrightarrow> take_eviction js = (None, js)"
  by (induction js) auto

lemma eviction_alone:
  assumes "wa_jobs a = [RemoveFromCache e]" and "handleActivation he inst a syn = (eff, r)"
  shows "created eff = 0 \<and> disposed eff = (case inst of None \<Rightarrow> [] | Some w \<Rightarrow> [w]) \<and> (\<exists>c. r = Inr (None, True, c))"
  using assms
  by (cases inst) (auto simp: handleActivation_def handler_failure_def no_effects_def Let_def split: option.splits)

lemma handler_failure_frame:
  assumes "handler_failure he inst r syn e eff = (eff', Inr (inst', close, c))"
  shows "created eff' = created eff \<and> disposed eff' = disposed eff \<and> (close \<and> inst' = None \<and> (\<exists>x. e = DisposeError x) \<or> \<not> close \<and> inst' = inst)"
  using assms by (cases e) (auto simp: handler_failure_def Let_def bind_res_Inr_iff split: if_splits)

text \<open>No function of the environment makes up a dispose error.\<close>

definition no_dispose_errors :: "('w, 'j, 'c) handler_env \<Rightarrow> bool" where
  "no_dispose_errors he \<longleftrightarrow> (\<forall>e. (\<forall>a. he_decode he a \<noteq> Inl (DisposeError e)) \<and> (\<forall>a. he_create he a \<noteq> Inl (DisposeError e)) \<and>
     (\<forall>w a. snd (he_activate he w a) \<noteq> Inl (DisposeError e)) \<and> (\<forall>w c. he_encode he w c \<noteq> Inl (DisposeError e)) \<and>
     (\<forall>w. snd (he_sinks he w) \<noteq> Inl (DisposeError e)))"

lemma run_activation_error: "no_dispose_errors he \<Longrightarrow> run_activation he w d \<noteq> (w', Inl (DisposeError e))"
proof
  assume n: "no_dispose_errors he" and r: "run_activation he w d = (w', Inl (DisposeError e))"
  obtain w1 r1 where a: "he_activate he w d = (w1, r1)" by force
  have r1: "r1 \<noteq> Inl (DisposeError x)" "he_encode he w1 c \<noteq> Inl (DisposeError x)" for x c
    using n a by (auto simp: no_dispose_errors_def dest: spec [of _ x] spec [of _ w] spec [of _ d]) (metis snd_conv)
  then have res: "bind_res r1 (he_encode he w1) \<noteq> Inl (DisposeError x)" for x by (cases r1) auto
  obtain w2 r2 where s: "he_sinks he w1 = (w2, r2)" by force
  have "r2 \<noteq> Inl (DisposeError x)" for x using n s by (metis no_dispose_errors_def snd_conv)
  then show False
    using r res by (cases r2) (auto simp: run_activation_def a s Let_def split: if_splits)
qed

lemma obtain_workflow_error: "no_dispose_errors he \<Longrightarrow> obtain_workflow he inst a \<noteq> Inl (DisposeError e)"
  by (auto simp: obtain_workflow_def no_dispose_errors_def bind_res_def split: sum.splits option.splits if_splits)

lemma obtain_workflow_created: "obtain_workflow he inst a = Inr (w, d, n) \<Longrightarrow> n = (if inst = None then 1 else 0)"
  by (auto simp: obtain_workflow_def bind_res_Inr_iff split: option.splits if_splits)

lemma other_activation:
  assumes "\<forall>j \<in> set (wa_jobs a). evict_of j = None" and "wa_jobs a \<noteq> []" and "no_dispose_errors he"
    and "handleActivation he inst a syn = (eff, Inr (inst', close, c))"
  shows "\<not> close \<and> disposed eff = [] \<and> (inst' = None \<longleftrightarrow> inst = None \<and> created eff = 0) \<and> created eff \<le> 1 \<and> (inst \<noteq> None \<longrightarrow> created eff = 0)"
proof -
  note t = take_eviction_none [OF assms(1)]
  show ?thesis
  proof (cases "obtain_workflow he inst (a\<lparr>wa_jobs := wa_jobs a\<rparr>)")
    case (Inl e)
    then have "\<nexists>x. e = DisposeError x" using obtain_workflow_error [OF assms(3)] by metis
    then show ?thesis
      using assms(2,4) Inl t by (auto simp: handleActivation_def Let_def no_effects_def dest!: handler_failure_frame)
  next
    case (Inr p)
    obtain w d n where p: "p = (w, d, n)" by (cases p)
    note n = obtain_workflow_created [OF Inr [unfolded p]]
    obtain w' r where r: "run_activation he w d = (w', r)" by force
    show ?thesis
    proof (cases r)
      case (Inl e)
      then have "\<nexists>x. e = DisposeError x" using run_activation_error [OF assms(3)] r by metis
      then show ?thesis
        using assms(2,4) Inl Inr p r t n
        by (auto simp: handleActivation_def Let_def no_effects_def dest!: handler_failure_frame split: if_splits)
    next
      case res: (Inr x)
      then show ?thesis
        using assms(2,4) Inr p r t n by (auto simp: handleActivation_def Let_def no_effects_def split: if_splits)
    qed
  qed
qed

lemma instances_step:
  assumes "no_dispose_errors he" and "core_activation i" and "instances g" and "g_error (group_step he g i) = None"
  shows "instances (group_step he g i)"
proof (cases "g_closed g \<or> g_error g \<noteq> None")
  case True
  then show ?thesis using assms(3) by (simp add: group_step_def)
next
  case False
  obtain a syn where i: "i = (a, syn)" by force
  obtain eff r where h: "handleActivation he (g_state g) a syn = (eff, r)" by force
  obtain inst' close c where r: "r = Inr (inst', close, c)"
    using assms(4) False h by (cases r) (auto simp: group_step_def i Let_def)
  have st: "g_closed (group_step he g i) = close" "g_state (group_step he g i) = inst'"
    "g_disposed (group_step he g i) = disposed eff"
    "g_cached (group_step he g i) = g_cached g + int (created eff) - (if close then 1 else 0)"
    using False h r assms(3) by (simp_all add: group_step_def i Let_def instances_def)
  show ?thesis
  proof (cases "\<exists>e. wa_jobs a = [RemoveFromCache e]")
    case True
    then obtain e where "wa_jobs a = [RemoveFromCache e]" by blast
    from eviction_alone [OF this h] r False assms(3) show ?thesis
      unfolding instances_def [of "group_step he g i"] st by (auto simp: instances_def split: option.splits)
  next
    case alive: False
    then have "\<forall>j \<in> set (wa_jobs a). evict_of j = None" "wa_jobs a \<noteq> []" using assms(2) by (auto simp: core_activation_def i)
    from other_activation [OF this assms(1) h [unfolded r]] False assms(3) show ?thesis
      unfolding instances_def [of "group_step he g i"] st by (auto simp: instances_def split: if_splits)
  qed
qed

lemma instances_run:
  assumes "no_dispose_errors he" and "\<And>e. \<not> isl (he_failure he e)" and "list_all core_activation is"
  shows "instances (handleWorkflowActivations he is)"
  using assms(3)
proof (induction "is" rule: rev_induct)
  case Nil
  then show ?case by (simp add: handleWorkflowActivations_def new_group_def instances_def)
next
  case (snoc i "is")
  have "answered (is @ [i]) (handleWorkflowActivations he (is @ [i]))"
    using answered_run [OF assms(2)] snoc.prems by (auto simp: core_activation_def list_all_iff)
  then have "g_error (group_step he (handleWorkflowActivations he is) i) = None"
    by (simp add: answered_def handleWorkflowActivations_def)
  then show ?case
    using instances_step [OF assms(1)] snoc by (simp add: handleWorkflowActivations_def)
qed

section \<open>Properties\<close>


text \<open>An environment in which the second activation throws.\<close>

definition example_handler :: "(nat, nat, nat) handler_env" where
  "example_handler = \<lparr>he_decode = Inr, he_create = (\<lambda>a. Inr 0),
     he_activate = (\<lambda>w a. (Suc w, if w = 1 then Inl (Ordinary (PlainError ''boom'')) else Inr w)),
     he_encode = (\<lambda>w c. Inr c), he_sinks = (\<lambda>w. (w, Inr ())), he_dispose = (\<lambda>w. None),
     he_failure = (\<lambda>e. Inr (Failure None None None None None NoInfo))\<rparr>"

definition example_activations :: "(nat wactivation \<times> bool) list" where
  "example_activations = [(\<lparr>wa_runId = ''r1'', wa_jobs = [InitializeWorkflow (Some ''w'') 0]\<rparr>, False),
     (\<lparr>wa_runId = ''r1'', wa_jobs = [OtherJob 1]\<rparr>, False),
     (\<lparr>wa_runId = ''r1'', wa_jobs = [RemoveFromCache \<lparr>ev_message = ''full'', ev_reason = Some CACHE_FULL\<rparr>]\<rparr>, False)]"


text \<open>
  C20: (Invariant.) With activations as the core sends them, an execution has at most one instance at a time, which is
  disposed of exactly once, by the eviction that ends the stream, and the count of cached workflows is one
  while there is an instance. After the eviction the count is back at zero if there was an instance; if there
  was none, because it could not be created, the count is one too low.
\<close>

theorem instances_disposed_once:
  assumes "no_dispose_errors he" and "\<And>e. \<not> isl (he_failure he e)" and "list_all core_activation is"
  defines "g \<equiv> handleWorkflowActivations he is"
  shows "(\<not> g_closed g \<longrightarrow> g_disposed g = [] \<and> g_cached g = (if g_state g = None then 0 else 1)) \<and>
    (g_closed g \<longrightarrow> g_state g = None \<and> (length (g_disposed g) = 1 \<and> g_cached g = 0 \<or> g_disposed g = [] \<and> g_cached g = - 1))"
  using instances_run [OF assms(1-3)] by (auto simp: g_def instances_def le_Suc_eq)

theorem instances_disposed_once_witness:
  "g_disposed (handleWorkflowActivations example_handler example_activations) = [2] \<and>
   g_cached (handleWorkflowActivations example_handler example_activations) = 0"
proof -
  have "no_dispose_errors example_handler" by (simp add: no_dispose_errors_def example_handler_def)
  moreover have "\<not> isl (he_failure example_handler e)" for e by (simp add: example_handler_def)
  moreover have "list_all core_activation example_activations"
    by (simp add: example_activations_def core_activation_def real_or_eviction_def)
  moreover have "g_disposed (handleWorkflowActivations example_handler example_activations) = [2]"
    "g_closed (handleWorkflowActivations example_handler example_activations)" by code_simp+
  ultimately show ?thesis using instances_disposed_once [of example_handler example_activations] by simp
qed

text \<open>
  (Error.) A workflow whose instance cannot be created, evicted by the core afterwards: the count of cached workflows,
  part of the status of the worker, is decremented although it was never incremented.
\<close>

theorem failed_creation_drifts:
  assumes "\<And>e. \<not> isl (he_failure he e)" and "he_decode he a = Inr a" and "he_create he a = Inl (Ordinary x)"
    and "wa_jobs a = [InitializeWorkflow (Some i) j]"
  shows "g_cached (handleWorkflowActivations he [(a, False), (\<lparr>wa_runId = r, wa_jobs = [RemoveFromCache ev]\<rparr>, False)]) = - 1"
proof -
  obtain f where "he_failure he x = Inr f" using assms(1) [of x] by (cases "he_failure he x") auto
  moreover obtain rid where "a = \<lparr>wa_runId = rid, wa_jobs = [InitializeWorkflow (Some i) j]\<rparr>"
    using assms(4) by (cases a) auto
  ultimately show ?thesis using assms(2,3)
    by (simp add: handleWorkflowActivations_def group_step_def new_group_def handleActivation_def obtain_workflow_def
        handler_failure_def no_effects_def Let_def)
qed

theorem failed_creation_drifts_witness:
  "g_cached (handleWorkflowActivations (example_handler\<lparr>he_create := (\<lambda>a. Inl (Ordinary (PlainError ''no such workflow'')))\<rparr>)
     [(\<lparr>wa_runId = ''r1'', wa_jobs = [InitializeWorkflow (Some ''w'') 0]\<rparr>, False),
      (\<lparr>wa_runId = ''r1'', wa_jobs = [RemoveFromCache \<lparr>ev_message = ''x'', ev_reason = Some LANG_FAIL\<rparr>]\<rparr>, False)]) = - 1"
  by (rule failed_creation_drifts) (simp_all add: example_handler_def)

end
