(* ===== verification/Heartbeats.thy ===== *)
theory Heartbeats
  imports JsRuntime "HOL-Library.Sublist"
begin

text \<open>
  The heartbeats of an activity on their way to the server, \<^verbatim>\<open>activityHeartbeat$\<close> of \<^verbatim>\<open>packages/worker/src/worker.ts\<close>:
  heartbeats are sent one at a time, only the latest one is kept while another is being sent, and an
  activity that failed waits for its last heartbeat.

  One group of the stream belongs to one task token. \<open>heartbeat_step\<close> is the function the stream folds
  over its inputs; \<open>channel\<close> adds what surrounds it: the group that ends when it puts out a close request,
  the asynchronous send that reports back with a \<open>flush\<close> input, the callbacks called so far, and the
  counter of heartbeating activities, which all groups share. Inputs for a token whose group has
  gone open a new one, in the state the code starts with.
\<close>

section \<open>The function of the stream\<close>

record heartbeat_state =
  closed :: bool
  processing :: bool
  completionCallback :: "nat option"
  pending :: "jsval option"

datatype heartbeat_input = Create | Heartbeat jsval | Flush | Completion bool nat

datatype heartbeat_output = Send jsval | Close "nat option"

definition process :: "heartbeat_state \<Rightarrow> jsval \<Rightarrow> heartbeat_state \<times> heartbeat_output option" where
  "process s h = (s\<lparr>processing := True, pending := None\<rparr>, Some (Send h))"

definition storePending :: "heartbeat_state \<Rightarrow> jsval \<Rightarrow> heartbeat_state \<times> heartbeat_output option" where
  "storePending s h = (s\<lparr>pending := Some h\<rparr>, None)"

definition complete :: "nat \<Rightarrow> heartbeat_state \<times> heartbeat_output option" where
  "complete cb = (\<lparr>closed = True, processing = False, completionCallback = None, pending = None\<rparr>, Some (Close (Some cb)))"

fun heartbeat_step :: "heartbeat_state \<Rightarrow> heartbeat_input \<Rightarrow> heartbeat_state \<times> heartbeat_output option" where
  "heartbeat_step s Create = (\<lparr>closed = False, processing = False, completionCallback = None, pending = None\<rparr>, None)"
| "heartbeat_step s (Heartbeat h) =
     (if closed s then (s, Some (Close None))
      else if processing s then storePending s h else process s h)"
| "heartbeat_step s Flush =
     (if closed s then (s, Some (Close None))
      else case pending s of
             Some h \<Rightarrow> process s h
           | None \<Rightarrow> (case completionCallback s of
               Some cb \<Rightarrow> complete cb
             | None \<Rightarrow> (s\<lparr>processing := False\<rparr>, None)))"
| "heartbeat_step s (Completion flushRequired cb) =
     (if closed s then (s, Some (Close None))
      else if processing s
      then (s\<lparr>pending := (if flushRequired then pending s else None), completionCallback := Some cb\<rparr>, None)
      else if \<not> flushRequired then complete cb
      else case pending s of
             Some h \<Rightarrow> process (s\<lparr>completionCallback := Some cb\<rparr>) h
           | None \<Rightarrow> complete cb)"

definition initial_state :: heartbeat_state where
  "initial_state = \<lparr>closed = True, processing = False, completionCallback = None, pending = None\<rparr>"

section \<open>The channel of one activity\<close>

text \<open>
  A group that puts out a close request while its last send is still settling is \<open>Finishing\<close>: it takes
  no input any more and goes when the send has settled.
\<close>

datatype group = Absent | Live heartbeat_state | Finishing

record channel =
  grp :: group
  sending :: "jsval option"
  attempted :: "jsval list"
  callbacks :: "nat list"
  numHeartbeatingActivities :: int

definition emit :: "bool \<Rightarrow> heartbeat_state \<times> heartbeat_output option \<Rightarrow> channel \<Rightarrow> channel" where
  "emit settling r w = (case r of (s, out) \<Rightarrow> (case out of
     None \<Rightarrow> w\<lparr>grp := Live s\<rparr>
   | Some (Send h) \<Rightarrow> w\<lparr>grp := Live s, sending := Some h\<rparr>
   | Some (Close cb) \<Rightarrow>
       w\<lparr>grp := (if settling then Finishing else Absent),
         numHeartbeatingActivities := numHeartbeatingActivities w - 1,
         callbacks := callbacks w @ (case cb of None \<Rightarrow> [] | Some c \<Rightarrow> [c])\<rparr>))"

definition feed :: "bool \<Rightarrow> heartbeat_input \<Rightarrow> channel \<Rightarrow> channel" where
  "feed settling i w =
     (let w' = (if i = Create \<and> grp w \<noteq> Finishing then w\<lparr>numHeartbeatingActivities := numHeartbeatingActivities w + 1\<rparr> else w)
      in case grp w of
           Absent \<Rightarrow> emit settling (heartbeat_step initial_state i) w'
         | Live s \<Rightarrow> emit settling (heartbeat_step s i) w'
         | Finishing \<Rightarrow> w)"

text \<open>
  The steps: an input from the activity or the worker; the send under way ends, by passing the heartbeat to
  the core or because its details cannot be encoded, and reports back; a finished group goes.
\<close>

datatype channel_event = Input heartbeat_input | SendDone | GroupClosed

fun channel_step :: "channel_event \<Rightarrow> channel \<Rightarrow> channel option" where
  "channel_step (Input i) w = (if i = Flush then None else Some (feed False i w))"
| "channel_step SendDone w = (case sending w of
     None \<Rightarrow> None
   | Some h \<Rightarrow> Some (feed True Flush (w\<lparr>sending := None, attempted := attempted w @ [h]\<rparr>)))"
| "channel_step GroupClosed w = (if grp w = Finishing then Some (w\<lparr>grp := Absent\<rparr>) else None)"

fun channel_run :: "channel_event list \<Rightarrow> channel \<Rightarrow> channel option" where
  "channel_run [] w = Some w"
| "channel_run (e # es) w = (case channel_step e w of None \<Rightarrow> None | Some w' \<Rightarrow> channel_run es w')"

definition new_channel :: channel where
  "new_channel = \<lparr>grp = Absent, sending = None, attempted = [], callbacks = [], numHeartbeatingActivities = 0\<rparr>"

section \<open>What the channel keeps\<close>

text \<open>The heartbeats a sequence of events brings in, and those on their way.\<close>

fun beats :: "channel_event list \<Rightarrow> jsval list" where
  "beats [] = []"
| "beats (Input (Heartbeat h) # es) = h # beats es"
| "beats (_ # es) = beats es"

definition on_the_way :: "channel \<Rightarrow> jsval list" where
  "on_the_way w = (case sending w of None \<Rightarrow> [] | Some h \<Rightarrow> [h]) @
     (case grp w of Live s \<Rightarrow> (case pending s of None \<Rightarrow> [] | Some h \<Rightarrow> [h]) | _ \<Rightarrow> [])"

text \<open>
  A running activity: its group is open, a send is under way exactly while the group is processing, and only
  then a heartbeat waits. What was tried and what is on the way is a subsequence of the heartbeats, with the
  same last element: only overtaken heartbeats are dropped.
\<close>

definition running :: "jsval list \<Rightarrow> channel \<Rightarrow> bool" where
  "running hs w \<longleftrightarrow> (\<exists>s. grp w = Live s \<and> \<not> closed s \<and> completionCallback s = None \<and>
       (processing s \<longleftrightarrow> sending w \<noteq> None) \<and> (pending s \<noteq> None \<longrightarrow> processing s)) \<and>
     subseq (attempted w @ on_the_way w) hs \<and> (hs \<noteq> [] \<longrightarrow> attempted w @ on_the_way w \<noteq> [] \<and> last (attempted w @ on_the_way w) = last hs)"

fun activity_event :: "channel_event \<Rightarrow> bool" where
  "activity_event (Input (Heartbeat h)) = True"
| "activity_event SendDone = True"
| "activity_event _ = False"

lemma subseq_snoc: "subseq xs ys \<Longrightarrow> subseq (xs @ [y]) (ys @ [y])"
  by (simp add: subseq_append_iff) blast

lemma subseq_replace: "subseq (xs @ [x]) ys \<Longrightarrow> subseq (xs @ [y]) (ys @ [y])"
  by (meson list_emb_append_mono subseq_order.order_refl subseq_order.trans subseq_snoc list_emb_append2 prefixI prefix_imp_subseq)

lemma running_beat:
  assumes "running hs w"
  shows "running (hs @ [h]) (feed False (Heartbeat h) w) \<and>
    callbacks (feed False (Heartbeat h) w) = callbacks w \<and>
    numHeartbeatingActivities (feed False (Heartbeat h) w) = numHeartbeatingActivities w"
proof -
  obtain s where s: "grp w = Live s" "\<not> closed s" "completionCallback s = None" "processing s \<longleftrightarrow> sending w \<noteq> None"
    "pending s \<noteq> None \<longrightarrow> processing s" using assms by (auto simp: running_def)
  show ?thesis
  proof (cases "processing s")
    case True
    then obtain h0 where h0: "sending w = Some h0" using s(4) by auto
    have "subseq (attempted w @ [h0, h]) (hs @ [h])"
      using assms s h0 subseq_snoc [of "attempted w @ [h0]" hs h] subseq_replace [of "attempted w @ [h0]" _ hs h]
      by (cases "pending s") (auto simp: running_def on_the_way_def)
    then show ?thesis using s True h0
      by (auto simp: running_def feed_def emit_def storePending_def on_the_way_def)
  next
    case False
    then have "subseq (attempted w @ [h]) (hs @ [h])"
      using assms s subseq_snoc [of "attempted w" hs h] by (auto simp: running_def on_the_way_def)
    then show ?thesis using s False
      by (auto simp: running_def feed_def emit_def process_def on_the_way_def)
  qed
qed

lemma running_done:
  assumes "running hs w" and "channel_step SendDone w = Some w'"
  shows "running hs w' \<and> callbacks w' = callbacks w \<and> numHeartbeatingActivities w' = numHeartbeatingActivities w"
proof -
  obtain s where s: "grp w = Live s" "\<not> closed s" "completionCallback s = None" "processing s \<longleftrightarrow> sending w \<noteq> None"
    "pending s \<noteq> None \<longrightarrow> processing s" using assms by (auto simp: running_def)
  obtain h where h: "sending w = Some h" using assms(2) by (auto split: option.splits)
  show ?thesis
    using assms s h
    by (cases "pending s") (auto simp: running_def feed_def emit_def process_def on_the_way_def Let_def)
qed

lemma running_run:
  assumes "list_all activity_event es" and "running hs w" and "channel_run es w = Some w'"
  shows "running (hs @ beats es) w' \<and> callbacks w' = callbacks w \<and> numHeartbeatingActivities w' = numHeartbeatingActivities w"
  using assms
proof (induction es arbitrary: hs w)
  case (Cons e es)
  obtain w1 where w1: "channel_step e w = Some w1" "channel_run es w1 = Some w'"
    using Cons.prems(3) by (auto split: option.splits)
  show ?case
  proof (cases "\<exists>h. e = Input (Heartbeat h)")
    case True
    then obtain h where e: "e = Input (Heartbeat h)" by blast
    have "w1 = feed False (Heartbeat h) w" using w1(1) by (simp add: e)
    then show ?thesis
      using running_beat [OF Cons.prems(2), of h] Cons.IH [of "hs @ [h]" w1] Cons.prems(1) w1(2) by (simp add: e)
  next
    case False
    then have e: "e = SendDone" using Cons.prems(1) by (cases e rule: activity_event.cases) auto
    then show ?thesis
      using running_done [OF Cons.prems(2)] Cons.IH [of hs w1] Cons.prems(1) w1 by simp
  qed
qed simp

text \<open>After a completion that asks for a flush, the sends on the way are enough, and fewer are not.\<close>

lemma flush_completion:
  assumes "running hs w"
  shows "\<exists>w'. channel_run (Input (Completion True cb) # replicate (length (on_the_way w)) SendDone) w = Some w' \<and>
      callbacks w' = callbacks w @ [cb] \<and> attempted w' = attempted w @ on_the_way w \<and>
      numHeartbeatingActivities w' = numHeartbeatingActivities w - 1 \<and> grp w' \<in> {Absent, Finishing} \<and> sending w' = None"
    and "k < length (on_the_way w) \<Longrightarrow>
      \<exists>w'. channel_run (Input (Completion True cb) # replicate k SendDone) w = Some w' \<and> callbacks w' = callbacks w"
proof -
  obtain s where s: "grp w = Live s" "\<not> closed s" "completionCallback s = None" "processing s \<longleftrightarrow> sending w \<noteq> None"
    "pending s \<noteq> None \<longrightarrow> processing s" using assms by (auto simp: running_def)
  note defs = on_the_way_def feed_def emit_def process_def complete_def Let_def numeral_2_eq_2
  show "\<exists>w'. channel_run (Input (Completion True cb) # replicate (length (on_the_way w)) SendDone) w = Some w' \<and>
      callbacks w' = callbacks w @ [cb] \<and> attempted w' = attempted w @ on_the_way w \<and>
      numHeartbeatingActivities w' = numHeartbeatingActivities w - 1 \<and> grp w' \<in> {Absent, Finishing} \<and> sending w' = None"
    using s by (cases "sending w"; cases "pending s") (auto simp: defs)
  show "\<exists>w'. channel_run (Input (Completion True cb) # replicate k SendDone) w = Some w' \<and> callbacks w' = callbacks w"
    if "k < length (on_the_way w)"
  proof -
    have "k = 0 \<or> k = 1 \<and> sending w \<noteq> None \<and> pending s \<noteq> None"
      using that s by (cases "sending w"; cases "pending s") (auto simp: on_the_way_def)
    then show ?thesis
      using that s by (elim disjE; cases "sending w"; cases "pending s") (auto simp: defs)
  qed
qed

section \<open>Properties\<close>

text \<open>
  C17: (Liveness.) An activity that sends heartbeats in any interleaving with the sends of the worker and then fails: its
  completion is held back until exactly the heartbeats on their way (at most the one being sent and the latest
  one) have been tried, then its callback is called once. The heartbeats that were tried are a subsequence
  of those the activity made, and the last one of them is among them, so the details of the last heartbeat
  reach the server before the failure does.
\<close>

theorem heartbeats_flushed:
  assumes "list_all activity_event es" and "channel_run (Input Create # es) new_channel = Some w"
  shows "length (on_the_way w) \<le> 2 \<and> callbacks w = [] \<and>
    (\<forall>k < length (on_the_way w). \<exists>w'. channel_run (Input (Completion True cb) # replicate k SendDone) w = Some w' \<and> callbacks w' = []) \<and>
    (\<exists>w'. channel_run (Input (Completion True cb) # replicate (length (on_the_way w)) SendDone) w = Some w' \<and>
       callbacks w' = [cb] \<and> subseq (attempted w') (beats es) \<and>
       (beats es \<noteq> [] \<longrightarrow> attempted w' \<noteq> [] \<and> last (attempted w') = last (beats es)) \<and>
       numHeartbeatingActivities w' = 0 \<and> grp w' \<in> {Absent, Finishing} \<and> sending w' = None)"
proof -
  define w0 where "w0 = feed False Create new_channel"
  have run: "channel_run es w0 = Some w" using assms(2) by (simp add: w0_def)
  have "running [] w0" "callbacks w0 = []" "numHeartbeatingActivities w0 = 1"
    by (simp_all add: w0_def running_def new_channel_def feed_def emit_def on_the_way_def)
  with running_run [OF assms(1) _ run] have r: "running (beats es) w" "callbacks w = []" "numHeartbeatingActivities w = 1"
    by fastforce+
  have "length (on_the_way w) \<le> 2" by (auto simp: on_the_way_def split: option.splits group.splits)
  moreover have "subseq (attempted w @ on_the_way w) (beats es)"
    "beats es \<noteq> [] \<longrightarrow> attempted w @ on_the_way w \<noteq> [] \<and> last (attempted w @ on_the_way w) = last (beats es)"
    using r(1) by (simp_all add: running_def)
  ultimately show ?thesis
    using flush_completion(1) [OF r(1), of cb] flush_completion(2) [OF r(1), of _ cb] r
    by (auto simp del: channel_run.simps)
qed

theorem heartbeats_flushed_witness:
  "\<exists>w'. channel_run (Input (Completion True 7) # replicate 2 SendDone)
      \<lparr>grp = Live \<lparr>closed = False, processing = True, completionCallback = None, pending = Some (JNum 3)\<rparr>,
       sending = Some (JNum 1), attempted = [], callbacks = [], numHeartbeatingActivities = 1\<rparr> = Some w' \<and>
     callbacks w' = [7] \<and> last (attempted w') = JNum 3"
proof -
  let ?es = "[Input (Heartbeat (JNum 1)), Input (Heartbeat (JNum 2)), Input (Heartbeat (JNum 3))]"
  let ?w = "\<lparr>grp = Live \<lparr>closed = False, processing = True, completionCallback = None, pending = Some (JNum 3)\<rparr>,
       sending = Some (JNum 1), attempted = [], callbacks = [], numHeartbeatingActivities = 1\<rparr>"
  have "channel_run (Input Create # ?es) new_channel = Some ?w"
    by (simp add: new_channel_def feed_def emit_def process_def storePending_def)
  moreover have "list_all activity_event ?es" by simp
  moreover have "length (on_the_way ?w) = 2" by (simp add: on_the_way_def)
  ultimately show ?thesis using heartbeats_flushed [of ?es ?w 7] by (auto simp del: channel_run.simps)
qed

text \<open>
  (Error.) The counter of heartbeating activities is decremented by every input for a closed stream, too: each
  heartbeat of an activity that has already completed opens a stream that closes at once, and takes one from
  the counter without having added to it. The counter, part of the status of the worker, goes below zero.
\<close>

theorem rogue_heartbeats_drift:
  "\<exists>w. channel_run ([Input Create, Input (Completion False cb)] @ replicate n (Input (Heartbeat h))) new_channel = Some w \<and>
     numHeartbeatingActivities w = - int n \<and> attempted w = [] \<and> sending w = None"
proof -
  have rogue: "channel_run (replicate n (Input (Heartbeat h))) w =
      Some (w\<lparr>numHeartbeatingActivities := numHeartbeatingActivities w - int n\<rparr>)" if "grp w = Absent" for w
    using that by (induction n arbitrary: w) (simp_all add: feed_def emit_def initial_state_def)
  show ?thesis
    by (simp add: new_channel_def feed_def emit_def complete_def rogue)
qed

end
