(* ===== verification/ActivityTasks.thy ===== *)
theory ActivityTasks
  imports Errors Heartbeats
begin

text \<open>
  Activity tasks in the worker: \<^verbatim>\<open>packages/worker/src/activity.ts\<close> (cancelling a running activity and turning what it
  returns or throws into a result), \<^verbatim>\<open>packages/common/src/activity-cancellation-details.ts\<close>, and the part of
  \<^verbatim>\<open>packages/worker/src/worker.ts\<close> that takes the tasks of one task token, starts and cancels the activity, counts
  it and reports its result (\<^verbatim>\<open>activityOperator\<close>).

  An activity object is shared between the state of its group of tasks, where a cancel task finds it, and the
  function that runs it: the model keeps the objects of a group in a list and passes indices around. What the
  activity function does is open: it ends at any time with a value or an error. The data converter, the
  registered functions and the reading of a start task are fields of \<open>activity_env\<close>.
\<close>

section \<open>The details of a cancellation\<close>

record cancellation_details =
  notFound :: bool
  cancelRequested :: bool
  paused :: bool
  timedOut :: bool
  workerShutdown :: bool
  reset :: bool

record proto_cancellation_details =
  isNotFound :: "bool option"
  isCancelled :: "bool option"
  isPaused :: "bool option"
  isTimedOut :: "bool option"
  isWorkerShutdown :: "bool option"
  isReset :: "bool option"

definition or_false :: "bool option \<Rightarrow> bool" where
  "or_false b = (case b of None \<Rightarrow> False | Some x \<Rightarrow> x)"

definition cancellationDetails_fromProto :: "proto_cancellation_details option \<Rightarrow> cancellation_details" where
  "cancellationDetails_fromProto p = (case p of
     None \<Rightarrow> \<lparr>notFound = False, cancelRequested = False, paused = False, timedOut = False, workerShutdown = False, reset = False\<rparr>
   | Some d \<Rightarrow> \<lparr>notFound = or_false (isNotFound d), cancelRequested = or_false (isCancelled d), paused = or_false (isPaused d),
       timedOut = or_false (isTimedOut d), workerShutdown = or_false (isWorkerShutdown d), reset = or_false (isReset d)\<rparr>)"

section \<open>An activity\<close>

text \<open>
  The reason is the name of a member of \<^verbatim>\<open>ActivityCancelReason\<close> or one of the two names of the SDK; a number that
  names no member gives \<^verbatim>\<open>undefined\<close>. The signal and the promise keep the error of the first call, the reason and
  the details are those of the last one.
\<close>

record activity =
  act_isLocal :: bool
  cancelReason :: "string option"
  cancellationDetails :: "cancellation_details option"
  cancelled_with :: "js_error option"

definition new_activity :: "bool \<Rightarrow> activity" where
  "new_activity isLocal = \<lparr>act_isLocal = isLocal, cancelReason = None, cancellationDetails = None, cancelled_with = None\<rparr>"

definition cancel :: "string option \<Rightarrow> cancellation_details \<Rightarrow> activity \<Rightarrow> activity" where
  "cancel reason d a =
     a\<lparr>cancelReason := reason, cancellationDetails := Some d,
       cancelled_with := (case cancelled_with a of
          Some e \<Rightarrow> Some e
        | None \<Rightarrow> Some (cancelled_failure (case reason of None \<Rightarrow> [] | Some r \<Rightarrow> r)))\<rparr>"

datatype activity_result =
    ResultCompleted payload
  | ResultFailed proto_failure
  | ResultCancelled proto_failure
  | WillCompleteAsync

abbreviation CompleteAsyncError :: js_error where
  "CompleteAsyncError \<equiv> OtherError [(30, ''CompleteAsyncError''), Error_class] [] [] None"

fun is_CompleteAsyncError :: "js_error \<Rightarrow> bool" where
  "is_CompleteAsyncError (OtherError cs _ _ _) = ((30, ''CompleteAsyncError'') \<in> set cs)"
| "is_CompleteAsyncError _ = False"

text \<open>\<^verbatim>\<open>isAbortError\<close>: an error, or an object that looks like one, with the name \<^verbatim>\<open>AbortError\<close>.\<close>

fun isAbortError :: "js_error \<Rightarrow> bool" where
  "isAbortError (OtherError cs _ _ _) = (case cs of [] \<Rightarrow> False | c # _ \<Rightarrow> snd c = ''AbortError'')"
| "isAbortError (ThrownValue (JObj flds)) =
     (map_of flds ''name'' = Some (JStr ''AbortError'') \<and> errorMessage (ThrownValue (JObj flds)) \<noteq> None)"
| "isAbortError _ = False"

record activity_env =
  ae_toPayload :: "jsval \<Rightarrow> js_error + payload"
  ae_toFailure :: "js_error \<Rightarrow> js_error + proto_failure"

fun without_stack :: "proto_failure \<Rightarrow> proto_failure" where
  "without_stack (Failure m src st ea c fi) = Failure m src None ea c fi"

definition is_reset :: "activity \<Rightarrow> bool" where
  "is_reset a = (case cancellationDetails a of None \<Rightarrow> False | Some d \<Rightarrow> reset d)"

definition is_paused :: "activity \<Rightarrow> bool" where
  "is_paused a = (case cancellationDetails a of None \<Rightarrow> False | Some d \<Rightarrow> paused d)"

abbreviation application_failure :: "string \<Rightarrow> string \<Rightarrow> js_error" where
  "application_failure m t \<equiv> TemporalFailure (ApplicationFailure (Some t) False None None None) m [] None None"

definition failed_with :: "activity_env \<Rightarrow> js_error \<Rightarrow> js_error + activity_result" where
  "failed_with env e = bind_res (ae_toFailure env e) (\<lambda>f. Inr (ResultFailed f))"

text \<open>The \<^verbatim>\<open>catch\<close> of \<^verbatim>\<open>run\<close>, in the order of its tests. A reason that is missing or empty is falsy.\<close>

definition caught :: "activity_env \<Rightarrow> activity \<Rightarrow> js_error \<Rightarrow> js_error + activity_result" where
  "caught env a e =
     (if is_CompleteAsyncError e then Inr WillCompleteAsync
      else if cancelReason a = Some ''HEARTBEAT_DETAILS_CONVERSION_FAILED''
      then failed_with env (TemporalFailure (ApplicationFailure (Some ''CancelledFailure'') False (Some []) None None)
             ''HEARTBEAT_DETAILS_CONVERSION_FAILED'' [] None None)
      else if cancelReason a \<notin> {None, Some []} \<and> is_CancelledFailure e
      then (if is_reset a then failed_with env (application_failure ''Activity reset'' ''ActivityReset'')
            else if is_paused a then failed_with env (application_failure ''Activity paused'' ''ActivityPause'')
            else bind_res (ae_toFailure env e) (\<lambda>f. Inr (ResultCancelled (without_stack f))))
      else if cancelReason a \<notin> {None, Some []} \<and> isAbortError e
      then Inr (ResultCancelled (Failure None (Some ''TypeScriptSDK'') None None None (CanceledInfo None)))
      else failed_with env (ensureApplicationFailure e))"

text \<open>\<^verbatim>\<open>run\<close>: the function was called and has ended with \<open>r\<close>; an error of the encoding of its value is caught as well.\<close>

definition run_result :: "activity_env \<Rightarrow> activity \<Rightarrow> js_error + jsval \<Rightarrow> js_error + activity_result" where
  "run_result env a r = (case r of
     Inl e \<Rightarrow> caught env a e
   | Inr v \<Rightarrow> (case ae_toPayload env v of Inr p \<Rightarrow> Inr (ResultCompleted p) | Inl e \<Rightarrow> caught env a e))"

section \<open>The tasks of one token\<close>

text \<open>
  \<open>oe_functions\<close> lists the registered entries and whether each is a function, \<open>oe_names\<close> is their list as JSON text.
  \<open>oe_info\<close> reads the type and the kind out of a start task, \<open>oe_args\<close> and \<open>oe_headers\<close> decode its arguments and headers,
  \<open>oe_store\<close> moves the payloads of a result to the external storage, where there is one.
\<close>

record 's operator_env =
  oe_token :: string
  oe_activity :: "'s \<Rightarrow> activity_env"
  oe_info :: "'s \<Rightarrow> js_error + string \<times> bool"
  oe_functions :: "(string \<times> bool) list"
  oe_names :: string
  oe_args :: "'s \<Rightarrow> js_error + unit"
  oe_headers :: "'s \<Rightarrow> js_error + unit"
  oe_reason_name :: "int \<Rightarrow> string option"
  oe_store :: "activity_result \<Rightarrow> js_error + activity_result"
  oe_toFailure :: "js_error \<Rightarrow> js_error + proto_failure"

datatype 's task = StartTask 's | CancelTask "int option" "proto_cancellation_details option" | NoVariant

definition registered :: "'s operator_env \<Rightarrow> string \<Rightarrow> bool" where
  "registered env t = ((case map_of (oe_functions env) t of Some f \<Rightarrow> Some f | None \<Rightarrow> map_of (oe_functions env) ''default'') = Some True)"

text \<open>\<^verbatim>\<open>ApplicationFailure.fromError\<close> with another message.\<close>

definition args_error :: "string \<Rightarrow> js_error \<Rightarrow> js_error" where
  "args_error t e =
     (let m = ''Failed to parse activity args for activity '' @ t @ '': '' @ (case errorMessage e of None \<Rightarrow> ''undefined'' | Some x \<Rightarrow> x)
      in case ensureApplicationFailure e of
           TemporalFailure (ApplicationFailure ty _ det d cat) _ st c f \<Rightarrow> TemporalFailure (ApplicationFailure ty False det d cat) m st c f
         | e' \<Rightarrow> e')"

definition start_outcome :: "'s operator_env \<Rightarrow> nat option \<Rightarrow> 's \<Rightarrow> js_error + activity" where
  "start_outcome env cur s =
     (if cur \<noteq> None then Inl (IllegalStateError (''Got start event for an already running activity: '' @ oe_token env))
      else bind_res (oe_info env s) (\<lambda>(t, isLocal).
        if \<not> registered env t
        then Inl (application_failure (''Activity function '' @ t @ '' is not registered on this Worker, available activities: ''
               @ oe_names env) ''NotFoundError'')
        else bind_res (case oe_args env s of Inl e \<Rightarrow> Inl (args_error t e) | Inr _ \<Rightarrow> Inr ()) (\<lambda>_.
             bind_res (oe_headers env s) (\<lambda>_. Inr (new_activity isLocal)))))"

record 's op =
  activities :: "('s \<times> activity) list"
  current :: "nat option"
  executing :: "nat list"
  flushing :: "(nat \<times> activity_result) list"
  storing :: "activity_result list"
  completions :: "activity_result list"
  numInFlightActivities :: int
  numInFlightLocalActivities :: int
  numInFlightNonLocalActivities :: int
  heartbeats :: "heartbeat_input list"
  stream_failed :: "js_error option"

definition new_op :: "'s op" where
  "new_op = \<lparr>activities = [], current = None, executing = [], flushing = [], storing = [], completions = [],
     numInFlightActivities = 0, numInFlightLocalActivities = 0, numInFlightNonLocalActivities = 0, heartbeats = [], stream_failed = None\<rparr>"

definition breakdown :: "bool \<Rightarrow> int \<Rightarrow> 's op \<Rightarrow> 's op" where
  "breakdown isLocal d w =
     (if isLocal then w\<lparr>numInFlightActivities := numInFlightActivities w + d, numInFlightLocalActivities := numInFlightLocalActivities w + d\<rparr>
      else w\<lparr>numInFlightActivities := numInFlightActivities w + d, numInFlightNonLocalActivities := numInFlightNonLocalActivities w + d\<rparr>)"

text \<open>A task is handled when the ones before it have been, so with the state they left.\<close>

definition take_start :: "'s operator_env \<Rightarrow> 's \<Rightarrow> 's op \<Rightarrow> 's op" where
  "take_start env s w = (case start_outcome env (current w) s of
     Inr a \<Rightarrow>
       (let n = length (activities w)
        in breakdown (act_isLocal a) 1
             (w\<lparr>activities := activities w @ [(s, a)], current := Some n, executing := executing w @ [n],
                heartbeats := heartbeats w @ [Create]\<rparr>))
   | Inl e \<Rightarrow> (case ae_toFailure (oe_activity env s) (ensureApplicationFailure e) of
       Inr f \<Rightarrow> w\<lparr>storing := storing w @ [ResultFailed f]\<rparr>
     | Inl e' \<Rightarrow> w\<lparr>stream_failed := Some e'\<rparr>))"

definition take_cancel :: "'s operator_env \<Rightarrow> int option \<Rightarrow> proto_cancellation_details option \<Rightarrow> 's op \<Rightarrow> 's op" where
  "take_cancel env reason d w = (case current w of
     None \<Rightarrow> w
   | Some n \<Rightarrow> (case activities w ! n of (s, a) \<Rightarrow>
       w\<lparr>activities := (activities w)[n := (s, cancel
           (case reason of None \<Rightarrow> Some ''WORKER_SHUTDOWN'' | Some r \<Rightarrow> oe_reason_name env r)
           (cancellationDetails_fromProto d) a)]\<rparr>))"

text \<open>The function of an activity has ended.\<close>

definition take_result :: "'s operator_env \<Rightarrow> nat \<Rightarrow> js_error + jsval \<Rightarrow> 's op \<Rightarrow> 's op" where
  "take_result env n r w = (case activities w ! n of (s, a) \<Rightarrow>
     let w1 = breakdown (act_isLocal a) (-1) (w\<lparr>executing := remove1 n (executing w)\<rparr>)
     in case run_result (oe_activity env s) a r of
          Inl e \<Rightarrow> w1\<lparr>stream_failed := Some e\<rparr>
        | Inr (ResultFailed f) \<Rightarrow>
            w1\<lparr>heartbeats := heartbeats w1 @ [Completion True n], flushing := flushing w1 @ [(n, ResultFailed f)]\<rparr>
        | Inr res \<Rightarrow> w1\<lparr>heartbeats := heartbeats w1 @ [Completion False n], storing := storing w1 @ [res]\<rparr>)"

text \<open>The result is stored, or replaced where that fails, and sent; the group of the token is closed.\<close>

definition report :: "'s operator_env \<Rightarrow> activity_result \<Rightarrow> 's op \<Rightarrow> 's op" where
  "report env res w = (case oe_store env res of
     Inr r \<Rightarrow> w\<lparr>completions := completions w @ [r], current := None\<rparr>
   | Inl e \<Rightarrow> (case oe_toFailure env (ensureApplicationFailure e) of
       Inr f \<Rightarrow> w\<lparr>completions := completions w @ [ResultFailed f], current := None\<rparr>
     | Inl e' \<Rightarrow> w\<lparr>stream_failed := Some e'\<rparr>))"

datatype 's op_event = Task "'s task" | Finished nat "js_error + jsval" | Flushed nat | Stored nat | HeartbeatError nat

text \<open>
  One step: a task arrives, an activity ends, its last heartbeat has been sent, a result has been stored, or the details
  of a heartbeat cannot be encoded, which cancels the activity. \<open>None\<close> for a step that cannot happen.
\<close>

fun op_step :: "'s operator_env \<Rightarrow> 's op_event \<Rightarrow> 's op \<Rightarrow> 's op option" where
  "op_step env (Task t) w =
     (if stream_failed w \<noteq> None then None
      else Some (case t of
        StartTask s \<Rightarrow> take_start env s w
      | CancelTask reason d \<Rightarrow> take_cancel env reason d w
      | NoVariant \<Rightarrow> w\<lparr>stream_failed := Some (TypeError ''Got an activity task without a \"variant\" attribute'')\<rparr>))"
| "op_step env (Finished n r) w = (if stream_failed w = None \<and> n \<in> set (executing w) then Some (take_result env n r w) else None)"
| "op_step env (Flushed n) w =
     (if stream_failed w \<noteq> None then None
      else case map_of (flushing w) n of
             None \<Rightarrow> None
           | Some res \<Rightarrow> Some (w\<lparr>flushing := remove1 (n, res) (flushing w), storing := storing w @ [res]\<rparr>))"
| "op_step env (Stored k) w =
     (if stream_failed w = None \<and> k < length (storing w)
      then Some (report env (storing w ! k) (w\<lparr>storing := take k (storing w) @ drop (Suc k) (storing w)\<rparr>)) else None)"
| "op_step env (HeartbeatError n) w =
     (if stream_failed w = None \<and> n < length (activities w)
      then Some (w\<lparr>activities := (activities w)[n := (case activities w ! n of (s, a) \<Rightarrow>
             (s, cancel (Some ''HEARTBEAT_DETAILS_CONVERSION_FAILED'') (cancellationDetails_fromProto None) a))]\<rparr>)
      else None)"

fun op_run :: "'s operator_env \<Rightarrow> 's op_event list \<Rightarrow> 's op \<Rightarrow> 's op option" where
  "op_run env [] w = Some w"
| "op_run env (e # es) w = (case op_step env e w of None \<Rightarrow> None | Some w' \<Rightarrow> op_run env es w')"

section \<open>Every start is answered once\<close>

fun is_start :: "'s op_event \<Rightarrow> bool" where
  "is_start (Task (StartTask _)) = True"
| "is_start _ = False"

definition starts :: "'s op_event list \<Rightarrow> nat" where
  "starts es = length (filter is_start es)"

lemma start_count_simps [simp]:
  "starts [] = 0"
  "starts (e # es) = (if is_start e then 1 else 0) + starts es"
  by (simp_all add: starts_def)

definition under_way :: "'s op \<Rightarrow> nat" where
  "under_way w = length (executing w) + length (flushing w) + length (storing w)"

definition local_at :: "('s \<times> activity) list \<Rightarrow> nat \<Rightarrow> bool" where
  "local_at xs n = act_isLocal (snd (xs ! n))"

text \<open>
  The objects in use exist, the counters count the activities that execute. \<open>k\<close> is the number of starts so far; a
  failed stream may have lost one answer.
\<close>

definition op_inv :: "nat \<Rightarrow> 's op \<Rightarrow> bool" where
  "op_inv k w \<longleftrightarrow>
     (stream_failed w = None \<longrightarrow> length (completions w) + under_way w = k) \<and>
     (\<forall>n \<in> set (executing w). n < length (activities w)) \<and>
     (\<forall>n. current w = Some n \<longrightarrow> n < length (activities w)) \<and>
     numInFlightActivities w = int (length (executing w)) \<and>
     numInFlightLocalActivities w = int (length (filter (local_at (activities w)) (executing w))) \<and>
     numInFlightNonLocalActivities w = int (length (filter (\<lambda>n. \<not> local_at (activities w) n) (executing w)))"

lemma op_inv_new: "op_inv 0 new_op"
  by (simp add: op_inv_def new_op_def under_way_def)

lemma cancel_keeps_kind [simp]: "act_isLocal (cancel r d a) = act_isLocal a"
  by (simp add: cancel_def)

lemma start_kind: "start_outcome env cur s = Inr a \<Longrightarrow> cancelReason a = None \<and> cancellationDetails a = None"
  by (auto simp: start_outcome_def bind_res_def new_activity_def split: if_splits sum.splits)

lemma filter_remove1:
  "n \<in> set xs \<Longrightarrow> P n \<Longrightarrow> Suc (length (filter P (remove1 n xs))) = length (filter P xs)"
  "\<not> P n \<Longrightarrow> filter P (remove1 n xs) = filter P xs"
  by (induction xs) auto

lemma map_of_member: "map_of xs n = Some r \<Longrightarrow> Suc (length (remove1 (n, r) xs)) = length xs"
  by (drule map_of_SomeD) (auto simp: length_remove1 dest: length_pos_if_in_set)

lemma op_inv_start:
  assumes "op_inv k w" and "stream_failed w = None"
  shows "op_inv (Suc k) (take_start env s w)"
proof (cases "start_outcome env (current w) s")
  case (Inl e)
  then show ?thesis using assms
    by (auto simp: take_start_def op_inv_def under_way_def split: sum.splits)
next
  case (Inr a)
  have old: "\<And>n. n \<in> set (executing w) \<Longrightarrow> ((activities w) @ [(s, a)]) ! n = activities w ! n"
    using assms(1) by (auto simp: op_inv_def nth_append)
  have "filter (local_at (activities w @ [(s, a)])) (executing w) = filter (local_at (activities w)) (executing w)"
    "filter (\<lambda>n. \<not> local_at (activities w @ [(s, a)]) n) (executing w) = filter (\<lambda>n. \<not> local_at (activities w) n) (executing w)"
    using old by (auto intro!: filter_cong simp: local_at_def)
  moreover have "local_at (activities w @ [(s, a)]) (length (activities w)) = act_isLocal a" by (simp add: local_at_def)
  ultimately show ?thesis using assms Inr
    by (auto simp: take_start_def op_inv_def under_way_def breakdown_def Let_def less_SucI)
qed

lemma op_inv_kinds:
  assumes "op_inv k w" and "n < length (activities w)" and "act_isLocal (snd x) = act_isLocal (snd (activities w ! n))"
  shows "op_inv k (w\<lparr>activities := (activities w)[n := x]\<rparr>)"
proof -
  have "local_at ((activities w)[n := x]) = local_at (activities w)"
    using assms(2,3) unfolding local_at_def by (metis nth_list_update_eq nth_list_update_neq)
  then show ?thesis using assms by (simp add: op_inv_def under_way_def)
qed

lemma op_inv_cancel: "op_inv k w \<Longrightarrow> op_inv k (take_cancel env r d w)"
  unfolding take_cancel_def
  by (auto split: option.split prod.split intro!: op_inv_kinds) (simp add: op_inv_def)+

lemma op_inv_result:
  assumes "op_inv k w" and "stream_failed w = None" and "n \<in> set (executing w)"
  shows "op_inv k (take_result env n r w)"
proof -
  obtain s a where sa: "activities w ! n = (s, a)" by force
  define w1 where "w1 = breakdown (act_isLocal a) (-1) (w\<lparr>executing := remove1 n (executing w)\<rparr>)"
  have len: "Suc (length (remove1 n (executing w))) = length (executing w)"
    using assms(3) by (auto simp: length_remove1 dest: length_pos_if_in_set)
  have w1: "activities w1 = activities w" "current w1 = current w" "executing w1 = remove1 n (executing w)" "flushing w1 = flushing w"
    "storing w1 = storing w" "completions w1 = completions w" "stream_failed w1 = None"
    using assms(2) by (auto simp: w1_def breakdown_def)
  have cnt: "numInFlightActivities w1 = int (length (executing w1))"
     "numInFlightLocalActivities w1 = int (length (filter (local_at (activities w)) (executing w1)))"
     "numInFlightNonLocalActivities w1 = int (length (filter (\<lambda>n. \<not> local_at (activities w) n) (executing w1)))"
    using assms len sa filter_remove1(1) [of n "executing w" "local_at (activities w)"] filter_remove1(1) [of n "executing w" "\<lambda>n. \<not> local_at (activities w) n"]
    by (auto simp: op_inv_def w1_def breakdown_def local_at_def filter_remove1(2))
  have ex: "\<forall>n \<in> set (executing w1). n < length (activities w)" 
    using assms(1) set_remove1_subset [of n "executing w"] by (auto simp: op_inv_def w1(3))
  have tot: "length (completions w) + Suc (length (executing w1) + length (flushing w) + length (storing w)) = k"
    using assms(1,2) len by (simp add: op_inv_def under_way_def w1(3))
  have "take_result env n r w = (case run_result (oe_activity env s) a r of
          Inl e \<Rightarrow> w1\<lparr>stream_failed := Some e\<rparr>
        | Inr (ResultFailed f) \<Rightarrow>
            w1\<lparr>heartbeats := heartbeats w1 @ [Completion True n], flushing := flushing w1 @ [(n, ResultFailed f)]\<rparr>
        | Inr res \<Rightarrow> w1\<lparr>heartbeats := heartbeats w1 @ [Completion False n], storing := storing w1 @ [res]\<rparr>)"
    unfolding take_result_def sa w1_def Let_def by simp
  then show ?thesis
    using assms(1) cnt ex tot
    by (auto simp: op_inv_def under_way_def w1 split: sum.splits activity_result.splits)
qed

lemma op_inv_report:
  assumes "op_inv k w" and "stream_failed w = None" and "i < length (storing w)"
  shows "op_inv k (report env (storing w ! i) (w\<lparr>storing := take i (storing w) @ drop (Suc i) (storing w)\<rparr>))"
  using assms by (auto simp: report_def op_inv_def under_way_def split: sum.splits)

lemma op_inv_step:
  assumes "op_inv k w" and "op_step env e w = Some w'"
  shows "op_inv ((if is_start e then 1 else 0) + k) w'"
proof (cases e)
  case (Task t)
  with assms show ?thesis
    by (cases t) (auto simp: op_inv_cancel op_inv_start split: if_splits, auto simp: op_inv_def under_way_def)
next
  case (Flushed n)
  with assms show ?thesis
    by (auto simp: op_inv_def under_way_def split: if_splits option.splits dest!: map_of_member)
next
  case (HeartbeatError n)
  with assms show ?thesis by (auto split: if_splits prod.splits intro!: op_inv_kinds)
qed (use assms in \<open>auto split: if_splits intro!: op_inv_result op_inv_report\<close>)

lemma op_inv_run: "op_inv k w \<Longrightarrow> op_run env es w = Some w' \<Longrightarrow> op_inv (starts es + k) w'"
proof (induction es arbitrary: w k)
  case (Cons e es)
  then obtain w1 where "op_step env e w = Some w1" "op_run env es w1 = Some w'" by (auto split: option.splits)
  with Cons.IH [OF op_inv_step [OF Cons.prems(1), of env e]] show ?case by (simp split: if_splits)
qed simp

text \<open>
  The class of the details says that they are set once and do not change; a second cancellation of the
  same activity replaces them together with the reason, and only the error of the first one is kept.
\<close>

lemma second_cancel_overwrites:
  "cancellationDetails (cancel r2 d2 (cancel r1 d1 a)) = Some d2 \<and> cancelReason (cancel r2 d2 (cancel r1 d1 a)) = r2 \<and>
   cancelled_with (cancel r2 d2 (cancel r1 d1 a)) = cancelled_with (cancel r1 d1 a)"
  by (auto simp: cancel_def split: option.splits)

section \<open>Properties\<close>

definition example_activity_env :: activity_env where
  "example_activity_env = \<lparr>ae_toPayload = (\<lambda>v. Inr \<lparr>metadata = None, data = None\<rparr>),
     ae_toFailure = (\<lambda>e. Inr (Failure (Some (err_message e)) None None None None NoInfo))\<rparr>"

definition example_operator :: "nat operator_env" where
  "example_operator = \<lparr>oe_token = ''tok'', oe_activity = (\<lambda>_. example_activity_env), oe_info = (\<lambda>s. Inr (''greet'', s = 1)),
     oe_functions = [(''greet'', True)], oe_names = ''[greet]'', oe_args = (\<lambda>_. Inr ()), oe_headers = (\<lambda>_. Inr ()),
     oe_reason_name = (\<lambda>r. if r = 1 then Some ''CANCELLED'' else None), oe_store = Inr,
     oe_toFailure = (\<lambda>e. Inr (Failure (Some (err_message e)) None None None None NoInfo))\<rparr>"

text \<open>
  C15: (Invariant.) Whatever tasks arrive for a token, in whatever order the activities end, their heartbeats are flushed and
  their results stored: as long as the stream has not failed, the completions sent and the activities under way
  are together exactly the start tasks received, so when nothing is under way every start has been answered by one
  completion; and the three counters of the worker's status count the activities that execute, by kind.
\<close>

theorem every_start_answered:
  assumes "op_run env es new_op = Some w"
  shows "(stream_failed w = None \<longrightarrow> length (completions w) + under_way w = starts es) \<and>
    numInFlightActivities w = int (length (executing w)) \<and>
    numInFlightLocalActivities w = int (length (filter (local_at (activities w)) (executing w))) \<and>
    numInFlightNonLocalActivities w = int (length (filter (\<lambda>n. \<not> local_at (activities w) n) (executing w)))"
  using op_inv_run [OF op_inv_new assms] by (simp add: op_inv_def)

theorem every_start_answered_witness:
  "\<exists>w. op_run example_operator [Task (StartTask 1), Task (CancelTask (Some 1) None), Finished 0 (Inl (cancelled_failure ''c'')), Stored 0] new_op = Some w
     \<and> length (completions w) + under_way w = 1 \<and> numInFlightActivities w = 0"
proof -
  let ?es = "[Task (StartTask 1), Task (CancelTask (Some 1) None), Finished 0 (Inl (cancelled_failure ''c'')), Stored 0]"
  obtain w where w: "op_run example_operator ?es new_op = Some w" "stream_failed w = None" "executing w = []"
    by (simp add: example_operator_def example_activity_env_def new_op_def take_start_def start_outcome_def registered_def
        new_activity_def breakdown_def take_cancel_def cancel_def take_result_def run_result_def caught_def cancelled_failure_def
        is_reset_def is_paused_def cancellationDetails_fromProto_def failed_with_def report_def Let_def)
  with every_start_answered [OF w(1)] show ?thesis by auto
qed



text \<open>
  (Error.) A second start task for a token whose activity is still running is answered with a failure, and the
  answer closes the group of the token: a cancel task that comes later finds no activity, and the one that
  runs never hears of it.
\<close>

theorem duplicate_start_detaches:
  assumes "stream_failed w = None" and "current w = Some n" and "storing w = []"
    and "\<And>e. \<exists>f. ae_toFailure (oe_activity env s) e = Inr f" and "\<And>r. oe_store env r = Inr r"
  shows "\<exists>w' f. op_run env [Task (StartTask s), Stored 0, Task (CancelTask reason d)] w = Some w' \<and>
    completions w' = completions w @ [ResultFailed f] \<and> executing w' = executing w \<and> activities w' = activities w"
proof -
  obtain f where "ae_toFailure (oe_activity env s) (ensureApplicationFailure (IllegalStateError
      (''Got start event for an already running activity: '' @ oe_token env))) = Inr f" using assms(4) by blast
  then show ?thesis
    using assms(1,2,3,5) by (auto simp: take_start_def start_outcome_def report_def take_cancel_def)
qed

theorem duplicate_start_detaches_witness:
  "\<exists>w w' f. op_run example_operator [Task (StartTask 0)] new_op = Some w \<and>
     op_run example_operator [Task (StartTask 1), Stored 0, Task (CancelTask None None)] w = Some w' \<and>
     completions w' = [ResultFailed f] \<and> executing w' = [0] \<and> activities w' = [(0, new_activity False)]"
proof -
  obtain w where w: "op_run example_operator [Task (StartTask 0)] new_op = Some w" "stream_failed w = None" "current w = Some 0"
    "storing w = []" "completions w = []" "executing w = [0]" "activities w = [(0, new_activity False)]"
    by (simp add: example_operator_def new_op_def take_start_def start_outcome_def registered_def new_activity_def breakdown_def)
  moreover have "\<And>e. \<exists>f. ae_toFailure (oe_activity example_operator 1) e = Inr f" "\<And>r. oe_store example_operator r = Inr r"
    by (simp_all add: example_operator_def example_activity_env_def)
  ultimately show ?thesis
    using duplicate_start_detaches [of w 0 example_operator 1 None None] by auto
qed

end
