(* ===== verification/Semaphore.thy ===== *)
theory Semaphore
  imports Prelude
begin

text \<open>
  \<^verbatim>\<open>packages/common/src/concurrency\<close>: the counting semaphore and the limiters made from it. A call of a limiter takes a
  permit or queues up, goes on in a later microtask once its promise is resolved, runs its function, and releases
  the permit when the function has settled, with a value or an error. The calls are numbers; \<open>calls\<close> and \<open>granted\<close> record the
  order in which they came and in which they got their permits.
\<close>

section \<open>Operations\<close>

record semaphore =
  permits :: nat
  waiters :: "nat list"

text \<open>\<^verbatim>\<open>acquire\<close>: whether the promise it returns is resolved at once.\<close>

definition acquire :: "nat \<Rightarrow> semaphore \<Rightarrow> semaphore \<times> bool" where
  "acquire i s = (if 0 < permits s then (s\<lparr>permits := permits s - 1\<rparr>, True) else (s\<lparr>waiters := waiters s @ [i]\<rparr>, False))"

text \<open>\<^verbatim>\<open>release\<close>: the waiter whose promise it resolves.\<close>

definition release :: "semaphore \<Rightarrow> semaphore \<times> nat option" where
  "release s = (case waiters s of
     i # is \<Rightarrow> (s\<lparr>waiters := is\<rparr>, Some i)
   | [] \<Rightarrow> (s\<lparr>permits := permits s + 1\<rparr>, None))"

definition new_semaphore :: "nat \<Rightarrow> semaphore" where
  "new_semaphore n = \<lparr>permits = n, waiters = []\<rparr>"

record limiter =
  sem :: semaphore
  resolved :: "nat list"
  inside :: "nat list"
  calls :: "nat list"
  granted :: "nat list"

definition limit :: "int \<Rightarrow> limiter" where
  "limit concurrency = \<lparr>sem = new_semaphore (nat (max 1 concurrency)), resolved = [], inside = [], calls = [], granted = []\<rparr>"

definition sequential :: limiter where
  "sequential = limit 1"

definition call :: "nat \<Rightarrow> limiter \<Rightarrow> limiter" where
  "call i l = (case acquire i (sem l) of
     (s, True) \<Rightarrow> l\<lparr>sem := s, resolved := resolved l @ [i], calls := calls l @ [i], granted := granted l @ [i]\<rparr>
   | (s, False) \<Rightarrow> l\<lparr>sem := s, calls := calls l @ [i]\<rparr>)"

definition enter :: "nat \<Rightarrow> limiter \<Rightarrow> limiter" where
  "enter i l = l\<lparr>resolved := remove1 i (resolved l), inside := inside l @ [i]\<rparr>"

definition leave :: "nat \<Rightarrow> limiter \<Rightarrow> limiter" where
  "leave i l = (case release (sem l) of
     (s, None) \<Rightarrow> l\<lparr>sem := s, inside := remove1 i (inside l)\<rparr>
   | (s, Some j) \<Rightarrow> l\<lparr>sem := s, inside := remove1 i (inside l), resolved := resolved l @ [j], granted := granted l @ [j]\<rparr>)"

inductive limit_step :: "limiter \<Rightarrow> limiter \<Rightarrow> bool" where
  called: "limit_step l (call i l)"
| entered: "i \<in> set (resolved l) \<Longrightarrow> limit_step l (enter i l)"
| left: "i \<in> set (inside l) \<Longrightarrow> limit_step l (leave i l)"

lemmas limit_defs = call_def enter_def leave_def acquire_def release_def

section \<open>Invariant\<close>

text \<open>
  Every permit is free or held by one call; calls wait only while no permit is free; permits are granted in the order of
  the calls.
\<close>

definition limit_inv :: "nat \<Rightarrow> limiter \<Rightarrow> bool" where
  "limit_inv n l \<longleftrightarrow>
     permits (sem l) + length (resolved l) + length (inside l) = n \<and>
     (waiters (sem l) \<noteq> [] \<longrightarrow> permits (sem l) = 0) \<and>
     calls l = granted l @ waiters (sem l)"

lemma length_remove1_in: "i \<in> set xs \<Longrightarrow> Suc (length (remove1 i xs)) = length xs"
  by (auto simp: length_remove1 dest: length_pos_if_in_set)

lemma limit_inv_start: "limit_inv (nat (max 1 c)) (limit c)"
  by (simp add: limit_inv_def limit_def new_semaphore_def)

lemma limit_inv_step: "limit_inv n l \<Longrightarrow> limit_step l l' \<Longrightarrow> limit_inv n l'"
  by (erule limit_step.cases)
     (auto simp: limit_inv_def limit_defs dest: length_remove1_in split: list.splits if_splits)

interpretation limit_machine: machine "\<lambda>l. l = limit c" limit_step "limit_inv (nat (max 1 c))" for c
  by unfold_locales (auto intro: limit_inv_start limit_inv_step)

section \<open>Property\<close>

text \<open>
  C14: (Safety and liveness.) However calls of a limiter come, start and end: never more than the configured number of functions run at a time (at
  least one is allowed), permits are granted in the order of the calls, and no wake-up is lost: while a call waits, others
  hold all the permits, and the end of any of them hands its permit to the call that has waited longest.
\<close>

theorem limiter_fair:
  assumes "limit_step\<^sup>*\<^sup>* (limit c) l"
  shows "int (length (inside l)) \<le> max 1 c \<and> calls l = granted l @ waiters (sem l) \<and>
    (waiters (sem l) \<noteq> [] \<longrightarrow> int (length (resolved l) + length (inside l)) = max 1 c) \<and>
    (\<forall>i \<in> set (inside l). \<forall>j js. waiters (sem l) = j # js \<longrightarrow>
       granted (leave i l) = granted l @ [j] \<and> j \<in> set (resolved (leave i l)) \<and> waiters (sem (leave i l)) = js)"
proof -
  have "limit_inv (nat (max 1 c)) l" using limit_machine.inv_reachable [OF refl assms] .
  then show ?thesis by (auto simp: limit_inv_def leave_def release_def)
qed

theorem limiter_fair_witness:
  "granted (leave 7 (call 8 (enter 7 (call 7 (limit 0))))) = [7, 8] \<and> length (inside (call 8 (enter 7 (call 7 (limit 0))))) = 1"
proof -
  let ?l = "call 8 (enter 7 (call 7 (limit 0)))"
  have 1: "limit_step (limit 0) (call 7 (limit 0))" by (rule limit_step.called)
  have 2: "limit_step (call 7 (limit 0)) (enter 7 (call 7 (limit 0)))"
    by (rule limit_step.entered) (simp add: limit_defs limit_def new_semaphore_def)
  have 3: "limit_step (enter 7 (call 7 (limit 0))) ?l" by (rule limit_step.called)
  have "limit_step\<^sup>*\<^sup>* (limit 0) ?l" using 1 2 3 by (meson converse_rtranclp_into_rtranclp rtranclp.rtrancl_refl)
  from limiter_fair [OF this] show ?thesis by (simp add: limit_defs limit_def new_semaphore_def)
qed

end
