(* ===== verification/PayloadCache.thy ===== *)
theory PayloadCache
  imports Errors "HOL-Library.Sublist"
begin

text \<open>
  The payload cache: the interface of \<^verbatim>\<open>packages/common/src/payload-cache.ts\<close> as a locale, and the in-memory cache of
  \<^verbatim>\<open>packages/common/src/internal-non-workflow/in-memory-payload-cache.ts\<close>, which implements it and refines an abstract
  least-recently-used list. A \<^verbatim>\<open>Map\<close> keeps the order of insertion, so its first entry is the one used least recently.
  The wire format of payloads is generated code: \<open>enc\<close> and \<open>dec\<close> are parameters.
\<close>

section \<open>The interface\<close>

text \<open>
  A cache may forget at any time, but never returns anything else than what was stored last under the key, as the wire
  format gives it back (\<open>reread\<close>). A payload that is refused leaves what was stored before it.
\<close>

locale payload_cache =
  fixes cget :: "'c \<Rightarrow> string \<Rightarrow> 'c \<times> (js_error + 'p option)"
    and cset :: "'c \<Rightarrow> string \<Rightarrow> 'p \<Rightarrow> 'c \<times> bool"
    and content :: "'c \<Rightarrow> string \<rightharpoonup> 'p"
    and reread :: "'p \<Rightarrow> 'p option"
    and ok :: "'c \<Rightarrow> bool"
  assumes get_sound: "ok c \<Longrightarrow> cget c k = (c', Inr (Some p)) \<Longrightarrow> content c k = Some p"
    and get_keeps: "ok c \<Longrightarrow> cget c k = (c', r) \<Longrightarrow> ok c' \<and> content c' \<subseteq>\<^sub>m content c"
    and set_sound: "ok c \<Longrightarrow> cset c k p = (c', b) \<Longrightarrow> ok c' \<and> content c' \<subseteq>\<^sub>m (if b then (content c)(k := reread p) else content c)"
begin

text \<open>A property of keys and payloads that holds for what is stored holds for what is returned.\<close>

definition coherent :: "(string \<Rightarrow> 'p \<Rightarrow> bool) \<Rightarrow> 'c \<Rightarrow> bool" where
  "coherent R c \<longleftrightarrow> ok c \<and> (\<forall>k p. content c k = Some p \<longrightarrow> R k p)"

lemma coherent_get: "coherent R c \<Longrightarrow> cget c k = (c', r) \<Longrightarrow> coherent R c' \<and> (\<forall>p. r = Inr (Some p) \<longrightarrow> R k p)"
  unfolding coherent_def using get_keeps [of c k c' r] get_sound [of c k c'] by (auto simp: map_le_def dom_def)

lemma coherent_set:
  "coherent R c \<Longrightarrow> (\<And>q. reread p = Some q \<Longrightarrow> R k q) \<Longrightarrow> coherent R (fst (cset c k p))"
  unfolding coherent_def using set_sound [of c k p "fst (cset c k p)" "snd (cset c k p)"]
  by (auto simp: map_le_def dom_def split: if_splits) (metis option.distinct(1))

lemma coherent_mono: "coherent R c \<Longrightarrow> (\<And>k p. R k p \<Longrightarrow> R' k p) \<Longrightarrow> coherent R' c"
  by (auto simp: coherent_def)

end

section \<open>The in-memory cache\<close>

record cache =
  entries :: "(string, string) js_map"
  currentBytes :: int
  maxTotalBytes :: nat
  maxEntries :: nat

definition DEFAULT_MAX_TOTAL_BYTES :: nat where "DEFAULT_MAX_TOTAL_BYTES = 64 * 1024 * 1024"
definition DEFAULT_MAX_ENTRIES :: nat where "DEFAULT_MAX_ENTRIES = 10000"

definition assertNonNegativeInteger :: "string \<Rightarrow> jsnum \<Rightarrow> js_error + nat" where
  "assertNonNegativeInteger name v = (case v of
     Num x \<Rightarrow> (if x \<in> \<int> \<and> \<bar>x\<bar> \<le> 2 ^ 53 - 1 \<and> 0 \<le> x then Inr (nat \<lfloor>x\<rfloor>)
              else Inl (ValueError (''InMemoryPayloadCacheOptions.'' @ name @ '' must be a non-negative safe integer'')))
   | _ \<Rightarrow> Inl (ValueError (''InMemoryPayloadCacheOptions.'' @ name @ '' must be a non-negative safe integer'')))"

definition new_cache :: "jsnum option \<Rightarrow> jsnum option \<Rightarrow> js_error + cache" where
  "new_cache budget slots =
     bind_res (case budget of None \<Rightarrow> Inr DEFAULT_MAX_TOTAL_BYTES | Some v \<Rightarrow> assertNonNegativeInteger ''maxTotalBytes'' v) (\<lambda>t.
     bind_res (case slots of None \<Rightarrow> Inr DEFAULT_MAX_ENTRIES | Some v \<Rightarrow> assertNonNegativeInteger ''maxEntries'' v) (\<lambda>n.
       Inr \<lparr>entries = [], currentBytes = 0, maxTotalBytes = t, maxEntries = n\<rparr>))"

definition cache_get :: "(string \<Rightarrow> js_error + 'p) \<Rightarrow> cache \<Rightarrow> string \<Rightarrow> cache \<times> (js_error + 'p option)" where
  "cache_get dec c k = (case js_get (entries c) k of
     None \<Rightarrow> (c, Inr None)
   | Some b \<Rightarrow> (c\<lparr>entries := js_set (js_delete (entries c) k) k b\<rparr>, bind_res (dec b) (\<lambda>p. Inr (Some p))))"

text \<open>The loop of \<^verbatim>\<open>set\<close> that drops the oldest entries until \<open>n\<close> more bytes fit.\<close>

function evict :: "nat \<Rightarrow> cache \<Rightarrow> cache" where
  "evict n c =
     (if maxEntries c \<le> length (entries c) \<or> int (maxTotalBytes c) < currentBytes c + int n
      then (case entries c of
              [] \<Rightarrow> c
            | (k, b) # es \<Rightarrow>
                evict n (c\<lparr>currentBytes := currentBytes c - int (length b), entries := js_delete (entries c) k\<rparr>))
      else c)"
  by pat_completeness auto
termination
  by (relation "measure (\<lambda>(n, c). length (entries c))") (auto simp: js_delete_def less_Suc_eq_le)

declare evict.simps [simp del]

definition cache_set :: "('p \<Rightarrow> string) \<Rightarrow> cache \<Rightarrow> string \<Rightarrow> 'p \<Rightarrow> cache \<times> bool" where
  "cache_set enc c k p =
     (let b = enc p in
      if maxTotalBytes c < length b \<or> maxEntries c = 0 then (c, False)
      else let c1 = (case js_get (entries c) k of
                       None \<Rightarrow> c
                     | Some old \<Rightarrow> c\<lparr>currentBytes := currentBytes c - int (length old), entries := js_delete (entries c) k\<rparr>);
               c2 = evict (length b) c1
           in (c2\<lparr>entries := js_set (entries c2) k b, currentBytes := currentBytes c2 + int (length b)\<rparr>, True))"

section \<open>The abstract least-recently-used list\<close>

definition bytes :: "('k \<times> string) list \<Rightarrow> nat" where
  "bytes es = sum_list (map (length \<circ> snd) es)"

lemma bytes_simps [simp]: "bytes [] = 0" "bytes (e # es) = length (snd e) + bytes es" "bytes (es @ fs) = bytes es + bytes fs"
  by (simp_all add: bytes_def)

text \<open>The longest suffix of a list with a property.\<close>

fun longest_suffix :: "('a list \<Rightarrow> bool) \<Rightarrow> 'a list \<Rightarrow> 'a list" where
  "longest_suffix P [] = []"
| "longest_suffix P (x # xs) = (if P (x # xs) then x # xs else longest_suffix P xs)"

definition fits :: "nat \<Rightarrow> nat \<Rightarrow> nat \<Rightarrow> ('k \<times> string) list \<Rightarrow> bool" where
  "fits budget slots n es \<longleftrightarrow> length es < slots \<and> bytes es + n \<le> budget"

definition without :: "'k \<Rightarrow> ('k \<times> 'v) list \<Rightarrow> ('k \<times> 'v) list" where
  "without k es = filter (\<lambda>e. fst e \<noteq> k) es"

definition lru_get :: "(string \<times> string) list \<Rightarrow> string \<Rightarrow> (string \<times> string) list \<times> string option" where
  "lru_get es k = (case map_of es k of None \<Rightarrow> (es, None) | Some b \<Rightarrow> (without k es @ [(k, b)], Some b))"

definition lru_set :: "nat \<Rightarrow> nat \<Rightarrow> (string \<times> string) list \<Rightarrow> string \<Rightarrow> string \<Rightarrow> (string \<times> string) list \<times> bool" where
  "lru_set budget slots es k b =
     (if length b \<le> budget \<and> 0 < slots then (longest_suffix (fits budget slots (length b)) (without k es) @ [(k, b)], True)
      else (es, False))"

lemma longest_suffix_suffix: "suffix (longest_suffix P xs) xs"
  by (induction xs) (auto simp: suffix_Cons)

lemma longest_suffix_holds: "P [] \<Longrightarrow> P (longest_suffix P xs)"
  by (induction xs) auto

lemma longest_suffix_longest: "suffix ys xs \<Longrightarrow> P ys \<Longrightarrow> suffix ys (longest_suffix P xs)"
  by (induction xs) (auto simp: suffix_Cons)

lemma fits_suffix: "suffix es fs \<Longrightarrow> fits budget slots n fs \<Longrightarrow> fits budget slots n es"
  by (auto simp: fits_def elim!: suffixE)

section \<open>Refinement\<close>

definition cache_inv :: "cache \<Rightarrow> bool" where
  "cache_inv c \<longleftrightarrow> distinct (map fst (entries c)) \<and> currentBytes c = int (bytes (entries c)) \<and>
     bytes (entries c) \<le> maxTotalBytes c \<and> length (entries c) \<le> maxEntries c"

lemma js_delete_without: "js_delete es k = without k es"
  by (simp add: js_delete_def without_def)

lemma js_set_new: "k \<notin> fst ` set es \<Longrightarrow> js_set es k v = es @ [(k, v)]"
  by (induction es) auto

lemma without_absent: "k \<notin> fst ` set es \<Longrightarrow> without k es = es"
  by (induction es) (auto simp: without_def)

lemma notin_without [simp]: "k \<notin> fst ` set (without k es)"
  by (auto simp: without_def)

lemma distinct_without: "distinct (map fst es) \<Longrightarrow> distinct (map fst (without k es))"
  by (induction es) (auto simp: without_def)

lemma bytes_without:
  "distinct (map fst es) \<Longrightarrow> map_of es k = Some b \<Longrightarrow> bytes es = length b + bytes (without k es) \<and> length es = Suc (length (without k es))"
proof (induction es)
  case (Cons e es)
  show ?case
  proof (cases "fst e = k")
    case True
    with Cons.prems have "without k es = es" by (auto intro: without_absent)
    with True Cons.prems show ?thesis by (cases e) (auto simp: without_def)
  qed (use Cons in \<open>auto simp: without_def\<close>)
qed simp

lemma evict_longest_suffix:
  assumes "distinct (map fst (entries c))" and "currentBytes c = int (bytes (entries c))" and "n \<le> maxTotalBytes c" and "0 < maxEntries c"
  shows "evict n c = c\<lparr>entries := longest_suffix (fits (maxTotalBytes c) (maxEntries c) n) (entries c),
     currentBytes := int (bytes (longest_suffix (fits (maxTotalBytes c) (maxEntries c) n) (entries c)))\<rparr>"
  using assms
proof (induction n c rule: evict.induct)
  case (1 n c)
  show ?case
  proof (cases "entries c")
    case Nil
    with 1 show ?thesis by (subst evict.simps) (simp add: fits_def)
  next
    case (Cons e es)
    obtain k b where e: "e = (k, b)" by force
    have del: "js_delete (entries c) k = es" using 1 Cons e by (auto simp: js_delete_without without_def filter_id_conv)
    show ?thesis
    proof (cases "fits (maxTotalBytes c) (maxEntries c) n (entries c)")
      case True
      with 1 Cons show ?thesis by (subst evict.simps) (auto simp: fits_def)
    next
      case False
      then have "maxEntries c \<le> length (entries c) \<or> int (maxTotalBytes c) < currentBytes c + int n"
        using 1(3) by (auto simp: fits_def)
      then show ?thesis
        using 1(1) [OF _ Cons e [symmetric]] 1(2-) Cons e del False by (subst evict.simps) auto
    qed
  qed
qed

lemma distinct_suffix: "suffix es fs \<Longrightarrow> distinct (map fst fs) \<Longrightarrow> distinct (map fst es)"
  by (auto elim!: suffixE)

lemma cache_set_refines:
  assumes "cache_inv c" and "cache_set enc c k p = (c', r)"
  shows "cache_inv c' \<and> maxTotalBytes c' = maxTotalBytes c \<and> maxEntries c' = maxEntries c \<and>
    (entries c', r) = lru_set (maxTotalBytes c) (maxEntries c) (entries c) k (enc p)"
proof (cases "maxTotalBytes c < length (enc p) \<or> maxEntries c = 0")
  case True
  with assms show ?thesis by (auto simp: cache_set_def lru_set_def)
next
  case False
  define c1 where "c1 = c\<lparr>currentBytes := int (bytes (without k (entries c))), entries := without k (entries c)\<rparr>"
  have c1: "(case js_get (entries c) k of None \<Rightarrow> c
     | Some old \<Rightarrow> c\<lparr>currentBytes := currentBytes c - int (length old), entries := js_delete (entries c) k\<rparr>) = c1"
  proof (cases "js_get (entries c) k")
    case None
    then have "without k (entries c) = entries c" by (intro without_absent) (simp add: js_get_def map_of_eq_None_iff)
    with None assms(1) show ?thesis by (simp add: c1_def cache_inv_def)
  next
    case (Some b)
    with assms(1) bytes_without [of "entries c" k b] show ?thesis
      by (simp add: c1_def cache_inv_def js_get_def js_delete_without)
  qed
  let ?s = "longest_suffix (fits (maxTotalBytes c) (maxEntries c) (length (enc p))) (without k (entries c))"
  have "fits (maxTotalBytes c) (maxEntries c) (length (enc p)) []" using False by (simp add: fits_def)
  then have fit: "fits (maxTotalBytes c) (maxEntries c) (length (enc p)) ?s" by (rule longest_suffix_holds)
  have suf: "suffix ?s (without k (entries c))" by (rule longest_suffix_suffix)
  then have new: "k \<notin> fst ` set ?s" using set_mono_suffix [OF suf] by (auto simp: without_def)
  have dist: "distinct (map fst (without k (entries c)))" using assms(1) by (simp add: distinct_without cache_inv_def)
  have "evict (length (enc p)) c1 = c1\<lparr>entries := ?s, currentBytes := int (bytes ?s)\<rparr>"
    using evict_longest_suffix [of c1 "length (enc p)"] False dist by (simp add: c1_def)
  then have "c' = c1\<lparr>entries := ?s @ [(k, enc p)], currentBytes := int (bytes ?s) + int (length (enc p))\<rparr>" and "r = True"
    using assms(2) False new by (auto simp: cache_set_def c1 Let_def js_set_new)
  then show ?thesis
    using False fit new distinct_suffix [OF suf dist] by (auto simp: c1_def lru_set_def cache_inv_def fits_def)
qed

lemma cache_get_refines:
  assumes "cache_inv c" and "cache_get dec c k = (c', r)"
  shows "cache_inv c' \<and> maxTotalBytes c' = maxTotalBytes c \<and> maxEntries c' = maxEntries c \<and>
    entries c' = fst (lru_get (entries c) k) \<and>
    r = (case snd (lru_get (entries c) k) of None \<Rightarrow> Inr None | Some b \<Rightarrow> bind_res (dec b) (\<lambda>p. Inr (Some p)))"
proof (cases "map_of (entries c) k")
  case None
  with assms show ?thesis by (auto simp: cache_get_def lru_get_def js_get_def)
next
  case (Some b)
  then show ?thesis
    using assms bytes_without [of "entries c" k b] distinct_without [of "entries c" k]
    by (auto simp: cache_get_def lru_get_def js_get_def js_delete_without js_set_new cache_inv_def)
qed

text \<open>Any sequence of operations.\<close>

datatype 'p cache_request = Get string | Set string 'p

datatype 'p cache_reply = Got "js_error + 'p option" | Accepted bool

fun cache_op :: "('p \<Rightarrow> string) \<Rightarrow> (string \<Rightarrow> js_error + 'p) \<Rightarrow> 'p cache_request \<Rightarrow> cache \<Rightarrow> cache \<times> 'p cache_reply" where
  "cache_op enc dec (Get k) c = (case cache_get dec c k of (c', r) \<Rightarrow> (c', Got r))"
| "cache_op enc dec (Set k p) c = (case cache_set enc c k p of (c', r) \<Rightarrow> (c', Accepted r))"

fun lru_op :: "nat \<Rightarrow> nat \<Rightarrow> ('p \<Rightarrow> string) \<Rightarrow> (string \<Rightarrow> js_error + 'p) \<Rightarrow> 'p cache_request \<Rightarrow>
    (string \<times> string) list \<Rightarrow> (string \<times> string) list \<times> 'p cache_reply" where
  "lru_op budget slots enc dec (Get k) es = (case lru_get es k of
     (es', b) \<Rightarrow> (es', Got (case b of None \<Rightarrow> Inr None | Some x \<Rightarrow> bind_res (dec x) (\<lambda>p. Inr (Some p)))))"
| "lru_op budget slots enc dec (Set k p) es = (case lru_set budget slots es k (enc p) of (es', r) \<Rightarrow> (es', Accepted r))"

fun run_ops :: "('o \<Rightarrow> 's \<Rightarrow> 's \<times> 'r) \<Rightarrow> 'o list \<Rightarrow> 's \<Rightarrow> 's \<times> 'r list" where
  "run_ops f [] s = (s, [])"
| "run_ops f (x # xs) s = (case f x s of (s1, r) \<Rightarrow> (case run_ops f xs s1 of (s2, rs) \<Rightarrow> (s2, r # rs)))"

lemma cache_op_refines:
  assumes "cache_inv c" and "cache_op enc dec x c = (c', r)"
  shows "cache_inv c' \<and> maxTotalBytes c' = maxTotalBytes c \<and> maxEntries c' = maxEntries c \<and>
    lru_op (maxTotalBytes c) (maxEntries c) enc dec x (entries c) = (entries c', r)"
proof (cases x)
  case (Get k)
  then show ?thesis using assms cache_get_refines [OF assms(1)] by (fastforce split: prod.splits)
next
  case (Set k p)
  then show ?thesis using assms cache_set_refines [OF assms(1)] by (fastforce split: prod.splits)
qed

lemma run_refines:
  assumes "cache_inv c" and "run_ops (cache_op enc dec) xs c = (c', rs)"
  shows "cache_inv c' \<and> maxTotalBytes c' = maxTotalBytes c \<and> maxEntries c' = maxEntries c \<and>
    run_ops (lru_op (maxTotalBytes c) (maxEntries c) enc dec) xs (entries c) = (entries c', rs)"
  using assms
proof (induction xs arbitrary: c rs)
  case (Cons x xs)
  obtain c1 r where 1: "cache_op enc dec x c = (c1, r)" by force
  obtain rs' where 2: "run_ops (cache_op enc dec) xs c1 = (c', rs')" "rs = r # rs'"
    using Cons.prems(2) 1 by (auto split: prod.splits)
  show ?case using cache_op_refines [OF Cons.prems(1) 1] Cons.IH [OF _ 2(1)] 2(2) by auto
qed simp

lemma new_cache_inv: "new_cache t n = Inr c \<Longrightarrow> cache_inv c \<and> entries c = []"
  by (auto simp: new_cache_def cache_inv_def bind_res_Inr_iff)

section \<open>The implementation of the interface\<close>

definition content_of :: "(string \<Rightarrow> js_error + 'p) \<Rightarrow> cache \<Rightarrow> string \<rightharpoonup> 'p" where
  "content_of dec c k = (case map_of (entries c) k of None \<Rightarrow> None | Some b \<Rightarrow> (case dec b of Inl _ \<Rightarrow> None | Inr p \<Rightarrow> Some p))"

definition reread_of :: "('p \<Rightarrow> string) \<Rightarrow> (string \<Rightarrow> js_error + 'p) \<Rightarrow> 'p \<Rightarrow> 'p option" where
  "reread_of enc dec p = (case dec (enc p) of Inl _ \<Rightarrow> None | Inr q \<Rightarrow> Some q)"

lemma map_of_without: "map_of (without k es) k' = (if k' = k then None else map_of es k')"
  by (induction es) (auto simp: without_def)

lemma map_of_suffix: "suffix es fs \<Longrightarrow> distinct (map fst fs) \<Longrightarrow> map_of es k = Some v \<Longrightarrow> map_of fs k = Some v"
  by (auto elim!: suffixE simp: map_add_def split: option.splits dest!: map_of_SomeD)

interpretation memory_cache: payload_cache "cache_get dec" "cache_set enc" "content_of dec" "reread_of enc dec" cache_inv for enc dec
proof unfold_locales
  fix c k c' p
  show "cache_inv c \<Longrightarrow> cache_get dec c k = (c', Inr (Some p)) \<Longrightarrow> content_of dec c k = Some p"
    by (auto simp: cache_get_def content_of_def js_get_def bind_res_def split: option.splits sum.splits)
next
  fix c k c' r
  show "cache_inv c' \<and> content_of dec c' \<subseteq>\<^sub>m content_of dec c" if "cache_inv c" "cache_get dec c k = (c', r)"
    using cache_get_refines [OF that] by (auto simp: lru_get_def map_le_def content_of_def map_of_without map_add_def split: option.splits)
next
  fix c k p c' b
  assume that: "cache_inv c" "cache_set enc c k p = (c', b)"
  note ref = cache_set_refines [OF that]
  have d: "distinct (map fst (without k (entries c)))" using that(1) by (simp add: cache_inv_def distinct_without)
  have "content_of dec c' \<subseteq>\<^sub>m (if b then (content_of dec c)(k := reread_of enc dec p) else content_of dec c)"
  proof (cases "length (enc p) \<le> maxTotalBytes c \<and> 0 < maxEntries c")
    case True
    let ?s = "longest_suffix (fits (maxTotalBytes c) (maxEntries c) (length (enc p))) (without k (entries c))"
    have e: "entries c' = ?s @ [(k, enc p)]" b using ref True by (auto simp: lru_set_def)
    have "k \<notin> fst ` set ?s" using set_mono_suffix [OF longest_suffix_suffix] notin_without by fastforce
    then have k: "map_of ?s k = None" by (simp add: map_of_eq_None_iff)
    have "map_of (entries c) a = Some x" if "a \<noteq> k" "map_of ?s a = Some x" for a x
      using map_of_suffix [OF longest_suffix_suffix d that(2)] that(1) by (simp add: map_of_without)
    with k show ?thesis
      by (auto simp: map_le_def content_of_def reread_of_def e map_add_def split: option.split sum.split)
  next
    case False
    then show ?thesis using that(2) by (auto simp: cache_set_def)
  qed
  then show "cache_inv c' \<and> content_of dec c' \<subseteq>\<^sub>m (if b then (content_of dec c)(k := reread_of enc dec p) else content_of dec c)" using ref by blast
qed

section \<open>What is kept\<close>

text \<open>An entry stays while the entries used after it and the new one fit together with it.\<close>

definition kept :: "string \<Rightarrow> string \<Rightarrow> string set \<Rightarrow> nat \<Rightarrow> (string \<times> string) list \<Rightarrow> bool" where
  "kept k b K n es \<longleftrightarrow> (\<exists>pre post. es = pre @ (k, b) # post \<and> fst ` set post \<subseteq> K \<and> bytes post \<le> n)"

lemma without_append: "without k (es @ fs) = without k es @ without k fs"
  by (simp add: without_def)

lemma without_Cons_other: "fst e \<noteq> k \<Longrightarrow> without k (e # es) = e # without k es"
  by (simp add: without_def)

lemma bytes_without_le: "bytes (without k es) \<le> bytes es"
  by (induction es) (auto simp: without_def)

lemma kept_set:
  assumes "kept k b K n es" and "distinct (map fst es)" and "k' \<noteq> k" and "k' \<in> K" and "finite K" and "card K < slots"
    and "length b + n + length b' \<le> budget"
  shows "kept k b K (n + length b') (fst (lru_set budget slots es k' b'))"
proof -
  obtain pre post where es: "es = pre @ (k, b) # post" "fst ` set post \<subseteq> K" "bytes post \<le> n"
    using assms(1) by (auto simp: kept_def)
  let ?ys = "(k, b) # without k' post"
  have w: "without k' es = without k' pre @ ?ys" using assms(3) by (simp add: es(1) without_append without_Cons_other)
  have "distinct (map fst (without k' post))" using assms(2) es(1) by (simp add: distinct_without)
  then have "length (without k' post) = card (fst ` set (without k' post))" by (metis distinct_card length_map list.set_map)
  also have "\<dots> \<le> card (K - {k'})" using es(2) assms(5) by (intro card_mono) (auto simp: without_def)
  finally have len: "length (without k' post) < card K" using card_Diff1_less [OF assms(5,4)] by simp
  have "fits budget slots (length b') ?ys"
    using len assms(6,7) es(3) bytes_without_le [of k' post] by (simp add: fits_def)
  then have "suffix ?ys (longest_suffix (fits budget slots (length b')) (without k' es))"
    by (intro longest_suffix_longest) (auto simp: w suffix_def)
  then obtain zs where "longest_suffix (fits budget slots (length b')) (without k' es) = zs @ ?ys" by (auto elim: suffixE)
  moreover have "fst ` set (without k' post @ [(k', b')]) \<subseteq> K" "bytes (without k' post @ [(k', b')]) \<le> n + length b'"
    using es(2,3) assms(4) bytes_without_le [of k' post] by (auto simp: without_def)
  moreover have "length b' \<le> budget \<and> 0 < slots" using assms(6,7) by simp
  ultimately show ?thesis unfolding kept_def lru_set_def
    by (intro exI [of _ zs] exI [of _ "without k' post @ [(k', b')]"]) auto
qed

fun set_key :: "'p cache_request \<Rightarrow> string" where
  "set_key (Set k _) = k"
| "set_key (Get k) = k"

fun set_bytes :: "('p \<Rightarrow> string) \<Rightarrow> 'p cache_request \<Rightarrow> nat" where
  "set_bytes enc (Set _ p) = length (enc p)"
| "set_bytes enc (Get _) = 0"

fun is_set :: "'p cache_request \<Rightarrow> bool" where
  "is_set (Set _ _) = True"
| "is_set (Get _) = False"

lemma kept_run:
  assumes "cache_inv c" and "kept k b K n (entries c)" and "\<forall>x \<in> set xs. is_set x \<and> set_key x \<in> K \<and> set_key x \<noteq> k"
    and "finite K" and "card K < maxEntries c" and "length b + n + sum_list (map (set_bytes enc) xs) \<le> maxTotalBytes c"
    and "run_ops (cache_op enc dec) xs c = (c', rs)"
  shows "\<exists>m. kept k b K m (entries c')"
  using assms
proof (induction xs arbitrary: c n rs)
  case (Cons x xs)
  obtain k' p where x: "x = Set k' p" using Cons.prems(3) by (cases x) auto
  obtain c1 r where 1: "cache_set enc c k' p = (c1, r)" by force
  obtain rs' where 2: "run_ops (cache_op enc dec) xs c1 = (c', rs')" using Cons.prems(7) 1 x by (auto split: prod.splits)
  note ref = cache_set_refines [OF Cons.prems(1) 1]
  have "kept k b K (n + length (enc p)) (fst (lru_set (maxTotalBytes c) (maxEntries c) (entries c) k' (enc p)))"
    using Cons.prems x by (intro kept_set) (auto simp: cache_inv_def)
  then have "kept k b K (n + length (enc p)) (entries c1)" using ref by (metis fst_conv)
  then show ?case using Cons.IH [OF _ _ _ _ _ _ 2, of "n + length (enc p)"] Cons.prems ref x by auto
qed auto

section \<open>Properties\<close>

text \<open>
  C12: (Refinement.) From a new cache, whatever is looked up and stored: the map and the byte counter of the in-memory cache behave exactly like the
  abstract list in order of use, where storing keeps the longest run of recently used entries that leaves room for the
  new one; the counter is the sum of the sizes, and neither limit is ever exceeded.
\<close>

theorem cache_refines_lru:
  assumes "new_cache t n = Inr c0" and "run_ops (cache_op enc dec) xs c0 = (c, rs)"
  shows "run_ops (lru_op (maxTotalBytes c0) (maxEntries c0) enc dec) xs [] = (entries c, rs) \<and>
    currentBytes c = int (bytes (entries c)) \<and> bytes (entries c) \<le> maxTotalBytes c0 \<and> length (entries c) \<le> maxEntries c0 \<and>
    distinct (map fst (entries c))"
  using run_refines [OF _ assms(2)] new_cache_inv [OF assms(1)] by (auto simp: cache_inv_def)

theorem cache_refines_lru_witness:
  "\<exists>c0 c. new_cache (Some (Num 10)) (Some (Num 2)) = Inr c0 \<and>
     run_ops (cache_op id Inr) [Set ''a'' ''xx'', Set ''b'' ''yyy'', Get ''a'', Set ''c'' ''z''] c0 =
       (c, [Accepted True, Accepted True, Got (Inr (Some ''xx'')), Accepted True]) \<and>
     entries c = [(''a'', ''xx''), (''c'', ''z'')] \<and> currentBytes c = 3"
proof -
  let ?xs = "[Set ''a'' ''xx'', Set ''b'' ''yyy'', Get ''a'', Set ''c'' ''z'']"
  obtain c0 where c0: "new_cache (Some (Num 10)) (Some (Num 2)) = Inr c0" "maxTotalBytes c0 = 10" "maxEntries c0 = 2"
    by (simp add: new_cache_def assertNonNegativeInteger_def)
  obtain c rs where run: "run_ops (cache_op id Inr) ?xs c0 = (c, rs)" by force
  have "run_ops (lru_op 10 2 id Inr) ?xs [] =
      ([(''a'', ''xx''), (''c'', ''z'')], [Accepted True, Accepted True, Got (Inr (Some ''xx'')), Accepted True])"
    by (simp add: lru_set_def lru_get_def without_def fits_def)
  with cache_refines_lru [OF c0(1) run] c0 run show ?thesis by auto
qed

text \<open>
  (Functional.) A payload that was accepted is found again, decoded from what was encoded, after any number of other payloads
  have been stored under other keys, provided that together with it they are within both limits.
\<close>

theorem recent_payload_found:
  assumes "cache_inv c" and "cache_set enc c k p = (c1, True)" and "\<forall>x \<in> set xs. is_set x \<and> set_key x \<noteq> k"
    and "card (set_key ` set xs) < maxEntries c" and "length (enc p) + sum_list (map (set_bytes enc) xs) \<le> maxTotalBytes c"
    and "run_ops (cache_op enc dec) xs c1 = (c2, rs)"
  shows "snd (cache_get dec c2 k) = bind_res (dec (enc p)) (\<lambda>q. Inr (Some q))"
proof -
  note ref = cache_set_refines [OF assms(1,2)]
  have "kept k (enc p) (set_key ` set xs) 0 (entries c1)"
    using ref by (fastforce simp: kept_def lru_set_def split: if_splits)
  then obtain m where "kept k (enc p) (set_key ` set xs) m (entries c2)"
    using kept_run [of c1 k "enc p" "set_key ` set xs" 0 xs enc dec c2 rs] ref assms by auto
  moreover have "distinct (map fst (entries c2))" using run_refines [OF _ assms(6)] ref by (simp add: cache_inv_def)
  ultimately have "map_of (entries c2) k = Some (enc p)" by (auto simp: kept_def map_add_def split: option.splits dest: map_of_SomeD)
  then show ?thesis by (simp add: cache_get_def js_get_def)
qed

theorem recent_payload_found_witness:
  "\<exists>c1 c2 rs. cache_set id \<lparr>entries = [], currentBytes = 0, maxTotalBytes = 5, maxEntries = 2\<rparr> ''a'' ''xx'' = (c1, True) \<and>
     run_ops (cache_op id Inr) [Set ''b'' ''yyy''] c1 = (c2, rs) \<and> snd (cache_get Inr c2 ''a'') = Inr (Some ''xx'')"
proof -
  let ?c = "\<lparr>entries = [], currentBytes = 0, maxTotalBytes = 5, maxEntries = 2\<rparr>"
  obtain c1 where 1: "cache_set id ?c ''a'' ''xx'' = (c1, True)" by (simp add: cache_set_def Let_def evict.simps)
  obtain c2 rs where 2: "run_ops (cache_op id Inr) [Set ''b'' ''yyy''] c1 = (c2, rs)" by force
  have "cache_inv ?c" by (simp add: cache_inv_def)
  from recent_payload_found [OF this 1 _ _ _ 2] have "snd (cache_get Inr c2 ''a'') = Inr (Some ''xx'')" by simp
  with 1 2 show ?thesis by blast
qed

end
