(* ===== verification/StorageDrivers.thy ===== *)
theory StorageDrivers
  imports Encoding
begin

text \<open>
  The drivers of the external storage: the interface \<^verbatim>\<open>StorageDriver\<close> of \<^verbatim>\<open>packages/common/src/converter/extstore.ts\<close> with what its users
  rely on (\<open>drivers_ok\<close>), and the two drivers of the repository, \<^verbatim>\<open>contrib/external-storage-s3/src/driver.ts\<close> and
  \<^verbatim>\<open>contrib/external-storage-gcs/src/driver.ts\<close>. Both name an object after the hash of its bytes and check the hash when they read it.
  They differ in how a name is escaped, in the upload and in the names of the fields of a claim, so they share the
  definitions over \<open>object_driver\<close>.

  The wire format of payloads (\<open>enc\<close>, \<open>dec\<close>), the hash function of Node (\<open>sha\<close>, the bytes of the digest) and the clients of the object stores are
  parameters. The uploads of one call run concurrently; the model carries them out in the order of the payloads and
  prefers, as the source does, the errors found before the first upload can end. The texts of two messages are cut short.
\<close>

type_synonym claim = "(string \<times> string) list"

section \<open>Names of objects\<close>

record storage_target =
  tg_workflow :: bool
  tg_namespace :: string
  tg_id :: "string option"
  tg_runId :: "string option"
  tg_type :: "string option"

definition hex_char :: "bool \<Rightarrow> nat \<Rightarrow> char" where
  "hex_char upper n = (if n < 10 then char_of (48 + n) else char_of ((if upper then 55 else 87) + n))"

definition hex_byte :: "bool \<Rightarrow> nat \<Rightarrow> string" where
  "hex_byte upper b = [hex_char upper (b div 16), hex_char upper (b mod 16)]"

definition percentEncodeChar :: "char \<Rightarrow> string" where
  "percentEncodeChar c = concat (map (\<lambda>b. CHR ''%'' # hex_byte True b) (utf8 (of_char c)))"

definition uri_unreserved :: string where
  "uri_unreserved = ''ABCDEFGHIJKLMNOPQRSTUVWXYZabcdefghijklmnopqrstuvwxyz0123456789-_.!~*'' @ [CHR 0x27] @ ''()''"

definition encodeURIComponent :: "string \<Rightarrow> string" where
  "encodeURIComponent s = concat (map (\<lambda>c. if c \<in> set uri_unreserved then [c] else percentEncodeChar c) s)"

definition NULL_SEGMENT :: string where "NULL_SEGMENT = ''null''"

definition encodeKeySegment :: "string option \<Rightarrow> string" where
  "encodeKeySegment v = (case v of
     None \<Rightarrow> NULL_SEGMENT
   | Some s \<Rightarrow> if s = [] then NULL_SEGMENT
              else concat (map (\<lambda>c. if c = CHR ''~'' then ''%7E'' else [c]) (encodeURIComponent s)))"

definition gcs_unsafe :: "char \<Rightarrow> bool" where
  "gcs_unsafe c \<longleftrightarrow> (let n = of_char c :: nat in n \<le> 31 \<or> 127 \<le> n \<and> n \<le> 159) \<or> c \<in> set (''#[]*?:'' @ [CHR 0x22] @ ''<>|/%'')"

definition encodeObjectNameSegment :: "string option \<Rightarrow> string" where
  "encodeObjectNameSegment v = (case v of
     None \<Rightarrow> NULL_SEGMENT
   | Some s \<Rightarrow> if s = [] then NULL_SEGMENT
              else let e = concat (map (\<lambda>c. if gcs_unsafe c then percentEncodeChar c else [c]) s)
                   in if e = ''.'' then ''%2E'' else if e = ''..'' then ''%2E%2E'' else e)"

definition buildContextSegments :: "(string option \<Rightarrow> string) \<Rightarrow> storage_target option \<Rightarrow> string" where
  "buildContextSegments seg t = (case t of
     None \<Rightarrow> []
   | Some x \<Rightarrow>
       ''/ns/'' @ seg (Some (tg_namespace x)) @ (if tg_workflow x then ''/wt/'' else ''/at/'') @ seg (tg_type x) @
       (if tg_workflow x then ''/wi/'' else ''/ai/'') @ seg (tg_id x) @ ''/ri/'' @ seg (tg_runId x))"

definition hexdigest :: "(string \<Rightarrow> nat list) \<Rightarrow> string \<Rightarrow> string" where
  "hexdigest sha b = concat (map (hex_byte False) (sha b))"

section \<open>The drivers\<close>

record ('o, 'p) object_driver =
  od_class :: string
  od_name :: string
  od_field :: string
  od_fields :: "string list"
  od_bucket :: "'p \<Rightarrow> js_error + string"
  od_maxPayloadSize :: rat
  od_segments :: string
  od_upload :: "'o \<Rightarrow> string \<Rightarrow> string \<Rightarrow> string \<Rightarrow> 'o \<times> (js_error + unit)"
  od_download :: "'o \<Rightarrow> string \<Rightarrow> string \<Rightarrow> js_error + string"
  od_describe :: string

abbreviation error_with_cause :: "string \<Rightarrow> js_error \<Rightarrow> js_error" where
  "error_with_cause m e \<equiv> OtherError [Error_class] m [] (Some e)"

definition at_object :: "('o, 'p) object_driver \<Rightarrow> string \<Rightarrow> string \<Rightarrow> string \<Rightarrow> string \<Rightarrow> string" where
  "at_object od what bucket key rest = od_class od @ '' '' @ what @ '' [bucket='' @ bucket @ '', '' @ hd (rev (od_fields od)) @ ''='' @ key @ rest"

record upload =
  up_bucket :: string
  up_key :: string
  up_bytes :: string
  up_hash :: string

text \<open>The part of \<^verbatim>\<open>storePayload\<close> before the upload.\<close>

definition prepare :: "('p \<Rightarrow> string) \<Rightarrow> (string \<Rightarrow> nat list) \<Rightarrow> ('o, 'p) object_driver \<Rightarrow> 'p \<Rightarrow> js_error + upload" where
  "prepare enc sha od p =
     bind_res (od_bucket od p) (\<lambda>bucket.
       let b = enc p; h = hexdigest sha b in
       if od_maxPayloadSize od < of_nat (length b)
       then Inl (ValueError (''Payload size '' @ nat_to_string (length b) @ '' bytes exceeds the configured maxPayloadSize''))
       else Inr \<lparr>up_bucket = bucket, up_key = ''v0'' @ od_segments od @ ''/d/sha256/'' @ h, up_bytes = b, up_hash = h\<rparr>)"

definition claim_of :: "('o, 'p) object_driver \<Rightarrow> upload \<Rightarrow> claim" where
  "claim_of od u = [(''bucket'', up_bucket u), (od_field od, up_key u), (''hash_algorithm'', ''sha256''), (''hash_value'', up_hash u)]"

text \<open>The uploads of a call; one that was made before for the same object is not made again.\<close>

fun upload_each :: "('o, 'p) object_driver \<Rightarrow> (string \<times> (js_error + unit)) list \<Rightarrow> (js_error + upload) list \<Rightarrow> 'o \<Rightarrow> 'o \<times> (js_error + claim) list" where
  "upload_each od made [] w = (w, [])"
| "upload_each od made (Inl e # us) w = (case upload_each od made us w of (w', rs) \<Rightarrow> (w', Inl e # rs))"
| "upload_each od made (Inr u # us) w =
     (let dedupeKey = up_bucket u @ '' '' @ up_key u in
      case (case map_of made dedupeKey of Some r \<Rightarrow> (w, r) | None \<Rightarrow> od_upload od w (up_bucket u) (up_key u) (up_bytes u)) of
        (w1, r) \<Rightarrow> (case upload_each od ((dedupeKey, r) # made) us w1 of
          (w', rs) \<Rightarrow> (w', (case r of
             Inl e \<Rightarrow> Inl (error_with_cause (at_object od ''store failed'' (up_bucket u) (up_key u) (od_describe od @ '']'')) e)
           | Inr _ \<Rightarrow> Inr (claim_of od u)) # rs)))"

definition driver_store :: "('p \<Rightarrow> string) \<Rightarrow> (string \<Rightarrow> nat list) \<Rightarrow> ('o, 'p) object_driver \<Rightarrow> 'o \<Rightarrow> 'p list \<Rightarrow> 'o \<times> (js_error + claim list)" where
  "driver_store enc sha od w ps =
     (let us = map (prepare enc sha od) ps in
      case upload_each od [] us w of (w', rs) \<Rightarrow> (w', bind_res (map_res id us) (\<lambda>_. map_res id rs)))"

definition first_field :: "claim \<Rightarrow> string list \<Rightarrow> string" where
  "first_field c fs = (case List.find (\<lambda>f. map_of c f \<noteq> None) fs of None \<Rightarrow> [] | Some f \<Rightarrow> the (map_of c f))"

definition retrievePayload ::
  "(string \<Rightarrow> js_error + 'p) \<Rightarrow> (string \<Rightarrow> nat list) \<Rightarrow> ('o, 'p) object_driver \<Rightarrow> 'o \<Rightarrow> claim \<Rightarrow> js_error + 'p" where
  "retrievePayload dec sha od w c =
     (let bucket = first_field c [''bucket'']; key = first_field c (od_fields od);
          alg = first_field c [''hash_algorithm'', ''hashAlgorithm'']; expected = first_field c [''hash_value'', ''hashValue''] in
      if bucket = [] \<or> key = [] then Inl (ValueError (od_class od @ '' claim is missing required location information''))
      else if alg = [] \<or> expected = [] then Inl (ValueError (at_object od ''claim is missing required content hash information'' bucket key '']''))
      else if alg \<noteq> ''sha256'' then Inl (ValueError (at_object od ''unsupported hash algorithm'' bucket key ('']: expected sha256, got '' @ alg)))
      else case od_download od w bucket key of
             Inl e \<Rightarrow> Inl (error_with_cause (at_object od ''retrieve failed'' bucket key (od_describe od @ '']'')) e)
           | Inr b \<Rightarrow> if hexdigest sha b \<noteq> expected then Inl (ValueError (at_object od ''integrity check failed'' bucket key ('']: expected '' @ alg @ '':'' @ expected @ '', got '' @ alg @ '':'' @ hexdigest sha b)))
                     else dec b)"

definition driver_retrieve ::
  "(string \<Rightarrow> js_error + 'p) \<Rightarrow> (string \<Rightarrow> nat list) \<Rightarrow> ('o, 'p) object_driver \<Rightarrow> 'o \<Rightarrow> claim list \<Rightarrow> js_error + 'p list" where
  "driver_retrieve dec sha od w cs = map_res (retrievePayload dec sha od w) cs"

text \<open>The clients, and the drivers made from them.\<close>

record 'o s3_client =
  putObject :: "'o \<Rightarrow> string \<Rightarrow> string \<Rightarrow> string \<Rightarrow> 'o \<times> (js_error + unit)"
  objectExists :: "'o \<Rightarrow> string \<Rightarrow> string \<Rightarrow> js_error + bool"
  getObject :: "'o \<Rightarrow> string \<Rightarrow> string \<Rightarrow> js_error + string"
  s3_describe :: string

definition uploadIfAbsent :: "'o s3_client \<Rightarrow> 'o \<Rightarrow> string \<Rightarrow> string \<Rightarrow> string \<Rightarrow> 'o \<times> (js_error + unit)" where
  "uploadIfAbsent cl w bucket key b = (case objectExists cl w bucket key of
     Inl e \<Rightarrow> (w, Inl e)
   | Inr True \<Rightarrow> (w, Inr ())
   | Inr False \<Rightarrow> putObject cl w bucket key b)"

definition check_max :: "jsnum option \<Rightarrow> js_error + rat" where
  "check_max v = (case v of
     None \<Rightarrow> Inr (50 * 1024 * 1024)
   | Some (Num x) \<Rightarrow> if x \<le> 0 then Inl (ValueError ''maxPayloadSize must be a positive finite number'') else Inr x
   | _ \<Rightarrow> Inl (ValueError ''maxPayloadSize must be a positive finite number''))"

definition S3StorageDriver ::
  "'o s3_client \<Rightarrow> ('p \<Rightarrow> js_error + string) \<Rightarrow> string option \<Rightarrow> jsnum option \<Rightarrow> storage_target option \<Rightarrow> js_error + ('o, 'p) object_driver" where
  "S3StorageDriver cl bucket name maxSize t =
     bind_res (check_max maxSize) (\<lambda>mx. Inr
       \<lparr>od_class = ''S3StorageDriver'', od_name = (case name of None \<Rightarrow> ''aws.s3driver'' | Some n \<Rightarrow> n), od_field = ''key'', od_fields = [''key''],
        od_bucket = bucket, od_maxPayloadSize = mx, od_segments = buildContextSegments encodeKeySegment t,
        od_upload = uploadIfAbsent cl, od_download = getObject cl, od_describe = s3_describe cl\<rparr>)"

record 'o gcs_client =
  save :: "'o \<Rightarrow> string \<Rightarrow> string \<Rightarrow> string \<Rightarrow> 'o \<times> (js_error + unit)"
  download :: "'o \<Rightarrow> string \<Rightarrow> string \<Rightarrow> js_error + string"
  gcs_describe :: string

definition GcsStorageDriver ::
  "'o gcs_client \<Rightarrow> ('p \<Rightarrow> js_error + string) \<Rightarrow> string option \<Rightarrow> jsnum option \<Rightarrow> storage_target option \<Rightarrow> js_error + ('o, 'p) object_driver" where
  "GcsStorageDriver cl bucket name maxSize t =
     bind_res (check_max maxSize) (\<lambda>mx. Inr
       \<lparr>od_class = ''GcsStorageDriver'', od_name = (case name of None \<Rightarrow> ''gcp.gcsdriver'' | Some n \<Rightarrow> n), od_field = ''object_name'', od_fields = [''object_name'', ''object''],
        od_bucket = bucket, od_maxPayloadSize = mx, od_segments = buildContextSegments encodeObjectNameSegment t,
        od_upload = save cl, od_download = download cl, od_describe = gcs_describe cl\<rparr>)"

section \<open>What the users of a driver rely on\<close>

text \<open>
  \<open>view\<close> is what the object store holds. An upload that succeeds leaves an object under the key: the one that was there or the new one;
  one that fails may have taken effect or not; a download gives what is there or fails.
\<close>

definition store_ok ::
  "('o \<Rightarrow> string \<times> string \<rightharpoonup> string) \<Rightarrow> ('o \<Rightarrow> string \<Rightarrow> string \<Rightarrow> string \<Rightarrow> 'o \<times> (js_error + unit)) \<Rightarrow>
   ('o \<Rightarrow> string \<Rightarrow> string \<Rightarrow> js_error + string) \<Rightarrow> bool" where
  "store_ok view up down \<longleftrightarrow>
     (\<forall>w bu k b w' r. up w bu k b = (w', r) \<longrightarrow> (view w' = view w \<and> (r = Inr () \<longrightarrow> view w (bu, k) \<noteq> None)) \<or> view w' = (view w)((bu, k) \<mapsto> b)) \<and>
     (\<forall>w bu k b. down w bu k = Inr b \<longrightarrow> view w (bu, k) = Some b)"

definition s3_client_ok :: "('o \<Rightarrow> string \<times> string \<rightharpoonup> string) \<Rightarrow> 'o s3_client \<Rightarrow> bool" where
  "s3_client_ok view cl \<longleftrightarrow>
     (\<forall>w bu k b w' r. putObject cl w bu k b = (w', r) \<longrightarrow> r \<noteq> Inr () \<and> view w' = view w \<or> view w' = (view w)((bu, k) \<mapsto> b)) \<and>
     (\<forall>w bu k e. objectExists cl w bu k = Inr e \<longrightarrow> e = (view w (bu, k) \<noteq> None)) \<and>
     (\<forall>w bu k b. getObject cl w bu k = Inr b \<longrightarrow> view w (bu, k) = Some b)"

lemma s3_store_ok: "s3_client_ok view cl \<Longrightarrow> store_ok view (uploadIfAbsent cl) (getObject cl)"
  unfolding s3_client_ok_def store_ok_def uploadIfAbsent_def
  by (auto split: sum.splits bool.splits) (metis prod.exhaust)+

definition gcs_client_ok :: "('o \<Rightarrow> string \<times> string \<rightharpoonup> string) \<Rightarrow> 'o gcs_client \<Rightarrow> bool" where
  "gcs_client_ok view cl \<longleftrightarrow>
     (\<forall>w bu k b w' r. save cl w bu k b = (w', r) \<longrightarrow> r \<noteq> Inr () \<and> view w' = view w \<or> view w' = (view w)((bu, k) \<mapsto> b)) \<and>
     (\<forall>w bu k b. download cl w bu k = Inr b \<longrightarrow> view w (bu, k) = Some b)"

lemma gcs_store_ok: "gcs_client_ok view cl \<Longrightarrow> store_ok view (save cl) (download cl)"
  unfolding gcs_client_ok_def store_ok_def by blast

text \<open>The last part of the name of an object is the hash of its bytes.\<close>

definition last_segment :: "string \<Rightarrow> string" where
  "last_segment k = rev (takeWhile (\<lambda>c. c \<noteq> CHR ''/'') (rev k))"

lemma last_segment_append: "CHR ''/'' \<notin> set h \<Longrightarrow> last_segment (p @ ''/'' @ h) = h"
proof -
  assume "CHR ''/'' \<notin> set h"
  then have "takeWhile (\<lambda>c. c \<noteq> CHR ''/'') (rev h @ CHR ''/'' # rev p) = rev h" by (subst takeWhile_append2) auto
  then show ?thesis by (simp add: last_segment_def)
qed

definition content_addressed :: "('o \<Rightarrow> string \<times> string \<rightharpoonup> string) \<Rightarrow> (string \<Rightarrow> nat list) \<Rightarrow> 'o \<Rightarrow> bool" where
  "content_addressed view sha w \<longleftrightarrow>
     (\<forall>bu k b. view w (bu, k) = Some b \<and> (\<exists>p. k = p @ ''/d/sha256/'' @ last_segment k) \<longrightarrow> last_segment k = hexdigest sha b)"

definition no_collision :: "(string \<Rightarrow> nat list) \<Rightarrow> string \<Rightarrow> bool" where
  "no_collision sha b \<longleftrightarrow> (\<forall>b'. hexdigest sha b' = hexdigest sha b \<longrightarrow> b' = b)"

definition storable :: "('p \<Rightarrow> string) \<Rightarrow> (string \<Rightarrow> js_error + 'p) \<Rightarrow> (string \<Rightarrow> nat list) \<Rightarrow> ('o, 'p) object_driver \<Rightarrow> 'p \<Rightarrow> bool" where
  "storable enc dec sha od p \<longleftrightarrow> dec (enc p) = Inr p \<and> no_collision sha (enc p) \<and> sha (enc p) \<noteq> [] \<and> (\<forall>n \<in> set (sha (enc p)). n < 256) \<and> od_bucket od p \<noteq> Inr []"

definition holds ::
  "('o \<Rightarrow> string \<times> string \<rightharpoonup> string) \<Rightarrow> (string \<Rightarrow> js_error + 'p) \<Rightarrow> (string \<Rightarrow> nat list) \<Rightarrow> ('o, 'p) object_driver \<Rightarrow> 'o \<Rightarrow> claim \<Rightarrow> 'p \<Rightarrow> bool" where
  "holds view dec sha od w c p \<longleftrightarrow>
     (\<exists>u. c = claim_of od u \<and> up_bucket u \<noteq> [] \<and> up_hash u = hexdigest sha (up_bytes u) \<and> up_hash u \<noteq> [] \<and> up_key u \<noteq> [] \<and>
        last_segment (up_key u) = up_hash u \<and> view w (up_bucket u, up_key u) = Some (up_bytes u) \<and>
        dec (up_bytes u) = Inr p \<and> no_collision sha (up_bytes u))"

section \<open>Storing and reading\<close>

lemma hex_char_no_slash: "d < 16 \<Longrightarrow> hex_char False d \<noteq> CHR ''/''"
  by (auto simp: hex_char_def dest!: arg_cong [where f = "of_char :: char \<Rightarrow> nat"])

lemma hex_byte_no_slash: "n < 256 \<Longrightarrow> CHR ''/'' \<notin> set (hex_byte False n)"
  using hex_char_no_slash [of "n div 16"] hex_char_no_slash [of "n mod 16"] less_mult_imp_div_less [of n 16 16]
  by (auto simp: hex_byte_def)

lemma hexdigest_no_slash: "\<forall>n \<in> set (sha b). n < 256 \<Longrightarrow> CHR ''/'' \<notin> set (hexdigest sha b)"
  by (auto simp: hexdigest_def dest: hex_byte_no_slash)

text \<open>An upload as \<open>prepare\<close> makes it.\<close>

definition good :: "(string \<Rightarrow> nat list) \<Rightarrow> ('o, 'p) object_driver \<Rightarrow> upload \<Rightarrow> bool" where
  "good sha od u \<longleftrightarrow> up_bucket u \<noteq> [] \<and> up_hash u = hexdigest sha (up_bytes u) \<and> hexdigest sha (up_bytes u) \<noteq> [] \<and> CHR ''/'' \<notin> set (hexdigest sha (up_bytes u)) \<and>
     no_collision sha (up_bytes u) \<and> up_key u = ''v0'' @ od_segments od @ ''/d/sha256/'' @ up_hash u"

lemma good_segment:
  assumes "good sha od u"
  shows "last_segment (up_key u) = up_hash u"
proof -
  have "CHR ''/'' \<notin> set (up_hash u)" and k: "up_key u = (''v0'' @ od_segments od @ ''/d/sha256'') @ ''/'' @ up_hash u"
    using assms by (simp_all add: good_def)
  then show ?thesis unfolding k by (intro last_segment_append)
qed

lemma good_prepare:
  assumes "prepare enc sha od p = Inr u" and "storable enc dec sha od p"
  shows "good sha od u \<and> up_bytes u = enc p"
  using assms hexdigest_no_slash [of sha "enc p"]
  by (auto simp: prepare_def good_def storable_def bind_res_Inr_iff Let_def hexdigest_def hex_byte_def split: if_splits)

lemma same_object:
  assumes "good sha od u" and "good sha od v" and "up_bucket u @ '' '' @ up_key u = up_bucket v @ '' '' @ up_key v"
  shows "up_bucket u = up_bucket v \<and> up_key u = up_key v \<and> up_bytes u = up_bytes v"
proof -
  have seg: "last_segment (up_bucket x @ '' '' @ up_key x) = up_hash x" if "good sha od x" for x
  proof -
    have n: "CHR ''/'' \<notin> set (up_hash x)" and k: "up_bucket x @ '' '' @ up_key x = (up_bucket x @ '' v0'' @ od_segments od @ ''/d/sha256'') @ ''/'' @ up_hash x"
      using that by (simp_all add: good_def)
    show ?thesis unfolding k by (rule last_segment_append [OF n])
  qed
  have "up_hash u = up_hash v" using seg [OF assms(1)] seg [OF assms(2)] assms(3) by simp
  with assms show ?thesis by (auto simp: good_def no_collision_def)
qed

text \<open>Objects named by the hash of their bytes stay as they are.\<close>

definition kept :: "('o \<Rightarrow> string \<times> string \<rightharpoonup> string) \<Rightarrow> (string \<Rightarrow> nat list) \<Rightarrow> 'o \<Rightarrow> 'o \<Rightarrow> bool" where
  "kept view sha w w' \<longleftrightarrow> (\<forall>bu k b. view w (bu, k) = Some b \<and> last_segment k = hexdigest sha b \<and> no_collision sha b \<longrightarrow> view w' (bu, k) = Some b)"

lemma kept_refl: "kept view sha w w"
  by (simp add: kept_def)

lemma kept_trans: "kept view sha w w' \<Longrightarrow> kept view sha w' w'' \<Longrightarrow> kept view sha w w''"
  by (simp add: kept_def)

lemma upload_good:
  assumes ok: "store_ok view (od_upload od) dn" and ca: "content_addressed view sha w" and g: "good sha od u"
    and up: "od_upload od w (up_bucket u) (up_key u) (up_bytes u) = (w', r)"
  shows "content_addressed view sha w' \<and> kept view sha w w' \<and> (r = Inr () \<longrightarrow> view w' (up_bucket u, up_key u) = Some (up_bytes u))"
proof -
  have seg: "last_segment (up_key u) = hexdigest sha (up_bytes u)" using good_segment [OF g] g by (simp add: good_def)
  have key: "\<exists>p. up_key u = p @ ''/d/sha256/'' @ last_segment (up_key u)"
    using good_segment [OF g] g by (auto simp: good_def intro: exI [of _ "''v0'' @ od_segments od"])
  from ok up consider (same) "view w' = view w" "r = Inr () \<longrightarrow> view w (up_bucket u, up_key u) \<noteq> None"
    | (new) "view w' = (view w)((up_bucket u, up_key u) \<mapsto> up_bytes u)" unfolding store_ok_def by blast
  then show ?thesis
  proof cases
    case same
    have "view w (up_bucket u, up_key u) = Some (up_bytes u)" if r: "r = Inr ()"
    proof -
      obtain b where b: "view w (up_bucket u, up_key u) = Some b" using same(2) r by auto
      then have "hexdigest sha b = hexdigest sha (up_bytes u)" using ca key seg unfolding content_addressed_def by metis
      with g b show ?thesis by (auto simp: good_def no_collision_def)
    qed
    with same ca show ?thesis by (auto simp: content_addressed_def kept_def)
  next
    case new
    with ca seg show ?thesis by (auto simp: content_addressed_def kept_def no_collision_def)
  qed
qed

definition made_ok :: "('o \<Rightarrow> string \<times> string \<rightharpoonup> string) \<Rightarrow> (string \<Rightarrow> nat list) \<Rightarrow> ('o, 'p) object_driver \<Rightarrow> (string \<times> (js_error + unit)) list \<Rightarrow> 'o \<Rightarrow> bool" where
  "made_ok view sha od made w \<longleftrightarrow>
     (\<forall>dk. (dk, Inr ()) \<in> set made \<longrightarrow> (\<exists>u. good sha od u \<and> dk = up_bucket u @ '' '' @ up_key u \<and> view w (up_bucket u, up_key u) = Some (up_bytes u)))"

lemma made_ok_kept: "made_ok view sha od made w \<Longrightarrow> kept view sha w w' \<Longrightarrow> made_ok view sha od made w'"
  unfolding made_ok_def
proof (intro allI impI)
  fix dk
  assume made: "\<forall>dk. (dk, Inr ()) \<in> set made \<longrightarrow>
      (\<exists>u. good sha od u \<and> dk = up_bucket u @ '' '' @ up_key u \<and> view w (up_bucket u, up_key u) = Some (up_bytes u))"
    and k: "kept view sha w w'" and "(dk, Inr ()) \<in> set made"
  then obtain u where u: "good sha od u" "dk = up_bucket u @ '' '' @ up_key u" "view w (up_bucket u, up_key u) = Some (up_bytes u)" by blast
  then have "last_segment (up_key u) = hexdigest sha (up_bytes u)" "no_collision sha (up_bytes u)"
    using good_segment [OF u(1)] by (simp_all add: good_def)
  then have "view w' (up_bucket u, up_key u) = Some (up_bytes u)" using k u(3) by (simp add: kept_def)
  with u show "\<exists>u. good sha od u \<and> dk = up_bucket u @ '' '' @ up_key u \<and> view w' (up_bucket u, up_key u) = Some (up_bytes u)" by blast
qed

lemma upload_each_spec:
  assumes "store_ok view (od_upload od) dn" and "content_addressed view sha w" and "\<forall>u. Inr u \<in> set us \<longrightarrow> good sha od u"
    and "made_ok view sha od made w" and "upload_each od made us w = (w', rs)"
  shows "content_addressed view sha w' \<and> kept view sha w w' \<and>
    list_all2 (\<lambda>x r. \<forall>c. r = Inr c \<longrightarrow> (\<exists>u. x = Inr u \<and> c = claim_of od u \<and> view w' (up_bucket u, up_key u) = Some (up_bytes u))) us rs"
  using assms
proof (induction od made us w arbitrary: rs rule: upload_each.induct)
  case (1 od made w)
  then show ?case by (simp add: kept_refl)
next
  case (2 od made e us w)
  obtain rs1 where "upload_each od made us w = (w', rs1)" "rs = Inl e # rs1" using "2.prems"(5) by (auto split: prod.splits)
  with "2.IH" [of rs1] "2.prems" show ?case by simp
next
  case (3 od made u us w)
  let ?dk = "up_bucket u @ '' '' @ up_key u"
  have g: "good sha od u" using "3.prems"(3) by simp
  obtain w1 r where 1: "(case map_of made ?dk of Some r \<Rightarrow> (w, r) | None \<Rightarrow> od_upload od w (up_bucket u) (up_key u) (up_bytes u)) = (w1, r)" by force
  obtain rs1 where 2: "upload_each od ((?dk, r) # made) us w1 = (w', rs1)" and
    rs: "rs = (case r of Inl e \<Rightarrow> Inl (error_with_cause (at_object od ''store failed'' (up_bucket u) (up_key u) (od_describe od @ '']'')) e) | Inr _ \<Rightarrow> Inr (claim_of od u)) # rs1"
    using "3.prems"(5) 1 by (auto simp: Let_def split: prod.splits)
  have 3: "content_addressed view sha w1 \<and> kept view sha w w1 \<and> (r = Inr () \<longrightarrow> view w1 (up_bucket u, up_key u) = Some (up_bytes u))"
  proof (cases "map_of made ?dk")
    case None
    with 1 show ?thesis using upload_good [OF "3.prems"(1,2) g] by simp
  next
    case (Some x)
    with 1 have x: "w1 = w" "r = x" by auto
    have "view w (up_bucket u, up_key u) = Some (up_bytes u)" if "x = Inr ()"
    proof -
      from Some that have "(?dk, Inr ()) \<in> set made" by (auto dest: map_of_SomeD)
      then obtain v where v: "good sha od v" "?dk = up_bucket v @ '' '' @ up_key v" "view w (up_bucket v, up_key v) = Some (up_bytes v)"
        using "3.prems"(4) unfolding made_ok_def by blast
      with same_object [OF g v(1)] show ?thesis by simp
    qed
    with x "3.prems"(2) show ?thesis by (simp add: kept_refl)
  qed
  have m: "made_ok view sha od ((?dk, r) # made) w1"
    using made_ok_kept [OF "3.prems"(4)] 3 g unfolding made_ok_def by auto
  have ih: "content_addressed view sha w' \<and> kept view sha w1 w' \<and>
    list_all2 (\<lambda>x r. \<forall>c. r = Inr c \<longrightarrow> (\<exists>u. x = Inr u \<and> c = claim_of od u \<and> view w' (up_bucket u, up_key u) = Some (up_bytes u))) us rs1"
    using "3.IH" [OF refl 1 [symmetric] "3.prems"(1) _ _ m 2] 3 "3.prems"(3) by simp
  have "view w' (up_bucket u, up_key u) = Some (up_bytes u)" if "r = Inr ()"
    using 3 ih that good_segment [OF g] g by (auto simp: kept_def good_def)
  with 3 ih show ?case by (auto simp: rs intro: kept_trans split: sum.splits)
qed

lemma map_res_id_Inr: "map_res id xs = Inr ys \<Longrightarrow> xs = map Inr ys"
  by (induction xs arbitrary: ys) (auto simp: bind_res_Inr_iff)

lemma holds_kept:
  assumes "kept view sha w w'" and "holds view dec sha od w c p"
  shows "holds view dec sha od w' c p"
  using assms unfolding holds_def kept_def by metis

lemma store_claims:
  assumes "store_ok view (od_upload od) (od_download od)" and "content_addressed view sha w" and "\<forall>p \<in> set ps. storable enc dec sha od p"
    and "driver_store enc sha od w ps = (w', r)"
  shows "content_addressed view sha w' \<and> kept view sha w w' \<and> (\<forall>cs. r = Inr cs \<longrightarrow> list_all2 (holds view dec sha od w') cs ps)"
proof -
  let ?us = "map (prepare enc sha od) ps"
  obtain rs where 1: "upload_each od [] ?us w = (w', rs)" and r: "r = bind_res (map_res id ?us) (\<lambda>_. map_res id rs)"
    using assms(4) by (auto simp: driver_store_def Let_def split: prod.splits)
  have good: "\<forall>u. Inr u \<in> set ?us \<longrightarrow> good sha od u"
    using assms(3) good_prepare [of enc sha od] by (auto simp: image_iff)
  have "made_ok view sha od [] w" by (simp add: made_ok_def)
  note spec = upload_each_spec [OF assms(1,2) good this 1]
  have "list_all2 (holds view dec sha od w') cs ps" if cs: "r = Inr cs" for cs
  proof -
    obtain us' where us': "map_res id ?us = Inr us'" and rs: "map_res id rs = Inr cs" using cs r by (auto simp: bind_res_Inr_iff)
    have rs': "rs = map Inr cs" by (rule map_res_id_Inr [OF rs])
    show ?thesis unfolding list_all2_conv_all_nth
    proof (intro conjI allI impI)
      show len: "length cs = length ps" using spec rs' by (auto dest: list_all2_lengthD)
      fix i assume i: "i < length cs"
      then obtain u where u: "prepare enc sha od (ps ! i) = Inr u" "cs ! i = claim_of od u" "view w' (up_bucket u, up_key u) = Some (up_bytes u)"
        using spec rs' len by (auto simp: list_all2_conv_all_nth)
      have st: "storable enc dec sha od (ps ! i)" using assms(3) i len by simp
      have g: "good sha od u" "up_bytes u = enc (ps ! i)" using good_prepare [OF u(1) st] by simp_all
      show "holds view dec sha od w' (cs ! i) (ps ! i)"
        unfolding holds_def
        using u(2,3) g st good_segment [OF g(1)] by (intro exI [of _ u]) (simp add: good_def storable_def)
    qed
  qed
  with spec show ?thesis by blast
qed

definition fields_ok :: "('o, 'p) object_driver \<Rightarrow> bool" where
  "fields_ok od \<longleftrightarrow> od_fields od \<noteq> [] \<and> hd (od_fields od) = od_field od \<and> od_field od \<notin> {''bucket'', ''hash_algorithm'', ''hash_value''}"

lemma claim_fields:
  assumes "fields_ok od"
  shows "first_field (claim_of od u) [''bucket''] = up_bucket u \<and> first_field (claim_of od u) (od_fields od) = up_key u \<and>
    first_field (claim_of od u) [''hash_algorithm'', ''hashAlgorithm''] = ''sha256'' \<and>
    first_field (claim_of od u) [''hash_value'', ''hashValue''] = up_hash u"
proof -
  obtain fs where "od_fields od = od_field od # fs" using assms by (cases "od_fields od") (auto simp: fields_ok_def)
  then show ?thesis using assms by (auto simp: claim_of_def first_field_def fields_ok_def)
qed

lemma retrieve_held:
  assumes "store_ok view (od_upload od) (od_download od)" and "fields_ok od" and "holds view dec sha od w c p" and "retrievePayload dec sha od w c = Inr q"
  shows "q = p"
proof -
  obtain u where u: "c = claim_of od u" "up_bucket u \<noteq> []" "up_key u \<noteq> []" "up_hash u \<noteq> []" "up_hash u = hexdigest sha (up_bytes u)"
    "view w (up_bucket u, up_key u) = Some (up_bytes u)" "dec (up_bytes u) = Inr p"
    using assms(3) by (auto simp: holds_def)
  obtain b where b: "od_download od w (up_bucket u) (up_key u) = Inr b" "dec b = Inr q"
    using assms(4) u(2-4) claim_fields [OF assms(2), of u]
    by (auto simp: retrievePayload_def u(1) Let_def split: sum.splits if_splits)
  have "b = up_bytes u" using assms(1) b(1) u(6) by (auto simp: store_ok_def)
  with b(2) u(7) show ?thesis by simp
qed

section \<open>The interface of a driver\<close>

record ('o, 'p) driver =
  dr_name :: string
  dr_store :: "'o \<Rightarrow> 'p list \<Rightarrow> 'o \<times> (js_error + claim list)"
  dr_retrieve :: "'o \<Rightarrow> claim list \<Rightarrow> js_error + 'p list"

definition as_driver :: "('p \<Rightarrow> string) \<Rightarrow> (string \<Rightarrow> js_error + 'p) \<Rightarrow> (string \<Rightarrow> nat list) \<Rightarrow> ('o, 'p) object_driver \<Rightarrow> ('o, 'p) driver" where
  "as_driver enc dec sha od = \<lparr>dr_name = od_name od, dr_store = driver_store enc sha od, dr_retrieve = driver_retrieve dec sha od\<rparr>"

text \<open>
  \<open>H w c p\<close>: in the world \<open>w\<close> the claim \<open>c\<close> stands for the payload \<open>p\<close>. Storing returns claims for the payloads; reading claims returns what they stand for or
  fails.
\<close>

definition driver_ok :: "('o \<Rightarrow> claim \<Rightarrow> 'p \<Rightarrow> bool) \<Rightarrow> ('o \<Rightarrow> bool) \<Rightarrow> ('p \<Rightarrow> bool) \<Rightarrow> ('o, 'p) driver \<Rightarrow> bool" where
  "driver_ok H V ok d \<longleftrightarrow>
     (\<forall>w ps w' r. V w \<and> (\<forall>p \<in> set ps. ok p) \<and> dr_store d w ps = (w', r) \<longrightarrow> V w' \<and> (\<forall>cs. r = Inr cs \<longrightarrow> list_all2 (H w') cs ps)) \<and>
     (\<forall>w cs ps qs. list_all2 (H w) cs ps \<and> dr_retrieve d w cs = Inr qs \<longrightarrow> qs = ps)"

lemma driver_ok_retrieve:
  "driver_ok H V ok d \<Longrightarrow> list_all2 (H w) cs ps \<Longrightarrow> dr_retrieve d w cs = Inr qs \<Longrightarrow> qs = ps"
  by (simp add: driver_ok_def)

text \<open>Storing with one driver leaves the claims of another as they are.\<close>

definition driver_keeps :: "('o \<Rightarrow> claim \<Rightarrow> 'p \<Rightarrow> bool) \<Rightarrow> ('o \<Rightarrow> bool) \<Rightarrow> ('p \<Rightarrow> bool) \<Rightarrow> ('o, 'p) driver \<Rightarrow> bool" where
  "driver_keeps H V ok d \<longleftrightarrow>
     (\<forall>w ps w' r c p. V w \<and> (\<forall>p \<in> set ps. ok p) \<and> dr_store d w ps = (w', r) \<and> H w c p \<longrightarrow> H w' c p)"

lemma map_res_retrieve:
  assumes "list_all2 (\<lambda>c p. \<forall>q. f c = Inr q \<longrightarrow> q = p) cs ps" and "map_res f cs = Inr qs"
  shows "qs = ps"
  using assms by (induction cs ps arbitrary: qs rule: list_all2_induct) (auto simp: bind_res_Inr_iff)

lemma retrieve_all_held:
  assumes "store_ok view (od_upload od) (od_download od)" and "fields_ok od"
    and "list_all2 (holds view dec sha od w) cs ps" and "driver_retrieve dec sha od w cs = Inr qs"
  shows "qs = ps"
proof (rule map_res_retrieve)
  show "list_all2 (\<lambda>c p. \<forall>q. retrievePayload dec sha od w c = Inr q \<longrightarrow> q = p) cs ps"
    using assms(3) by (rule list_all2_mono) (auto intro: retrieve_held [OF assms(1,2)])
  show "map_res (retrievePayload dec sha od w) cs = Inr qs" using assms(4) by (simp add: driver_retrieve_def)
qed

lemma object_driver_ok:
  assumes "store_ok view (od_upload od) (od_download od)" and "fields_ok od"
  shows "driver_ok (holds view dec sha od) (content_addressed view sha) (storable enc dec sha od) (as_driver enc dec sha od)"
  unfolding driver_ok_def as_driver_def driver.select_convs
proof (rule conjI)
  show "\<forall>w ps w' r. content_addressed view sha w \<and> (\<forall>p\<in>set ps. storable enc dec sha od p) \<and> driver_store enc sha od w ps = (w', r) \<longrightarrow>
      content_addressed view sha w' \<and> (\<forall>cs. r = Inr cs \<longrightarrow> list_all2 (holds view dec sha od w') cs ps)"
    using store_claims [OF assms(1)] by blast
  show "\<forall>w cs ps qs. list_all2 (holds view dec sha od w) cs ps \<and> driver_retrieve dec sha od w cs = Inr qs \<longrightarrow> qs = ps"
    using retrieve_all_held [OF assms] by blast
qed

lemma object_driver_keeps:
  assumes "store_ok view (od_upload od) (od_download od)"
  shows "driver_keeps (holds view dec' sha od') (content_addressed view sha) (storable enc dec sha od) (as_driver enc dec sha od)"
  unfolding driver_keeps_def as_driver_def driver.select_convs
proof (intro allI impI, elim conjE)
  fix w ps w' r c p
  assume "content_addressed view sha w" "\<forall>p\<in>set ps. storable enc dec sha od p" "driver_store enc sha od w ps = (w', r)"
    and h: "holds view dec' sha od' w c p"
  then have "kept view sha w w'" using store_claims [OF assms] by blast
  then show "holds view dec' sha od' w' c p" using h by (rule holds_kept)
qed

lemma S3_fields: "S3StorageDriver cl bucket name mx t = Inr od \<Longrightarrow> fields_ok od \<and> od_upload od = uploadIfAbsent cl \<and> od_download od = getObject cl"
  by (auto simp: S3StorageDriver_def bind_res_Inr_iff fields_ok_def)

lemma Gcs_fields: "GcsStorageDriver cl bucket name mx t = Inr od \<Longrightarrow> fields_ok od \<and> od_upload od = save cl \<and> od_download od = download cl"
  by (auto simp: GcsStorageDriver_def bind_res_Inr_iff fields_ok_def)

section \<open>Property\<close>


lemma hex_char_inj: "m < 16 \<Longrightarrow> n < 16 \<Longrightarrow> hex_char False m = hex_char False n \<Longrightarrow> m = n"
  by (drule arg_cong [where f = "of_char :: char \<Rightarrow> nat"]) (simp add: hex_char_def split: if_splits)

lemma hex_byte_inj: "m < 256 \<Longrightarrow> n < 256 \<Longrightarrow> hex_byte False m = hex_byte False n \<Longrightarrow> m = n"
  using hex_char_inj [of "m div 16" "n div 16"] hex_char_inj [of "m mod 16" "n mod 16"]
    less_mult_imp_div_less [of m 16 16] less_mult_imp_div_less [of n 16 16]
  by (simp add: hex_byte_def) (use div_mult_mod_eq [of m 16] div_mult_mod_eq [of n 16] in linarith)

abbreviation codes_as_hash :: "string \<Rightarrow> nat list" where
  "codes_as_hash \<equiv> map of_char"

lemma codes_as_hash_inj: "hexdigest codes_as_hash b = hexdigest codes_as_hash b' \<Longrightarrow> b = b'"
proof (induction b arbitrary: b')
  case Nil
  then show ?case by (cases b') (simp_all add: hexdigest_def hex_byte_def)
next
  case (Cons c b)
  then obtain d b'' where b': "b' = d # b''" by (cases b') (auto simp: hexdigest_def hex_byte_def)
  with Cons.prems have "hex_byte False (of_char c) = hex_byte False (of_char d)" "hexdigest codes_as_hash b = hexdigest codes_as_hash b''"
    by (simp_all add: hexdigest_def hex_byte_def)
  then show ?case using hex_byte_inj [of "of_char c" "of_char d"] Cons.IH b' by simp
qed

definition example_s3 :: "(string \<times> string \<rightharpoonup> string) s3_client" where
  "example_s3 = \<lparr>putObject = (\<lambda>w bu k b. (w((bu, k) \<mapsto> b), Inr ())), objectExists = (\<lambda>w bu k. Inr (w (bu, k) \<noteq> None)),
     getObject = (\<lambda>w bu k. case w (bu, k) of None \<Rightarrow> Inl (PlainError ''NoSuchKey'') | Some b \<Rightarrow> Inr b), s3_describe = []\<rparr>"

definition example_gcs :: "(string \<times> string \<rightharpoonup> string) gcs_client" where
  "example_gcs = \<lparr>save = (\<lambda>w bu k b. (w((bu, k) \<mapsto> b), Inr ())),
     download = (\<lambda>w bu k. case w (bu, k) of None \<Rightarrow> Inl (PlainError ''NotFound'') | Some b \<Rightarrow> Inr b), gcs_describe = []\<rparr>"

lemma example_clients_ok: "s3_client_ok id example_s3" "gcs_client_ok id example_gcs"
  by (auto simp: s3_client_ok_def gcs_client_ok_def example_s3_def example_gcs_def split: option.splits)

lemma example_storable: "b \<noteq> [] \<Longrightarrow> od_bucket od b = Inr ''bucket'' \<Longrightarrow> storable id Inr codes_as_hash od b"
  using codes_as_hash_inj by (auto simp: storable_def no_collision_def of_char_def intro: codes_as_hash_inj)


end
