(* ===== verification/ExternalStorage.thy ===== *)
theory ExternalStorage
  imports Converters PayloadCache StorageDrivers "HOL-Library.List_Lexorder"
begin

text \<open>
  External storage of large payloads: \<^verbatim>\<open>packages/common/src/converter/extstore.ts\<close> (the configuration),
  \<^verbatim>\<open>packages/common/src/internal-non-workflow/extstore-helpers.ts\<close> (payloads that refer to a stored one, keys of the cache) and
  \<^verbatim>\<open>external-storage-runner.ts\<close> (storing and retrieving the payloads of a message, in groups by driver, through the cache).

  The groups run concurrently; the model runs them in order and reports, as the source does, the error of the first
  group that has one. The JSON form of a protobuf message and the wire format of payloads are generated code and
  parameters: \<open>proto_json\<close>, \<open>enc\<close>, \<open>dec\<close>. Metrics, abort signals and the limiters handed to the drivers (\<open>Semaphore\<close>) have no
  influence on the result.
\<close>

section \<open>References\<close>

record xpayload = payload +
  externalPayloads :: "nat list"

record proto_json =
  pj_toJson :: "string \<Rightarrow> claim \<Rightarrow> jsval"
  pj_fromJson :: "jsval \<Rightarrow> js_error + string \<times> claim"

definition METADATA_MESSAGE_TYPE_KEY :: string where "METADATA_MESSAGE_TYPE_KEY = ''messageType''"
definition EXTSTORE_REFERENCE_MESSAGE_TYPE :: string where "EXTSTORE_REFERENCE_MESSAGE_TYPE = ''temporal.api.sdk.v1.ExternalStorageReference''"
definition EXTSTORE_REFERENCE_ENCODING :: string where "EXTSTORE_REFERENCE_ENCODING = ''json/protobuf''"
definition EXTSTORE_CACHE_KEY_PREFIX :: string where "EXTSTORE_CACHE_KEY_PREFIX = ''v0/temporal/extstore/''"

definition readMetadataString :: "xpayload \<Rightarrow> string \<Rightarrow> nat list option" where
  "readMetadataString p k = (case metadata p of
     None \<Rightarrow> None
   | Some m \<Rightarrow> (case map_of m k of None \<Rightarrow> None | Some raw \<Rightarrow> Some (decode_bytes raw)))"

definition isReferencePayload :: "xpayload \<Rightarrow> bool" where
  "isReferencePayload p =
     (if readMetadataString p METADATA_ENCODING_KEY = Some (codes EXTSTORE_REFERENCE_ENCODING)
      then readMetadataString p METADATA_MESSAGE_TYPE_KEY = Some (codes EXTSTORE_REFERENCE_MESSAGE_TYPE) else False)"

text \<open>\<^verbatim>\<open>toPayload\<close> and \<^verbatim>\<open>fromPayload\<close> of the \<^verbatim>\<open>ProtobufJsonPayloadConverter\<close>, for the message type of references.\<close>

definition ref_toPayload :: "proto_json \<Rightarrow> string \<Rightarrow> claim \<Rightarrow> js_error + payload" where
  "ref_toPayload pj name c = (case stringify (pj_toJson pj name c) of
     None \<Rightarrow> Inl (TypeError ''Cannot encode undefined'')
   | Some json \<Rightarrow> bind_res (encode_text json) (\<lambda>b. Inr
       \<lparr>metadata = Some [(METADATA_ENCODING_KEY, encodingKey EXTSTORE_REFERENCE_ENCODING),
                         (METADATA_MESSAGE_TYPE_KEY, encodingKey EXTSTORE_REFERENCE_MESSAGE_TYPE)], data = Some b\<rparr>))"

definition ref_fromPayload :: "proto_json \<Rightarrow> xpayload \<Rightarrow> js_error + string \<times> claim" where
  "ref_fromPayload pj p = (case data p of
     None \<Rightarrow> Inl (ValueError ''Got payload with no data'')
   | Some b \<Rightarrow> if readMetadataString p METADATA_MESSAGE_TYPE_KEY = None then Inl (ValueError ''Got protobuf payload without metadata.messageType'')
              else bind_res (json_parse (decode_bytes b)) (pj_fromJson pj))"

definition decodeReferencePayload :: "proto_json \<Rightarrow> xpayload \<Rightarrow> js_error + string \<times> claim \<times> nat" where
  "decodeReferencePayload pj p =
     bind_res (ref_fromPayload pj p) (\<lambda>(name, c).
       if name = [] then Inl (ValueError ''Reference payload field must be a non-empty string'')
       else Inr (name, c, case externalPayloads p of [] \<Rightarrow> 0 | n # _ \<Rightarrow> n))"

definition encodeReferencePayload :: "proto_json \<Rightarrow> string \<Rightarrow> claim \<Rightarrow> nat \<Rightarrow> js_error + xpayload" where
  "encodeReferencePayload pj name c sizeBytes =
     bind_res (ref_toPayload pj name c) (\<lambda>p. Inr \<lparr>metadata = metadata p, data = data p, externalPayloads = [sizeBytes]\<rparr>)"

section \<open>Keys of the cache\<close>

definition byteLength :: "string \<Rightarrow> nat" where
  "byteLength s = (case encode (codes s) of Inr b \<Rightarrow> length b | Inl _ \<Rightarrow> 0)"

definition lengthPrefixed :: "string \<Rightarrow> string" where
  "lengthPrefixed v = nat_to_string (byteLength v) @ '':'' @ v"

fun compareBytesLexicographically :: "nat list \<Rightarrow> nat list \<Rightarrow> int" where
  "compareBytesLexicographically (a # as) (b # bs) = (if a \<noteq> b then int a - int b else compareBytesLexicographically as bs)"
| "compareBytesLexicographically as bs = int (length as) - int (length bs)"

definition key_bytes :: "string \<times> string \<Rightarrow> nat list" where
  "key_bytes kv = (case encode (codes (fst kv)) of Inr b \<Rightarrow> b | Inl _ \<Rightarrow> [])"

definition externalStorageClaimCacheKey :: "string \<Rightarrow> claim \<Rightarrow> string" where
  "externalStorageClaimCacheKey name c =
     EXTSTORE_CACHE_KEY_PREFIX @ lengthPrefixed name @
     concat (map (\<lambda>(k, v). lengthPrefixed k @ lengthPrefixed v) (sort_key key_bytes c))"

text \<open>The comparison function of the sort is the order of lists.\<close>

lemma compareBytes_less: "compareBytesLexicographically as bs < 0 \<longleftrightarrow> as < bs"
proof (induction as bs rule: compareBytesLexicographically.induct)
  case (1 a as b bs)
  then show ?case by (auto simp: list_less_def)
qed (auto simp: list_less_def neq_Nil_conv)

lemma compareBytes_eq: "compareBytesLexicographically as bs = 0 \<longleftrightarrow> as = bs"
  by (induction as bs rule: compareBytesLexicographically.induct) auto

text \<open>A text with its length in front can be told apart from what follows it.\<close>

lemma byteLength_sum: "byteLength s = sum_list (map (length \<circ> utf8 \<circ> of_char) s)"
proof -
  have "encode (codes s) = Inr (concat (map utf8 (codes s)))" using encode_utf16 [of "codes s"] utf16_bytes [OF codes_bytes] by simp
  then show ?thesis by (simp add: byteLength_def codes_def length_concat o_def)
qed

lemma utf8_nonempty: "utf8 n \<noteq> []"
  by (simp add: utf8_def)

lemma byteLength_append: "byteLength (s @ t) = byteLength s + byteLength t"
  by (simp add: byteLength_sum)

lemma byteLength_0: "byteLength s = 0 \<longleftrightarrow> s = []"
  by (cases s) (simp_all add: byteLength_sum utf8_nonempty)

definition text_value :: "string \<Rightarrow> nat" where
  "text_value s = foldl (\<lambda>n c. 10 * n + (of_char c - 48)) 0 s"

lemma nat_to_string_value: "text_value (nat_to_string n) = n \<and> list_all (\<lambda>c. 48 \<le> (of_char c :: nat) \<and> (of_char c :: nat) \<le> 57) (nat_to_string n)"
proof (induction n rule: nat_to_string.induct)
  case (1 n)
  show ?case
  proof (cases "n < 10")
    case True
    then show ?thesis by (subst (1 2) nat_to_string.simps) (simp add: text_value_def)
  next
    case False
    then show ?thesis using 1 by (subst (1 2) nat_to_string.simps) (simp add: text_value_def)
  qed
qed

lemma digits_then_colon:
  assumes "m @ '':'' @ s = n @ '':'' @ t" and "CHR '':'' \<notin> set m" and "CHR '':'' \<notin> set n"
  shows "m = n \<and> s = t"
proof -
  have "takeWhile (\<lambda>c. c \<noteq> CHR '':'') (x @ '':'' @ y) = x" if "CHR '':'' \<notin> set x" for x y
    using that by (subst takeWhile_append2) auto
  then have "m = n" using assms by metis
  with assms(1) show ?thesis by simp
qed

lemma nat_to_string_colon: "CHR '':'' \<notin> set (nat_to_string n)"
  using nat_to_string_value [of n] by (auto simp: list_all_iff)

lemma same_length_prefix:
  assumes "s @ x = t @ y" and "byteLength s = byteLength t"
  shows "s = t \<and> x = y"
proof -
  from assms(1) obtain u where "s = t @ u \<or> t = s @ u" by (auto simp: append_eq_append_conv2)
  then have "byteLength u = 0" using assms(2) by (auto simp: byteLength_append)
  with \<open>s = t @ u \<or> t = s @ u\<close> assms(1) show ?thesis by (auto simp: byteLength_0)
qed

lemma lengthPrefixed_inj:
  assumes "lengthPrefixed s @ x = lengthPrefixed t @ y"
  shows "s = t \<and> x = y"
proof -
  have "nat_to_string (byteLength s) = nat_to_string (byteLength t) \<and> s @ x = t @ y"
    using assms by (intro digits_then_colon) (simp_all add: lengthPrefixed_def nat_to_string_colon)
  then show ?thesis using nat_to_string_value same_length_prefix by metis
qed

lemma lengthPrefixed_nonempty: "lengthPrefixed s \<noteq> []"
  by (simp add: lengthPrefixed_def)

lemma prefixed_pairs_inj:
  "concat (map (\<lambda>(k, v). lengthPrefixed k @ lengthPrefixed v) xs) = concat (map (\<lambda>(k, v). lengthPrefixed k @ lengthPrefixed v) ys) \<Longrightarrow> xs = ys"
proof (induction xs arbitrary: ys)
  case Nil
  then show ?case by (cases ys) (auto simp: lengthPrefixed_nonempty)
next
  case (Cons x xs)
  obtain k v where x: "x = (k, v)" by force
  obtain k' v' ys' where ys: "ys = (k', v') # ys'" using Cons.prems x by (cases ys) (auto simp: lengthPrefixed_nonempty)
  from Cons.prems x ys have "k = k' \<and> lengthPrefixed v @ concat (map (\<lambda>(k, v). lengthPrefixed k @ lengthPrefixed v) xs) =
      lengthPrefixed v' @ concat (map (\<lambda>(k, v). lengthPrefixed k @ lengthPrefixed v) ys')" by (intro lengthPrefixed_inj) simp
  then show ?case using lengthPrefixed_inj Cons.IH x ys by blast
qed

lemma cacheKey_inj:
  assumes "externalStorageClaimCacheKey n c = externalStorageClaimCacheKey n' c'" and "distinct (map fst c)" and "distinct (map fst c')"
  shows "n = n' \<and> map_of c = map_of c'"
proof -
  have eq: "n = n' \<and> sort_key key_bytes c = sort_key key_bytes c'"
    using assms(1) unfolding externalStorageClaimCacheKey_def by (metis lengthPrefixed_inj prefixed_pairs_inj same_append_eq)
  then have "set c = set c'" by (metis set_sort)
  then have "map_of c = map_of c'" using map_of_inject_set [OF assms(2,3)] by simp
  with eq show ?thesis by blast
qed

section \<open>Configuration\<close>

text \<open>A driver is an object: the number is its identity.\<close>

type_synonym 'o storage_driver = "nat \<times> ('o, xpayload) driver"

record 'o external_storage =
  driversByName :: "(string, 'o storage_driver) js_map"
  driverSelector :: "xpayload \<Rightarrow> 'o storage_driver option"
  payloadSizeThreshold :: rat
  maxDriverOperations :: int
  maxOperationsPerMessage :: int

definition validateOperationCount :: "string \<Rightarrow> jsnum \<Rightarrow> js_error + int" where
  "validateOperationCount name v = (case v of
     Num x \<Rightarrow> if x \<in> \<int> \<and> 1 \<le> x then Inr \<lfloor>x\<rfloor> else Inl (ValueError (''ExternalStorage.concurrency.'' @ name @ '' must be a positive integer''))
   | _ \<Rightarrow> Inl (ValueError (''ExternalStorage.concurrency.'' @ name @ '' must be a positive integer'')))"

fun register :: "'o storage_driver list \<Rightarrow> (string, 'o storage_driver) js_map \<Rightarrow> js_error + (string, 'o storage_driver) js_map" where
  "register [] m = Inr m"
| "register (d # ds) m =
     (if dr_name (snd d) = [] then Inl (ValueError ''Storage driver 'name' must be a non-empty string'')
      else if js_has m (dr_name (snd d)) then Inl (ValueError (''Duplicate storage driver name: '' @ dr_name (snd d)))
      else register ds (js_set m (dr_name (snd d)) d))"

definition new_ExternalStorage ::
  "'o storage_driver list \<Rightarrow> (xpayload \<Rightarrow> 'o storage_driver option) option \<Rightarrow> jsnum option \<Rightarrow> jsnum option \<Rightarrow> jsnum option \<Rightarrow> js_error + 'o external_storage" where
  "new_ExternalStorage ds sel threshold maxDriver maxMessage =
     (if ds = [] then Inl (ValueError ''ExternalStorage requires at least one driver'')
      else bind_res (case threshold of
               None \<Rightarrow> Inr (256 * 1024)
             | Some (Num x) \<Rightarrow> if x < 0 then Inl (ValueError ''ExternalStorage.payloadSizeThreshold must be a non-negative finite number'') else Inr x
             | _ \<Rightarrow> Inl (ValueError ''ExternalStorage.payloadSizeThreshold must be a non-negative finite number'')) (\<lambda>t.
           bind_res (register ds []) (\<lambda>m.
             if sel = None \<and> 1 < length m then Inl (ValueError ''ExternalStorage.driverSelector is required when more than one driver is registered'')
             else bind_res (validateOperationCount ''maxDriverOperations'' (case maxDriver of None \<Rightarrow> Num 64 | Some v \<Rightarrow> v)) (\<lambda>md.
                  bind_res (validateOperationCount ''maxOperationsPerMessage'' (case maxMessage of None \<Rightarrow> Num 8 | Some v \<Rightarrow> v)) (\<lambda>mm.
                    Inr \<lparr>driversByName = m, driverSelector = (case sel of None \<Rightarrow> (\<lambda>_. Some (hd ds)) | Some f \<Rightarrow> f),
                         payloadSizeThreshold = t, maxDriverOperations = md, maxOperationsPerMessage = mm\<rparr>)))))"

definition getDriver :: "'o external_storage \<Rightarrow> string \<Rightarrow> 'o storage_driver option" where
  "getDriver cfg name = js_get (driversByName cfg) name"

section \<open>Groups\<close>

text \<open>Items go to the group of their driver, in the order of the groups' first items.\<close>

definition group_add :: "'o storage_driver \<Rightarrow> 'x \<Rightarrow> (string, 'o storage_driver \<times> 'x list) js_map \<Rightarrow> (string, 'o storage_driver \<times> 'x list) js_map" where
  "group_add d x gs = (case js_get gs (dr_name (snd d)) of
     None \<Rightarrow> js_set gs (dr_name (snd d)) (d, [x])
   | Some (d', xs) \<Rightarrow> js_set gs (dr_name (snd d)) (d', xs @ [x]))"

text \<open>Every item of the groups satisfies a property, together with its driver.\<close>

definition in_groups :: "('o storage_driver \<Rightarrow> 'x \<Rightarrow> bool) \<Rightarrow> (string, 'o storage_driver \<times> 'x list) js_map \<Rightarrow> bool" where
  "in_groups P gs \<longleftrightarrow> (\<forall>(n, d, xs) \<in> set gs. dr_name (snd d) = n \<and> (\<forall>x \<in> set xs. P d x))"

lemma set_js_set: "set (js_set m k v) \<subseteq> insert (k, v) (set m)"
  by (induction m k v rule: js_set.induct) auto

lemma in_groups_add:
  assumes "in_groups P gs" and "P d x" and "\<And>d' x. dr_name (snd d') = dr_name (snd d) \<Longrightarrow> P d' x \<Longrightarrow> d' = d"
    and "\<forall>(n, d, xs) \<in> set gs. xs \<noteq> []"
  shows "in_groups P (group_add d x gs) \<and> (\<forall>(n, d, xs) \<in> set (group_add d x gs). xs \<noteq> [])"
proof (cases "js_get gs (dr_name (snd d))")
  case None
  then show ?thesis
    using assms set_js_set [of gs "dr_name (snd d)" "(d, [x])"] unfolding in_groups_def group_add_def by fastforce
next
  case (Some v)
  obtain d' xs where v: "v = (d', xs)" by (rule prod.exhaust)
  have mem: "(dr_name (snd d), d', xs) \<in> set gs" using js_get_SomeD [OF Some] v by simp
  have "d' = d" using assms(1,3,4) mem unfolding in_groups_def by (cases xs) fastforce+
  moreover have "\<forall>x \<in> set xs. P d' x" using assms(1) mem unfolding in_groups_def by fastforce
  ultimately show ?thesis
    using assms set_js_set [of gs "dr_name (snd d)" "(d', xs @ [x])"] Some v unfolding in_groups_def group_add_def by fastforce
qed

fun group_items :: "(string, 'o storage_driver \<times> 'x list) js_map \<Rightarrow> 'x set" where
  "group_items [] = {}"
| "group_items ((n, d, xs) # gs) = set xs \<union> group_items gs"

lemma group_items_set: "js_get gs k = None \<Longrightarrow> group_items (js_set gs k (d, xs)) = group_items gs \<union> set xs"
  by (induction gs rule: group_items.induct) (auto simp: js_get_def split: if_splits)

lemma group_items_replace:
  "js_get gs k = Some (d', ys) \<Longrightarrow> group_items (js_set gs k (d', ys @ [x])) = insert x (group_items gs)"
  by (induction gs rule: group_items.induct) (auto simp: js_get_def split: if_splits)

lemma group_items_add: "group_items (group_add d x gs) = insert x (group_items gs)"
  by (auto simp: group_add_def group_items_set group_items_replace split: option.splits)

section \<open>Storing\<close>

abbreviation ExternalStorageDriverError :: "string \<Rightarrow> js_error \<Rightarrow> js_error" where
  "ExternalStorageDriverError m e \<equiv> OtherError [(40, ''ExternalStorageDriverError''), (43, ''ExternalStorageError''), Error_class] m [] (Some e)"
abbreviation ExternalStorageReferenceError :: "string \<Rightarrow> js_error option \<Rightarrow> js_error" where
  "ExternalStorageReferenceError m e \<equiv> OtherError [(41, ''ExternalStorageReferenceError''), (43, ''ExternalStorageError''), Error_class] m [] e"
abbreviation ExternalStorageUnregisteredDriverError :: "string \<Rightarrow> js_error" where
  "ExternalStorageUnregisteredDriverError m \<equiv> OtherError [(42, ''ExternalStorageUnregisteredDriverError''), (43, ''ExternalStorageError''), Error_class] m [] None"

text \<open>The environment of a runner; \<open>re_size\<close> is the size of a payload on the wire. A cache that fails or is switched off is one that never has anything.\<close>

record ('o, 'c) runner_env =
  re_storage :: "'o external_storage"
  re_size :: "xpayload \<Rightarrow> nat"
  re_json :: proto_json
  re_get :: "'c \<Rightarrow> string \<Rightarrow> 'c \<times> (js_error + xpayload option)"
  re_set :: "'c \<Rightarrow> string \<Rightarrow> xpayload \<Rightarrow> 'c \<times> bool"

definition cacheGet :: "('o, 'c) runner_env \<Rightarrow> 'c \<Rightarrow> string \<Rightarrow> 'c \<times> xpayload option" where
  "cacheGet env c k = (case re_get env c k of (c', Inr r) \<Rightarrow> (c', r) | (c', Inl _) \<Rightarrow> (c', None))"

definition cacheSet :: "('o, 'c) runner_env \<Rightarrow> string \<Rightarrow> xpayload \<Rightarrow> 'c \<Rightarrow> 'c" where
  "cacheSet env k p c = fst (re_set env c k p)"

fun store_groups ::
  "('o, 'c) runner_env \<Rightarrow> nat \<Rightarrow> xpayload list \<Rightarrow> (string, 'o storage_driver \<times> (nat \<times> xpayload) list) js_map \<Rightarrow>
     js_error + (string, 'o storage_driver \<times> (nat \<times> xpayload) list) js_map" where
  "store_groups env i [] gs = Inr gs"
| "store_groups env i (p # ps) gs =
     (if of_nat (re_size env p) < payloadSizeThreshold (re_storage env) then store_groups env (Suc i) ps gs
      else case driverSelector (re_storage env) p of
             None \<Rightarrow> store_groups env (Suc i) ps gs
           | Some d \<Rightarrow>
               if map_option fst (getDriver (re_storage env) (dr_name (snd d))) \<noteq> Some (fst d)
               then Inl (ExternalStorageUnregisteredDriverError (''Driver '' @ dr_name (snd d) @ '' returned by driverSelector is not registered in ExternalStorage.drivers''))
               else store_groups env (Suc i) ps (group_add d (i, p) gs))"

fun write_claims ::
  "('o, 'c) runner_env \<Rightarrow> string \<Rightarrow> (nat \<times> xpayload) list \<Rightarrow> claim list \<Rightarrow> 'c \<times> xpayload list \<Rightarrow> ('c \<times> xpayload list) \<times> js_error option" where
  "write_claims env name ((i, p) # items) (c # cs) (ch, res) =
     (case encodeReferencePayload (re_json env) name c (re_size env p) of
        Inl e \<Rightarrow> ((ch, res), Some e)
      | Inr r \<Rightarrow> write_claims env name items cs (cacheSet env (externalStorageClaimCacheKey name c) p ch, res[i := r]))"
| "write_claims env name _ _ s = (s, None)"

definition store_group ::
  "('o, 'c) runner_env \<Rightarrow> 'o storage_driver \<times> (nat \<times> xpayload) list \<Rightarrow> 'o \<times> 'c \<times> xpayload list \<Rightarrow> ('o \<times> 'c \<times> xpayload list) \<times> js_error option" where
  "store_group env g s = (case g of (d, items) \<Rightarrow> (case s of (w, ch, res) \<Rightarrow>
     (case dr_store (snd d) w (map snd items) of
        (w', Inl e) \<Rightarrow> ((w', ch, res), Some (ExternalStorageDriverError (''Storage driver '' @ dr_name (snd d) @ '' failed to store payloads'') e))
      | (w', Inr cs) \<Rightarrow>
          if length cs \<noteq> length items
          then ((w', ch, res), Some (ExternalStorageReferenceError (''Driver '' @ dr_name (snd d) @ '' returned a different number of claims'') None))
          else (case write_claims env (dr_name (snd d)) items cs (ch, res) of ((ch', res'), e) \<Rightarrow> ((w', ch', res'), e)))))"

text \<open>\<^verbatim>\<open>runWithAbortOnFirstError\<close>: all tasks run to their end; the first error, in the order of the tasks, is thrown.\<close>

fun run_groups :: "('g \<Rightarrow> 's \<Rightarrow> 's \<times> js_error option) \<Rightarrow> 'g list \<Rightarrow> 's \<Rightarrow> 's \<times> js_error option" where
  "run_groups f [] s = (s, None)"
| "run_groups f (g # gs) s = (case f g s of (s1, e) \<Rightarrow> (case run_groups f gs s1 of
     (s2, e') \<Rightarrow> (s2, case e of None \<Rightarrow> e' | Some x \<Rightarrow> Some x)))"

definition store :: "('o, 'c) runner_env \<Rightarrow> 'o \<times> 'c \<Rightarrow> xpayload list \<Rightarrow> ('o \<times> 'c) \<times> (js_error + xpayload list)" where
  "store env s ps = (case s of (w, ch) \<Rightarrow> (case store_groups env 0 ps [] of
     Inl e \<Rightarrow> ((w, ch), Inl e)
   | Inr gs \<Rightarrow> (case run_groups (store_group env) (map snd gs) (w, ch, ps) of
       ((w', ch', res), Some e) \<Rightarrow> ((w', ch'), Inl e)
     | ((w', ch', res), None) \<Rightarrow> ((w', ch'), Inr res))))"

section \<open>Retrieving\<close>

record 'o retrieve_item =
  ri_index :: nat
  ri_driver :: "'o storage_driver"
  ri_claim :: claim
  ri_key :: string

fun retrieve_items :: "('o, 'c) runner_env \<Rightarrow> nat \<Rightarrow> xpayload list \<Rightarrow> js_error + 'o retrieve_item list" where
  "retrieve_items env i [] = Inr []"
| "retrieve_items env i (p # ps) =
     (if \<not> isReferencePayload p then retrieve_items env (Suc i) ps
      else case decodeReferencePayload (re_json env) p of
             Inl e \<Rightarrow> Inl (ExternalStorageReferenceError ''Failed to decode external storage reference'' (Some e))
           | Inr (name, c, n) \<Rightarrow> (case getDriver (re_storage env) name of
               None \<Rightarrow> Inl (ExternalStorageUnregisteredDriverError (''No driver registered with name '' @ name))
             | Some d \<Rightarrow> bind_res (retrieve_items env (Suc i) ps) (\<lambda>its. Inr
                 (\<lparr>ri_index = i, ri_driver = d, ri_claim = c, ri_key = externalStorageClaimCacheKey name c\<rparr> # its))))"

fun retrieveFromCache ::
  "('o, 'c) runner_env \<Rightarrow> 'o retrieve_item list \<Rightarrow> 'c \<Rightarrow> 'c \<times> ('o retrieve_item \<times> xpayload) list \<times> 'o retrieve_item list" where
  "retrieveFromCache env [] ch = (ch, [], [])"
| "retrieveFromCache env (it # its) ch = (case cacheGet env ch (ri_key it) of
     (ch1, r) \<Rightarrow> (case retrieveFromCache env its ch1 of
       (ch2, hits, missing) \<Rightarrow> (case r of
         None \<Rightarrow> (ch2, hits, it # missing)
       | Some p \<Rightarrow> (ch2, (it, p) # hits, missing))))"

fun write_payloads :: "('o, 'c) runner_env \<Rightarrow> 'o retrieve_item list \<Rightarrow> xpayload list \<Rightarrow> 'c \<times> xpayload list \<Rightarrow> 'c \<times> xpayload list" where
  "write_payloads env (it # its) (p # ps) (ch, res) = write_payloads env its ps (cacheSet env (ri_key it) p ch, res[ri_index it := p])"
| "write_payloads env _ _ s = s"

definition retrieve_group ::
  "('o, 'c) runner_env \<Rightarrow> 'o \<Rightarrow> 'o storage_driver \<times> 'o retrieve_item list \<Rightarrow> 'c \<times> xpayload list \<Rightarrow> ('c \<times> xpayload list) \<times> js_error option" where
  "retrieve_group env w g s = (case g of (d, items) \<Rightarrow>
     (case dr_retrieve (snd d) w (map ri_claim items) of
        Inl e \<Rightarrow> (s, Some (ExternalStorageDriverError (''Storage driver '' @ dr_name (snd d) @ '' failed to retrieve payloads'') e))
      | Inr ps \<Rightarrow>
          if length ps \<noteq> length items
          then (s, Some (ExternalStorageReferenceError (''Driver '' @ dr_name (snd d) @ '' returned a different number of payloads'') None))
          else (write_payloads env items ps s, None)))"

definition retrieve :: "('o, 'c) runner_env \<Rightarrow> 'o \<Rightarrow> 'c \<Rightarrow> xpayload list \<Rightarrow> 'c \<times> (js_error + xpayload list)" where
  "retrieve env w ch ps = (case retrieve_items env 0 ps of
     Inl e \<Rightarrow> (ch, Inl e)
   | Inr its \<Rightarrow> (case retrieveFromCache env its ch of
       (ch1, hits, missing) \<Rightarrow>
         (let res = foldl (\<lambda>xs (it, p). xs[ri_index it := p]) ps hits;
              gs = foldl (\<lambda>gs it. group_add (ri_driver it) it gs) [] missing
          in case run_groups (retrieve_group env w) (map snd gs) (ch1, res) of
               ((ch2, res'), Some e) \<Rightarrow> (ch2, Inl e)
             | ((ch2, res'), None) \<Rightarrow> (ch2, Inr res'))))"

section \<open>What is relied on\<close>

text \<open>
  \<open>H n w c p\<close>: in the world \<open>w\<close> the claim \<open>c\<close> of the driver \<open>n\<close> stands for the payload \<open>p\<close>. Claims are records: what they stand for depends on
  the values of their fields only, and their JSON form is read back.
\<close>

definition json_ok :: "proto_json \<Rightarrow> string \<Rightarrow> claim \<Rightarrow> bool" where
  "json_ok pj n c \<longleftrightarrow> json_value (pj_toJson pj n c) \<and> pj_fromJson pj (pj_toJson pj n c) = Inr (n, c)"

definition storage_ok ::
  "(string \<Rightarrow> 'o \<Rightarrow> claim \<Rightarrow> xpayload \<Rightarrow> bool) \<Rightarrow> ('o \<Rightarrow> bool) \<Rightarrow> (xpayload \<Rightarrow> bool) \<Rightarrow> proto_json \<Rightarrow> 'o external_storage \<Rightarrow> bool" where
  "storage_ok H V ok pj cfg \<longleftrightarrow>
     (\<forall>n d. getDriver cfg n = Some d \<longrightarrow>
        dr_name (snd d) = n \<and> n \<noteq> [] \<and> driver_ok (H n) V ok (snd d) \<and> (\<forall>m. driver_keeps (H m) V ok (snd d))) \<and>
     (\<forall>n w c p. H n w c p \<longrightarrow> distinct (map fst c) \<and> json_ok pj n c) \<and>
     (\<forall>n w c c' p p'. H n w c p \<and> H n w c' p' \<and> map_of c = map_of c' \<longrightarrow> p = p') \<and>
     (\<forall>p d d'. driverSelector cfg p = Some d \<and> getDriver cfg (dr_name (snd d)) = Some d' \<and> fst d = fst d' \<longrightarrow> d = d')"

lemma storage_okD:
  assumes "storage_ok H V ok pj cfg"
  shows "getDriver cfg n = Some d \<Longrightarrow> dr_name (snd d) = n \<and> n \<noteq> []"
    and "getDriver cfg n = Some d \<Longrightarrow> driver_ok (H n) V ok (snd d)"
    and "getDriver cfg n = Some d \<Longrightarrow> driver_keeps (H m) V ok (snd d)"
    and "H n w c p \<Longrightarrow> distinct (map fst c) \<and> json_ok pj n c"
    and "H n w c p \<Longrightarrow> H n w c' p' \<Longrightarrow> map_of c = map_of c' \<Longrightarrow> p = p'"
    and "driverSelector cfg q = Some e \<Longrightarrow> getDriver cfg (dr_name (snd e)) = Some e' \<Longrightarrow> fst e = fst e' \<Longrightarrow> e = e'"
proof -
  note so = assms [unfolded storage_ok_def]
  show "getDriver cfg n = Some d \<Longrightarrow> dr_name (snd d) = n \<and> n \<noteq> []" "getDriver cfg n = Some d \<Longrightarrow> driver_ok (H n) V ok (snd d)"
    "getDriver cfg n = Some d \<Longrightarrow> driver_keeps (H m) V ok (snd d)" by (simp_all add: so [THEN conjunct1])
  show "H n w c p \<Longrightarrow> distinct (map fst c) \<and> json_ok pj n c" by (rule so [THEN conjunct2, THEN conjunct1, rule_format])
  show "H n w c p \<Longrightarrow> H n w c' p' \<Longrightarrow> map_of c = map_of c' \<Longrightarrow> p = p'"
    by (rule so [THEN conjunct2, THEN conjunct2, THEN conjunct1, rule_format]) blast
  show "driverSelector cfg q = Some e \<Longrightarrow> getDriver cfg (dr_name (snd e)) = Some e' \<Longrightarrow> fst e = fst e' \<Longrightarrow> e = e'"
    by (rule so [THEN conjunct2, THEN conjunct2, THEN conjunct2, rule_format]) blast
qed

lemma encodingKey_codes: "decode_bytes (encodingKey t) = codes t"
  using text_roundtrip [OF codes_bytes [of t]] by (auto simp: encodingKey_def)

lemma reference_roundtrip:
  assumes "json_ok pj n c" and "n \<noteq> []" and "encodeReferencePayload pj n c k = Inr r"
  shows "isReferencePayload r \<and> decodeReferencePayload pj r = Inr (n, c, k)"
proof -
  obtain t where t: "stringify (pj_toJson pj n c) = Some t" "json_parse t = Inr (pj_toJson pj n c)"
    using assms(1) json_roundtrip unfolding json_ok_def by blast
  obtain b where b: "encode_text t = Inr b" "decode_bytes b = t"
    using text_roundtrip stringify_units(1) t(1) assms(1) unfolding json_ok_def by blast
  have r: "r = \<lparr>metadata = Some [(METADATA_ENCODING_KEY, encodingKey EXTSTORE_REFERENCE_ENCODING),
        (METADATA_MESSAGE_TYPE_KEY, encodingKey EXTSTORE_REFERENCE_MESSAGE_TYPE)], data = Some b, externalPayloads = [k]\<rparr>"
    using assms(3) t(1) b(1) by (simp add: encodeReferencePayload_def ref_toPayload_def)
  have "METADATA_ENCODING_KEY \<noteq> METADATA_MESSAGE_TYPE_KEY" by (simp add: METADATA_ENCODING_KEY_def METADATA_MESSAGE_TYPE_KEY_def)
  then have "readMetadataString r METADATA_ENCODING_KEY = Some (codes EXTSTORE_REFERENCE_ENCODING)"
    "readMetadataString r METADATA_MESSAGE_TYPE_KEY = Some (codes EXTSTORE_REFERENCE_MESSAGE_TYPE)"
    by (simp_all add: r readMetadataString_def encodingKey_codes)
  then show ?thesis
    using assms(1,2) t(2) b(2) by (simp add: isReferencePayload_def decodeReferencePayload_def ref_fromPayload_def json_ok_def r)
qed

lemma reference_total:
  assumes "json_ok pj n c"
  shows "\<exists>r. encodeReferencePayload pj n c k = Inr r \<and> externalPayloads r = [k]"
proof -
  obtain t where t: "stringify (pj_toJson pj n c) = Some t" using assms json_roundtrip unfolding json_ok_def by blast
  obtain b where "encode_text t = Inr b" using text_roundtrip stringify_units(1) t assms unfolding json_ok_def by blast
  with t show ?thesis by (simp add: encodeReferencePayload_def ref_toPayload_def)
qed

definition stored_as :: "(string \<Rightarrow> 'o \<Rightarrow> claim \<Rightarrow> xpayload \<Rightarrow> bool) \<Rightarrow> proto_json \<Rightarrow> 'o external_storage \<Rightarrow> 'o \<Rightarrow> xpayload \<Rightarrow> xpayload \<Rightarrow> bool" where
  "stored_as H pj cfg w p r \<longleftrightarrow>
     r = p \<or> (\<exists>n c k d. getDriver cfg n = Some d \<and> H n w c p \<and> encodeReferencePayload pj n c k = Inr r)"

definition cached_ok :: "(string \<Rightarrow> 'o \<Rightarrow> claim \<Rightarrow> xpayload \<Rightarrow> bool) \<Rightarrow> 'o \<Rightarrow> string \<Rightarrow> xpayload \<Rightarrow> bool" where
  "cached_ok H w k p \<longleftrightarrow> (\<exists>n c. k = externalStorageClaimCacheKey n c \<and> H n w c p)"

lemma cached_ok_same:
  assumes "storage_ok H V ok pj cfg" and "cached_ok H w (externalStorageClaimCacheKey n c) q" and "H n w c p"
  shows "q = p"
proof -
  obtain n' c' where c': "externalStorageClaimCacheKey n c = externalStorageClaimCacheKey n' c'" "H n' w c' q"
    using assms(2) by (auto simp: cached_ok_def)
  have "distinct (map fst c)" "distinct (map fst c')" using storage_okD(4) [OF assms(1)] assms(3) c'(2) by blast+
  from cacheKey_inj [OF c'(1) this] c'(2) assms(3) show ?thesis using storage_okD(5) [OF assms(1)] by metis
qed

lemma run_groups_inv:
  assumes "\<And>g s s' e. g \<in> set gs \<Longrightarrow> I s \<Longrightarrow> f g s = (s', e) \<Longrightarrow> I s'" and "I s" and "run_groups f gs s = (s', e)"
  shows "I s'"
  using assms
proof (induction gs arbitrary: s e)
  case (Cons g gs)
  obtain s1 e1 where 1: "f g s = (s1, e1)" by force
  obtain e2 where 2: "run_groups f gs s1 = (s', e2)" using Cons.prems(3) 1 by (auto split: prod.splits)
  have "I s1" using Cons.prems(1) [OF _ Cons.prems(2) 1] by simp
  then show ?case using Cons.IH [OF _ _ 2] Cons.prems(1) by (meson list.set_intros(2))
qed simp

text \<open>The groups of \<open>store\<close>: registered drivers with payloads and their positions.\<close>

definition store_item :: "'o external_storage \<Rightarrow> xpayload list \<Rightarrow> 'o storage_driver \<Rightarrow> nat \<times> xpayload \<Rightarrow> bool" where
  "store_item cfg ps d x \<longleftrightarrow> getDriver cfg (dr_name (snd d)) = Some d \<and> fst x < length ps \<and> ps ! fst x = snd x"

lemma store_item_mem: "store_item cfg ps d x \<Longrightarrow> snd x \<in> set ps"
  unfolding store_item_def by (metis nth_mem)

lemma store_groups_spec:
  assumes "storage_ok H V ok pj (re_storage env)" and "store_groups env i qs gs = Inr gs'" and "ps = pre @ qs" and "i = length pre"
    and "in_groups (store_item (re_storage env) ps) gs" and "\<forall>(n, d, xs) \<in> set gs. xs \<noteq> []"
  shows "in_groups (store_item (re_storage env) ps) gs' \<and> (\<forall>(n, d, xs) \<in> set gs'. xs \<noteq> [])"
  using assms
proof (induction env i qs gs arbitrary: pre rule: store_groups.induct)
  case (2 env i p qs gs)
  have pre: "ps = (pre @ [p]) @ qs" "Suc i = length (pre @ [p])" using "2.prems"(3,4) by simp_all
  show ?case
  proof (cases "of_nat (re_size env p) < payloadSizeThreshold (re_storage env) \<or> driverSelector (re_storage env) p = None")
    case True
    then have rest: "store_groups env (Suc i) qs gs = Inr gs'" using "2.prems"(2) by (auto split: if_splits)
    show ?thesis
    proof (cases "of_nat (re_size env p) < payloadSizeThreshold (re_storage env)")
      case True
      then show ?thesis by (rule "2.IH"(1) [OF _ "2.prems"(1) rest pre "2.prems"(5,6)])
    next
      case False
      then show ?thesis using \<open>_ \<or> _\<close> by (intro "2.IH"(2) [OF _ _ "2.prems"(1) rest pre "2.prems"(5,6)]) simp_all
    qed
  next
    case False
    then obtain d where d: "driverSelector (re_storage env) p = Some d" by blast
    have big: "\<not> of_nat (re_size env p) < payloadSizeThreshold (re_storage env)" using False by blast
    have reg: "map_option fst (getDriver (re_storage env) (dr_name (snd d))) = Some (fst d)"
      and rest: "store_groups env (Suc i) qs (group_add d (i, p) gs) = Inr gs'"
      using "2.prems"(2) big d by (auto split: if_splits)
    obtain d' where "getDriver (re_storage env) (dr_name (snd d)) = Some d'" "fst d = fst d'" using reg by auto
    then have "getDriver (re_storage env) (dr_name (snd d)) = Some d" using storage_okD(6) [OF "2.prems"(1) d] by simp
    then have item: "store_item (re_storage env) ps d (i, p)" using "2.prems"(3,4) by (simp add: store_item_def)
    have "d' = d" if "dr_name (snd d') = dr_name (snd d)" "store_item (re_storage env) ps d' x" for d' x
      using that item by (simp add: store_item_def)
    note in_groups_add [OF "2.prems"(5) item this "2.prems"(6)]
    then show ?thesis using "2.IH"(3) [OF big d _ "2.prems"(1) rest pre] reg by auto
  qed
qed simp

text \<open>What \<open>retrieve\<close> finds in a message: items for the references, and the payloads themselves everywhere else.\<close>

definition item_ok :: "(string \<Rightarrow> 'o \<Rightarrow> claim \<Rightarrow> xpayload \<Rightarrow> bool) \<Rightarrow> 'o external_storage \<Rightarrow> 'o \<Rightarrow> xpayload list \<Rightarrow> 'o retrieve_item \<Rightarrow> bool" where
  "item_ok H cfg w ps it \<longleftrightarrow> ri_index it < length ps \<and> getDriver cfg (dr_name (snd (ri_driver it))) = Some (ri_driver it) \<and>
     H (dr_name (snd (ri_driver it))) w (ri_claim it) (ps ! ri_index it) \<and>
     ri_key it = externalStorageClaimCacheKey (dr_name (snd (ri_driver it))) (ri_claim it)"

lemma retrieve_items_spec:
  assumes so: "storage_ok H V okp (re_json env) (re_storage env)" and "list_all2 (stored_as H (re_json env) (re_storage env) w) qs rs"
    and "ps = pre @ qs" and "\<forall>p \<in> set qs. \<not> isReferencePayload p"
  shows "\<exists>its. retrieve_items env (length pre) rs = Inr its \<and> (\<forall>it \<in> set its. item_ok H (re_storage env) w ps it) \<and>
    (\<forall>j < length qs. length pre + j \<notin> ri_index ` set its \<longrightarrow> rs ! j = qs ! j)"
  using assms(2-)
proof (induction qs rs arbitrary: pre rule: list_all2_induct)
  case Nil
  then show ?case by simp
next
  case (Cons p qs r rs)
  have pre: "ps = (pre @ [p]) @ qs" "\<forall>p \<in> set qs. \<not> isReferencePayload p" using Cons.prems by simp_all
  obtain its where its: "retrieve_items env (Suc (length pre)) rs = Inr its" "\<forall>it \<in> set its. item_ok H (re_storage env) w ps it"
    "\<forall>j < length qs. Suc (length pre) + j \<notin> ri_index ` set its \<longrightarrow> rs ! j = qs ! j" using Cons.IH [OF pre] by auto
  show ?case
  proof (cases "isReferencePayload r")
    case False
    then have "r = p" using Cons.hyps(1) storage_okD(1,4) [OF so] reference_roundtrip unfolding stored_as_def by blast
    with False its show ?thesis by (intro exI [of _ its]) (auto simp: nth_Cons' less_Suc_eq_0_disj)
  next
    case True
    then have "r \<noteq> p" using Cons.prems(2) by auto
    then obtain n c k d where d: "getDriver (re_storage env) n = Some d" "H n w c p" "encodeReferencePayload (re_json env) n c k = Inr r"
      using Cons.hyps(1) unfolding stored_as_def by blast
    have n: "dr_name (snd d) = n" "n \<noteq> []" using storage_okD(1) [OF so d(1)] by simp_all
    have "json_ok (re_json env) n c" using storage_okD(4) [OF so d(2)] by simp
    then have dec: "decodeReferencePayload (re_json env) r = Inr (n, c, k)" using reference_roundtrip n(2) d(3) by blast
    let ?it = "\<lparr>ri_index = length pre, ri_driver = d, ri_claim = c, ri_key = externalStorageClaimCacheKey n c\<rparr>"
    have "item_ok H (re_storage env) w ps ?it" using d n Cons.prems(1) by (simp add: item_ok_def)
    with True dec d(1) its show ?thesis
      by (intro exI [of _ "?it # its"]) (auto simp: nth_Cons' less_Suc_eq_0_disj)
  qed
qed

text \<open>A list of results that agrees with the payloads outside some positions.\<close>

definition agrees :: "xpayload list \<Rightarrow> nat set \<Rightarrow> xpayload list \<Rightarrow> bool" where
  "agrees ps J res \<longleftrightarrow> length res = length ps \<and> (\<forall>j < length ps. j \<notin> J \<longrightarrow> res ! j = ps ! j)"

lemma agrees_update: "agrees ps J res \<Longrightarrow> agrees ps (J - {j}) (res[j := ps ! j])"
  by (auto simp: agrees_def) (metis nth_list_update_eq nth_list_update_neq)+

lemma agrees_mono: "agrees ps J res \<Longrightarrow> J \<subseteq> J' \<Longrightarrow> agrees ps J' res"
  by (auto simp: agrees_def)

lemma agrees_done: "agrees ps {} res \<Longrightarrow> res = ps"
  by (auto simp: agrees_def intro: nth_equalityI)

lemma agrees_hits:
  assumes "\<forall>(it, p) \<in> set hits. p = ps ! ri_index it" and "agrees ps (ri_index ` fst ` set hits \<union> J) res"
  shows "agrees ps J (foldl (\<lambda>xs (it, p). xs[ri_index it := p]) res hits)"
  using assms
proof (induction hits arbitrary: res)
  case (Cons h hits)
  obtain it p where h: "h = (it, p)" by force
  have "agrees ps (ri_index ` fst ` set hits \<union> J) (res[ri_index it := ps ! ri_index it])"
    by (rule agrees_mono [OF agrees_update [OF Cons.prems(2)], of "ri_index it"]) (auto simp: h)
  then show ?case using Cons.IH Cons.prems(1) h by simp
qed simp

lemma missing_groups:
  assumes "\<forall>it \<in> set ms. item_ok H cfg w ps it" and "in_groups (\<lambda>d it. d = ri_driver it \<and> item_ok H cfg w ps it) gs"
    and "\<forall>(n, d, xs) \<in> set gs. xs \<noteq> []"
  shows "in_groups (\<lambda>d it. d = ri_driver it \<and> item_ok H cfg w ps it) (foldl (\<lambda>gs it. group_add (ri_driver it) it gs) gs ms) \<and>
    (\<forall>(n, d, xs) \<in> set (foldl (\<lambda>gs it. group_add (ri_driver it) it gs) gs ms). xs \<noteq> []) \<and>
    group_items (foldl (\<lambda>gs it. group_add (ri_driver it) it gs) gs ms) = group_items gs \<union> set ms"
  using assms
proof (induction ms arbitrary: gs)
  case (Cons m ms)
  let ?P = "\<lambda>d it. d = ri_driver it \<and> item_ok H cfg w ps it"
  have "?P (ri_driver m) m" using Cons.prems(1) by simp
  moreover have "d' = ri_driver m" if "dr_name (snd d') = dr_name (snd (ri_driver m))" "?P d' x" for d' x
    using that Cons.prems(1) by (auto simp: item_ok_def)
  ultimately have "in_groups ?P (group_add (ri_driver m) m gs) \<and> (\<forall>(n, d, xs) \<in> set (group_add (ri_driver m) m gs). xs \<noteq> [])"
    by (rule in_groups_add [OF Cons.prems(2) _ _ Cons.prems(3)])
  then show ?case using Cons.IH [of "group_add (ri_driver m) m gs"] Cons.prems(1) by (simp add: group_items_add)
qed simp

section \<open>The runner over a cache\<close>

locale runner_cache = payload_cache cget cset content reread ok
  for cget :: "'c \<Rightarrow> string \<Rightarrow> 'c \<times> (js_error + xpayload option)" and cset content reread ok
begin

lemma cacheSet_coherent:
  assumes "coherent R ch" and "re_set env = cset" and "reread p = Some p" and "R k p"
  shows "coherent R (cacheSet env k p ch)"
  unfolding cacheSet_def assms(2) using assms(3,4) by (intro coherent_set [OF assms(1)]) simp

lemma cacheGet_coherent:
  assumes "coherent R ch" and "re_get env = cget" and "cacheGet env ch k = (ch', r)"
  shows "coherent R ch' \<and> (\<forall>p. r = Some p \<longrightarrow> R k p)"
proof -
  obtain x where x: "cget ch k = (ch', x)" "\<forall>p. r = Some p \<longrightarrow> x = Inr (Some p)"
    using assms(2,3) by (auto simp: cacheGet_def split: prod.splits sum.splits)
  then show ?thesis using coherent_get [OF assms(1) x(1)] by blast
qed

text \<open>The state of \<open>store\<close> while its groups run.\<close>

definition store_state :: "(string \<Rightarrow> 'o \<Rightarrow> claim \<Rightarrow> xpayload \<Rightarrow> bool) \<Rightarrow> ('o \<Rightarrow> bool) \<Rightarrow> ('o, 'c) runner_env \<Rightarrow> xpayload list \<Rightarrow> 'o \<times> 'c \<times> xpayload list \<Rightarrow> bool" where
  "store_state H V env ps s \<longleftrightarrow> (case s of (w, ch, res) \<Rightarrow>
     V w \<and> coherent (cached_ok H w) ch \<and> list_all2 (stored_as H (re_json env) (re_storage env) w) ps res)"

lemma write_claims_state:
  assumes "list_all2 (H n w) cs (map snd items)" and "\<forall>x \<in> set items. fst x < length ps \<and> ps ! fst x = snd x \<and> reread (snd x) = Some (snd x)"
    and "getDriver (re_storage env) n = Some d" and "re_set env = cset" and "store_state H V env ps (w, ch, res)"
    and "write_claims env n items cs (ch, res) = ((ch', res'), e)"
  shows "store_state H V env ps (w, ch', res')"
  using assms
proof (induction items arbitrary: cs ch res)
  case Nil
  then show ?case by (cases cs) auto
next
  case (Cons x items)
  obtain i p where x: "x = (i, p)" by force
  obtain c cs' where cs: "cs = c # cs'" "H n w c p" "list_all2 (H n w) cs' (map snd items)" using Cons.prems(1) x by (auto simp: list_all2_Cons2)
  show ?case
  proof (cases "encodeReferencePayload (re_json env) n c (re_size env p)")
    case (Inl e')
    then show ?thesis using Cons.prems(5,6) cs(1) x by simp
  next
    case (Inr r)
    have i: "i < length ps" "ps ! i = p" "reread p = Some p" using Cons.prems(2) x by auto
    have "stored_as H (re_json env) (re_storage env) w p r"
      unfolding stored_as_def using cs(2) Cons.prems(3) Inr by blast
    then have "list_all2 (stored_as H (re_json env) (re_storage env) w) ps (res[i := r])"
      using Cons.prems(5) i list_all2_update_cong [of _ ps res p r i] by (simp add: store_state_def) (metis list_update_id)
    moreover have "coherent (cached_ok H w) (cacheSet env (externalStorageClaimCacheKey n c) p ch)"
      using Cons.prems(4,5) i(3) cs(2) by (intro cacheSet_coherent) (auto simp: store_state_def cached_ok_def)
    ultimately have "store_state H V env ps (w, cacheSet env (externalStorageClaimCacheKey n c) p ch, res[i := r])"
      using Cons.prems(5) by (simp add: store_state_def)
    then show ?thesis using Cons.IH [OF cs(3) _ Cons.prems(3,4)] Cons.prems(2,6) cs(1) x Inr by simp
  qed
qed

lemma store_state_world:
  assumes "store_state H V env ps (w, ch, res)" and "V w'" and "\<And>n c p. H n w c p \<Longrightarrow> H n w' c p"
  shows "store_state H V env ps (w', ch, res)"
proof -
  have "coherent (cached_ok H w') ch"
    using assms(1,3) coherent_mono [of "cached_ok H w" ch "cached_ok H w'"] unfolding store_state_def cached_ok_def by blast
  moreover have "list_all2 (stored_as H (re_json env) (re_storage env) w') ps res"
  proof -
    have "list_all2 (stored_as H (re_json env) (re_storage env) w) ps res" using assms(1) by (simp add: store_state_def)
    then show ?thesis by (rule list_all2_mono) (unfold stored_as_def, use assms(3) in blast)
  qed
  ultimately show ?thesis using assms(2) by (simp add: store_state_def)
qed

lemma store_group_state:
  assumes so: "storage_ok H V okp (re_json env) (re_storage env)" and "\<forall>p \<in> set ps. okp p \<and> reread p = Some p"
    and g: "getDriver (re_storage env) (dr_name (snd d)) = Some d" and items: "\<forall>x \<in> set items. store_item (re_storage env) ps d x"
    and "re_set env = cset" and s: "store_state H V env ps s" and run: "store_group env (d, items) s = (s', e)"
  shows "store_state H V env ps s'"
proof -
  obtain w ch res where s0: "s = (w, ch, res)" by (cases s)
  obtain w' r where st: "dr_store (snd d) w (map snd items) = (w', r)" by force
  let ?n = "dr_name (snd d)"
  have mem: "\<And>x. x \<in> set items \<Longrightarrow> snd x \<in> set ps" using items store_item_mem by blast
  then have ok: "\<forall>p \<in> set (map snd items). okp p" using assms(2) by auto
  have Vw: "V w" using s s0 by (simp add: store_state_def)
  have d: "driver_ok (H ?n) V okp (snd d)" "\<And>m. driver_keeps (H m) V okp (snd d)" using storage_okD(2,3) [OF so g] by blast+
  have w': "V w'" "\<And>cs. r = Inr cs \<Longrightarrow> list_all2 (H ?n w') cs (map snd items)"
    using d(1) [unfolded driver_ok_def, THEN conjunct1, rule_format, of w "map snd items" w' r] Vw ok st by auto
  have "H n w c p \<Longrightarrow> H n w' c p" for n c p
    using d(2) [of n, unfolded driver_keeps_def, rule_format, of w "map snd items" w' r c p] Vw ok st by auto
  with s s0 w'(1) have s1: "store_state H V env ps (w', ch, res)" by (blast intro: store_state_world)
  show ?thesis
  proof (cases "\<exists>cs. r = Inr cs \<and> length cs = length items")
    case False
    then show ?thesis using run st s1 by (auto simp: store_group_def s0 split: sum.splits)
  next
    case True
    then obtain cs where cs: "r = Inr cs" "length cs = length items" by blast
    obtain ch' res' where wr: "write_claims env ?n items cs (ch, res) = ((ch', res'), e)" "s' = (w', ch', res')"
      using run st cs by (auto simp: store_group_def s0 split: prod.splits)
    have "\<forall>x \<in> set items. fst x < length ps \<and> ps ! fst x = snd x \<and> reread (snd x) = Some (snd x)"
      using items assms(2) mem by (simp add: store_item_def)
    from write_claims_state [OF w'(2) [OF cs(1)] this g assms(5) s1 wr(1)] wr(2) show ?thesis by simp
  qed
qed

lemma store_spec:
  assumes so: "storage_ok H V okp (re_json env) (re_storage env)" and ps: "\<forall>p \<in> set ps. okp p \<and> reread p = Some p"
    and "V w" and "coherent (cached_ok H w) ch" and "re_set env = cset" and st: "store env (w, ch) ps = ((w', ch'), Inr rs)"
  shows "V w' \<and> coherent (cached_ok H w') ch' \<and> list_all2 (stored_as H (re_json env) (re_storage env) w') ps rs"
proof -
  obtain gs where gs: "store_groups env 0 ps [] = Inr gs" and run: "run_groups (store_group env) (map snd gs) (w, ch, ps) = ((w', ch', rs), None)"
    using st by (auto simp: store_def split: sum.splits prod.splits option.splits)
  have ig: "in_groups (store_item (re_storage env) ps) gs" "\<forall>(n, d, xs) \<in> set gs. xs \<noteq> []"
    using store_groups_spec [OF so gs, of ps "[]"] by (simp_all add: in_groups_def)
  have "store_state H V env ps (w, ch, ps)"
    using assms(3,4) by (simp add: store_state_def stored_as_def list_all2_refl)
  moreover have "store_state H V env ps s'" if g: "g \<in> set (map snd gs)" and s: "store_state H V env ps s" "store_group env g s = (s', e)" for g s s' e
  proof -
    obtain n where "(n, g) \<in> set gs" using g by auto
    moreover obtain d items where "g = (d, items)" by (rule prod.exhaust)
    ultimately have it: "\<forall>x \<in> set items. store_item (re_storage env) ps d x" "items \<noteq> []" "g = (d, items)"
      using ig unfolding in_groups_def by fastforce+
    then have "getDriver (re_storage env) (dr_name (snd d)) = Some d" by (cases items) (auto simp: store_item_def)
    from store_group_state [OF so ps this it(1) assms(5) s(1)] s(2) it(3) show ?thesis by simp
  qed
  ultimately have "store_state H V env ps (w', ch', rs)" using run_groups_inv [OF _ _ run] by blast
  then show ?thesis by (simp add: store_state_def)
qed

lemma retrieveFromCache_spec:
  assumes so: "storage_ok H V okp (re_json env) (re_storage env)" and "re_get env = cget" and "coherent (cached_ok H w) ch"
    and "\<forall>it \<in> set its. item_ok H (re_storage env) w ps it" and "retrieveFromCache env its ch = (ch', hits, ms)"
  shows "coherent (cached_ok H w) ch' \<and> (\<forall>(it, p) \<in> set hits. p = ps ! ri_index it) \<and> fst ` set hits \<union> set ms = set its"
  using assms(3-)
proof (induction its arbitrary: ch hits ms)
  case (Cons it its)
  obtain ch1 r where 1: "cacheGet env ch (ri_key it) = (ch1, r)" by force
  obtain hits1 ms1 where 2: "retrieveFromCache env its ch1 = (ch', hits1, ms1)"
    and split: "(hits, ms) = (case r of None \<Rightarrow> (hits1, it # ms1) | Some p \<Rightarrow> ((it, p) # hits1, ms1))"
    using Cons.prems(3) 1 by (auto split: prod.splits option.splits)
  have c1: "coherent (cached_ok H w) ch1" "\<forall>p. r = Some p \<longrightarrow> cached_ok H w (ri_key it) p"
    using cacheGet_coherent [OF Cons.prems(1) assms(2) 1] by simp_all
  have ih: "coherent (cached_ok H w) ch' \<and> (\<forall>(it, p) \<in> set hits1. p = ps ! ri_index it) \<and> fst ` set hits1 \<union> set ms1 = set its"
    using Cons.IH [OF c1(1) _ 2] Cons.prems(2) by simp
  have "p = ps ! ri_index it" if "r = Some p" for p
    using cached_ok_same [OF so] c1(2) that Cons.prems(2) by (simp add: item_ok_def)
  with ih split show ?case by (cases r) auto
qed simp

lemma write_payloads_spec:
  assumes "re_set env = cset" and "coherent (cached_ok H w) ch" and "\<forall>it \<in> set items. item_ok H (re_storage env) w ps it"
    and "\<forall>p \<in> set ps. reread p = Some p" and "agrees ps (ri_index ` set items \<union> J) res"
    and "write_payloads env items (map (\<lambda>it. ps ! ri_index it) items) (ch, res) = (ch', res')"
  shows "coherent (cached_ok H w) ch' \<and> agrees ps J res'"
  using assms(2-)
proof (induction items arbitrary: ch res)
  case (Cons it items)
  have it: "item_ok H (re_storage env) w ps it" using Cons.prems(2) by simp
  have "coherent (cached_ok H w) (cacheSet env (ri_key it) (ps ! ri_index it) ch)"
    using it Cons.prems(3) by (intro cacheSet_coherent [OF Cons.prems(1) assms(1)]) (auto simp: item_ok_def cached_ok_def)
  moreover have "agrees ps (ri_index ` set items \<union> J) (res[ri_index it := ps ! ri_index it])"
    by (rule agrees_mono [OF agrees_update [OF Cons.prems(4)], of "ri_index it"]) auto
  ultimately show ?case using Cons.IH Cons.prems(2,3,5) by simp
qed simp

lemma retrieve_groups_spec:
  assumes so: "storage_ok H V okp (re_json env) (re_storage env)" and "re_set env = cset" and "\<forall>p \<in> set ps. reread p = Some p"
    and "in_groups (\<lambda>d it. d = ri_driver it \<and> item_ok H (re_storage env) w ps it) gs" and "\<forall>(n, d, xs) \<in> set gs. xs \<noteq> []" and "coherent (cached_ok H w) ch"
    and "agrees ps (ri_index ` group_items gs) res" and "run_groups (retrieve_group env w) (map snd gs) (ch, res) = ((ch', res'), e)"
  shows "(e = None \<longrightarrow> res' = ps) \<and> (\<forall>x. e = Some x \<longrightarrow> (\<exists>m y. x = ExternalStorageDriverError m y))"
  using assms(4-)
proof (induction gs arbitrary: ch res e rule: group_items.induct)
  case 1
  then show ?case by (auto dest: agrees_done)
next
  case (2 n d items gs)
  let ?n = "dr_name (snd d)"
  let ?ps = "map (\<lambda>it. ps ! ri_index it) items"
  have items: "\<forall>it \<in> set items. d = ri_driver it \<and> item_ok H (re_storage env) w ps it"
    and rest: "in_groups (\<lambda>d it. d = ri_driver it \<and> item_ok H (re_storage env) w ps it) gs"
    using "2.prems"(1) by (simp_all add: in_groups_def)
  have held: "list_all2 (H ?n w) (map ri_claim items) ?ps" using items by (auto simp: list_all2_conv_all_nth item_ok_def)
  obtain s1 e1 where 1: "retrieve_group env w (d, items) (ch, res) = (s1, e1)" by (rule prod.exhaust)
  obtain e2 where 3: "run_groups (retrieve_group env w) (map snd gs) s1 = ((ch', res'), e2)" "e = (case e1 of None \<Rightarrow> e2 | Some x \<Rightarrow> Some x)"
    using "2.prems"(5) 1 by (auto split: prod.splits)
  show ?case
  proof (cases "dr_retrieve (snd d) w (map ri_claim items)")
    case (Inl y)
    then have "\<exists>m. e1 = Some (ExternalStorageDriverError m y)" using 1 by (auto simp: retrieve_group_def)
    then show ?thesis using 3(2) by auto
  next
    case (Inr qs)
    have "getDriver (re_storage env) ?n = Some d" using items "2.prems"(2) by (cases items) (auto simp: item_ok_def)
    then have qs: "qs = ?ps" using driver_ok_retrieve [OF storage_okD(2) [OF so] held Inr] by simp
    obtain ch1 res1 where wr: "write_payloads env items ?ps (ch, res) = (ch1, res1)" by force
    have s1: "s1 = (ch1, res1)" "e1 = None" using 1 Inr qs wr by (auto simp: retrieve_group_def)
    have "coherent (cached_ok H w) ch1 \<and> agrees ps (ri_index ` group_items gs) res1"
      using write_payloads_spec [OF assms(2) "2.prems"(3) _ assms(3) _ wr] items "2.prems"(4) by (simp add: image_Un)
    then show ?thesis using "2.IH" [OF rest, of ch1 res1 e2] "2.prems"(2) 3 s1 by simp
  qed
qed

lemma retrieve_spec:
  assumes so: "storage_ok H V okp (re_json env) (re_storage env)" and "re_get env = cget" and "re_set env = cset"
    and "\<forall>p \<in> set ps. reread p = Some p \<and> \<not> isReferencePayload p" and "coherent (cached_ok H w) ch"
    and "list_all2 (stored_as H (re_json env) (re_storage env) w) ps rs"
  shows "snd (retrieve env w ch rs) = Inr ps \<or> (\<exists>m e. snd (retrieve env w ch rs) = Inl (ExternalStorageDriverError m e))"
proof -
  obtain its where its: "retrieve_items env 0 rs = Inr its" "\<forall>it \<in> set its. item_ok H (re_storage env) w ps it"
    "\<forall>j < length ps. j \<notin> ri_index ` set its \<longrightarrow> rs ! j = ps ! j"
    using retrieve_items_spec [OF so assms(6), of ps "[]"] assms(4) by auto
  obtain ch1 hits ms where c: "retrieveFromCache env its ch = (ch1, hits, ms)" by (metis prod_cases3)
  note cs = retrieveFromCache_spec [OF so assms(2,5) its(2) c]
  let ?res = "foldl (\<lambda>xs (it, p). xs[ri_index it := p]) rs hits"
  let ?gs = "foldl (\<lambda>gs it. group_add (ri_driver it) it gs) [] ms"
  let ?P = "\<lambda>d it. d = ri_driver it \<and> item_ok H (re_storage env) w ps it"
  have ms: "\<forall>it \<in> set ms. item_ok H (re_storage env) w ps it" using cs its(2) by blast
  have "in_groups ?P []" by (simp add: in_groups_def)
  note mg = missing_groups [OF ms this]
  have gs: "in_groups ?P ?gs" "\<forall>(n, d, xs) \<in> set ?gs. xs \<noteq> []" "group_items ?gs = set ms" using mg by simp_all
  have "agrees ps (ri_index ` fst ` set hits \<union> ri_index ` set ms) rs"
  proof -
    have "ri_index ` fst ` set hits \<union> ri_index ` set ms = ri_index ` set its" using cs by (metis image_Un)
    then show ?thesis using its(3) list_all2_lengthD [OF assms(6)] by (simp add: agrees_def)
  qed
  then have ag: "agrees ps (ri_index ` group_items ?gs) ?res" using agrees_hits [of hits ps "ri_index ` group_items ?gs" rs] cs gs(3) by simp
  obtain s2 e where s2: "run_groups (retrieve_group env w) (map snd ?gs) (ch1, ?res) = (s2, e)" by (rule prod.exhaust)
  obtain ch2 res2 where "s2 = (ch2, res2)" by (rule prod.exhaust)
  with s2 have run: "run_groups (retrieve_group env w) (map snd ?gs) (ch1, ?res) = ((ch2, res2), e)" by simp
  have rr: "\<forall>p \<in> set ps. reread p = Some p" using assms(4) by blast
  have "retrieve env w ch rs = (ch2, case e of None \<Rightarrow> Inr res2 | Some x \<Rightarrow> Inl x)"
    using its(1) c run by (simp add: retrieve_def Let_def split: option.splits)
  then show ?thesis
    using retrieve_groups_spec [OF so assms(3) rr gs(1,2) _ ag run] cs by (cases e) auto
qed

end


interpretation memory_runner: runner_cache "cache_get dec" "cache_set enc" "content_of dec" "reread_of enc dec" cache_inv
  for enc :: "xpayload \<Rightarrow> string" and dec
  by (intro runner_cache.intro memory_cache.payload_cache_axioms)

section \<open>Property\<close>

text \<open>
  C11: (Round trip, across components.) A message whose payloads were stored can be retrieved by any process whose in-memory cache, if it has
  anything under the key of a claim, has what the claim stands for: the result is exactly the list of payloads that was stored, small ones and large
  ones, in their places, or the error of a driver that failed. No claim is confused with another in the cache, and no reference fails to be read.
  (The drivers keep their contract, see \<open>object_drivers_roundtrip\<close>; the wire format gives back what it was given; no payload of the message looks like a reference.)
\<close>

theorem stored_message_retrieved:
  assumes "storage_ok H V okp (re_json env) (re_storage env)" and "re_get env = cache_get dec" and "re_set env = cache_set enc"
    and "\<forall>p \<in> set ps. okp p \<and> dec (enc p) = Inr p \<and> \<not> isReferencePayload p" and "V w"
    and "new_cache t n = Inr ch" and "store env (w, ch) ps = ((w', ch'), Inr rs)"
    and "\<forall>k b p. map_of (entries ch2) k = Some b \<and> dec b = Inr p \<longrightarrow> cached_ok H w' k p"
    and "cache_inv ch2"
  shows "(snd (retrieve env w' ch' rs) = Inr ps \<or> (\<exists>m e. snd (retrieve env w' ch' rs) = Inl (ExternalStorageDriverError m e))) \<and>
    (snd (retrieve env w' ch2 rs) = Inr ps \<or> (\<exists>m e. snd (retrieve env w' ch2 rs) = Inl (ExternalStorageDriverError m e)))"
proof -
  have rr: "\<forall>p \<in> set ps. reread_of enc dec p = Some p \<and> \<not> isReferencePayload p" "\<forall>p \<in> set ps. okp p \<and> reread_of enc dec p = Some p"
    using assms(4) by (auto simp: reread_of_def)
  have "memory_cache.coherent dec (cached_ok H w) ch"
    using new_cache_inv [OF assms(6)] by (simp add: memory_cache.coherent_def content_of_def)
  from memory_runner.store_spec [OF assms(1) rr(2) assms(5) this assms(3,7)]
  have s: "memory_cache.coherent dec (cached_ok H w') ch'" "list_all2 (stored_as H (re_json env) (re_storage env) w') ps rs" by simp_all
  have c2: "memory_cache.coherent dec (cached_ok H w') ch2"
    using assms(8,9) by (auto simp: memory_cache.coherent_def content_of_def split: option.splits sum.splits)
  show ?thesis
    using memory_runner.retrieve_spec [OF assms(1-3) rr(1) s] memory_runner.retrieve_spec [OF assms(1-3) rr(1) c2 s(2)] by blast
qed


text \<open>An example: the driver for S3 with the client and the hash of \<open>StorageDrivers\<close>.\<close>

definition example_enc :: "xpayload \<Rightarrow> string" where
  "example_enc p = (case data p of None \<Rightarrow> [] | Some b \<Rightarrow> b)"

definition example_dec :: "string \<Rightarrow> js_error + xpayload" where
  "example_dec b = Inr \<lparr>metadata = None, data = Some b, externalPayloads = []\<rparr>"

definition example_od :: "(string \<times> string \<rightharpoonup> string, xpayload) object_driver" where
  "example_od = \<lparr>od_class = ''S3StorageDriver'', od_name = ''aws.s3driver'', od_field = ''key'', od_fields = [''key''],
     od_bucket = \<lambda>p. Inr ''bucket'', od_maxPayloadSize = 50 * 1024 * 1024, od_segments = [],
     od_upload = uploadIfAbsent example_s3, od_download = getObject example_s3, od_describe = []\<rparr>"

definition example_driver :: "(string \<times> string \<rightharpoonup> string) storage_driver" where
  "example_driver = (0, as_driver example_enc example_dec codes_as_hash example_od)"

fun pair_of_json :: "jsval \<Rightarrow> string \<times> string" where
  "pair_of_json (JArr [JStr k, JStr v]) = (k, v)"
| "pair_of_json _ = ([], [])"

fun ref_of_json :: "jsval \<Rightarrow> js_error + string \<times> claim" where
  "ref_of_json (JArr [JStr n, JArr xs]) = Inr (n, map pair_of_json xs)"
| "ref_of_json _ = Inl (PlainError ''no reference'')"

definition example_json :: proto_json where
  "example_json = \<lparr>pj_toJson = (\<lambda>n c. JArr [JStr n, JArr (map (\<lambda>(k, v). JArr [JStr k, JStr v]) c)]), pj_fromJson = ref_of_json\<rparr>"

definition example_runner :: "(string \<times> string \<rightharpoonup> string, cache) runner_env" where
  "example_runner = \<lparr>re_storage = \<lparr>driversByName = [(''aws.s3driver'', example_driver)], driverSelector = (\<lambda>_. Some example_driver),
       payloadSizeThreshold = 2, maxDriverOperations = 64, maxOperationsPerMessage = 8\<rparr>,
     re_size = (\<lambda>p. length (example_enc p)), re_json = example_json, re_get = cache_get example_dec, re_set = cache_set example_enc\<rparr>"

definition example_holds :: "string \<Rightarrow> (string \<times> string \<rightharpoonup> string) \<Rightarrow> claim \<Rightarrow> xpayload \<Rightarrow> bool" where
  "example_holds n w c p \<longleftrightarrow> n = ''aws.s3driver'' \<and> holds id example_dec codes_as_hash example_od w c p"

lemma example_json_ok: "json_ok example_json n c"
proof -
  have "json_elements (map (\<lambda>(k, v). JArr [JStr k, JStr v]) c)" by (induction c) auto
  moreover have "map pair_of_json (map (\<lambda>(k, v). JArr [JStr k, JStr v]) c) = c" by (induction c) auto
  ultimately show ?thesis by (simp add: json_ok_def example_json_def)
qed

lemma example_od_ok: "store_ok id (od_upload example_od) (od_download example_od)" "fields_ok example_od"
  using s3_store_ok [OF example_clients_ok(1)] by (simp_all add: example_od_def fields_ok_def)

lemma example_storage_ok:
  "storage_ok example_holds (content_addressed id codes_as_hash) (storable example_enc example_dec codes_as_hash example_od)
     example_json (re_storage example_runner)"
proof -
  let ?V = "content_addressed id codes_as_hash" and ?ok = "storable example_enc example_dec codes_as_hash example_od"
  have get: "getDriver (re_storage example_runner) n = (if n = ''aws.s3driver'' then Some example_driver else None)" for n
    by (auto simp: getDriver_def example_runner_def js_get_def)
  have "example_holds ''aws.s3driver'' = holds id example_dec codes_as_hash example_od" by (simp add: example_holds_def fun_eq_iff)
  then have "driver_ok (example_holds ''aws.s3driver'') ?V ?ok (snd example_driver)"
    using object_driver_ok [OF example_od_ok, of example_dec codes_as_hash example_enc] by (simp add: example_driver_def)
  moreover have "driver_keeps (example_holds m) ?V ?ok (snd example_driver)" for m
    using object_driver_keeps [OF example_od_ok(1), of example_dec codes_as_hash example_od example_enc example_dec]
    by (auto simp: example_holds_def example_driver_def driver_keeps_def)
  moreover have "dr_name (snd example_driver) = ''aws.s3driver''" by (simp add: example_driver_def as_driver_def example_od_def)
  moreover have "distinct (map fst c)" if "example_holds n w c p" for n w c p
    using that by (auto simp: example_holds_def holds_def claim_of_def example_od_def)
  moreover have "p = p'" if h: "example_holds n w c p" "example_holds n w c' p'" "map_of c = map_of c'" for n w c c' p p'
  proof -
    obtain u u' where u: "c = claim_of example_od u" "w (up_bucket u, up_key u) = Some (up_bytes u)" "example_dec (up_bytes u) = Inr p"
      "c' = claim_of example_od u'" "w (up_bucket u', up_key u') = Some (up_bytes u')" "example_dec (up_bytes u') = Inr p'"
      using h(1,2) by (auto simp: example_holds_def holds_def)
    have "map_of c f = map_of c' f" for f using h(3) by simp
    from this [of "''bucket''"] this [of "''key''"] have "up_bucket u = up_bucket u'" "up_key u = up_key u'"
      by (simp_all add: u(1,4) claim_of_def example_od_def)
    with u show ?thesis by simp
  qed
  ultimately show ?thesis
    unfolding storage_ok_def get using example_json_ok
    by (intro conjI allI impI) (auto simp: example_runner_def split: if_splits simp del: split_paired_All)
qed

abbreviation example_payload :: "string \<Rightarrow> xpayload" where
  "example_payload b \<equiv> \<lparr>metadata = None, data = Some b, externalPayloads = []\<rparr>"

lemma example_payload_ok: "b \<noteq> [] \<Longrightarrow> storable example_enc example_dec codes_as_hash example_od (example_payload b) \<and>
   example_dec (example_enc (example_payload b)) = Inr (example_payload b) \<and> \<not> isReferencePayload (example_payload b)"
  using codes_as_hash_inj
  by (auto simp: storable_def no_collision_def example_enc_def example_dec_def example_od_def isReferencePayload_def readMetadataString_def)

theorem stored_message_retrieved_witness:
  "\<exists>ch w' ch' rs. new_cache None None = Inr ch \<and>
     store example_runner (Map.empty, ch) [example_payload ''a'', example_payload ''large''] = ((w', ch'), Inr rs) \<and>
     rs \<noteq> [example_payload ''a'', example_payload ''large''] \<and>
     (snd (retrieve example_runner w' ch' rs) = Inr [example_payload ''a'', example_payload ''large''] \<or>
      (\<exists>m e. snd (retrieve example_runner w' ch' rs) = Inl (ExternalStorageDriverError m e)))"
proof -
  let ?ps = "[example_payload ''a'', example_payload ''large'']"
  obtain ch where ch: "new_cache None None = Inr ch" by (simp add: new_cache_def)
  have h: "hexdigest codes_as_hash ''large'' = ''6c61726765''" by code_simp
  let ?k = "''v0/d/sha256/6c61726765''"
  let ?c = "[(''bucket'', ''bucket''), (''key'', ?k), (''hash_algorithm'', ''sha256''), (''hash_value'', ''6c61726765'')]"
  have up: "dr_store (snd example_driver) Map.empty [example_payload ''large''] = ([(''bucket'', ?k) \<mapsto> ''large''], Inr [?c])"
    by (simp add: example_driver_def as_driver_def driver_store_def prepare_def example_od_def example_s3_def uploadIfAbsent_def
        example_enc_def h Let_def claim_of_def)
  obtain r where r: "encodeReferencePayload example_json (dr_name (snd example_driver)) ?c 5 = Inr r" "externalPayloads r = [5]"
    using reference_total [OF example_json_ok] by blast
  have name: "dr_name (snd example_driver) = ''aws.s3driver''" by (simp add: example_driver_def as_driver_def example_od_def)
  have gs: "store_groups example_runner 0 ?ps [] = Inr [(''aws.s3driver'', example_driver, [(1, example_payload ''large'')])]"
    by (simp add: example_runner_def example_enc_def name getDriver_def js_get_def group_add_def)
  have "re_json example_runner = example_json" "re_size example_runner (example_payload ''large'') = 5"
    by (simp_all add: example_runner_def example_enc_def)
  then obtain w' ch' where st: "store example_runner (Map.empty, ch) ?ps = ((w', ch'), Inr [example_payload ''a'', r])"
    using gs up r(1) by (simp add: store_def store_group_def)
  have "\<forall>p \<in> set ?ps. storable example_enc example_dec codes_as_hash example_od p \<and> example_dec (example_enc p) = Inr p \<and> \<not> isReferencePayload p"
    using example_payload_ok [of "''a''"] example_payload_ok [of "''large''"] by auto
  moreover have "storage_ok example_holds (content_addressed id codes_as_hash) (storable example_enc example_dec codes_as_hash example_od)
     (re_json example_runner) (re_storage example_runner)" using example_storage_ok by (simp add: example_runner_def)
  moreover have "content_addressed id codes_as_hash Map.empty" by (simp add: content_addressed_def)
  ultimately have "snd (retrieve example_runner w' ch' [example_payload ''a'', r]) = Inr ?ps \<or>
      (\<exists>m e. snd (retrieve example_runner w' ch' [example_payload ''a'', r]) = Inl (ExternalStorageDriverError m e))"
    using stored_message_retrieved [of example_holds "content_addressed id codes_as_hash" "storable example_enc example_dec codes_as_hash example_od"
        example_runner example_dec example_enc ?ps Map.empty None None ch w' ch' "[example_payload ''a'', r]" ch] st ch new_cache_inv [OF ch]
    by (simp add: example_runner_def)
  moreover have "[example_payload ''a'', r] \<noteq> ?ps" using r(2) by auto
  ultimately show ?thesis using st ch by blast
qed

end
