(* ===== verification/GrpcRetry.thy ===== *)
theory GrpcRetry
  imports Errors
begin

text \<open>
  The retries of the client, \<^verbatim>\<open>packages/client/src/grpc-retry.ts\<close>: which gRPC errors are worth a retry, how long to wait
  and the interceptor that repeats a call. Rounding of numbers is not modelled; the random number of a delay is an
  argument.
\<close>

section \<open>The default decisions\<close>

record status_object =
  st_code :: int
  st_details :: string

definition grpc_OK :: int where "grpc_OK = 0"
definition grpc_CANCELLED :: int where "grpc_CANCELLED = 1"
definition grpc_UNKNOWN :: int where "grpc_UNKNOWN = 2"
definition grpc_INVALID_ARGUMENT :: int where "grpc_INVALID_ARGUMENT = 3"
definition grpc_DEADLINE_EXCEEDED :: int where "grpc_DEADLINE_EXCEEDED = 4"
definition grpc_NOT_FOUND :: int where "grpc_NOT_FOUND = 5"
definition grpc_ALREADY_EXISTS :: int where "grpc_ALREADY_EXISTS = 6"
definition grpc_RESOURCE_EXHAUSTED :: int where "grpc_RESOURCE_EXHAUSTED = 8"
definition grpc_ABORTED :: int where "grpc_ABORTED = 10"
definition grpc_OUT_OF_RANGE :: int where "grpc_OUT_OF_RANGE = 11"
definition grpc_INTERNAL :: int where "grpc_INTERNAL = 13"
definition grpc_UNAVAILABLE :: int where "grpc_UNAVAILABLE = 14"
definition grpc_DATA_LOSS :: int where "grpc_DATA_LOSS = 15"

lemmas grpc_codes = grpc_OK_def grpc_CANCELLED_def grpc_UNKNOWN_def grpc_INVALID_ARGUMENT_def grpc_DEADLINE_EXCEEDED_def
  grpc_NOT_FOUND_def grpc_ALREADY_EXISTS_def grpc_RESOURCE_EXHAUSTED_def grpc_ABORTED_def grpc_OUT_OF_RANGE_def
  grpc_INTERNAL_def grpc_UNAVAILABLE_def grpc_DATA_LOSS_def

definition retryableCodes :: "int list" where
  "retryableCodes = [grpc_UNKNOWN, grpc_RESOURCE_EXHAUSTED, grpc_UNAVAILABLE, grpc_ABORTED, grpc_DATA_LOSS, grpc_OUT_OF_RANGE]"

text \<open>A search for a fixed text that ignores the case of letters: \<^verbatim>\<open>/text/i.test(s)\<close>.\<close>

definition ascii_lower :: "char \<Rightarrow> char" where
  "ascii_lower c = (let n = of_char c :: nat in if 65 \<le> n \<and> n \<le> 90 then char_of (n + 32) else c)"

fun contains_at :: "string \<Rightarrow> string \<Rightarrow> bool" where
  "contains_at pat [] = (pat = [])"
| "contains_at pat (c # s) = (take (length pat) (c # s) = pat \<or> contains_at pat s)"

definition contains_ignoring_case :: "string \<Rightarrow> string \<Rightarrow> bool" where
  "contains_ignoring_case pat s = contains_at (map ascii_lower pat) (map ascii_lower s)"

definition isRetryableError :: "status_object \<Rightarrow> bool" where
  "isRetryableError st =
     (if st_code st = grpc_INTERNAL
      then (if contains_ignoring_case ''RST_STREAM with code 0'' (st_details st) \<or>
               contains_ignoring_case ''Call ended without gRPC status'' (st_details st) then True
            else if contains_ignoring_case ''RST_STREAM with code 2'' (st_details st)
            then \<not> contains_ignoring_case ''SSL alert number'' (st_details st)
            else False)
      else st_code st \<in> set retryableCodes)"

definition jitter :: "rat \<Rightarrow> rat \<Rightarrow> rat" where
  "jitter rnd mx = 1 - mx + rnd * mx * 2"

definition defaultInitialIntervalMs :: "status_object \<Rightarrow> rat" where
  "defaultInitialIntervalMs st = (if st_code st = grpc_RESOURCE_EXHAUSTED then 1000 else 100)"

record backoff_options =
  bo_factor :: "rat option"
  bo_maxAttempts :: "nat option"
  bo_maxJitter :: "rat option"
  bo_initialIntervalMs :: "(status_object \<Rightarrow> rat) option"
  bo_maxIntervalMs :: "(status_object \<Rightarrow> rat) option"

record loaded_backoff =
  factor :: rat
  maxAttempts :: nat
  maxJitter :: rat
  initialIntervalMs :: "status_object \<Rightarrow> rat"
  maxIntervalMs :: "status_object \<Rightarrow> rat"

definition or_default :: "'a option \<Rightarrow> 'a \<Rightarrow> 'a" where
  "or_default x d = (case x of None \<Rightarrow> d | Some y \<Rightarrow> y)"

definition withDefaultBackoffOptions :: "backoff_options \<Rightarrow> loaded_backoff" where
  "withDefaultBackoffOptions bo = \<lparr>
     factor = or_default (bo_factor bo) (17 / 10),
     maxAttempts = or_default (bo_maxAttempts bo) 10,
     maxJitter = or_default (bo_maxJitter bo) (2 / 10),
     initialIntervalMs = or_default (bo_initialIntervalMs bo) defaultInitialIntervalMs,
     maxIntervalMs = or_default (bo_maxIntervalMs bo) (\<lambda>_. 5000)\<rparr>"

record retry_options =
  delayFunction :: "rat \<Rightarrow> nat \<Rightarrow> status_object \<Rightarrow> rat"
  retryableDecider :: "nat \<Rightarrow> status_object \<Rightarrow> bool"

definition defaultGrpcRetryOptions :: "backoff_options \<Rightarrow> retry_options" where
  "defaultGrpcRetryOptions bo = (let b = withDefaultBackoffOptions bo in \<lparr>
     delayFunction = (\<lambda>rnd attempt st. min (maxIntervalMs b st) (factor b ^ attempt * initialIntervalMs b st) * jitter rnd (maxJitter b)),
     retryableDecider = (\<lambda>attempt st. attempt < maxAttempts b \<and> isRetryableError st)\<rparr>)"

section \<open>The interceptor\<close>

text \<open>
  The state of one intercepted call: the attempt, the message that was sent, the last message received, whether the
  continuation for messages has been saved (the listener of the first attempt does it), what was sent on every call
  started so far, what was passed on to the caller, the running timer and the delays so far. \<open>broken\<close> says that the
  continuation was called before it was there.
\<close>

record ('q, 'r) retry_state =
  rt_attempt :: nat
  savedSendMessage :: 'q
  savedReceiveMessage :: "'r option"
  savedMessageNext :: bool
  started :: "'q list"
  passed_on :: "('r option \<times> status_object) list"
  timer :: "rat option"
  delays :: "rat list"
  broken :: bool

datatype 'r retry_event = OnReceiveMessage 'r | OnReceiveStatus status_object rat | TimerFires

definition makeGrpcRetryInterceptor :: "'q \<Rightarrow> ('q, 'r) retry_state" where
  "makeGrpcRetryInterceptor q = \<lparr>rt_attempt = 1, savedSendMessage = q, savedReceiveMessage = None, savedMessageNext = False,
     started = [q], passed_on = [], timer = None, delays = [], broken = False\<rparr>"

definition onReceiveStatus :: "retry_options \<Rightarrow> status_object \<Rightarrow> rat \<Rightarrow> ('q, 'r) retry_state \<Rightarrow> ('q, 'r) retry_state" where
  "onReceiveStatus opts st rnd s =
     (if retryableDecider opts (rt_attempt s) st
      then (let d = delayFunction opts rnd (rt_attempt s) st in s\<lparr>timer := Some d, delays := delays s @ [d]\<rparr>)
      else if savedMessageNext s then s\<lparr>passed_on := passed_on s @ [(savedReceiveMessage s, st)]\<rparr>
      else s\<lparr>broken := True\<rparr>)"

definition retry :: "('q, 'r) retry_state \<Rightarrow> ('q, 'r) retry_state" where
  "retry s = s\<lparr>rt_attempt := rt_attempt s + 1, started := started s @ [savedSendMessage s], timer := None\<rparr>"

fun retry_step :: "retry_options \<Rightarrow> 'r retry_event \<Rightarrow> ('q, 'r) retry_state \<Rightarrow> ('q, 'r) retry_state" where
  "retry_step opts (OnReceiveMessage m) s =
     s\<lparr>savedReceiveMessage := Some m, savedMessageNext := savedMessageNext s \<or> rt_attempt s = 1\<rparr>"
| "retry_step opts (OnReceiveStatus st rnd) s = onReceiveStatus opts st rnd s"
| "retry_step opts TimerFires s = (if timer s = None then s else retry s)"

text \<open>
  A unary call of \<^verbatim>\<open>grpc-js\<close> answers with one message, \<open>null\<close> when the call failed, and then one status. \<open>answers n\<close> is what
  the \<open>n\<close>-th call is answered with, and \<open>rnd n\<close> the random number that is drawn then. The fuel counts calls.
\<close>

fun retry_run :: "retry_options \<Rightarrow> (nat \<Rightarrow> 'r \<times> status_object) \<Rightarrow> (nat \<Rightarrow> rat) \<Rightarrow> nat \<Rightarrow> ('q, 'r) retry_state \<Rightarrow> ('q, 'r) retry_state option" where
  "retry_run opts answers rnd 0 s = None"
| "retry_run opts answers rnd (Suc fuel) s =
     (let n = rt_attempt s;
          s1 = retry_step opts (OnReceiveMessage (fst (answers n))) s;
          s2 = retry_step opts (OnReceiveStatus (snd (answers n)) (rnd n)) s1
      in if timer s2 = None then Some s2 else retry_run opts answers rnd fuel (retry_step opts TimerFires s2))"

section \<open>Bounds\<close>

text \<open>The number of the call that is not repeated: the first one that is not worth a retry, or the last one allowed.\<close>

fun last_attempt :: "nat \<Rightarrow> (nat \<Rightarrow> bool) \<Rightarrow> nat \<Rightarrow> nat" where
  "last_attempt 0 P n = n"
| "last_attempt (Suc k) P n = (if P n then last_attempt k P (Suc n) else n)"

lemma last_attempt_range: "n \<le> last_attempt k P n \<and> last_attempt k P n \<le> n + k"
proof (induction k arbitrary: n)
  case (Suc k)
  show ?case using Suc [of "Suc n"] by auto
qed simp

lemma last_attempt_before: "n \<le> i \<Longrightarrow> i < last_attempt k P n \<Longrightarrow> P i"
proof (induction k arbitrary: n)
  case (Suc k)
  show ?case
  proof (cases "i = n")
    case True
    then show ?thesis using Suc.prems by (auto split: if_splits)
  next
    case False
    then show ?thesis using Suc.prems Suc.IH [of "Suc n"] by (auto split: if_splits)
  qed
qed simp

lemma last_attempt_stops: "last_attempt k P n < n + k \<Longrightarrow> \<not> P (last_attempt k P n)"
proof (induction k arbitrary: n)
  case (Suc k)
  then show ?case using Suc.IH [of "Suc n"] by (auto split: if_splits)
qed simp

definition retry_inv :: "'q \<Rightarrow> ('q, 'r) retry_state \<Rightarrow> bool" where
  "retry_inv q s \<longleftrightarrow> 1 \<le> rt_attempt s \<and> savedSendMessage s = q \<and> (1 < rt_attempt s \<longrightarrow> savedMessageNext s) \<and>
     started s = replicate (rt_attempt s) q \<and> passed_on s = [] \<and> timer s = None \<and> \<not> broken s \<and>
     length (delays s) = rt_attempt s - 1"

lemma retry_run_stops:
  assumes "retry_inv q s" and "\<not> retryableDecider opts (rt_attempt s) (snd (answers (rt_attempt s)))"
  shows "retry_run opts answers rnd (Suc k) s = Some (s\<lparr>savedReceiveMessage := Some (fst (answers (rt_attempt s))),
     savedMessageNext := True, passed_on := [(Some (fst (answers (rt_attempt s))), snd (answers (rt_attempt s)))]\<rparr>)"
proof -
  have "savedMessageNext s \<or> rt_attempt s = 1" "timer s = None" "passed_on s = []"
    using assms(1) by (auto simp: retry_inv_def)
  then show ?thesis using assms(2) by (simp add: onReceiveStatus_def Let_def)
qed

lemma retry_run_outcome:
  fixes bo
  defines "opts \<equiv> defaultGrpcRetryOptions bo"
  assumes "retry_inv q s" and "maxAttempts (withDefaultBackoffOptions bo) \<le> rt_attempt s + k"
    and "\<forall>d \<in> set (delays s). \<exists>n. d = delayFunction opts (rnd n) n (snd (answers n))"
  shows "\<exists>s'. retry_run opts answers rnd (Suc k) s = Some s' \<and>
     rt_attempt s' = last_attempt (maxAttempts (withDefaultBackoffOptions bo) - rt_attempt s) (\<lambda>n. isRetryableError (snd (answers n))) (rt_attempt s) \<and>
     started s' = replicate (rt_attempt s') q \<and> passed_on s' = [(Some (fst (answers (rt_attempt s'))), snd (answers (rt_attempt s')))] \<and>
     \<not> broken s' \<and> length (delays s') = rt_attempt s' - 1 \<and>
     (\<forall>d \<in> set (delays s'). \<exists>n. d = delayFunction opts (rnd n) n (snd (answers n)))"
  using assms(2-)
proof (induction k arbitrary: s)
  case 0
  then have "\<not> retryableDecider opts (rt_attempt s) (snd (answers (rt_attempt s)))"
    by (simp add: opts_def defaultGrpcRetryOptions_def Let_def)
  note retry_run_stops [where k = 0 and answers = answers and rnd = rnd, OF 0(1) this]
  then show ?case using 0 by (simp add: retry_inv_def)
next
  case (Suc k)
  let ?n = "rt_attempt s"
  let ?m = "maxAttempts (withDefaultBackoffOptions bo)"
  show ?case
  proof (cases "?n < ?m \<and> isRetryableError (snd (answers ?n))")
    case False
    then have "last_attempt (?m - ?n) (\<lambda>n. isRetryableError (snd (answers n))) ?n = ?n"
      by (cases "?m - ?n") auto
    moreover have "\<not> retryableDecider opts ?n (snd (answers ?n))"
      using False by (simp add: opts_def defaultGrpcRetryOptions_def Let_def)
    note retry_run_stops [where k = "Suc k" and answers = answers and rnd = rnd, OF Suc.prems(1) this]
    ultimately show ?thesis using Suc.prems(1,3) by (simp add: retry_inv_def)
  next
    case True
    then obtain j where j: "?m - ?n = Suc j" by (metis Suc_diff_Suc)
    define s' where "s' = retry_step opts TimerFires (retry_step opts (OnReceiveStatus (snd (answers ?n)) (rnd ?n))
       (retry_step opts (OnReceiveMessage (fst (answers ?n))) s))"
    have dec: "retryableDecider opts ?n (snd (answers ?n))"
      using True by (simp add: opts_def defaultGrpcRetryOptions_def Let_def)
    have n': "rt_attempt s' = Suc ?n" and d': "delays s' = delays s @ [delayFunction opts (rnd ?n) ?n (snd (answers ?n))]"
      using dec by (simp_all add: s'_def onReceiveStatus_def Let_def retry_def)
    have inv: "retry_inv q s'"
      using dec Suc.prems(1)
      by (simp add: s'_def onReceiveStatus_def Let_def retry_def retry_inv_def replicate_append_same, linarith)
    have "?m - rt_attempt s' = j" using j n' by simp
    moreover have "retry_run opts answers rnd (Suc (Suc k)) s = retry_run opts answers rnd (Suc k) s'"
      using dec by (simp add: s'_def onReceiveStatus_def Let_def)
    moreover have "last_attempt (Suc j) (\<lambda>n. isRetryableError (snd (answers n))) ?n =
        last_attempt j (\<lambda>n. isRetryableError (snd (answers n))) (Suc ?n)" using True by simp
    moreover have "\<forall>d \<in> set (delays s'). \<exists>n. d = delayFunction opts (rnd n) n (snd (answers n))"
      using Suc.prems(3) d' by auto
    moreover have "?m \<le> rt_attempt s' + k" using Suc.prems(2) n' by simp
    ultimately show ?thesis using Suc.IH [OF inv] n' j by (simp only:)
  qed
qed

text \<open>The wait of one retry, with a jitter between none and its maximum.\<close>

lemma jitter_bounds:
  assumes "0 \<le> mx" "mx \<le> 1" "0 \<le> r" "r < 1"
  shows "0 \<le> jitter r mx \<and> jitter r mx \<le> 1 + mx"
proof -
  have r: "0 \<le> r * mx" "r * mx \<le> mx" using assms by (simp_all add: mult_left_le_one_le)
  then show ?thesis using assms unfolding jitter_def by linarith
qed

lemma delay_bounds:
  fixes bo
  defines "b \<equiv> withDefaultBackoffOptions bo"
  assumes "0 \<le> maxJitter b" "maxJitter b \<le> 1" "0 \<le> factor b" "\<And>st. 0 \<le> initialIntervalMs b st" "\<And>st. 0 \<le> maxIntervalMs b st"
    and "0 \<le> r" "r < 1"
  shows "0 \<le> delayFunction (defaultGrpcRetryOptions bo) r n st \<and>
     delayFunction (defaultGrpcRetryOptions bo) r n st \<le> maxIntervalMs b st * (1 + maxJitter b)"
proof -
  let ?i = "min (maxIntervalMs b st) (factor b ^ n * initialIntervalMs b st)"
  have j: "0 \<le> jitter r (maxJitter b)" "jitter r (maxJitter b) \<le> 1 + maxJitter b"
    using jitter_bounds assms by auto
  have i: "0 \<le> ?i" "?i \<le> maxIntervalMs b st" using assms by auto
  have "?i * jitter r (maxJitter b) \<le> maxIntervalMs b st * (1 + maxJitter b)"
    using mult_mono [OF i(2) j(2)] assms i j by auto
  then show ?thesis using i j by (simp add: defaultGrpcRetryOptions_def b_def Let_def)
qed

text \<open>
  C37: (Bounds.) With the default decisions, whatever a server answers, a call is started at least once and at most
  \<open>maxAttempts\<close> times, always with the message of the caller; every call before the last one failed with an error that is
  worth a retry; the caller gets exactly one message and status, those of the last call, which is not worth a
  retry or is the last one allowed; and between two calls the interceptor waits at most the maximum interval plus the jitter.
\<close>

theorem retries_bounded:
  fixes bo
  defines "b \<equiv> withDefaultBackoffOptions bo" and "opts \<equiv> defaultGrpcRetryOptions bo"
  assumes "0 \<le> maxJitter b" "maxJitter b \<le> 1" "0 \<le> factor b" "\<And>st. 0 \<le> initialIntervalMs b st" "\<And>st. 0 \<le> maxIntervalMs b st"
    and "\<And>n. 0 \<le> rnd n \<and> rnd n < 1"
  shows "\<exists>s. retry_run opts answers rnd (max 1 (maxAttempts b)) (makeGrpcRetryInterceptor q) = Some s \<and>
     1 \<le> rt_attempt s \<and> rt_attempt s \<le> max 1 (maxAttempts b) \<and> started s = replicate (rt_attempt s) q \<and>
     (\<forall>n. 1 \<le> n \<and> n < rt_attempt s \<longrightarrow> isRetryableError (snd (answers n))) \<and>
     (rt_attempt s < maxAttempts b \<longrightarrow> \<not> isRetryableError (snd (answers (rt_attempt s)))) \<and>
     passed_on s = [(Some (fst (answers (rt_attempt s))), snd (answers (rt_attempt s)))] \<and> \<not> broken s \<and>
     length (delays s) = rt_attempt s - 1 \<and> (\<forall>d \<in> set (delays s). \<exists>st. 0 \<le> d \<and> d \<le> maxIntervalMs b st * (1 + maxJitter b))"
proof -
  let ?P = "\<lambda>n. isRetryableError (snd (answers n))"
  have inv: "retry_inv q (makeGrpcRetryInterceptor q)"
    by (simp add: retry_inv_def makeGrpcRetryInterceptor_def)
  obtain k where k: "max 1 (maxAttempts b) = Suc k" by (metis One_nat_def Suc_le_D max.cobounded1)
  then have m: "maxAttempts b \<le> Suc k" by linarith
  obtain s where s: "retry_run opts answers rnd (Suc k) (makeGrpcRetryInterceptor q) = Some s"
    "rt_attempt s = last_attempt (maxAttempts b - 1) ?P 1" "started s = replicate (rt_attempt s) q"
    "passed_on s = [(Some (fst (answers (rt_attempt s))), snd (answers (rt_attempt s)))]" "\<not> broken s"
    "length (delays s) = rt_attempt s - 1" "\<forall>d \<in> set (delays s). \<exists>n. d = delayFunction opts (rnd n) n (snd (answers n))"
    using retry_run_outcome [OF inv, of bo k rnd answers] m
    by (auto simp: makeGrpcRetryInterceptor_def b_def opts_def)
  have "1 \<le> rt_attempt s \<and> rt_attempt s \<le> max 1 (maxAttempts b)"
    using last_attempt_range [of 1 "maxAttempts b - 1" ?P] s(2) by (simp add: le_max_iff_disj) linarith
  moreover have "\<forall>n. 1 \<le> n \<and> n < rt_attempt s \<longrightarrow> ?P n" using last_attempt_before s(2) by metis
  moreover have "rt_attempt s < maxAttempts b \<longrightarrow> \<not> ?P (rt_attempt s)"
    using last_attempt_stops [of "maxAttempts b - 1" ?P 1] s(2) by auto
  moreover have "\<forall>d \<in> set (delays s). \<exists>st. 0 \<le> d \<and> d \<le> maxIntervalMs b st * (1 + maxJitter b)"
  proof
    fix d
    assume "d \<in> set (delays s)"
    then obtain n where "d = delayFunction opts (rnd n) n (snd (answers n))" using s(7) by blast
    then show "\<exists>st. 0 \<le> d \<and> d \<le> maxIntervalMs b st * (1 + maxJitter b)"
      using delay_bounds [of bo "rnd n" n "snd (answers n)"] assms(3-) unfolding b_def opts_def by blast
  qed
  ultimately show ?thesis using s k by metis
qed

definition no_backoff_options :: backoff_options where
  "no_backoff_options = \<lparr>bo_factor = None, bo_maxAttempts = None, bo_maxJitter = None, bo_initialIntervalMs = None, bo_maxIntervalMs = None\<rparr>"

theorem retries_bounded_witness:
  "\<exists>s. retry_run (defaultGrpcRetryOptions no_backoff_options) (\<lambda>n. (n, \<lparr>st_code = 14, st_details = ''down''\<rparr>)) (\<lambda>n. 1 / 2)
      (max 1 (maxAttempts (withDefaultBackoffOptions no_backoff_options))) (makeGrpcRetryInterceptor ''ping'') = Some s \<and>
     1 \<le> rt_attempt s \<and> rt_attempt s \<le> 10 \<and> started s = replicate (rt_attempt s) ''ping''"
  using retries_bounded [of no_backoff_options "\<lambda>n. 1 / 2" "\<lambda>n. (n, \<lparr>st_code = 14, st_details = ''down''\<rparr>)" "''ping''"]
  by (fastforce simp: withDefaultBackoffOptions_def no_backoff_options_def or_default_def defaultInitialIntervalMs_def)

end
