(* ===== verification/ClientErrors.thy ===== *)
theory ClientErrors
  imports GrpcRetry
begin

text \<open>
  The errors of the client, \<^verbatim>\<open>packages/client/src/errors.ts\<close>, and what the client makes of the errors of a remote procedure call:
  \<^verbatim>\<open>packages/client/src/helpers.ts\<close> and the methods \<^verbatim>\<open>rethrowGrpcError\<close>, \<^verbatim>\<open>rethrowUpdateGrpcError\<close> and \<^verbatim>\<open>handleError\<close>. The decoders
  of protobuf messages are generated code: a record of functions. The stack of an error is not modelled.
\<close>

section \<open>Errors\<close>

record any_entry =
  type_url :: "string option"
  any_value :: "string option"

record rpc_status =
  rs_code :: int
  rs_message :: string
  rs_details :: "any_entry list option"

text \<open>\<open>ge_statusBin\<close> is the first value of \<^verbatim>\<open>grpc-status-details-bin\<close> among the metadata, when it is a buffer.\<close>

record grpc_error =
  ge_code :: int
  ge_details :: string
  ge_message :: string
  ge_statusBin :: "string option"

datatype client_error =
    GrpcServiceError grpc_error
  | Thrown js_error
  | ServiceError string client_error
  | WorkflowNotFoundError string string "string option"
  | WorkflowFailedError string "js_error option" "string option"
  | WorkflowUpdateFailedError string "js_error option"
  | WorkflowUpdateRPCTimeoutOrCancelledError string client_error
  | WorkflowContinuedAsNewError string string
  | QueryRejectedError int
  | QueryNotRegisteredError string int
  | ActivityNotFoundError string
  | ActivityCompletionError string "client_error option"
  | ActivityCancelledError string
  | ActivityResetError string
  | ActivityPausedError string
  | ScheduleAlreadyRunning string string
  | ScheduleNotFoundError string string

fun isGrpcServiceError :: "client_error \<Rightarrow> bool" where
  "isGrpcServiceError (GrpcServiceError e) = True"
| "isGrpcServiceError _ = False"

text \<open>
  The loop of \<^verbatim>\<open>isGrpcDeadlineError\<close> and \<^verbatim>\<open>isGrpcCancelledError\<close> along the causes of an error; an error of the kind \<open>Thrown\<close> has no
  gRPC error among its causes.
\<close>

fun has_grpc_cause :: "int \<Rightarrow> client_error \<Rightarrow> bool" where
  "has_grpc_cause code (GrpcServiceError e) = (ge_code e = code)"
| "has_grpc_cause code (ServiceError m c) = has_grpc_cause code c"
| "has_grpc_cause code (WorkflowUpdateRPCTimeoutOrCancelledError m c) = has_grpc_cause code c"
| "has_grpc_cause code (ActivityCompletionError m c) = (case c of None \<Rightarrow> False | Some d \<Rightarrow> has_grpc_cause code d)"
| "has_grpc_cause code _ = False"

definition isGrpcDeadlineError :: "client_error \<Rightarrow> bool" where
  "isGrpcDeadlineError e = has_grpc_cause grpc_DEADLINE_EXCEEDED e"

definition isGrpcCancelledError :: "client_error \<Rightarrow> bool" where
  "isGrpcCancelledError e = has_grpc_cause grpc_CANCELLED e"

fun is_ExternalStorageError :: "client_error \<Rightarrow> bool" where
  "is_ExternalStorageError (Thrown e) = (''ExternalStorageError'' \<in> snd ` set (classes_of e))"
| "is_ExternalStorageError _ = False"

section \<open>Known error types\<close>

record proto_decoders =
  pd_status :: "string \<Rightarrow> js_error + any_entry list"
  pd_namespaceNotFound :: "string \<Rightarrow> js_error + string"
  pd_multiOperation :: "string \<Rightarrow> js_error + rpc_status list"
  pd_alreadyStarted :: "string \<Rightarrow> js_error + string"
  pd_text :: "string \<Rightarrow> string"

definition getGrpcStatusDetails :: "proto_decoders \<Rightarrow> grpc_error \<Rightarrow> js_error + any_entry list" where
  "getGrpcStatusDetails pd e = (case ge_statusBin e of None \<Rightarrow> Inr [] | Some b \<Rightarrow> pd_status pd b)"

text \<open>The dots of the regular expression \<^verbatim>\<open>/^type.googleapis.com\//\<close> stand for any character but a line break.\<close>

definition matches_dot :: "char \<Rightarrow> char \<Rightarrow> bool" where
  "matches_dot pat c = (if pat = CHR ''.'' then of_char c \<noteq> (10::nat) \<and> of_char c \<noteq> (13::nat) else pat = c)"

definition trimGrpcTypeUrl :: "string option \<Rightarrow> string" where
  "trimGrpcTypeUrl url = (case url of
     None \<Rightarrow> []
   | Some u \<Rightarrow> if length u \<ge> 20 \<and> list_all2 matches_dot ''type.googleapis.com/'' (take 20 u) then drop 20 u else u)"

text \<open>The first status of a failed multi-operation that was not aborted because of another one.\<close>

fun first_cause :: "rpc_status list \<Rightarrow> rpc_status option" where
  "first_cause [] = None"
| "first_cause (s # ss) =
     (let detail = (case rs_details s of None \<Rightarrow> None | Some [] \<Rightarrow> None | Some (d # _) \<Rightarrow> Some d);
          statusType = trimGrpcTypeUrl (Option.bind detail type_url)
      in if statusType = ''temporal.api.failure.v1.MultiOperationExecutionAborted'' \<or> rs_code s = grpc_OK then first_cause ss
         else Some s)"

definition rewritten_error :: "proto_decoders \<Rightarrow> grpc_error \<Rightarrow> rpc_status \<Rightarrow> grpc_error" where
  "rewritten_error pd e s =
     (let detail = (case rs_details s of None \<Rightarrow> None | Some [] \<Rightarrow> None | Some (d # _) \<Rightarrow> Some d);
          text = (case Option.bind detail any_value of None \<Rightarrow> [] | Some b \<Rightarrow> pd_text pd b)
      in e\<lparr>ge_message := rs_message s, ge_code := (if rs_code s \<noteq> 0 then rs_code s else ge_code e),
           ge_details := (if text \<noteq> [] then text else ge_details e)\<rparr>)"

fun known_error_in :: "proto_decoders \<Rightarrow> grpc_error \<Rightarrow> any_entry list \<Rightarrow> client_error + unit" where
  "known_error_in pd e [] = Inr ()"
| "known_error_in pd e (a # as) =
     (if type_url a = None \<or> type_url a = Some [] \<or> any_value a = None then known_error_in pd e as
      else if trimGrpcTypeUrl (type_url a) = ''temporal.api.errordetails.v1.NamespaceNotFoundFailure''
      then (case pd_namespaceNotFound pd (the (any_value a)) of
              Inl e' \<Rightarrow> Inl (Thrown e') | Inr ns \<Rightarrow> Inl (Thrown (NamespaceNotFoundError ns)))
      else if trimGrpcTypeUrl (type_url a) = ''temporal.api.errordetails.v1.MultiOperationExecutionFailure''
      then (case pd_multiOperation pd (the (any_value a)) of
              Inl e' \<Rightarrow> Inl (Thrown e')
            | Inr ss \<Rightarrow> (case first_cause ss of
                Some s \<Rightarrow> Inl (GrpcServiceError (rewritten_error pd e s))
              | None \<Rightarrow> known_error_in pd e as))
      else known_error_in pd e as)"

definition rethrowKnownErrorTypes :: "proto_decoders \<Rightarrow> grpc_error \<Rightarrow> client_error + unit" where
  "rethrowKnownErrorTypes pd e = (case getGrpcStatusDetails pd e of
     Inl e' \<Rightarrow> Inl (Thrown e') | Inr as \<Rightarrow> known_error_in pd e as)"

fun started_run_in :: "proto_decoders \<Rightarrow> any_entry list \<Rightarrow> js_error + string option" where
  "started_run_in pd [] = Inr None"
| "started_run_in pd (a # as) =
     (if type_url a = None \<or> type_url a = Some [] \<or> any_value a = None then started_run_in pd as
      else if trimGrpcTypeUrl (type_url a) \<noteq> ''temporal.api.errordetails.v1.WorkflowExecutionAlreadyStartedFailure''
      then started_run_in pd as
      else bind_res (pd_alreadyStarted pd (the (any_value a))) (\<lambda>r. Inr (if r = [] then None else Some r)))"

definition extractWorkflowExecutionAlreadyStartedRunId :: "proto_decoders \<Rightarrow> grpc_error \<Rightarrow> string option" where
  "extractWorkflowExecutionAlreadyStartedRunId pd e =
     (case bind_res (getGrpcStatusDetails pd e) (started_run_in pd) of Inl _ \<Rightarrow> None | Inr r \<Rightarrow> r)"

section \<open>What the clients throw\<close>

text \<open>The methods that never return: the error they throw.\<close>

definition rethrowGrpcError :: "proto_decoders \<Rightarrow> client_error \<Rightarrow> string \<Rightarrow> workflow_execution option \<Rightarrow> client_error" where
  "rethrowGrpcError pd err fallbackMessage exec = (case err of
     GrpcServiceError e \<Rightarrow> (case rethrowKnownErrorTypes pd e of
       Inl e' \<Rightarrow> e'
     | Inr _ \<Rightarrow>
         if ge_code e = grpc_NOT_FOUND
         then WorkflowNotFoundError (ge_details e)
                (case Option.bind exec ex_workflowId of None \<Rightarrow> [] | Some i \<Rightarrow> i) (Option.bind exec ex_runId)
         else ServiceError fallbackMessage err)
   | _ \<Rightarrow> if is_ExternalStorageError err then ServiceError ''External storage failed'' err
          else ServiceError ''Unexpected error while making gRPC request'' err)"

definition rethrowUpdateGrpcError :: "proto_decoders \<Rightarrow> client_error \<Rightarrow> string \<Rightarrow> workflow_execution option \<Rightarrow> client_error" where
  "rethrowUpdateGrpcError pd err fallbackMessage exec = (case err of
     GrpcServiceError e \<Rightarrow>
       if ge_code e = grpc_DEADLINE_EXCEEDED \<or> ge_code e = grpc_CANCELLED
       then WorkflowUpdateRPCTimeoutOrCancelledError (ge_details e) err
       else rethrowGrpcError pd err fallbackMessage exec
   | Thrown e \<Rightarrow>
       if is_CancelledFailure e then WorkflowUpdateRPCTimeoutOrCancelledError (err_message e) err
       else rethrowGrpcError pd err fallbackMessage exec
   | _ \<Rightarrow> rethrowGrpcError pd err fallbackMessage exec)"

text \<open>\<^verbatim>\<open>handleError\<close> of the client for the asynchronous completion of activities.\<close>

definition handleError :: "proto_decoders \<Rightarrow> client_error \<Rightarrow> client_error" where
  "handleError pd err = (case err of
     GrpcServiceError e \<Rightarrow> (case rethrowKnownErrorTypes pd e of
       Inl e' \<Rightarrow> e'
     | Inr _ \<Rightarrow>
         if ge_code e = grpc_NOT_FOUND then ActivityNotFoundError ''Not found''
         else ActivityCompletionError (if ge_details e \<noteq> [] then ge_details e else ge_message e) None)
   | _ \<Rightarrow> if is_ExternalStorageError err then ActivityCompletionError ''External storage failed'' (Some err)
          else ActivityCompletionError ''Unexpected failure'' (Some err))"

end
