(* ===== verification/Codecs.thy ===== *)
theory Codecs
  imports FailureConverter
begin

text \<open>
  Payload codecs, \<^verbatim>\<open>packages/common/src/internal-non-workflow/codec-helpers.ts\<close>: the functions that take values
  and errors of the user through the payload converter and then through a list of codecs, and back. A
  codec is code of the user: two functions on lists of payloads that may throw. The functions of the
  source that map several payloads at once start all conversions together; the error of the model is the one of
  the first entry that fails.
\<close>

section \<open>Codecs and data converters\<close>

record payload_codec =
  cd_encode :: "payload list \<Rightarrow> serialization_context option \<Rightarrow> js_error + payload list"
  cd_decode :: "payload list \<Rightarrow> serialization_context option \<Rightarrow> js_error + payload list"

record data_converter =
  payloadConverter :: payload_converter
  dc_errorToFailure :: "js_error \<Rightarrow> payload_converter \<Rightarrow> serialization_context option \<Rightarrow> js_error + proto_failure"
  dc_failureToError :: "proto_failure \<Rightarrow> payload_converter \<Rightarrow> serialization_context option \<Rightarrow> js_error + js_error"
  payloadCodecs :: "payload_codec list"

text \<open>The loops run through the codecs from the first to the last, and back.\<close>

fun encode_codecs :: "payload_codec list \<Rightarrow> payload list \<Rightarrow> serialization_context option \<Rightarrow> js_error + payload list" where
  "encode_codecs [] ps ctx = Inr ps"
| "encode_codecs (c # cs) ps ctx = bind_res (cd_encode c ps ctx) (\<lambda>qs. encode_codecs cs qs ctx)"

definition decode_codecs :: "payload_codec list \<Rightarrow> payload list \<Rightarrow> serialization_context option \<Rightarrow> js_error + payload list" where
  "decode_codecs cs ps ctx = foldr (\<lambda>c r. bind_res r (\<lambda>qs. cd_decode c qs ctx)) cs (Inr ps)"

definition decodeOptional ::
  "payload_codec list \<Rightarrow> payload list option \<Rightarrow> serialization_context option \<Rightarrow> js_error + payload list option" where
  "decodeOptional cs ps ctx = (case ps of
     None \<Rightarrow> Inr None
   | Some qs \<Rightarrow> bind_res (decode_codecs cs qs ctx) (\<lambda>rs. Inr (Some rs)))"

text \<open>The first element of what a codec returned, \<open>undefined\<close> when it returned nothing.\<close>

definition first_payload :: "payload list \<Rightarrow> payload option" where
  "first_payload ps = (case ps of [] \<Rightarrow> None | p # _ \<Rightarrow> Some p)"

definition encodeSingle :: "payload_codec list \<Rightarrow> payload \<Rightarrow> serialization_context option \<Rightarrow> js_error + payload option" where
  "encodeSingle cs p ctx = bind_res (encode_codecs cs [p] ctx) (\<lambda>qs. Inr (first_payload qs))"

definition decodeSingle :: "payload_codec list \<Rightarrow> payload \<Rightarrow> serialization_context option \<Rightarrow> js_error + payload option" where
  "decodeSingle cs p ctx = bind_res (decode_codecs cs [p] ctx) (\<lambda>qs. Inr (first_payload qs))"

definition encodeOptionalSingle ::
  "payload_codec list \<Rightarrow> payload option \<Rightarrow> serialization_context option \<Rightarrow> js_error + payload option" where
  "encodeOptionalSingle cs p ctx = (case p of None \<Rightarrow> Inr None | Some q \<Rightarrow> encodeSingle cs q ctx)"

definition decodeOptionalSingle ::
  "payload_codec list \<Rightarrow> payload option \<Rightarrow> serialization_context option \<Rightarrow> js_error + payload option" where
  "decodeOptionalSingle cs p ctx = (case p of None \<Rightarrow> Inr None | Some q \<Rightarrow> decodeSingle cs q ctx)"

definition decodeOptionalSinglePayload ::
  "data_converter \<Rightarrow> payload option \<Rightarrow> serialization_context option \<Rightarrow> js_error + jsval option" where
  "decodeOptionalSinglePayload dc p ctx =
     bind_res (decodeOptionalSingle (payloadCodecs dc) p ctx) (\<lambda>d. case d of
       None \<Rightarrow> Inr None
     | Some q \<Rightarrow> bind_res (fromPayload (payloadConverter dc) q ctx None) (\<lambda>v. Inr (Some v)))"

section \<open>Values\<close>

definition encodeToPayload ::
  "data_converter \<Rightarrow> jsval \<Rightarrow> serialization_context option \<Rightarrow> type_info option \<Rightarrow> js_error + payload option" where
  "encodeToPayload dc v ctx ti =
     bind_res (toPayloadWithTypeInfo (payloadConverter dc) v ctx ti) (\<lambda>p. encodeSingle (payloadCodecs dc) p ctx)"

definition decodeArrayFromPayloads ::
  "data_converter \<Rightarrow> payload list option \<Rightarrow> serialization_context option \<Rightarrow> type_info list option \<Rightarrow> js_error + jsval list" where
  "decodeArrayFromPayloads dc ps ctx tis =
     bind_res (decodeOptional (payloadCodecs dc) ps ctx) (\<lambda>qs. arrayFromPayloads (payloadConverter dc) qs ctx tis)"

definition decodeFromPayloadsAtIndex ::
  "data_converter \<Rightarrow> nat \<Rightarrow> payload list option \<Rightarrow> serialization_context option \<Rightarrow> type_info option \<Rightarrow> js_error + jsval" where
  "decodeFromPayloadsAtIndex dc i ps ctx ti =
     bind_res (decodeOptional (payloadCodecs dc) ps ctx) (\<lambda>qs. fromPayloadsAtIndex (payloadConverter dc) i qs ctx ti)"

definition encodeToPayloadsWithContext ::
  "data_converter \<Rightarrow> serialization_context option \<Rightarrow> jsval list \<Rightarrow> type_info list option \<Rightarrow> js_error + payload list option" where
  "encodeToPayloadsWithContext dc ctx vs tis =
     (if vs = [] then Inr None
      else bind_res (toPayloadsWithContext (payloadConverter dc) ctx vs tis) (\<lambda>ps. case ps of
             None \<Rightarrow> Inr None
           | Some qs \<Rightarrow> bind_res (encode_codecs (payloadCodecs dc) qs ctx) (\<lambda>rs. Inr (Some rs))))"

definition encodeToPayloads :: "data_converter \<Rightarrow> jsval list \<Rightarrow> js_error + payload list option" where
  "encodeToPayloads dc vs = encodeToPayloadsWithContext dc None vs None"

text \<open>
  A converter that is given \<open>undefined\<close> in the place of a payload, because a codec returned nothing, fails as the default
  converter does: it reads a property of \<open>undefined\<close>.
\<close>

definition decodeMapFromPayloads ::
  "data_converter \<Rightarrow> (string \<times> payload) list option \<Rightarrow> serialization_context option \<Rightarrow> js_error + (string \<times> jsval) list option" where
  "decodeMapFromPayloads dc m ctx = (case m of
     None \<Rightarrow> Inr None
   | Some es \<Rightarrow> bind_res (map_res (\<lambda>(k, p). bind_res (decode_codecs (payloadCodecs dc) [p] ctx) (\<lambda>qs.
         case first_payload qs of
           None \<Rightarrow> Inl (TypeError ''Cannot read properties of undefined'')
         | Some q \<Rightarrow> bind_res (fromPayload (payloadConverter dc) q ctx None) (\<lambda>v. Inr (k, v)))) es)
       (\<lambda>vs. Inr (Some vs)))"

definition encodeMapToPayloads ::
  "data_converter \<Rightarrow> (string \<times> jsval) list \<Rightarrow> serialization_context option \<Rightarrow> js_error + (string \<times> payload option) list" where
  "encodeMapToPayloads dc m ctx =
     map_res (\<lambda>(k, v). bind_res (toPayload (payloadConverter dc) v ctx None) (\<lambda>p.
       bind_res (encode_codecs (payloadCodecs dc) [p] ctx) (\<lambda>qs. Inr (k, first_payload qs)))) m"

section \<open>Failures\<close>

definition optional_list :: "(payload list \<Rightarrow> js_error + payload list) \<Rightarrow> payload list option \<Rightarrow> js_error + payload list option" where
  "optional_list f ps = (case ps of None \<Rightarrow> Inr None | Some qs \<Rightarrow> bind_res (f qs) (\<lambda>rs. Inr (Some rs)))"

text \<open>The four kinds of information that hold payloads of the user, under a transformation of payload lists.\<close>

fun info_payloads :: "(payload list \<Rightarrow> js_error + payload list) \<Rightarrow> failure_info \<Rightarrow> js_error + failure_info" where
  "info_payloads f (ApplicationInfo t nr ds d c) = bind_res (optional_list f ds) (\<lambda>ds'. Inr (ApplicationInfo t nr ds' d c))"
| "info_payloads f (TimeoutInfo t ds) = bind_res (optional_list f ds) (\<lambda>ds'. Inr (TimeoutInfo t ds'))"
| "info_payloads f (CanceledInfo ds) = bind_res (optional_list f ds) (\<lambda>ds'. Inr (CanceledInfo ds'))"
| "info_payloads f (ResetWorkflowInfo ds) = bind_res (optional_list f ds) (\<lambda>ds'. Inr (ResetWorkflowInfo ds'))"
| "info_payloads f fi = Inr fi"

fun encodeFailure :: "payload_codec list \<Rightarrow> serialization_context option \<Rightarrow> proto_failure \<Rightarrow> js_error + proto_failure" where
  "encodeFailure cs ctx (Failure m src st attrs c fi) =
     bind_res (case attrs of None \<Rightarrow> Inr None
               | Some p \<Rightarrow> bind_res (encode_codecs cs [p] ctx) (\<lambda>qs. Inr (first_payload qs))) (\<lambda>attrs'.
     bind_res (case c of None \<Rightarrow> Inr None | Some g \<Rightarrow> bind_res (encodeFailure cs ctx g) (\<lambda>g'. Inr (Some g'))) (\<lambda>c'.
     bind_res (info_payloads (\<lambda>ps. encode_codecs cs ps ctx) fi) (\<lambda>fi'.
       Inr (Failure m src st attrs' c' fi'))))"

fun decodeFailure :: "payload_codec list \<Rightarrow> serialization_context option \<Rightarrow> proto_failure \<Rightarrow> js_error + proto_failure" where
  "decodeFailure cs ctx (Failure m src st attrs c fi) =
     bind_res (case attrs of None \<Rightarrow> Inr None
               | Some p \<Rightarrow> bind_res (decode_codecs cs [p] ctx) (\<lambda>qs. Inr (first_payload qs))) (\<lambda>attrs'.
     bind_res (case c of None \<Rightarrow> Inr None | Some g \<Rightarrow> bind_res (decodeFailure cs ctx g) (\<lambda>g'. Inr (Some g'))) (\<lambda>c'.
     bind_res (info_payloads (\<lambda>ps. decode_codecs cs ps ctx) fi) (\<lambda>fi'.
       Inr (Failure m src st attrs' c' fi'))))"

definition encodeErrorToFailure :: "data_converter \<Rightarrow> js_error \<Rightarrow> serialization_context option \<Rightarrow> js_error + proto_failure" where
  "encodeErrorToFailure dc e ctx =
     bind_res (dc_errorToFailure dc e (payloadConverter dc) ctx) (\<lambda>f. encodeFailure (payloadCodecs dc) ctx f)"

definition decodeOptionalFailureToOptionalError ::
  "data_converter \<Rightarrow> proto_failure option \<Rightarrow> serialization_context option \<Rightarrow> js_error + js_error option" where
  "decodeOptionalFailureToOptionalError dc f ctx = (case f of
     None \<Rightarrow> Inr None
   | Some g \<Rightarrow> bind_res (decodeFailure (payloadCodecs dc) ctx g) (\<lambda>h.
       bind_res (dc_failureToError dc h (payloadConverter dc) ctx) (\<lambda>e. Inr (Some e))))"

section \<open>User metadata\<close>

definition encodeUserMetadata ::
  "data_converter \<Rightarrow> string option \<Rightarrow> string option \<Rightarrow> serialization_context option \<Rightarrow> js_error + user_metadata option" where
  "encodeUserMetadata dc staticSummary staticDetails ctx =
     (if staticSummary = None \<and> staticDetails = None then Inr None
      else
        bind_res (convertOptionalToPayload (payloadConverter dc) staticSummary ctx) (\<lambda>sp.
        bind_res (encodeOptionalSingle (payloadCodecs dc) sp ctx) (\<lambda>summary.
        bind_res (convertOptionalToPayload (payloadConverter dc) staticDetails ctx) (\<lambda>dp.
        bind_res (encodeOptionalSingle (payloadCodecs dc) dp ctx) (\<lambda>details.
          if summary = None \<and> details = None then Inr None
          else Inr (Some \<lparr>um_summary = summary, um_details = details\<rparr>))))))"

text \<open>\<open>?? undefined\<close> turns the \<open>null\<close> a payload may stand for into \<open>undefined\<close>.\<close>

definition or_undefined :: "jsval option \<Rightarrow> jsval" where
  "or_undefined v = (case v of None \<Rightarrow> Undefined | Some w \<Rightarrow> (case w of Null \<Rightarrow> Undefined | _ \<Rightarrow> w))"

definition decodeUserMetadata ::
  "data_converter \<Rightarrow> user_metadata option \<Rightarrow> serialization_context option \<Rightarrow> js_error + jsval \<times> jsval" where
  "decodeUserMetadata dc md ctx = (case md of
     None \<Rightarrow> Inr (Undefined, Undefined)
   | Some m \<Rightarrow>
       bind_res (decodeOptionalSinglePayload dc (um_summary m) ctx) (\<lambda>staticSummary.
       bind_res (decodeOptionalSinglePayload dc (um_details m) ctx) (\<lambda>staticDetails.
         Inr (or_undefined staticSummary, or_undefined staticDetails))))"

section \<open>Round trips\<close>

text \<open>
  What the documentation of \<^verbatim>\<open>PayloadCodec\<close> asks of a codec: it takes every list of payloads, returns as many, and
  its decoder undoes its encoder.
\<close>

definition lossless_codec :: "payload_codec \<Rightarrow> bool" where
  "lossless_codec c = (\<forall>ps ctx. \<exists>qs. cd_encode c ps ctx = Inr qs \<and> length qs = length ps \<and> cd_decode c qs ctx = Inr ps)"

lemma codecs_roundtrip:
  assumes "list_all lossless_codec cs"
  shows "\<exists>qs. encode_codecs cs ps ctx = Inr qs \<and> length qs = length ps \<and> decode_codecs cs qs ctx = Inr ps"
  using assms
proof (induction cs arbitrary: ps)
  case (Cons c cs)
  obtain qs where q: "cd_encode c ps ctx = Inr qs" "length qs = length ps" "cd_decode c qs ctx = Inr ps"
    using Cons.prems by (auto simp: lossless_codec_def)
  obtain rs where "encode_codecs cs qs ctx = Inr rs" "length rs = length qs" "decode_codecs cs rs ctx = Inr qs"
    using Cons by auto
  then show ?case using q by (auto simp: decode_codecs_def)
qed (simp add: decode_codecs_def)

lemma single_roundtrip:
  assumes "list_all lossless_codec cs"
  shows "\<exists>q. encode_codecs cs [p] ctx = Inr [q] \<and> decode_codecs cs [q] ctx = Inr [p]"
  using codecs_roundtrip [OF assms, of "[p]" ctx] by (auto simp: length_Suc_conv)

lemma info_roundtrip:
  assumes "list_all lossless_codec cs"
  shows "\<exists>fi'. info_payloads (\<lambda>ps. encode_codecs cs ps ctx) fi = Inr fi' \<and>
     info_payloads (\<lambda>ps. decode_codecs cs ps ctx) fi' = Inr fi"
proof -
  have l: "\<exists>ds'. optional_list (\<lambda>ps. encode_codecs cs ps ctx) ds = Inr ds' \<and>
     optional_list (\<lambda>ps. decode_codecs cs ps ctx) ds' = Inr ds" for ds
  proof (cases ds)
    case (Some ps)
    then show ?thesis using codecs_roundtrip [OF assms, of ps ctx] by (auto simp: optional_list_def)
  qed (simp add: optional_list_def)
  show ?thesis
  proof (cases fi)
    case (ApplicationInfo t nr ds d c)
    then show ?thesis using l [of ds] by auto
  next
    case (TimeoutInfo t ds)
    then show ?thesis using l [of ds] by auto
  next
    case (CanceledInfo ds)
    then show ?thesis using l [of ds] by auto
  next
    case (ResetWorkflowInfo ds)
    then show ?thesis using l [of ds] by auto
  qed auto
qed

lemma failure_roundtrip:
  assumes "list_all lossless_codec cs"
  shows "\<exists>g. encodeFailure cs ctx f = Inr g \<and> decodeFailure cs ctx g = Inr f"
proof (induction f)
  case (Failure m src st attrs c fi)
  obtain a where a: "(case attrs of None \<Rightarrow> Inr None
      | Some p \<Rightarrow> bind_res (encode_codecs cs [p] ctx) (\<lambda>qs. Inr (first_payload qs))) = (Inr a :: js_error + payload option)"
    "(case a of None \<Rightarrow> Inr None
      | Some p \<Rightarrow> bind_res (decode_codecs cs [p] ctx) (\<lambda>qs. Inr (first_payload qs))) = (Inr attrs :: js_error + payload option)"
  proof (cases attrs)
    case (Some p)
    then obtain q where "encode_codecs cs [p] ctx = Inr [q]" "decode_codecs cs [q] ctx = Inr [p]"
      using single_roundtrip [OF assms, of p ctx] by blast
    then show ?thesis using that [of "Some q"] Some by (simp add: first_payload_def)
  qed (use that [of None] in simp)
  obtain c' where c: "(case c of None \<Rightarrow> Inr None | Some g \<Rightarrow> bind_res (encodeFailure cs ctx g) (\<lambda>g'. Inr (Some g'))) = Inr c'"
    "(case c' of None \<Rightarrow> Inr None | Some g \<Rightarrow> bind_res (decodeFailure cs ctx g) (\<lambda>g'. Inr (Some g'))) = Inr c"
  proof (cases c)
    case (Some g)
    then obtain g' where "encodeFailure cs ctx g = Inr g'" "decodeFailure cs ctx g' = Inr g" using Failure by auto
    then show ?thesis using that [of "Some g'"] Some by simp
  qed (use that [of None] in simp)
  show ?case using a c info_roundtrip [OF assms, of ctx fi] by auto
qed

lemma value_through_codecs:
  assumes "payloadConverter dc = DefaultPayloadConverter sv" and "list_all lossless_codec (payloadCodecs dc)" and "plain_value v"
  shows "\<exists>p q. toPayload (payloadConverter dc) v ctx None = Inr p \<and> encode_codecs (payloadCodecs dc) [p] ctx = Inr [q] \<and>
     decode_codecs (payloadCodecs dc) [q] ctx = Inr [p] \<and> fromPayload (payloadConverter dc) p ctx None = Inr v"
proof -
  obtain p where p: "toPayload (DefaultPayloadConverter sv) v ctx None = Inr p" using default_accepts [OF assms(3)] by blast
  moreover have "fromPayload (DefaultPayloadConverter sv) p ctx None = Inr v" by (rule default_conv.lossless [OF assms(3) p])
  ultimately show ?thesis using assms(1) single_roundtrip [OF assms(2), of p ctx] by auto
qed

lemma values_through_codecs:
  assumes "payloadConverter dc = DefaultPayloadConverter sv" and "list_all lossless_codec (payloadCodecs dc)" and "list_all plain_value vs"
  shows "\<exists>ps. encodeToPayloadsWithContext dc ctx vs None = Inr ps \<and> decodeArrayFromPayloads dc ps ctx None = Inr vs"
proof (cases vs)
  case Nil
  then show ?thesis by (simp add: encodeToPayloadsWithContext_def decodeArrayFromPayloads_def decodeOptional_def arrayFromPayloads_def)
next
  case (Cons v us)
  obtain ps where ps: "toPayloadsWithContext (DefaultPayloadConverter sv) ctx vs None = Inr ps"
    "arrayFromPayloads (DefaultPayloadConverter sv) ps ctx None = Inr vs"
    using default_values_roundtrip [OF assms(3)] by blast
  then obtain qs where "ps = Some qs" using Cons by (auto simp: toPayloadsWithContext_def bind_res_Inr_iff)
  then show ?thesis
    using ps Cons assms(1) codecs_roundtrip [OF assms(2), of qs ctx]
    by (auto simp: encodeToPayloadsWithContext_def decodeArrayFromPayloads_def decodeOptional_def)
qed

lemma map_through_codecs:
  assumes "payloadConverter dc = DefaultPayloadConverter sv" and "list_all lossless_codec (payloadCodecs dc)"
    and "list_all (\<lambda>(k, v). plain_value v) m"
  shows "\<exists>es. encodeMapToPayloads dc m ctx = Inr (map (\<lambda>(k, p). (k, Some p)) es) \<and>
     decodeMapFromPayloads dc (Some es) ctx = Inr (Some m)"
  using assms(3)
proof (induction m)
  case (Cons e m)
  obtain k v where e: "e = (k, v)" by force
  then obtain p q where pq: "toPayload (payloadConverter dc) v ctx None = Inr p"
      "encode_codecs (payloadCodecs dc) [p] ctx = Inr [q]" "decode_codecs (payloadCodecs dc) [q] ctx = Inr [p]"
      "fromPayload (payloadConverter dc) p ctx None = Inr v"
    using value_through_codecs [OF assms(1,2), of v ctx] Cons.prems by auto
  obtain es where "encodeMapToPayloads dc m ctx = Inr (map (\<lambda>(k, p). (k, Some p)) es)"
      "decodeMapFromPayloads dc (Some es) ctx = Inr (Some m)"
    using Cons by auto
  then have "encodeMapToPayloads dc (e # m) ctx = Inr (map (\<lambda>(k, p). (k, Some p)) ((k, q) # es)) \<and>
     decodeMapFromPayloads dc (Some ((k, q) # es)) ctx = Inr (Some (e # m))"
    using pq e by (simp add: encodeMapToPayloads_def decodeMapFromPayloads_def bind_res_Inr_iff first_payload_def)
  then show ?case by blast
qed (auto simp: encodeMapToPayloads_def decodeMapFromPayloads_def intro: exI [of _ "[]"])

definition string_value :: "string option \<Rightarrow> jsval" where
  "string_value s = (case s of None \<Rightarrow> Undefined | Some t \<Rightarrow> JStr t)"

lemma string_through_codecs:
  assumes "payloadConverter dc = DefaultPayloadConverter sv" and "list_all lossless_codec (payloadCodecs dc)"
  shows "\<exists>p q. convertOptionalToPayload (payloadConverter dc) s ctx = Inr p \<and> encodeOptionalSingle (payloadCodecs dc) p ctx = Inr q \<and>
     (q = None \<longleftrightarrow> s = None) \<and> (\<exists>v. decodeOptionalSinglePayload dc q ctx = Inr v \<and> or_undefined v = string_value s)"
proof (cases s)
  case None
  then show ?thesis
    by (simp add: convertOptionalToPayload_def encodeOptionalSingle_def decodeOptionalSinglePayload_def decodeOptionalSingle_def
        or_undefined_def string_value_def)
next
  case (Some t)
  have "plain_value (JStr t)" by simp
  from value_through_codecs [OF assms this, of ctx] obtain p q where "toPayload (payloadConverter dc) (JStr t) ctx None = Inr p"
      "encode_codecs (payloadCodecs dc) [p] ctx = Inr [q]" "decode_codecs (payloadCodecs dc) [q] ctx = Inr [p]"
      "fromPayload (payloadConverter dc) p ctx None = Inr (JStr t)"
    by blast
  then show ?thesis using Some
    by (auto simp: convertOptionalToPayload_def encodeOptionalSingle_def decodeOptionalSinglePayload_def decodeOptionalSingle_def
        encodeSingle_def decodeSingle_def first_payload_def or_undefined_def string_value_def intro!: exI [of _ "Some p"] exI [of _ "Some q"])
qed

lemma metadata_through_codecs:
  assumes "payloadConverter dc = DefaultPayloadConverter sv" and "list_all lossless_codec (payloadCodecs dc)"
  shows "\<exists>md. encodeUserMetadata dc s d ctx = Inr md \<and> decodeUserMetadata dc md ctx = Inr (string_value s, string_value d)"
proof -
  obtain p q v where s: "convertOptionalToPayload (payloadConverter dc) s ctx = Inr p" "encodeOptionalSingle (payloadCodecs dc) p ctx = Inr q"
    "q = None \<longleftrightarrow> s = None" "decodeOptionalSinglePayload dc q ctx = Inr v" "or_undefined v = string_value s"
    using string_through_codecs [OF assms, of s ctx] by blast
  obtain p' q' v' where d: "convertOptionalToPayload (payloadConverter dc) d ctx = Inr p'" "encodeOptionalSingle (payloadCodecs dc) p' ctx = Inr q'"
    "q' = None \<longleftrightarrow> d = None" "decodeOptionalSinglePayload dc q' ctx = Inr v'" "or_undefined v' = string_value d"
    using string_through_codecs [OF assms, of d ctx] by blast
  show ?thesis using s d by (auto simp: encodeUserMetadata_def decodeUserMetadata_def string_value_def)
qed

text \<open>The data converter a client or worker has when the user sets only codecs.\<close>

definition default_data_converter :: "(jsval \<Rightarrow> string) \<Rightarrow> failure_env \<Rightarrow> bool \<Rightarrow> payload_codec list \<Rightarrow> data_converter" where
  "default_data_converter sv env enc cs = \<lparr>payloadConverter = DefaultPayloadConverter sv,
     dc_errorToFailure = (\<lambda>e conv ctx. snd (errorToFailure_default env enc conv ctx e)),
     dc_failureToError = (\<lambda>f conv ctx. failureToError_default env conv ctx f), payloadCodecs = cs\<rparr>"

text \<open>
  C36: (Round trip.) With the default converters and any list of lossless codecs, what is sent arrives: a list of plain
  values, a map of plain values, a static summary and static details are encoded without an error and decoded to what
  they were, and an error with its chain of causes is encoded without an error and decoded to the error the receiver is
  expected to get.
\<close>

theorem data_through_codecs:
  fixes dc sv env enc cs
  defines "dc \<equiv> default_data_converter sv env enc cs"
  assumes "list_all lossless_codec cs"
  shows "(list_all plain_value vs \<longrightarrow>
       (\<exists>ps. encodeToPayloadsWithContext dc ctx vs None = Inr ps \<and> decodeArrayFromPayloads dc ps ctx None = Inr vs)) \<and>
     (list_all (\<lambda>(k, v). plain_value v) m \<longrightarrow>
       (\<exists>es. encodeMapToPayloads dc m ctx = Inr (map (\<lambda>(k, p). (k, Some p)) es) \<and>
          decodeMapFromPayloads dc (Some es) ctx = Inr (Some m))) \<and>
     (\<exists>md. encodeUserMetadata dc s d ctx = Inr md \<and> decodeUserMetadata dc md ctx = Inr (string_value s, string_value d)) \<and>
     (portable env e \<longrightarrow>
       (\<exists>f e'. encodeErrorToFailure dc e ctx = Inr f \<and> decodeOptionalFailureToOptionalError dc (Some f) ctx = Inr (Some e') \<and>
          erase e' = received e))"
proof (intro conjI impI)
  have dc: "payloadConverter dc = DefaultPayloadConverter sv" "list_all lossless_codec (payloadCodecs dc)" "payloadCodecs dc = cs"
    using assms(2) by (simp_all add: dc_def default_data_converter_def)
  show "\<exists>ps. encodeToPayloadsWithContext dc ctx vs None = Inr ps \<and> decodeArrayFromPayloads dc ps ctx None = Inr vs"
    if "list_all plain_value vs" using values_through_codecs [OF dc(1,2) that] .
  show "\<exists>es. encodeMapToPayloads dc m ctx = Inr (map (\<lambda>(k, p). (k, Some p)) es) \<and> decodeMapFromPayloads dc (Some es) ctx = Inr (Some m)"
    if "list_all (\<lambda>(k, v). plain_value v) m" using map_through_codecs [OF dc(1,2) that] .
  show "\<exists>md. encodeUserMetadata dc s d ctx = Inr md \<and> decodeUserMetadata dc md ctx = Inr (string_value s, string_value d)"
    using metadata_through_codecs [OF dc(1,2)] .
  assume "portable env e"
  then obtain f e' where "errorToFailure_default env enc (DefaultPayloadConverter sv) ctx e = (e, Inr f)"
      "failureToError_default env (DefaultPayloadConverter sv) ctx f = Inr e'" "erase e' = received e"
    using portable_delivered by blast
  moreover obtain g where "encodeFailure cs ctx f = Inr g" "decodeFailure cs ctx g = Inr f"
    using failure_roundtrip [OF assms(2)] by blast
  ultimately show "\<exists>f e'. encodeErrorToFailure dc e ctx = Inr f \<and>
      decodeOptionalFailureToOptionalError dc (Some f) ctx = Inr (Some e') \<and> erase e' = received e"
    by (auto simp: encodeErrorToFailure_def decodeOptionalFailureToOptionalError_def dc_def default_data_converter_def)
qed

text \<open>A codec that reverses the bytes of every payload.\<close>

definition reverse_codec :: payload_codec where
  "reverse_codec = (let f = (\<lambda>ps ctx. Inr (map (\<lambda>p. p\<lparr>data := map_option rev (data p)\<rparr>) ps)) in \<lparr>cd_encode = f, cd_decode = f\<rparr>)"

lemma lossless_reverse_codec: "lossless_codec reverse_codec"
  by (auto simp: lossless_codec_def reverse_codec_def Let_def option.map_comp o_def option.map_ident intro!: map_idI)

theorem data_through_codecs_witness:
  "(\<exists>f e'. encodeErrorToFailure (default_data_converter (\<lambda>v. []) example_env True [reverse_codec]) example_error None = Inr f \<and>
      decodeOptionalFailureToOptionalError (default_data_converter (\<lambda>v. []) example_env True [reverse_codec]) (Some f) None = Inr (Some e') \<and>
      erase e' = received example_error) \<and>
   (\<exists>ps. encodeToPayloadsWithContext (default_data_converter (\<lambda>v. []) example_env True [reverse_codec]) None [JNum 1, JStr ''a''] None = Inr ps \<and>
      decodeArrayFromPayloads (default_data_converter (\<lambda>v. []) example_env True [reverse_codec]) ps None None = Inr [JNum 1, JStr ''a''])"
proof -
  have p: "portable example_env example_error"
    by (simp add: enum_ok_def retryState_table_def applicationFailureCategory_table_def msOptionalToTs_def)
  have c: "list_all lossless_codec [reverse_codec]" by (simp add: lossless_reverse_codec)
  have v: "list_all plain_value [JNum 1, JStr ''a'']" by simp
  show ?thesis using data_through_codecs [OF c] p v by blast
qed

end
