(* ===== verification/SearchAttributes.thy ===== *)
theory SearchAttributes
  imports Converters Enums
begin

text \<open>
  Search attributes, \<^verbatim>\<open>packages/common/src/search-attributes.ts\<close> and
  \<^verbatim>\<open>packages/common/src/converter/payload-search-attributes.ts\<close>: the typed attributes as an object with one entry for each
  name, the two converters, and the functions that turn attributes into payloads and back. Numbers are integers, so that \<open>INT'\<close> and
  \<open>DOUBLE\<close> accept the same values. The names of attributes are no array indices: objects iterate over them in the order of insertion.
\<close>

section \<open>Types and values\<close>

datatype sa_type = TEXT | KEYWORD | INT' | DOUBLE | BOOL | DATETIME | KEYWORD_LIST

text \<open>A \<open>Date\<close> is its time value, \<open>None\<close> for an invalid date.\<close>

datatype sa_value = SaDate "int option" | SaVal jsval

fun is_string :: "jsval \<Rightarrow> bool" where
  "is_string (JStr s) = True"
| "is_string _ = False"

fun isValidValueForType :: "sa_type \<Rightarrow> sa_value \<Rightarrow> bool" where
  "isValidValueForType TEXT (SaVal (JStr s)) = True"
| "isValidValueForType KEYWORD (SaVal (JStr s)) = True"
| "isValidValueForType INT' (SaVal (JNum n)) = True"
| "isValidValueForType DOUBLE (SaVal (JNum n)) = True"
| "isValidValueForType BOOL (SaVal (JBool b)) = True"
| "isValidValueForType DATETIME (SaDate d) = True"
| "isValidValueForType KEYWORD_LIST (SaVal (JArr vs)) = list_all is_string vs"
| "isValidValueForType _ _ = False"

definition type_name :: "sa_type \<Rightarrow> string" where
  "type_name t = (case t of TEXT \<Rightarrow> ''TEXT'' | KEYWORD \<Rightarrow> ''KEYWORD'' | INT' \<Rightarrow> ''INT'' | DOUBLE \<Rightarrow> ''DOUBLE''
     | BOOL \<Rightarrow> ''BOOL'' | DATETIME \<Rightarrow> ''DATETIME'' | KEYWORD_LIST \<Rightarrow> ''KEYWORD_LIST'')"

definition toMetadataType :: "sa_type \<Rightarrow> string" where
  "toMetadataType t = (case t of TEXT \<Rightarrow> ''Text'' | KEYWORD \<Rightarrow> ''Keyword'' | INT' \<Rightarrow> ''Int'' | DOUBLE \<Rightarrow> ''Double''
     | BOOL \<Rightarrow> ''Bool'' | DATETIME \<Rightarrow> ''Datetime'' | KEYWORD_LIST \<Rightarrow> ''KeywordList'')"

definition toSearchAttributeType :: "string \<Rightarrow> sa_type option" where
  "toSearchAttributeType s =
     (if s = ''Text'' \<or> s = ''INDEXED_VALUE_TYPE_TEXT'' then Some TEXT
      else if s = ''Keyword'' \<or> s = ''INDEXED_VALUE_TYPE_KEYWORD'' then Some KEYWORD
      else if s = ''Int'' \<or> s = ''INDEXED_VALUE_TYPE_INT'' then Some INT'
      else if s = ''Double'' \<or> s = ''INDEXED_VALUE_TYPE_DOUBLE'' then Some DOUBLE
      else if s = ''Bool'' \<or> s = ''INDEXED_VALUE_TYPE_BOOL'' then Some BOOL
      else if s = ''Datetime'' \<or> s = ''INDEXED_VALUE_TYPE_DATETIME'' then Some DATETIME
      else if s = ''KeywordList'' \<or> s = ''INDEXED_VALUE_TYPE_KEYWORD_LIST'' then Some KEYWORD_LIST
      else None)"

section \<open>Typed attributes\<close>

type_synonym typed_attributes = "(string, sa_type \<times> sa_value) js_map"

text \<open>An assignment to \<^verbatim>\<open>__proto__\<close> of an object makes no entry.\<close>

definition put_attr :: "typed_attributes \<Rightarrow> string \<Rightarrow> sa_type \<times> sa_value \<Rightarrow> typed_attributes" where
  "put_attr m k v = (if k = ''__proto__'' then m else js_set m k v)"

text \<open>The constructor: \<^verbatim>\<open>in\<close> also sees the members every object inherits.\<close>

fun add_attributes :: "(string \<times> sa_type \<times> sa_value) list \<Rightarrow> typed_attributes \<Rightarrow> js_error + typed_attributes" where
  "add_attributes [] m = Inr m"
| "add_attributes ((k, t, v) # ps) m =
     (if js_has m k \<or> k \<in> set object_members then Inl (PlainError (''Duplicate search attribute key: '' @ k))
      else add_attributes ps (put_attr m k (t, v)))"

definition new_TypedSearchAttributes :: "(string \<times> sa_type \<times> sa_value) list option \<Rightarrow> js_error + typed_attributes" where
  "new_TypedSearchAttributes ps = (case ps of None \<Rightarrow> Inr [] | Some qs \<Rightarrow> add_attributes qs [])"

text \<open>A member that is inherited has no \<open>value\<close>, so that \<open>get\<close> returns \<open>undefined\<close> for it as for an absent one.\<close>

definition get_attribute :: "typed_attributes \<Rightarrow> string \<Rightarrow> sa_type \<Rightarrow> sa_value option" where
  "get_attribute m k t = (case js_get m k of
     None \<Rightarrow> None
   | Some (t', v) \<Rightarrow> if isValidValueForType t v then Some v else None)"

definition copy_attributes :: "typed_attributes \<Rightarrow> typed_attributes" where
  "copy_attributes m = foldl (\<lambda>state (k, t, v). put_attr state k (t, v)) [] m"

text \<open>A value \<open>None\<close> is \<open>null\<close>, which removes the attribute when its type is the one of the key.\<close>

fun update :: "(string \<times> sa_type \<times> sa_value option) list \<Rightarrow> typed_attributes \<Rightarrow> typed_attributes" where
  "update [] m = m"
| "update ((k, t, None) # us) m =
     update us (case js_get m k of Some (t', v) \<Rightarrow> if t' = t then js_delete m k else m | None \<Rightarrow> m)"
| "update ((k, t, Some v) # us) m = update us (put_attr m k (t, v))"

definition updateCopy :: "typed_attributes \<Rightarrow> (string \<times> sa_type \<times> sa_value option) list \<Rightarrow> typed_attributes" where
  "updateCopy m us = update us (copy_attributes m)"

definition getAll :: "typed_attributes \<Rightarrow> (string \<times> sa_type \<times> sa_value) list" where
  "getAll m = filter (\<lambda>(k, t, v). isValidValueForType t v) m"

text \<open>
  The environment: the text of a value in an error message, the ISO form of a time, and what \<^verbatim>\<open>new Date\<close> makes of a value.
\<close>

record sa_env =
  se_show :: "sa_value \<Rightarrow> string"
  se_iso :: "int \<Rightarrow> string"
  se_date :: "jsval \<Rightarrow> int option"

fun js_typeof :: "sa_value \<Rightarrow> string" where
  "js_typeof (SaDate d) = ''object''"
| "js_typeof (SaVal Undefined) = ''undefined''"
| "js_typeof (SaVal (JBool b)) = ''boolean''"
| "js_typeof (SaVal (JNum n)) = ''number''"
| "js_typeof (SaVal (JStr s)) = ''string''"
| "js_typeof (SaVal v) = ''object''"

fun is_date :: "sa_value \<Rightarrow> bool" where
  "is_date (SaDate d) = True"
| "is_date (SaVal v) = False"

text \<open>
  \<^verbatim>\<open>Date.parse(val) === new Date(val).getTime()\<close> holds for every string that is a date. The value of an attribute that
  is not given by a list of length one is the list.
\<close>

definition getKeyFromUntyped :: "sa_env \<Rightarrow> string \<Rightarrow> sa_value list option \<Rightarrow> (string \<times> sa_type) option" where
  "getKeyFromUntyped env k value = (case value of
     None \<Rightarrow> None
   | Some [v] \<Rightarrow> (case v of
       SaDate d \<Rightarrow> Some (k, DATETIME)
     | SaVal (JStr s) \<Rightarrow> Some (k, if se_date env (JStr s) \<noteq> None then DATETIME else TEXT)
     | SaVal (JNum n) \<Rightarrow> Some (k, INT')
     | SaVal (JBool b) \<Rightarrow> Some (k, BOOL)
     | SaVal (JArr us) \<Rightarrow> if list_all is_string us then Some (k, KEYWORD_LIST) else None
     | SaVal _ \<Rightarrow> None)
   | Some vs \<Rightarrow> if list_all (\<lambda>v. js_typeof v = ''string'') vs then Some (k, KEYWORD_LIST) else None)"

section \<open>The converter of untyped attributes\<close>

definition date_json :: "sa_env \<Rightarrow> sa_value \<Rightarrow> jsval" where
  "date_json env v = (case v of SaVal w \<Rightarrow> w | SaDate None \<Rightarrow> Null | SaDate (Some d) \<Rightarrow> JStr (se_iso env d))"

definition json_payload :: "string \<Rightarrow> jsval \<Rightarrow> js_error + payload" where
  "json_payload msg v = bind_res (enc_toPayload JsonPayloadConverter v None None) (\<lambda>r. case r of
     None \<Rightarrow> Inl (ValueError msg)
   | Some p \<Rightarrow> Inr p)"

definition show_index :: "nat \<Rightarrow> string" where
  "show_index n = map char_of (json_int (int n))"

text \<open>\<open>None\<close> stands for a value that is no array.\<close>

definition untyped_toPayload :: "sa_env \<Rightarrow> sa_value list option \<Rightarrow> js_error + payload" where
  "untyped_toPayload env values = (case values of
     None \<Rightarrow> Inl (ValueError ''SearchAttribute value must be an array'')
   | Some vs \<Rightarrow>
       let encoded = json_payload ''Could not convert search attributes to payloads'' (JArr (map (date_json env) vs)) in
       (case vs of
          [] \<Rightarrow> encoded
        | firstValue # _ \<Rightarrow>
            let firstType = js_typeof firstValue in
            if firstType = ''object''
            then (case find (\<lambda>(i, v). \<not> is_date v) (enumerate 0 vs) of
                    Some (i, v) \<Rightarrow> Inl (ValueError (''SearchAttribute values must arrays of strings, numbers, booleans, or Dates. The value ''
                      @ se_show env v @ '' at index '' @ show_index i @ '' is of type '' @ js_typeof v))
                  | None \<Rightarrow> encoded)
            else if firstType \<notin> set [''string'', ''number'', ''boolean'']
            then Inl (ValueError ''SearchAttribute array values must be: string | number | boolean | Date'')
            else (case find (\<lambda>(i, v). js_typeof v \<noteq> firstType) (enumerate 0 vs) of
                    Some (i, v) \<Rightarrow> Inl (ValueError (''All SearchAttribute array values must be of the same type. The first value ''
                      @ se_show env firstValue @ '' of type '' @ firstType @ '' doesn'' @ [CHR 0x27] @ ''t match value '' @ se_show env v
                      @ '' of type '' @ js_typeof v @ '' at index '' @ show_index i))
                  | None \<Rightarrow> encoded)))"

text \<open>The type of a payload, by its metadata: \<open>None\<close> when there is none; a name outside of the strings of the model is no known one.\<close>

definition metadata_type :: "(string \<times> string) list \<Rightarrow> string option" where
  "metadata_type md = (case js_get md ''type'' of
     None \<Rightarrow> None
   | Some b \<Rightarrow> (let us = decode_bytes b in Some (if list_all (\<lambda>u. u < 256) us then map char_of us else [])))"

definition untyped_fromPayload :: "sa_env \<Rightarrow> payload \<Rightarrow> js_error + sa_value list" where
  "untyped_fromPayload env p = (case metadata p of
     None \<Rightarrow> Inl (ValueError ''Missing payload metadata'')
   | Some md \<Rightarrow> bind_res (enc_fromPayload JsonPayloadConverter p None None) (\<lambda>v.
       let vs = (case v of JArr us \<Rightarrow> us | _ \<Rightarrow> [v]) in
       Inr (if metadata_type md = Some ''Datetime'' then map (\<lambda>u. SaDate (se_date env u)) vs else map SaVal vs)))"

section \<open>The converter of typed attributes\<close>

definition typed_toPayload :: "sa_env \<Rightarrow> sa_type \<times> sa_value option \<Rightarrow> js_error + payload" where
  "typed_toPayload env attr = (case attr of
     (t, None) \<Rightarrow> json_payload ''Could not convert typed search attribute to payload'' Null
   | (t, Some v) \<Rightarrow>
       if \<not> isValidValueForType t v
       then Inl (ValueError (''Invalid search attribute value '' @ se_show env v @ '' for given type '' @ type_name t))
       else bind_res (json_payload ''Could not convert typed search attribute to payload'' (date_json env v)) (\<lambda>p.
         case metadata p of
           None \<Rightarrow> Inl (ValueError ''Missing payload metadata'')
         | Some md \<Rightarrow> Inr (p\<lparr>metadata := Some (js_set md ''type'' (encodingKey (toMetadataType t)))\<rparr>)))"

definition typed_fromPayload :: "sa_env \<Rightarrow> payload \<Rightarrow> js_error + (sa_type \<times> sa_value) option" where
  "typed_fromPayload env p = (case metadata p of
     None \<Rightarrow> Inl (ValueError ''Missing payload metadata'')
   | Some md \<Rightarrow> (case metadata_type md of
       None \<Rightarrow> Inr None
     | Some name \<Rightarrow> (case toSearchAttributeType name of
         None \<Rightarrow> Inr None
       | Some t \<Rightarrow> bind_res (enc_fromPayload JsonPayloadConverter p None None) (\<lambda>v0.
           let unwrapped = (case v0 of
                 JArr us \<Rightarrow> if t = KEYWORD_LIST then Some v0
                            else if length us > 1 then None
                            else Some (case us of [] \<Rightarrow> Undefined | u # _ \<Rightarrow> u)
               | _ \<Rightarrow> Some v0)
           in case unwrapped of
                None \<Rightarrow> Inr None
              | Some v \<Rightarrow>
                  let value = (if t = DATETIME \<and> truthy v then SaDate (se_date env v) else SaVal v)
                  in Inr (if isValidValueForType t value then Some (t, value) else None)))))"

section \<open>Encoding and decoding\<close>

datatype typed_input = TypedObject typed_attributes | TypedPairs "(string \<times> sa_type \<times> sa_value option) list"

definition typed_pairs :: "typed_input \<Rightarrow> (string \<times> sa_type \<times> sa_value option) list" where
  "typed_pairs ti = (case ti of TypedPairs us \<Rightarrow> us | TypedObject m \<Rightarrow> map (\<lambda>(k, t, v). (k, t, Some v)) (getAll m))"

definition from_entries :: "(string \<times> 'a) list \<Rightarrow> (string, 'a) js_map" where
  "from_entries es = foldl (\<lambda>m (k, v). js_set m k v) [] es"

definition encodeUnifiedSearchAttributes ::
  "sa_env \<Rightarrow> (string \<times> sa_value list option) list option \<Rightarrow> typed_input option \<Rightarrow> js_error + (string \<times> payload) list" where
  "encodeUnifiedSearchAttributes env untyped typed =
     bind_res (case untyped of
         None \<Rightarrow> Inr []
       | Some m \<Rightarrow> map_res (\<lambda>(k, vs). bind_res (untyped_toPayload env vs) (\<lambda>p. Inr (k, p))) m) (\<lambda>us.
     bind_res (case typed of
         None \<Rightarrow> Inr []
       | Some ti \<Rightarrow> map_res (\<lambda>(k, a). bind_res (typed_toPayload env a) (\<lambda>p. Inr (k, p))) (from_entries (typed_pairs ti))) (\<lambda>ts.
     Inr (from_entries (us @ ts))))"

definition decodeSearchAttributes :: "sa_env \<Rightarrow> (string \<times> payload) list option \<Rightarrow> js_error + (string \<times> sa_value list) list" where
  "decodeSearchAttributes env flds = (case flds of
     None \<Rightarrow> Inr []
   | Some fs \<Rightarrow> bind_res (map_res (\<lambda>(k, p). bind_res (untyped_fromPayload env p) (\<lambda>vs. Inr (k, vs))) fs) (\<lambda>es.
       Inr (filter (\<lambda>(k, vs). vs \<noteq> []) es)))"

definition decodeTypedSearchAttributes :: "sa_env \<Rightarrow> (string \<times> payload) list option \<Rightarrow> js_error + typed_attributes" where
  "decodeTypedSearchAttributes env flds =
     bind_res (case flds of
         None \<Rightarrow> Inr []
       | Some fs \<Rightarrow> map_res (\<lambda>(k, p). bind_res (typed_fromPayload env p) (\<lambda>a. Inr (k, a))) fs) (\<lambda>es.
     new_TypedSearchAttributes (Some
       (concat (map (\<lambda>(k, a). case a of
            None \<Rightarrow> []
          | Some (t, v) \<Rightarrow> if isValidValueForType t v then [(k, t, v)] else []) es))))"

section \<open>Typed attributes are well typed\<close>

text \<open>What a set of typed attributes promises: one entry for each name, with a value of its type.\<close>

definition well_typed :: "typed_attributes \<Rightarrow> bool" where
  "well_typed m = (distinct (map fst m) \<and> list_all (\<lambda>(k, t, v). k \<noteq> ''__proto__'' \<and> isValidValueForType t v) m)"

lemma js_set_all: "list_all P m \<Longrightarrow> P (k, v) \<Longrightarrow> list_all P (js_set m k v)"
  by (induction m k v rule: js_set.induct) auto

lemma put_attr_well_typed:
  assumes "well_typed m" and "isValidValueForType t v"
  shows "well_typed (put_attr m k (t, v))"
  using assms js_set_all [of "\<lambda>(k, t, v). k \<noteq> ''__proto__'' \<and> isValidValueForType t v" m k "(t, v)"]
  by (auto simp: well_typed_def put_attr_def js_set_distinct)

lemma add_attributes_well_typed:
  assumes "add_attributes ps m = Inr m'" and "well_typed m" and "list_all (\<lambda>(k, t, v). isValidValueForType t v) ps"
  shows "well_typed m'"
  using assms by (induction ps m rule: add_attributes.induct) (auto simp: put_attr_well_typed split: if_splits)

lemma js_delete_all: "list_all P m \<Longrightarrow> list_all P (js_delete m k)"
  by (auto simp: js_delete_def list_all_iff)

lemma js_delete_well_typed: "well_typed m \<Longrightarrow> well_typed (js_delete m k)"
  by (simp add: well_typed_def js_delete_distinct js_delete_all)

lemma update_well_typed:
  assumes "well_typed m" and "list_all (\<lambda>(k, t, v). v = None \<or> isValidValueForType t (the v)) us"
  shows "well_typed (update us m)"
  using assms
  by (induction us m rule: update.induct) (auto simp: put_attr_well_typed js_delete_well_typed split: option.splits)

lemma foldl_js_set_fresh:
  assumes "distinct (map fst (acc @ es))"
  shows "foldl (\<lambda>m (k, v). js_set m k v) acc es = acc @ es"
  using assms
proof (induction es arbitrary: acc)
  case (Cons e es)
  obtain k v where e: "e = (k, v)" by force
  have "\<not> js_has acc k" using Cons.prems e by (auto simp: js_has_def)
  then show ?case using Cons e by (simp add: js_set_fresh)
qed simp

lemma from_entries_distinct: "distinct (map fst es) \<Longrightarrow> from_entries es = es"
  using foldl_js_set_fresh [of "[]" es] by (simp add: from_entries_def)

lemma copy_attributes_same:
  assumes "well_typed m"
  shows "copy_attributes m = m"
proof -
  have "foldl (\<lambda>state (k, t, v). put_attr state k (t, v)) acc m = foldl (\<lambda>m (k, v). js_set m k v) acc m"
    if "list_all (\<lambda>(k, t, v). k \<noteq> ''__proto__'' \<and> isValidValueForType t v) m" for acc
    using that by (induction m arbitrary: acc) (auto simp: put_attr_def)
  then show ?thesis
    using assms foldl_js_set_fresh [of "[]" m] by (simp add: well_typed_def copy_attributes_def)
qed

lemma decodeTyped_well_typed:
  assumes "decodeTypedSearchAttributes env flds = Inr m"
  shows "well_typed m"
proof -
  obtain es where "add_attributes (concat (map (\<lambda>(k, a). case a of None \<Rightarrow> []
        | Some (t, v) \<Rightarrow> if isValidValueForType t v then [(k, t, v)] else []) es)) [] = Inr m"
    using assms by (auto simp: decodeTypedSearchAttributes_def new_TypedSearchAttributes_def bind_res_Inr_iff)
  then show ?thesis
    by (rule add_attributes_well_typed) (auto simp: well_typed_def list_all_iff split: option.splits if_splits)
qed

text \<open>The attributes a program can hold, when it gives values of the declared types.\<close>

inductive built :: "sa_env \<Rightarrow> typed_attributes \<Rightarrow> bool" for env where
  constructed: "new_TypedSearchAttributes ps = Inr m \<Longrightarrow>
     (case ps of None \<Rightarrow> True | Some qs \<Rightarrow> list_all (\<lambda>(k, t, v). isValidValueForType t v) qs) \<Longrightarrow> built env m"
| decoded: "decodeTypedSearchAttributes env flds = Inr m \<Longrightarrow> built env m"
| copied: "built env m \<Longrightarrow> built env (copy_attributes m)"
| updated: "built env m \<Longrightarrow> list_all (\<lambda>(k, t, v). v = None \<or> isValidValueForType t (the v)) us \<Longrightarrow> built env (updateCopy m us)"

lemma built_well_typed: "built env m \<Longrightarrow> well_typed m"
proof (induction rule: built.induct)
  case (constructed ps m)
  then show ?case
    using add_attributes_well_typed [of _ "[]"]
    by (cases ps) (auto simp: new_TypedSearchAttributes_def well_typed_def)
next
  case (updated m us)
  then show ?case by (simp add: updateCopy_def copy_attributes_same update_well_typed)
qed (simp_all add: decodeTyped_well_typed copy_attributes_same)


definition example_sa_env :: sa_env where
  "example_sa_env = \<lparr>se_show = (\<lambda>v. []), se_iso = (\<lambda>d. map char_of (json_int d)),
     se_date = (\<lambda>v. case v of JStr s \<Rightarrow> Some (if s = ''5'' then 5 else 0) | _ \<Rightarrow> None)\<rparr>"

definition example_attributes :: typed_attributes where
  "example_attributes = [(''Region'', KEYWORD, SaVal (JStr ''eu'')), (''Due'', DATETIME, SaDate (Some 5)),
     (''Tags'', KEYWORD_LIST, SaVal (JArr [JStr ''a'', JStr ''b'']))]"

lemma example_built: "built example_sa_env example_attributes"
proof -
  have "new_TypedSearchAttributes (Some example_attributes) = Inr example_attributes"
    by (simp add: new_TypedSearchAttributes_def example_attributes_def js_has_def put_attr_def object_members_def)
  then show ?thesis by (rule built.constructed) (simp add: example_attributes_def)
qed


section \<open>Round trip\<close>

text \<open>The values that come through: JSON values in the range of exact integers, dates that \<^verbatim>\<open>new Date\<close> reads back.\<close>

definition sendable :: "sa_env \<Rightarrow> sa_value \<Rightarrow> bool" where
  "sendable env v = (case v of
     SaVal w \<Rightarrow> json_value w
   | SaDate d \<Rightarrow> (case d of None \<Rightarrow> False | Some t \<Rightarrow> se_iso env t \<noteq> [] \<and> se_date env (JStr (se_iso env t)) = Some t))"

lemma type_names: "toSearchAttributeType (toMetadataType t) = Some t"
  by (cases t) (simp_all add: toSearchAttributeType_def toMetadataType_def)

lemma json_payload_read:
  assumes "json_value v"
  shows "\<exists>p. json_payload msg v = Inr p \<and> metadata p = Some [(METADATA_ENCODING_KEY, encodingKey METADATA_ENCODING_JSON)] \<and>
     enc_fromPayload JsonPayloadConverter p None None = Inr v"
proof -
  obtain t where t: "stringify v = Some t" "json_parse t = Inr v" using json_roundtrip [OF assms] by blast
  obtain b where b: "encode_text t = Inr b" "decode_bytes b = t"
    using text_roundtrip stringify_units(1) [OF assms t(1)] by blast
  have "v \<noteq> Undefined" using assms by auto
  then show ?thesis using t b by (simp add: json_payload_def JsonPayloadConverter_def)
qed

lemma enc_fromPayload_metadata:
  "enc_fromPayload JsonPayloadConverter (p\<lparr>metadata := md\<rparr>) ctx h = enc_fromPayload JsonPayloadConverter p ctx h"
  by (simp add: JsonPayloadConverter_def)

lemma metadata_type_marked:
  "metadata_type (js_set [(METADATA_ENCODING_KEY, e)] ''type'' (encodingKey (toMetadataType t))) = Some (toMetadataType t)"
  by (simp add: metadata_type_def METADATA_ENCODING_KEY_def js_get_def codes_inverse Let_def list_all_iff codes_bytes char_of_codes)

lemma valid_value_cases:
  assumes "isValidValueForType t v"
  shows "(t = DATETIME \<and> (\<exists>d. v = SaDate d)) \<or> (t = KEYWORD_LIST \<and> (\<exists>us. v = SaVal (JArr us))) \<or>
     (t \<noteq> DATETIME \<and> t \<noteq> KEYWORD_LIST \<and> (\<exists>s b n. v = SaVal (JStr s) \<or> v = SaVal (JBool b) \<or> v = SaVal (JNum n)))"
proof (cases v)
  case (SaDate d)
  then show ?thesis using assms by (cases t) simp_all
next
  case (SaVal w)
  then show ?thesis using assms by (cases t; cases w) simp_all
qed

lemma typed_value_roundtrip:
  assumes "isValidValueForType t v" and "sendable env v"
  shows "\<exists>p. typed_toPayload env (t, Some v) = Inr p \<and> typed_fromPayload env p = Inr (Some (t, v))"
proof -
  have j: "json_value (date_json env v)"
    using assms(2) by (auto simp: sendable_def date_json_def split: sa_value.splits option.splits)
  obtain p where p: "json_payload ''Could not convert typed search attribute to payload'' (date_json env v) = Inr p"
    "metadata p = Some [(METADATA_ENCODING_KEY, encodingKey METADATA_ENCODING_JSON)]"
    "enc_fromPayload JsonPayloadConverter p None None = Inr (date_json env v)"
    using json_payload_read [OF j] by blast
  let ?q = "p\<lparr>metadata := Some (js_set [(METADATA_ENCODING_KEY, encodingKey METADATA_ENCODING_JSON)] ''type'' (encodingKey (toMetadataType t)))\<rparr>"
  have "typed_toPayload env (t, Some v) = Inr ?q"
    using assms(1) p(1,2) by (simp add: typed_toPayload_def del: js_set.simps)
  moreover have "typed_fromPayload env ?q = Inr (Some (t, v))"
    using assms p(3) valid_value_cases [OF assms(1)]
    by (auto simp: typed_fromPayload_def metadata_type_marked type_names enc_fromPayload_metadata date_json_def sendable_def Let_def
        split: option.splits simp del: js_set.simps)
  ultimately show ?thesis by blast
qed

definition transmissible :: "sa_env \<Rightarrow> typed_attributes \<Rightarrow> bool" where
  "transmissible env m = list_all (\<lambda>(k, t, v). k \<notin> set object_members \<and> sendable env v) m"

lemma encoded_attributes_read:
  assumes "list_all (\<lambda>(k, t, v). isValidValueForType t v) m" and "transmissible env m"
  shows "\<exists>fs. map_res (\<lambda>(k, a). bind_res (typed_toPayload env a) (\<lambda>p. Inr (k, p))) (map (\<lambda>(k, t, v). (k, t, Some v)) m) = Inr fs \<and>
     map fst fs = map fst m \<and>
     map_res (\<lambda>(k, p). bind_res (typed_fromPayload env p) (\<lambda>a. Inr (k, a))) fs = Inr (map (\<lambda>(k, t, v). (k, Some (t, v))) m)"
  using assms
proof (induction m)
  case (Cons e m)
  obtain k t v where e: "e = (k, t, v)" by (cases e) auto
  have v: "isValidValueForType t v" "sendable env v" using Cons.prems e by (auto simp: transmissible_def)
  obtain p where p: "typed_toPayload env (t, Some v) = Inr p" "typed_fromPayload env p = Inr (Some (t, v))"
    using typed_value_roundtrip [OF v] by blast
  obtain fs where "map_res (\<lambda>(k, a). bind_res (typed_toPayload env a) (\<lambda>p. Inr (k, p))) (map (\<lambda>(k, t, v). (k, t, Some v)) m) = Inr fs"
     "map fst fs = map fst m"
     "map_res (\<lambda>(k, p). bind_res (typed_fromPayload env p) (\<lambda>a. Inr (k, a))) fs = Inr (map (\<lambda>(k, t, v). (k, Some (t, v))) m)"
    using Cons.IH Cons.prems unfolding transmissible_def list.pred_inject by blast
  then show ?case using p e by (auto intro!: exI [of _ "(k, p) # fs"])
qed simp

lemma add_attributes_fresh:
  assumes "distinct (map fst (m @ ps))" and "list_all (\<lambda>(k, t, v). k \<notin> set object_members) ps"
  shows "add_attributes ps m = Inr (m @ ps)"
  using assms
proof (induction ps m rule: add_attributes.induct)
  case (2 k t v ps m)
  have "\<not> js_has m k" "k \<noteq> ''__proto__''" using 2 by (auto simp: js_has_def object_members_def)
  then show ?case using 2 by (simp add: put_attr_def js_set_fresh)
qed simp

text \<open>
  C34: (Round trip.) The attributes a program holds, with values that JSON and the dates of the runtime carry exactly and names no
  object inherits, are encoded without an error, and the server's copy of the payloads is decoded to the same attributes: names, types, values and order.
\<close>

theorem search_attributes_roundtrip:
  assumes "built env m" and "transmissible env m"
  shows "\<exists>fs. encodeUnifiedSearchAttributes env None (Some (TypedObject m)) = Inr fs \<and> decodeTypedSearchAttributes env (Some fs) = Inr m"
proof -
  have w: "distinct (map fst m)" "list_all (\<lambda>(k, t, v). isValidValueForType t v) m"
    using built_well_typed [OF assms(1)] by (auto simp: well_typed_def list_all_iff)
  obtain fs where fs: "map_res (\<lambda>(k, a). bind_res (typed_toPayload env a) (\<lambda>p. Inr (k, p))) (map (\<lambda>(k, t, v). (k, t, Some v)) m) = Inr fs"
     "map fst fs = map fst m"
     "map_res (\<lambda>(k, p). bind_res (typed_fromPayload env p) (\<lambda>a. Inr (k, a))) fs = Inr (map (\<lambda>(k, t, v). (k, Some (t, v))) m)"
    using encoded_attributes_read [OF w(2) assms(2)] by blast
  have all: "getAll m = m" using w(2) by (auto simp: getAll_def list_all_iff intro: filter_True)
  have keys: "map fst (map (\<lambda>(k, t, v). (k, t, Some v)) m) = map fst m" by (induction m) auto
  have "encodeUnifiedSearchAttributes env None (Some (TypedObject m)) = Inr fs"
    using fs(1,2) w(1) all from_entries_distinct [of "map (\<lambda>(k, t, v). (k, t, Some v)) m", unfolded keys]
    by (simp add: encodeUnifiedSearchAttributes_def typed_pairs_def from_entries_distinct)
  moreover have "concat (map (\<lambda>(k, a). case a of None \<Rightarrow> [] | Some (t, v) \<Rightarrow> if isValidValueForType t v then [(k, t, v)] else [])
      (map (\<lambda>(k, t, v). (k, Some (t, v))) m)) = m"
    using w(2) by (induction m) auto
  moreover have "list_all (\<lambda>(k, t, v). k \<notin> set object_members) m"
    using assms(2) by (auto simp: transmissible_def list_all_iff)
  ultimately show ?thesis
    using fs(3) add_attributes_fresh [of "[]" m] w(1)
    by (simp add: decodeTypedSearchAttributes_def new_TypedSearchAttributes_def)
qed

theorem search_attributes_roundtrip_witness:
  "\<exists>fs. encodeUnifiedSearchAttributes example_sa_env None (Some (TypedObject example_attributes)) = Inr fs \<and>
     decodeTypedSearchAttributes example_sa_env (Some fs) = Inr example_attributes"
proof -
  have "transmissible example_sa_env example_attributes"
    by (simp add: transmissible_def example_attributes_def example_sa_env_def object_members_def sendable_def json_int_def) code_simp
  then show ?thesis by (rule search_attributes_roundtrip [OF example_built])
qed

text \<open>
  (Error.) An attribute with the name of a member that every object inherits cannot be constructed, and
  attributes that hold one cannot be decoded: the test for duplicates finds the inherited member.
\<close>

theorem inherited_name_refused:
  assumes "k \<in> set object_members"
  shows "new_TypedSearchAttributes (Some [(k, t, v)]) = Inl (PlainError (''Duplicate search attribute key: '' @ k))"
  using assms by (simp add: new_TypedSearchAttributes_def)

end
