(* ===== verification/WorkflowClient.thy ===== *)
theory WorkflowClient
  imports ClientErrors Codecs SearchAttributes RetryPolicy Interceptors
begin

text \<open>
  The client for workflows, \<^verbatim>\<open>packages/client/src/workflow-client.ts\<close>: starting, signalling, querying, updating, cancelling and terminating
  workflow executions, waiting for a result along the chain of runs, histories and lists.

  The service and the storage behind it are a state of type \<^typ>\<open>'w\<close> that every remote procedure call reads and changes; a call, and the generated
  code that walks over a message to store or retrieve its payloads, is a function of the client record. Loops that
  ask the service again until it answers may run for ever: they are partial functions.
\<close>

section \<open>Messages\<close>

type_synonym ('w, 'a) cl_act = "('w, client_error, 'a) eff"

text \<open>The attributes of an event are a protobuf one-of; an absent run id is the empty string.\<close>

datatype history_event =
    CompletedEvent "payload list option" string
  | FailedEvent "proto_failure option" "int option" string
  | CanceledEvent "payload list option"
  | TerminatedEvent string
  | TimedOutEvent "int option" string
  | ContinuedAsNewEvent string
  | OtherEvent nat

record history_request =
  hq_execution :: workflow_execution
  hq_nextPageToken :: "string option"
  hq_waitNewEvent :: bool
  hq_skipArchival :: bool
  hq_closeEventOnly :: bool

record history_response =
  hr_events :: "history_event list option"
  hr_nextPageToken :: "string option"
  hr_nexusContext :: "(string option \<times> string option \<times> string option) option"

text \<open>Options that other packages of the SDK attach to a call; links and callbacks are not looked at.\<close>

record internal_options =
  io_requestId :: "string option"
  io_callbacks :: "nat list option"
  io_links :: "nat list option"
  io_responseLink :: "nat option"

record wf_options =
  wo_workflowId :: string
  wo_taskQueue :: string
  wo_args :: "jsval list option"
  wo_followRuns :: "bool option"
  wo_executionTimeout :: "duration option"
  wo_runTimeout :: "duration option"
  wo_taskTimeout :: "duration option"
  wo_startDelay :: "duration option"
  wo_versioningOverride :: "versioning_override option"
  wo_requestEagerStart :: bool
  wo_reusePolicy :: "string option"
  wo_conflictPolicy :: "string option"
  wo_retry :: "retry_policy option"
  wo_memo :: "(string \<times> jsval) list option"
  wo_searchAttributes :: "(string \<times> sa_value list option) list option"
  wo_typedSearchAttributes :: "typed_input option"
  wo_cronSchedule :: "string option"
  wo_staticSummary :: "string option"
  wo_staticDetails :: "string option"
  wo_priority :: "priority option"
  wo_typeInfo :: "payload_type_info option"
  wo_internal :: "internal_options option"

record compiled_options =
  cp_options :: wf_options
  cp_args :: "jsval list"
  cp_executionTimeout :: "timestamp option"
  cp_runTimeout :: "timestamp option"
  cp_taskTimeout :: "timestamp option"
  cp_startDelay :: "timestamp option"
  cp_versioningOverride :: "proto_versioning_override option"

record start_request =
  sq_namespace :: string
  sq_identity :: string
  sq_requestId :: string
  sq_workflowId :: string
  sq_reusePolicy :: "enum_value option"
  sq_conflictPolicy :: "enum_value option"
  sq_workflowType :: string
  sq_input :: "payload list option"
  sq_signal :: "(string \<times> payload list option) option"
  sq_taskQueue :: string
  sq_executionTimeout :: "timestamp option"
  sq_runTimeout :: "timestamp option"
  sq_taskTimeout :: "timestamp option"
  sq_startDelay :: "timestamp option"
  sq_retryPolicy :: "proto_retry_policy option"
  sq_memo :: "(string \<times> payload option) list option"
  sq_searchAttributes :: "(string \<times> payload) list option"
  sq_cronSchedule :: "string option"
  sq_headers :: "(string \<times> payload) list"
  sq_userMetadata :: "user_metadata option"
  sq_priority :: "priority option"
  sq_versioningOverride :: "proto_versioning_override option"
  sq_eager :: bool
  sq_links :: "nat list option"
  sq_callbacks :: "nat list option"

record start_response =
  sr_runId :: "string option"
  sr_eagerTask :: bool
  sr_link :: "nat option"

record update_request =
  uq_execution :: workflow_execution
  uq_firstExecutionRunId :: "string option"
  uq_stage :: int
  uq_updateId :: string
  uq_headers :: "(string \<times> payload) list"
  uq_name :: string
  uq_args :: "payload list option"
  uq_internal :: "internal_options option"

datatype update_outcome = UpdateSuccess "payload list option" | UpdateFailure proto_failure

record update_response =
  ur_stage :: "int option"
  ur_ref :: "(string \<times> string) option"
  ur_outcome :: "update_outcome option"
  ur_link :: "nat option"

record multi_response =
  mr_start :: "start_response option"
  mr_update :: "update_response option"

record query_request =
  qq_rejectCondition :: "enum_value option"
  qq_execution :: workflow_execution
  qq_type :: string
  qq_args :: "payload list option"
  qq_headers :: "(string \<times> payload) list"

record query_response =
  qr_rejected :: "int option option"
  qr_result :: "payload list option option"
  qr_link :: "nat option"

record signal_request =
  gq_execution :: workflow_execution
  gq_requestId :: string
  gq_name :: string
  gq_headers :: "(string \<times> payload) list"
  gq_args :: "payload list option"
  gq_links :: "nat list option"

record terminate_request =
  tq_execution :: workflow_execution
  tq_reason :: "string option"
  tq_details :: "payload list option"
  tq_firstExecutionRunId :: "string option"

record cancel_request =
  cq_execution :: workflow_execution
  cq_requestId :: string
  cq_firstExecutionRunId :: "string option"

section \<open>The client\<close>

text \<open>
  \<open>store\<close> functions are the visits before a call, which do nothing without external storage, \<open>fetch\<close> functions the visits
  of a response.
\<close>

record 'w client =
  cl_namespace :: string
  cl_identity :: string
  cl_data :: data_converter
  cl_decoders :: proto_decoders
  cl_ms :: "string \<Rightarrow> rat option"
  cl_sa :: sa_env
  cl_supportsEagerStart :: bool
  cl_queryRejectCondition :: "string option"
  cl_randomUUID :: "'w \<Rightarrow> 'w \<times> string"
  rpc_history :: "history_request \<Rightarrow> ('w, history_response) cl_act"
  fetch_history :: "history_response \<Rightarrow> ('w, history_response) cl_act"
  rpc_start :: "start_request \<Rightarrow> ('w, start_response) cl_act"
  store_start :: "start_request \<Rightarrow> ('w, start_request) cl_act"
  rpc_signalWithStart :: "start_request \<Rightarrow> ('w, start_response) cl_act"
  rpc_update :: "update_request \<Rightarrow> ('w, update_response) cl_act"
  store_update :: "update_request \<Rightarrow> ('w, update_request) cl_act"
  fetch_update :: "update_response \<Rightarrow> ('w, update_response) cl_act"
  rpc_poll :: "workflow_execution \<times> string \<Rightarrow> ('w, update_response) cl_act"
  rpc_multi :: "start_request \<times> update_request \<Rightarrow> ('w, multi_response) cl_act"
  store_multi :: "start_request \<times> update_request \<Rightarrow> ('w, start_request \<times> update_request) cl_act"
  fetch_multi :: "multi_response \<Rightarrow> ('w, multi_response) cl_act"
  rpc_query :: "query_request \<Rightarrow> ('w, query_response) cl_act"
  store_query :: "query_request \<Rightarrow> ('w, query_request) cl_act"
  fetch_query :: "query_response \<Rightarrow> ('w, query_response) cl_act"
  rpc_signal :: "signal_request \<Rightarrow> ('w, nat option) cl_act"
  store_signal :: "signal_request \<Rightarrow> ('w, signal_request) cl_act"
  rpc_terminate :: "terminate_request \<Rightarrow> ('w, unit) cl_act"
  store_terminate :: "terminate_request \<Rightarrow> ('w, terminate_request) cl_act"
  rpc_cancel :: "cancel_request \<Rightarrow> ('w, unit) cl_act"

definition lift_js :: "js_error + 'a \<Rightarrow> ('w, 'a) cl_act" where
  "lift_js r = eff_lift (case r of Inl e \<Rightarrow> Inl (Thrown e) | Inr a \<Rightarrow> Inr a)"

text \<open>\<open>try ... catch\<close> whose handler always throws.\<close>

definition rethrow :: "('w, 'a) cl_act \<Rightarrow> (client_error \<Rightarrow> client_error) \<Rightarrow> ('w, 'a) cl_act" where
  "rethrow m f = (\<lambda>s. case m s of (s', Inl e) \<Rightarrow> (s', Inl (f e)) | (s', Inr a) \<Rightarrow> (s', Inr a))"

definition new_uuid :: "'w client \<Rightarrow> ('w, string) cl_act" where
  "new_uuid cl = (\<lambda>w. case cl_randomUUID cl w of (w', u) \<Rightarrow> (w', Inr u))"

definition client_context :: "'w client \<Rightarrow> string \<Rightarrow> serialization_context" where
  "client_context cl wid = WorkflowContext (cl_namespace cl) wid"

section \<open>The result of a workflow\<close>

text \<open>What a close event means: another run to wait for, the end, or nothing the client knows.\<close>

datatype close_effect = NextRun string | Ends "client_error + jsval" | NotClosed

definition workflow_failed :: "string \<Rightarrow> js_error + js_error option \<Rightarrow> js_error + string option \<Rightarrow> client_error" where
  "workflow_failed msg cause rs = (case cause of
     Inl e \<Rightarrow> Thrown e
   | Inr c \<Rightarrow> (case rs of Inl e \<Rightarrow> Thrown e | Inr r \<Rightarrow> WorkflowFailedError msg c r))"

fun close_event :: "'w client \<Rightarrow> bool \<Rightarrow> type_info option \<Rightarrow> serialization_context \<Rightarrow> history_event \<Rightarrow> close_effect" where
  "close_event cl followRuns ti ctx (CompletedEvent result r) =
     (if followRuns \<and> r \<noteq> [] then NextRun r
      else Ends (case decodeFromPayloadsAtIndex (cl_data cl) 0 result (Some ctx) ti of Inl e \<Rightarrow> Inl (Thrown e) | Inr v \<Rightarrow> Inr v))"
| "close_event cl followRuns ti ctx (FailedEvent failure retryState r) =
     (if followRuns \<and> r \<noteq> [] then NextRun r
      else Ends (Inl (workflow_failed ''Workflow execution failed''
             (decodeOptionalFailureToOptionalError (cl_data cl) failure (Some ctx)) (decode_retryState retryState))))"
| "close_event cl followRuns ti ctx (CanceledEvent details) =
     Ends (Inl (case decodeArrayFromPayloads (cl_data cl) details (Some ctx) None of
        Inl e \<Rightarrow> Thrown e
      | Inr ds \<Rightarrow> WorkflowFailedError ''Workflow execution cancelled''
          (Some (TemporalFailure (CancelledFailure ds) ''Workflow canceled'' [] None None)) (Some ''NON_RETRYABLE_FAILURE'')))"
| "close_event cl followRuns ti ctx (TerminatedEvent reason) =
     (let m = (if reason \<noteq> [] then reason else ''Workflow execution terminated'')
      in Ends (Inl (WorkflowFailedError m (Some (TemporalFailure TerminatedFailure m [] None None)) (Some ''NON_RETRYABLE_FAILURE''))))"
| "close_event cl followRuns ti ctx (TimedOutEvent retryState r) =
     (if followRuns \<and> r \<noteq> [] then NextRun r
      else Ends (Inl (workflow_failed ''Workflow execution timed out''
             (Inr (Some (TemporalFailure (TimeoutFailure Undefined (Some ''START_TO_CLOSE'')) ''Workflow execution timed out'' [] None None)))
             (decode_retryState retryState))))"
| "close_event cl followRuns ti ctx (ContinuedAsNewEvent r) =
     (if r = [] then Ends (Inl (Thrown (TypeError ''Expected service to return newExecutionRunId for WorkflowExecutionContinuedAsNewEvent'')))
      else if \<not> followRuns then Ends (Inl (WorkflowContinuedAsNewError ''Workflow execution continued as new'' r))
      else NextRun r)"
| "close_event cl followRuns ti ctx (OtherEvent n) = NotClosed"

definition first_request :: "string \<Rightarrow> string option \<Rightarrow> history_request" where
  "first_request wid runId = \<lparr>hq_execution = \<lparr>ex_workflowId = Some wid, ex_runId = runId\<rparr>, hq_nextPageToken = None,
     hq_waitNewEvent = True, hq_skipArchival = True, hq_closeEventOnly = True\<rparr>"

text \<open>
  One call for the history. The error of the call names the run the caller asked for, not the one that is waited for.
\<close>

definition poll_history :: "'w client \<Rightarrow> string \<Rightarrow> string option \<Rightarrow> history_request \<Rightarrow> ('w, history_response) cl_act" where
  "poll_history cl wid runId req =
     rethrow (eff_bind (rpc_history cl req) (fetch_history cl))
       (\<lambda>e. rethrowGrpcError (cl_decoders cl) e ''Failed to get Workflow execution history''
              (Some \<lparr>ex_workflowId = Some wid, ex_runId = runId\<rparr>))"

definition page_context :: "serialization_context \<Rightarrow> history_request \<Rightarrow> serialization_context \<Rightarrow> history_response \<Rightarrow> serialization_context" where
  "page_context ctx0 req ctx res = (case nexusSerializationContextFromProto (hr_nexusContext res) of
     Some c \<Rightarrow> c
   | None \<Rightarrow> if hq_nextPageToken req = None \<or> hq_nextPageToken req = Some [] then ctx0 else ctx)"

definition show_nat :: "nat \<Rightarrow> string" where
  "show_nat n = map char_of (json_int (int n))"

definition next_run :: "history_request \<Rightarrow> string \<Rightarrow> history_request" where
  "next_run req r = req\<lparr>hq_execution := (hq_execution req)\<lparr>ex_runId := Some r\<rparr>, hq_nextPageToken := None\<rparr>"

text \<open>One round of the loop: \<open>Inl\<close> the request and context of the next round, \<open>Inr\<close> the outcome.\<close>

definition result_round ::
  "'w client \<Rightarrow> string \<Rightarrow> string option \<Rightarrow> bool \<Rightarrow> type_info option \<Rightarrow> history_request \<Rightarrow> serialization_context \<Rightarrow> 'w \<Rightarrow>
     'w \<times> ((history_request \<times> serialization_context) + (client_error + jsval))" where
  "result_round cl wid runId followRuns ti req ctx w = (case poll_history cl wid runId req w of
     (w', Inl e) \<Rightarrow> (w', Inr (Inl e))
   | (w', Inr res) \<Rightarrow>
       let ctx' = page_context (client_context cl wid) req ctx res in
       (case hr_events res of
          None \<Rightarrow> (w', Inl (req\<lparr>hq_nextPageToken := hr_nextPageToken res\<rparr>, ctx'))
        | Some [] \<Rightarrow> (w', Inl (req\<lparr>hq_nextPageToken := hr_nextPageToken res\<rparr>, ctx'))
        | Some [ev] \<Rightarrow> (case close_event cl followRuns ti ctx' ev of
            NextRun r \<Rightarrow> (w', Inl (next_run req r, ctx'))
          | Ends out \<Rightarrow> (w', Inr out)
          | NotClosed \<Rightarrow> (w', Inl (req, ctx')))
        | Some evs \<Rightarrow> (w', Inr (Inl (Thrown (PlainError (''Expected at most 1 close event(s), got: '' @ show_nat (length evs))))))))"

partial_function (option) result_loop ::
  "'w client \<Rightarrow> string \<Rightarrow> string option \<Rightarrow> bool \<Rightarrow> type_info option \<Rightarrow> history_request \<Rightarrow> serialization_context \<Rightarrow> 'w \<Rightarrow>
     ('w \<times> (client_error + jsval)) option" where
  "result_loop cl wid runId followRuns ti req ctx w =
     (case result_round cl wid runId followRuns ti req ctx w of
        (w', Inl (req', ctx')) \<Rightarrow> result_loop cl wid runId followRuns ti req' ctx' w'
      | (w', Inr out) \<Rightarrow> Some (w', out))"

definition result ::
  "'w client \<Rightarrow> string \<Rightarrow> string option \<Rightarrow> bool option \<Rightarrow> type_info option \<Rightarrow> 'w \<Rightarrow> ('w \<times> (client_error + jsval)) option" where
  "result cl wid runId followRuns ti w =
     result_loop cl wid runId (or_default followRuns True) ti (first_request wid runId) (client_context cl wid) w"

section \<open>Starting and signalling\<close>

definition assertRequiredWorkflowOptions :: "wf_options \<Rightarrow> js_error + unit" where
  "assertRequiredWorkflowOptions o' =
     (if wo_taskQueue o' = [] then Inl (TypeError ''Missing WorkflowOptions.taskQueue'')
      else if wo_workflowId o' = [] then Inl (TypeError ''Missing WorkflowOptions.workflowId'')
      else Inr ())"

text \<open>A workflow is given by its name or by a function: the name of the function and its static type information.\<close>

datatype workflow_ref = WorkflowName string | WorkflowFunction string "payload_type_info option"

definition extractWorkflowTypeAndConfig :: "workflow_ref \<Rightarrow> payload_type_info option \<Rightarrow> js_error + string \<times> payload_type_info option" where
  "extractWorkflowTypeAndConfig r callSite = (case r of
     WorkflowName n \<Rightarrow> Inr (n, callSite)
   | WorkflowFunction n ti \<Rightarrow>
       if n = [] then Inl (TypeError ''Invalid workflow type: the workflow function is anonymous'')
       else if callSite \<noteq> None
       then Inl (TypeError (''Workflow type information cannot be supplied at the call site when using a workflow function. '' @
              ''Use defineWorkflowOptions(..., { staticOptions: { typeInfo } }) on the workflow function instead, '' @
              ''or pass the workflow type as a string.''))
       else Inr (n, ti))"

text \<open>\<^verbatim>\<open>compileWorkflowOptions(ensureArgs(options))\<close>.\<close>

definition compileWorkflowOptions :: "(string \<Rightarrow> rat option) \<Rightarrow> wf_options \<Rightarrow> js_error + compiled_options" where
  "compileWorkflowOptions ms o' =
     bind_res (msOptionalToTs ms (wo_executionTimeout o')) (\<lambda>et.
     bind_res (msOptionalToTs ms (wo_runTimeout o')) (\<lambda>rt.
     bind_res (msOptionalToTs ms (wo_taskTimeout o')) (\<lambda>tt.
     bind_res (msOptionalToTs ms (wo_startDelay o')) (\<lambda>sd.
       Inr \<lparr>cp_options = o', cp_args = or_default (wo_args o') [], cp_executionTimeout = et, cp_runTimeout = rt,
            cp_taskTimeout = tt, cp_startDelay = sd, cp_versioningOverride = versioningOverrideToProto (wo_versioningOverride o')\<rparr>))))"

text \<open>
  The fields that \<^verbatim>\<open>createStartWorkflowRequest\<close> and the handler of \<^verbatim>\<open>signalWithStart\<close> share, in the order they are evaluated; \<open>sig\<close> is the name,
  the arguments and the type information of the signal.
\<close>

definition start_fields ::
  "'w client \<Rightarrow> compiled_options \<Rightarrow> string \<Rightarrow> (string \<times> payload) list \<Rightarrow> (string \<times> jsval list \<times> type_info list option) option \<Rightarrow>
     ('w, start_request) cl_act" where
  "start_fields cl cp wfType headers sig =
     (let o' = cp_options cp; dc = cl_data cl; ctx = Some (client_context cl (wo_workflowId o')) in
      eff_bind (case Option.bind (wo_internal o') io_requestId of Some r \<Rightarrow> eff_return r | None \<Rightarrow> new_uuid cl) (\<lambda>rid.
      lift_js
       (bind_res (encodeEnum workflowIdReusePolicy_table (enum_name (wo_reusePolicy o'))) (\<lambda>rp.
        bind_res (encodeEnum workflowIdConflictPolicy_table (enum_name (wo_conflictPolicy o'))) (\<lambda>cf.
        bind_res (encodeToPayloadsWithContext dc ctx (cp_args cp) (input_types (wo_typeInfo o'))) (\<lambda>inp.
        bind_res (compile_optional (\<lambda>(n, args, tis). bind_res (encodeToPayloadsWithContext dc ctx args tis) (\<lambda>ps. Inr (n, ps))) sig) (\<lambda>sg.
        bind_res (compile_optional (compileRetryPolicy (cl_ms cl)) (wo_retry o')) (\<lambda>retry.
        bind_res (compile_optional (\<lambda>m. encodeMapToPayloads dc m ctx) (wo_memo o')) (\<lambda>memo.
        bind_res (if wo_searchAttributes o' = None \<and> wo_typedSearchAttributes o' = None then Inr None
                  else bind_res (encodeUnifiedSearchAttributes (cl_sa cl) (wo_searchAttributes o') (wo_typedSearchAttributes o')) (\<lambda>f. Inr (Some f))) (\<lambda>sas.
        bind_res (encodeUserMetadata dc (wo_staticSummary o') (wo_staticDetails o') ctx) (\<lambda>um.
        bind_res (compile_optional compilePriority (wo_priority o')) (\<lambda>prio.
          Inr \<lparr>sq_namespace = cl_namespace cl, sq_identity = cl_identity cl, sq_requestId = rid, sq_workflowId = wo_workflowId o',
               sq_reusePolicy = rp, sq_conflictPolicy = cf, sq_workflowType = wfType, sq_input = inp, sq_signal = sg,
               sq_taskQueue = wo_taskQueue o', sq_executionTimeout = cp_executionTimeout cp, sq_runTimeout = cp_runTimeout cp,
               sq_taskTimeout = cp_taskTimeout cp, sq_startDelay = cp_startDelay cp, sq_retryPolicy = retry, sq_memo = memo,
               sq_searchAttributes = sas, sq_cronSchedule = wo_cronSchedule o', sq_headers = headers, sq_userMetadata = um,
               sq_priority = prio, sq_versioningOverride = cp_versioningOverride cp, sq_eager = False,
               sq_links = Option.bind (wo_internal o') io_links, sq_callbacks = None\<rparr>))))))))))))"

definition createStartWorkflowRequest ::
  "'w client \<Rightarrow> compiled_options \<Rightarrow> string \<Rightarrow> (string \<times> payload) list \<Rightarrow> ('w, start_request) cl_act" where
  "createStartWorkflowRequest cl cp wfType headers =
     (let o' = cp_options cp in
      if wo_requestEagerStart o' \<and> \<not> cl_supportsEagerStart cl
      then eff_throw (Thrown (PlainError (''Eager workflow start requires a NativeConnection shared between client and worker. '' @
             ''Pass a NativeConnection via ClientOptions.connection, or disable requestEagerStart.'')))
      else eff_bind (start_fields cl cp wfType headers None) (\<lambda>req.
        eff_return (req\<lparr>sq_eager := wo_requestEagerStart o', sq_callbacks := Option.bind (wo_internal o') io_callbacks\<rparr>)))"

text \<open>A workflow id that is in use has an error of its own.\<close>

definition rethrow_start_error :: "'w client \<Rightarrow> string \<Rightarrow> string \<Rightarrow> string \<Rightarrow> client_error \<Rightarrow> client_error" where
  "rethrow_start_error cl msg wid wfType e = (case e of
     GrpcServiceError g \<Rightarrow>
       if ge_code g = grpc_ALREADY_EXISTS
       then Thrown (TemporalFailure (WorkflowExecutionAlreadyStarted wid wfType
              (extractWorkflowExecutionAlreadyStartedRunId (cl_decoders cl) g)) ''Workflow execution already started'' [] None None)
       else rethrowGrpcError (cl_decoders cl) e msg (Some \<lparr>ex_workflowId = Some wid, ex_runId = None\<rparr>)
   | _ \<Rightarrow> rethrowGrpcError (cl_decoders cl) e msg (Some \<lparr>ex_workflowId = Some wid, ex_runId = None\<rparr>))"

text \<open>The output of a start and the link the server answered with, which is written into the internal options.\<close>

definition startWorkflowHandler ::
  "'w client \<Rightarrow> compiled_options \<Rightarrow> string \<Rightarrow> (string \<times> payload) list \<Rightarrow> ('w, string option \<times> bool \<times> nat option) cl_act" where
  "startWorkflowHandler cl cp wfType headers =
     eff_bind (createStartWorkflowRequest cl cp wfType headers) (\<lambda>req.
     rethrow (eff_bind (store_start cl req) (\<lambda>req'. eff_bind (rpc_start cl req') (\<lambda>res.
         eff_return (sr_runId res, sr_eagerTask res, sr_link res))))
       (rethrow_start_error cl ''Failed to start Workflow'' (wo_workflowId (cp_options cp)) wfType))"

definition signalWithStartWorkflowHandler ::
  "'w client \<Rightarrow> compiled_options \<Rightarrow> string \<Rightarrow> (string \<times> payload) list \<Rightarrow> string \<Rightarrow> jsval list \<Rightarrow> type_info list option \<Rightarrow>
     ('w, string option \<times> nat option) cl_act" where
  "signalWithStartWorkflowHandler cl cp wfType headers signalName signalArgs signalTypes =
     eff_bind (start_fields cl cp wfType headers (Some (signalName, signalArgs, signalTypes))) (\<lambda>req.
     rethrow (eff_bind (store_start cl req) (\<lambda>req'. eff_bind (rpc_signalWithStart cl req') (\<lambda>res.
         eff_return (sr_runId res, sr_link res))))
       (rethrow_start_error cl ''Failed to signalWithStart Workflow'' (wo_workflowId (cp_options cp)) wfType))"

definition compiled_start :: "'w client \<Rightarrow> workflow_ref \<Rightarrow> wf_options \<Rightarrow> js_error + string \<times> compiled_options" where
  "compiled_start cl r o' =
     bind_res (extractWorkflowTypeAndConfig r (wo_typeInfo o')) (\<lambda>(wfType, ti).
     bind_res (assertRequiredWorkflowOptions o') (\<lambda>_.
     bind_res (compileWorkflowOptions (cl_ms cl) (o'\<lparr>wo_typeInfo := ti\<rparr>)) (\<lambda>cp. Inr (wfType, cp))))"

record workflow_handle =
  wh_workflowId :: string
  wh_runId :: "string option"
  wh_firstExecutionRunId :: "string option"
  wh_runIdForResult :: "string option"
  wh_followRuns :: bool
  wh_typeInfo :: "payload_type_info option"

definition start :: "'w client \<Rightarrow> workflow_ref \<Rightarrow> wf_options \<Rightarrow> ('w, workflow_handle \<times> bool) cl_act" where
  "start cl r o' =
     eff_bind (lift_js (compiled_start cl r o')) (\<lambda>(wfType, cp).
     eff_bind (startWorkflowHandler cl cp wfType []) (\<lambda>(runId, eager, link).
       eff_return (\<lparr>wh_workflowId = wo_workflowId o', wh_runId = None, wh_firstExecutionRunId = runId, wh_runIdForResult = runId,
         wh_followRuns = or_default (wo_followRuns o') True, wh_typeInfo = wo_typeInfo (cp_options cp)\<rparr>, eager)))"

definition output_info :: "payload_type_info option \<Rightarrow> type_info option" where
  "output_info ti = Option.bind ti outputType"

definition execute :: "'w client \<Rightarrow> workflow_ref \<Rightarrow> wf_options \<Rightarrow> 'w \<Rightarrow> ('w \<times> (client_error + jsval)) option" where
  "execute cl r o' w = (case start cl r o' w of
     (w', Inl e) \<Rightarrow> Some (w', Inl e)
   | (w', Inr (h, eager)) \<Rightarrow> result cl (wo_workflowId o') None (Some (or_default (wo_followRuns o') True)) (output_info (wh_typeInfo h)) w')"

definition handle_result :: "'w client \<Rightarrow> workflow_handle \<Rightarrow> 'w \<Rightarrow> ('w \<times> (client_error + jsval)) option" where
  "handle_result cl h w = result cl (wh_workflowId h) (wh_runIdForResult h) (Some (wh_followRuns h)) (output_info (wh_typeInfo h)) w"

definition getHandle ::
  "string \<Rightarrow> string option \<Rightarrow> string option \<Rightarrow> bool option \<Rightarrow> payload_type_info option \<Rightarrow> workflow_handle" where
  "getHandle wid runId firstExecutionRunId followRuns ti = \<lparr>wh_workflowId = wid, wh_runId = runId, wh_firstExecutionRunId = firstExecutionRunId,
     wh_runIdForResult = (case runId of Some r \<Rightarrow> Some r | None \<Rightarrow> firstExecutionRunId),
     wh_followRuns = or_default followRuns True, wh_typeInfo = ti\<rparr>"

definition handle_execution :: "workflow_handle \<Rightarrow> workflow_execution" where
  "handle_execution h = \<lparr>ex_workflowId = Some (wh_workflowId h), ex_runId = wh_runId h\<rparr>"

definition signalWorkflowHandler ::
  "'w client \<Rightarrow> workflow_handle \<Rightarrow> string \<Rightarrow> jsval list \<Rightarrow> type_info list option \<Rightarrow> internal_options option \<Rightarrow> ('w, nat option) cl_act" where
  "signalWorkflowHandler cl h signalName args tis io =
     eff_bind (case Option.bind io io_requestId of Some r \<Rightarrow> eff_return r | None \<Rightarrow> new_uuid cl) (\<lambda>rid.
     eff_bind (lift_js (encodeToPayloadsWithContext (cl_data cl) (Some (client_context cl (wh_workflowId h))) args tis)) (\<lambda>ps.
     rethrow (eff_bind (store_signal cl \<lparr>gq_execution = handle_execution h, gq_requestId = rid, gq_name = signalName, gq_headers = [],
         gq_args = ps, gq_links = Option.bind io io_links\<rparr>) (rpc_signal cl))
       (\<lambda>e. rethrowGrpcError (cl_decoders cl) e ''Failed to signal Workflow'' (Some (handle_execution h)))))"

definition terminateWorkflowHandler :: "'w client \<Rightarrow> workflow_handle \<Rightarrow> string option \<Rightarrow> jsval list option \<Rightarrow> ('w, unit) cl_act" where
  "terminateWorkflowHandler cl h reason details =
     eff_bind (lift_js (case details of
         None \<Rightarrow> Inr None
       | Some ds \<Rightarrow> encodeToPayloadsWithContext (cl_data cl) (Some (client_context cl (wh_workflowId h))) ds None)) (\<lambda>ps.
     rethrow (eff_bind (store_terminate cl \<lparr>tq_execution = handle_execution h, tq_reason = reason, tq_details = ps,
         tq_firstExecutionRunId = wh_firstExecutionRunId h\<rparr>) (rpc_terminate cl))
       (\<lambda>e. rethrowGrpcError (cl_decoders cl) e ''Failed to terminate Workflow'' (Some (handle_execution h))))"

definition cancelWorkflowHandler :: "'w client \<Rightarrow> workflow_handle \<Rightarrow> ('w, unit) cl_act" where
  "cancelWorkflowHandler cl h =
     rethrow (eff_bind (new_uuid cl) (\<lambda>rid. rpc_cancel cl \<lparr>cq_execution = handle_execution h, cq_requestId = rid,
         cq_firstExecutionRunId = wh_firstExecutionRunId h\<rparr>))
       (\<lambda>e. rethrowGrpcError (cl_decoders cl) e ''Failed to cancel workflow'' (Some (handle_execution h)))"

section \<open>Queries\<close>

definition strip_prefix :: "string \<Rightarrow> string \<Rightarrow> string" where
  "strip_prefix p t = (if starts_with t p then drop (length p) t else t)"

definition rethrow_query_error :: "'w client \<Rightarrow> workflow_execution \<Rightarrow> client_error \<Rightarrow> client_error" where
  "rethrow_query_error cl ex e = (case e of
     GrpcServiceError g \<Rightarrow> (case rethrowKnownErrorTypes (cl_decoders cl) g of
       Inl e' \<Rightarrow> e'
     | Inr _ \<Rightarrow>
         if ge_code g = grpc_INVALID_ARGUMENT
         then QueryNotRegisteredError (strip_prefix ''3 INVALID_ARGUMENT: '' (ge_message g)) (ge_code g)
         else rethrowGrpcError (cl_decoders cl) e ''Failed to query Workflow'' (Some ex))
   | _ \<Rightarrow> rethrowGrpcError (cl_decoders cl) e ''Failed to query Workflow'' (Some ex))"

definition queryWorkflowHandler ::
  "'w client \<Rightarrow> workflow_handle \<Rightarrow> string \<Rightarrow> jsval list \<Rightarrow> payload_type_info option \<Rightarrow> ('w, jsval) cl_act" where
  "queryWorkflowHandler cl h queryType args ti =
     (let ctx = Some (client_context cl (wh_workflowId h)) in
      eff_bind (lift_js (encodeEnum queryRejectCondition_table (enum_name (cl_queryRejectCondition cl)))) (\<lambda>cond.
      eff_bind (lift_js (encodeToPayloadsWithContext (cl_data cl) ctx args (input_types ti))) (\<lambda>ps.
      eff_bind (rethrow (eff_bind (store_query cl \<lparr>qq_rejectCondition = cond, qq_execution = handle_execution h, qq_type = queryType,
             qq_args = ps, qq_headers = []\<rparr>) (\<lambda>req. eff_bind (rpc_query cl req) (fetch_query cl)))
          (rethrow_query_error cl (handle_execution h))) (\<lambda>res.
      case qr_rejected res of
        Some None \<Rightarrow> eff_throw (Thrown (TypeError ''Received queryRejected from server with no status''))
      | Some (Some st) \<Rightarrow> eff_throw (QueryRejectedError st)
      | None \<Rightarrow> (case qr_result res of
          None \<Rightarrow> eff_throw (Thrown (TypeError ''Invalid response from server''))
        | Some ps' \<Rightarrow> lift_js (decodeFromPayloadsAtIndex (cl_data cl) 0 ps' ctx (output_info ti)))))))"

section \<open>Updates\<close>

text \<open>A call that may wait for ever.\<close>

type_synonym ('w, 'a) waiting = "'w \<Rightarrow> ('w \<times> (client_error + 'a)) option"

definition wait_bind :: "('w, 'a) waiting \<Rightarrow> ('a \<Rightarrow> ('w, 'b) waiting) \<Rightarrow> ('w, 'b) waiting" where
  "wait_bind m f = (\<lambda>w. case m w of
     None \<Rightarrow> None
   | Some (w', Inl e) \<Rightarrow> Some (w', Inl e)
   | Some (w', Inr a) \<Rightarrow> f a w')"

definition at_once :: "('w, 'a) cl_act \<Rightarrow> ('w, 'a) waiting" where
  "at_once m = (\<lambda>w. Some (m w))"

definition wait_rethrow :: "('w, 'a) waiting \<Rightarrow> (client_error \<Rightarrow> client_error) \<Rightarrow> ('w, 'a) waiting" where
  "wait_rethrow m f = (\<lambda>w. map_option (\<lambda>(w', r). (w', case r of Inl e \<Rightarrow> Inl (f e) | Inr a \<Rightarrow> Inr a)) (m w))"

definition stage_ACCEPTED :: int where "stage_ACCEPTED = 2"
definition stage_COMPLETED :: int where "stage_COMPLETED = 3"

definition stage_number :: "enum_value option \<Rightarrow> int" where
  "stage_number v = (case v of Some (EnumNum n) \<Rightarrow> n | _ \<Rightarrow> stage_ACCEPTED)"

datatype update_ref = UpdateName string | UpdateDefinition string "payload_type_info option"

definition resolve_update :: "update_ref \<Rightarrow> payload_type_info option \<Rightarrow> js_error + string \<times> payload_type_info option" where
  "resolve_update def callSite = (case def of
     UpdateName n \<Rightarrow> Inr (n, callSite)
   | UpdateDefinition n ti \<Rightarrow>
       if callSite \<noteq> None
       then Inl (TypeError (''Cannot provide call-site Update TypeInfo with an Update definition. '' @
              ''Define TypeInfo when creating the Update definition instead.''))
       else Inr (n, ti))"

record update_options =
  uo_updateId :: "string option"
  uo_args :: "jsval list option"
  uo_typeInfo :: "payload_type_info option"
  uo_internal :: "internal_options option"

record update_input =
  ui_execution :: workflow_execution
  ui_firstExecutionRunId :: "string option"
  ui_name :: string
  ui_args :: "jsval list"
  ui_typeInfo :: "payload_type_info option"
  ui_updateId :: "string option"
  ui_internal :: "internal_options option"

definition createUpdateWorkflowRequest :: "'w client \<Rightarrow> int \<Rightarrow> update_input \<Rightarrow> ('w, update_request) cl_act" where
  "createUpdateWorkflowRequest cl stage i =
     eff_bind (case ui_updateId i of Some u \<Rightarrow> eff_return u | None \<Rightarrow> new_uuid cl) (\<lambda>uid.
     eff_bind (lift_js (encodeToPayloadsWithContext (cl_data cl)
         (Some (client_context cl (or_empty (ex_workflowId (ui_execution i))))) (ui_args i) (input_types (ui_typeInfo i)))) (\<lambda>ps.
       eff_return \<lparr>uq_execution = ui_execution i, uq_firstExecutionRunId = ui_firstExecutionRunId i, uq_stage = stage, uq_updateId = uid,
         uq_headers = [], uq_name = ui_name i, uq_args = ps, uq_internal = ui_internal i\<rparr>))"

partial_function (option) update_loop :: "'w client \<Rightarrow> update_request \<Rightarrow> ('w, update_response) waiting" where
  "update_loop cl req w = (case rpc_update cl req w of
     (w', Inl e) \<Rightarrow> Some (w', Inl e)
   | (w', Inr res) \<Rightarrow> if or_default (ur_stage res) 0 < stage_ACCEPTED then update_loop cl req w' else Some (w', Inr res))"

record update_output =
  uu_updateId :: string
  uu_runId :: string
  uu_outcome :: "update_outcome option"
  uu_link :: "nat option"

definition startUpdateHandler :: "'w client \<Rightarrow> string \<Rightarrow> update_input \<Rightarrow> ('w, update_output) waiting" where
  "startUpdateHandler cl waitForStage i =
     wait_bind (at_once (eff_bind (lift_js (encodeEnum workflowUpdateStage_table (EnumString waitForStage))) (\<lambda>st.
         createUpdateWorkflowRequest cl (max (stage_number st) stage_ACCEPTED) i))) (\<lambda>req.
     wait_bind (wait_rethrow (wait_bind (at_once (store_update cl req)) (\<lambda>req'.
           wait_bind (update_loop cl req') (\<lambda>res. at_once (fetch_update cl res))))
         (\<lambda>e. rethrowUpdateGrpcError (cl_decoders cl) e ''Workflow Update failed'' (Some (ui_execution i)))) (\<lambda>res.
       at_once (case ur_ref res of
         None \<Rightarrow> eff_throw (Thrown (TypeError ''Cannot read properties of null''))
       | Some (wid, runId) \<Rightarrow> eff_return \<lparr>uu_updateId = uq_updateId req, uu_runId = runId, uu_outcome = ur_outcome res, uu_link = ur_link res\<rparr>)))"

partial_function (option) pollForUpdateOutcome :: "'w client \<Rightarrow> string \<Rightarrow> workflow_execution \<Rightarrow> ('w, update_outcome) waiting" where
  "pollForUpdateOutcome cl updateId ex w =
     (case rethrow (eff_bind (rpc_poll cl (ex, updateId)) (fetch_update cl))
             (\<lambda>e. rethrowUpdateGrpcError (cl_decoders cl) e ''Workflow Update Poll failed'' (if ex_workflowId ex = None then None else Some ex)) w of
        (w', Inl e) \<Rightarrow> Some (w', Inl e)
      | (w', Inr res) \<Rightarrow> (case ur_outcome res of
          Some out \<Rightarrow> Some (w', Inr out)
        | None \<Rightarrow> pollForUpdateOutcome cl updateId ex w'))"

record update_handle =
  uh_updateId :: string
  uh_workflowId :: string
  uh_runId :: "string option"
  uh_outcome :: "update_outcome option"
  uh_outputType :: "type_info option"

definition createWorkflowUpdateHandle ::
  "string \<Rightarrow> string \<Rightarrow> string option \<Rightarrow> update_outcome option \<Rightarrow> type_info option \<Rightarrow> update_handle" where
  "createWorkflowUpdateHandle updateId wid runId out ti =
     \<lparr>uh_updateId = updateId, uh_workflowId = wid, uh_runId = runId, uh_outcome = out, uh_outputType = ti\<rparr>"

definition outcome_value :: "'w client \<Rightarrow> update_handle \<Rightarrow> update_outcome \<Rightarrow> client_error + jsval" where
  "outcome_value cl h out = (let ctx = Some (client_context cl (uh_workflowId h)) in
     (case out of
        UpdateFailure f \<Rightarrow> (case decodeOptionalFailureToOptionalError (cl_data cl) (Some f) ctx of
          Inl e \<Rightarrow> Inl (Thrown e)
        | Inr c \<Rightarrow> Inl (WorkflowUpdateFailedError ''Workflow Update failed'' c))
      | UpdateSuccess ps \<Rightarrow> (case decodeFromPayloadsAtIndex (cl_data cl) 0 ps ctx (uh_outputType h) of
          Inl e \<Rightarrow> Inl (Thrown e)
        | Inr v \<Rightarrow> Inr v)))"

definition update_handle_result :: "'w client \<Rightarrow> update_handle \<Rightarrow> ('w, jsval) waiting" where
  "update_handle_result cl h =
     wait_bind (case uh_outcome h of
         Some out \<Rightarrow> at_once (eff_return out)
       | None \<Rightarrow> pollForUpdateOutcome cl (uh_updateId h) \<lparr>ex_workflowId = Some (uh_workflowId h), ex_runId = uh_runId h\<rparr>)
       (\<lambda>out. at_once (eff_lift (outcome_value cl h out)))"

definition startUpdate :: "'w client \<Rightarrow> workflow_handle \<Rightarrow> update_ref \<Rightarrow> string \<Rightarrow> update_options \<Rightarrow> ('w, update_handle) waiting" where
  "startUpdate cl h def waitForStage opts =
     wait_bind (at_once (lift_js (resolve_update def (uo_typeInfo opts)))) (\<lambda>(name, ti).
     wait_bind (startUpdateHandler cl waitForStage \<lparr>ui_execution = handle_execution h, ui_firstExecutionRunId = wh_firstExecutionRunId h,
         ui_name = name, ui_args = or_default (uo_args opts) [], ui_typeInfo = ti, ui_updateId = uo_updateId opts,
         ui_internal = uo_internal opts\<rparr>) (\<lambda>out.
     wait_bind (if uu_outcome out = None \<and> waitForStage = ''COMPLETED''
                then wait_bind (pollForUpdateOutcome cl (uu_updateId out) (handle_execution h)) (\<lambda>_. at_once (eff_return ()))
                else at_once (eff_return ())) (\<lambda>_.
       at_once (eff_return (createWorkflowUpdateHandle (uu_updateId out) (wh_workflowId h) (Some (uu_runId out)) (uu_outcome out) (output_info ti))))))"

definition executeUpdate :: "'w client \<Rightarrow> workflow_handle \<Rightarrow> update_ref \<Rightarrow> update_options \<Rightarrow> ('w, jsval) waiting" where
  "executeUpdate cl h def opts = wait_bind (startUpdate cl h def ''COMPLETED'' opts) (update_handle_result cl)"

section \<open>Update with start\<close>

text \<open>
  A \<^verbatim>\<open>WithStartWorkflowOperation\<close>: whether it has been used, and the promise of the workflow handle. Settling a settled promise does
  nothing. The state of the calls is the pair of the service and the operation.
\<close>

record start_operation =
  so_used :: bool
  so_handle :: "(client_error + workflow_handle) pstate"

definition settle_operation :: "client_error + workflow_handle \<Rightarrow> start_operation \<Rightarrow> start_operation" where
  "settle_operation r so = (case so_handle so of Pending \<Rightarrow> so\<lparr>so_handle := Settled r\<rparr> | Settled _ \<Rightarrow> so)"

definition started_handle :: "wf_options \<Rightarrow> payload_type_info option \<Rightarrow> start_response \<Rightarrow> workflow_handle" where
  "started_handle o' ti res = \<lparr>wh_workflowId = wo_workflowId o', wh_runId = None, wh_firstExecutionRunId = sr_runId res,
     wh_runIdForResult = None, wh_followRuns = or_default (wo_followRuns o') True, wh_typeInfo = ti\<rparr>"

text \<open>
  The loop of \<^verbatim>\<open>_updateWithStartHandler\<close>. A response without an entry for the start makes \<^verbatim>\<open>onStart\<close> throw, one without an entry for
  the update makes the reading of its stage throw. The result says whether the start has been seen.
\<close>

abbreviation read_undefined :: client_error where
  "read_undefined \<equiv> Thrown (TypeError ''Cannot read properties of undefined'')"

partial_function (option) multi_loop ::
  "'w client \<Rightarrow> (start_response \<Rightarrow> workflow_handle) \<Rightarrow> start_request \<times> update_request \<Rightarrow> bool \<Rightarrow> 'w \<times> start_operation \<Rightarrow>
     (('w \<times> start_operation) \<times> bool \<times> (client_error + update_response)) option" where
  "multi_loop cl onStart req seenStart st = (case st of (w, so) \<Rightarrow>
     (case eff_bind (rpc_multi cl req) (fetch_multi cl) w of
        (w', Inl e) \<Rightarrow> Some ((w', so), seenStart, Inl e)
      | (w', Inr res) \<Rightarrow>
          if \<not> seenStart \<and> mr_start res = None then Some ((w', so), seenStart, Inl read_undefined)
          else let so' = (if seenStart then so else settle_operation (Inr (onStart (the (mr_start res)))) so) in
            (case mr_update res of
               None \<Rightarrow> Some ((w', so'), True, Inl read_undefined)
             | Some ur \<Rightarrow>
                 if or_default (ur_stage ur) 0 < stage_ACCEPTED then multi_loop cl onStart req True (w', so')
                 else Some ((w', so'), True, Inr ur))))"

definition multi_request ::
  "'w client \<Rightarrow> string \<Rightarrow> string \<Rightarrow> compiled_options \<Rightarrow> update_input \<Rightarrow> ('w, (start_request \<times> update_request) \<times> string) cl_act" where
  "multi_request cl waitForStage wfType cp i =
     eff_bind (createStartWorkflowRequest cl cp wfType []) (\<lambda>sq.
     eff_bind (lift_js (encodeEnum workflowUpdateStage_table (EnumString waitForStage))) (\<lambda>stage.
     eff_bind (createUpdateWorkflowRequest cl (stage_number stage) i) (\<lambda>uq.
     eff_bind (store_multi cl (sq, uq)) (\<lambda>req. eff_return (req, uq_updateId uq)))))"

definition multi_output :: "string \<Rightarrow> client_error + update_response \<Rightarrow> client_error + string \<times> string \<times> string \<times> update_outcome option" where
  "multi_output uid r = (case r of
     Inl e \<Rightarrow> Inl e
   | Inr ur \<Rightarrow> (case ur_ref ur of None \<Rightarrow> Inl read_undefined | Some (wid, runId) \<Rightarrow> Inr (wid, runId, uid, ur_outcome ur)))"

text \<open>The part inside \<open>try\<close>.\<close>

definition multi_operation ::
  "'w client \<Rightarrow> string \<Rightarrow> (start_response \<Rightarrow> workflow_handle) \<Rightarrow> string \<Rightarrow> compiled_options \<Rightarrow> update_input \<Rightarrow> 'w \<times> start_operation \<Rightarrow>
     (('w \<times> start_operation) \<times> bool \<times> (client_error + string \<times> string \<times> string \<times> update_outcome option)) option" where
  "multi_operation cl waitForStage onStart wfType cp i st = (case st of (w, so) \<Rightarrow>
     (case multi_request cl waitForStage wfType cp i w of
        (w', Inl e) \<Rightarrow> Some ((w', so), False, Inl e)
      | (w', Inr (req, uid)) \<Rightarrow>
          map_option (\<lambda>(st', seen, r). (st', seen, multi_output uid r)) (multi_loop cl onStart req False (w', so))))"

definition already_started :: "'w client \<Rightarrow> string \<Rightarrow> string \<Rightarrow> client_error \<Rightarrow> client_error" where
  "already_started cl wid wfType e = (case e of
     GrpcServiceError g \<Rightarrow>
       if ge_code g = grpc_ALREADY_EXISTS
       then Thrown (TemporalFailure (WorkflowExecutionAlreadyStarted wid wfType
              (extractWorkflowExecutionAlreadyStartedRunId (cl_decoders cl) g)) ''Workflow execution already started'' [] None None)
       else e
   | _ \<Rightarrow> e)"

definition updateWithStartHandler ::
  "'w client \<Rightarrow> string \<Rightarrow> (start_response \<Rightarrow> workflow_handle) \<Rightarrow> string \<Rightarrow> compiled_options \<Rightarrow> update_input \<Rightarrow>
     ('w \<times> start_operation, string \<times> string \<times> string \<times> update_outcome option) waiting" where
  "updateWithStartHandler cl waitForStage onStart wfType cp i st =
     map_option (\<lambda>((w, so), seenStart, r). (case r of
         Inr out \<Rightarrow> ((w, so), Inr out)
       | Inl thrownError \<Rightarrow>
           let err = already_started cl (wo_workflowId (cp_options cp)) wfType thrownError;
               so' = (if seenStart then so else settle_operation (Inl err) so)
           in ((w, so'), Inl (if isGrpcServiceError err
                then rethrowUpdateGrpcError (cl_decoders cl) err ''Update-With-Start failed'' (Some (ui_execution i)) else err))))
       (multi_operation cl waitForStage onStart wfType cp i st)"

text \<open>A call that leaves the operation alone.\<close>

definition beside :: "('w, 'a) waiting \<Rightarrow> ('w \<times> 'o, 'a) waiting" where
  "beside m = (\<lambda>(w, so). map_option (\<lambda>(w', r). ((w', so), r)) (m w))"

text \<open>After the handler: the outcome is waited for when the caller asks for it.\<close>

definition finish_update_with_start ::
  "'w client \<Rightarrow> wf_options \<Rightarrow> string \<Rightarrow> payload_type_info option \<Rightarrow> string \<times> string \<times> string \<times> update_outcome option \<Rightarrow>
     ('w \<times> start_operation, update_handle) waiting" where
  "finish_update_with_start cl o' waitForStage uti = (\<lambda>(wid, runId, uid, out).
     wait_bind (if out = None \<and> waitForStage = ''COMPLETED''
                then beside (wait_bind (pollForUpdateOutcome cl uid \<lparr>ex_workflowId = Some (wo_workflowId o'), ex_runId = Some runId\<rparr>)
                       (\<lambda>out'. at_once (eff_return (Some out'))))
                else at_once (eff_return out)) (\<lambda>out'.
       at_once (eff_return (createWorkflowUpdateHandle uid (wo_workflowId o') (Some runId) out' (output_info uti)))))"

definition startUpdateWithStart ::
  "'w client \<Rightarrow> (update_input, ('w \<times> start_operation, string \<times> string \<times> string \<times> update_outcome option) waiting) interceptor list \<Rightarrow>
     update_ref \<Rightarrow> string \<Rightarrow> update_options \<Rightarrow> workflow_ref \<Rightarrow> wf_options \<Rightarrow> ('w \<times> start_operation, update_handle) waiting" where
  "startUpdateWithStart cl interceptors def waitForStage opts r o' = (\<lambda>(w, so).
     (case resolve_update def (uo_typeInfo opts) of
        Inl e \<Rightarrow> Some ((w, so), Inl (Thrown e))
      | Inr (name, uti) \<Rightarrow>
          if so_used so then Some ((w, so), Inl (Thrown (PlainError ''This WithStartWorkflowOperation instance has already been executed.'')))
          else let so1 = so\<lparr>so_used := True\<rparr> in
            (case compiled_start cl r o' of
               Inl e \<Rightarrow> Some ((w, so1), Inl (Thrown e))
             | Inr (wfType, cp) \<Rightarrow>
                 wait_bind (composeInterceptors interceptors
                     (updateWithStartHandler cl waitForStage (started_handle o' (wo_typeInfo (cp_options cp))) wfType cp)
                     \<lparr>ui_execution = \<lparr>ex_workflowId = Some (wo_workflowId o'), ex_runId = None\<rparr>, ui_firstExecutionRunId = None, ui_name = name,
                      ui_args = or_default (uo_args opts) [], ui_typeInfo = uti, ui_updateId = uo_updateId opts, ui_internal = uo_internal opts\<rparr>)
                   (finish_update_with_start cl o' waitForStage uti)
                   (w, so1))))"

definition executeUpdateWithStart ::
  "'w client \<Rightarrow> (update_input, ('w \<times> start_operation, string \<times> string \<times> string \<times> update_outcome option) waiting) interceptor list \<Rightarrow>
     update_ref \<Rightarrow> update_options \<Rightarrow> workflow_ref \<Rightarrow> wf_options \<Rightarrow> ('w \<times> start_operation, jsval) waiting" where
  "executeUpdateWithStart cl interceptors def opts r o' =
     wait_bind (startUpdateWithStart cl interceptors def ''COMPLETED'' opts r o') (\<lambda>h. beside (update_handle_result cl h))"

section \<open>Histories\<close>

text \<open>The pages of a history, one after the other. The pages of a list of executions are read by the same loop.\<close>

definition history_page_request :: "workflow_execution \<Rightarrow> string option \<Rightarrow> history_request" where
  "history_page_request ex token = \<lparr>hq_execution = ex, hq_nextPageToken = token, hq_waitNewEvent = False, hq_skipArchival = False,
     hq_closeEventOnly = False\<rparr>"

partial_function (option) fetch_pages ::
  "(string option \<Rightarrow> ('w, 'e list \<times> string option) cl_act) \<Rightarrow> string option \<Rightarrow> 'e list \<Rightarrow> ('w, 'e list) waiting" where
  "fetch_pages page token acc w = (case page token w of
     (w', Inl e) \<Rightarrow> Some (w', Inl e)
   | (w', Inr (es, next_token)) \<Rightarrow>
       if next_token = None \<or> next_token = Some [] then Some (w', Inr (acc @ es)) else fetch_pages page next_token (acc @ es) w')"

definition fetchHistoryHandler :: "'w client \<Rightarrow> workflow_execution \<Rightarrow> ('w, history_event list) waiting" where
  "fetchHistoryHandler cl ex = fetch_pages (\<lambda>token. eff_bind (rpc_history cl (history_page_request ex token)) (\<lambda>res.
     eff_return (or_default (hr_events res) [], hr_nextPageToken res))) None []"

section \<open>A result follows the chain of runs\<close>

text \<open>
  The specification. \<open>answers\<close> is the outcome of waiting for one run, with all the pages and repeated calls left out: the
  close event and the context its payloads belong to, or an error. The context is the one of the pages of that
  run alone. \<open>follows\<close> is the chain of runs: each run that closes in favour of another one is followed by that one.
\<close>

inductive answers ::
  "'w client \<Rightarrow> string \<Rightarrow> string option \<Rightarrow> history_request \<Rightarrow> serialization_context \<Rightarrow> 'w \<Rightarrow> 'w \<Rightarrow>
     client_error + history_event \<times> serialization_context \<Rightarrow> bool"
  for cl wid runId where
  failed: "poll_history cl wid runId req w = (w', Inl e) \<Longrightarrow> answers cl wid runId req ctx w w' (Inl e)"
| empty: "poll_history cl wid runId req w = (w1, Inr res) \<Longrightarrow> hr_events res = None \<or> hr_events res = Some [] \<Longrightarrow>
     answers cl wid runId (req\<lparr>hq_nextPageToken := hr_nextPageToken res\<rparr>)
       (page_context (client_context cl wid) req ctx res) w1 w' out \<Longrightarrow>
     answers cl wid runId req ctx w w' out"
| unknown: "poll_history cl wid runId req w = (w1, Inr res) \<Longrightarrow> hr_events res = Some [OtherEvent n] \<Longrightarrow>
     answers cl wid runId req (page_context (client_context cl wid) req ctx res) w1 w' out \<Longrightarrow>
     answers cl wid runId req ctx w w' out"
| closed: "poll_history cl wid runId req w = (w', Inr res) \<Longrightarrow> hr_events res = Some [ev] \<Longrightarrow> (\<nexists>n. ev = OtherEvent n) \<Longrightarrow>
     answers cl wid runId req ctx w w' (Inr (ev, page_context (client_context cl wid) req ctx res))"
| several: "poll_history cl wid runId req w = (w', Inr res) \<Longrightarrow> hr_events res = Some evs \<Longrightarrow> 1 < length evs \<Longrightarrow>
     answers cl wid runId req ctx w w'
       (Inl (Thrown (PlainError (''Expected at most 1 close event(s), got: '' @ show_nat (length evs)))))"

inductive follows ::
  "'w client \<Rightarrow> string \<Rightarrow> string option \<Rightarrow> bool \<Rightarrow> type_info option \<Rightarrow> string option \<Rightarrow> 'w \<Rightarrow> 'w \<Rightarrow> client_error + jsval \<Rightarrow> bool"
  for cl wid runId followRuns ti where
  error: "answers cl wid runId (first_request wid r) (client_context cl wid) w w' (Inl e) \<Longrightarrow>
     follows cl wid runId followRuns ti r w w' (Inl e)"
| last: "answers cl wid runId (first_request wid r) (client_context cl wid) w w' (Inr (ev, ctx)) \<Longrightarrow>
     close_event cl followRuns ti ctx ev = Ends out \<Longrightarrow> follows cl wid runId followRuns ti r w w' out"
| succ: "answers cl wid runId (first_request wid r) (client_context cl wid) w w1 (Inr (ev, ctx)) \<Longrightarrow>
     close_event cl followRuns ti ctx ev = NextRun r' \<Longrightarrow> follows cl wid runId followRuns ti (Some r') w1 w' out \<Longrightarrow>
     follows cl wid runId followRuns ti r w w' out"

lemma close_event_known: "close_event cl followRuns ti ctx ev = NotClosed \<longleftrightarrow> (\<exists>n. ev = OtherEvent n)"
  by (cases ev) (simp_all add: Let_def)

lemma next_run_simps [simp]:
  "next_run (req\<lparr>hq_nextPageToken := t\<rparr>) r = next_run req r"
  "next_run (first_request wid r0) r = first_request wid (Some r)"
  by (cases req, simp_all add: next_run_def first_request_def)

lemma first_request_token [simp]: "hq_nextPageToken (first_request wid r) = None"
  by (simp add: first_request_def)

text \<open>With no page token, the context a run starts with does not matter.\<close>

lemma page_context_first: "hq_nextPageToken req = None \<Longrightarrow> page_context c0 req c res = page_context c0 req c' res"
  by (simp add: page_context_def split: option.splits)

lemma answers_any_context:
  assumes "answers cl wid runId req ctx w w' out" and "hq_nextPageToken req = None"
  shows "answers cl wid runId req ctx' w w' out"
  using assms
proof (cases rule: answers.cases)
  case (empty w1 res)
  then show ?thesis using page_context_first [OF assms(2)] answers.empty by metis
next
  case (unknown w1 res n)
  then show ?thesis using page_context_first [OF assms(2)] answers.unknown by metis
next
  case (closed res ev)
  then show ?thesis using page_context_first [OF assms(2)] answers.closed by metis
next
  case (several res evs)
  then show ?thesis using answers.several by metis
qed (auto intro: answers.failed)

lemma round_failed:
  "poll_history cl wid runId req w = (w', Inl e) \<Longrightarrow> result_round cl wid runId followRuns ti req ctx w = (w', Inr (Inl e))"
  by (simp add: result_round_def)

lemma round_empty:
  "poll_history cl wid runId req w = (w', Inr res) \<Longrightarrow> hr_events res = None \<or> hr_events res = Some [] \<Longrightarrow>
   result_round cl wid runId followRuns ti req ctx w =
     (w', Inl (req\<lparr>hq_nextPageToken := hr_nextPageToken res\<rparr>, page_context (client_context cl wid) req ctx res))"
  by (auto simp: result_round_def)

lemma round_closed:
  assumes "poll_history cl wid runId req w = (w', Inr res)" "hr_events res = Some [ev]"
  shows "result_round cl wid runId followRuns ti req ctx w =
     (case close_event cl followRuns ti (page_context (client_context cl wid) req ctx res) ev of
        NextRun r \<Rightarrow> (w', Inl (next_run req r, page_context (client_context cl wid) req ctx res))
      | Ends out \<Rightarrow> (w', Inr out)
      | NotClosed \<Rightarrow> (w', Inl (req, page_context (client_context cl wid) req ctx res)))"
  using assms by (simp add: result_round_def Let_def)

lemma round_several:
  assumes "poll_history cl wid runId req w = (w', Inr res)" "hr_events res = Some evs" "1 < length evs"
  shows "result_round cl wid runId followRuns ti req ctx w =
     (w', Inr (Inl (Thrown (PlainError (''Expected at most 1 close event(s), got: '' @ show_nat (length evs))))))"
proof -
  obtain a b es where "evs = a # b # es" using assms(3) by (cases evs; cases "tl evs") auto
  then show ?thesis using assms by (simp add: result_round_def Let_def)
qed

lemmas rounds = round_failed round_empty round_closed round_several

text \<open>Waiting for one run, as the loop does it.\<close>

lemma loop_answers:
  assumes "answers cl wid runId req ctx w w1 a"
  shows "(\<forall>e. a = Inl e \<longrightarrow> result_loop cl wid runId followRuns ti req ctx w = Some (w1, Inl e)) \<and>
     (\<forall>ev c out. a = Inr (ev, c) \<longrightarrow> close_event cl followRuns ti c ev = Ends out \<longrightarrow>
        result_loop cl wid runId followRuns ti req ctx w = Some (w1, out)) \<and>
     (\<forall>ev c r. a = Inr (ev, c) \<longrightarrow> close_event cl followRuns ti c ev = NextRun r \<longrightarrow>
        result_loop cl wid runId followRuns ti req ctx w = result_loop cl wid runId followRuns ti (next_run req r) c w1)"
  using assms
proof (induction rule: answers.induct)
  case (failed req w w' e ctx)
  then show ?case by (simp add: result_loop.simps round_failed)
next
  case (empty req w w1 res ctx w' out)
  have "result_loop cl wid runId followRuns ti req ctx w = result_loop cl wid runId followRuns ti
      (req\<lparr>hq_nextPageToken := hr_nextPageToken res\<rparr>) (page_context (client_context cl wid) req ctx res) w1"
    using empty(1,2) by (subst result_loop.simps) (simp add: round_empty)
  then show ?case using empty.IH by simp
next
  case (unknown req w w1 res n ctx w' out)
  have "result_loop cl wid runId followRuns ti req ctx w = result_loop cl wid runId followRuns ti req
      (page_context (client_context cl wid) req ctx res) w1"
    using unknown(1,2) by (subst result_loop.simps) (simp add: round_closed)
  then show ?case using unknown.IH by simp
next
  case (closed req w w' res ev ctx)
  then show ?case by (simp add: result_loop.simps [of _ _ _ _ _ req] round_closed)
next
  case (several req w w' res evs ctx)
  then show ?case by (simp add: result_loop.simps [of _ _ _ _ _ req] round_several)
qed

lemma follows_loop:
  assumes "follows cl wid runId followRuns ti r w w' out"
  shows "result_loop cl wid runId followRuns ti (first_request wid r) ctx w = Some (w', out)"
  using assms
proof (induction arbitrary: ctx rule: follows.induct)
  case (error r w w' e)
  from answers_any_context [OF this first_request_token, of ctx] show ?case
    using loop_answers [of cl wid runId "first_request wid r" ctx w w' _ followRuns ti] by blast
next
  case (last r w w' ev c out)
  from answers_any_context [OF last(1) first_request_token, of ctx] show ?case
    using loop_answers [of cl wid runId "first_request wid r" ctx w w' _ followRuns ti] last(2) by simp
next
  case (succ r w w1 ev c r' w' out)
  from answers_any_context [OF succ(1) first_request_token, of ctx]
  have "result_loop cl wid runId followRuns ti (first_request wid r) ctx w =
      result_loop cl wid runId followRuns ti (first_request wid (Some r')) c w1"
    using loop_answers [of cl wid runId "first_request wid r" ctx w w1 _ followRuns ti] succ(2) by simp
  then show ?case using succ.IH by simp
qed

text \<open>What the loop has still to do from a request on: to end the run it waits for, and then to follow the chain.\<close>

definition remaining ::
  "'w client \<Rightarrow> string \<Rightarrow> string option \<Rightarrow> bool \<Rightarrow> type_info option \<Rightarrow> history_request \<Rightarrow> serialization_context \<Rightarrow> 'w \<Rightarrow> 'w \<Rightarrow>
     client_error + jsval \<Rightarrow> bool" where
  "remaining cl wid runId followRuns ti req ctx w w' out \<longleftrightarrow>
     (\<exists>e. answers cl wid runId req ctx w w' (Inl e) \<and> out = Inl e) \<or>
     (\<exists>ev c. answers cl wid runId req ctx w w' (Inr (ev, c)) \<and> close_event cl followRuns ti c ev = Ends out) \<or>
     (\<exists>ev c w1 r. answers cl wid runId req ctx w w1 (Inr (ev, c)) \<and> close_event cl followRuns ti c ev = NextRun r \<and>
        follows cl wid runId followRuns ti (Some r) w1 w' out)"

lemma remaining_first:
  assumes "remaining cl wid runId followRuns ti (first_request wid r) ctx w w' out"
  shows "follows cl wid runId followRuns ti r w w' out"
  using assms answers_any_context [OF _ first_request_token]
  unfolding remaining_def by (metis follows.intros)

lemma remaining_step:
  assumes "\<And>w2 a. answers cl wid runId req' ctx' w1 w2 a \<Longrightarrow> answers cl wid runId req ctx w w2 a"
    and "remaining cl wid runId followRuns ti req' ctx' w1 w' out"
  shows "remaining cl wid runId followRuns ti req ctx w w' out"
  using assms unfolding remaining_def by metis

definition same_target :: "string \<Rightarrow> history_request \<Rightarrow> bool" where
  "same_target wid req \<longleftrightarrow> (\<exists>r t. req = (first_request wid r)\<lparr>hq_nextPageToken := t\<rparr>)"

lemma same_target_simps [simp]:
  "same_target wid (first_request wid r0)"
  "same_target wid req \<Longrightarrow> same_target wid (req\<lparr>hq_nextPageToken := t\<rparr>)"
  "same_target wid req \<Longrightarrow> next_run req r = first_request wid (Some r)"
proof -
  show "same_target wid (first_request wid r0)"
    unfolding same_target_def by (intro exI [of _ r0] exI [of _ None]) (simp add: first_request_def)
qed (force simp: same_target_def)+

text \<open>One round of the loop, read backwards.\<close>

lemma round_remaining:
  assumes "same_target wid req"
  shows "result_round cl wid runId followRuns ti req ctx w = (w', Inr out) \<Longrightarrow> remaining cl wid runId followRuns ti req ctx w w' out"
    and "result_round cl wid runId followRuns ti req ctx w = (w1, Inl (req', ctx')) \<Longrightarrow>
      same_target wid req' \<and> (remaining cl wid runId followRuns ti req' ctx' w1 w' out \<longrightarrow> remaining cl wid runId followRuns ti req ctx w w' out)"
proof -
  obtain w2 p where p: "poll_history cl wid runId req w = (w2, p)" by force
  consider (failed) e where "p = Inl e" | (empty) res where "p = Inr res" "hr_events res = None \<or> hr_events res = Some []"
    | (one) res ev where "p = Inr res" "hr_events res = Some [ev]"
    | (several) res evs where "p = Inr res" "hr_events res = Some evs" "1 < length evs"
  proof (cases p)
    case (Inr res)
    then show ?thesis using empty one several
      by (cases "hr_events res"; cases "the (hr_events res)"; cases "tl (the (hr_events res))") auto
  qed (use failed in blast)
  then have "(result_round cl wid runId followRuns ti req ctx w = (w', Inr out) \<longrightarrow> remaining cl wid runId followRuns ti req ctx w w' out) \<and>
    (result_round cl wid runId followRuns ti req ctx w = (w1, Inl (req', ctx')) \<longrightarrow>
      same_target wid req' \<and> (remaining cl wid runId followRuns ti req' ctx' w1 w' out \<longrightarrow> remaining cl wid runId followRuns ti req ctx w w' out))"
  proof cases
    case failed
    then show ?thesis using p answers.failed [of cl wid runId req w w2 _ ctx] by (auto simp: round_failed remaining_def)
  next
    case (empty res)
    have "remaining cl wid runId followRuns ti req ctx w w' out"
      if "remaining cl wid runId followRuns ti (req\<lparr>hq_nextPageToken := hr_nextPageToken res\<rparr>)
            (page_context (client_context cl wid) req ctx res) w2 w' out"
      using remaining_step [OF _ that] answers.empty [OF p [unfolded empty(1)] empty(2)] by blast
    then show ?thesis using p empty assms by (auto simp: round_empty)
  next
    case (several res evs)
    then show ?thesis using p answers.several [of cl wid runId req w w2 res evs ctx] by (auto simp: round_several remaining_def)
  next
    case (one res ev)
    note r = round_closed [OF p [unfolded one(1)] one(2), of followRuns ti ctx]
    let ?c = "page_context (client_context cl wid) req ctx res"
    show ?thesis
    proof (cases "close_event cl followRuns ti ?c ev")
      case NotClosed
      then obtain n where n: "ev = OtherEvent n" by (auto simp: close_event_known)
      have "remaining cl wid runId followRuns ti req ctx w w' out" if "remaining cl wid runId followRuns ti req ?c w2 w' out"
        using remaining_step [OF _ that] answers.unknown [OF p [unfolded one(1)] one(2) [unfolded n]] by blast
      then show ?thesis using r NotClosed assms by auto
    next
      case (Ends out')
      then have "answers cl wid runId req ctx w w2 (Inr (ev, ?c))"
        using answers.closed [OF p [unfolded one(1)] one(2)] close_event_known [of cl followRuns ti ?c ev] by auto
      then show ?thesis using r Ends by (auto simp: remaining_def)
    next
      case (NextRun r')
      then have "answers cl wid runId req ctx w w2 (Inr (ev, ?c))"
        using answers.closed [OF p [unfolded one(1)] one(2)] close_event_known [of cl followRuns ti ?c ev] by auto
      then have "remaining cl wid runId followRuns ti req ctx w w' out"
        if "remaining cl wid runId followRuns ti (first_request wid (Some r')) ?c w2 w' out"
        using remaining_first [OF that] NextRun unfolding remaining_def by blast
      then show ?thesis using r NextRun assms by auto
    qed
  qed
  then show "result_round cl wid runId followRuns ti req ctx w = (w', Inr out) \<Longrightarrow> remaining cl wid runId followRuns ti req ctx w w' out"
    and "result_round cl wid runId followRuns ti req ctx w = (w1, Inl (req', ctx')) \<Longrightarrow>
      same_target wid req' \<and> (remaining cl wid runId followRuns ti req' ctx' w1 w' out \<longrightarrow> remaining cl wid runId followRuns ti req ctx w w' out)"
    by blast+
qed

lemma loop_remaining:
  assumes "result_loop cl wid runId followRuns ti req ctx w = Some (w', out)" and "same_target wid req"
  shows "remaining cl wid runId followRuns ti req ctx w w' out"
proof -
  let ?P = "\<lambda>cl wid runId followRuns ti req ctx w x. same_target wid req \<longrightarrow> remaining cl wid runId followRuns ti req ctx w (fst x) (snd x)"
  have "?P cl wid runId followRuns ti req ctx w (w', out)"
  proof (rule result_loop.raw_induct [where P = ?P, OF _ assms(1)], rule impI)
    fix loop cl wid runId followRuns ti req ctx w x
    assume IH: "\<And>cl wid runId followRuns ti req ctx w x. loop cl wid runId followRuns ti req ctx w = Some x \<Longrightarrow>
        ?P cl wid runId followRuns ti req ctx w x"
      and body: "(case result_round cl wid runId followRuns ti req ctx w of
        (w', Inl (req', ctx')) \<Rightarrow> loop cl wid runId followRuns ti req' ctx' w' | (w', Inr out) \<Rightarrow> Some (w', out)) = Some x"
      and t: "same_target wid req"
    show "remaining cl wid runId followRuns ti req ctx w (fst x) (snd x)"
    proof (cases "snd (result_round cl wid runId followRuns ti req ctx w)")
      case (Inr out)
      then have "result_round cl wid runId followRuns ti req ctx w = (fst x, Inr (snd x))"
        using body by (auto split: prod.splits)
      then show ?thesis by (rule round_remaining(1) [OF t])
    next
      case (Inl n)
      then obtain w1 req' ctx' where r: "result_round cl wid runId followRuns ti req ctx w = (w1, Inl (req', ctx'))"
        by (metis prod.collapse)
      then show ?thesis using round_remaining(2) [OF t r] IH [of cl wid runId followRuns ti req' ctx' w1 x] body by simp
    qed
  qed
  then show ?thesis using assms(2) by simp
qed

lemma result_follows:
  assumes "result cl wid runId followRuns ti w = Some (w', out)"
  shows "follows cl wid runId (or_default followRuns True) ti runId w w' out"
  using assms unfolding result_def by (intro remaining_first [OF loop_remaining]) simp_all

text \<open>
  C31: (Refinement.) Waiting for a result is following the chain of runs: the loop over pages, repeated calls and runs
  returns if and only if every run of the chain is answered, and then it leaves the service in the same state and returns the outcome of the last
  run - its decoded result, the error of its failure, cancellation, termination or timeout, or the error of a call that failed.
\<close>

theorem result_follows_runs:
  "result cl wid runId followRuns ti w = Some (w', out) \<longleftrightarrow>
   follows cl wid runId (or_default followRuns True) ti runId w w' out"
proof
  assume "result cl wid runId followRuns ti w = Some (w', out)"
  then show "follows cl wid runId (or_default followRuns True) ti runId w w' out" by (rule result_follows)
next
  assume "follows cl wid runId (or_default followRuns True) ti runId w w' out"
  then show "result cl wid runId followRuns ti w = Some (w', out)"
    unfolding result_def by (rule follows_loop)
qed

text \<open>
  (Error.) A close event the client does not know is not waited for: the same call is made again at once, and a service that goes on
  answering with that event keeps the client busy for ever.
\<close>

theorem unknown_close_event_never_returns:
  assumes "\<And>w. \<exists>w'. poll_history cl wid runId (first_request wid runId) w = (w', Inr res)" and "hr_events res = Some [OtherEvent n]"
  shows "result cl wid runId followRuns ti w = None"
proof -
  have "False" if "answers cl wid runId req ctx w w' out" "req = first_request wid runId" for req ctx w w' out
    using that
  proof (induction rule: answers.induct)
    case (failed req w w' e ctx)
    then show ?case using assms(1) [of w] by auto
  next
    case (several req w w' res' evs ctx)
    then show ?case using assms(1) [of w] assms(2) by auto
  next
    case (closed req w w' res' ev ctx)
    then show ?case using assms(1) [of w] assms(2) by auto
  next
    case (empty req w w1 res' ctx w' out)
    then show ?case using assms(1) [of w] assms(2) by auto
  qed blast
  then have "\<not> follows cl wid runId (or_default followRuns True) ti runId w w' out" for w' out
    by (metis follows.cases)
  then show ?thesis
    using result_follows [of cl wid runId followRuns ti w] by (cases "result cl wid runId followRuns ti w") auto
qed

section \<open>The operation of an update with start is settled once\<close>

definition multi_effect ::
  "(start_response \<Rightarrow> workflow_handle) \<Rightarrow> bool \<Rightarrow> start_operation \<Rightarrow> start_operation \<Rightarrow> bool \<Rightarrow> client_error + 'a \<Rightarrow> bool" where
  "multi_effect onStart seenStart so so' seen' r \<longleftrightarrow>
     (if seenStart then seen' \<and> so' = so
      else if seen' then (\<exists>res. so' = settle_operation (Inr (onStart res)) so)
      else so' = so \<and> isl r)"

lemma multi_loop_effect:
  assumes "multi_loop cl onStart req seenStart st = Some x"
  shows "multi_effect onStart seenStart (snd st) (snd (fst x)) (fst (snd x)) (snd (snd x))"
proof (rule multi_loop.raw_induct [where P = "\<lambda>cl onStart req seenStart st x.
      multi_effect onStart seenStart (snd st) (snd (fst x)) (fst (snd x)) (snd (snd x))", OF _ assms])
  fix loop cl onStart req seenStart st x
  assume IH: "\<And>cl onStart req seenStart st x. loop cl onStart req seenStart st = Some x \<Longrightarrow>
      multi_effect onStart seenStart (snd st) (snd (fst x)) (fst (snd x)) (snd (snd x))"
    and body: "(case st of (w, so) \<Rightarrow>
     (case eff_bind (rpc_multi cl req) (fetch_multi cl) w of
        (w', Inl e) \<Rightarrow> Some ((w', so), seenStart, Inl e)
      | (w', Inr res) \<Rightarrow>
          if \<not> seenStart \<and> mr_start res = None then Some ((w', so), seenStart, Inl read_undefined)
          else let so' = (if seenStart then so else settle_operation (Inr (onStart (the (mr_start res)))) so) in
            (case mr_update res of
               None \<Rightarrow> Some ((w', so'), True, Inl read_undefined)
             | Some ur \<Rightarrow>
                 if or_default (ur_stage ur) 0 < stage_ACCEPTED then loop cl onStart req True (w', so')
                 else Some ((w', so'), True, Inr ur)))) = Some x"
  show "multi_effect onStart seenStart (snd st) (snd (fst x)) (fst (snd x)) (snd (snd x))"
    using body IH [of cl onStart req True _ x]
    by (auto simp: multi_effect_def Let_def split: prod.splits sum.splits if_splits option.splits)
qed

lemma multi_operation_effect:
  assumes "multi_operation cl waitForStage onStart wfType cp i (w, so) = Some (st', seen', r)"
  shows "multi_effect onStart False so (snd st') seen' r"
proof -
  obtain w1 p where p: "multi_request cl waitForStage wfType cp i w = (w1, p)" by force
  show ?thesis
  proof (cases p)
    case (Inl e)
    then show ?thesis using assms p by (auto simp: multi_operation_def multi_effect_def)
  next
    case (Inr q)
    then obtain req uid r' where r': "multi_loop cl onStart req False (w1, so) = Some (st', seen', r')" "r = multi_output uid r'"
      using assms p by (cases q) (auto simp: multi_operation_def)
    have "isl r' \<longrightarrow> isl r" using r'(2) by (auto simp: multi_output_def isl_def)
    then show ?thesis using multi_loop_effect [OF r'(1)] by (auto simp: multi_effect_def)
  qed
qed

lemma handler_settles:
  assumes "updateWithStartHandler cl waitForStage onStart wfType cp i (w, so) = Some ((w', so'), out)" and "so_handle so = Pending"
  shows "so_used so' = so_used so \<and> ((\<exists>res. so_handle so' = Settled (Inr (onStart res))) \<or> (\<exists>e. so_handle so' = Settled (Inl e)) \<and> isl out)"
proof -
  obtain w1 so1 seen r where m: "multi_operation cl waitForStage onStart wfType cp i (w, so) = Some ((w1, so1), seen, r)"
    using assms(1) by (auto simp: updateWithStartHandler_def)
  have e: "multi_effect onStart False so so1 seen r" using multi_operation_effect [OF m] by simp
  show ?thesis
  proof (cases seen)
    case True
    then have "so' = so1" using assms(1) m by (auto simp: updateWithStartHandler_def Let_def split: sum.splits)
    then show ?thesis using e True assms(2) by (auto simp: multi_effect_def settle_operation_def)
  next
    case False
    then obtain x where "r = Inl x" and "so1 = so" using e by (auto simp: multi_effect_def isl_def)
    then show ?thesis using assms m False by (auto simp: updateWithStartHandler_def Let_def settle_operation_def)
  qed
qed

lemma wait_bind_state:
  assumes "wait_bind m f st = Some (st', out)" and "\<And>a st1 out'. f a st1 = Some (st', out') \<Longrightarrow> snd st' = snd st1"
  shows "\<exists>st1 r. m st = Some (st1, r) \<and> snd st' = snd st1 \<and> (isl r \<longrightarrow> isl out)"
proof -
  obtain st1 r where m: "m st = Some (st1, r)" using assms(1) by (auto simp: wait_bind_def split: option.splits)
  then show ?thesis using assms by (cases r) (auto simp: wait_bind_def)
qed

lemma beside_state: "beside m st = Some (st', out) \<Longrightarrow> snd st' = snd st"
  by (auto simp: beside_def split: prod.splits)

lemma at_once_state [simp]: "at_once (eff_return a) st = Some (st', out) \<longleftrightarrow> st' = st \<and> out = Inr a"
  by (auto simp: at_once_def eff_return_def)

lemma finish_state:
  assumes "finish_update_with_start cl o' waitForStage uti a st = Some (st', out)"
  shows "snd st' = snd st"
proof -
  obtain st2 r where "(if snd (snd (snd a)) = None \<and> waitForStage = ''COMPLETED''
         then beside (wait_bind (pollForUpdateOutcome cl (fst (snd (snd a))) \<lparr>ex_workflowId = Some (wo_workflowId o'), ex_runId = Some (fst (snd a))\<rparr>)
                (\<lambda>out'. at_once (eff_return (Some out'))))
         else at_once (eff_return (snd (snd (snd a))))) st = Some (st2, r)" and s: "snd st' = snd st2"
    using assms unfolding finish_update_with_start_def case_prod_beta by (auto dest!: wait_bind_state)
  then have "snd st2 = snd st" by (auto dest: beside_state split: if_splits)
  then show ?thesis using s by simp
qed


text \<open>A service that counts the calls it gets and answers every one of them.\<close>

definition counted :: "'a \<Rightarrow> (nat, 'a) cl_act" where
  "counted a = (\<lambda>n. (Suc n, Inr a))"

definition example_client :: "nat client" where
  "example_client = \<lparr>cl_namespace = ''default'', cl_identity = ''me'', cl_data = default_data_converter (\<lambda>v. []) example_env False [],
     cl_decoders = \<lparr>pd_status = (\<lambda>b. Inr []), pd_namespaceNotFound = Inr, pd_multiOperation = (\<lambda>b. Inr []), pd_alreadyStarted = Inr, pd_text = (\<lambda>b. b)\<rparr>,
     cl_ms = (\<lambda>s. None), cl_sa = example_sa_env, cl_supportsEagerStart = False, cl_queryRejectCondition = None,
     cl_randomUUID = (\<lambda>n. (Suc n, show_nat n)),
     rpc_history = (\<lambda>q. counted (if ex_runId (hq_execution q) = Some ''r2''
        then \<lparr>hr_events = Some [CompletedEvent None []], hr_nextPageToken = None, hr_nexusContext = None\<rparr>
        else \<lparr>hr_events = Some [ContinuedAsNewEvent ''r2''], hr_nextPageToken = None, hr_nexusContext = None\<rparr>)),
     fetch_history = eff_return, rpc_start = (\<lambda>q. counted \<lparr>sr_runId = Some ''r1'', sr_eagerTask = False, sr_link = None\<rparr>), store_start = eff_return,
     rpc_signalWithStart = (\<lambda>q. counted \<lparr>sr_runId = Some ''r1'', sr_eagerTask = False, sr_link = None\<rparr>),
     rpc_update = (\<lambda>q. counted \<lparr>ur_stage = Some 2, ur_ref = Some (''w'', ''r1''), ur_outcome = None, ur_link = None\<rparr>), store_update = eff_return, fetch_update = eff_return,
     rpc_poll = (\<lambda>q. counted \<lparr>ur_stage = Some 3, ur_ref = None, ur_outcome = Some (UpdateSuccess None), ur_link = None\<rparr>),
     rpc_multi = (\<lambda>q. counted \<lparr>mr_start = Some \<lparr>sr_runId = Some ''r1'', sr_eagerTask = False, sr_link = None\<rparr>,
        mr_update = Some \<lparr>ur_stage = Some 2, ur_ref = Some (''w'', ''r1''), ur_outcome = None, ur_link = None\<rparr>\<rparr>),
     store_multi = eff_return, fetch_multi = eff_return,
     rpc_query = (\<lambda>q. counted \<lparr>qr_rejected = None, qr_result = None, qr_link = None\<rparr>), store_query = eff_return, fetch_query = eff_return,
     rpc_signal = (\<lambda>q. counted None), store_signal = eff_return, rpc_terminate = (\<lambda>q. counted ()), store_terminate = eff_return,
     rpc_cancel = (\<lambda>q. counted ())\<rparr>"

definition example_options :: wf_options where
  "example_options = \<lparr>wo_workflowId = ''w'', wo_taskQueue = ''q'', wo_args = None, wo_followRuns = None, wo_executionTimeout = None,
     wo_runTimeout = None, wo_taskTimeout = None, wo_startDelay = None, wo_versioningOverride = None, wo_requestEagerStart = False,
     wo_reusePolicy = None, wo_conflictPolicy = None, wo_retry = None, wo_memo = None, wo_searchAttributes = None,
     wo_typedSearchAttributes = None, wo_cronSchedule = None, wo_staticSummary = None, wo_staticDetails = None, wo_priority = None,
     wo_typeInfo = None, wo_internal = None\<rparr>"

definition example_update :: update_options where
  "example_update = \<lparr>uo_updateId = Some ''u1'', uo_args = None, uo_typeInfo = None, uo_internal = None\<rparr>"

definition fresh_operation :: start_operation where
  "fresh_operation = \<lparr>so_used = False, so_handle = Pending\<rparr>"

lemma example_compiled: "\<exists>cp. compiled_start example_client (WorkflowName ''wf'') example_options = Inr (''wf'', cp) \<and>
    cp_options cp = example_options \<and> cp_args cp = [] \<and> cp_executionTimeout cp = None \<and> cp_runTimeout cp = None"
  by (simp add: compiled_start_def extractWorkflowTypeAndConfig_def example_options_def assertRequiredWorkflowOptions_def
      compileWorkflowOptions_def msOptionalToTs_def or_default_def)

lemma example_request: "\<exists>req. multi_request example_client ''ACCEPTED'' ''wf'' cp i 0 = (1, Inr (req, ''u1''))"
  if "cp_options cp = example_options" "cp_args cp = []" "ui_updateId i = Some ''u1''" "ui_args i = []"
  using that
  by (simp add: multi_request_def createStartWorkflowRequest_def start_fields_def createUpdateWorkflowRequest_def example_client_def
      example_options_def new_uuid_def lift_js_def eff_defs encodeToPayloadsWithContext_def compile_optional_def
      encodeUserMetadata_def enum_name_def workflowUpdateStage_table_def shorten_def starts_with_def Let_def default_data_converter_def)

lemma example_loop: "multi_loop example_client onStart req False (n, so) =
    Some ((Suc n, settle_operation (Inr (onStart \<lparr>sr_runId = Some ''r1'', sr_eagerTask = False, sr_link = None\<rparr>)) so), True,
      Inr \<lparr>ur_stage = Some 2, ur_ref = Some (''w'', ''r1''), ur_outcome = None, ur_link = None\<rparr>)"
  by (subst multi_loop.simps) (simp add: example_client_def counted_def eff_defs or_default_def stage_ACCEPTED_def Let_def)


end
