(* ===== verification/NexusTokens.thy ===== *)
theory NexusTokens
  imports FailureConverter
begin

text \<open>
  The tokens of Nexus operations, \<^verbatim>\<open>packages/nexus/src/token.ts\<close>: a JSON object in base64url without padding. The object is a value of JSON. The conversions of
  \<^verbatim>\<open>Buffer\<close> between strings and bytes are UTF-8, as the conversions of \<^verbatim>\<open>encoding.ts\<close>, which stand for them here; the decoder of Node for base64url skips an incomplete last byte.
\<close>

section \<open>base64url\<close>

definition b64_alphabet :: string where
  "b64_alphabet = ''ABCDEFGHIJKLMNOPQRSTUVWXYZabcdefghijklmnopqrstuvwxyz0123456789-_''"

definition b64_char :: "nat \<Rightarrow> char" where
  "b64_char n = b64_alphabet ! n"

definition b64_value :: "char \<Rightarrow> nat option" where
  "b64_value c = map_of (zip b64_alphabet [0..<64]) c"

fun sextets :: "nat list \<Rightarrow> nat list" where
  "sextets [] = []"
| "sextets [a] = [a div 4, a mod 4 * 16]"
| "sextets [a, b] = [a div 4, a mod 4 * 16 + b div 16, b mod 16 * 4]"
| "sextets (a # b # c # bs) = [a div 4, a mod 4 * 16 + b div 16, b mod 16 * 4 + c div 64, c mod 64] @ sextets bs"

fun octets :: "nat list \<Rightarrow> nat list" where
  "octets (w # x # y # z # ss) = [w * 4 + x div 16, x mod 16 * 16 + y div 4, y mod 4 * 64 + z] @ octets ss"
| "octets [w, x, y] = [w * 4 + x div 16, x mod 16 * 16 + y div 4]"
| "octets [w, x] = [w * 4 + x div 16]"
| "octets _ = []"

definition base64URLEncodeNoPadding :: "nat list \<Rightarrow> js_error + string" where
  "base64URLEncodeNoPadding str = bind_res (encode_text str) (\<lambda>b. Inr (map b64_char (sextets (map of_char b))))"

definition valid_base64url :: "string \<Rightarrow> bool" where
  "valid_base64url s = list_all (\<lambda>c. c \<in> set b64_alphabet) s"

text \<open>The padding ends the input of the decoder.\<close>

definition node_base64url_decode :: "string \<Rightarrow> string" where
  "node_base64url_decode s = map char_of (octets (map (\<lambda>c. the (b64_value c)) (takeWhile (\<lambda>c. c \<noteq> CHR ''='') s)))"

definition base64URLDecodeNoPadding :: "string \<Rightarrow> js_error + nat list" where
  "base64URLDecodeNoPadding s =
     (if \<not> valid_base64url s then Inl (TypeError ''invalid base64URL encoded string: contains invalid characters'')
      else let paddingLength = length s mod 4;
               padded = (if paddingLength > 0 then s @ replicate (4 - paddingLength) (CHR ''='') else s)
           in Inr (decode_bytes (node_base64url_decode padded)))"

section \<open>Tokens\<close>

definition WORKFLOW_RUN :: int where "WORKFLOW_RUN = 1"
definition ACTIVITY :: int where "ACTIVITY = 2"
definition UPDATE_WORKFLOW :: int where "UPDATE_WORKFLOW = 3"

lemmas token_types = WORKFLOW_RUN_def ACTIVITY_def UPDATE_WORKFLOW_def

definition isOperationTokenType :: "int \<Rightarrow> bool" where
  "isOperationTokenType n = (n \<in> {WORKFLOW_RUN, ACTIVITY, UPDATE_WORKFLOW})"

text \<open>A token is an object, which JSON has a text for.\<close>

definition encodeOperationToken :: "jsval \<Rightarrow> js_error + string" where
  "encodeOperationToken token = base64URLEncodeNoPadding (case stringify token of None \<Rightarrow> codes ''undefined'' | Some t \<Rightarrow> t)"

definition generateWorkflowRunOperationToken :: "string \<Rightarrow> string \<Rightarrow> js_error + string" where
  "generateWorkflowRunOperationToken ns workflowId =
     encodeOperationToken (JObj [(''t'', JNum WORKFLOW_RUN), (''ns'', JStr ns), (''wid'', JStr workflowId)])"

definition generateUpdateWorkflowOperationToken :: "string \<Rightarrow> string \<Rightarrow> string \<Rightarrow> string \<Rightarrow> js_error + string" where
  "generateUpdateWorkflowOperationToken ns workflowId runId updateId =
     (if ns = [] then Inl (TypeError ''invalid update workflow token: missing namespace'')
      else if workflowId = [] then Inl (TypeError ''invalid update workflow token: missing workflow ID (wid)'')
      else if updateId = [] then Inl (TypeError ''invalid update workflow token: missing update ID (uid)'')
      else encodeOperationToken (JObj [(''t'', JNum UPDATE_WORKFLOW), (''ns'', JStr ns), (''wid'', JStr workflowId),
             (''rid'', if runId \<noteq> [] then JStr runId else Undefined), (''uid'', JStr updateId)]))"

definition generateActivityOperationToken :: "string \<Rightarrow> string \<Rightarrow> string \<Rightarrow> js_error + string" where
  "generateActivityOperationToken ns activityId runId =
     encodeOperationToken (JObj [(''t'', JNum ACTIVITY), (''ns'', JStr ns), (''aid'', JStr activityId), (''rid'', JStr runId)])"

fun typeof_value :: "jsval \<Rightarrow> string" where
  "typeof_value Undefined = ''undefined''"
| "typeof_value (JBool b) = ''boolean''"
| "typeof_value (JNum n) = ''number''"
| "typeof_value (JStr s) = ''string''"
| "typeof_value _ = ''object''"

definition show_int :: "int \<Rightarrow> string" where
  "show_int n = map char_of (json_int n)"

fun token_type :: "jsval \<Rightarrow> int option" where
  "token_type (JNum n) = Some n"
| "token_type _ = None"

definition non_empty_string :: "jsval \<Rightarrow> bool" where
  "non_empty_string v = (case v of JStr s \<Rightarrow> s \<noteq> [] | _ \<Rightarrow> False)"

definition with_cause :: "string \<Rightarrow> js_error \<Rightarrow> js_error" where
  "with_cause m e = OtherError [(1, ''TypeError''), Error_class] m [] (Some e)"

definition check_token :: "jsval \<Rightarrow> js_error + jsval" where
  "check_token token =
     (if typeof_value token \<noteq> ''object'' \<or> token = Null
      then Inl (TypeError (''invalid operation token: expected object, got '' @ typeof_value token))
      else if field_of token ''v'' \<noteq> Undefined \<and> field_of token ''v'' \<noteq> JNum 0
      then Inl (TypeError (''invalid operation token: '' @ [CHR 0x22] @ ''v'' @ [CHR 0x22] @ '' field should not be present''))
      else case token_type (field_of token ''t'') of
        None \<Rightarrow> Inl (TypeError (''invalid operation token: expected token type to be a number, got '' @ typeof_value (field_of token ''t'')))
      | Some n \<Rightarrow>
          if \<not> isOperationTokenType n then Inl (TypeError (''invalid operation token: unknown token type: '' @ show_int n))
          else if typeof_value (field_of token ''ns'') \<noteq> ''string''
          then Inl (TypeError (''invalid operation token: expected namespace to be a string, got '' @ typeof_value (field_of token ''ns'')))
          else Inr token)"

definition loadOperationToken :: "string \<Rightarrow> js_error + jsval" where
  "loadOperationToken dat =
     (if dat = [] then Inl (TypeError ''invalid operation token: token is empty'')
      else case base64URLDecodeNoPadding dat of
        Inl e \<Rightarrow> Inl (with_cause ''failed to decode token'' e)
      | Inr decoded \<Rightarrow> (case json_parse decoded of
          Inl e \<Rightarrow> Inl (with_cause ''failed to unmarshal Operation token'' e)
        | Inr token \<Rightarrow> check_token token))"

definition type_text :: "jsval \<Rightarrow> string" where
  "type_text token = (case token_type (field_of token ''t'') of None \<Rightarrow> [] | Some n \<Rightarrow> show_int n)"

definition assertWorkflowRunOperationToken :: "jsval \<Rightarrow> js_error + unit" where
  "assertWorkflowRunOperationToken token =
     (if field_of token ''t'' \<noteq> JNum WORKFLOW_RUN
      then Inl (TypeError (''invalid workflow token type: '' @ type_text token @ '', expected: '' @ show_int WORKFLOW_RUN))
      else if \<not> non_empty_string (field_of token ''wid'') then Inl (TypeError ''invalid workflow run token: missing workflow ID (wid)'')
      else Inr ())"

definition assertUpdateWorkflowOperationToken :: "jsval \<Rightarrow> js_error + unit" where
  "assertUpdateWorkflowOperationToken token =
     (if field_of token ''t'' \<noteq> JNum UPDATE_WORKFLOW
      then Inl (TypeError (''invalid update workflow token type: '' @ type_text token @ '', expected: '' @ show_int UPDATE_WORKFLOW))
      else if \<not> non_empty_string (field_of token ''wid'') then Inl (TypeError ''invalid update workflow token: missing workflow ID (wid)'')
      else if \<not> non_empty_string (field_of token ''uid'') then Inl (TypeError ''invalid update workflow token: missing update ID (uid)'')
      else Inr ())"

definition assertActivityOperationToken :: "jsval \<Rightarrow> js_error + unit" where
  "assertActivityOperationToken token =
     (if field_of token ''t'' \<noteq> JNum ACTIVITY
      then Inl (TypeError (''invalid activity token type: '' @ type_text token @ '', expected: '' @ show_int ACTIVITY))
      else if \<not> non_empty_string (field_of token ''aid'') then Inl (TypeError ''invalid activity token: missing or invalid activity ID (aid)'')
      else if \<not> non_empty_string (field_of token ''rid'') then Inl (TypeError ''invalid activity token: missing or invalid activity run ID (rid)'')
      else Inr ())"

definition loadWorkflowRunOperationToken :: "string \<Rightarrow> js_error + jsval" where
  "loadWorkflowRunOperationToken dat = bind_res (loadOperationToken dat) (\<lambda>token.
     bind_res (assertWorkflowRunOperationToken token) (\<lambda>_. Inr token))"

definition loadUpdateWorkflowOperationToken :: "string \<Rightarrow> js_error + jsval" where
  "loadUpdateWorkflowOperationToken dat = bind_res (loadOperationToken dat) (\<lambda>token.
     bind_res (assertUpdateWorkflowOperationToken token) (\<lambda>_. Inr token))"

section \<open>base64url is lossless\<close>

lemma b64_inverse: "n < 64 \<Longrightarrow> b64_value (b64_char n) = Some n \<and> b64_char n \<in> set b64_alphabet \<and> b64_char n \<noteq> CHR ''=''"
proof -
  have "list_all (\<lambda>n. b64_value (b64_char n) = Some n \<and> b64_char n \<in> set b64_alphabet \<and> b64_char n \<noteq> CHR ''='') [0..<64]" by code_simp
  then show "n < 64 \<Longrightarrow> b64_value (b64_char n) = Some n \<and> b64_char n \<in> set b64_alphabet \<and> b64_char n \<noteq> CHR ''=''"
    by (auto simp: list_all_iff)
qed

lemma sextets_range: "list_all (\<lambda>b. b < 256) bs \<Longrightarrow> list_all (\<lambda>s. s < 64) (sextets bs)"
proof (induction bs rule: sextets.induct)
  case (4 a b c bs)
  then show ?case by (auto simp: less_mult_imp_div_less)
qed auto

lemma octets_sextets: "list_all (\<lambda>b. b < 256) bs \<Longrightarrow> octets (sextets bs) = bs"
proof (induction bs rule: sextets.induct)
  case (4 a b c bs)
  have "(a mod 4 * 16 + b div 16) div 16 = a mod 4" "(a mod 4 * 16 + b div 16) mod 16 = b div 16"
    "(b mod 16 * 4 + c div 64) div 4 = b mod 16" "(b mod 16 * 4 + c div 64) mod 4 = c div 64"
    using 4(2) by auto
  then show ?case using 4 by simp
qed auto

lemma base64_roundtrip:
  assumes "\<forall>u \<in> set t. u < 256" and "t \<noteq> []"
  shows "\<exists>s. base64URLEncodeNoPadding t = Inr s \<and> s \<noteq> [] \<and> base64URLDecodeNoPadding s = Inr t"
proof -
  obtain b where b: "encode_text t = Inr b" "decode_bytes b = t" using text_roundtrip [OF assms(1)] by blast
  define sx where "sx = sextets (map of_char b)"
  define s where "s = map b64_char sx"
  have bytes: "list_all (\<lambda>b. b < 256) (map of_char b :: nat list)" by (auto simp: list_all_iff)
  have sx: "list_all (\<lambda>n. n < 64) sx" unfolding sx_def using bytes by (rule sextets_range)
  have plain: "valid_base64url s" "\<forall>c \<in> set s. c \<noteq> CHR ''=''" "map (\<lambda>c. the (b64_value c)) s = sx"
    using sx b64_inverse by (auto simp: s_def valid_base64url_def list_all_iff map_idI)
  have cut: "takeWhile (\<lambda>c. c \<noteq> CHR ''='') (s @ replicate k (CHR ''='')) = s" for k
    using plain(2) by (cases k) (auto simp: takeWhile_append2)
  have cut0: "takeWhile (\<lambda>c. c \<noteq> CHR ''='') s = s" using cut [of 0] by simp
  have "octets sx = map of_char b" unfolding sx_def using bytes by (rule octets_sextets)
  then have dec: "map char_of (octets (map (\<lambda>c. the (b64_value c)) s)) = b" using plain(3) by (simp add: map_idI)
  have "base64URLDecodeNoPadding s = Inr t"
    using plain(1) b(2) by (simp add: base64URLDecodeNoPadding_def node_base64url_decode_def Let_def cut0 cut dec)
  moreover have "s \<noteq> []"
  proof
    assume "s = []"
    then have "sextets (map of_char b) = []" by (simp add: s_def sx_def)
    then have "b = []" by (cases "map of_char b :: nat list" rule: sextets.cases) auto
    then show False using b assms(2) by (simp add: decode_bytes_def decode_unbuffered decode_units.simps)
  qed
  ultimately show ?thesis using b(1) by (auto simp: base64URLEncodeNoPadding_def s_def sx_def)
qed

section \<open>Tokens are read back\<close>

lemma token_roundtrip:
  assumes "json_value v" and "stringify v = stringify token"
  shows "\<exists>s. encodeOperationToken token = Inr s \<and> loadOperationToken s = check_token v"
proof -
  obtain t where t: "stringify v = Some t" "json_parse t = Inr v" using json_roundtrip [OF assms(1)] by blast
  have "t \<noteq> []" using t(2) by (auto simp: json_parse_def skip_ws_def)
  then obtain s where "base64URLEncodeNoPadding t = Inr s" "s \<noteq> []" "base64URLDecodeNoPadding s = Inr t"
    using base64_roundtrip stringify_units(1) [OF assms(1) t(1)] by blast
  then show ?thesis using t assms(2) by (auto simp: encodeOperationToken_def loadOperationToken_def)
qed

lemma token_keys: "k \<in> {''t'', ''ns'', ''wid'', ''rid'', ''uid'', ''aid''} \<Longrightarrow> array_index k = None"
  by (auto simp: array_index_def Let_def is_digit_def)

lemma own_order_names:
  assumes "list_all (\<lambda>(k, v). array_index k = None) kvs"
  shows "own_order kvs = kvs"
proof -
  have "filter (\<lambda>(k, v). array_index k \<noteq> None) kvs = []" "filter (\<lambda>(k, v). array_index k = None) kvs = kvs"
    using assms by (auto simp: filter_empty_conv list_all_iff intro: filter_True)
  then show ?thesis by (simp add: own_order_def)
qed

lemma token_object:
  assumes "distinct (map fst kvs)" and "list_all (\<lambda>(k, v). k \<in> {''t'', ''ns'', ''wid'', ''rid'', ''uid'', ''aid''} \<and> json_value v) kvs"
  shows "json_value (JObj kvs)"
proof -
  have "list_all (\<lambda>(k, v). array_index k = None) kvs"
    unfolding list_all_iff
  proof
    fix e
    assume e: "e \<in> set kvs"
    obtain k v where kv: "e = (k, v)" by force
    then have "k \<in> {''t'', ''ns'', ''wid'', ''rid'', ''uid'', ''aid''}" using assms(2) e by (simp add: list_all_iff split: prod.splits)
    then show "case e of (k, v) \<Rightarrow> array_index k = None" using token_keys kv by simp
  qed
  moreover have "json_members kvs" using assms(2) by (induction kvs) auto
  ultimately show ?thesis using assms(1) by (simp add: own_order_names)
qed

abbreviation run_token :: "string \<Rightarrow> string \<Rightarrow> jsval" where
  "run_token ns wid \<equiv> JObj [(''t'', JNum WORKFLOW_RUN), (''ns'', JStr ns), (''wid'', JStr wid)]"

abbreviation activity_token :: "string \<Rightarrow> string \<Rightarrow> string \<Rightarrow> jsval" where
  "activity_token ns aid rid \<equiv> JObj [(''t'', JNum ACTIVITY), (''ns'', JStr ns), (''aid'', JStr aid), (''rid'', JStr rid)]"

abbreviation update_token :: "string \<Rightarrow> string \<Rightarrow> string \<Rightarrow> string \<Rightarrow> jsval" where
  "update_token ns wid rid uid \<equiv> JObj ([(''t'', JNum UPDATE_WORKFLOW), (''ns'', JStr ns), (''wid'', JStr wid)] @
     (if rid = [] then [] else [(''rid'', JStr rid)]) @ [(''uid'', JStr uid)])"

text \<open>
  C38: (Round trip.) The token of a workflow run, of an update or of an activity with the identifiers it needs is generated without an error and read back
  as the object with exactly these identifiers; the loader of one kind refuses the tokens of the others; and a token
  that any loader accepts names a namespace and one of the three kinds.
\<close>

theorem operation_tokens_roundtrip:
  "(wid \<noteq> [] \<longrightarrow> (\<exists>s. generateWorkflowRunOperationToken ns wid = Inr s \<and> loadWorkflowRunOperationToken s = Inr (run_token ns wid) \<and>
      isl (loadUpdateWorkflowOperationToken s))) \<and>
   (ns \<noteq> [] \<and> wid \<noteq> [] \<and> uid \<noteq> [] \<longrightarrow> (\<exists>s. generateUpdateWorkflowOperationToken ns wid rid uid = Inr s \<and>
      loadUpdateWorkflowOperationToken s = Inr (update_token ns wid rid uid) \<and> isl (loadWorkflowRunOperationToken s))) \<and>
   (aid \<noteq> [] \<and> rid \<noteq> [] \<longrightarrow> (\<exists>s. generateActivityOperationToken ns aid rid = Inr s \<and> loadOperationToken s = Inr (activity_token ns aid rid) \<and>
      assertActivityOperationToken (activity_token ns aid rid) = Inr () \<and>
      isl (loadWorkflowRunOperationToken s) \<and> isl (loadUpdateWorkflowOperationToken s))) \<and>
   (loadOperationToken d = Inr token \<longrightarrow> (\<exists>n m. field_of token ''t'' = JNum n \<and> isOperationTokenType n \<and> field_of token ''ns'' = JStr m))"
proof (intro conjI impI)
  note load = loadWorkflowRunOperationToken_def loadUpdateWorkflowOperationToken_def assertWorkflowRunOperationToken_def
    assertUpdateWorkflowOperationToken_def assertActivityOperationToken_def non_empty_string_def check_token_def isOperationTokenType_def token_types
  have "json_value (run_token ns wid)" by (rule token_object) (simp_all add: token_types)
  from token_roundtrip [OF this refl] show "\<exists>s. generateWorkflowRunOperationToken ns wid = Inr s \<and>
      loadWorkflowRunOperationToken s = Inr (run_token ns wid) \<and> isl (loadUpdateWorkflowOperationToken s)" if "wid \<noteq> []"
    using that unfolding generateWorkflowRunOperationToken_def by (auto simp: load)
  have "json_value (activity_token ns aid rid)" by (rule token_object) (simp_all add: token_types)
  from token_roundtrip [OF this refl] obtain s where "generateActivityOperationToken ns aid rid = Inr s"
      "loadOperationToken s = check_token (activity_token ns aid rid)"
    unfolding generateActivityOperationToken_def by blast
  then show "\<exists>s. generateActivityOperationToken ns aid rid = Inr s \<and> loadOperationToken s = Inr (activity_token ns aid rid) \<and>
      assertActivityOperationToken (activity_token ns aid rid) = Inr () \<and>
      isl (loadWorkflowRunOperationToken s) \<and> isl (loadUpdateWorkflowOperationToken s)" if "aid \<noteq> [] \<and> rid \<noteq> []"
    using that by (intro exI [of _ s]) (auto simp: load)
  have "json_value (update_token ns wid rid uid)" by (rule token_object) (simp_all add: token_types)
  moreover have "stringify (update_token ns wid rid uid) = stringify (JObj [(''t'', JNum UPDATE_WORKFLOW), (''ns'', JStr ns), (''wid'', JStr wid),
             (''rid'', if rid \<noteq> [] then JStr rid else Undefined), (''uid'', JStr uid)])" by simp
  ultimately obtain s where "encodeOperationToken (JObj [(''t'', JNum UPDATE_WORKFLOW), (''ns'', JStr ns), (''wid'', JStr wid),
      (''rid'', if rid \<noteq> [] then JStr rid else Undefined), (''uid'', JStr uid)]) = Inr s" "loadOperationToken s = check_token (update_token ns wid rid uid)"
    using token_roundtrip by blast
  then show "\<exists>s. generateUpdateWorkflowOperationToken ns wid rid uid = Inr s \<and>
      loadUpdateWorkflowOperationToken s = Inr (update_token ns wid rid uid) \<and> isl (loadWorkflowRunOperationToken s)"
    if "ns \<noteq> [] \<and> wid \<noteq> [] \<and> uid \<noteq> []"
    using that by (intro exI [of _ s]) (auto simp: generateUpdateWorkflowOperationToken_def load)
  assume "loadOperationToken d = Inr token"
  then have "check_token token = Inr token" by (auto simp: loadOperationToken_def check_token_def split: if_splits sum.splits option.splits)
  then obtain n where n: "token_type (field_of token ''t'') = Some n" "isOperationTokenType n" "typeof_value (field_of token ''ns'') = ''string''"
    by (auto simp: check_token_def split: if_splits option.splits)
  from n(1) have "field_of token ''t'' = JNum n" by (cases "field_of token ''t''") simp_all
  moreover from n(3) have "\<exists>m. field_of token ''ns'' = JStr m" by (cases "field_of token ''ns''") simp_all
  ultimately show "\<exists>n m. field_of token ''t'' = JNum n \<and> isOperationTokenType n \<and> field_of token ''ns'' = JStr m" using n(2) by blast
qed

theorem operation_tokens_roundtrip_witness:
  "(\<exists>s. generateWorkflowRunOperationToken ''prod'' ''order-1'' = Inr s \<and> loadWorkflowRunOperationToken s = Inr (run_token ''prod'' ''order-1'') \<and>
     (\<exists>n m. field_of (run_token ''prod'' ''order-1'') ''t'' = JNum n \<and> isOperationTokenType n \<and> field_of (run_token ''prod'' ''order-1'') ''ns'' = JStr m)) \<and>
   (\<exists>s. generateUpdateWorkflowOperationToken ''prod'' ''order-1'' ''r'' ''u'' = Inr s \<and>
     loadUpdateWorkflowOperationToken s = Inr (update_token ''prod'' ''order-1'' ''r'' ''u'')) \<and>
   (\<exists>s. generateActivityOperationToken ''prod'' ''a'' ''r'' = Inr s \<and> loadOperationToken s = Inr (activity_token ''prod'' ''a'' ''r''))"
proof -
  have "\<exists>s. generateWorkflowRunOperationToken ''prod'' ''order-1'' = Inr s \<and> loadWorkflowRunOperationToken s = Inr (run_token ''prod'' ''order-1'')"
    using operation_tokens_roundtrip [of "''order-1''" "''prod''" "''u''" "''r''" "''a''"] by blast
  moreover have "loadOperationToken s = Inr t" if "loadWorkflowRunOperationToken s = Inr t" for s t
    using that by (auto simp: loadWorkflowRunOperationToken_def bind_res_Inr_iff)
  ultimately show ?thesis
    using operation_tokens_roundtrip [of "''order-1''" "''prod''" "''u''" "''r''" "''a''"] by blast
qed

end
