(* ===== verification/NexusLinks.thy ===== *)
theory NexusLinks
  imports StorageDrivers Converters
begin

text \<open>
  Links between Temporal and Nexus, \<^verbatim>\<open>packages/nexus/src/link-converter.ts\<close>: the five kinds of links as URLs and back. A URL is its scheme, the
  segments of its path and the parameters of its query; parsing a URL resolves the segments \<^verbatim>\<open>.\<close> and \<^verbatim>\<open>..\<close> as the URL standard says. The
  names of event types are generated code: a table, by number. The texts of messages that show a URL are cut short.
\<close>

section \<open>URLs\<close>

record nexus_url =
  url_protocol :: string
  url_segments :: "string list"
  url_query :: "(string \<times> string) list"

record nexus_link =
  nl_url :: nexus_url
  nl_type :: string

fun split_at :: "char \<Rightarrow> string \<Rightarrow> string list" where
  "split_at d [] = [[]]"
| "split_at d (c # s) = (if c = d then [] # split_at d s else (case split_at d s of w # ws \<Rightarrow> (c # w) # ws | [] \<Rightarrow> [[c]]))"

definition single_dot :: "string \<Rightarrow> bool" where
  "single_dot s = (s \<in> {''.'', ''%2e'', ''%2E''})"

definition double_dot :: "string \<Rightarrow> bool" where
  "double_dot s = (s \<in> {''..'', ''.%2e'', ''.%2E'', ''%2e.'', ''%2E.'', ''%2e%2e'', ''%2e%2E'', ''%2E%2e'', ''%2E%2E''})"

fun resolve_segments :: "string list \<Rightarrow> string list \<Rightarrow> string list" where
  "resolve_segments [] acc = acc"
| "resolve_segments (s # ss) acc =
     (if double_dot s then (if ss = [] then butlast acc @ [[]] else resolve_segments ss (butlast acc))
      else if single_dot s then (if ss = [] then acc @ [[]] else resolve_segments ss acc)
      else resolve_segments ss (acc @ [s]))"

text \<open>\<^verbatim>\<open>new URL('temporal://' + path)\<close> for a path that starts with a slash and has no query.\<close>

definition parse_temporal_url :: "string \<Rightarrow> nexus_url" where
  "parse_temporal_url path = \<lparr>url_protocol = ''temporal:'', url_segments = resolve_segments (tl (split_at (CHR ''/'') path)) [], url_query = []\<rparr>"

text \<open>\<^verbatim>\<open>url.pathname.split('/')\<close>.\<close>

definition path_parts :: "nexus_url \<Rightarrow> string list" where
  "path_parts u = [] # url_segments u"

definition query_get :: "(string \<times> string) list \<Rightarrow> string \<Rightarrow> string option" where
  "query_get q k = map_of q k"

definition query_getAll :: "(string \<times> string) list \<Rightarrow> string \<Rightarrow> string list" where
  "query_getAll q k = map snd (filter (\<lambda>(k', v). k' = k) q)"

section \<open>decodeURIComponent\<close>

abbreviation URIError :: js_error where
  "URIError \<equiv> OtherError [(44, ''URIError''), Error_class] ''URI malformed'' [] None"

definition uri_hex :: "char \<Rightarrow> nat option" where
  "uri_hex c = (let n = of_char c :: nat in
     if 48 \<le> n \<and> n \<le> 57 then Some (n - 48) else if 65 \<le> n \<and> n \<le> 70 then Some (n - 55) else if 97 \<le> n \<and> n \<le> 102 then Some (n - 87) else None)"

definition uri_byte :: "char \<Rightarrow> char \<Rightarrow> nat option" where
  "uri_byte a b = Option.bind (uri_hex a) (\<lambda>x. map_option (\<lambda>y. 16 * x + y) (uri_hex b))"

text \<open>Characters beyond the strings of the model are an error of the model.\<close>

fun decodeURIComponent :: "string \<Rightarrow> js_error + string" where
  "decodeURIComponent [] = Inr []"
| "decodeURIComponent (c # s) =
     (if c \<noteq> CHR ''%'' then bind_res (decodeURIComponent s) (\<lambda>t. Inr (c # t))
      else case s of
        a # b # r \<Rightarrow> (case uri_byte a b of
            None \<Rightarrow> Inl URIError
          | Some n \<Rightarrow>
              if n < 128 then bind_res (decodeURIComponent r) (\<lambda>t. Inr (char_of n # t))
              else if n < 194 \<or> 244 < n then Inl URIError
              else if 195 < n then Inl unmodelled
              else (case r of
                p # a' # b' # r' \<Rightarrow> (case uri_byte a' b' of
                    Some m \<Rightarrow> if p = CHR ''%'' \<and> 128 \<le> m \<and> m < 192
                              then bind_res (decodeURIComponent r') (\<lambda>t. Inr (char_of ((n - 192) * 64 + (m - 128)) # t)) else Inl URIError
                  | None \<Rightarrow> Inl URIError)
              | _ \<Rightarrow> Inl URIError))
      | _ \<Rightarrow> Inl URIError)"

section \<open>Names of event types\<close>

definition is_upper :: "char \<Rightarrow> bool" where
  "is_upper c = (let n = of_char c :: nat in 65 \<le> n \<and> n \<le> 90)"

definition to_lower :: "char \<Rightarrow> char" where
  "to_lower c = (if is_upper c then char_of (of_char c + 32 :: nat) else c)"

definition to_upper :: "char \<Rightarrow> char" where
  "to_upper c = (let n = of_char c :: nat in if 97 \<le> n \<and> n \<le> 122 then char_of (n - 32) else c)"

text \<open>The replacement of \<^verbatim>\<open>/[A-Z]+_?/g\<close>: the flag says whether a match has begun.\<close>

fun pascal_from :: "bool \<Rightarrow> string \<Rightarrow> string" where
  "pascal_from inside [] = []"
| "pascal_from inside (c # s) =
     (if is_upper c then (if inside then to_lower c else c) # pascal_from True s
      else if inside \<and> c = CHR ''_'' then pascal_from False s
      else c # pascal_from False s)"

definition constantCaseToPascalCase :: "string \<Rightarrow> string" where
  "constantCaseToPascalCase s = pascal_from False s"

text \<open>The replacement of \<^verbatim>\<open>/[^\b][A-Z]/g\<close>, where \<^verbatim>\<open>\b\<close> in a class is the backspace.\<close>

fun constant_from :: "string \<Rightarrow> string" where
  "constant_from (a # b # s) = (if of_char a \<noteq> (8::nat) \<and> is_upper b then a # CHR ''_'' # b # constant_from s else a # constant_from (b # s))"
| "constant_from s = s"

definition pascalCaseToConstantCase :: "string \<Rightarrow> string" where
  "pascalCaseToConstantCase s = map to_upper (constant_from s)"

definition normalizeEnumValue :: "string \<Rightarrow> string \<Rightarrow> string" where
  "normalizeEnumValue v p = (let c = pascalCaseToConstantCase v in if starts_with c p then c else p @ CHR ''_'' # c)"

text \<open>\<open>EventType\<close>: by number and by name.\<close>

type_synonym event_types = "(int \<times> string) list"

definition event_number :: "event_types \<Rightarrow> string \<Rightarrow> int option" where
  "event_number tab n = map_of (map (\<lambda>(i, s). (s, i)) tab) n"

definition remove_first :: "string \<Rightarrow> string \<Rightarrow> string" where
  "remove_first p s = (if starts_with s p then drop (length p) s else s)"

text \<open>Every name starts with \<^verbatim>\<open>EVENT_TYPE_\<close>, so that the first occurrence that is replaced is the prefix.\<close>

definition eventTypeToParam :: "event_types \<Rightarrow> int \<Rightarrow> js_error + string" where
  "eventTypeToParam tab n = (case map_of tab n of
     None \<Rightarrow> Inl (TypeError ''Cannot read properties of undefined'')
   | Some s \<Rightarrow> Inr (constantCaseToPascalCase (remove_first ''EVENT_TYPE_'' s)))"

definition eventTypeFromQuery :: "event_types \<Rightarrow> (string \<times> string) list \<Rightarrow> js_error + int" where
  "eventTypeFromQuery tab q = (case query_get q ''eventType'' of
     None \<Rightarrow> Inl (TypeError ''Missing eventType parameter'')
   | Some v \<Rightarrow> if v = [] then Inl (TypeError ''Missing eventType parameter'')
       else (case event_number tab (normalizeEnumValue v ''EVENT_TYPE'') of
               None \<Rightarrow> Inl (TypeError (''Unknown eventType parameter: '' @ v))
             | Some n \<Rightarrow> Inr n))"

section \<open>Links\<close>

text \<open>A field that is absent is the empty string; \<open>ExecutionType\<close> is its number.\<close>

datatype event_ref = NoRef | EventRef "int option" "int option" | RequestIdRef "string option" "int option"

datatype temporal_link =
    WorkflowEventLink string string string event_ref
  | NexusOperationLink string string string
  | WorkflowLink string string string "string option"
  | ActivityLink string string string
  | CallbackLink string "int option" string string "string list" string
  | UnknownLink

definition WORKFLOW_EVENT_TYPE :: string where "WORKFLOW_EVENT_TYPE = ''temporal.api.common.v1.Link.WorkflowEvent''"
definition NEXUS_OPERATION_TYPE :: string where "NEXUS_OPERATION_TYPE = ''temporal.api.common.v1.Link.NexusOperation''"
definition WORKFLOW_TYPE :: string where "WORKFLOW_TYPE = ''temporal.api.common.v1.Link.Workflow''"
definition ACTIVITY_TYPE :: string where "ACTIVITY_TYPE = ''temporal.api.common.v1.Link.Activity''"
definition CALLBACK_TYPE :: string where "CALLBACK_TYPE = ''temporal.api.common.v1.Link.Callback''"

lemmas link_types = WORKFLOW_EVENT_TYPE_def NEXUS_OPERATION_TYPE_def WORKFLOW_TYPE_def ACTIVITY_TYPE_def CALLBACK_TYPE_def

definition EXECUTION_TYPE_COLLECTIONS :: "(int \<times> string) list" where
  "EXECUTION_TYPE_COLLECTIONS = [(1, ''workflows''), (2, ''activities''), (3, ''nexus-operations'')]"

definition COLLECTION_EXECUTION_TYPES :: "(string \<times> int) list" where
  "COLLECTION_EXECUTION_TYPES = map (\<lambda>(t, c). (c, t)) EXECUTION_TYPE_COLLECTIONS"

definition buildTemporalLinkUrl :: "string \<Rightarrow> string \<Rightarrow> string \<Rightarrow> string \<Rightarrow> string option \<Rightarrow> nexus_url" where
  "buildTemporalLinkUrl collection ns i runId tail =
     parse_temporal_url (''/namespaces/'' @ encodeURIComponent ns @ ''/'' @ collection @ ''/'' @ encodeURIComponent i @ ''/'' @ encodeURIComponent runId @
       (case tail of None \<Rightarrow> [] | Some t \<Rightarrow> ''/'' @ t))"

definition missing :: "string \<Rightarrow> js_error" where
  "missing f = TypeError (''Missing required fields: '' @ f)"

definition event_ref_query :: "event_types \<Rightarrow> event_ref \<Rightarrow> js_error + (string \<times> string) list" where
  "event_ref_query tab r = (case r of
     NoRef \<Rightarrow> Inr []
   | EventRef i t \<Rightarrow>
       let ids = (case i of None \<Rightarrow> [] | Some n \<Rightarrow> if n > 0 then [(''eventID'', map char_of (json_int n))] else []) in
       bind_res (case t of None \<Rightarrow> Inr [] | Some n \<Rightarrow> bind_res (eventTypeToParam tab n) (\<lambda>p. Inr [(''eventType'', p)])) (\<lambda>ts.
         Inr ((''referenceType'', ''EventReference'') # ids @ ts))
   | RequestIdRef i t \<Rightarrow>
       let ids = (case i of None \<Rightarrow> [] | Some n \<Rightarrow> [(''requestID'', n)]) in
       bind_res (case t of None \<Rightarrow> Inr [] | Some n \<Rightarrow> bind_res (eventTypeToParam tab n) (\<lambda>p. Inr [(''eventType'', p)])) (\<lambda>ts.
         Inr ((''referenceType'', ''RequestIdReference'') # ids @ ts)))"

definition convertWorkflowEventLinkToNexusLink :: "event_types \<Rightarrow> string \<Rightarrow> string \<Rightarrow> string \<Rightarrow> event_ref \<Rightarrow> js_error + nexus_link" where
  "convertWorkflowEventLinkToNexusLink tab ns wid rid r =
     (if ns = [] \<or> wid = [] \<or> rid = [] then Inl (missing ''namespace, workflowId, or runId'')
      else bind_res (event_ref_query tab r) (\<lambda>q.
        Inr \<lparr>nl_url = (buildTemporalLinkUrl ''workflows'' ns wid rid (Some ''history''))\<lparr>url_query := q\<rparr>, nl_type = WORKFLOW_EVENT_TYPE\<rparr>))"

definition convertWorkflowLinkToNexusLink :: "string \<Rightarrow> string \<Rightarrow> string \<Rightarrow> string option \<Rightarrow> js_error + nexus_link" where
  "convertWorkflowLinkToNexusLink ns wid rid reason =
     (if ns = [] \<or> wid = [] \<or> rid = []
      then Inl (missing (''namespace, workflowId, or runId (namespace='' @ ns @ '', workflowId='' @ wid @ '', runId='' @ rid @ '')''))
      else Inr \<lparr>nl_url = (buildTemporalLinkUrl ''workflows'' ns wid rid None)\<lparr>url_query :=
             (case reason of None \<Rightarrow> [] | Some t \<Rightarrow> if t = [] then [] else [(''reason'', t)])\<rparr>, nl_type = WORKFLOW_TYPE\<rparr>)"

definition convertNexusOperationLinkToNexusLink :: "string \<Rightarrow> string \<Rightarrow> string \<Rightarrow> js_error + nexus_link" where
  "convertNexusOperationLinkToNexusLink ns i rid =
     (if ns = [] \<or> i = [] \<or> rid = [] then Inl (missing ''namespace, operationId, or runId'')
      else Inr \<lparr>nl_url = buildTemporalLinkUrl ''nexus-operations'' ns i rid (Some ''details''), nl_type = NEXUS_OPERATION_TYPE\<rparr>)"

definition convertActivityLinkToNexusLink :: "string \<Rightarrow> string \<Rightarrow> string \<Rightarrow> js_error + nexus_link" where
  "convertActivityLinkToNexusLink ns i rid =
     (if ns = [] \<or> i = [] \<or> rid = [] then Inl (missing ''namespace, activityId, or runId'')
      else Inr \<lparr>nl_url = buildTemporalLinkUrl ''activities'' ns i rid (Some ''details''), nl_type = ACTIVITY_TYPE\<rparr>)"

definition convertCallbackLinkToNexusLink ::
  "string \<Rightarrow> int option \<Rightarrow> string \<Rightarrow> string \<Rightarrow> string list \<Rightarrow> string \<Rightarrow> js_error + nexus_link" where
  "convertCallbackLinkToNexusLink ns t bid rid path reqId =
     (case map_of EXECUTION_TYPE_COLLECTIONS (case t of None \<Rightarrow> 0 | Some n \<Rightarrow> n) of
        None \<Rightarrow> Inl (TypeError ''Unsupported execution type'')
      | Some collection \<Rightarrow>
          if ns = [] \<or> bid = [] \<or> rid = [] \<or> reqId = [] then Inl (missing ''namespace, businessId, runId, or requestId'')
          else Inr \<lparr>nl_url = (buildTemporalLinkUrl collection ns bid rid (Some (''callbacks/'' @ encodeURIComponent reqId)))
                     \<lparr>url_query := map (\<lambda>s. (''componentPath'', s)) path\<rparr>, nl_type = CALLBACK_TYPE\<rparr>)"

fun convertTemporalLinkToNexusLink :: "event_types \<Rightarrow> temporal_link \<Rightarrow> js_error + nexus_link" where
  "convertTemporalLinkToNexusLink tab (WorkflowEventLink ns wid rid r) = convertWorkflowEventLinkToNexusLink tab ns wid rid r"
| "convertTemporalLinkToNexusLink tab (NexusOperationLink ns i rid) = convertNexusOperationLinkToNexusLink ns i rid"
| "convertTemporalLinkToNexusLink tab (WorkflowLink ns wid rid reason) = convertWorkflowLinkToNexusLink ns wid rid reason"
| "convertTemporalLinkToNexusLink tab (ActivityLink ns i rid) = convertActivityLinkToNexusLink ns i rid"
| "convertTemporalLinkToNexusLink tab (CallbackLink ns t bid rid path reqId) = convertCallbackLinkToNexusLink ns t bid rid path reqId"
| "convertTemporalLinkToNexusLink tab UnknownLink = Inl (TypeError ''Invalid Temporal link: unknown variant'')"

abbreviation invalid_path :: js_error where "invalid_path \<equiv> TypeError ''Invalid URL path''"

definition parseTemporalLinkPath :: "nexus_link \<Rightarrow> string \<Rightarrow> string option \<Rightarrow> js_error + string \<times> string \<times> string" where
  "parseTemporalLinkPath link collection tail =
     (let parts = path_parts (nl_url link); expectedLength = (case tail of None \<Rightarrow> 6 | Some _ \<Rightarrow> 7) in
      if length parts \<noteq> expectedLength \<or> parts ! 1 \<noteq> ''namespaces'' \<or> parts ! 3 \<noteq> collection \<or>
         (case tail of None \<Rightarrow> False | Some t \<Rightarrow> parts ! 6 \<noteq> t)
      then Inl invalid_path
      else bind_res (decodeURIComponent (parts ! 2)) (\<lambda>a. bind_res (decodeURIComponent (parts ! 4)) (\<lambda>b.
           bind_res (decodeURIComponent (parts ! 5)) (\<lambda>c. Inr (a, b, c)))))"

definition event_id_param :: "(string \<times> string) list \<Rightarrow> int" where
  "event_id_param q = (case query_get q ''eventID'' of
     None \<Rightarrow> 0
   | Some s \<Rightarrow> if s \<noteq> [] \<and> list_all is_digit (codes s) then int (decimal_value (codes s)) else 0)"

definition convertNexusLinkToWorkflowEventLink :: "event_types \<Rightarrow> nexus_link \<Rightarrow> js_error + temporal_link" where
  "convertNexusLinkToWorkflowEventLink tab link =
     bind_res (parseTemporalLinkPath link ''workflows'' (Some ''history'')) (\<lambda>(ns, wid, rid).
       let q = url_query (nl_url link) in
       (case query_get q ''referenceType'' of
          None \<Rightarrow> Inl (TypeError ''Unknown reference type: null'')
        | Some t \<Rightarrow>
            if t = ''EventReference''
            then bind_res (eventTypeFromQuery tab q) (\<lambda>n. Inr (WorkflowEventLink ns wid rid (EventRef (Some (event_id_param q)) (Some n))))
            else if t = ''RequestIdReference''
            then bind_res (eventTypeFromQuery tab q) (\<lambda>n. Inr (WorkflowEventLink ns wid rid (RequestIdRef (query_get q ''requestID'') (Some n))))
            else Inl (TypeError (''Unknown reference type: '' @ t))))"

definition convertNexusLinkToNexusOperationLink :: "nexus_link \<Rightarrow> js_error + temporal_link" where
  "convertNexusLinkToNexusOperationLink link =
     bind_res (parseTemporalLinkPath link ''nexus-operations'' (Some ''details'')) (\<lambda>(ns, i, rid).
       if ns = [] \<or> i = [] \<or> rid = [] then Inl (missing ''namespace, operationId, or runId'') else Inr (NexusOperationLink ns i rid))"

definition convertNexusLinkToActivityLink :: "nexus_link \<Rightarrow> js_error + temporal_link" where
  "convertNexusLinkToActivityLink link =
     bind_res (parseTemporalLinkPath link ''activities'' (Some ''details'')) (\<lambda>(ns, i, rid).
       if ns = [] \<or> i = [] \<or> rid = [] then Inl (missing ''namespace, activityId, or runId'') else Inr (ActivityLink ns i rid))"

definition convertNexusLinkToWorkflowLink :: "nexus_link \<Rightarrow> js_error + temporal_link" where
  "convertNexusLinkToWorkflowLink link =
     bind_res (parseTemporalLinkPath link ''workflows'' None) (\<lambda>(ns, i, rid).
       if ns = [] \<or> i = [] \<or> rid = [] then Inl (missing ''namespace, workflowId, or runId'')
       else Inr (WorkflowLink ns i rid (query_get (url_query (nl_url link)) ''reason'')))"

definition convertNexusLinkToCallbackLink :: "nexus_link \<Rightarrow> js_error + temporal_link" where
  "convertNexusLinkToCallbackLink link =
     (let parts = path_parts (nl_url link) in
      if length parts \<noteq> 8 \<or> parts ! 1 \<noteq> ''namespaces'' \<or> parts ! 6 \<noteq> ''callbacks'' then Inl invalid_path
      else case map_of COLLECTION_EXECUTION_TYPES (parts ! 3) of
        None \<Rightarrow> Inl (TypeError (''Unsupported execution type: '' @ parts ! 3))
      | Some t \<Rightarrow>
          bind_res (decodeURIComponent (parts ! 2)) (\<lambda>ns. bind_res (decodeURIComponent (parts ! 4)) (\<lambda>bid.
          bind_res (decodeURIComponent (parts ! 5)) (\<lambda>rid. bind_res (decodeURIComponent (parts ! 7)) (\<lambda>reqId.
            if ns = [] \<or> bid = [] \<or> rid = [] \<or> reqId = [] then Inl (missing ''namespace, businessId, runId, or requestId'')
            else Inr (CallbackLink ns (Some t) bid rid (query_getAll (url_query (nl_url link)) ''componentPath'') reqId))))))"

definition convertNexusLinkToTemporalLink :: "event_types \<Rightarrow> nexus_link \<Rightarrow> js_error + temporal_link" where
  "convertNexusLinkToTemporalLink tab link =
     (if url_protocol (nl_url link) \<noteq> ''temporal:'' then Inl (TypeError ''Invalid URL scheme'')
      else if nl_type link = WORKFLOW_EVENT_TYPE then convertNexusLinkToWorkflowEventLink tab link
      else if nl_type link = NEXUS_OPERATION_TYPE then convertNexusLinkToNexusOperationLink link
      else if nl_type link = WORKFLOW_TYPE then convertNexusLinkToWorkflowLink link
      else if nl_type link = ACTIVITY_TYPE then convertNexusLinkToActivityLink link
      else if nl_type link = CALLBACK_TYPE then convertNexusLinkToCallbackLink link
      else Inl (TypeError (''Unknown link type: '' @ nl_type link)))"

section \<open>Components of a path are read back\<close>

lemma uri_hex_char: "n < 16 \<Longrightarrow> uri_hex (hex_char True n) = Some n"
proof -
  have "list_all (\<lambda>n. uri_hex (hex_char True n) = Some n) [0..<16]" by code_simp
  then show "n < 16 \<Longrightarrow> uri_hex (hex_char True n) = Some n" by (simp add: list_all_iff)
qed

lemma uri_byte_hex: "n < 256 \<Longrightarrow> hex_byte True n = [a, b] \<Longrightarrow> uri_byte a b = Some n"
  by (auto simp: hex_byte_def uri_byte_def uri_hex_char)

lemma hex_char_plain: "n < 16 \<Longrightarrow> hex_char True n \<noteq> CHR ''/''"
proof -
  have "list_all (\<lambda>n. hex_char True n \<noteq> CHR ''/'') [0..<16]" by code_simp
  then show "n < 16 \<Longrightarrow> hex_char True n \<noteq> CHR ''/''" by (simp add: list_all_iff)
qed

lemma char_small: "of_char c < (256::nat)"
  by simp

lemma char_dot: "char_of (46::nat) = CHR ''.''"
  by code_simp

lemma decode_percent: "decodeURIComponent (percentEncodeChar c @ r) = bind_res (decodeURIComponent r) (\<lambda>t. Inr (c # t))"
proof -
  define n where "n = (of_char c :: nat)"
  have n: "n < 256" "char_of n = c" by (simp_all add: n_def)
  show ?thesis
  proof (cases "n < 128")
    case True
    then show ?thesis using n uri_byte_hex [of n] by (auto simp: percentEncodeChar_def utf8_def n_def hex_byte_def)
  next
    case False
    have d: "n div 64 = 2 \<or> n div 64 = 3" using False n(1) by linarith
    then have lead: "192 + n div 64 = 194 \<or> 192 + n div 64 = 195" by auto
    have "percentEncodeChar c = CHR ''%'' # hex_byte True (192 + n div 64) @ CHR ''%'' # hex_byte True (128 + n mod 64)"
    proof -
      have "n < 2048" using n(1) by simp
      then show ?thesis using False by (simp add: percentEncodeChar_def utf8_def flip: n_def)
    qed
    moreover have "uri_byte (hex_char True ((192 + n div 64) div 16)) (hex_char True ((192 + n div 64) mod 16)) = Some (192 + n div 64)"
      using lead by (auto simp: uri_byte_def uri_hex_char)
    moreover have "uri_byte (hex_char True ((128 + n mod 64) div 16)) (hex_char True ((128 + n mod 64) mod 16)) = Some (128 + n mod 64)"
    proof -
      have "(128 + n mod 64) div 16 < 16" by (simp add: less_mult_imp_div_less)
      then show ?thesis by (simp add: uri_byte_def uri_hex_char)
    qed
    moreover have "(192 + n div 64 - 192) * 64 + (128 + n mod 64 - 128) = n" by simp
    ultimately show ?thesis using lead n(2) by (auto simp: hex_byte_def)
  qed
qed

lemma decode_encodeURIComponent: "decodeURIComponent (encodeURIComponent s) = Inr s"
proof (induction s)
  case (Cons c s)
  have "CHR ''%'' \<notin> set uri_unreserved" by (simp add: uri_unreserved_def)
  then show ?case using Cons by (auto simp: encodeURIComponent_def decode_percent)
qed (simp add: encodeURIComponent_def)

lemma no_slash: "CHR ''/'' \<notin> set (encodeURIComponent s)"
proof (induction s)
  case (Cons c s)
  have u: "CHR ''/'' \<notin> set uri_unreserved" by (simp add: uri_unreserved_def)
  have "CHR ''/'' \<notin> set (hex_byte True b)" if "b < 256" for b
    using that hex_char_plain [of "b div 16"] hex_char_plain [of "b mod 16"] by (auto simp: hex_byte_def less_mult_imp_div_less)
  moreover have "\<forall>b \<in> set (utf8 (of_char c)). b < 256" 
  proof
    have "scalar (of_char c)" using char_small [of c] unfolding scalar_def by linarith
    then show "b < 256" if "b \<in> set (utf8 (of_char c))" for b using that by (rule utf8_bytes)
  qed
  ultimately have "CHR ''/'' \<notin> set (percentEncodeChar c)" by (auto simp: percentEncodeChar_def)
  then show ?case using Cons u by (auto simp: encodeURIComponent_def)
qed (simp add: encodeURIComponent_def)

text \<open>The only components that a URL parser takes for a step in the path.\<close>

definition dotted :: "string \<Rightarrow> bool" where
  "dotted s = (s = ''.'' \<or> s = ''..'')"

definition dot_segments :: "string list" where
  "dot_segments = [''.'', ''%2e'', ''%2E'', ''..'', ''.%2e'', ''.%2E'', ''%2e.'', ''%2E.'', ''%2e%2e'', ''%2e%2E'', ''%2E%2e'', ''%2E%2E'']"

lemma dot_segments_decode: "list_all (\<lambda>t. case decodeURIComponent t of Inr s \<Rightarrow> dotted s | Inl _ \<Rightarrow> False) dot_segments"
  by code_simp

lemma not_dotted:
  assumes "\<not> dotted s"
  shows "\<not> single_dot (encodeURIComponent s) \<and> \<not> double_dot (encodeURIComponent s)"
proof (rule ccontr)
  assume "\<not> (\<not> single_dot (encodeURIComponent s) \<and> \<not> double_dot (encodeURIComponent s))"
  then have "encodeURIComponent s \<in> set dot_segments"
    unfolding single_dot_def double_dot_def dot_segments_def by force
  then show False using dot_segments_decode assms by (auto simp: list_all_iff decode_encodeURIComponent dest: bspec)
qed

lemma split_at_append: "d \<notin> set w \<Longrightarrow> split_at d (w @ d # s) = w # split_at d s"
  by (induction w) auto

lemma split_at_last: "d \<notin> set w \<Longrightarrow> split_at d w = [w]"
  by (induction w) auto

lemma resolve_plain: "list_all (\<lambda>s. \<not> single_dot s \<and> \<not> double_dot s) ss \<Longrightarrow> resolve_segments ss acc = acc @ ss"
  by (induction ss arbitrary: acc) auto

text \<open>A component that survives in a path, and the segments of the URLs the converter builds.\<close>

definition plain_component :: "string \<Rightarrow> bool" where
  "plain_component s \<longleftrightarrow> s \<noteq> [] \<and> \<not> dotted s"

definition plain_segment :: "string \<Rightarrow> bool" where
  "plain_segment s \<longleftrightarrow> CHR ''/'' \<notin> set s \<and> \<not> single_dot s \<and> \<not> double_dot s"

lemma encoded_segment: "plain_component s \<Longrightarrow> plain_segment (encodeURIComponent s)"
  using no_slash [of s] not_dotted [of s] by (simp add: plain_component_def plain_segment_def)

lemma plain_segments:
  "plain_segment ''namespaces''" "plain_segment ''workflows''" "plain_segment ''activities''" "plain_segment ''nexus-operations''"
  "plain_segment ''history''" "plain_segment ''details''" "plain_segment ''callbacks''"
  by (simp_all add: plain_segment_def single_dot_def double_dot_def)

lemma split_segments:
  "list_all plain_segment (s # ss) \<Longrightarrow> split_at (CHR ''/'') (s @ concat (map (\<lambda>t. CHR ''/'' # t) ss)) = s # ss"
  by (induction ss arbitrary: s) (simp_all add: split_at_last split_at_append plain_segment_def)

lemma parse_segments:
  assumes "list_all plain_segment (s # ss)"
  shows "url_segments (parse_temporal_url (CHR ''/'' # s @ concat (map (\<lambda>t. CHR ''/'' # t) ss))) = s # ss"
proof -
  have "list_all (\<lambda>s. \<not> single_dot s \<and> \<not> double_dot s) (s # ss)" using assms by (auto simp: list_all_iff plain_segment_def)
  then show ?thesis
    using split_segments [OF assms] resolve_plain [of "s # ss" "[]"] by (simp add: parse_temporal_url_def)
qed

lemma build_plain:
  assumes "plain_component ns" "plain_component i" "plain_component rid" "plain_segment collection"
  shows "url_segments (buildTemporalLinkUrl collection ns i rid None) =
      [''namespaces'', encodeURIComponent ns, collection, encodeURIComponent i, encodeURIComponent rid]"
  using parse_segments [of "''namespaces''" "[encodeURIComponent ns, collection, encodeURIComponent i, encodeURIComponent rid]"]
    assms encoded_segment plain_segments by (simp add: buildTemporalLinkUrl_def)

lemma build_tail:
  assumes "plain_component ns" "plain_component i" "plain_component rid" "plain_segment collection" "plain_segment t"
  shows "url_segments (buildTemporalLinkUrl collection ns i rid (Some t)) =
      [''namespaces'', encodeURIComponent ns, collection, encodeURIComponent i, encodeURIComponent rid, t]"
  using parse_segments [of "''namespaces''" "[encodeURIComponent ns, collection, encodeURIComponent i, encodeURIComponent rid, t]"]
    assms encoded_segment plain_segments by (simp add: buildTemporalLinkUrl_def)

lemma build_callback:
  assumes "plain_component ns" "plain_component i" "plain_component rid" "plain_segment collection" "plain_component q"
  shows "url_segments (buildTemporalLinkUrl collection ns i rid (Some (''callbacks/'' @ encodeURIComponent q))) =
      [''namespaces'', encodeURIComponent ns, collection, encodeURIComponent i, encodeURIComponent rid, ''callbacks'', encodeURIComponent q]"
  using parse_segments [of "''namespaces''"
      "[encodeURIComponent ns, collection, encodeURIComponent i, encodeURIComponent rid, ''callbacks'', encodeURIComponent q]"]
    assms encoded_segment plain_segments by (simp add: buildTemporalLinkUrl_def)

lemma build_protocol: "url_protocol (buildTemporalLinkUrl collection ns i rid t) = ''temporal:''"
  by (simp add: buildTemporalLinkUrl_def parse_temporal_url_def)

section \<open>Names of event types are read back\<close>

definition upper_word :: "string \<Rightarrow> bool" where
  "upper_word w \<longleftrightarrow> 2 \<le> length w \<and> list_all is_upper w"

definition capitalised :: "string \<Rightarrow> string" where
  "capitalised w = hd w # map to_lower (tl w)"

definition is_lower :: "char \<Rightarrow> bool" where
  "is_lower c = (let n = of_char c :: nat in 97 \<le> n \<and> n \<le> 122)"

lemma lower_of_upper: "is_upper c \<Longrightarrow> is_lower (to_lower c) \<and> to_upper (to_lower c) = c"
  by (simp add: is_upper_def is_lower_def to_lower_def to_upper_def Let_def)

lemma upper_fixed: "is_upper c \<Longrightarrow> to_upper c = c"
  by (simp add: is_upper_def to_upper_def Let_def)

lemma lower_facts: "is_lower c \<Longrightarrow> \<not> is_upper c \<and> of_char c \<noteq> (8::nat)"
  by (simp add: is_lower_def is_upper_def Let_def)

lemma underscore_not_upper: "\<not> is_upper (CHR ''_'')" "to_upper (CHR ''_'') = CHR ''_''"
  by code_simp+

lemma pascal_inside: "list_all is_upper w \<Longrightarrow> pascal_from True (w @ CHR ''_'' # s) = map to_lower w @ pascal_from False s"
  by (induction w) (simp_all add: underscore_not_upper)

lemma pascal_end: "list_all is_upper w \<Longrightarrow> pascal_from True w = map to_lower w"
  by (induction w) simp_all

lemma pascal_words:
  "list_all upper_word (w # ws) \<Longrightarrow> pascal_from False (w @ concat (map (\<lambda>v. CHR ''_'' # v) ws)) = concat (map capitalised (w # ws))"
proof (induction ws arbitrary: w)
  case Nil
  then show ?case by (cases w) (simp_all add: upper_word_def capitalised_def pascal_end)
next
  case (Cons v vs)
  then show ?case using Cons.IH [of v] by (cases w) (simp_all add: upper_word_def capitalised_def pascal_inside)
qed

lemma constant_lower: "list_all is_lower ls \<Longrightarrow> constant_from ls = ls"
  by (induction ls rule: constant_from.induct) (simp_all add: lower_facts)

lemma constant_step:
  "list_all is_lower (l # ls) \<Longrightarrow> is_upper b \<Longrightarrow> constant_from (l # ls @ b # s) = l # ls @ CHR ''_'' # b # constant_from s"
  by (induction ls arbitrary: l) (simp_all add: lower_facts)

lemma constant_words:
  "list_all is_lower (l # ls) \<Longrightarrow> list_all upper_word ws \<Longrightarrow>
   constant_from (l # ls @ concat (map capitalised ws)) = l # ls @ concat (map (\<lambda>w. CHR ''_'' # capitalised w) ws)"
proof (induction ws arbitrary: l ls)
  case Nil
  then show ?case using constant_lower [of "l # ls"] by simp
next
  case (Cons w ws)
  then obtain a b v where w: "w = a # b # v" by (cases w; cases "tl w") (auto simp: upper_word_def)
  have u: "is_upper a" "list_all is_lower (to_lower b # map to_lower v)"
    using Cons.prems w by (auto simp: upper_word_def list_all_iff lower_of_upper)
  show ?case
    using constant_step [OF Cons.prems(1) u(1)] Cons.IH [OF u(2)] Cons.prems(2) by (simp add: w capitalised_def)
qed

lemma upper_capitalised: "upper_word w \<Longrightarrow> map to_upper (capitalised w) = w"
  by (cases w) (auto simp: upper_word_def capitalised_def upper_fixed lower_of_upper list_all_iff intro: map_idI)

lemma constant_of_pascal:
  assumes "list_all upper_word (w # ws)"
  shows "pascalCaseToConstantCase (concat (map capitalised (w # ws))) = w @ concat (map (\<lambda>v. CHR ''_'' # v) ws)"
proof -
  obtain a b v where w: "w = a # b # v" using assms by (cases w; cases "tl w") (auto simp: upper_word_def)
  have u: "is_upper a" "list_all is_lower (to_lower b # map to_lower v)" "\<not> is_upper (to_lower b)"
    using assms w lower_of_upper [of b] lower_facts [of "to_lower b"] by (auto simp: upper_word_def list_all_iff lower_of_upper)
  have "constant_from (concat (map capitalised (w # ws))) = capitalised w @ concat (map (\<lambda>w. CHR ''_'' # capitalised w) ws)"
    using constant_words [OF u(2)] assms u(3) by (simp add: w capitalised_def)
  moreover have "concat (map (map to_upper \<circ> (\<lambda>w. CHR ''_'' # capitalised w)) ws) = concat (map ((#) CHR ''_'') ws)"
    using assms by (intro arg_cong [where f = concat] map_cong) (simp_all add: upper_capitalised underscore_not_upper list_all_iff)
  ultimately show ?thesis
    using upper_capitalised [of w] assms by (simp add: pascalCaseToConstantCase_def map_concat)
qed

lemma split_at_join: "\<exists>w ws. split_at d s = w # ws \<and> s = w @ concat (map (\<lambda>v. d # v) ws)"
  by (induction s) (auto split: list.splits)

text \<open>The names of the table: words of two or more capitals behind the prefix, none of them repeating the prefix.\<close>

definition event_name :: "string \<Rightarrow> bool" where
  "event_name s \<longleftrightarrow> starts_with s ''EVENT_TYPE_'' \<and> list_all upper_word (split_at (CHR ''_'') (drop 11 s)) \<and>
     \<not> starts_with (drop 11 s) ''EVENT_TYPE''"

definition event_table :: "event_types \<Rightarrow> bool" where
  "event_table tab \<longleftrightarrow> distinct (map snd tab) \<and> list_all (\<lambda>(i, s). event_name s) tab"

lemma event_type_reads_back:
  assumes "event_table tab" and "map_of tab n = Some s"
  shows "\<exists>p. eventTypeToParam tab n = Inr p \<and> (\<forall>q. query_get q ''eventType'' = Some p \<longrightarrow> eventTypeFromQuery tab q = Inr n)"
proof -
  define r where "r = drop 11 s"
  have mem: "(n, s) \<in> set tab" using assms(2) by (rule map_of_SomeD)
  then have e: "event_name s" using assms(1) by (auto simp: event_table_def list_all_iff)
  then have t: "take 11 s = ''EVENT_TYPE_''" by (simp add: event_name_def starts_with_def eval_nat_numeral)
  have "s = take 11 s @ r" by (simp add: r_def)
  also have "\<dots> = ''EVENT_TYPE_'' @ r" by (simp only: t)
  finally have s: "s = ''EVENT_TYPE_'' @ r" .
  obtain w ws where w: "split_at (CHR ''_'') r = w # ws" "r = w @ concat (map (\<lambda>v. CHR ''_'' # v) ws)"
    using split_at_join by blast
  have up: "list_all upper_word (w # ws)" using e w(1) by (simp add: event_name_def r_def)
  let ?p = "concat (map capitalised (w # ws))"
  have p: "eventTypeToParam tab n = Inr ?p"
    using assms(2) e pascal_words [OF up] s w(2)
    by (simp add: eventTypeToParam_def remove_first_def constantCaseToPascalCase_def event_name_def)
  have "normalizeEnumValue ?p ''EVENT_TYPE'' = s"
    using constant_of_pascal [OF up] e s w(2) by (simp add: normalizeEnumValue_def event_name_def flip: r_def)
  moreover have "event_number tab s = Some n"
    unfolding event_number_def using assms(1) mem
    by (intro map_of_is_SomeI) (force simp: event_table_def o_def case_prod_unfold image_iff)+
  moreover have "?p \<noteq> []" by (simp add: capitalised_def)
  ultimately have "eventTypeFromQuery tab q = Inr n" if "query_get q ''eventType'' = Some ?p" for q
    using that by (simp add: eventTypeFromQuery_def)
  with p show ?thesis by blast
qed

lemma event_id_reads_back: "n > 0 \<Longrightarrow> query_get q ''eventID'' = Some (map char_of (json_int n)) \<Longrightarrow> event_id_param q = n"
  using decimal_digits [of "nat n"] codes_char_of [OF decimal_units [of "nat n"]]
  by (simp add: event_id_param_def json_int_def decimal_value_decimal)

section \<open>Links are read back\<close>

definition readable_ref :: "event_types \<Rightarrow> event_ref \<Rightarrow> bool" where
  "readable_ref tab r = (case r of
     NoRef \<Rightarrow> False
   | EventRef i t \<Rightarrow> (case t of None \<Rightarrow> False | Some n \<Rightarrow> map_of tab n \<noteq> None)
   | RequestIdRef i t \<Rightarrow> (case t of None \<Rightarrow> False | Some n \<Rightarrow> map_of tab n \<noteq> None))"

fun readable_link :: "event_types \<Rightarrow> temporal_link \<Rightarrow> bool" where
  "readable_link tab (WorkflowEventLink ns wid rid r) \<longleftrightarrow> list_all plain_component [ns, wid, rid] \<and> readable_ref tab r"
| "readable_link tab (NexusOperationLink ns i rid) \<longleftrightarrow> list_all plain_component [ns, i, rid]"
| "readable_link tab (WorkflowLink ns wid rid reason) \<longleftrightarrow> list_all plain_component [ns, wid, rid]"
| "readable_link tab (ActivityLink ns i rid) \<longleftrightarrow> list_all plain_component [ns, i, rid]"
| "readable_link tab (CallbackLink ns t bid rid path reqId) \<longleftrightarrow>
     list_all plain_component [ns, bid, rid, reqId] \<and> (case t of None \<Rightarrow> False | Some n \<Rightarrow> n \<in> {1, 2, 3})"
| "readable_link tab UnknownLink \<longleftrightarrow> False"

text \<open>What a link reads back as: no reason for an empty one, and event 0 for an event without a number.\<close>

fun canonical_link :: "temporal_link \<Rightarrow> temporal_link" where
  "canonical_link (WorkflowEventLink ns wid rid (EventRef i t)) =
     WorkflowEventLink ns wid rid (EventRef (Some (case i of None \<Rightarrow> 0 | Some n \<Rightarrow> max 0 n)) t)"
| "canonical_link (WorkflowLink ns wid rid reason) = WorkflowLink ns wid rid (if reason = Some [] then None else reason)"
| "canonical_link l = l"

lemma path_reads_back:
  "url_segments (nl_url l) = [''namespaces'', encodeURIComponent a, c, encodeURIComponent b, encodeURIComponent d, t] \<Longrightarrow>
     parseTemporalLinkPath l c (Some t) = Inr (a, b, d)"
  "url_segments (nl_url l) = [''namespaces'', encodeURIComponent a, c, encodeURIComponent b, encodeURIComponent d] \<Longrightarrow>
     parseTemporalLinkPath l c None = Inr (a, b, d)"
  by (simp_all add: parseTemporalLinkPath_def path_parts_def decode_encodeURIComponent)

lemmas reads_back_simps = plain_segments build_plain build_tail build_callback build_protocol path_reads_back convertNexusLinkToTemporalLink_def

lemma plain_nonempty: "plain_component s \<Longrightarrow> s \<noteq> []"
  by (simp add: plain_component_def)

lemma event_path:
  assumes "plain_component ns" "plain_component wid" "plain_component rid"
  shows "parseTemporalLinkPath \<lparr>nl_url = (buildTemporalLinkUrl ''workflows'' ns wid rid (Some ''history''))\<lparr>url_query := q\<rparr>, nl_type = t\<rparr>
      ''workflows'' (Some ''history'') = Inr (ns, wid, rid)"
  by (rule path_reads_back) (simp add: build_tail assms plain_segments)

lemma event_link_roundtrip:
  assumes "event_table tab" and "readable_link tab (WorkflowEventLink ns wid rid r)"
  shows "bind_res (convertTemporalLinkToNexusLink tab (WorkflowEventLink ns wid rid r)) (convertNexusLinkToTemporalLink tab) =
    Inr (canonical_link (WorkflowEventLink ns wid rid r))"
proof -
  have plain: "plain_component ns" "plain_component wid" "plain_component rid" using assms(2) by simp_all
  obtain n s where n: "map_of tab n = Some s"
    and r: "(\<exists>i. r = EventRef i (Some n)) \<or> (\<exists>i. r = RequestIdRef i (Some n))"
    using assms(2) by (auto simp: readable_ref_def split: event_ref.splits option.splits)
  obtain p where p: "eventTypeToParam tab n = Inr p" "\<And>q. query_get q ''eventType'' = Some p \<Longrightarrow> eventTypeFromQuery tab q = Inr n"
    using event_type_reads_back [OF assms(1) n] by blast
  note path = event_path [OF plain] and ne = plain [THEN plain_nonempty]
  from r show ?thesis
  proof (elim disjE exE)
    fix i assume r: "r = EventRef i (Some n)"
    define ids where "ids = (case i of None \<Rightarrow> [] | Some m \<Rightarrow> if m > 0 then [(''eventID'', map char_of (json_int m) :: string)] else [])"
    define q where "q = (''referenceType'', ''EventReference'') # ids @ [(''eventType'', p)]"
    have "event_ref_query tab r = Inr q" by (simp add: r event_ref_query_def p(1) q_def ids_def)
    moreover have "query_get q ''eventType'' = Some p" "query_get q ''referenceType'' = Some ''EventReference''"
      by (simp_all add: q_def ids_def query_get_def split: option.splits)
    moreover have "event_id_param q = (case i of None \<Rightarrow> 0 | Some m \<Rightarrow> max 0 m)"
    proof (cases "i = None \<or> the i \<le> 0")
      case True
      then show ?thesis by (auto simp: event_id_param_def q_def ids_def query_get_def split: option.splits)
    next
      case False
      then show ?thesis using event_id_reads_back [of "the i" q] by (auto simp: q_def ids_def query_get_def)
    qed
    ultimately show ?thesis
      using p(2) by (simp add: convertWorkflowEventLinkToNexusLink_def ne convertNexusLinkToTemporalLink_def build_protocol
          convertNexusLinkToWorkflowEventLink_def path r)
  next
    fix i assume r: "r = RequestIdRef i (Some n)"
    define q where "q = (''referenceType'', ''RequestIdReference'') # (case i of None \<Rightarrow> [] | Some m \<Rightarrow> [(''requestID'', m)]) @ [(''eventType'', p)]"
    have "event_ref_query tab r = Inr q" by (simp add: r event_ref_query_def p(1) q_def)
    moreover have "query_get q ''eventType'' = Some p" "query_get q ''referenceType'' = Some ''RequestIdReference''" "query_get q ''requestID'' = i"
      by (simp_all add: q_def query_get_def split: option.splits)
    ultimately show ?thesis
      using p(2) by (simp add: convertWorkflowEventLinkToNexusLink_def ne convertNexusLinkToTemporalLink_def build_protocol
          convertNexusLinkToWorkflowEventLink_def path r)
  qed
qed

lemma workflow_link_roundtrip:
  assumes "list_all plain_component [ns, wid, rid]"
  shows "bind_res (convertWorkflowLinkToNexusLink ns wid rid reason) (convertNexusLinkToTemporalLink tab) =
    Inr (canonical_link (WorkflowLink ns wid rid reason))"
  using assms
  by (auto simp: convertWorkflowLinkToNexusLink_def convertNexusLinkToWorkflowLink_def reads_back_simps link_types plain_component_def query_get_def
      split: option.splits)

lemma details_link_roundtrip:
  assumes "list_all plain_component [ns, i, rid]"
  shows "bind_res (convertNexusOperationLinkToNexusLink ns i rid) (convertNexusLinkToTemporalLink tab) = Inr (NexusOperationLink ns i rid)"
    and "bind_res (convertActivityLinkToNexusLink ns i rid) (convertNexusLinkToTemporalLink tab) = Inr (ActivityLink ns i rid)"
  using assms
  by (auto simp: convertNexusOperationLinkToNexusLink_def convertNexusLinkToNexusOperationLink_def convertActivityLinkToNexusLink_def
      convertNexusLinkToActivityLink_def reads_back_simps link_types plain_component_def)

lemma callback_link_roundtrip:
  assumes "list_all plain_component [ns, bid, rid, reqId]" and "t \<in> {1, 2, 3}"
  shows "bind_res (convertCallbackLinkToNexusLink ns (Some t) bid rid path reqId) (convertNexusLinkToTemporalLink tab) =
    Inr (CallbackLink ns (Some t) bid rid path reqId)"
proof -
  obtain c where c: "map_of EXECUTION_TYPE_COLLECTIONS t = Some c" "map_of COLLECTION_EXECUTION_TYPES c = Some t" "plain_segment c"
    using assms(2) plain_segments by (auto simp: EXECUTION_TYPE_COLLECTIONS_def COLLECTION_EXECUTION_TYPES_def)
  have "query_getAll (map (\<lambda>s. (''componentPath'', s)) path) ''componentPath'' = path"
    by (simp add: query_getAll_def o_def)
  moreover have "url_segments (buildTemporalLinkUrl c ns bid rid (Some (''callbacks/'' @ encodeURIComponent reqId))) =
      [''namespaces'', encodeURIComponent ns, c, encodeURIComponent bid, encodeURIComponent rid, ''callbacks'', encodeURIComponent reqId]"
    using assms(1) c(3) by (intro build_callback) simp_all
  moreover have "ns \<noteq> []" "bid \<noteq> []" "rid \<noteq> []" "reqId \<noteq> []" using assms(1) by (simp_all add: plain_nonempty)
  ultimately show ?thesis
    using c(1,2)
    by (simp add: convertCallbackLinkToNexusLink_def convertNexusLinkToCallbackLink_def build_protocol path_parts_def
        convertNexusLinkToTemporalLink_def link_types decode_encodeURIComponent)
qed



text \<open>
  (Error.) An id that is two dots is not escaped and the URL parser takes it for a step up: the link that is sent has lost the id and
  the segment before it, and cannot be read.
\<close>

theorem dots_are_resolved:
  "convertTemporalLinkToNexusLink tab (ActivityLink ''ns'' ''..'' ''run'') = Inr
     \<lparr>nl_url = \<lparr>url_protocol = ''temporal:'', url_segments = [''namespaces'', ''ns'', ''run'', ''details''], url_query = []\<rparr>, nl_type = ACTIVITY_TYPE\<rparr>"
  "bind_res (convertTemporalLinkToNexusLink tab (ActivityLink ''ns'' ''..'' ''run'')) (convertNexusLinkToTemporalLink tab) = Inl invalid_path"
  by (simp_all add: convertActivityLinkToNexusLink_def buildTemporalLinkUrl_def encodeURIComponent_def uri_unreserved_def parse_temporal_url_def
      single_dot_def double_dot_def convertNexusLinkToTemporalLink_def link_types convertNexusLinkToActivityLink_def parseTemporalLinkPath_def path_parts_def)

text \<open>
  (Error.) A link to a workflow event that carries no reference is written and cannot be read.
\<close>

theorem link_without_reference:
  assumes "list_all plain_component [ns, wid, rid]"
  shows "bind_res (convertTemporalLinkToNexusLink tab (WorkflowEventLink ns wid rid NoRef)) (convertNexusLinkToTemporalLink tab) =
    Inl (TypeError ''Unknown reference type: null'')"
proof -
  have plain: "plain_component ns" "plain_component wid" "plain_component rid" using assms by simp_all
  then show ?thesis
    using event_path [OF plain, of "[]" WORKFLOW_EVENT_TYPE]
    by (simp add: convertWorkflowEventLinkToNexusLink_def event_ref_query_def convertNexusLinkToWorkflowEventLink_def
        convertNexusLinkToTemporalLink_def build_protocol plain_nonempty query_get_def)
qed

end
