(* ===== verification/StreamCodec.thy ===== *)
theory StreamCodec
  imports Converters
begin

text \<open>
  The wire codec of workflow streams, \<^verbatim>\<open>contrib/workflow-streams/src/codec.ts\<close>: base64 without \<^verbatim>\<open>Buffer\<close> and a hand-written
  encoder and decoder of the protocol buffer message \<open>Payload\<close>. A typed array is the list of its bytes, a position in it the list of what is left. The text encoder and decoder of the
  isolate are UTF-8, for which those of \<open>Encoding\<close> stand. The keys of an object are in the order of \<^verbatim>\<open>Object.keys\<close>.
\<close>

unbundle bit_operations_syntax

section \<open>Base64\<close>

definition B64 :: string where
  "B64 = ''ABCDEFGHIJKLMNOPQRSTUVWXYZabcdefghijklmnopqrstuvwxyz0123456789+/''"

fun encodeBase64 :: "nat list \<Rightarrow> string" where
  "encodeBase64 [] = []"
| "encodeBase64 [b0] = [B64 ! (drop_bit 2 b0 AND 0x3f), B64 ! ((push_bit 4 b0 OR drop_bit 4 0) AND 0x3f), CHR ''='', CHR ''='']"
| "encodeBase64 [b0, b1] =
     [B64 ! (drop_bit 2 b0 AND 0x3f), B64 ! ((push_bit 4 b0 OR drop_bit 4 b1) AND 0x3f), B64 ! ((push_bit 2 b1 OR drop_bit 6 0) AND 0x3f), CHR ''='']"
| "encodeBase64 (b0 # b1 # b2 # bs) =
     [B64 ! (drop_bit 2 b0 AND 0x3f), B64 ! ((push_bit 4 b0 OR drop_bit 4 b1) AND 0x3f), B64 ! ((push_bit 2 b1 OR drop_bit 6 b2) AND 0x3f), B64 ! (b2 AND 0x3f)]
     @ encodeBase64 bs"

fun indexOf :: "string \<Rightarrow> char \<Rightarrow> nat option" where
  "indexOf [] c = None"
| "indexOf (x # xs) c = (if x = c then Some 0 else map_option Suc (indexOf xs c))"

definition non_alphabet :: "nat \<Rightarrow> js_error" where
  "non_alphabet i = TypeError (''Invalid base64 input: non-alphabet character at offset '' @ map char_of (decimal i))"

definition triple :: "nat \<Rightarrow> nat \<Rightarrow> nat \<Rightarrow> nat \<Rightarrow> nat list" where
  "triple a b c d = [(push_bit 2 a OR drop_bit 4 b) mod 256, (push_bit 4 b OR drop_bit 2 c) AND 0xff, (push_bit 6 c OR d) AND 0xff]"

text \<open>A step of the loop takes four characters; a character past the end counts as zero.\<close>

fun decode_groups :: "nat \<Rightarrow> string \<Rightarrow> js_error + nat list" where
  "decode_groups i [] = Inr []"
| "decode_groups i (a # s) =
     (let value = (\<lambda>n. if n < length s then indexOf B64 (s ! n) else Some 0) in
      case (indexOf B64 a, value 0, value 1, value 2) of
        (Some a, Some b, Some c, Some d) \<Rightarrow> bind_res (decode_groups (i + 4) (drop 3 s)) (\<lambda>out. Inr (triple a b c d @ out))
      | _ \<Rightarrow> Inl (non_alphabet i))"

definition strip_padding :: "string \<Rightarrow> string" where
  "strip_padding s = rev (dropWhile (\<lambda>c. c = CHR ''='') (rev s))"

definition decodeBase64 :: "string \<Rightarrow> js_error + nat list" where
  "decodeBase64 dat =
     (let clean = strip_padding dat in
      if length dat - length clean > 2 then Inl (TypeError ''Invalid base64 input: too many '=' padding characters'')
      else if length clean mod 4 = 1 then Inl (TypeError (''Invalid base64 input: length '' @ map char_of (decimal (length dat)) @ '' is not valid''))
      else bind_res (decode_groups 0 clean) (\<lambda>out. Inr (take (drop_bit 2 (length clean * 3)) out)))"

section \<open>The message \<open>Payload\<close>\<close>

fun writeVarint :: "nat \<Rightarrow> nat list" where
  "writeVarint n = (if 0x80 \<le> n then ((n AND 0x7f) OR 0x80) # writeVarint (n div 128) else [n AND 0x7f])"

declare writeVarint.simps [simp del]

abbreviation plain_error :: "string \<Rightarrow> js_error" where
  "plain_error m \<equiv> OtherError [Error_class] m [] None"

fun read_varint :: "nat \<Rightarrow> nat \<Rightarrow> nat list \<Rightarrow> js_error + nat \<times> nat list" where
  "read_varint result shift [] = Inl (plain_error ''unexpected end of varint'')"
| "read_varint result shift (b # bs) =
     (let result' = result + (b AND 0x7f) * 2 ^ shift in
      if b AND 0x80 = 0 then Inr (result', bs)
      else if shift + 7 > 35 then Inl (plain_error ''varint too large'')
      else read_varint result' (shift + 7) bs)"

definition readVarint :: "nat list \<Rightarrow> js_error + nat \<times> nat list" where
  "readVarint bytes = read_varint 0 0 bytes"

definition writeTagLenBytes :: "nat \<Rightarrow> nat list \<Rightarrow> nat list" where
  "writeTagLenBytes tag bytes = tag # writeVarint (length bytes) @ bytes"

definition utf8Encode :: "string \<Rightarrow> nat list" where
  "utf8Encode s = (case encode (codes s) of Inr b \<Rightarrow> b | Inl _ \<Rightarrow> [])"

definition utf8Decode :: "nat list \<Rightarrow> js_error + string" where
  "utf8Decode b = (let t = decode b in if \<forall>u \<in> set t. u < 256 then Inr (map char_of t) else Inl unmodelled)"

definition encode_entry :: "string \<times> string \<Rightarrow> nat list" where
  "encode_entry kv = writeTagLenBytes 0x0a (writeTagLenBytes 0x0a (utf8Encode (fst kv)) @ writeTagLenBytes 0x12 (codes (snd kv)))"

definition encodePayloadProto :: "payload \<Rightarrow> nat list" where
  "encodePayloadProto p =
     concat (map encode_entry (case metadata p of None \<Rightarrow> [] | Some m \<Rightarrow> m)) @
     (case data p of None \<Rightarrow> [] | Some d \<Rightarrow> if d = [] then [] else writeTagLenBytes 0x12 (codes d))"

lemma read_varint_shrinks: "read_varint r s bs = Inr (n, rest) \<Longrightarrow> length rest < length bs"
  by (induction r s bs rule: read_varint.induct) (auto simp: Let_def split: if_splits)

lemma readVarint_shrinks: "readVarint bs = Inr (n, rest) \<Longrightarrow> length rest < length bs"
  unfolding readVarint_def by (rule read_varint_shrinks)

text \<open>The inner loop, over the bytes of an entry of the map.\<close>

function decode_entry :: "nat list \<Rightarrow> string \<Rightarrow> nat list \<Rightarrow> js_error + string \<times> nat list" where
  "decode_entry [] key val = Inr (key, val)"
| "decode_entry (itag # chunk) key val =
     (let ifn = drop_bit 3 itag; iwt = itag AND 0x07 in
      if iwt \<noteq> 2 then Inl (plain_error (''unsupported wire type '' @ map char_of (decimal iwt) @ '' in Payload metadata entry''))
      else case readVarint chunk of
        Inl e \<Rightarrow> Inl e
      | Inr (ilen, rest) \<Rightarrow>
          if ifn = 1 then bind_res (utf8Decode (take ilen rest)) (\<lambda>k. decode_entry (drop ilen rest) k val)
          else if ifn = 2 then decode_entry (drop ilen rest) key (take ilen rest)
          else decode_entry (drop ilen rest) key val)"
  by pat_completeness auto
termination
  by (relation "measure (\<lambda>(c, k, v). length c)") (auto dest!: readVarint_shrinks)

text \<open>An assignment to \<^verbatim>\<open>__proto__\<close> sets the prototype of the object and adds no key.\<close>

definition assign_key :: "(string \<times> string) list \<Rightarrow> string \<Rightarrow> string \<Rightarrow> (string \<times> string) list" where
  "assign_key m k v = (if k = ''__proto__'' then m else js_set m k v)"

function decode_fields :: "nat list \<Rightarrow> (string \<times> string) list \<Rightarrow> string \<Rightarrow> js_error + payload" where
  "decode_fields [] m d = Inr \<lparr>metadata = Some m, data = Some d\<rparr>"
| "decode_fields (tag # bytes) m d =
     (let fieldNumber = drop_bit 3 tag; wireType = tag AND 0x07 in
      if wireType = 2 then
        (case readVarint bytes of
           Inl e \<Rightarrow> Inl e
         | Inr (len, rest) \<Rightarrow>
             if fieldNumber = 1 then
               (case decode_entry (take len rest) [] [] of
                  Inl e \<Rightarrow> Inl e
                | Inr (key, val) \<Rightarrow> decode_fields (drop len rest) (assign_key m key (map char_of val)) d)
             else if fieldNumber = 2 then decode_fields (drop len rest) m (map char_of (take len rest))
             else decode_fields (drop len rest) m d)
      else if wireType = 0 then
        (case readVarint bytes of Inl e \<Rightarrow> Inl e | Inr (n, rest) \<Rightarrow> decode_fields rest m d)
      else if wireType = 1 then decode_fields (drop 8 bytes) m d
      else if wireType = 5 then decode_fields (drop 4 bytes) m d
      else Inl (plain_error (''unsupported wire type '' @ map char_of (decimal wireType))))"
  by pat_completeness auto
termination
  by (relation "measure (\<lambda>(c, m, d). length c)") (auto dest!: readVarint_shrinks)

definition decodePayloadProto :: "nat list \<Rightarrow> js_error + payload" where
  "decodePayloadProto bytes = decode_fields bytes [] []"

definition encodePayloadWire :: "payload \<Rightarrow> string" where
  "encodePayloadWire p = encodeBase64 (encodePayloadProto p)"

definition decodePayloadWire :: "string \<Rightarrow> js_error + payload" where
  "decodePayloadWire wire = bind_res (decodeBase64 wire) decodePayloadProto"

section \<open>Base64 is lossless\<close>

lemma B64_distinct: "distinct B64" and B64_no_padding: "CHR ''='' \<notin> set B64" and B64_length: "length B64 = 64"
  by (simp_all add: B64_def)

lemma indexOf_nth: "distinct xs \<Longrightarrow> n < length xs \<Longrightarrow> indexOf xs (xs ! n) = Some n"
proof (induction xs arbitrary: n)
  case (Cons x xs)
  then show ?case by (cases n) (auto simp: nth_mem)
qed simp

lemma B64_inverse: "n < 64 \<Longrightarrow> indexOf B64 (B64 ! n) = Some n \<and> B64 ! n \<noteq> CHR ''=''"
  using indexOf_nth [OF B64_distinct, of n] B64_no_padding nth_mem [of n B64] by (metis B64_length)

lemma byte_div: "(b::nat) < 256 \<Longrightarrow> b div 16 < 16 \<and> b div 64 < 4 \<and> b div 4 < 64"
  by (simp add: less_mult_imp_div_less)

lemma or_shift: "b < 2 ^ n \<Longrightarrow> push_bit n a OR b = 2 ^ n * a + (b::nat)"
  by (simp only: or_add) (simp add: push_bit_eq_mult mult.commute)

lemma mod_digit: "c < k \<Longrightarrow> (k * a + c) mod (k * m) = k * (a mod m) + (c::nat)"
  by (simp add: mod_mult2_eq)

lemma sextet_bits:
  fixes b0 b1 b2 :: nat
  assumes "b0 < 256" "b1 < 256" "b2 < 256"
  shows "drop_bit 2 b0 AND 0x3f = b0 div 4" "(push_bit 4 b0 OR drop_bit 4 b1) AND 0x3f = b0 mod 4 * 16 + b1 div 16"
    "(push_bit 2 b1 OR drop_bit 6 b2) AND 0x3f = b1 mod 16 * 4 + b2 div 64" "b2 AND 0x3f = b2 mod 64"
proof -
  note d = byte_div [OF assms(1)] byte_div [OF assms(2)] byte_div [OF assms(3)]
  have "push_bit 4 b0 OR drop_bit 4 b1 = 16 * b0 + b1 div 16" "push_bit 2 b1 OR drop_bit 6 b2 = 4 * b1 + b2 div 64"
    using d or_shift [of "b1 div 16" 4 b0] or_shift [of "b2 div 64" 2 b1] by (simp_all add: drop_bit_eq_div)
  then show "(push_bit 4 b0 OR drop_bit 4 b1) AND 0x3f = b0 mod 4 * 16 + b1 div 16"
    "(push_bit 2 b1 OR drop_bit 6 b2) AND 0x3f = b1 mod 16 * 4 + b2 div 64"
    using d mod_digit [of "b1 div 16" 16 b0 4] mod_digit [of "b2 div 64" 4 b1 16] by (simp_all add: and_mask_mod)
  show "drop_bit 2 b0 AND 0x3f = b0 div 4" "b2 AND 0x3f = b2 mod 64"
    using d by (simp_all add: and_mask_mod drop_bit_eq_div)
qed

lemma triple_sum:
  assumes "b div 16 < 4" "c div 4 < 16" "d < 64"
  shows "triple a b c d = [(4 * a + b div 16) mod 256, (16 * b + c div 4) mod 256, (64 * c + d) mod 256]"
  using assms or_shift [of "b div 16" 2 a] or_shift [of "c div 4" 4 b] or_shift [of d 6 c]
  by (simp add: triple_def drop_bit_eq_div and_mask_mod)

lemma triple_bits:
  assumes "b0 < 256" "b1 < 256" "b2 < 256"
  shows "triple (b0 div 4) (b0 mod 4 * 16 + b1 div 16) (b1 mod 16 * 4 + b2 div 64) (b2 mod 64) = [b0, b1, b2]"
proof -
  note d = byte_div [OF assms(1)] byte_div [OF assms(2)] byte_div [OF assms(3)]
  have q: "(b0 mod 4 * 16 + b1 div 16) div 16 = b0 mod 4" "(b1 mod 16 * 4 + b2 div 64) div 4 = b1 mod 16" using d by simp_all
  have "16 * (b0 mod 4 * 16 + b1 div 16) + b1 mod 16 = 256 * (b0 mod 4) + b1" "64 * (b1 mod 16 * 4 + b2 div 64) + b2 mod 64 = 256 * (b1 mod 16) + b2"
    by simp_all
  moreover have "(256 * x + b) mod 256 = b" if "b < 256" for x b :: nat using that by simp
  ultimately show ?thesis using assms by (simp add: triple_sum q)
qed

lemma sextet_range:
  assumes "b0 < 256" "b1 < 256" "b2 < (256::nat)"
  shows "b0 div 4 < 64" "b0 mod 4 * 16 + b1 div 16 < 64" "b1 mod 16 * 4 + b2 div 64 < 64" "b2 mod 64 < 64"
proof -
  note d = byte_div [OF assms(1)] byte_div [OF assms(2)] byte_div [OF assms(3)]
  have "x * 16 + y < 64" if "x < 4" "y < 16" for x y :: nat using that by linarith
  from this [of "b0 mod 4" "b1 div 16"] show "b0 mod 4 * 16 + b1 div 16 < 64" using d by simp
  have "x * 4 + y < 64" if "x < 16" "y < 4" for x y :: nat using that by linarith
  from this [of "b1 mod 16" "b2 div 64"] show "b1 mod 16 * 4 + b2 div 64 < 64" using d by simp
qed (use byte_div [OF assms(1)] in simp_all)

lemma sextet_plain: "n < 64 \<Longrightarrow> CHR ''='' \<noteq> B64 ! n"
  using B64_inverse [of n] by auto

lemma decode_four:
  "w < 64 \<Longrightarrow> x < 64 \<Longrightarrow> y < 64 \<Longrightarrow> z < 64 \<Longrightarrow>
   decode_groups i ([B64 ! w, B64 ! x, B64 ! y, B64 ! z] @ s) = bind_res (decode_groups (i + 4) s) (\<lambda>out. Inr (triple w x y z @ out))"
  by (simp add: B64_inverse numeral_2_eq_2 numeral_3_eq_3)

definition encodes :: "string \<Rightarrow> nat list \<Rightarrow> bool" where
  "encodes s bs \<longleftrightarrow> (\<exists>body k out. s = body @ replicate k (CHR ''='') \<and> k \<le> 2 \<and> CHR ''='' \<notin> set body \<and> (\<forall>i. decode_groups i body = Inr out) \<and>
     take (length bs) out = bs \<and> length body * 3 div 4 = length bs \<and> length body mod 4 \<noteq> 1)"

lemma encodeBase64_encodes: "list_all (\<lambda>b. b < 256) bs \<Longrightarrow> encodes (encodeBase64 bs) bs"
proof (induction bs rule: encodeBase64.induct)
  case 1
  show ?case by (auto simp: encodes_def)
next
  case (2 b0)
  then have r: "b0 < 256" by simp
  show ?case
    unfolding encodes_def
  proof (intro exI conjI allI)
    let ?body = "[B64 ! (b0 div 4), B64 ! (b0 mod 4 * 16)]"
    show "encodeBase64 [b0] = ?body @ replicate 2 (CHR ''='')"
      using sextet_bits [OF r, of 0 0] by (simp add: numeral_2_eq_2)
    show "decode_groups i ?body = Inr (triple (b0 div 4) (b0 mod 4 * 16) 0 0)" for i
      using sextet_range [OF r, of 0 0] by (simp add: B64_inverse)
    show "CHR ''='' \<notin> set ?body" using sextet_range [OF r, of 0 0] by (simp add: sextet_plain)
    show "take (length [b0]) (triple (b0 div 4) (b0 mod 4 * 16) 0 0) = [b0]" using triple_bits [OF r, of 0 0] by simp
  qed simp_all
next
  case (3 b0 b1)
  then have r: "b0 < 256" "b1 < 256" by simp_all
  show ?case
    unfolding encodes_def
  proof (intro exI conjI allI)
    let ?body = "[B64 ! (b0 div 4), B64 ! (b0 mod 4 * 16 + b1 div 16), B64 ! (b1 mod 16 * 4)]"
    show "encodeBase64 [b0, b1] = ?body @ replicate 1 (CHR ''='')" using sextet_bits [OF r, of 0] by simp
    show "decode_groups i ?body = Inr (triple (b0 div 4) (b0 mod 4 * 16 + b1 div 16) (b1 mod 16 * 4) 0)" for i
      using sextet_range [OF r, of 0] by (simp add: B64_inverse)
    show "CHR ''='' \<notin> set ?body" using sextet_range [OF r, of 0] by (simp add: sextet_plain)
    show "take (length [b0, b1]) (triple (b0 div 4) (b0 mod 4 * 16 + b1 div 16) (b1 mod 16 * 4) 0) = [b0, b1]"
      using triple_bits [OF r, of 0] by simp
  qed simp_all
next
  case (4 b0 b1 b2 bs)
  then have r: "b0 < 256" "b1 < 256" "b2 < 256" by simp_all
  from 4 obtain body k out where b: "encodeBase64 bs = body @ replicate k (CHR ''='')" "k \<le> 2" "CHR ''='' \<notin> set body"
    "\<forall>i. decode_groups i body = Inr out" "take (length bs) out = bs" "length body * 3 div 4 = length bs" "length body mod 4 \<noteq> 1"
    by (auto simp: encodes_def)
  show ?case
    unfolding encodes_def
  proof (intro exI conjI allI)
    let ?head = "[B64 ! (b0 div 4), B64 ! (b0 mod 4 * 16 + b1 div 16), B64 ! (b1 mod 16 * 4 + b2 div 64), B64 ! (b2 mod 64)]"
    show "encodeBase64 (b0 # b1 # b2 # bs) = (?head @ body) @ replicate k (CHR ''='')"
      using b(1) by (simp add: sextet_bits [OF r])
    show "decode_groups i (?head @ body) = Inr ([b0, b1, b2] @ out)" for i
      unfolding decode_four [OF sextet_range [OF r]] triple_bits [OF r] using b(4) by simp
    show "CHR ''='' \<notin> set (?head @ body)" using sextet_range [OF r] b(3) by (simp add: sextet_plain)
  qed (use b in simp_all)
qed

lemma strip_body:
  assumes "CHR ''='' \<notin> set body"
  shows "strip_padding (body @ replicate k (CHR ''='')) = body"
proof -
  have "dropWhile (\<lambda>c. c = CHR ''='') (replicate k (CHR ''='') @ rev body) = dropWhile (\<lambda>c. c = CHR ''='') (rev body)"
    by (induction k) simp_all
  moreover have "dropWhile (\<lambda>c. c = CHR ''='') (rev body) = rev body"
    using assms by (cases "rev body") (auto simp: rev_swap)
  ultimately show ?thesis by (simp add: strip_padding_def)
qed

lemma base64_lossless:
  assumes "list_all (\<lambda>b. b < 256) bs"
  shows "decodeBase64 (encodeBase64 bs) = Inr bs"
proof -
  obtain body k out where b: "encodeBase64 bs = body @ replicate k (CHR ''='')" "k \<le> 2" "CHR ''='' \<notin> set body"
    "\<forall>i. decode_groups i body = Inr out" "take (length bs) out = bs" "length body * 3 div 4 = length bs" "length body mod 4 \<noteq> 1"
    using encodeBase64_encodes [OF assms] by (auto simp: encodes_def)
  then show ?thesis by (simp add: decodeBase64_def strip_body drop_bit_eq_div)
qed

section \<open>The message is lossless\<close>

lemma and_127: "(n::nat) AND 0x7f = n mod 128"
  using take_bit_eq_mask [of 7 n] by (simp add: take_bit_eq_mod mask_eq_exp_minus_1)

lemma varint_bits: "m < 128 \<Longrightarrow> (m OR 0x80) AND 0x7f = m \<and> (m OR 0x80) AND 0x80 \<noteq> 0 \<and> m AND 0x80 = 0 \<and> m OR 0x80 < (256::nat)"
proof -
  have "list_all (\<lambda>m. (m OR 0x80) AND 0x7f = m \<and> (m OR 0x80) AND 0x80 \<noteq> 0 \<and> m AND 0x80 = 0 \<and> m OR 0x80 < (256::nat)) [0..<128]" by code_simp
  then show "m < 128 \<Longrightarrow> (m OR 0x80) AND 0x7f = m \<and> (m OR 0x80) AND 0x80 \<noteq> 0 \<and> m AND 0x80 = 0 \<and> m OR 0x80 < (256::nat)"
    by (auto simp: list_all_iff)
qed

lemma read_write_varint:
  "n * 2 ^ sh < 2 ^ 42 \<Longrightarrow> sh \<le> 35 \<Longrightarrow> sh mod 7 = 0 \<Longrightarrow> read_varint r sh (writeVarint n @ rest) = Inr (r + n * 2 ^ sh, rest)"
proof (induction n arbitrary: r sh rule: writeVarint.induct)
  case (1 n)
  note b = varint_bits [of "n mod 128"]
  show ?case
  proof (cases "n < 128")
    case True
    then show ?thesis using varint_bits [of n] by (simp add: writeVarint.simps [of n] and_127)
  next
    case False
    have e: "n div 128 * 2 ^ (sh + 7) + n mod 128 * 2 ^ sh = n * 2 ^ sh"
      by (simp add: power_add mult.commute [of _ "128::nat"] flip: distrib_right mult.assoc)
    then have less: "n div 128 * 2 ^ (sh + 7) < 2 ^ 42" using 1(2) by linarith
    have "1 * 2 ^ (sh + 7) \<le> n div 128 * (2::nat) ^ (sh + 7)" using False by (intro mult_right_mono) (simp_all add: div_greater_zero_iff Suc_le_eq)
    then have "(2::nat) ^ (sh + 7) < 2 ^ 42" using less by linarith
    then have "sh + 7 < 42" by (rule power_less_imp_less_exp [rotated]) simp
    then have sh: "sh + 7 \<le> 35" using 1(4) by presburger
    have "read_varint r sh (writeVarint n @ rest) = read_varint (r + n mod 128 * 2 ^ sh) (sh + 7) (writeVarint (n div 128) @ rest)"
      using False b sh by (simp add: writeVarint.simps [of n] and_127 Let_def)
    also have "\<dots> = Inr (r + n mod 128 * 2 ^ sh + n div 128 * 2 ^ (sh + 7), rest)"
      using False sh less 1(4) by (intro 1(1)) simp_all
    finally show ?thesis using e by simp
  qed
qed

lemma readVarint_writeVarint: "n < 2 ^ 42 \<Longrightarrow> readVarint (writeVarint n @ rest) = Inr (n, rest)"
  using read_write_varint [of n 0 0] by (simp add: readVarint_def)

lemma utf8_lossless: "utf8Decode (utf8Encode s) = Inr s"
proof -
  obtain b where b: "encode_text (codes s) = Inr b" "decode_bytes b = codes s" using text_roundtrip [OF codes_bytes] by blast
  then obtain bs where bs: "encode (codes s) = Inr bs" "b = map char_of bs" by (auto simp: encode_text_def bind_res_Inr_iff)
  have "bs = concat (map utf8 (codes s))" using bs(1) encode_utf16 [of "codes s"] utf16_bytes [OF codes_bytes [of s]] by simp
  then have "\<forall>x \<in> set bs. x < 256" using utf16_bytes [OF codes_bytes [of s]] utf8_bytes by (auto simp: list_all_iff)
  then have "decode bs = codes s" using b(2) bs(2) by (simp add: decode_bytes_def codes_char_of)
  then show ?thesis using bs(1) codes_bytes [of s] by (simp add: utf8Encode_def utf8Decode_def char_of_codes)
qed

lemma decode_entry_pair:
  assumes "length k < 2 ^ 42" "length v < 2 ^ 42" and "utf8Decode k = Inr key"
  shows "decode_entry (writeTagLenBytes 0x0a k @ writeTagLenBytes 0x12 v) key0 v0 = Inr (key, v)"
proof -
  have tags: "drop_bit 3 (0x0a::nat) = 1" "(0x0a::nat) AND 7 = 2" "drop_bit 3 (0x12::nat) = 2" "(0x12::nat) AND 7 = 2" by code_simp+
  have k: "readVarint (writeVarint (length k) @ k @ r) = Inr (length k, k @ r)" for r using assms(1) by (rule readVarint_writeVarint)
  have v: "readVarint (writeVarint (length v) @ v) = Inr (length v, v)" using assms(2) by (rule readVarint_writeVarint)
  show ?thesis by (simp add: writeTagLenBytes_def Let_def tags k v assms(3))
qed

lemma decode_one_entry:
  assumes "length (encode_entry (k, v)) < 2 ^ 42"
  shows "decode_fields (encode_entry (k, v) @ rest) m d = decode_fields rest (assign_key m k v) d"
proof -
  let ?e = "writeTagLenBytes 0x0a (utf8Encode k) @ writeTagLenBytes 0x12 (codes v)"
  have tags: "drop_bit 3 (0x0a::nat) = 1" "(0x0a::nat) AND 7 = 2" by code_simp+
  have len: "length ?e < 2 ^ 42" "length (utf8Encode k) < 2 ^ 42" "length (codes v) < 2 ^ 42"
    using assms by (simp_all add: encode_entry_def writeTagLenBytes_def)
  have r: "readVarint (writeVarint (length ?e) @ ?e @ rest) = Inr (length ?e, ?e @ rest)" using len(1) by (rule readVarint_writeVarint)
  have "decode_entry ?e [] [] = Inr (k, codes v)" using len utf8_lossless by (intro decode_entry_pair) simp_all
  then have step: "decode_fields (0x0a # bs @ ?e @ rest) m d = decode_fields rest (assign_key m k v) d"
    if "readVarint (bs @ ?e @ rest) = Inr (length ?e, ?e @ rest)" for bs
    using that by (simp add: Let_def tags char_of_codes)
  show ?thesis unfolding encode_entry_def fst_conv snd_conv writeTagLenBytes_def [of "0x0a" ?e] using step [OF r] by simp
qed

lemma decode_entries:
  "\<forall>e \<in> set kvs. length (encode_entry e) < 2 ^ 42 \<Longrightarrow>
   decode_fields (concat (map encode_entry kvs) @ rest) m d = decode_fields rest (foldl (\<lambda>m (k, v). assign_key m k v) m kvs) d"
proof (induction kvs arbitrary: m)
  case (Cons e kvs)
  obtain k v where "e = (k, v)" by force
  then show ?case using Cons decode_one_entry [of k v] by simp
qed simp

lemma assign_keys:
  "distinct (map fst (m @ kvs)) \<Longrightarrow> ''__proto__'' \<notin> fst ` set kvs \<Longrightarrow> foldl (\<lambda>m (k, v). assign_key m k v) m kvs = m @ kvs"
proof (induction kvs arbitrary: m)
  case (Cons e kvs)
  obtain k v where e: "e = (k, v)" by force
  have "assign_key m k v = m @ [(k, v)]" using Cons.prems e by (auto simp: assign_key_def js_set_fresh js_has_def)
  then show ?case using Cons.IH [of "m @ [(k, v)]"] Cons.prems e by simp
qed simp

lemma decode_data:
  assumes "length d < 2 ^ 42"
  shows "decode_fields (writeTagLenBytes 0x12 (codes d)) m d0 = Inr \<lparr>metadata = Some m, data = Some d\<rparr>"
proof -
  have tags: "drop_bit 3 (0x12::nat) = 2" "(0x12::nat) AND 7 = 2" by code_simp+
  have "readVarint (writeVarint (length (codes d)) @ codes d) = Inr (length (codes d), codes d)"
    using assms by (intro readVarint_writeVarint) (simp add: codes_def)
  then show ?thesis by (simp add: writeTagLenBytes_def Let_def tags char_of_codes)
qed

lemma varint_bytes: "\<forall>b \<in> set (writeVarint n). b < 256"
proof (induction n rule: writeVarint.induct)
  case (1 n)
  have "n mod 128 OR 0x80 < (256::nat)"
    using varint_bits [of "n mod 128"] by simp
  then show ?case using 1 by (subst writeVarint.simps) (auto simp: and_127)
qed

lemma utf8Encode_bytes: "\<forall>b \<in> set (utf8Encode s). b < 256"
  using encode_utf16 [of "codes s"] utf16_bytes [OF codes_bytes [of s]] utf8_bytes by (auto simp: utf8Encode_def list_all_iff)

lemma proto_bytes: "list_all (\<lambda>b. b < 256) (encodePayloadProto p)"
  using varint_bytes utf8Encode_bytes codes_bytes
  by (auto simp: encodePayloadProto_def encode_entry_def writeTagLenBytes_def list_all_iff split: option.splits)

lemma length_concat_member: "x \<in> set xs \<Longrightarrow> length (f x) \<le> length (concat (map f xs))"
  by (induction xs) auto

text \<open>The payload as a reader gets it: an absent map is the empty one, absent data are no bytes.\<close>

definition canonical_payload :: "payload \<Rightarrow> payload" where
  "canonical_payload p = \<lparr>metadata = Some (case metadata p of None \<Rightarrow> [] | Some m \<Rightarrow> m), data = Some (case data p of None \<Rightarrow> [] | Some d \<Rightarrow> d)\<rparr>"

text \<open>A payload is an object with distinct keys, \<^verbatim>\<open>__proto__\<close> not among them, that fits into an array.\<close>

definition wire_payload :: "payload \<Rightarrow> bool" where
  "wire_payload p \<longleftrightarrow> (case metadata p of None \<Rightarrow> True | Some m \<Rightarrow> distinct (map fst m) \<and> ''__proto__'' \<notin> set (map fst m)) \<and>
     length (encodePayloadProto p) < 2 ^ 42"

lemma proto_lossless:
  assumes "wire_payload p"
  shows "decodePayloadProto (encodePayloadProto p) = Inr (canonical_payload p)"
proof -
  define m where "m = (case metadata p of None \<Rightarrow> [] | Some m \<Rightarrow> m)"
  define tl where "tl = (case data p of None \<Rightarrow> [] | Some d \<Rightarrow> if d = [] then [] else writeTagLenBytes 0x12 (codes d))"
  have p: "encodePayloadProto p = concat (map encode_entry m) @ tl" by (simp add: encodePayloadProto_def m_def tl_def)
  have m: "distinct (map fst m)" "''__proto__'' \<notin> fst ` set m" and len: "length (concat (map encode_entry m) @ tl) < 2 ^ 42"
    using assms by (auto simp: wire_payload_def m_def p split: option.splits)
  have "\<forall>e \<in> set m. length (encode_entry e) < 2 ^ 42"
    using len length_concat_member [of _ m encode_entry] by (metis le_less_trans length_append le_add1)
  then have "decode_fields (concat (map encode_entry m) @ tl) [] [] = decode_fields tl m []"
    using decode_entries [of m tl "[]" "[]"] assign_keys [of "[]" m] m by simp
  also have "\<dots> = Inr (canonical_payload p)"
  proof (cases "data p = None \<or> data p = Some []")
    case True
    then show ?thesis by (auto simp: tl_def canonical_payload_def m_def)
  next
    case False
    then obtain d where d: "data p = Some d" "d \<noteq> []" by auto
    have "length d < 2 ^ 42" using len d by (simp add: tl_def writeTagLenBytes_def codes_def)
    then show ?thesis using d by (simp add: tl_def canonical_payload_def m_def decode_data)
  qed
  finally show ?thesis by (simp add: decodePayloadProto_def p)
qed

lemma wire_lossless:
  assumes "wire_payload p"
  shows "decodePayloadWire (encodePayloadWire p) = Inr (canonical_payload p)"
  using base64_lossless [OF proto_bytes] proto_lossless [OF assms] by (simp add: decodePayloadWire_def encodePayloadWire_def)

text \<open>
  C35: (Round trip.) A payload on its way through a stream comes back with all of its metadata, in order, and all of its bytes: the
  hand-written encoder and decoder of the message and base64 lose nothing, and bytes of any length come through base64.
\<close>

theorem payload_wire_roundtrip:
  assumes "wire_payload p" and "list_all (\<lambda>b. b < 256) bs"
  shows "decodePayloadWire (encodePayloadWire p) = Inr (canonical_payload p) \<and> decodeBase64 (encodeBase64 bs) = Inr bs"
  using wire_lossless [OF assms(1)] base64_lossless [OF assms(2)] by simp

theorem payload_wire_roundtrip_witness:
  "decodePayloadWire (encodePayloadWire \<lparr>metadata = Some [(''encoding'', ''json/plain'')], data = Some ''12''\<rparr>) =
     Inr \<lparr>metadata = Some [(''encoding'', ''json/plain'')], data = Some ''12''\<rparr> \<and> decodeBase64 (encodeBase64 [0, 255]) = Inr [0, 255]"
proof -
  have "wire_payload \<lparr>metadata = Some [(''encoding'', ''json/plain'')], data = Some ''12''\<rparr>" by code_simp
  from payload_wire_roundtrip [OF this, of "[0, 255]"] show ?thesis by (simp add: canonical_payload_def)
qed

end
