(* ===== verification/WorkflowStreams.thy ===== *)
theory WorkflowStreams
  imports StreamCodec
begin

text \<open>
  The workflow side of streams, \<^verbatim>\<open>contrib/workflow-streams/src/workflow.ts\<close>: a log of which the beginning can be cut off, a table of
  the last sequence number of each publisher, and the handlers for publishing and polling. A poll is its check on entry, the condition it
  waits for and the answer it computes when it wakes. Times are in milliseconds: the program divides each of them by 1000, which is left out.
  The names of publishers are not names of members of \<^verbatim>\<open>Object.prototype\<close>. The memo of topic handles has no effect.
\<close>

section \<open>Data\<close>

type_synonym log_entry = "string \<times> payload"

record publish_entry =
  pe_topic :: string
  pe_data :: string

record wire_item =
  wi_topic :: string
  wi_data :: string
  wi_offset :: int

record publish_input =
  pi_items :: "publish_entry list"
  publisher_id :: string
  pi_sequence :: int

record poll_input =
  poll_topics :: "string list"
  from_offset :: int

record poll_result =
  pr_items :: "wire_item list"
  next_offset :: int
  more_ready :: bool

record stream_state =
  ss_log :: "wire_item list option"
  base_offset :: "int option"
  publisher_sequences :: "(string, int) js_map option"
  publisher_last_seen :: "(string, int) js_map option"

record stream =
  st_log :: "log_entry list"
  baseOffset :: int
  publisherSequences :: "(string, int) js_map"
  publisherLastSeen :: "(string, int) js_map"
  draining :: bool

definition MAX_POLL_RESPONSE_BYTES :: nat where "MAX_POLL_RESPONSE_BYTES = 1000000"

definition stream_failure :: "string \<Rightarrow> string \<Rightarrow> js_error" where
  "stream_failure m t = TemporalFailure (ApplicationFailure (Some t) True (Some []) None None) m [] None None"

definition show_offset :: "int \<Rightarrow> string" where
  "show_offset n = map char_of (json_int n)"

section \<open>Operations\<close>

definition new_WorkflowStream :: "stream_state option \<Rightarrow> js_error + stream" where
  "new_WorkflowStream prior = (case prior of
     None \<Rightarrow> Inr \<lparr>st_log = [], baseOffset = 0, publisherSequences = [], publisherLastSeen = [], draining = False\<rparr>
   | Some p \<Rightarrow>
       bind_res (case ss_log p of None \<Rightarrow> Inr []
                 | Some items \<Rightarrow> map_res (\<lambda>i. bind_res (decodePayloadWire (wi_data i)) (\<lambda>d. Inr (wi_topic i, d))) items) (\<lambda>es.
       Inr \<lparr>st_log = es, baseOffset = (case base_offset p of None \<Rightarrow> 0 | Some b \<Rightarrow> b),
            publisherSequences = (case publisher_sequences p of None \<Rightarrow> [] | Some m \<Rightarrow> m),
            publisherLastSeen = (case publisher_last_seen p of None \<Rightarrow> [] | Some m \<Rightarrow> m), draining = False\<rparr>))"

text \<open>An object with metadata of which every value is an array of bytes; its data are bytes or absent.\<close>

definition metadata_of :: "jsval \<Rightarrow> (string \<times> string) list option" where
  "metadata_of v = (case v of
     JObj m \<Rightarrow> if list_all (\<lambda>(k, x). case x of JBytes b \<Rightarrow> True | _ \<Rightarrow> False) m
               then Some (map (\<lambda>(k, x). (k, case x of JBytes b \<Rightarrow> b | _ \<Rightarrow> [])) m) else None
   | JBytes b \<Rightarrow> if b = [] then Some [] else None
   | _ \<Rightarrow> None)"

definition isPayload :: "jsval \<Rightarrow> payload option" where
  "isPayload v = (case v of
     JObj flds \<Rightarrow> (case map_of flds ''metadata'' of
         None \<Rightarrow> None
       | Some m \<Rightarrow> map_option (\<lambda>md. \<lparr>metadata = Some md, data = (case map_of flds ''data'' of Some (JBytes d) \<Rightarrow> Some d | _ \<Rightarrow> None)\<rparr>) (metadata_of m))
   | _ \<Rightarrow> None)"

definition stream_payload :: "(jsval \<Rightarrow> string) \<Rightarrow> jsval \<Rightarrow> js_error + payload" where
  "stream_payload show_value v = (case isPayload v of
     Some p \<Rightarrow> Inr p
   | None \<Rightarrow> (case v of
       JBytes b \<Rightarrow> Inr \<lparr>metadata = Some [(''encoding'', ''binary/plain'')], data = Some b\<rparr>
     | _ \<Rightarrow> toPayload (DefaultPayloadConverter show_value) v None None))"

definition publishToTopic :: "(jsval \<Rightarrow> string) \<Rightarrow> string \<Rightarrow> jsval \<Rightarrow> stream \<Rightarrow> stream \<times> (js_error + unit)" where
  "publishToTopic show_value topic v s = (case stream_payload show_value v of
     Inl e \<Rightarrow> (s, Inl e)
   | Inr p \<Rightarrow> (s\<lparr>st_log := st_log s @ [(topic, p)]\<rparr>, Inr ()))"

definition detachPollers :: "stream \<Rightarrow> stream" where
  "detachPollers s = s\<lparr>draining := True\<rparr>"

definition stream_offset :: "stream \<Rightarrow> int" where
  "stream_offset s = baseOffset s + int (length (st_log s))"

definition active_publishers :: "int \<Rightarrow> int \<Rightarrow> stream \<Rightarrow> (string \<times> int \<times> int) list" where
  "active_publishers now ttl s = filter (\<lambda>(pid, q, ts). now - ts < ttl)
     (map (\<lambda>(pid, q). (pid, q, case js_get (publisherLastSeen s) pid of None \<Rightarrow> 0 | Some ts \<Rightarrow> ts)) (publisherSequences s))"

definition getState :: "int \<Rightarrow> int \<Rightarrow> stream \<Rightarrow> stream_state" where
  "getState now ttl s =
     \<lparr>ss_log = Some (map (\<lambda>(t, p). \<lparr>wi_topic = t, wi_data = encodePayloadWire p, wi_offset = 0\<rparr>) (st_log s)),
      base_offset = Some (baseOffset s),
      publisher_sequences = Some (map (\<lambda>(pid, q, ts). (pid, q)) (active_publishers now ttl s)),
      publisher_last_seen = Some (map (\<lambda>(pid, q, ts). (pid, ts)) (active_publishers now ttl s))\<rparr>"

definition truncate_log :: "int \<Rightarrow> stream \<Rightarrow> stream \<times> (js_error + unit)" where
  "truncate_log upToOffset s =
     (let logIndex = upToOffset - baseOffset s in
      if logIndex \<le> 0 then (s, Inr ())
      else if logIndex > int (length (st_log s))
      then (s, Inl (stream_failure (''Cannot truncate to offset '' @ show_offset upToOffset @ '': only '' @ show_offset (stream_offset s) @ '' items exist'')
                     ''TruncateOutOfRange''))
      else (s\<lparr>st_log := drop (nat logIndex) (st_log s), baseOffset := upToOffset\<rparr>, Inr ()))"

fun push_entries :: "publish_entry list \<Rightarrow> stream \<Rightarrow> stream \<times> (js_error + unit)" where
  "push_entries [] s = (s, Inr ())"
| "push_entries (e # es) s = (case decodePayloadWire (pe_data e) of
     Inl err \<Rightarrow> (s, Inl err)
   | Inr p \<Rightarrow> push_entries es (s\<lparr>st_log := st_log s @ [(pe_topic e, p)]\<rparr>))"

definition last_sequence :: "stream \<Rightarrow> string \<Rightarrow> int" where
  "last_sequence s pid = (case js_get (publisherSequences s) pid of None \<Rightarrow> 0 | Some q \<Rightarrow> q)"

definition onPublish :: "int \<Rightarrow> publish_input \<Rightarrow> stream \<Rightarrow> stream \<times> (js_error + unit)" where
  "onPublish now i s =
     (if publisher_id i \<noteq> [] then
        if pi_sequence i \<le> last_sequence s (publisher_id i) then (s, Inr ())
        else push_entries (pi_items i)
               (s\<lparr>publisherSequences := js_set (publisherSequences s) (publisher_id i) (pi_sequence i),
                  publisherLastSeen := js_set (publisherLastSeen s) (publisher_id i) now\<rparr>)
      else push_entries (pi_items i) s)"

section \<open>Polling\<close>

definition poll_validator :: "stream \<Rightarrow> js_error + unit" where
  "poll_validator s = (if draining s then Inl (stream_failure ''Workflow is draining for continue-as-new'' ''StreamDraining'') else Inr ())"

definition truncatedFailure :: "poll_input \<Rightarrow> stream \<Rightarrow> js_error" where
  "truncatedFailure i s = stream_failure (''Requested offset '' @ show_offset (from_offset i) @ '' has been truncated. Current base offset is '' @
      show_offset (baseOffset s) @ ''.'') ''TruncatedOffset''"

definition behind :: "poll_input \<Rightarrow> stream \<Rightarrow> bool" where
  "behind i s \<longleftrightarrow> from_offset i \<noteq> 0 \<and> from_offset i - baseOffset s < 0"

definition poll_entry :: "poll_input \<Rightarrow> stream \<Rightarrow> js_error + unit" where
  "poll_entry i s = (if behind i s then Inl (truncatedFailure i s) else Inr ())"

definition poll_ready :: "poll_input \<Rightarrow> stream \<Rightarrow> bool" where
  "poll_ready i s \<longleftrightarrow> draining s \<or> behind i s \<or> int (length (st_log s)) > max (from_offset i - baseOffset s) 0"

definition payloadWireSize :: "string \<Rightarrow> string \<Rightarrow> nat" where
  "payloadWireSize encoded topic = length encoded + length topic"

definition wanted :: "string list \<Rightarrow> string \<Rightarrow> bool" where
  "wanted topics t \<longleftrightarrow> topics = [] \<or> t \<in> set topics"

fun candidates :: "string list \<Rightarrow> int \<Rightarrow> log_entry list \<Rightarrow> (int \<times> log_entry) list" where
  "candidates topics off [] = []"
| "candidates topics off (e # es) =
     (if wanted topics (fst e) then (off, e) # candidates topics (off + 1) es else candidates topics (off + 1) es)"

fun cap_items :: "nat \<Rightarrow> wire_item list \<Rightarrow> int \<Rightarrow> (int \<times> log_entry) list \<Rightarrow> poll_result" where
  "cap_items sz items endOffset [] = \<lparr>pr_items = items, next_offset = endOffset, more_ready = False\<rparr>"
| "cap_items sz items endOffset ((off, topic, p) # cs) =
     (let encoded = encodeBase64 (encodePayloadProto p); itemSize = payloadWireSize encoded topic in
      if sz + itemSize > MAX_POLL_RESPONSE_BYTES \<and> items \<noteq> []
      then \<lparr>pr_items = items, next_offset = off, more_ready = True\<rparr>
      else cap_items (sz + itemSize) (items @ [\<lparr>wi_topic = topic, wi_data = encoded, wi_offset = off\<rparr>]) endOffset cs)"

definition poll_answer :: "poll_input \<Rightarrow> stream \<Rightarrow> js_error + poll_result" where
  "poll_answer i s =
     (let logOffset = from_offset i - baseOffset s in
      if logOffset < 0 \<and> from_offset i \<noteq> 0 then Inl (truncatedFailure i s)
      else
        let logOffset' = (if logOffset < 0 then 0 else logOffset);
            allNew = drop (nat logOffset') (st_log s)
        in Inr (cap_items 0 [] (stream_offset s) (candidates (poll_topics i) (baseOffset s + logOffset') allNew)))"

section \<open>What a poll answers\<close>

text \<open>The entries of a stretch of the log, as a subscriber gets them.\<close>

definition wire_of :: "int \<times> log_entry \<Rightarrow> wire_item" where
  "wire_of c = \<lparr>wi_topic = fst (snd c), wi_data = encodePayloadWire (snd (snd c)), wi_offset = fst c\<rparr>"

definition entry_size :: "int \<times> log_entry \<Rightarrow> nat" where
  "entry_size c = payloadWireSize (encodePayloadWire (snd (snd c))) (fst (snd c))"

definition size_ok :: "nat \<Rightarrow> wire_item list \<Rightarrow> bool" where
  "size_ok n items \<longleftrightarrow> n \<le> MAX_POLL_RESPONSE_BYTES \<or> length items \<le> 1"

definition capped :: "nat \<Rightarrow> wire_item list \<Rightarrow> int \<Rightarrow> (int \<times> log_entry) list \<Rightarrow> (int \<times> log_entry) list \<Rightarrow> poll_result \<Rightarrow> bool" where
  "capped sz items e taken rest r \<longleftrightarrow>
     r = \<lparr>pr_items = items @ map wire_of taken, next_offset = (case rest of [] \<Rightarrow> e | c # _ \<Rightarrow> fst c), more_ready = (rest \<noteq> [])\<rparr> \<and>
     (rest \<noteq> [] \<longrightarrow> items \<noteq> [] \<or> taken \<noteq> []) \<and>
     (size_ok sz items \<longrightarrow> size_ok (sz + sum_list (map entry_size taken)) (items @ map wire_of taken))"

lemma cap_items_spec: "\<exists>taken rest. cs = taken @ rest \<and> capped sz items e taken rest (cap_items sz items e cs)"
proof (induction sz items e cs rule: cap_items.induct)
  case (1 sz items e)
  then show ?case by (auto simp: capped_def)
next
  case (2 sz items e off topic p cs)
  let ?c = "(off, topic, p)"
  have w: "encodeBase64 (encodePayloadProto p) = wi_data (wire_of ?c)" "payloadWireSize (encodeBase64 (encodePayloadProto p)) topic = entry_size ?c"
    by (simp_all add: wire_of_def entry_size_def encodePayloadWire_def)
  have item: "\<lparr>wi_topic = topic, wi_data = encodeBase64 (encodePayloadProto p), wi_offset = off\<rparr> = wire_of ?c"
    by (simp add: wire_of_def encodePayloadWire_def)
  show ?case
  proof (cases "sz + entry_size ?c > MAX_POLL_RESPONSE_BYTES \<and> items \<noteq> []")
    case True
    then have "capped sz items e [] (?c # cs) (cap_items sz items e (?c # cs))" by (simp add: capped_def Let_def w(2))
    then show ?thesis by blast
  next
    case False
    then have step: "cap_items sz items e (?c # cs) = cap_items (sz + entry_size ?c) (items @ [wire_of ?c]) e cs"
      by (auto simp: Let_def w(2) item)
    obtain taken rest where t: "cs = taken @ rest"
        "capped (sz + entry_size ?c) (items @ [wire_of ?c]) e taken rest (cap_items sz items e (?c # cs))"
      using 2 [OF refl refl] False step by (auto simp: w(2) item)
    have "size_ok (sz + entry_size ?c) (items @ [wire_of ?c])" using False by (auto simp: size_ok_def)
    then have "capped sz items e (?c # taken) rest (cap_items sz items e (?c # cs))" using t(2) by (simp add: capped_def add.assoc)
    then show ?thesis using t(1) by (metis append_Cons)
  qed
qed

lemma candidates_append: "candidates ts off (xs @ ys) = candidates ts off xs @ candidates ts (off + int (length xs)) ys"
  by (induction xs arbitrary: off) (simp_all add: algebra_simps)

lemma candidates_bounds: "(n, e) \<in> set (candidates ts off xs) \<Longrightarrow> off \<le> n \<and> n < off + int (length xs) \<and> xs ! nat (n - off) = e \<and> wanted ts (fst e)"
proof (induction xs arbitrary: off)
  case (Cons x xs)
  show ?case
  proof (cases "(n, e) \<in> set (candidates ts (off + 1) xs)")
    case True
    then have "off + 1 \<le> n \<and> n < off + 1 + int (length xs) \<and> xs ! nat (n - (off + 1)) = e \<and> wanted ts (fst e)" by (rule Cons.IH)
    moreover have "nat (n - off) = Suc (nat (n - (off + 1)))" if "off + 1 \<le> n" using that by linarith
    ultimately show ?thesis by auto
  next
    case False
    then show ?thesis using Cons.prems by (auto split: if_splits)
  qed
qed simp

text \<open>A cut of the list of candidates is a cut of the log.\<close>

lemma candidates_cut:
  assumes "candidates ts off xs = taken @ (n, e) # rest"
  shows "off \<le> n \<and> n < off + int (length xs) \<and> taken = candidates ts off (take (nat (n - off)) xs)"
  using assms
proof (induction xs arbitrary: off taken)
  case (Cons x xs)
  show ?case
  proof (cases "wanted ts (fst x) \<and> taken = []")
    case True
    then show ?thesis using Cons.prems by auto
  next
    case False
    define tk where "tk = (if wanted ts (fst x) then tl taken else taken)"
    have tk: "candidates ts (off + 1) xs = tk @ (n, e) # rest"
      "taken = (if wanted ts (fst x) then (off, x) # tk else tk)"
      using Cons.prems False by (cases taken; auto simp: tk_def)+
    have IH: "off + 1 \<le> n \<and> n < off + 1 + int (length xs) \<and> tk = candidates ts (off + 1) (take (nat (n - (off + 1))) xs)"
      using Cons.IH [OF tk(1)] .
    moreover have "nat (n - off) = Suc (nat (n - (off + 1)))" using IH by linarith
    ultimately show ?thesis using tk(2) by auto
  qed
qed simp

text \<open>The entries of the log from one offset up to another that a subscriber asked for.\<close>

definition segment :: "string list \<Rightarrow> int \<Rightarrow> int \<Rightarrow> stream \<Rightarrow> (int \<times> log_entry) list" where
  "segment ts a b s = candidates ts a (take (nat (b - a)) (drop (nat (a - baseOffset s)) (st_log s)))"

definition exact_answer :: "poll_input \<Rightarrow> stream \<Rightarrow> poll_result \<Rightarrow> bool" where
  "exact_answer i s r \<longleftrightarrow>
     (let start = max (from_offset i) (baseOffset s) in
      start \<le> next_offset r \<and> next_offset r \<le> stream_offset s \<and>
      pr_items r = map wire_of (segment (poll_topics i) start (next_offset r) s) \<and>
      (if more_ready r then pr_items r \<noteq> [] else next_offset r = stream_offset s) \<and>
      size_ok (sum_list (map entry_size (segment (poll_topics i) start (next_offset r) s))) (pr_items r))"

lemma poll_answer_exact:
  assumes "\<not> behind i s" and "0 \<le> baseOffset s" and "from_offset i \<le> stream_offset s"
  shows "\<exists>r. poll_answer i s = Inr r \<and> exact_answer i s r"
proof -
  define start where "start = max (from_offset i) (baseOffset s)"
  define xs where "xs = drop (nat (start - baseOffset s)) (st_log s)"
  define r where "r = cap_items 0 [] (stream_offset s) (candidates (poll_topics i) start xs)"
  have len: "int (length xs) = stream_offset s - start" and base: "baseOffset s \<le> start"
    using assms(3) by (auto simp: xs_def start_def stream_offset_def)
  have ans: "poll_answer i s = Inr r"
    using assms(1,2) unfolding poll_answer_def r_def xs_def start_def behind_def Let_def
    by (cases "from_offset i < baseOffset s") (simp_all add: max_def)
  obtain taken rest where c: "candidates (poll_topics i) start xs = taken @ rest" "capped 0 [] (stream_offset s) taken rest r"
    using cap_items_spec [of "candidates (poll_topics i) start xs" 0 "[]" "stream_offset s"] unfolding r_def by blast
  have r: "pr_items r = map wire_of taken" "next_offset r = (case rest of [] \<Rightarrow> stream_offset s | c # _ \<Rightarrow> fst c)" "more_ready r = (rest \<noteq> [])"
    "rest \<noteq> [] \<Longrightarrow> taken \<noteq> []" "size_ok (sum_list (map entry_size taken)) (map wire_of taken)"
    using c(2) by (auto simp: capped_def size_ok_def)
  have cut: "start \<le> next_offset r \<and> next_offset r \<le> stream_offset s \<and> taken = candidates (poll_topics i) start (take (nat (next_offset r - start)) xs)"
  proof (cases rest)
    case Nil
    then show ?thesis using c(1) r(2) len by (simp add: nat_eq_iff [symmetric])
  next
    case (Cons c cs)
    then have "candidates (poll_topics i) start xs = taken @ (fst c, snd c) # cs" using \<open>candidates (poll_topics i) start xs = taken @ rest\<close> by simp
    from candidates_cut [OF this] show ?thesis using r(2) Cons len by simp
  qed
  then have "taken = segment (poll_topics i) start (next_offset r) s" by (simp add: segment_def xs_def)
  then show ?thesis using ans cut r unfolding exact_answer_def Let_def start_def by auto
qed

text \<open>A poll that waits wakes with something to tell: entries, the news that its offset is gone, or that the stream is about to move.\<close>

lemma poll_progress:
  assumes "poll_ready i s" and "\<not> behind i s" and "\<not> draining s" and "0 \<le> baseOffset s"
  shows "\<exists>r. poll_answer i s = Inr r \<and> exact_answer i s r \<and> max (from_offset i) (baseOffset s) < next_offset r"
proof -
  have l: "int (length (st_log s)) > max (from_offset i - baseOffset s) 0" using assms(1-3) by (simp add: poll_ready_def)
  then have "from_offset i \<le> stream_offset s" by (simp add: stream_offset_def)
  then obtain r where r: "poll_answer i s = Inr r" "exact_answer i s r" using poll_answer_exact [OF assms(2,4)] by blast
  have "max (from_offset i) (baseOffset s) < next_offset r"
  proof (cases "more_ready r")
    case True
    then have "pr_items r \<noteq> []" "max (from_offset i) (baseOffset s) \<le> next_offset r"
      "pr_items r = map wire_of (segment (poll_topics i) (max (from_offset i) (baseOffset s)) (next_offset r) s)"
      using r(2) unfolding exact_answer_def Let_def by auto
    then show ?thesis by (cases "max (from_offset i) (baseOffset s) = next_offset r") (auto simp: segment_def)
  next
    case False
    then have "next_offset r = stream_offset s" using r(2) by (simp add: exact_answer_def Let_def)
    then show ?thesis using l by (simp add: stream_offset_def)
  qed
  then show ?thesis using r by blast
qed

text \<open>
  (Error.) A poll for an offset that the log has not reached is answered when the stream drains: with no items and with the end of
  the log as the offset to go on from, before the one that was asked for.
\<close>

theorem future_poll_goes_back:
  assumes "stream_offset s < from_offset i" and "0 \<le> baseOffset s" and "draining s"
  shows "poll_ready i s \<and> (\<exists>r. poll_answer i s = Inr r \<and> pr_items r = [] \<and> next_offset r < from_offset i)"
proof -
  have "length (st_log s) \<le> nat (from_offset i - baseOffset s)" "baseOffset s \<le> from_offset i" using assms(1,2) by (simp_all add: stream_offset_def)
  then show ?thesis using assms by (simp add: poll_ready_def poll_answer_def Let_def)
qed

section \<open>The life of a stream\<close>

definition stream_ok :: "stream \<Rightarrow> bool" where
  "stream_ok s \<longleftrightarrow> 0 \<le> baseOffset s \<and> list_all (\<lambda>(t, p). wire_payload p) (st_log s) \<and> distinct (map fst (publisherSequences s)) \<and>
     fst ` set (publisherSequences s) = fst ` set (publisherLastSeen s)"

definition canonical_entry :: "log_entry \<Rightarrow> log_entry" where
  "canonical_entry e = (fst e, canonical_payload (snd e))"

lemma map_res_all: "\<forall>x \<in> set xs. f x = Inr (g x) \<Longrightarrow> map_res f xs = Inr (map g xs)"
  by (induction xs) simp_all

text \<open>Continue-as-new: the successor starts from the snapshot.\<close>

lemma successor_stream:
  assumes "stream_ok s"
  shows "new_WorkflowStream (Some (getState now ttl s)) = Inr
    \<lparr>st_log = map canonical_entry (st_log s), baseOffset = baseOffset s,
     publisherSequences = map (\<lambda>(pid, q, ts). (pid, q)) (active_publishers now ttl s),
     publisherLastSeen = map (\<lambda>(pid, q, ts). (pid, ts)) (active_publishers now ttl s), draining = False\<rparr>"
proof -
  let ?w = "\<lambda>(t, p). \<lparr>wi_topic = t, wi_data = encodePayloadWire p, wi_offset = 0\<rparr>"
  have "map_res (\<lambda>e. bind_res (decodePayloadWire (wi_data (?w e))) (\<lambda>d. Inr (wi_topic (?w e), d))) (st_log s) = Inr (map canonical_entry (st_log s))"
    using assms by (intro map_res_all) (auto simp: stream_ok_def list_all_iff wire_lossless canonical_entry_def)
  moreover have "map_res f (map h xs) = map_res (\<lambda>x. f (h x)) xs" for f :: "wire_item \<Rightarrow> js_error + log_entry" and h :: "log_entry \<Rightarrow> wire_item" and xs
    by (induction xs) simp_all
  ultimately show ?thesis by (simp add: new_WorkflowStream_def getState_def)
qed

end
