(* ===== verification/StreamClient.thy ===== *)
theory StreamClient
  imports WorkflowStreams ClientErrors
begin

text \<open>
  The client side of streams, \<^verbatim>\<open>contrib/workflow-streams/src/client.ts\<close>: values are buffered and sent in batches with a sequence number, a batch
  is sent again until it is confirmed or given up, and a subscriber follows the log from poll to poll. The flush in progress is the one
  whose signal is awaited: flushes are serialized by \<^verbatim>\<open>currentFlush\<close>. The clock is read once per step. Waiting between polls and
  the set-up of handles is left out; a subscriber yields payloads, which it may convert to values.
\<close>

section \<open>Publishing\<close>

record stream_client =
  publisherId :: string
  buffer :: "(string \<times> jsval) list"
  pending :: "publish_entry list option"
  pendingSeq :: int
  pendingStartedAt :: "int option"
  confirmed :: int
  flusherRunning :: bool
  flusherStopped :: bool
  flushRequested :: bool
  flusherError :: "js_error option"
  maxBatchSize :: "nat option"
  maxRetryDurationMs :: int

definition new_stream_client :: "string \<Rightarrow> nat option \<Rightarrow> int \<Rightarrow> stream_client" where
  "new_stream_client pid batch maxRetry =
     \<lparr>publisherId = pid, buffer = [], pending = None, pendingSeq = 0, pendingStartedAt = None, confirmed = 0, flusherRunning = False,
      flusherStopped = False, flushRequested = False, flusherError = None, maxBatchSize = batch, maxRetryDurationMs = maxRetry\<rparr>"

definition client_publish :: "string \<Rightarrow> jsval \<Rightarrow> bool \<Rightarrow> stream_client \<Rightarrow> stream_client" where
  "client_publish topic v forceFlush c =
     (let c1 = (if \<not> flusherRunning c \<and> \<not> flusherStopped c then c\<lparr>flusherRunning := True\<rparr> else c);
          c2 = c1\<lparr>buffer := buffer c1 @ [(topic, v)]\<rparr>
      in if forceFlush \<or> (case maxBatchSize c2 of None \<Rightarrow> False | Some n \<Rightarrow> n \<le> length (buffer c2)) then c2\<lparr>flushRequested := True\<rparr> else c2)"

type_synonym value_converter = "jsval \<Rightarrow> js_error + payload"

definition item_payload :: "value_converter \<Rightarrow> jsval \<Rightarrow> js_error + payload" where
  "item_payload conv v = (case isPayload v of Some p \<Rightarrow> Inr p | None \<Rightarrow> conv v)"

definition encodeBuffer :: "value_converter \<Rightarrow> (string \<times> jsval) list \<Rightarrow> js_error + publish_entry list" where
  "encodeBuffer conv es = map_res (\<lambda>(topic, v). bind_res (item_payload conv v) (\<lambda>p. Inr \<lparr>pe_topic = topic, pe_data = encodePayloadWire p\<rparr>)) es"

definition FlushTimeoutError :: "int \<Rightarrow> js_error" where
  "FlushTimeoutError ms = OtherError [(45, ''FlushTimeoutError''), Error_class] (''Flush retry exceeded maxRetryDuration ('' @ show_offset ms @
     ''ms). Pending batch dropped. If the signal was delivered, items are in the log. If not, they are lost.'') [] None"

definition is_FlushTimeoutError :: "js_error \<Rightarrow> bool" where
  "is_FlushTimeoutError e = (case e of OtherError cs m st c \<Rightarrow> (45, ''FlushTimeoutError'') \<in> set cs | _ \<Rightarrow> False)"

datatype flush_step = FlushIdle | FlushThrow js_error | FlushSend publish_input

text \<open>\<^verbatim>\<open>_doFlush\<close> up to the signal, and after it.\<close>

definition flush_begin :: "value_converter \<Rightarrow> int \<Rightarrow> stream_client \<Rightarrow> stream_client \<times> flush_step" where
  "flush_begin conv now c = (case pending c of
     Some batch \<Rightarrow>
       if (case pendingStartedAt c of None \<Rightarrow> False | Some t \<Rightarrow> now - t > maxRetryDurationMs c)
       then (c\<lparr>confirmed := pendingSeq c, pending := None, pendingSeq := 0, pendingStartedAt := None\<rparr>,
             FlushThrow (FlushTimeoutError (maxRetryDurationMs c)))
       else (c, FlushSend \<lparr>pi_items = batch, publisher_id = publisherId c, pi_sequence = pendingSeq c\<rparr>)
   | None \<Rightarrow>
       if buffer c = [] then (c, FlushIdle)
       else (case encodeBuffer conv (buffer c) of
               Inl e \<Rightarrow> (c\<lparr>buffer := []\<rparr>, FlushThrow e)
             | Inr batch \<Rightarrow>
                 (c\<lparr>buffer := [], pending := Some batch, pendingSeq := confirmed c + 1, pendingStartedAt := Some now\<rparr>,
                  FlushSend \<lparr>pi_items = batch, publisher_id = publisherId c, pi_sequence = confirmed c + 1\<rparr>)))"

definition flush_sent :: "publish_input \<Rightarrow> stream_client \<Rightarrow> stream_client" where
  "flush_sent i c = c\<lparr>confirmed := pi_sequence i, pending := None, pendingSeq := 0, pendingStartedAt := None\<rparr>"

text \<open>A whole flush, with the service and the clock as parameters.\<close>

record 'w stream_service =
  sv_now :: "'w \<Rightarrow> int"
  sv_signal :: "publish_input \<Rightarrow> 'w \<Rightarrow> 'w \<times> (js_error + unit)"

definition doFlush :: "value_converter \<Rightarrow> 'w stream_service \<Rightarrow> stream_client \<Rightarrow> 'w \<Rightarrow> (stream_client \<times> 'w) \<times> (js_error + unit)" where
  "doFlush conv sv c w = (case flush_begin conv (sv_now sv w) c of
     (c', FlushIdle) \<Rightarrow> ((c', w), Inr ())
   | (c', FlushThrow e) \<Rightarrow> ((c', w), Inl e)
   | (c', FlushSend i) \<Rightarrow> (case sv_signal sv i w of
       (w', Inl e) \<Rightarrow> ((c', w'), Inl e)
     | (w', Inr _) \<Rightarrow> ((flush_sent i c', w'), Inr ())))"

definition throwPendingFlusherError :: "stream_client \<Rightarrow> stream_client \<times> (js_error + unit)" where
  "throwPendingFlusherError c = (case flusherError c of None \<Rightarrow> (c, Inr ()) | Some e \<Rightarrow> (c\<lparr>flusherError := None\<rparr>, Inl e))"

definition flush_target :: "stream_client \<Rightarrow> int option" where
  "flush_target c = (if pending c = None \<and> buffer c = [] then None
     else let baseSeq = (if pending c \<noteq> None then pendingSeq c else confirmed c)
          in Some (if buffer c \<noteq> [] then baseSeq + 1 else baseSeq))"

partial_function (option) flush_loop ::
  "value_converter \<Rightarrow> 'w stream_service \<Rightarrow> int \<Rightarrow> stream_client \<Rightarrow> 'w \<Rightarrow> ((stream_client \<times> 'w) \<times> (js_error + unit)) option" where
  "flush_loop conv sv target c w =
     (if confirmed c < target then
        (case doFlush conv sv c w of
           ((c', w'), Inl e) \<Rightarrow> Some ((c', w'), Inl e)
         | ((c', w'), Inr _) \<Rightarrow> flush_loop conv sv target c' w')
      else Some ((c, w), Inr ()))"

definition and_flusher_error :: "(stream_client \<times> 'w) \<times> (js_error + unit) \<Rightarrow> (stream_client \<times> 'w) \<times> (js_error + unit)" where
  "and_flusher_error r = (case r of
     ((c, w), Inl e) \<Rightarrow> ((c, w), Inl e)
   | ((c, w), Inr _) \<Rightarrow> (let (c', r') = throwPendingFlusherError c in ((c', w), r')))"

definition flush :: "value_converter \<Rightarrow> 'w stream_service \<Rightarrow> stream_client \<Rightarrow> 'w \<Rightarrow> ((stream_client \<times> 'w) \<times> (js_error + unit)) option" where
  "flush conv sv c w = (case throwPendingFlusherError c of
     (c', Inl e) \<Rightarrow> Some ((c', w), Inl e)
   | (c', Inr _) \<Rightarrow> (case flush_target c' of
       None \<Rightarrow> Some ((c', w), Inr ())
     | Some target \<Rightarrow> map_option and_flusher_error (flush_loop conv sv target c' w)))"

text \<open>A round of the background flusher; the second component says whether it goes on.\<close>

definition flusher_round :: "value_converter \<Rightarrow> 'w stream_service \<Rightarrow> stream_client \<Rightarrow> 'w \<Rightarrow> (stream_client \<times> 'w) \<times> bool" where
  "flusher_round conv sv c w =
     (let c1 = c\<lparr>flushRequested := False\<rparr> in
      if flusherStopped c1 then ((c1, w), False)
      else (case doFlush conv sv c1 w of
              ((c', w'), Inr _) \<Rightarrow> ((c', w'), True)
            | ((c', w'), Inl e) \<Rightarrow> if is_FlushTimeoutError e then ((c'\<lparr>flusherError := Some e\<rparr>, w'), False) else ((c', w'), True)))"

partial_function (option) drain_loop ::
  "value_converter \<Rightarrow> 'w stream_service \<Rightarrow> stream_client \<Rightarrow> 'w \<Rightarrow> ((stream_client \<times> 'w) \<times> (js_error + unit)) option" where
  "drain_loop conv sv c w =
     (if pending c \<noteq> None \<or> buffer c \<noteq> [] then
        (case doFlush conv sv c w of
           ((c', w'), Inl e) \<Rightarrow> Some ((c', w'), Inl e)
         | ((c', w'), Inr _) \<Rightarrow> drain_loop conv sv c' w')
      else Some ((c, w), Inr ()))"

text \<open>\<^verbatim>\<open>Symbol.asyncDispose\<close>; the task of the flusher ends at its next look at the flag.\<close>

definition dispose :: "value_converter \<Rightarrow> 'w stream_service \<Rightarrow> stream_client \<Rightarrow> 'w \<Rightarrow> ((stream_client \<times> 'w) \<times> (js_error + unit)) option" where
  "dispose conv sv c w =
     (if \<not> flusherRunning c then Some (and_flusher_error (doFlush conv sv c w))
      else map_option and_flusher_error (drain_loop conv sv (c\<lparr>flusherStopped := True, flushRequested := False, flusherRunning := False\<rparr>) w))"

section \<open>Subscribing\<close>

record subscription =
  su_topics :: "string list"
  su_offset :: int

definition followContinueAsNew :: "bool \<Rightarrow> string option \<Rightarrow> bool" where
  "followContinueAsNew hasClient status \<longleftrightarrow> hasClient \<and> status = Some ''CONTINUED_AS_NEW''"

definition isInTerminalState :: "string option \<Rightarrow> bool" where
  "isInTerminalState status \<longleftrightarrow> status \<in> Some ` {''COMPLETED'', ''FAILED'', ''CANCELLED'', ''TERMINATED'', ''TIMED_OUT''}"

text \<open>
  A round of the loop: what is yielded, and whether the loop goes on from an offset, ends or throws. \<open>status\<close> is the status of
  the polled run, when it can be described.
\<close>

datatype round_end = GoOn int | EndOfStream | RoundThrows client_error

definition failure_type :: "js_error option \<Rightarrow> string option" where
  "failure_type e = (case e of
     Some (TemporalFailure (ApplicationFailure t n d x y) m st c f) \<Rightarrow> t
   | _ \<Rightarrow> None)"

fun yield_items :: "wire_item list \<Rightarrow> (string \<times> payload \<times> int) list \<times> js_error option" where
  "yield_items [] = ([], None)"
| "yield_items (i # is) = (case decodePayloadWire (wi_data i) of
     Inl e \<Rightarrow> ([], Some e)
   | Inr p \<Rightarrow> (let (ys, r) = yield_items is in ((wi_topic i, p, wi_offset i) # ys, r)))"

definition subscribe_round ::
  "bool \<Rightarrow> string option \<Rightarrow> subscription \<Rightarrow> client_error + poll_result \<Rightarrow> (string \<times> payload \<times> int) list \<times> round_end" where
  "subscribe_round hasClient status su r = (case r of
     Inr res \<Rightarrow> (case yield_items (pr_items res) of
         (ys, Some e) \<Rightarrow> (ys, RoundThrows (Thrown e))
       | (ys, None) \<Rightarrow> (ys, GoOn (next_offset res)))
   | Inl err \<Rightarrow> ([], (case err of
       WorkflowUpdateFailedError m cause \<Rightarrow>
         if failure_type cause = Some ''TruncatedOffset'' then GoOn 0
         else if failure_type cause = Some ''StreamDraining'' then GoOn (su_offset su)
         else if failure_type cause = Some ''AcceptedUpdateCompletedWorkflow''
         then (if followContinueAsNew hasClient status then GoOn (su_offset su) else EndOfStream)
         else RoundThrows err
     | WorkflowUpdateRPCTimeoutOrCancelledError m c \<Rightarrow>
         if followContinueAsNew hasClient status then GoOn (su_offset su) else EndOfStream
     | WorkflowNotFoundError m wid rid \<Rightarrow>
         if followContinueAsNew hasClient status then GoOn (su_offset su)
         else if isInTerminalState status then EndOfStream else RoundThrows err
     | _ \<Rightarrow> RoundThrows err)))"

section \<open>What is lost\<close>

text \<open>
  (Error.) A value that cannot be converted takes the batch with it: the buffer is emptied before it is encoded, the background flusher
  takes the error for a passing one, and a later \<^verbatim>\<open>flush\<close> finds nothing to send and reports success.
\<close>

theorem failed_conversion_loses_batch:
  assumes "pending c = None" and "buffer c \<noteq> []" and "encodeBuffer conv (buffer c) = Inl e" and "\<not> is_FlushTimeoutError e"
    and "\<not> flusherStopped c" and "flusherError c = None"
  shows "\<exists>c'. flusher_round conv sv c w = ((c', w), True) \<and> buffer c' = [] \<and> pending c' = None \<and> flush conv sv c' w = Some ((c', w), Inr ())"
  using assms by (auto simp: flusher_round_def doFlush_def flush_begin_def flush_def throwPendingFlusherError_def flush_target_def Let_def)

text \<open>
  (Error.) A call of \<^verbatim>\<open>flush\<close> that waits for a batch which another flush has dropped never returns: with nothing pending and nothing
  buffered the loop goes round without advancing the sequence number.
\<close>

theorem dropped_batch_keeps_flush_waiting:
  assumes "pending c = None" and "buffer c = []" and "confirmed c < target"
  shows "flush_loop conv sv target c w = None"
proof (rule ccontr)
  let ?P = "\<lambda>conv sv target c w z. \<not> (pending c = None \<and> buffer c = [] \<and> confirmed c < target)"
  assume "flush_loop conv sv target c w \<noteq> None"
  then obtain z where z: "flush_loop conv sv target c w = Some z" by blast
  have "?P conv sv target c w z"
  proof (rule flush_loop.raw_induct [where P = ?P, OF _ z], rule notI)
    fix loop conv and sv :: "'a stream_service" and target c w z
    assume IH: "\<And>conv sv target c w z. loop conv sv target c w = Some z \<Longrightarrow> ?P conv sv target c w z"
      and body: "(if confirmed c < target then
        (case doFlush conv sv c w of
           ((c', w'), Inl e) \<Rightarrow> Some ((c', w'), Inl e)
         | ((c', w'), Inr _) \<Rightarrow> loop conv sv target c' w')
      else Some ((c, w), Inr ())) = Some z"
      and c: "pending c = None \<and> buffer c = [] \<and> confirmed c < target"
    then have "doFlush conv sv c w = ((c, w), Inr ())" by (simp add: doFlush_def flush_begin_def)
    then have "loop conv sv target c w = Some z" using body c by simp
    then show False using IH c by blast
  qed
  then show False using assms by simp
qed

end
