(* ===== verification/StreamDelivery.thy ===== *)
theory StreamDelivery
  imports StreamClient
begin

text \<open>
  A publisher and a stream together: the client of \<open>StreamClient\<close>, the signals on their way, the stream of \<open>WorkflowStreams\<close>. A signal that
  was sent may reach the service at any later time, also after the client took it for failed, or never; the service acknowledges a
  signal it has, keeps signals in the order of their arrival and hands them to the workflow. The workflow may continue as new at any time, other
  publishers and the workflow itself publish too, and the log may be truncated. All read the same clock.
\<close>

section \<open>The system\<close>

record system =
  sy_client :: stream_client
  sy_waiting :: "publish_input option"
  sy_inflight :: "(publish_input \<times> int) list"
  sy_queue :: "(publish_input \<times> int) list"
  sy_stream :: stream
  sy_now :: int
  sy_made :: "(publish_input \<times> int) list"
  sy_committed :: "publish_input list"
  sy_acked :: "publish_input list"
  sy_accepted :: "(publish_input \<times> int) list"
  sy_trace :: "(bool \<times> log_entry) list"

text \<open>
  The last five fields are history: the batches with the times they were made, the signals the service got and acknowledged, the batches
  the workflow accepted and when, and everything that was ever appended to the log, with a mark on what came from this client.
\<close>

definition new_entries :: "stream \<Rightarrow> stream \<Rightarrow> log_entry list" where
  "new_entries s s' = drop (length (st_log s)) (st_log s')"

definition marked :: "bool \<Rightarrow> log_entry list \<Rightarrow> (bool \<times> log_entry) list" where
  "marked b es = map (\<lambda>e. (b, e)) es"

definition batch_result :: "publish_input \<Rightarrow> js_error + log_entry list" where
  "batch_result i = map_res (\<lambda>e. bind_res (decodePayloadWire (pe_data e)) (\<lambda>p. Inr (pe_topic e, p))) (pi_items i)"

definition batch_entries :: "publish_input \<Rightarrow> log_entry list" where
  "batch_entries i = (case batch_result i of Inr es \<Rightarrow> es | Inl _ \<Rightarrow> [])"

definition start_system :: "string \<Rightarrow> nat option \<Rightarrow> int \<Rightarrow> system \<Rightarrow> bool" where
  "start_system pid batch maxRetry y \<longleftrightarrow> pid \<noteq> [] \<and> sy_client y = new_stream_client pid batch maxRetry \<and> sy_waiting y = None \<and> sy_inflight y = [] \<and> sy_queue y = [] \<and>
     new_WorkflowStream None = Inr (sy_stream y) \<and> sy_made y = [] \<and> sy_committed y = [] \<and> sy_acked y = [] \<and> sy_accepted y = [] \<and> sy_trace y = []"

text \<open>
  \<open>ttl\<close> is the time after which the workflow forgets a publisher when it continues as new, \<open>delay\<close> the longest time from the sending of a signal to
  its handling by the workflow.
\<close>

inductive system_step :: "value_converter \<Rightarrow> int \<Rightarrow> int \<Rightarrow> system \<Rightarrow> system \<Rightarrow> bool" for conv ttl delay where
  publish: "(\<And>p. item_payload conv v = Inr p \<Longrightarrow> wire_payload p) \<Longrightarrow>
    system_step conv ttl delay y (y\<lparr>sy_client := client_publish topic v force (sy_client y)\<rparr>)"
| send: "sy_waiting y = None \<Longrightarrow> flush_begin conv (sy_now y) (sy_client y) = (c, FlushSend i) \<Longrightarrow>
    system_step conv ttl delay y (y\<lparr>sy_client := c, sy_waiting := Some i, sy_inflight := sy_inflight y @ [(i, sy_now y)],
      sy_made := (if pending (sy_client y) = None then sy_made y @ [(i, sy_now y)] else sy_made y)\<rparr>)"
| flush_throws: "sy_waiting y = None \<Longrightarrow> flush_begin conv (sy_now y) (sy_client y) = (c, FlushThrow e) \<Longrightarrow>
    system_step conv ttl delay y (y\<lparr>sy_client := c\<rparr>)"
| arrive: "sy_inflight y = xs @ (i, t) # zs \<Longrightarrow>
    system_step conv ttl delay y (y\<lparr>sy_inflight := xs @ zs, sy_queue := sy_queue y @ [(i, t)], sy_committed := i # sy_committed y\<rparr>)"
| acknowledge: "sy_waiting y = Some i \<Longrightarrow> i \<in> set (sy_committed y) \<Longrightarrow>
    system_step conv ttl delay y (y\<lparr>sy_client := flush_sent i (sy_client y), sy_waiting := None, sy_acked := i # sy_acked y\<rparr>)"
| send_fails: "system_step conv ttl delay y (y\<lparr>sy_waiting := None\<rparr>)"
| handle: "sy_queue y = (i, t) # q \<Longrightarrow> sy_now y \<le> t + delay \<Longrightarrow> onPublish (sy_now y) i (sy_stream y) = (s, r) \<Longrightarrow>
    system_step conv ttl delay y (y\<lparr>sy_queue := q, sy_stream := s,
      sy_accepted := (if pi_sequence i > last_sequence (sy_stream y) (publisher_id i) then sy_accepted y @ [(i, sy_now y)] else sy_accepted y),
      sy_trace := sy_trace y @ marked True (new_entries (sy_stream y) s)\<rparr>)"
| other_signal: "publisher_id i \<noteq> publisherId (sy_client y) \<Longrightarrow> onPublish (sy_now y) i (sy_stream y) = (s, r) \<Longrightarrow>
    list_all (\<lambda>(t, p). wire_payload p) (new_entries (sy_stream y) s) \<Longrightarrow>
    system_step conv ttl delay y (y\<lparr>sy_stream := s, sy_trace := sy_trace y @ marked False (new_entries (sy_stream y) s)\<rparr>)"
| workflow_publish: "publishToTopic sv topic v (sy_stream y) = (s, r) \<Longrightarrow> list_all (\<lambda>(t, p). wire_payload p) (new_entries (sy_stream y) s) \<Longrightarrow>
    system_step conv ttl delay y (y\<lparr>sy_stream := s, sy_trace := sy_trace y @ marked False (new_entries (sy_stream y) s)\<rparr>)"
| truncates: "truncate_log n (sy_stream y) = (s, r) \<Longrightarrow> system_step conv ttl delay y (y\<lparr>sy_stream := s\<rparr>)"
| time_passes: "sy_now y \<le> t \<Longrightarrow> system_step conv ttl delay y (y\<lparr>sy_now := t\<rparr>)"
| continues_as_new: "new_WorkflowStream (Some (getState (sy_now y) ttl (detachPollers (sy_stream y)))) = Inr s \<Longrightarrow>
    system_step conv ttl delay y (y\<lparr>sy_stream := s\<rparr>)"

section \<open>Batches\<close>

lemma canonical_proto: "encodePayloadProto (canonical_payload p) = encodePayloadProto p"
  by (simp add: encodePayloadProto_def canonical_payload_def split: option.splits)

lemma canonical_wire: "wire_payload p \<Longrightarrow> wire_payload (canonical_payload p)"
  by (simp add: wire_payload_def canonical_proto) (simp add: canonical_payload_def split: option.splits)

lemma canonical_idem [simp]: "canonical_entry (canonical_entry e) = canonical_entry e"
  by (simp add: canonical_entry_def canonical_payload_def)

definition good_batch :: "publish_input \<Rightarrow> bool" where
  "good_batch i \<longleftrightarrow> batch_result i = Inr (batch_entries i) \<and> list_all (\<lambda>(t, p). wire_payload p) (batch_entries i)"

lemma encoded_batch_good:
  assumes "encodeBuffer conv es = Inr batch" and "\<forall>(t, v) \<in> set es. \<forall>p. item_payload conv v = Inr p \<longrightarrow> wire_payload p"
  shows "good_batch \<lparr>pi_items = batch, publisher_id = pid, pi_sequence = q\<rparr>"
proof -
  have "\<exists>r. map_res (\<lambda>e. bind_res (decodePayloadWire (pe_data e)) (\<lambda>p. Inr (pe_topic e, p))) batch = Inr r \<and> list_all (\<lambda>(t, p). wire_payload p) r"
    using assms unfolding encodeBuffer_def
  proof (induction es arbitrary: batch)
    case (Cons e es)
    obtain t v where e: "e = (t, v)" by force
    then obtain p b where p: "item_payload conv v = Inr p" "batch = \<lparr>pe_topic = t, pe_data = encodePayloadWire p\<rparr> # b"
        "map_res (\<lambda>(topic, v). bind_res (item_payload conv v) (\<lambda>p. Inr \<lparr>pe_topic = topic, pe_data = encodePayloadWire p\<rparr>)) es = Inr b"
      using Cons.prems(1) by (auto simp: bind_res_Inr_iff)
    have "wire_payload p" using Cons.prems(2) e p(1) by auto
    moreover obtain r where "map_res (\<lambda>e. bind_res (decodePayloadWire (pe_data e)) (\<lambda>p. Inr (pe_topic e, p))) b = Inr r" "list_all (\<lambda>(t, p). wire_payload p) r"
      using Cons.IH [OF p(3)] Cons.prems(2) by auto
    ultimately show ?case using p(2) by (simp add: wire_lossless canonical_wire)
  qed simp
  then show ?thesis by (auto simp: good_batch_def batch_entries_def batch_result_def)
qed

lemma push_result:
  "map_res (\<lambda>e. bind_res (decodePayloadWire (pe_data e)) (\<lambda>p. Inr (pe_topic e, p))) es = Inr r \<Longrightarrow>
   push_entries es s = (s\<lparr>st_log := st_log s @ r\<rparr>, Inr ())"
proof (induction es arbitrary: s r)
  case (Cons e es)
  then obtain p r' where "decodePayloadWire (pe_data e) = Inr p" "r = (pe_topic e, p) # r'"
      "map_res (\<lambda>e. bind_res (decodePayloadWire (pe_data e)) (\<lambda>p. Inr (pe_topic e, p))) es = Inr r'"
    by (auto simp: bind_res_Inr_iff)
  then show ?case using Cons.IH by simp
qed simp

lemma push_good: "good_batch i \<Longrightarrow> push_entries (pi_items i) s = (s\<lparr>st_log := st_log s @ batch_entries i\<rparr>, Inr ())"
  using push_result [of "pi_items i"] by (simp add: good_batch_def batch_result_def)

lemma push_extends: "push_entries es s = (s', r) \<Longrightarrow> \<exists>xs. s' = s\<lparr>st_log := st_log s @ xs\<rparr>"
proof (induction es arbitrary: s)
  case Nil
  then show ?case by (intro exI [of _ "[]"]) simp
next
  case (Cons e es)
  show ?case
  proof (cases "decodePayloadWire (pe_data e)")
    case (Inl err)
    then show ?thesis using Cons.prems by (intro exI [of _ "[]"]) simp
  next
    case (Inr p)
    then obtain xs where "s' = s\<lparr>st_log := (st_log s @ [(pe_topic e, p)]) @ xs\<rparr>" using Cons.IH [of "s\<lparr>st_log := st_log s @ [(pe_topic e, p)]\<rparr>"] Cons.prems by auto
    then show ?thesis by auto
  qed
qed

section \<open>The table of publishers\<close>

definition seen_at :: "stream \<Rightarrow> string \<Rightarrow> int" where
  "seen_at s pid = (case js_get (publisherLastSeen s) pid of None \<Rightarrow> 0 | Some ts \<Rightarrow> ts)"

lemma active_get:
  assumes "distinct (map fst (publisherSequences s))"
  shows "js_get (map (\<lambda>(pid, q, ts). (pid, q)) (active_publishers now ttl s)) k =
      (if now - seen_at s k < ttl then js_get (publisherSequences s) k else None)"
    and "js_get (map (\<lambda>(pid, q, ts). (pid, ts)) (active_publishers now ttl s)) k =
      (if now - seen_at s k < ttl \<and> js_get (publisherSequences s) k \<noteq> None then Some (seen_at s k) else None)"
proof -
  have "js_get (map (\<lambda>(pid, q, ts). (pid, q)) (filter (\<lambda>(pid, q, ts). now - ts < ttl) (map (\<lambda>(pid, q). (pid, q, seen_at s pid)) l))) k =
      (if now - seen_at s k < ttl then js_get l k else None) \<and>
    js_get (map (\<lambda>(pid, q, ts). (pid, ts)) (filter (\<lambda>(pid, q, ts). now - ts < ttl) (map (\<lambda>(pid, q). (pid, q, seen_at s pid)) l))) k =
      (if now - seen_at s k < ttl \<and> js_get l k \<noteq> None then Some (seen_at s k) else None)"
    if "distinct (map fst l)" for l
    using that
  proof (induction l)
    case (Cons e l)
    obtain p q where "e = (p, q)" by force
    then show ?case using Cons by (auto simp: js_get_def)
  qed (simp add: js_get_def)
  from this [OF assms] show "js_get (map (\<lambda>(pid, q, ts). (pid, q)) (active_publishers now ttl s)) k =
      (if now - seen_at s k < ttl then js_get (publisherSequences s) k else None)"
    and "js_get (map (\<lambda>(pid, q, ts). (pid, ts)) (active_publishers now ttl s)) k =
      (if now - seen_at s k < ttl \<and> js_get (publisherSequences s) k \<noteq> None then Some (seen_at s k) else None)"
    by (simp_all add: active_publishers_def seen_at_def case_prod_unfold)
qed

lemma active_keys:
  assumes "distinct (map fst (publisherSequences s))"
  shows "distinct (map fst (map (\<lambda>(pid, q, ts). (pid, q)) (active_publishers now ttl s)))"
    and "fst ` set (map (\<lambda>(pid, q, ts). (pid, q)) (active_publishers now ttl s)) = fst ` set (map (\<lambda>(pid, q, ts). (pid, ts)) (active_publishers now ttl s))"
proof -
  have "distinct (map fst (map (\<lambda>(pid, q). (pid, q, seen_at s pid)) (publisherSequences s)))" using assms by (simp add: o_def case_prod_unfold)
  then have "distinct (map fst (active_publishers now ttl s))"
    by (simp add: active_publishers_def seen_at_def distinct_map_filter case_prod_unfold)
  then show "distinct (map fst (map (\<lambda>(pid, q, ts). (pid, q)) (active_publishers now ttl s)))" by (simp add: o_def case_prod_unfold)
  show "fst ` set (map (\<lambda>(pid, q, ts). (pid, q)) (active_publishers now ttl s)) = fst ` set (map (\<lambda>(pid, q, ts). (pid, ts)) (active_publishers now ttl s))"
    by (simp add: image_image case_prod_unfold)
qed

section \<open>What the operations of the stream do to a publisher and to the log\<close>

lemma onPublish_ours:
  assumes "good_batch i" and "publisher_id i \<noteq> []"
  shows "onPublish now i s =
    (if pi_sequence i > last_sequence s (publisher_id i)
     then (s\<lparr>publisherSequences := js_set (publisherSequences s) (publisher_id i) (pi_sequence i),
             publisherLastSeen := js_set (publisherLastSeen s) (publisher_id i) now, st_log := st_log s @ batch_entries i\<rparr>, Inr ())
     else (s, Inr ()))"
  using assms by (simp add: onPublish_def push_good)

definition keys_ok :: "stream \<Rightarrow> bool" where
  "keys_ok s \<longleftrightarrow> distinct (map fst (publisherSequences s)) \<and> fst ` set (publisherSequences s) = fst ` set (publisherLastSeen s)"

lemma stream_ok_keys: "stream_ok s \<longleftrightarrow> 0 \<le> baseOffset s \<and> list_all (\<lambda>(t, p). wire_payload p) (st_log s) \<and> keys_ok s"
  by (simp add: stream_ok_def keys_ok_def)

lemma keys_ok_simps:
  "keys_ok (s\<lparr>st_log := l\<rparr>) = keys_ok s" "keys_ok (s\<lparr>baseOffset := b\<rparr>) = keys_ok s"
  "keys_ok s \<Longrightarrow> keys_ok (s\<lparr>publisherSequences := js_set (publisherSequences s) k v, publisherLastSeen := js_set (publisherLastSeen s) k w\<rparr>)"
  by (simp_all add: keys_ok_def js_set_distinct js_keys_set)

text \<open>An operation that appends entries and does not touch what is known of a publisher.\<close>

definition appends :: "string \<Rightarrow> stream \<Rightarrow> stream \<Rightarrow> bool" where
  "appends pid s s' \<longleftrightarrow> (\<exists>xs. st_log s' = st_log s @ xs) \<and> baseOffset s' = baseOffset s \<and>
     js_get (publisherSequences s') pid = js_get (publisherSequences s) pid \<and> js_get (publisherLastSeen s') pid = js_get (publisherLastSeen s) pid \<and>
     (keys_ok s \<longrightarrow> keys_ok s')"

lemma onPublish_other:
  assumes "onPublish now i s = (s', r)" and "publisher_id i \<noteq> pid"
  shows "appends pid s s'"
proof (cases "publisher_id i \<noteq> [] \<and> pi_sequence i \<le> last_sequence s (publisher_id i)")
  case True
  then show ?thesis using assms by (auto simp: onPublish_def appends_def keys_ok_simps)
next
  case False
  define s0 where "s0 = (if publisher_id i \<noteq> [] then s\<lparr>publisherSequences := js_set (publisherSequences s) (publisher_id i) (pi_sequence i),
     publisherLastSeen := js_set (publisherLastSeen s) (publisher_id i) now\<rparr> else s)"
  then have "push_entries (pi_items i) s0 = (s', r)" using assms(1) False by (auto simp: onPublish_def split: if_splits)
  then obtain xs where "s' = s0\<lparr>st_log := st_log s0 @ xs\<rparr>" using push_extends by blast
  then show ?thesis using assms(2) by (auto simp: appends_def s0_def keys_ok_simps)
qed

lemma publishToTopic_appends: "publishToTopic sv topic v s = (s', r) \<Longrightarrow> appends pid s s'"
  by (auto simp: publishToTopic_def appends_def keys_ok_simps split: sum.splits)

section \<open>The log\<close>

definition log_inv :: "system \<Rightarrow> bool" where
  "log_inv y \<longleftrightarrow> stream_ok (sy_stream y) \<and> baseOffset (sy_stream y) \<le> int (length (sy_trace y)) \<and>
     map canonical_entry (st_log (sy_stream y)) = map canonical_entry (map snd (drop (nat (baseOffset (sy_stream y))) (sy_trace y)))"

lemma log_inv_append:
  assumes "log_inv y" and "st_log s = st_log (sy_stream y) @ xs" and "baseOffset s = baseOffset (sy_stream y)" and "keys_ok s"
    and "list_all (\<lambda>(t, p). wire_payload p) xs" and "sy_stream y' = s" and "sy_trace y' = sy_trace y @ marked b xs"
  shows "log_inv y'"
  using assms by (auto simp: log_inv_def stream_ok_keys marked_def o_def)

lemma new_entries_append: "st_log s' = st_log s @ xs \<Longrightarrow> new_entries s s' = xs"
  by (simp add: new_entries_def)

lemma log_inv_appends:
  assumes "log_inv y" and "appends pid (sy_stream y) s" and "list_all (\<lambda>(t, p). wire_payload p) (new_entries (sy_stream y) s)"
    and "sy_stream y' = s" and "sy_trace y' = sy_trace y @ marked b (new_entries (sy_stream y) s)"
  shows "log_inv y'"
proof -
  obtain xs where xs: "st_log s = st_log (sy_stream y) @ xs" using assms(2) by (auto simp: appends_def)
  have "keys_ok s" using assms(1,2) by (simp add: appends_def log_inv_def stream_ok_keys)
  then show ?thesis
    using assms xs by (intro log_inv_append [OF assms(1) xs, of y' b]) (simp_all add: appends_def new_entries_append [OF xs])
qed

lemma log_inv_truncate:
  assumes "log_inv y" and "truncate_log n (sy_stream y) = (s, r)"
  shows "log_inv (y\<lparr>sy_stream := s\<rparr>)"
proof (cases "n - baseOffset (sy_stream y) \<le> 0 \<or> n - baseOffset (sy_stream y) > int (length (st_log (sy_stream y)))")
  case True
  then have "s = sy_stream y" using assms(2) by (auto simp: truncate_log_def Let_def split: if_splits)
  then show ?thesis using assms(1) by (simp add: log_inv_def)
next
  case False
  let ?s = "sy_stream y"
  have s: "s = ?s\<lparr>st_log := drop (nat (n - baseOffset ?s)) (st_log ?s), baseOffset := n\<rparr>"
    using assms(2) False by (auto simp: truncate_log_def Let_def)
  have m: "map canonical_entry (st_log ?s) = map canonical_entry (map snd (drop (nat (baseOffset ?s)) (sy_trace y)))"
    "0 \<le> baseOffset ?s" "baseOffset ?s \<le> int (length (sy_trace y))" "stream_ok ?s"
    using assms(1) by (simp_all add: log_inv_def stream_ok_def)
  from arg_cong [OF m(1), of length] have len: "length (st_log ?s) = length (sy_trace y) - nat (baseOffset ?s)" by simp
  have n: "nat (n - baseOffset ?s) + nat (baseOffset ?s) = nat n" using False m(2) by linarith
  have "drop (nat (n - baseOffset ?s)) (map canonical_entry (st_log ?s)) =
      drop (nat (n - baseOffset ?s)) (map canonical_entry (map snd (drop (nat (baseOffset ?s)) (sy_trace y))))" by (simp only: m(1))
  then have "map canonical_entry (st_log s) = map canonical_entry (map snd (drop (nat n) (sy_trace y)))"
    by (simp only: drop_map drop_drop n) (simp add: s drop_map)
  moreover have "list_all (\<lambda>(t, p). wire_payload p) (drop k (st_log ?s))" for k
    using m(4) in_set_dropD by (fastforce simp: stream_ok_def list_all_iff)
  ultimately show ?thesis using m False len by (auto simp: log_inv_def stream_ok_keys s keys_ok_simps)
qed

lemma stream_ok_detach: "stream_ok (detachPollers s) = stream_ok s"
  by (simp add: stream_ok_def detachPollers_def)

lemma log_inv_successor:
  assumes "log_inv y" and "new_WorkflowStream (Some (getState now ttl (detachPollers (sy_stream y)))) = Inr s"
  shows "log_inv (y\<lparr>sy_stream := s\<rparr>)"
proof -
  have ok: "stream_ok (detachPollers (sy_stream y))" using assms(1) by (simp add: stream_ok_detach log_inv_def)
  then have "distinct (map fst (publisherSequences (detachPollers (sy_stream y))))" by (simp add: stream_ok_def)
  note keys = active_keys [OF this, of now ttl]
  have "list_all (\<lambda>(t, p). wire_payload p) (map canonical_entry (st_log (sy_stream y)))"
    using ok by (auto simp: stream_ok_def detachPollers_def list_all_iff canonical_entry_def canonical_wire)
  then show ?thesis
    using assms successor_stream [OF ok, of now ttl] keys ok by (auto simp: log_inv_def stream_ok_keys keys_ok_def detachPollers_def)
qed

section \<open>The client\<close>

definition current :: "stream_client \<Rightarrow> int" where
  "current c = (if pending c \<noteq> None then pendingSeq c else confirmed c)"

definition the_batch :: "stream_client \<Rightarrow> publish_entry list \<Rightarrow> publish_input" where
  "the_batch c b = \<lparr>pi_items = b, publisher_id = publisherId c, pi_sequence = pendingSeq c\<rparr>"

definition client_ok :: "value_converter \<Rightarrow> system \<Rightarrow> bool" where
  "client_ok conv y \<longleftrightarrow> (let c = sy_client y in
     publisherId c \<noteq> [] \<and> 0 \<le> confirmed c \<and> 0 \<le> maxRetryDurationMs c \<and>
     (\<forall>(t, v) \<in> set (buffer c). \<forall>p. item_payload conv v = Inr p \<longrightarrow> wire_payload p) \<and>
     (\<forall>b. pending c = Some b \<longrightarrow> pendingSeq c = confirmed c + 1 \<and>
        (\<exists>t. pendingStartedAt c = Some t \<and> (the_batch c b, t) \<in> set (sy_made y))) \<and>
     (\<forall>i. sy_waiting y = Some i \<longrightarrow> (\<exists>b. pending c = Some b \<and> i = the_batch c b)))"

definition batches_ok :: "system \<Rightarrow> bool" where
  "batches_ok y \<longleftrightarrow> sorted_wrt (<) (map (\<lambda>(i, t). pi_sequence i) (sy_made y)) \<and>
     (\<forall>(i, t) \<in> set (sy_made y). publisher_id i = publisherId (sy_client y) \<and> good_batch i \<and> 0 < pi_sequence i \<and>
        pi_sequence i \<le> current (sy_client y) \<and> t \<le> sy_now y)"

text \<open>A signal was not sent later than the time for retries after any batch from its own on was made.\<close>

definition timely :: "system \<Rightarrow> publish_input \<Rightarrow> int \<Rightarrow> bool" where
  "timely y i t \<longleftrightarrow> i \<in> fst ` set (sy_made y) \<and> t \<le> sy_now y \<and>
     (\<forall>(j, u) \<in> set (sy_made y). pi_sequence i \<le> pi_sequence j \<longrightarrow> t \<le> u + maxRetryDurationMs (sy_client y))"

definition signals_ok :: "system \<Rightarrow> bool" where
  "signals_ok y \<longleftrightarrow> (\<forall>(i, t) \<in> set (sy_inflight y) \<union> set (sy_queue y). timely y i t) \<and>
     set (sy_committed y) \<subseteq> fst ` set (sy_made y) \<and> fst ` set (sy_queue y) \<subseteq> set (sy_committed y)"

definition sending_inv :: "value_converter \<Rightarrow> system \<Rightarrow> bool" where
  "sending_inv conv y \<longleftrightarrow> client_ok conv y \<and> batches_ok y \<and> signals_ok y"

lemma batch_unique:
  assumes "sorted_wrt (<) (map (\<lambda>(i, t). pi_sequence i) xs)" and "(i, t) \<in> set xs" "(j, u) \<in> set xs" "pi_sequence i = pi_sequence j"
  shows "i = j \<and> t = u"
proof -
  have "inj_on (\<lambda>(i, t). pi_sequence i) (set xs)" using assms(1) by (simp add: strict_sorted_iff distinct_map)
  from inj_onD [OF this _ assms(2,3)] show ?thesis using assms(4) by simp
qed

lemma client_publish_fields:
  "buffer (client_publish t v f c) = buffer c @ [(t, v)]" "pending (client_publish t v f c) = pending c"
  "pendingSeq (client_publish t v f c) = pendingSeq c" "pendingStartedAt (client_publish t v f c) = pendingStartedAt c"
  "confirmed (client_publish t v f c) = confirmed c" "publisherId (client_publish t v f c) = publisherId c"
  "maxRetryDurationMs (client_publish t v f c) = maxRetryDurationMs c"
  by (simp_all add: client_publish_def Let_def)

lemma sending_publish:
  assumes "sending_inv conv y" and "\<And>p. item_payload conv v = Inr p \<Longrightarrow> wire_payload p"
  shows "sending_inv conv (y\<lparr>sy_client := client_publish topic v force (sy_client y)\<rparr>)"
  using assms by (auto simp: sending_inv_def client_ok_def batches_ok_def signals_ok_def timely_def current_def the_batch_def client_publish_fields Let_def)

lemma sending_same:
  assumes "sending_inv conv y" and "sy_client y' = sy_client y" "sy_waiting y' = sy_waiting y \<or> sy_waiting y' = None" "sy_made y' = sy_made y"
    "sy_now y \<le> sy_now y'" "set (sy_inflight y') \<union> set (sy_queue y') \<subseteq> set (sy_inflight y) \<union> set (sy_queue y)"
    "set (sy_committed y') \<subseteq> fst ` set (sy_made y)" "fst ` set (sy_queue y') \<subseteq> set (sy_committed y')"
  shows "sending_inv conv y'"
proof -
  have "client_ok conv y'" using assms(1-4) by (auto simp: sending_inv_def client_ok_def Let_def)
  moreover have "batches_ok y'" using assms(1,2,4,5) by (fastforce simp: sending_inv_def batches_ok_def)
  moreover have "timely y' i t" if "timely y i t" for i t using that assms(2,4,5) by (auto simp: timely_def)
  then have "signals_ok y'" using assms(1,4,6-8) by (fastforce simp: sending_inv_def signals_ok_def)
  ultimately show ?thesis by (simp add: sending_inv_def)
qed

lemma sending_arrive:
  assumes "sending_inv conv y" and "sy_inflight y = xs @ (i, t) # zs"
  shows "sending_inv conv (y\<lparr>sy_inflight := xs @ zs, sy_queue := sy_queue y @ [(i, t)], sy_committed := i # sy_committed y\<rparr>)"
proof (rule sending_same [OF assms(1)])
  have "i \<in> fst ` set (sy_made y)" using assms by (auto simp: sending_inv_def signals_ok_def timely_def)
  then show "set (sy_committed (y\<lparr>sy_inflight := xs @ zs, sy_queue := sy_queue y @ [(i, t)], sy_committed := i # sy_committed y\<rparr>)) \<subseteq> fst ` set (sy_made y)"
    using assms(1) by (auto simp: sending_inv_def signals_ok_def)
  show "fst ` set (sy_queue (y\<lparr>sy_inflight := xs @ zs, sy_queue := sy_queue y @ [(i, t)], sy_committed := i # sy_committed y\<rparr>)) \<subseteq>
      set (sy_committed (y\<lparr>sy_inflight := xs @ zs, sy_queue := sy_queue y @ [(i, t)], sy_committed := i # sy_committed y\<rparr>))"
    using assms(1) by (auto simp: sending_inv_def signals_ok_def)
qed (use assms(2) in auto)

lemma sending_retry:
  assumes "sending_inv conv y" and "sy_waiting y = None" and "pending (sy_client y) \<noteq> None" and "flush_begin conv (sy_now y) (sy_client y) = (c, FlushSend i)"
  shows "c = sy_client y" and "sending_inv conv (y\<lparr>sy_waiting := Some i, sy_inflight := sy_inflight y @ [(i, sy_now y)]\<rparr>)"
proof -
  obtain b where b: "pending (sy_client y) = Some b" using assms(3) by blast
  have i: "i = the_batch (sy_client y) b" and c: "c = sy_client y"
    and fresh: "\<And>t. pendingStartedAt (sy_client y) = Some t \<Longrightarrow> sy_now y - t \<le> maxRetryDurationMs (sy_client y)"
    using assms(4) b by (auto simp: flush_begin_def the_batch_def split: if_splits option.splits)
  show "c = sy_client y" by (rule c)
  obtain t where t: "pendingStartedAt (sy_client y) = Some t" "(i, t) \<in> set (sy_made y)"
    using assms(1) b i by (auto simp: sending_inv_def client_ok_def Let_def)
  have seq: "pi_sequence i = current (sy_client y)" by (simp add: i the_batch_def current_def b)
  have "sy_now y \<le> u + maxRetryDurationMs (sy_client y)" if "(j, u) \<in> set (sy_made y)" "pi_sequence i \<le> pi_sequence j" for j u
  proof -
    have "pi_sequence j = pi_sequence i" using that assms(1) seq by (fastforce simp: sending_inv_def batches_ok_def)
    moreover have "sorted_wrt (<) (map (\<lambda>(i, t). pi_sequence i) (sy_made y))" using assms(1) by (simp add: sending_inv_def batches_ok_def)
    ultimately have "u = t" using batch_unique [OF _ that(1) t(2)] by simp
    then show ?thesis using fresh [OF t(1)] by simp
  qed
  moreover have "i \<in> fst ` set (sy_made y)" by (rule image_eqI [OF _ t(2)]) simp
  ultimately have "timely y i (sy_now y)" by (auto simp: timely_def)
  then show "sending_inv conv (y\<lparr>sy_waiting := Some i, sy_inflight := sy_inflight y @ [(i, sy_now y)]\<rparr>)"
    using assms(1) b i by (auto simp: sending_inv_def client_ok_def batches_ok_def signals_ok_def timely_def Let_def)
qed

lemma sending_new:
  assumes "sending_inv conv y" and "sy_waiting y = None" and "pending (sy_client y) = None" and "flush_begin conv (sy_now y) (sy_client y) = (c, FlushSend i)"
  shows "sending_inv conv (y\<lparr>sy_client := c, sy_waiting := Some i, sy_inflight := sy_inflight y @ [(i, sy_now y)], sy_made := sy_made y @ [(i, sy_now y)]\<rparr>)"
    (is "sending_inv conv ?y")
    and "current c = current (sy_client y) + 1" and "pi_sequence i = current c" and "publisherId c = publisherId (sy_client y)"
proof -
  obtain b where b: "encodeBuffer conv (buffer (sy_client y)) = Inr b" "buffer (sy_client y) \<noteq> []"
    and c: "c = (sy_client y)\<lparr>buffer := [], pending := Some b, pendingSeq := confirmed (sy_client y) + 1, pendingStartedAt := Some (sy_now y)\<rparr>"
    and i: "i = \<lparr>pi_items = b, publisher_id = publisherId (sy_client y), pi_sequence = confirmed (sy_client y) + 1\<rparr>"
    using assms(3,4) by (auto simp: flush_begin_def split: if_splits sum.splits)
  show cur: "current c = current (sy_client y) + 1" "pi_sequence i = current c" "publisherId c = publisherId (sy_client y)"
    using assms(3) by (simp_all add: current_def c i)
  have old: "client_ok conv y" "batches_ok y" "signals_ok y" using assms(1) by (simp_all add: sending_inv_def)
  have "good_batch i"
    unfolding i using old(1) by (intro encoded_batch_good [OF b(1)]) (auto simp: client_ok_def Let_def)
  moreover have conf: "0 \<le> confirmed (sy_client y)" "current (sy_client y) = confirmed (sy_client y)" "0 \<le> maxRetryDurationMs (sy_client y)"
    using old(1) assms(3) by (simp_all add: client_ok_def Let_def current_def)
  moreover have before: "pi_sequence j \<le> confirmed (sy_client y)" if "(j, u) \<in> set (sy_made y)" for j u
    using old(2) that conf(2) by (auto simp: batches_ok_def)
  then have "sorted_wrt (<) (map (\<lambda>(i, t). pi_sequence i) (sy_made y @ [(i, sy_now y)]))"
    using old(2) by (auto simp: batches_ok_def sorted_wrt_append i)
  ultimately have "batches_ok ?y"
    using old(2) by (auto simp: batches_ok_def i c current_def)
  moreover have "client_ok conv ?y" using old(1) by (simp add: client_ok_def Let_def c i the_batch_def)
  moreover have delivery_kept: "timely ?y j t" if "timely y j t" for j t
    using that conf(3) by (auto simp: timely_def c)
  have new: "timely ?y i (sy_now y)"
    using conf(3) by (auto simp: timely_def c i dest!: before)
  have "timely y j t" if "(j, t) \<in> set (sy_inflight y) \<or> (j, t) \<in> set (sy_queue y)" for j t
    using old(3) that unfolding signals_ok_def by blast
  then have "\<forall>(j, t) \<in> set (sy_inflight ?y) \<union> set (sy_queue ?y). timely ?y j t" using delivery_kept new by auto
  then have "signals_ok ?y" using old(3) by (auto simp: signals_ok_def)
  ultimately show "sending_inv conv ?y" by (simp add: sending_inv_def)
qed

lemma sending_throw:
  assumes "sending_inv conv y" and "sy_waiting y = None" and "flush_begin conv (sy_now y) (sy_client y) = (c, FlushThrow e)"
  shows "sending_inv conv (y\<lparr>sy_client := c\<rparr>)" and "current c = current (sy_client y)" and "publisherId c = publisherId (sy_client y)"
proof -
  have old: "client_ok conv y" "batches_ok y" "signals_ok y" using assms(1) by (simp_all add: sending_inv_def)
  have "0 \<le> pendingSeq (sy_client y)" if "pending (sy_client y) \<noteq> None" using that old(1) by (auto simp: client_ok_def Let_def)
  then have c: "current c = current (sy_client y)" "pending c = None" "buffer c = [] \<or> buffer c = buffer (sy_client y)" "0 \<le> confirmed c"
    "maxRetryDurationMs c = maxRetryDurationMs (sy_client y)" "publisherId c = publisherId (sy_client y)"
    using assms(3) old(1) by (auto simp: flush_begin_def current_def client_ok_def Let_def split: if_splits option.splits sum.splits)
  then show "current c = current (sy_client y)" "publisherId c = publisherId (sy_client y)" by simp_all
  have "\<forall>(t, v) \<in> set (buffer c). \<forall>p. item_payload conv v = Inr p \<longrightarrow> wire_payload p"
    using c(3) old(1) by (elim disjE) (simp_all add: client_ok_def Let_def)
  then have "client_ok conv (y\<lparr>sy_client := c\<rparr>)" using old(1) c assms(2) by (simp add: client_ok_def Let_def)
  moreover have "batches_ok (y\<lparr>sy_client := c\<rparr>)" using old(2) c by (auto simp: batches_ok_def)
  moreover have "signals_ok (y\<lparr>sy_client := c\<rparr>)" using old(3) c by (auto simp: signals_ok_def timely_def)
  ultimately show "sending_inv conv (y\<lparr>sy_client := c\<rparr>)" by (simp add: sending_inv_def)
qed

lemma sending_ack:
  assumes "sending_inv conv y" and "sy_waiting y = Some i"
  shows "sending_inv conv (y\<lparr>sy_client := flush_sent i (sy_client y), sy_waiting := None, sy_acked := a\<rparr>)" (is "sending_inv conv ?y")
    and "pi_sequence i = current (sy_client y)" and "current (flush_sent i (sy_client y)) = current (sy_client y)"
proof -
  have old: "client_ok conv y" "batches_ok y" "signals_ok y" using assms(1) by (simp_all add: sending_inv_def)
  then obtain b where b: "pending (sy_client y) = Some b" "i = the_batch (sy_client y) b" "pendingSeq (sy_client y) = confirmed (sy_client y) + 1"
    "0 \<le> confirmed (sy_client y)"
    using assms(2) by (auto simp: client_ok_def Let_def)
  then show cur: "pi_sequence i = current (sy_client y)" "current (flush_sent i (sy_client y)) = current (sy_client y)"
    by (simp_all add: current_def the_batch_def flush_sent_def)
  have "client_ok conv ?y" using old(1) b by (auto simp: client_ok_def Let_def flush_sent_def the_batch_def)
  moreover have "publisherId (flush_sent i (sy_client y)) = publisherId (sy_client y)" by (simp add: flush_sent_def)
  then have "batches_ok ?y" using old(2) cur by (simp add: batches_ok_def)
  moreover have "signals_ok ?y" using old(3) by (auto simp: signals_ok_def timely_def flush_sent_def)
  ultimately show "sending_inv conv ?y" by (simp add: sending_inv_def)
qed

section \<open>Acceptance\<close>

text \<open>The sequence numbers that are accepted when a queue is handled, after one that was accepted last.\<close>

fun accepts :: "int \<Rightarrow> int list \<Rightarrow> int list" where
  "accepts m [] = []"
| "accepts m (q # qs) = (if q > m then q # accepts q qs else accepts m qs)"

lemma accepts_append: "set (accepts m qs) \<subseteq> set (accepts m (qs @ rs))"
  by (induction qs arbitrary: m) auto

lemma accepts_new: "m < q \<Longrightarrow> \<forall>r \<in> set qs. r < q \<Longrightarrow> q \<in> set (accepts m (qs @ [q]))"
  by (induction qs arbitrary: m) auto

lemma accepts_member: "m < q \<Longrightarrow> q \<in> set qs \<Longrightarrow> \<forall>r \<in> set qs. r \<le> q \<Longrightarrow> q \<in> set (accepts m qs)"
  by (induction qs arbitrary: m) (auto, force)

definition last_accepted :: "system \<Rightarrow> int" where
  "last_accepted y = (if sy_accepted y = [] then 0 else pi_sequence (fst (last (sy_accepted y))))"

definition queued :: "system \<Rightarrow> int list" where
  "queued y = map (\<lambda>(i, t). pi_sequence i) (sy_queue y)"

definition settled :: "system \<Rightarrow> int set" where
  "settled y = (\<lambda>(i, t). pi_sequence i) ` set (sy_accepted y) \<union> set (accepts (last_accepted y) (queued y))"

definition table_ok :: "int \<Rightarrow> system \<Rightarrow> bool" where
  "table_ok ttl y \<longleftrightarrow> (let s = sy_stream y; pid = publisherId (sy_client y) in
     if sy_accepted y = [] then js_get (publisherSequences s) pid = None
     else (js_get (publisherSequences s) pid = Some (last_accepted y) \<and> js_get (publisherLastSeen s) pid = Some (snd (last (sy_accepted y)))) \<or>
          (js_get (publisherSequences s) pid = None \<and> snd (last (sy_accepted y)) + ttl \<le> sy_now y))"

definition accepted_ok :: "system \<Rightarrow> bool" where
  "accepted_ok y \<longleftrightarrow> sorted_wrt (<) (map (\<lambda>(i, t). pi_sequence i) (sy_accepted y)) \<and>
     (\<forall>(i, t) \<in> set (sy_accepted y). \<exists>u. (i, u) \<in> set (sy_made y) \<and> u \<le> t) \<and>
     map snd (filter fst (sy_trace y)) = concat (map (\<lambda>(i, t). batch_entries i) (sy_accepted y))"

definition acks_ok :: "system \<Rightarrow> bool" where
  "acks_ok y \<longleftrightarrow> set (sy_acked y) \<subseteq> set (sy_committed y) \<and> pi_sequence ` set (sy_acked y) \<subseteq> settled y \<and>
     (\<forall>i \<in> set (sy_committed y). pi_sequence i = current (sy_client y) \<longrightarrow> pi_sequence i \<in> settled y)"

definition system_inv :: "value_converter \<Rightarrow> int \<Rightarrow> system \<Rightarrow> bool" where
  "system_inv conv ttl y \<longleftrightarrow> sending_inv conv y \<and> log_inv y \<and> table_ok ttl y \<and> accepted_ok y \<and> acks_ok y"

lemma inv_frame:
  assumes "system_inv conv ttl y" and "sending_inv conv y'" "log_inv y'" "table_ok ttl y'"
    and "sy_accepted y' = sy_accepted y" "sy_queue y' = sy_queue y" "sy_committed y' = sy_committed y" "sy_acked y' = sy_acked y"
    and "current (sy_client y') = current (sy_client y)" "filter fst (sy_trace y') = filter fst (sy_trace y)" "set (sy_made y) \<subseteq> set (sy_made y')"
  shows "system_inv conv ttl y'"
proof -
  have "settled y' = settled y" using assms(5,6) by (simp add: settled_def last_accepted_def queued_def)
  then have "acks_ok y'" using assms by (simp add: system_inv_def acks_ok_def)
  moreover have "accepted_ok y'" using assms(1,5,10,11) by (fastforce simp: system_inv_def accepted_ok_def)
  ultimately show ?thesis using assms(2-4) by (simp add: system_inv_def)
qed

lemma table_same:
  assumes "table_ok ttl y" and "sy_accepted y' = sy_accepted y" "publisherId (sy_client y') = publisherId (sy_client y)" "sy_now y \<le> sy_now y'"
    and "js_get (publisherSequences (sy_stream y')) (publisherId (sy_client y)) = js_get (publisherSequences (sy_stream y)) (publisherId (sy_client y))"
    and "js_get (publisherLastSeen (sy_stream y')) (publisherId (sy_client y)) = js_get (publisherLastSeen (sy_stream y)) (publisherId (sy_client y))"
  shows "table_ok ttl y'"
  using assms by (auto simp: table_ok_def last_accepted_def Let_def)

lemma sequences_bounded:
  assumes "sending_inv conv y" and "accepted_ok y"
  shows "(i, t) \<in> set (sy_queue y) \<Longrightarrow> pi_sequence i \<le> current (sy_client y)"
    and "i \<in> set (sy_committed y) \<Longrightarrow> 0 < pi_sequence i \<and> pi_sequence i \<le> current (sy_client y)"
    and "(i, t) \<in> set (sy_accepted y) \<Longrightarrow> pi_sequence i \<le> current (sy_client y)"
    and "(i, t) \<in> set (sy_inflight y) \<Longrightarrow> 0 < pi_sequence i \<and> pi_sequence i \<le> current (sy_client y)"
proof -
  have made: "0 < pi_sequence i \<and> pi_sequence i \<le> current (sy_client y)" if "(i, u) \<in> set (sy_made y)" for i u
    using assms(1) that by (auto simp: sending_inv_def batches_ok_def)
  then have made': "0 < pi_sequence i \<and> pi_sequence i \<le> current (sy_client y)" if "i \<in> fst ` set (sy_made y)" for i using that by force
  have sub: "set (sy_committed y) \<subseteq> fst ` set (sy_made y)" "fst ` set (sy_queue y) \<subseteq> set (sy_committed y)"
    and timely: "\<And>i t. (i, t) \<in> set (sy_inflight y) \<Longrightarrow> timely y i t"
    using assms(1) unfolding sending_inv_def signals_ok_def by blast+
  show "i \<in> set (sy_committed y) \<Longrightarrow> 0 < pi_sequence i \<and> pi_sequence i \<le> current (sy_client y)" for i using sub(1) made' by blast
  have "i \<in> fst ` set (sy_made y)" if "(i, t) \<in> set (sy_queue y)" using image_eqI [OF _ that, of i fst] sub by auto
  then show "(i, t) \<in> set (sy_queue y) \<Longrightarrow> pi_sequence i \<le> current (sy_client y)" using made' by blast
  show "pi_sequence i \<le> current (sy_client y)" if "(i, t) \<in> set (sy_accepted y)"
    using assms(2) made that unfolding accepted_ok_def by blast
  show "0 < pi_sequence i \<and> pi_sequence i \<le> current (sy_client y)" if "(i, t) \<in> set (sy_inflight y)"
    using timely [OF that] made' unfolding timely_def by blast
qed

lemma last_accepted_member: "sy_accepted y \<noteq> [] \<Longrightarrow> last_accepted y \<in> (\<lambda>(i, t). pi_sequence i) ` set (sy_accepted y)"
  using last_in_set [of "sy_accepted y"] unfolding last_accepted_def
  by (intro image_eqI [of _ _ "last (sy_accepted y)"]) (simp_all add: case_prod_unfold)

lemma arrive_inv:
  assumes "system_inv conv ttl y" and "sy_inflight y = xs @ (i, t) # zs"
  shows "system_inv conv ttl (y\<lparr>sy_inflight := xs @ zs, sy_queue := sy_queue y @ [(i, t)], sy_committed := i # sy_committed y\<rparr>)" (is "system_inv conv ttl ?y")
proof -
  have old: "sending_inv conv y" "accepted_ok y" "acks_ok y" "log_inv y" "table_ok ttl y" using assms(1) by (simp_all add: system_inv_def)
  note bound = sequences_bounded [OF old(1,2)]
  have grows: "settled y \<subseteq> settled ?y"
    using accepts_append [of "last_accepted y" "queued y" "[pi_sequence i]"] by (auto simp: settled_def last_accepted_def queued_def)
  have i: "0 < pi_sequence i" "pi_sequence i \<le> current (sy_client y)" using bound(4) [of i t] assms(2) by auto
  have new: "pi_sequence i \<in> settled ?y" if cur: "pi_sequence i = current (sy_client y)"
  proof (cases "pi_sequence i \<in> (\<lambda>(i, t). pi_sequence i) ` set (sy_accepted y)")
    case False
    have "last_accepted y < pi_sequence i"
    proof (cases "sy_accepted y = []")
      case ne: False
      then have "last_accepted y \<noteq> pi_sequence i" using last_accepted_member [OF ne] False by auto
      moreover have "last_accepted y \<le> current (sy_client y)" using last_accepted_member [OF ne] bound(3) by fastforce
      ultimately show ?thesis using cur by simp
    qed (simp add: last_accepted_def i)
    then have "pi_sequence i \<in> set (accepts (last_accepted y) (queued y @ [pi_sequence i]))"
      using bound(1) cur by (intro accepts_member) (auto simp: queued_def)
    moreover have "last_accepted ?y = last_accepted y" "queued ?y = queued y @ [pi_sequence i]" by (simp_all add: last_accepted_def queued_def)
    ultimately show ?thesis by (simp add: settled_def)
  qed (auto simp: settled_def)
  have "acks_ok ?y" using old(3) grows new by (auto simp: acks_ok_def)
  moreover have "table_ok ttl ?y" using old(5) by (rule table_same) simp_all
  ultimately show ?thesis using sending_arrive [OF old(1) assms(2)] old by (simp add: system_inv_def log_inv_def accepted_ok_def)
qed

lemma ack_inv:
  assumes "system_inv conv ttl y" and "sy_waiting y = Some i" and "i \<in> set (sy_committed y)"
  shows "system_inv conv ttl (y\<lparr>sy_client := flush_sent i (sy_client y), sy_waiting := None, sy_acked := i # sy_acked y\<rparr>)" (is "system_inv conv ttl ?y")
proof -
  have old: "sending_inv conv y" "accepted_ok y" "acks_ok y" "log_inv y" "table_ok ttl y" using assms(1) by (simp_all add: system_inv_def)
  note sent = sending_ack [OF old(1) assms(2)]
  have "settled ?y = settled y" by (simp add: settled_def last_accepted_def queued_def)
  then have "acks_ok ?y" using old(3) assms(3) sent(2,3) by (auto simp: acks_ok_def)
  moreover have "table_ok ttl ?y" using old(5) by (rule table_same) (simp_all add: flush_sent_def)
  ultimately show ?thesis using sent(1) old by (simp add: system_inv_def log_inv_def accepted_ok_def)
qed

lemma send_inv:
  assumes "system_inv conv ttl y" and "sy_waiting y = None" and "flush_begin conv (sy_now y) (sy_client y) = (c, FlushSend i)"
  shows "system_inv conv ttl (y\<lparr>sy_client := c, sy_waiting := Some i, sy_inflight := sy_inflight y @ [(i, sy_now y)],
      sy_made := (if pending (sy_client y) = None then sy_made y @ [(i, sy_now y)] else sy_made y)\<rparr>)" (is "system_inv conv ttl ?y")
proof (cases "pending (sy_client y) = None")
  case False
  have old: "sending_inv conv y" "log_inv y" "table_ok ttl y" using assms(1) by (simp_all add: system_inv_def)
  note r = sending_retry [OF old(1) assms(2) False assms(3)]
  have "sending_inv conv ?y" using r(2) by (simp add: r(1) False)
  then show ?thesis
    using old(2) by (intro inv_frame [OF assms(1)] table_same [OF old(3)]) (simp_all add: log_inv_def r(1) False)
next
  case True
  have old: "sending_inv conv y" "accepted_ok y" "acks_ok y" "log_inv y" "table_ok ttl y" using assms(1) by (simp_all add: system_inv_def)
  note n = sending_new [OF old(1) assms(2) True assms(3)]
  have "settled ?y = settled y" by (simp add: settled_def last_accepted_def queued_def)
  then have "acks_ok ?y" using old(3) n(2) sequences_bounded(2) [OF old(1,2)] by (force simp: acks_ok_def)
  moreover have "accepted_ok ?y" using old(2) by (fastforce simp: accepted_ok_def)
  moreover have "table_ok ttl ?y" using old(5) by (rule table_same) (simp_all add: n(4))
  ultimately show ?thesis using n(1) True old(4) by (simp add: system_inv_def log_inv_def)
qed

lemma acks_grow:
  assumes "acks_ok y" and "settled y \<subseteq> settled y'" "sy_acked y' = sy_acked y" "sy_committed y' = sy_committed y" "sy_client y' = sy_client y"
  shows "acks_ok y'"
proof -
  have "set (sy_acked y) \<subseteq> set (sy_committed y)" "pi_sequence ` set (sy_acked y) \<subseteq> settled y'"
    "\<And>i. i \<in> set (sy_committed y) \<Longrightarrow> pi_sequence i = current (sy_client y) \<Longrightarrow> pi_sequence i \<in> settled y'"
    using assms(1,2) by (auto simp: acks_ok_def)
  then show ?thesis by (simp add: acks_ok_def assms(3-5))
qed

lemma accepted_below: "accepted_ok y \<Longrightarrow> (i, t) \<in> set (sy_accepted y) \<Longrightarrow> pi_sequence i \<le> last_accepted y"
proof -
  assume a: "accepted_ok y" "(i, t) \<in> set (sy_accepted y)"
  then obtain xs x where xs: "sy_accepted y = xs @ [x]" by (cases "sy_accepted y" rule: rev_cases) auto
  then show "pi_sequence i \<le> last_accepted y"
    using a by (cases x) (auto simp: accepted_ok_def last_accepted_def sorted_wrt_append intro: less_imp_le)
qed

text \<open>
  The decision of the workflow is that of one that never forgets: a publisher is forgotten only when no copy of a batch it has accepted can still arrive.
\<close>

lemma decision:
  assumes "system_inv conv ttl y" and "maxRetryDurationMs (sy_client y) + delay < ttl" and "(i, t) \<in> set (sy_queue y)" and "sy_now y \<le> t + delay"
  shows "pi_sequence i > last_sequence (sy_stream y) (publisherId (sy_client y)) \<longleftrightarrow> pi_sequence i > last_accepted y"
proof (cases "sy_accepted y = []")
  case True
  then show ?thesis using assms(1) by (simp add: system_inv_def table_ok_def Let_def last_sequence_def last_accepted_def)
next
  case False
  obtain j a where j: "last (sy_accepted y) = (j, a)" by force
  have "(j, a) \<in> set (sy_accepted y)" using last_in_set [OF False] j by simp
  then obtain u where u: "(j, u) \<in> set (sy_made y)" "u \<le> a" using assms(1) unfolding system_inv_def accepted_ok_def by blast
  have m: "last_accepted y = pi_sequence j" using False j by (simp add: last_accepted_def)
  have tm: "timely y i t" using assms(1,3) unfolding system_inv_def sending_inv_def signals_ok_def by blast
  have "0 < pi_sequence i"
  proof -
    have "i \<in> fst ` set (sy_made y)" using tm by (simp add: timely_def)
    then show ?thesis using assms(1) unfolding system_inv_def sending_inv_def batches_ok_def by force
  qed
  moreover have "pi_sequence i > pi_sequence j" if "a + ttl \<le> sy_now y"
  proof (rule ccontr)
    assume "\<not> pi_sequence i > pi_sequence j"
    then have "t \<le> u + maxRetryDurationMs (sy_client y)" using tm u(1) by (auto simp: timely_def)
    then show False using assms(2,4) u(2) that by linarith
  qed
  ultimately show ?thesis
    using assms(1) False m j by (auto simp: system_inv_def table_ok_def Let_def last_sequence_def)
qed

lemma queue_batch:
  assumes "system_inv conv ttl y" and "(i, t) \<in> set (sy_queue y)"
  obtains u where "(i, u) \<in> set (sy_made y)" "u \<le> sy_now y" "publisher_id i = publisherId (sy_client y)" "good_batch i" "publisher_id i \<noteq> []"
proof -
  have "timely y i t" using assms unfolding system_inv_def sending_inv_def signals_ok_def by blast
  then obtain u where u: "(i, u) \<in> set (sy_made y)" by (auto simp: timely_def)
  moreover from this have "publisher_id i = publisherId (sy_client y)" "good_batch i" "u \<le> sy_now y"
    using assms(1) unfolding system_inv_def sending_inv_def batches_ok_def by blast+
  moreover have "publisherId (sy_client y) \<noteq> []" using assms(1) by (simp add: system_inv_def sending_inv_def client_ok_def Let_def)
  ultimately show thesis using that by auto
qed

lemma handled_sending:
  assumes "sending_inv conv y" and "sy_queue y = (i, t) # q" and "sy_client y' = sy_client y" "sy_waiting y' = sy_waiting y" "sy_made y' = sy_made y"
    "sy_now y' = sy_now y" "sy_inflight y' = sy_inflight y" "sy_queue y' = q" "sy_committed y' = sy_committed y"
  shows "sending_inv conv y'"
  using assms by (intro sending_same [OF assms(1)]) (auto simp: sending_inv_def signals_ok_def)

lemma handle_inv:
  assumes inv: "system_inv conv ttl y" and late: "maxRetryDurationMs (sy_client y) + delay < ttl" and q: "sy_queue y = (i, t) # q" and now: "sy_now y \<le> t + delay"
    and pub: "onPublish (sy_now y) i (sy_stream y) = (s, r)"
  shows "system_inv conv ttl (y\<lparr>sy_queue := q, sy_stream := s,
      sy_accepted := (if pi_sequence i > last_sequence (sy_stream y) (publisher_id i) then sy_accepted y @ [(i, sy_now y)] else sy_accepted y),
      sy_trace := sy_trace y @ marked True (new_entries (sy_stream y) s)\<rparr>)" (is "system_inv conv ttl ?y")
proof -
  have old: "sending_inv conv y" "accepted_ok y" "acks_ok y" "log_inv y" "table_ok ttl y" using inv by (simp_all add: system_inv_def)
  have mem: "(i, t) \<in> set (sy_queue y)" by (simp add: q)
  obtain u where u: "(i, u) \<in> set (sy_made y)" "u \<le> sy_now y" "publisher_id i = publisherId (sy_client y)" "good_batch i" "publisher_id i \<noteq> []"
    using queue_batch [OF inv mem] by blast
  note dec = decision [OF inv late mem now]
  have sending: "sending_inv conv ?y" by (rule handled_sending [OF old(1) q]) simp_all
  note on = onPublish_ours [OF u(4,5), of "sy_now y" "sy_stream y"]
  show ?thesis
  proof (cases "pi_sequence i > last_accepted y")
    case False
    then have s: "s = sy_stream y" "\<not> pi_sequence i > last_sequence (sy_stream y) (publisher_id i)" using pub on dec u(3) by auto
    then have y: "?y = y\<lparr>sy_queue := q\<rparr>" by (simp add: new_entries_def marked_def)
    have "settled (y\<lparr>sy_queue := q\<rparr>) = settled y" using False by (simp add: settled_def last_accepted_def queued_def q)
    then have "acks_ok (y\<lparr>sy_queue := q\<rparr>)" using old(3) by (simp add: acks_ok_def)
    moreover have "table_ok ttl (y\<lparr>sy_queue := q\<rparr>)" using old(5) by (rule table_same) simp_all
    ultimately show ?thesis using sending old(2,4) unfolding y by (simp add: system_inv_def log_inv_def accepted_ok_def)
  next
    case True
    then have acc: "pi_sequence i > last_sequence (sy_stream y) (publisher_id i)" using dec u(3) by simp
    then have s: "s = (sy_stream y)\<lparr>publisherSequences := js_set (publisherSequences (sy_stream y)) (publisher_id i) (pi_sequence i),
        publisherLastSeen := js_set (publisherLastSeen (sy_stream y)) (publisher_id i) (sy_now y), st_log := st_log (sy_stream y) @ batch_entries i\<rparr>"
      using pub on by simp
    have new: "new_entries (sy_stream y) s = batch_entries i" by (rule new_entries_append) (simp add: s)
    have accd: "sy_accepted ?y = sy_accepted y @ [(i, sy_now y)]" using acc by simp
    have la: "last_accepted ?y = pi_sequence i" unfolding last_accepted_def accd by simp
    have "keys_ok (sy_stream y)" using old(4) by (simp add: log_inv_def stream_ok_keys)
    then have "keys_ok s" unfolding s using keys_ok_simps by simp
    then have "log_inv ?y" using u(4) by (intro log_inv_append [OF old(4), of s "batch_entries i"]) (simp_all add: s good_batch_def new [unfolded s])
    moreover have "table_ok ttl ?y" unfolding table_ok_def Let_def accd la by (simp add: s u(3))
    moreover have "accepted_ok ?y"
      unfolding accepted_ok_def accd using old(2) u True accepted_below [OF old(2)]
      by (fastforce simp: accepted_ok_def sorted_wrt_append new marked_def o_def filter_map)
    moreover have "settled y \<subseteq> settled ?y" unfolding settled_def accd la using True by (auto simp: queued_def q)
    then have "acks_ok ?y" by (rule acks_grow [OF old(3)]) simp_all
    ultimately show ?thesis using sending by (simp add: system_inv_def)
  qed
qed

lemma table_successor:
  assumes "table_ok ttl y" and "log_inv y" and "new_WorkflowStream (Some (getState (sy_now y) ttl (detachPollers (sy_stream y)))) = Inr s"
  shows "table_ok ttl (y\<lparr>sy_stream := s\<rparr>)"
proof -
  let ?d = "detachPollers (sy_stream y)"
  have ok: "stream_ok ?d" using assms(2) by (simp add: stream_ok_detach log_inv_def)
  then have dist: "distinct (map fst (publisherSequences ?d))" by (simp add: stream_ok_def)
  have s: "publisherSequences s = map (\<lambda>(pid, q, ts). (pid, q)) (active_publishers (sy_now y) ttl ?d)"
    "publisherLastSeen s = map (\<lambda>(pid, q, ts). (pid, ts)) (active_publishers (sy_now y) ttl ?d)"
    using assms(3) successor_stream [OF ok, of "sy_now y" ttl] by auto
  have same: "publisherSequences ?d = publisherSequences (sy_stream y)" "publisherLastSeen ?d = publisherLastSeen (sy_stream y)"
    by (simp_all add: detachPollers_def)
  show ?thesis
    using assms(1) unfolding table_ok_def Let_def last_accepted_def
    by (auto simp: s active_get [OF dist] same seen_at_def split: if_splits)
qed

definition delivery_kept :: "value_converter \<Rightarrow> int \<Rightarrow> int \<Rightarrow> int \<Rightarrow> system \<Rightarrow> bool" where
  "delivery_kept conv maxRetry ttl delay y \<longleftrightarrow> (0 \<le> maxRetry \<and> maxRetry + delay < ttl \<longrightarrow> system_inv conv ttl y \<and> maxRetryDurationMs (sy_client y) = maxRetry)"

lemma system_start_inv:
  assumes "start_system pid n r y" and "0 \<le> r"
  shows "system_inv conv ttl y"
proof -
  have s: "sy_stream y = \<lparr>st_log = [], baseOffset = 0, publisherSequences = [], publisherLastSeen = [], draining = False\<rparr>"
    using assms(1) by (simp add: start_system_def new_WorkflowStream_def)
  have "log_inv y" "table_ok ttl y" using assms(1) by (simp_all add: start_system_def log_inv_def stream_ok_def table_ok_def s)
  then show ?thesis
    using assms by (simp add: start_system_def system_inv_def sending_inv_def client_ok_def batches_ok_def signals_ok_def new_stream_client_def
      accepted_ok_def acks_ok_def Let_def)
qed

lemma unmarked: "filter fst (marked False es) = []"
  by (simp add: marked_def filter_map o_def)

text \<open>A step that leaves the client and the signals alone.\<close>

lemma stream_inv:
  assumes "system_inv conv ttl y" and "sy_client y' = sy_client y" "sy_waiting y' = sy_waiting y \<or> sy_waiting y' = None" "sy_now y \<le> sy_now y'"
    and "sy_inflight y' = sy_inflight y" "sy_queue y' = sy_queue y" "sy_made y' = sy_made y" "sy_committed y' = sy_committed y"
    and "sy_acked y' = sy_acked y" "sy_accepted y' = sy_accepted y" "filter fst (sy_trace y') = filter fst (sy_trace y)"
    and "log_inv y'" "table_ok ttl y'"
  shows "system_inv conv ttl y'"
proof -
  have old: "sending_inv conv y" using assms(1) by (simp add: system_inv_def)
  have "sending_inv conv y'"
    using assms(2-8) old by (intro sending_same [OF old]) (auto simp: sending_inv_def signals_ok_def)
  then show ?thesis using assms by (intro inv_frame [OF assms(1)]) simp_all
qed

lemma append_inv:
  assumes "system_inv conv ttl y" and "appends (publisherId (sy_client y)) (sy_stream y) s"
    and "list_all (\<lambda>(t, p). wire_payload p) (new_entries (sy_stream y) s)"
  shows "system_inv conv ttl (y\<lparr>sy_stream := s, sy_trace := sy_trace y @ marked False (new_entries (sy_stream y) s)\<rparr>)" (is "system_inv conv ttl ?y")
proof -
  have old: "log_inv y" "table_ok ttl y" using assms(1) by (simp_all add: system_inv_def)
  have "log_inv ?y" by (rule log_inv_appends [OF old(1) assms(2,3)]) simp_all
  moreover have "table_ok ttl ?y" using assms(2) by (intro table_same [OF old(2)]) (simp_all add: appends_def)
  ultimately show ?thesis by (intro stream_inv [OF assms(1)]) (simp_all add: unmarked)
qed

lemma truncate_inv:
  assumes "system_inv conv ttl y" and "truncate_log n (sy_stream y) = (s, r)"
  shows "system_inv conv ttl (y\<lparr>sy_stream := s\<rparr>)"
proof -
  have old: "log_inv y" "table_ok ttl y" using assms(1) by (simp_all add: system_inv_def)
  have "publisherSequences s = publisherSequences (sy_stream y)" "publisherLastSeen s = publisherLastSeen (sy_stream y)"
    using assms(2) by (auto simp: truncate_log_def Let_def split: if_splits)
  then have "table_ok ttl (y\<lparr>sy_stream := s\<rparr>)" by (intro table_same [OF old(2)]) simp_all
  then show ?thesis using log_inv_truncate [OF old(1) assms(2)] by (intro stream_inv [OF assms(1)]) simp_all
qed

lemma publish_inv:
  assumes "system_inv conv ttl y" and "\<And>p. item_payload conv v = Inr p \<Longrightarrow> wire_payload p"
  shows "system_inv conv ttl (y\<lparr>sy_client := client_publish topic v force (sy_client y)\<rparr>)" (is "system_inv conv ttl ?y")
proof -
  have old: "sending_inv conv y" "log_inv y" "table_ok ttl y" using assms(1) by (simp_all add: system_inv_def)
  have "table_ok ttl ?y" by (rule table_same [OF old(3)]) (simp_all add: client_publish_fields)
  then show ?thesis
    using sending_publish [OF old(1) assms(2)] old(2) by (intro inv_frame [OF assms(1)]) (simp_all add: log_inv_def current_def client_publish_fields)
qed

lemma throw_inv:
  assumes "system_inv conv ttl y" and "sy_waiting y = None" and "flush_begin conv (sy_now y) (sy_client y) = (c, FlushThrow e)"
  shows "system_inv conv ttl (y\<lparr>sy_client := c\<rparr>)" (is "system_inv conv ttl ?y")
proof -
  have old: "sending_inv conv y" "log_inv y" "table_ok ttl y" using assms(1) by (simp_all add: system_inv_def)
  note t = sending_throw [OF old(1) assms(2,3)]
  have "table_ok ttl ?y" by (rule table_same [OF old(3)]) (simp_all add: t)
  then show ?thesis using t old(2) by (intro inv_frame [OF assms(1)]) (simp_all add: log_inv_def)
qed

lemma flush_begin_retry: "flush_begin conv now c = (c', f) \<Longrightarrow> maxRetryDurationMs c' = maxRetryDurationMs c"
  by (auto simp: flush_begin_def split: if_splits option.splits sum.splits)

lemma system_step_inv:
  assumes "system_step conv ttl delay y y'" and "system_inv conv ttl y" and late: "maxRetryDurationMs (sy_client y) + delay < ttl"
  shows "system_inv conv ttl y' \<and> maxRetryDurationMs (sy_client y') = maxRetryDurationMs (sy_client y)"
  using assms(1)
proof cases
  case (publish v topic force)
  then show ?thesis using publish_inv [OF assms(2)] by (simp add: client_publish_fields)
next
  case (send c i)
  then show ?thesis using send_inv [OF assms(2)] flush_begin_retry by simp
next
  case (flush_throws c e)
  then show ?thesis using throw_inv [OF assms(2)] flush_begin_retry by simp
next
  case (arrive xs i t zs)
  then show ?thesis using arrive_inv [OF assms(2)] by simp
next
  case (acknowledge i)
  then show ?thesis using ack_inv [OF assms(2)] by (simp add: flush_sent_def)
next
  case send_fails
  have "log_inv y'" "table_ok ttl y'" using assms(2) send_fails by (auto simp: system_inv_def log_inv_def intro: table_same [of ttl y])
  then show ?thesis using send_fails by (auto intro: stream_inv [OF assms(2)])
next
  case (handle i t q s r)
  then show ?thesis using handle_inv [OF assms(2) late handle(2-4)] by simp
next
  case (other_signal i s r)
  have "appends (publisherId (sy_client y)) (sy_stream y) s" using other_signal(2,3) by (intro onPublish_other)
  then show ?thesis using append_inv [OF assms(2)] other_signal by simp
next
  case (workflow_publish sv topic v s r)
  then show ?thesis using append_inv [OF assms(2)] publishToTopic_appends by simp
next
  case (truncates n s r)
  then show ?thesis using truncate_inv [OF assms(2)] by simp
next
  case (time_passes t)
  have "log_inv y'" "table_ok ttl y'" using assms(2) time_passes by (auto simp: system_inv_def log_inv_def intro: table_same [of ttl y])
  then show ?thesis using time_passes by (auto intro: stream_inv [OF assms(2)])
next
  case (continues_as_new s)
  have "log_inv y'" "table_ok ttl y'" using assms(2) continues_as_new log_inv_successor table_successor by (auto simp: system_inv_def)
  then show ?thesis using continues_as_new(1) by (auto intro: stream_inv [OF assms(2)])
qed

interpretation delivery: machine "start_system pid n r" "system_step conv ttl delay" "delivery_kept conv r ttl delay" for pid n r conv ttl delay
proof
  show "delivery_kept conv r ttl delay y" if "start_system pid n r y" for y
    using that system_start_inv [OF that] by (auto simp: delivery_kept_def start_system_def new_stream_client_def)
  show "delivery_kept conv r ttl delay y'" if "delivery_kept conv r ttl delay y" "system_step conv ttl delay y y'" for y y'
    using that(1) system_step_inv [OF that(2)] by (auto simp: delivery_kept_def)
qed

section \<open>Properties\<close>

text \<open>
  C4: (Safety.) Delivery is exactly once and in order. Whatever happens to the signals of a publisher - loss, delay, late arrival of an attempt that was given up,
  repeated sending - and whatever the stream does meanwhile, continue-as-new included: the entries of this publisher in the log are
  the batches the workflow accepted, one after the other, each accepted at most once and in the order they were made; every batch that was acknowledged is
  among them as soon as the signals that reached the service are handled; and the log is what was ever appended, from the base offset on. The time for
  retries and the longest delay of a signal together stay below the time for which the workflow remembers a publisher.
\<close>

theorem delivered_exactly_once:
  assumes "start_system pid n r y0" and "0 \<le> r" and "r + delay < ttl" and "(system_step conv ttl delay)\<^sup>*\<^sup>* y0 y"
  shows "map canonical_entry (st_log (sy_stream y)) = map canonical_entry (map snd (drop (nat (baseOffset (sy_stream y))) (sy_trace y))) \<and>
    map snd (filter fst (sy_trace y)) = concat (map (\<lambda>(i, t). batch_entries i) (sy_accepted y)) \<and>
    sorted_wrt (<) (map (\<lambda>(i, t). pi_sequence i) (sy_accepted y)) \<and>
    sorted_wrt (<) (map (\<lambda>(i, t). pi_sequence i) (sy_made y)) \<and> fst ` set (sy_accepted y) \<subseteq> fst ` set (sy_made y) \<and>
    (sy_queue y = [] \<longrightarrow> set (sy_acked y) \<subseteq> fst ` set (sy_accepted y))"
proof -
  have inv: "system_inv conv ttl y" using delivery.inv_reachable [OF assms(1,4)] assms(2,3) by (simp add: delivery_kept_def)
  then have made: "sorted_wrt (<) (map (\<lambda>(i, t). pi_sequence i) (sy_made y))" and log: "log_inv y" and acc: "accepted_ok y" and acks: "acks_ok y"
    by (simp_all add: system_inv_def sending_inv_def batches_ok_def)
  have sub: "i \<in> fst ` set (sy_made y)" if "i \<in> fst ` set (sy_accepted y)" for i
    using acc that by (force simp: accepted_ok_def)
  have "i \<in> fst ` set (sy_accepted y)" if i: "i \<in> set (sy_acked y)" and q: "sy_queue y = []" for i
  proof -
    have "pi_sequence i \<in> settled y" "i \<in> fst ` set (sy_made y)"
      using acks inv i by (auto simp: acks_ok_def system_inv_def sending_inv_def signals_ok_def)
    then obtain j t where j: "(j, t) \<in> set (sy_accepted y)" "pi_sequence j = pi_sequence i" using q by (auto simp: settled_def queued_def)
    then obtain u where "(j, u) \<in> set (sy_made y)" using sub [of j] by force
    moreover obtain v where "(i, v) \<in> set (sy_made y)" using \<open>i \<in> fst ` set (sy_made y)\<close> by force
    ultimately have "j = i" using batch_unique [OF made _ _ j(2)] by blast
    then show ?thesis using j(1) by force
  qed
  then show ?thesis using made log acc sub by (auto simp: log_inv_def accepted_ok_def)
qed

text \<open>A run in which one value is published, sent, acknowledged and accepted.\<close>

definition stream_payload_example :: payload where
  "stream_payload_example = \<lparr>metadata = Some [], data = Some ''a''\<rparr>"

definition example_conv :: value_converter where
  "example_conv v = Inr stream_payload_example"

definition example_batch :: publish_input where
  "example_batch = \<lparr>pi_items = [\<lparr>pe_topic = ''t'', pe_data = encodePayloadWire stream_payload_example\<rparr>], publisher_id = ''p'', pi_sequence = 1\<rparr>"

definition example_stream :: stream where
  "example_stream = \<lparr>st_log = [], baseOffset = 0, publisherSequences = [], publisherLastSeen = [], draining = False\<rparr>"

definition example_start :: system where
  "example_start = \<lparr>sy_client = new_stream_client ''p'' None 10, sy_waiting = None, sy_inflight = [], sy_queue = [], sy_stream = example_stream, sy_now = 0,
     sy_made = [], sy_committed = [], sy_acked = [], sy_accepted = [], sy_trace = []\<rparr>"

lemma example_wire: "wire_payload stream_payload_example"
  by code_simp

lemma delivery_example_run:
  "\<exists>y. (system_step example_conv 20 5)\<^sup>*\<^sup>* example_start y \<and> sy_accepted y = [(example_batch, 0)] \<and> sy_acked y = [example_batch] \<and> sy_queue y = []"
proof -
  let ?step = "system_step example_conv 20 5"
  define c where "c = client_publish ''t'' (JNum 1) False (new_stream_client ''p'' None 10)"
  define c1 where "c1 = c\<lparr>buffer := [], pending := Some (pi_items example_batch), pendingSeq := 1, pendingStartedAt := Some 0\<rparr>"
  define y1 where "y1 = example_start\<lparr>sy_client := c\<rparr>"
  define y2 where "y2 = y1\<lparr>sy_client := c1, sy_waiting := Some example_batch, sy_inflight := [(example_batch, 0)], sy_made := [(example_batch, 0)]\<rparr>"
  define y3 where "y3 = y2\<lparr>sy_inflight := [], sy_queue := [(example_batch, 0)], sy_committed := [example_batch]\<rparr>"
  define y4 where "y4 = y3\<lparr>sy_client := flush_sent example_batch c1, sy_waiting := None, sy_acked := [example_batch]\<rparr>"
  define y5 where "y5 = y4\<lparr>sy_queue := [], sy_stream := fst (onPublish 0 example_batch example_stream), sy_accepted := [(example_batch, 0)],
      sy_trace := marked True (new_entries example_stream (fst (onPublish 0 example_batch example_stream)))\<rparr>"
  note defs = y1_def y2_def y3_def y4_def y5_def example_start_def c_def c1_def
  have "?step example_start y1"
    using system_step.publish [of example_conv "JNum 1" 20 5 example_start "''t''" False] example_wire
    by (simp add: defs item_payload_def isPayload_def example_conv_def)
  moreover have "?step y1 y2"
    using system_step.send [of y1 example_conv c1 example_batch 20 5]
    by (simp add: defs client_publish_def new_stream_client_def Let_def flush_begin_def encodeBuffer_def item_payload_def isPayload_def example_conv_def example_batch_def)
  moreover have "?step y2 y3" using system_step.arrive [of y2 "[]" example_batch 0 "[]" example_conv 20 5] by (simp add: defs)
  moreover have "?step y3 y4" using system_step.acknowledge [of y3 example_batch example_conv 20 5] by (simp add: defs)
  moreover have "?step y4 y5"
    using system_step.handle [of y4 example_batch 0 "[]" 5 "fst (onPublish 0 example_batch example_stream)" "snd (onPublish 0 example_batch example_stream)" example_conv 20]
    by (simp add: defs last_sequence_def example_stream_def example_batch_def)
  ultimately have "?step\<^sup>*\<^sup>* example_start y5" by (meson converse_rtranclp_into_rtranclp rtranclp.rtrancl_refl)
  moreover have "sy_accepted y5 = [(example_batch, 0)]" "sy_acked y5 = [example_batch]" "sy_queue y5 = []" by (simp_all add: defs)
  ultimately show ?thesis by blast
qed

theorem delivered_exactly_once_witness:
  "\<exists>y. (system_step example_conv 20 5)\<^sup>*\<^sup>* example_start y \<and> sy_acked y = [example_batch] \<and> sy_queue y = [] \<and>
     map snd (filter fst (sy_trace y)) = batch_entries example_batch \<and> set (sy_acked y) \<subseteq> fst ` set (sy_accepted y)"
proof -
  obtain y where y: "(system_step example_conv 20 5)\<^sup>*\<^sup>* example_start y" "sy_accepted y = [(example_batch, 0)]" "sy_acked y = [example_batch]" "sy_queue y = []"
    using delivery_example_run by blast
  have "start_system ''p'' None 10 example_start"
    by (simp add: start_system_def example_start_def new_WorkflowStream_def example_stream_def)
  from delivered_exactly_once [OF this _ _ y(1)] show ?thesis using y by (intro exI [of _ y]) simp
qed

end
