(* ===== verification/StreamReading.thy ===== *)
theory StreamReading
  imports StreamDelivery
begin

text \<open>
  A subscriber and a stream together: the loop of \<^verbatim>\<open>subscribe\<close> in \<^verbatim>\<open>contrib/workflow-streams/src/client.ts\<close> against the poll handler of \<^verbatim>\<open>workflow.ts\<close>, while
  the log grows, is truncated and moves to the next run.
\<close>

section \<open>The system\<close>

record reader =
  rd_stream :: stream
  rd_offset :: int
  rd_trace :: "log_entry list"
  rd_yielded :: "(string \<times> payload \<times> int) list"

definition poll_of :: "string list \<Rightarrow> reader \<Rightarrow> poll_input" where
  "poll_of topics y = \<lparr>poll_topics = topics, from_offset = rd_offset y\<rparr>"

definition update_outcome_of :: "js_error + poll_result \<Rightarrow> client_error + poll_result" where
  "update_outcome_of r = (case r of Inl e \<Rightarrow> Inl (WorkflowUpdateFailedError ''Workflow Update failed'' (Some e)) | Inr p \<Rightarrow> Inr p)"

definition goes_on :: "string list \<Rightarrow> bool \<Rightarrow> string option \<Rightarrow> reader \<Rightarrow> client_error + poll_result \<Rightarrow> reader \<Rightarrow> bool" where
  "goes_on topics hasClient status y r y' \<longleftrightarrow>
     (\<exists>ys off. subscribe_round hasClient status \<lparr>su_topics = topics, su_offset = rd_offset y\<rparr> r = (ys, GoOn off) \<and>
        y' = y\<lparr>rd_offset := off, rd_yielded := rd_yielded y @ ys\<rparr>)"

text \<open>
  A poll is refused on entry, answered when its condition holds, or fails for a reason that has nothing to do with the log. The entries that were
  ever appended are kept in the form in which they are read.
\<close>

inductive reader_step :: "string list \<Rightarrow> reader \<Rightarrow> reader \<Rightarrow> bool" for topics where
  poll_refused: "poll_entry (poll_of topics y) (rd_stream y) = Inl e \<Longrightarrow> goes_on topics h st y (update_outcome_of (Inl e)) y' \<Longrightarrow> reader_step topics y y'"
| poll_answered: "poll_ready (poll_of topics y) (rd_stream y) \<Longrightarrow>
    goes_on topics h st y (update_outcome_of (poll_answer (poll_of topics y) (rd_stream y))) y' \<Longrightarrow> reader_step topics y y'"
| poll_fails: "goes_on topics h st y (Inl err) y' \<Longrightarrow>
    (\<And>m c. err = WorkflowUpdateFailedError m c \<Longrightarrow> failure_type c \<noteq> Some ''TruncatedOffset'') \<Longrightarrow> reader_step topics y y'"
| entries_appended: "appends pid (rd_stream y) s \<Longrightarrow> list_all (\<lambda>(t, p). wire_payload p) (new_entries (rd_stream y) s) \<Longrightarrow>
    reader_step topics y (y\<lparr>rd_stream := s, rd_trace := rd_trace y @ map canonical_entry (new_entries (rd_stream y) s)\<rparr>)"
| log_truncated: "truncate_log n (rd_stream y) = (s, r) \<Longrightarrow> reader_step topics y (y\<lparr>rd_stream := s\<rparr>)"
| pollers_detached: "reader_step topics y (y\<lparr>rd_stream := detachPollers (rd_stream y)\<rparr>)"
| next_run: "new_WorkflowStream (Some (getState now ttl (rd_stream y))) = Inr s \<Longrightarrow> reader_step topics y (y\<lparr>rd_stream := s\<rparr>)"

section \<open>Stretches of the log\<close>

lemma candidates_iff:
  "(n, e) \<in> set (candidates ts a xs) \<longleftrightarrow> a \<le> n \<and> n < a + int (length xs) \<and> xs ! nat (n - a) = e \<and> wanted ts (fst e)"
proof
  show "(n, e) \<in> set (candidates ts a xs)" if "a \<le> n \<and> n < a + int (length xs) \<and> xs ! nat (n - a) = e \<and> wanted ts (fst e)"
    using that
  proof (induction xs arbitrary: a)
    case (Cons x xs)
    show ?case
    proof (cases "n = a")
      case False
      then have "nat (n - a) = Suc (nat (n - (a + 1)))" using Cons.prems by linarith
      then show ?thesis using Cons False by auto
    qed (use Cons.prems in auto)
  qed auto
qed (rule candidates_bounds)

lemma candidates_sorted: "sorted_wrt (<) (map fst (candidates ts a xs))"
proof (induction xs arbitrary: a)
  case (Cons x xs)
  have "a < n" if "(n, e) \<in> set (candidates ts (a + 1) xs)" for n e using candidates_bounds [OF that] by simp
  then show ?case using Cons by auto
qed simp

lemma candidates_canonical: "candidates ts a (map canonical_entry xs) = map (\<lambda>(n, e). (n, canonical_entry e)) (candidates ts a xs)"
  by (induction xs arbitrary: a) (simp_all add: canonical_entry_def)

text \<open>What a subscriber should get of the entries from one offset up to another.\<close>

definition stretch :: "string list \<Rightarrow> int \<Rightarrow> int \<Rightarrow> log_entry list \<Rightarrow> (string \<times> payload \<times> int) list" where
  "stretch ts a b G = map (\<lambda>(n, t, p). (t, p, n)) (candidates ts a (take (nat (b - a)) (drop (nat a) G)))"

definition follows_log :: "reader \<Rightarrow> bool" where
  "follows_log y \<longleftrightarrow> stream_ok (rd_stream y) \<and> baseOffset (rd_stream y) \<le> int (length (rd_trace y)) \<and>
     map canonical_entry (st_log (rd_stream y)) = drop (nat (baseOffset (rd_stream y))) (rd_trace y)"

lemma follows_offset: "follows_log y \<Longrightarrow> stream_offset (rd_stream y) = int (length (rd_trace y)) \<and> 0 \<le> baseOffset (rd_stream y)"
proof -
  assume y: "follows_log y"
  then have "length (st_log (rd_stream y)) = length (rd_trace y) - nat (baseOffset (rd_stream y))"
    by (metis follows_log_def length_map length_drop)
  then show ?thesis using y by (auto simp: follows_log_def stream_offset_def stream_ok_def)
qed

lemma yield_wire_items:
  "list_all (\<lambda>(n, t, p). wire_payload p) cs \<Longrightarrow> yield_items (map wire_of cs) = (map (\<lambda>(n, t, p). (t, canonical_payload p, n)) cs, None)"
  by (induction cs) (auto simp: wire_of_def wire_lossless)

lemma segment_reads:
  assumes "follows_log y" and "baseOffset (rd_stream y) \<le> a"
  shows "yield_items (map wire_of (segment ts a b (rd_stream y))) = (stretch ts a b (rd_trace y), None)"
proof -
  let ?s = "rd_stream y"
  define xs where "xs = take (nat (b - a)) (drop (nat (a - baseOffset ?s)) (st_log ?s))"
  have "list_all (\<lambda>(t, p). wire_payload p) (st_log ?s)" "0 \<le> baseOffset ?s" using assms(1) by (simp_all add: follows_log_def stream_ok_def)
  then have wire: "wire_payload (snd e)" if "e \<in> set xs" for e
    using that unfolding xs_def by (auto simp: list_all_iff dest!: in_set_takeD in_set_dropD)
  have "list_all (\<lambda>(n, t, p). wire_payload p) (segment ts a b ?s)"
    unfolding segment_def xs_def [symmetric] list_all_iff
  proof clarify
    fix n t p assume "(n, t, p) \<in> set (candidates ts a xs)"
    then have "(t, p) \<in> set xs" using candidates_bounds [of n "(t, p)" ts a xs] nth_mem [of "nat (n - a)" xs] by auto
    then show "wire_payload p" using wire by force
  qed
  moreover have "nat (a - baseOffset ?s) + nat (baseOffset ?s) = nat a" using assms(2) \<open>0 \<le> baseOffset ?s\<close> by linarith
  then have xs: "map canonical_entry xs = take (nat (b - a)) (drop (nat a) (rd_trace y))"
    using assms(1) unfolding xs_def follows_log_def take_map [symmetric] drop_map [symmetric] by (simp only: drop_drop)
  have "stretch ts a b (rd_trace y) = map (\<lambda>(n, t, p). (t, canonical_payload p, n)) (segment ts a b ?s)"
    unfolding stretch_def segment_def xs_def [symmetric] xs [symmetric]
    by (simp add: candidates_canonical canonical_entry_def case_prod_unfold o_def)
  ultimately show ?thesis using yield_wire_items by simp
qed

section \<open>The subscriber\<close>

text \<open>
  Everything before a position has been read or is cut off. The offset of the subscriber is that position, or zero after its offset was truncated away.
\<close>

definition read_up_to :: "string list \<Rightarrow> int \<Rightarrow> int \<Rightarrow> reader \<Rightarrow> bool" where
  "read_up_to ts start pos y \<longleftrightarrow>
     start \<le> pos \<and> pos \<le> int (length (rd_trace y)) \<and> (rd_offset y = pos \<or> rd_offset y = 0 \<and> pos \<le> baseOffset (rd_stream y)) \<and>
     sorted_wrt (<) (map (\<lambda>(t, p, n). n) (rd_yielded y)) \<and>
     (\<forall>(t, p, n) \<in> set (rd_yielded y). start \<le> n \<and> n < pos \<and> rd_trace y ! nat n = (t, p) \<and> wanted ts t) \<and>
     (\<forall>n. start \<le> n \<and> baseOffset (rd_stream y) \<le> n \<and> n < pos \<and> wanted ts (fst (rd_trace y ! nat n)) \<longrightarrow>
        (fst (rd_trace y ! nat n), snd (rd_trace y ! nat n), n) \<in> set (rd_yielded y))"

definition reader_inv :: "string list \<Rightarrow> int \<Rightarrow> reader \<Rightarrow> bool" where
  "reader_inv ts start y \<longleftrightarrow> 0 \<le> start \<and> follows_log y \<and> (\<exists>pos. read_up_to ts start pos y)"

definition start_reader :: "int \<Rightarrow> reader \<Rightarrow> bool" where
  "start_reader start y \<longleftrightarrow> rd_offset y = start \<and> 0 \<le> start \<and> start \<le> stream_offset (rd_stream y) \<and> rd_yielded y = [] \<and> follows_log y"

lemma stretch_members:
  assumes "0 \<le> a" and "b \<le> int (length G)"
  shows "(t, p, n) \<in> set (stretch ts a b G) \<longleftrightarrow> a \<le> n \<and> n < b \<and> G ! nat n = (t, p) \<and> wanted ts t"
proof -
  let ?xs = "take (nat (b - a)) (drop (nat a) G)"
  have "(t, p, n) \<in> set (stretch ts a b G) \<longleftrightarrow> (n, t, p) \<in> set (candidates ts a ?xs)"
    unfolding stretch_def by force
  also have "\<dots> \<longleftrightarrow> a \<le> n \<and> n < a + int (length ?xs) \<and> ?xs ! nat (n - a) = (t, p) \<and> wanted ts t" by (simp add: candidates_iff)
  also have "\<dots> \<longleftrightarrow> a \<le> n \<and> n < b \<and> ?xs ! nat (n - a) = (t, p) \<and> wanted ts t" using assms by auto
  also have "\<dots> \<longleftrightarrow> a \<le> n \<and> n < b \<and> G ! nat n = (t, p) \<and> wanted ts t"
  proof (rule conj_cong [OF refl], rule conj_cong [OF refl])
    assume n: "a \<le> n" "n < b"
    have "nat a + nat (n - a) = nat n" "nat (n - a) < nat (b - a)" using n assms by linarith+
    then show "(?xs ! nat (n - a) = (t, p) \<and> wanted ts t) = (G ! nat n = (t, p) \<and> wanted ts t)" using n assms by simp
  qed
  finally show ?thesis .
qed

lemma stretch_sorted: "sorted_wrt (<) (map (\<lambda>(t, p, n). n) (stretch ts a b G))"
  using candidates_sorted [of ts a "take (nat (b - a)) (drop (nat a) G)"] by (simp add: stretch_def o_def case_prod_unfold)

lemma read_step:
  assumes "follows_log y" and "read_up_to ts start pos y" and "0 \<le> start" and "exact_answer (poll_of ts y) (rd_stream y) r"
    and "rd_offset y = pos \<or> pos \<le> baseOffset (rd_stream y)"
  shows "\<exists>ys. yield_items (pr_items r) = (ys, None) \<and> read_up_to ts start (next_offset r) (y\<lparr>rd_offset := next_offset r, rd_yielded := rd_yielded y @ ys\<rparr>)"
proof -
  define a where "a = max (rd_offset y) (baseOffset (rd_stream y))"
  define G where "G = rd_trace y"
  have r: "a \<le> next_offset r" "next_offset r \<le> int (length G)" "pr_items r = map wire_of (segment ts a (next_offset r) (rd_stream y))"
    using assms(4) follows_offset [OF assms(1)] unfolding exact_answer_def a_def poll_of_def Let_def G_def by auto
  have ys: "yield_items (pr_items r) = (stretch ts a (next_offset r) G, None)"
    unfolding r(3) G_def by (rule segment_reads [OF assms(1)]) (simp add: a_def)
  have a: "0 \<le> a" "pos \<le> a" "a = pos \<or> a = baseOffset (rd_stream y)" "baseOffset (rd_stream y) \<le> a"
    using assms(2,5) follows_offset [OF assms(1)] by (auto simp: a_def read_up_to_def)
  note mem = stretch_members [OF a(1) r(2), of _ _ _ ts]
  have old: "start \<le> pos" "sorted_wrt (<) (map (\<lambda>(t, p, n). n) (rd_yielded y))"
    "\<And>t p n. (t, p, n) \<in> set (rd_yielded y) \<Longrightarrow> start \<le> n \<and> n < pos \<and> G ! nat n = (t, p) \<and> wanted ts t"
    "\<And>n. start \<le> n \<Longrightarrow> baseOffset (rd_stream y) \<le> n \<Longrightarrow> n < pos \<Longrightarrow> wanted ts (fst (G ! nat n)) \<Longrightarrow> (fst (G ! nat n), snd (G ! nat n), n) \<in> set (rd_yielded y)"
    using assms(2) unfolding read_up_to_def G_def by blast+
  have "sorted_wrt (<) (map (\<lambda>(t, p, n). n) (rd_yielded y @ stretch ts a (next_offset r) G))"
    using old(2,3) a(2) mem stretch_sorted by (fastforce simp: sorted_wrt_append)
  moreover have "\<forall>(t, p, n) \<in> set (rd_yielded y @ stretch ts a (next_offset r) G). start \<le> n \<and> n < next_offset r \<and> G ! nat n = (t, p) \<and> wanted ts t"
    using old(1,3) a(2) r(1) mem by fastforce
  moreover have "(fst (G ! nat n), snd (G ! nat n), n) \<in> set (rd_yielded y @ stretch ts a (next_offset r) G)"
    if n: "start \<le> n" "baseOffset (rd_stream y) \<le> n" "n < next_offset r" "wanted ts (fst (G ! nat n))" for n
  proof (cases "n < pos")
    case True
    then show ?thesis using old(4) n by simp
  next
    case False
    then have "a \<le> n" using a(3) n(2) by auto
    then show ?thesis using n mem [of "fst (G ! nat n)" "snd (G ! nat n)" n] by simp
  qed
  ultimately show ?thesis
    using ys r(1,2) a(2) old(1) unfolding read_up_to_def G_def by (intro exI [of _ "stretch ts a (next_offset r) (rd_trace y)"]) simp
qed

lemma truncated_round:
  assumes "reader_inv ts start y" and "behind (poll_of ts y) (rd_stream y)" and "goes_on ts h st y (update_outcome_of (Inl (truncatedFailure (poll_of ts y) (rd_stream y)))) y'"
  shows "reader_inv ts start y'"
proof -
  have y': "y' = y\<lparr>rd_offset := 0\<rparr>"
    using assms(3) by (simp add: goes_on_def subscribe_round_def update_outcome_of_def truncatedFailure_def stream_failure_def failure_type_def)
  obtain pos where pos: "read_up_to ts start pos y" using assms(1) by (auto simp: reader_inv_def)
  then have "rd_offset y = pos" "pos < baseOffset (rd_stream y)" using assms(2) by (auto simp: behind_def poll_of_def read_up_to_def)
  then have "read_up_to ts start pos y'" using pos unfolding read_up_to_def y' by auto
  then show ?thesis using assms(1) by (auto simp: reader_inv_def follows_log_def y')
qed

lemma answered_round:
  assumes "reader_inv ts start y" and "goes_on ts h st y (update_outcome_of (poll_answer (poll_of ts y) (rd_stream y))) y'"
  shows "reader_inv ts start y'"
proof (cases "behind (poll_of ts y) (rd_stream y)")
  case True
  then have "poll_answer (poll_of ts y) (rd_stream y) = Inl (truncatedFailure (poll_of ts y) (rd_stream y))"
    by (simp add: poll_answer_def behind_def)
  then show ?thesis using truncated_round [OF assms(1) True] assms(2) by simp
next
  case False
  obtain pos where pos: "read_up_to ts start pos y" using assms(1) by (auto simp: reader_inv_def)
  have y: "follows_log y" "0 \<le> start" using assms(1) by (simp_all add: reader_inv_def)
  note off = follows_offset [OF y(1)]
  have "from_offset (poll_of ts y) \<le> stream_offset (rd_stream y)" using pos off y(2) by (auto simp: poll_of_def read_up_to_def)
  then obtain r where r: "poll_answer (poll_of ts y) (rd_stream y) = Inr r" "exact_answer (poll_of ts y) (rd_stream y) r"
    using poll_answer_exact [OF False] off by blast
  have "rd_offset y = pos \<or> pos \<le> baseOffset (rd_stream y)" using pos by (auto simp: read_up_to_def)
  from read_step [OF y(1) pos y(2) r(2) this] obtain ys where ys: "yield_items (pr_items r) = (ys, None)"
      "read_up_to ts start (next_offset r) (y\<lparr>rd_offset := next_offset r, rd_yielded := rd_yielded y @ ys\<rparr>)" by blast
  have "y' = y\<lparr>rd_offset := next_offset r, rd_yielded := rd_yielded y @ ys\<rparr>"
    using assms(2) r(1) ys(1) by (simp add: goes_on_def subscribe_round_def update_outcome_of_def)
  then show ?thesis using ys(2) y by (auto simp: reader_inv_def follows_log_def)
qed

lemma failed_round:
  assumes "goes_on ts h st y (Inl err) y'" and "\<And>m c. err = WorkflowUpdateFailedError m c \<Longrightarrow> failure_type c \<noteq> Some ''TruncatedOffset''"
  shows "y' = y"
  using assms by (cases err) (auto simp: goes_on_def subscribe_round_def split: if_splits)

lemma read_up_to_stream:
  assumes "read_up_to ts start pos y" and "0 \<le> start" and "baseOffset (rd_stream y) \<le> baseOffset s"
  shows "read_up_to ts start pos (y\<lparr>rd_stream := s, rd_trace := rd_trace y @ es\<rparr>)"
proof -
  have "(rd_trace y @ es) ! nat n = rd_trace y ! nat n" if "start \<le> n" "n < pos" for n
    using that assms(1,2) by (auto simp: nth_append read_up_to_def)
  then show ?thesis using assms unfolding read_up_to_def by (auto 0 4)
qed

lemma reader_inv_stream:
  assumes "reader_inv ts start y" and "baseOffset (rd_stream y) \<le> baseOffset s" and "follows_log (y\<lparr>rd_stream := s, rd_trace := rd_trace y @ es\<rparr>)"
  shows "reader_inv ts start (y\<lparr>rd_stream := s, rd_trace := rd_trace y @ es\<rparr>)"
  using assms read_up_to_stream by (fastforce simp: reader_inv_def)

lemma follows_append:
  assumes "follows_log y" and "appends pid (rd_stream y) s" and "list_all (\<lambda>(t, p). wire_payload p) (new_entries (rd_stream y) s)"
  shows "follows_log (y\<lparr>rd_stream := s, rd_trace := rd_trace y @ map canonical_entry (new_entries (rd_stream y) s)\<rparr>)"
proof -
  obtain xs where xs: "st_log s = st_log (rd_stream y) @ xs" using assms(2) by (auto simp: appends_def)
  have "keys_ok s" "baseOffset s = baseOffset (rd_stream y)" using assms(1,2) by (simp_all add: appends_def follows_log_def stream_ok_keys)
  moreover have "nat (baseOffset (rd_stream y)) - length (rd_trace y) = 0" using assms(1) by (simp add: follows_log_def nat_le_iff)
  ultimately show ?thesis using assms(1,3) unfolding new_entries_append [OF xs] by (simp add: follows_log_def stream_ok_keys xs)
qed

lemma follows_truncate:
  assumes "follows_log y" and "truncate_log n (rd_stream y) = (s, r)"
  shows "follows_log (y\<lparr>rd_stream := s\<rparr>) \<and> baseOffset (rd_stream y) \<le> baseOffset s"
proof (cases "n - baseOffset (rd_stream y) \<le> 0 \<or> n - baseOffset (rd_stream y) > int (length (st_log (rd_stream y)))")
  case True
  then have "s = rd_stream y" using assms(2) by (auto simp: truncate_log_def Let_def split: if_splits)
  then show ?thesis using assms(1) by simp
next
  case False
  let ?s = "rd_stream y"
  have s: "s = ?s\<lparr>st_log := drop (nat (n - baseOffset ?s)) (st_log ?s), baseOffset := n\<rparr>"
    using assms(2) False by (auto simp: truncate_log_def Let_def)
  have y: "stream_ok ?s" "map canonical_entry (st_log ?s) = drop (nat (baseOffset ?s)) (rd_trace y)" using assms(1) by (simp_all add: follows_log_def)
  have n: "nat (n - baseOffset ?s) + nat (baseOffset ?s) = nat n" "n \<le> int (length (rd_trace y))"
    using False follows_offset [OF assms(1)] by (auto simp: stream_offset_def)
  have "map canonical_entry (st_log s) = drop (nat n) (rd_trace y)" by (simp add: s y(2) drop_map [symmetric] n(1))
  moreover have "list_all (\<lambda>(t, p). wire_payload p) (drop k (st_log ?s))" for k
    using y(1) in_set_dropD by (fastforce simp: stream_ok_def list_all_iff)
  ultimately show ?thesis using y(1) n(2) False by (simp add: follows_log_def stream_ok_keys keys_ok_simps s)
qed

lemma follows_next_run:
  assumes "follows_log y" and "new_WorkflowStream (Some (getState now ttl (rd_stream y))) = Inr s"
  shows "follows_log (y\<lparr>rd_stream := s\<rparr>) \<and> baseOffset s = baseOffset (rd_stream y)"
proof -
  have ok: "stream_ok (rd_stream y)" using assms(1) by (simp add: follows_log_def)
  then have "distinct (map fst (publisherSequences (rd_stream y)))" by (simp add: stream_ok_def)
  note keys = active_keys [OF this, of now ttl]
  have s: "st_log s = map canonical_entry (st_log (rd_stream y))" "baseOffset s = baseOffset (rd_stream y)"
    "publisherSequences s = map (\<lambda>(pid, q, ts). (pid, q)) (active_publishers now ttl (rd_stream y))"
    "publisherLastSeen s = map (\<lambda>(pid, q, ts). (pid, ts)) (active_publishers now ttl (rd_stream y))"
    using assms(2) successor_stream [OF ok, of now ttl] by auto
  have "list_all (\<lambda>(t, p). wire_payload p) (st_log s)"
    unfolding s(1) using ok by (auto simp: stream_ok_def list_all_iff canonical_entry_def canonical_wire)
  moreover have "keys_ok s" using keys by (simp only: keys_ok_def s)
  moreover have "map canonical_entry (st_log s) = map canonical_entry (st_log (rd_stream y))" by (simp add: s(1))
  then have "map canonical_entry (st_log s) = drop (nat (baseOffset (rd_stream y))) (rd_trace y)" using assms(1) by (simp add: follows_log_def)
  ultimately show ?thesis using assms(1) s(2) by (simp add: follows_log_def stream_ok_keys)
qed

lemma reader_step_inv: "reader_step ts y y' \<Longrightarrow> reader_inv ts start y \<Longrightarrow> reader_inv ts start y'"
proof (induction rule: reader_step.induct)
  case (poll_refused y e h st y')
  then show ?case using truncated_round by (auto simp: poll_entry_def split: if_splits)
next
  case (poll_answered y h st y')
  then show ?case using answered_round by blast
next
  case (poll_fails h st y err y')
  then show ?case using failed_round by blast
next
  case (entries_appended pid y s)
  then show ?case using follows_append by (intro reader_inv_stream) (auto simp: reader_inv_def appends_def)
next
  case (log_truncated n y s r)
  then show ?case using follows_truncate [of y n s r] reader_inv_stream [of ts start y s "[]"] by (simp add: reader_inv_def)
next
  case (pollers_detached y)
  have "follows_log (y\<lparr>rd_stream := detachPollers (rd_stream y)\<rparr>)"
    using pollers_detached by (simp add: reader_inv_def follows_log_def stream_ok_detach) (simp add: detachPollers_def)
  then show ?case using reader_inv_stream [OF pollers_detached, of "detachPollers (rd_stream y)" "[]"] by (simp add: detachPollers_def)
next
  case (next_run now ttl y s)
  then show ?case using follows_next_run [of y now ttl s] reader_inv_stream [of ts start y s "[]"] by (simp add: reader_inv_def)
qed

interpretation reading: machine "start_reader start" "reader_step ts" "reader_inv ts start" for start ts
proof
  show "reader_inv ts start y" if "start_reader start y" for y
    using that follows_offset [of y] by (auto simp: start_reader_def reader_inv_def read_up_to_def intro!: exI [of _ start])
  show "reader_inv ts start y'" if "reader_inv ts start y" "reader_step ts y y'" for y y'
    using that reader_step_inv by blast
qed

section \<open>Properties\<close>

text \<open>
  C5: (Functional.) A subscriber reads the log. While entries are published, the log is truncated, polls fail and the workflow moves from
  run to run, what the subscriber yields are entries of its topics at their own offsets, each once and in the order of the log, none before the offset it asked
  for; and of the entries between that offset and its present one none is missing but those cut off by a truncation.
\<close>

theorem subscriber_reads_log:
  assumes "start_reader start y0" and "(reader_step ts)\<^sup>*\<^sup>* y0 y"
  shows "sorted_wrt (<) (map (\<lambda>(t, p, n). n) (rd_yielded y)) \<and>
    (\<forall>(t, p, n) \<in> set (rd_yielded y). start \<le> n \<and> n < int (length (rd_trace y)) \<and> rd_trace y ! nat n = (t, p) \<and> wanted ts t) \<and>
    (\<forall>n. start \<le> n \<and> baseOffset (rd_stream y) \<le> n \<and> n < rd_offset y \<and> wanted ts (fst (rd_trace y ! nat n)) \<longrightarrow>
       (fst (rd_trace y ! nat n), snd (rd_trace y ! nat n), n) \<in> set (rd_yielded y)) \<and>
    map canonical_entry (st_log (rd_stream y)) = drop (nat (baseOffset (rd_stream y))) (rd_trace y)"
proof -
  have inv: "reader_inv ts start y" using reading.inv_reachable [OF assms(1,2)] .
  then obtain pos where pos: "read_up_to ts start pos y" by (auto simp: reader_inv_def)
  have y: "follows_log y" "0 \<le> start" using inv by (simp_all add: reader_inv_def)
  have "\<forall>(t, p, n) \<in> set (rd_yielded y). start \<le> n \<and> n < int (length (rd_trace y)) \<and> rd_trace y ! nat n = (t, p) \<and> wanted ts t"
    using pos unfolding read_up_to_def by fastforce
  moreover have "(fst (rd_trace y ! nat n), snd (rd_trace y ! nat n), n) \<in> set (rd_yielded y)"
    if "start \<le> n" "baseOffset (rd_stream y) \<le> n" "n < rd_offset y" "wanted ts (fst (rd_trace y ! nat n))" for n
  proof -
    have "n < pos" using pos that(1,3) y(2) by (auto simp: read_up_to_def)
    then show ?thesis using pos that(1,2,4) unfolding read_up_to_def by blast
  qed
  ultimately show ?thesis using pos y(1) by (simp add: read_up_to_def follows_log_def)
qed

text \<open>A subscriber of one topic of a log with two entries.\<close>

definition two_entries :: "log_entry list" where
  "two_entries = [(''a'', stream_payload_example), (''b'', stream_payload_example)]"

definition example_reader :: reader where
  "example_reader = \<lparr>rd_stream = example_stream\<lparr>st_log := two_entries\<rparr>, rd_offset = 0, rd_trace = two_entries, rd_yielded = []\<rparr>"

lemma example_read:
  "reader_step [''b''] example_reader (example_reader\<lparr>rd_offset := 2, rd_yielded := [(''b'', stream_payload_example, 1)]\<rparr>)"
proof -
  let ?i = "poll_of [''b''] example_reader"
  have "poll_answer ?i (rd_stream example_reader) = Inr \<lparr>pr_items = [wire_of (1, ''b'', stream_payload_example)], next_offset = 2, more_ready = False\<rparr>"
    by (simp add: poll_answer_def poll_of_def example_reader_def example_stream_def two_entries_def wanted_def stream_offset_def wire_of_def
        encodePayloadWire_def Let_def)
  moreover have "canonical_payload stream_payload_example = stream_payload_example" by (simp add: canonical_payload_def stream_payload_example_def)
  ultimately have "goes_on [''b''] True None example_reader (update_outcome_of (poll_answer ?i (rd_stream example_reader)))
      (example_reader\<lparr>rd_offset := 2, rd_yielded := [(''b'', stream_payload_example, 1)]\<rparr>)"
    using wire_lossless [OF example_wire]
    by (simp add: goes_on_def update_outcome_of_def subscribe_round_def wire_of_def) (simp add: example_reader_def)
  moreover have "poll_ready ?i (rd_stream example_reader)"
    by (simp add: poll_ready_def poll_of_def example_reader_def example_stream_def two_entries_def)
  ultimately show ?thesis by (rule reader_step.poll_answered [rotated])
qed

theorem subscriber_reads_log_witness:
  "\<exists>y. (reader_step [''b''])\<^sup>*\<^sup>* example_reader y \<and> rd_yielded y = [(''b'', stream_payload_example, 1)] \<and> rd_offset y = 2 \<and>
     map canonical_entry (st_log (rd_stream y)) = drop (nat (baseOffset (rd_stream y))) (rd_trace y)"
proof -
  have "start_reader 0 example_reader"
    using example_wire by (simp add: start_reader_def example_reader_def follows_log_def stream_ok_def example_stream_def two_entries_def stream_offset_def
        canonical_entry_def canonical_payload_def stream_payload_example_def)
  from subscriber_reads_log [OF this r_into_rtranclp, OF example_read] example_read show ?thesis
    by (intro exI [of _ "example_reader\<lparr>rd_offset := 2, rd_yielded := [(''b'', stream_payload_example, 1)]\<rparr>"]) auto
qed

end
