(* ===== verification/Schedules.thy ===== *)
theory Schedules
  imports WorkflowClient
begin

text \<open>
  \<^verbatim>\<open>packages/client/src/schedule-helpers.ts\<close>: the translation of a schedule between the public API and the wire. The
  components of a calendar are values of the program (a number, a name, a range or a list of these), because the code tells them apart at run
  time; on the wire each is a list of ranges of numbers. Then the specification with its intervals and times, the action, the policies
  and the state, and the descriptions that are read back.
\<close>

section \<open>Calendars\<close>

text \<open>\<^verbatim>\<open>temporal.api.schedule.v1.Range\<close> and the \<^verbatim>\<open>Range\<close> of the public API.\<close>

record proto_range =
  rg_start :: int
  rg_end :: int
  rg_step :: int

record cal_range =
  cr_start :: jsval
  cr_end :: jsval
  cr_step :: int

definition MONTHS :: "string list" where
  "MONTHS = [''JANUARY'', ''FEBRUARY'', ''MARCH'', ''APRIL'', ''MAY'', ''JUNE'', ''JULY'', ''AUGUST'', ''SEPTEMBER'',
     ''OCTOBER'', ''NOVEMBER'', ''DECEMBER'']"

definition DAYS_OF_WEEK :: "string list" where
  "DAYS_OF_WEEK = [''SUNDAY'', ''MONDAY'', ''TUESDAY'', ''WEDNESDAY'', ''THURSDAY'', ''FRIDAY'', ''SATURDAY'']"

text \<open>
  \<open>Array.indexOf\<close> on names, which is \<open>None\<close> where JavaScript returns -1, and reading an array at an index, which gives
  \<open>undefined\<close> outside of it.
\<close>

fun name_index :: "string list \<Rightarrow> string \<Rightarrow> nat option" where
  "name_index [] s = None"
| "name_index (x # xs) s = (if x = s then Some 0 else map_option Suc (name_index xs s))"

definition name_at :: "string list \<Rightarrow> int \<Rightarrow> jsval option" where
  "name_at xs i = (if 0 \<le> i \<and> i < int (length xs) then Some (JStr (xs ! nat i)) else None)"

text \<open>
  The arguments of \<^verbatim>\<open>makeCalendarSpecFieldCoders\<close>. The values a field takes are given by their encoder, which returns \<open>undefined\<close> for
  a value that is not allowed.
\<close>

record calendar_coders =
  fieldName :: string
  encodeValueFn :: "jsval \<Rightarrow> int option"
  decodeValueFn :: "int \<Rightarrow> jsval option"
  defaultValue :: "proto_range list"
  matchAllValue :: "proto_range list"

text \<open>A value in a template string. An array is its elements with commas between them, \<open>undefined\<close> and \<open>null\<close> left empty.\<close>

fun comma_join :: "string list \<Rightarrow> string" where
  "comma_join [] = []"
| "comma_join [s] = s"
| "comma_join (s # t # ss) = s @ '','' @ comma_join (t # ss)"

fun template_text :: "jsval \<Rightarrow> string" where
  "template_text (JArr vs) = comma_join (map (\<lambda>v. if v = Undefined \<or> v = Null then [] else template_text v) vs)"
| "template_text (JBytes b) = comma_join (map (\<lambda>c. nat_to_string (of_char c)) b)"
| "template_text (JPromise n) = ''[object Promise]''"
| "template_text v = js_String v"

definition invalid_component :: "calendar_coders \<Rightarrow> jsval \<Rightarrow> js_error" where
  "invalid_component cf item = TypeError (''Invalid CalendarSpec component for field '' @ fieldName cf @ '': '' @ [CHR 0x27] @
     template_text item @ [CHR 0x27] @ '' of type '' @ [CHR 0x27] @ js_typeof (SaVal item) @ [CHR 0x27])"

definition encode_unit :: "calendar_coders \<Rightarrow> jsval \<Rightarrow> js_error + proto_range" where
  "encode_unit cf item =
     (if item = Undefined then Inl (invalid_component cf item)
      else case encodeValueFn cf item of
             Some v \<Rightarrow> Inr \<lparr>rg_start = v, rg_end = v, rg_step = 1\<rparr>
           | None \<Rightarrow> Inl (invalid_component cf item))"

text \<open>
  The function that the encoder maps over the components. An object with a \<open>start\<close> is a range; when its start is not a value of the field the
  object itself is tried as a value. Reading \<open>start\<close> of \<open>null\<close> throws.
\<close>

definition encode_item :: "calendar_coders \<Rightarrow> jsval \<Rightarrow> js_error + proto_range" where
  "encode_item cf item = (case item of
     Null \<Rightarrow> Inl (TypeError (''Cannot read properties of null (reading '' @ [CHR 0x27] @ ''start'' @ [CHR 0x27] @ '')''))
   | JObj fs \<Rightarrow>
       if field_of item ''start'' = Undefined then encode_unit cf item
       else (case encodeValueFn cf (field_of item ''start'') of
          None \<Rightarrow> encode_unit cf item
        | Some s \<Rightarrow> Inr \<lparr>rg_start = s,
            rg_end = (if field_of item ''end'' \<noteq> Undefined
                      then (case encodeValueFn cf (field_of item ''end'') of None \<Rightarrow> s | Some e \<Rightarrow> e) else 1),
            rg_step = (case field_of item ''step'' of JNum n \<Rightarrow> if n > 0 then n else 1 | _ \<Rightarrow> 1)\<rparr>)
   | _ \<Rightarrow> encode_unit cf item)"

definition component_items :: "jsval \<Rightarrow> jsval list" where
  "component_items input = (case input of JArr items \<Rightarrow> items | _ \<Rightarrow> [input])"

definition calendar_encoder :: "calendar_coders \<Rightarrow> jsval \<Rightarrow> js_error + proto_range list" where
  "calendar_encoder cf input =
     (if input = Undefined then Inr (defaultValue cf)
      else if input = JStr ''*'' then Inr (matchAllValue cf)
      else map_res (encode_item cf) (component_items input))"

definition decode_range :: "calendar_coders \<Rightarrow> proto_range \<Rightarrow> js_error + cal_range" where
  "decode_range cf pb = (case decodeValueFn cf (rg_start pb) of
     None \<Rightarrow> Inl (RangeError (''Invalid CalendarSpec component for field '' @ fieldName cf @ '': '' @ int_to_string (rg_start pb) @ '' is out of bounds''))
   | Some s \<Rightarrow> Inr \<lparr>cr_start = s,
       cr_end = (if rg_end pb > rg_start pb then (case decodeValueFn cf (rg_end pb) of None \<Rightarrow> s | Some e \<Rightarrow> e) else s),
       cr_step = (if rg_step pb > 0 then rg_step pb else 1)\<rparr>)"

definition calendar_decoder :: "calendar_coders \<Rightarrow> proto_range list option \<Rightarrow> js_error + cal_range list" where
  "calendar_decoder cf input = (case input of None \<Rightarrow> Inr [] | Some pbs \<Rightarrow> map_res (decode_range cf) pbs)"

section \<open>The seven fields\<close>

definition number_between :: "int \<Rightarrow> int \<Rightarrow> jsval \<Rightarrow> int option" where
  "number_between lo hi x = (case x of JNum n \<Rightarrow> if lo \<le> n \<and> n \<le> hi then Some n else None | _ \<Rightarrow> None)"

definition any_number :: "jsval \<Rightarrow> int option" where
  "any_number x = (case x of JNum n \<Rightarrow> Some n | _ \<Rightarrow> None)"

definition monthNameToNumber :: "jsval \<Rightarrow> int option" where
  "monthNameToNumber month = (case month of JStr s \<Rightarrow> map_option (\<lambda>i. int i + 1) (name_index MONTHS s) | _ \<Rightarrow> None)"

definition dayOfWeekNameToNumber :: "jsval \<Rightarrow> int option" where
  "dayOfWeekNameToNumber day = (case day of JStr s \<Rightarrow> map_option int (name_index DAYS_OF_WEEK s) | _ \<Rightarrow> None)"

definition from_to :: "int \<Rightarrow> int \<Rightarrow> int \<Rightarrow> proto_range" where
  "from_to a b n = \<lparr>rg_start = a, rg_end = b, rg_step = n\<rparr>"

definition second_coders :: calendar_coders where
  "second_coders = \<lparr>fieldName = ''second'', encodeValueFn = number_between 0 59, decodeValueFn = (\<lambda>x. Some (JNum x)),
     defaultValue = [from_to 0 0 0], matchAllValue = [from_to 0 59 1]\<rparr>"

definition minute_coders :: calendar_coders where
  "minute_coders = \<lparr>fieldName = ''minute'', encodeValueFn = number_between 0 59, decodeValueFn = (\<lambda>x. Some (JNum x)),
     defaultValue = [from_to 0 0 0], matchAllValue = [from_to 0 59 1]\<rparr>"

definition hour_coders :: calendar_coders where
  "hour_coders = \<lparr>fieldName = ''hour'', encodeValueFn = number_between 0 23, decodeValueFn = (\<lambda>x. Some (JNum x)),
     defaultValue = [from_to 0 0 0], matchAllValue = [from_to 0 23 1]\<rparr>"

definition dayOfMonth_coders :: calendar_coders where
  "dayOfMonth_coders = \<lparr>fieldName = ''dayOfMonth'', encodeValueFn = number_between 0 31, decodeValueFn = (\<lambda>x. Some (JNum x)),
     defaultValue = [from_to 1 31 1], matchAllValue = [from_to 1 31 1]\<rparr>"

definition month_coders :: calendar_coders where
  "month_coders = \<lparr>fieldName = ''month'', encodeValueFn = monthNameToNumber, decodeValueFn = (\<lambda>x. name_at MONTHS (x - 1)),
     defaultValue = [from_to 1 12 1], matchAllValue = [from_to 1 12 1]\<rparr>"

definition year_coders :: calendar_coders where
  "year_coders = \<lparr>fieldName = ''year'', encodeValueFn = any_number, decodeValueFn = (\<lambda>x. Some (JNum x)),
     defaultValue = [], matchAllValue = []\<rparr>"

definition dayOfWeek_coders :: calendar_coders where
  "dayOfWeek_coders = \<lparr>fieldName = ''dayOfWeek'', encodeValueFn = dayOfWeekNameToNumber, decodeValueFn = name_at DAYS_OF_WEEK,
     defaultValue = [from_to 0 6 1], matchAllValue = [from_to 0 6 1]\<rparr>"

text \<open>A component that is absent is \<open>undefined\<close>. On the wire a field may be missing.\<close>

record calendar_spec =
  cs_second :: jsval
  cs_minute :: jsval
  cs_hour :: jsval
  cs_dayOfMonth :: jsval
  cs_month :: jsval
  cs_year :: jsval
  cs_dayOfWeek :: jsval
  cs_comment :: "string option"

record proto_calendar =
  pc_second :: "proto_range list option"
  pc_minute :: "proto_range list option"
  pc_hour :: "proto_range list option"
  pc_dayOfMonth :: "proto_range list option"
  pc_month :: "proto_range list option"
  pc_year :: "proto_range list option"
  pc_dayOfWeek :: "proto_range list option"
  pc_comment :: "string option"

record calendar_description =
  cd_second :: "cal_range list"
  cd_minute :: "cal_range list"
  cd_hour :: "cal_range list"
  cd_dayOfMonth :: "cal_range list"
  cd_month :: "cal_range list"
  cd_year :: "cal_range list"
  cd_dayOfWeek :: "cal_range list"
  cd_comment :: "string option"

definition encode_calendar :: "calendar_spec \<Rightarrow> js_error + proto_calendar" where
  "encode_calendar spec =
     bind_res (calendar_encoder second_coders (cs_second spec)) (\<lambda>s.
     bind_res (calendar_encoder minute_coders (cs_minute spec)) (\<lambda>mi.
     bind_res (calendar_encoder hour_coders (cs_hour spec)) (\<lambda>h.
     bind_res (calendar_encoder dayOfMonth_coders (cs_dayOfMonth spec)) (\<lambda>d.
     bind_res (calendar_encoder month_coders (cs_month spec)) (\<lambda>mo.
     bind_res (calendar_encoder year_coders (cs_year spec)) (\<lambda>y.
     bind_res (calendar_encoder dayOfWeek_coders (cs_dayOfWeek spec)) (\<lambda>w.
       Inr \<lparr>pc_second = Some s, pc_minute = Some mi, pc_hour = Some h, pc_dayOfMonth = Some d, pc_month = Some mo,
            pc_year = Some y, pc_dayOfWeek = Some w, pc_comment = cs_comment spec\<rparr>)))))))"

definition encodeOptionalStructuredCalendarSpecs :: "calendar_spec list option \<Rightarrow> js_error + proto_calendar list option" where
  "encodeOptionalStructuredCalendarSpecs input = compile_optional (map_res encode_calendar) input"

definition decode_calendar :: "proto_calendar \<Rightarrow> js_error + calendar_description" where
  "decode_calendar pb =
     bind_res (calendar_decoder second_coders (pc_second pb)) (\<lambda>s.
     bind_res (calendar_decoder minute_coders (pc_minute pb)) (\<lambda>mi.
     bind_res (calendar_decoder hour_coders (pc_hour pb)) (\<lambda>h.
     bind_res (calendar_decoder dayOfMonth_coders (pc_dayOfMonth pb)) (\<lambda>d.
     bind_res (calendar_decoder month_coders (pc_month pb)) (\<lambda>mo.
     bind_res (calendar_decoder year_coders (pc_year pb)) (\<lambda>y.
     bind_res (calendar_decoder dayOfWeek_coders (pc_dayOfWeek pb)) (\<lambda>w.
       Inr \<lparr>cd_second = s, cd_minute = mi, cd_hour = h, cd_dayOfMonth = d, cd_month = mo, cd_year = y, cd_dayOfWeek = w,
            cd_comment = pc_comment pb\<rparr>)))))))"

definition decodeOptionalStructuredCalendarSpecs :: "proto_calendar list option \<Rightarrow> js_error + calendar_description list" where
  "decodeOptionalStructuredCalendarSpecs input = (case input of None \<Rightarrow> Inr [] | Some pbs \<Rightarrow> map_res decode_calendar pbs)"

section \<open>Specifications\<close>

record schedule_spec =
  sp_calendars :: "calendar_spec list option"
  sp_intervals :: "(duration \<times> duration option) list option"
  sp_cronExpressions :: "string list option"
  sp_skip :: "calendar_spec list option"
  sp_startAt :: "int option"
  sp_endAt :: "int option"
  sp_jitter :: "duration option"
  sp_timezone :: "string option"

text \<open>\<^verbatim>\<open>temporal.api.schedule.v1.ScheduleSpec\<close>; an interval is its length and its phase.\<close>

record proto_schedule_spec =
  pp_structuredCalendar :: "proto_calendar list option"
  pp_interval :: "(timestamp option \<times> timestamp option) list option"
  pp_cronString :: "string list option"
  pp_excludeStructuredCalendar :: "proto_calendar list option"
  pp_startTime :: "timestamp option"
  pp_endTime :: "timestamp option"
  pp_jitter :: "timestamp option"
  pp_timezoneName :: "string option"

record spec_description =
  sd_calendars :: "calendar_description list"
  sd_intervals :: "(int option \<times> int option) list"
  sd_skip :: "calendar_description list"
  sd_startAt :: "int option"
  sd_endAt :: "int option"
  sd_jitter :: "int option"
  sd_timezone :: "string option"

definition encode_interval :: "(string \<Rightarrow> rat option) \<Rightarrow> duration \<times> duration option \<Rightarrow> js_error + timestamp option \<times> timestamp option" where
  "encode_interval ms i = bind_res (msToTs ms (fst i)) (\<lambda>t. bind_res (msOptionalToTs ms (snd i)) (\<lambda>p. Inr (Some t, p)))"

definition encodeScheduleSpec :: "(string \<Rightarrow> rat option) \<Rightarrow> schedule_spec \<Rightarrow> js_error + proto_schedule_spec" where
  "encodeScheduleSpec ms spec =
     bind_res (encodeOptionalStructuredCalendarSpecs (sp_calendars spec)) (\<lambda>cal.
     bind_res (compile_optional (map_res (encode_interval ms)) (sp_intervals spec)) (\<lambda>ivs.
     bind_res (encodeOptionalStructuredCalendarSpecs (sp_skip spec)) (\<lambda>skip.
     bind_res (optionalDateToTs (sp_startAt spec)) (\<lambda>st.
     bind_res (optionalDateToTs (sp_endAt spec)) (\<lambda>et.
     bind_res (msOptionalToTs ms (sp_jitter spec)) (\<lambda>j.
       Inr \<lparr>pp_structuredCalendar = cal, pp_interval = ivs, pp_cronString = sp_cronExpressions spec, pp_excludeStructuredCalendar = skip,
            pp_startTime = st, pp_endTime = et, pp_jitter = j, pp_timezoneName = sp_timezone spec\<rparr>))))))"

definition decode_interval :: "timestamp option \<times> timestamp option \<Rightarrow> js_error + int option \<times> int option" where
  "decode_interval x = bind_res (optionalTsToMs (fst x)) (\<lambda>e. bind_res (optionalTsToMs (snd x)) (\<lambda>p. Inr (e, p)))"

definition decodeScheduleSpec :: "proto_schedule_spec \<Rightarrow> js_error + spec_description" where
  "decodeScheduleSpec pb =
     bind_res (decodeOptionalStructuredCalendarSpecs (pp_structuredCalendar pb)) (\<lambda>cal.
     bind_res (map_res decode_interval (or_default (pp_interval pb) [])) (\<lambda>ivs.
     bind_res (decodeOptionalStructuredCalendarSpecs (pp_excludeStructuredCalendar pb)) (\<lambda>skip.
     bind_res (optionalTsToDate (pp_startTime pb)) (\<lambda>st.
     bind_res (optionalTsToDate (pp_endTime pb)) (\<lambda>et.
     bind_res (optionalTsToMs (pp_jitter pb)) (\<lambda>j.
       Inr \<lparr>sd_calendars = cal, sd_intervals = ivs, sd_skip = skip, sd_startAt = st, sd_endAt = et, sd_jitter = j,
            sd_timezone = pp_timezoneName pb\<rparr>))))))"

section \<open>Actions\<close>

text \<open>The only action there is starts a workflow.\<close>

record schedule_action =
  ka_workflowType :: workflow_ref
  ka_workflowId :: "string option"
  ka_args :: "jsval list option"
  ka_taskQueue :: string
  ka_executionTimeout :: "duration option"
  ka_runTimeout :: "duration option"
  ka_taskTimeout :: "duration option"
  ka_retry :: "retry_policy option"
  ka_memo :: "(string \<times> jsval) list option"
  ka_searchAttributes :: "(string \<times> sa_value list option) list option"
  ka_typedSearchAttributes :: "typed_input option"
  ka_staticSummary :: "string option"
  ka_staticDetails :: "string option"
  ka_priority :: "priority option"

record compiled_action =
  ca_action :: schedule_action
  ca_workflowId :: string
  ca_workflowType :: string
  ca_args :: "jsval list"

text \<open>
  \<^verbatim>\<open>NewWorkflowExecutionInfo\<close>. The type of the payloads of a memo is a parameter: a request may hold \<open>undefined\<close> in the place of a payload,
  a response does not. The workflow type and the task queue are messages, which may be missing.
\<close>

record 'm proto_start =
  ps_workflowId :: string
  ps_workflowType :: "string option"
  ps_input :: "payload list option"
  ps_taskQueue :: "string option"
  ps_executionTimeout :: "timestamp option"
  ps_runTimeout :: "timestamp option"
  ps_taskTimeout :: "timestamp option"
  ps_retryPolicy :: "proto_retry_policy option"
  ps_memo :: "(string \<times> 'm) list option"
  ps_searchAttributes :: "(string \<times> payload) list option"
  ps_header :: "(string \<times> payload) list option"
  ps_userMetadata :: "user_metadata option"
  ps_priority :: "priority option"

record action_description =
  ad_workflowId :: string
  ad_workflowType :: string
  ad_taskQueue :: string
  ad_args :: "jsval list"
  ad_memo :: "(string \<times> jsval) list option"
  ad_retry :: "retry_policy option"
  ad_searchAttributes :: "(string \<times> sa_value list) list"
  ad_typedSearchAttributes :: typed_attributes
  ad_executionTimeout :: "int option"
  ad_runTimeout :: "int option"
  ad_taskTimeout :: "int option"
  ad_staticSummary :: jsval
  ad_staticDetails :: jsval
  ad_priority :: priority

definition extractWorkflowType :: "workflow_ref \<Rightarrow> js_error + string" where
  "extractWorkflowType r = bind_res (extractWorkflowTypeAndConfig r None) (\<lambda>(n, _). Inr n)"

text \<open>The part that \<^verbatim>\<open>compileScheduleOptions\<close> and \<^verbatim>\<open>compileUpdatedScheduleOptions\<close> share.\<close>

definition compile_action :: "string \<Rightarrow> schedule_action \<Rightarrow> js_error + compiled_action" where
  "compile_action scheduleId a =
     bind_res (extractWorkflowType (ka_workflowType a)) (\<lambda>n.
       Inr \<lparr>ca_action = a, ca_workflowId = or_default (ka_workflowId a) (scheduleId @ ''-workflow''), ca_workflowType = n,
            ca_args = or_default (ka_args a) []\<rparr>)"

text \<open>\<open>searchAttributes\<close> and \<open>typedSearchAttributes\<close> of the action and of the schedule: no field when neither is given.\<close>

definition encode_attributes ::
  "sa_env \<Rightarrow> (string \<times> sa_value list option) list option \<Rightarrow> typed_input option \<Rightarrow> js_error + (string \<times> payload) list option" where
  "encode_attributes env untyped typed =
     (if untyped = None \<and> typed = None then Inr None
      else bind_res (encodeUnifiedSearchAttributes env untyped typed) (\<lambda>f. Inr (Some f)))"

definition encodeScheduleAction ::
  "'w client \<Rightarrow> compiled_action \<Rightarrow> (string \<times> payload) list \<Rightarrow> js_error + payload option proto_start" where
  "encodeScheduleAction cl ca headers =
     (let a = ca_action ca; dc = cl_data cl; ctx = Some (client_context cl (ca_workflowId ca)) in
      bind_res (encodeToPayloadsWithContext dc ctx (ca_args ca) None) (\<lambda>inp.
      bind_res (msOptionalToTs (cl_ms cl) (ka_executionTimeout a)) (\<lambda>et.
      bind_res (msOptionalToTs (cl_ms cl) (ka_runTimeout a)) (\<lambda>rt.
      bind_res (msOptionalToTs (cl_ms cl) (ka_taskTimeout a)) (\<lambda>tt.
      bind_res (compile_optional (compileRetryPolicy (cl_ms cl)) (ka_retry a)) (\<lambda>rp.
      bind_res (compile_optional (\<lambda>m. encodeMapToPayloads dc m ctx) (ka_memo a)) (\<lambda>memo.
      bind_res (encode_attributes (cl_sa cl) (ka_searchAttributes a) (ka_typedSearchAttributes a)) (\<lambda>sas.
      bind_res (encodeUserMetadata dc (ka_staticSummary a) (ka_staticDetails a) ctx) (\<lambda>um.
      bind_res (compile_optional compilePriority (ka_priority a)) (\<lambda>prio.
        Inr \<lparr>ps_workflowId = ca_workflowId ca, ps_workflowType = Some (ca_workflowType ca), ps_input = inp,
             ps_taskQueue = Some (ka_taskQueue a), ps_executionTimeout = et, ps_runTimeout = rt, ps_taskTimeout = tt,
             ps_retryPolicy = rp, ps_memo = memo, ps_searchAttributes = sas, ps_header = Some headers, ps_userMetadata = um,
             ps_priority = prio\<rparr>))))))))))"

definition name_of_message :: "string option \<Rightarrow> js_error + string" where
  "name_of_message m = (case m of
     None \<Rightarrow> Inl (TypeError (''Cannot read properties of null (reading '' @ [CHR 0x27] @ ''name'' @ [CHR 0x27] @ '')''))
   | Some n \<Rightarrow> Inr n)"

definition decodeScheduleAction :: "'w client \<Rightarrow> payload proto_start option \<Rightarrow> js_error + action_description" where
  "decodeScheduleAction cl pb = (case pb of
     None \<Rightarrow> Inl (TypeError ''Unsupported schedule action'')
   | Some sw \<Rightarrow>
      (let dc = cl_data cl; ctx = Some (client_context cl (ps_workflowId sw)) in
       bind_res (decodeUserMetadata dc (ps_userMetadata sw) ctx) (\<lambda>(summary, details).
       bind_res (name_of_message (ps_workflowType sw)) (\<lambda>ty.
       bind_res (name_of_message (ps_taskQueue sw)) (\<lambda>q.
       bind_res (decodeArrayFromPayloads dc (ps_input sw) ctx None) (\<lambda>args.
       bind_res (decodeMapFromPayloads dc (ps_memo sw) ctx) (\<lambda>memo.
       bind_res (decompileRetryPolicy (ps_retryPolicy sw)) (\<lambda>rp.
       bind_res (decodeSearchAttributes (cl_sa cl) (ps_searchAttributes sw)) (\<lambda>sas.
       bind_res (decodeTypedSearchAttributes (cl_sa cl) (ps_searchAttributes sw)) (\<lambda>tsas.
       bind_res (optionalTsToMs (ps_executionTimeout sw)) (\<lambda>et.
       bind_res (optionalTsToMs (ps_runTimeout sw)) (\<lambda>rt.
       bind_res (optionalTsToMs (ps_taskTimeout sw)) (\<lambda>tt.
         Inr \<lparr>ad_workflowId = ps_workflowId sw, ad_workflowType = ty, ad_taskQueue = q, ad_args = args, ad_memo = memo,
              ad_retry = rp, ad_searchAttributes = sas, ad_typedSearchAttributes = tsas, ad_executionTimeout = et,
              ad_runTimeout = rt, ad_taskTimeout = tt, ad_staticSummary = summary, ad_staticDetails = details,
              ad_priority = decodePriority (ps_priority sw)\<rparr>)))))))))))))"

section \<open>Policies, state and what has run\<close>

record schedule_policies =
  po_catchupWindow :: "duration option"
  po_overlap :: "string option"
  po_pauseOnFailure :: "bool option"

record backfill =
  bf_start :: int
  bf_end :: int
  bf_overlap :: "string option"

record schedule_state =
  ss_paused :: "bool option"
  ss_note :: "string option"
  ss_remainingActions :: "int option"
  ss_triggerImmediately :: bool
  ss_backfill :: "backfill list option"

record proto_policies =
  pq_catchupWindow :: "timestamp option"
  pq_overlapPolicy :: "enum_value option"
  pq_pauseOnFailure :: "bool option"

record proto_state =
  pt_paused :: "bool option"
  pt_notes :: "string option"
  pt_limitedActions :: bool
  pt_remainingActions :: "int option"

text \<open>An empty string is no overlap policy.\<close>

definition encode_overlap :: "string option \<Rightarrow> js_error + enum_value option" where
  "encode_overlap o' = (if o' = None \<or> o' = Some [] then Inr None else encodeEnum scheduleOverlapPolicy_table (enum_name o'))"

definition encodeSchedulePolicies :: "(string \<Rightarrow> rat option) \<Rightarrow> schedule_policies option \<Rightarrow> js_error + proto_policies" where
  "encodeSchedulePolicies ms policies =
     bind_res (msOptionalToTs ms (Option.bind policies po_catchupWindow)) (\<lambda>cw.
     bind_res (encode_overlap (Option.bind policies po_overlap)) (\<lambda>op.
       Inr \<lparr>pq_catchupWindow = cw, pq_overlapPolicy = op, pq_pauseOnFailure = Option.bind policies po_pauseOnFailure\<rparr>))"

text \<open>
  The number of remaining actions is sent when it is not 0. \<open>Long.fromNumber\<close> takes a number that does not fit into 64 bits to the nearest one
  that does.
\<close>

definition Long_fromNumber :: "int \<Rightarrow> int" where
  "Long_fromNumber n = max (- (2 ^ 63)) (min (2 ^ 63 - 1) n)"

definition encodeScheduleState :: "schedule_state option \<Rightarrow> proto_state" where
  "encodeScheduleState st =
     (let remaining = Option.bind st ss_remainingActions in
      \<lparr>pt_paused = Option.bind st ss_paused, pt_notes = Option.bind st ss_note, pt_limitedActions = (remaining \<noteq> None),
       pt_remainingActions = (if remaining = Some 0 then None else map_option Long_fromNumber remaining)\<rparr>)"

text \<open>An action of a schedule that is running or has run: the workflow id and the run id of the first execution.\<close>

definition decodeScheduleRunningActions :: "(string \<times> string) list option \<Rightarrow> (string \<times> string) list" where
  "decodeScheduleRunningActions pb = (case pb of None \<Rightarrow> [] | Some xs \<Rightarrow> map (\<lambda>(wid, rid). (wid, rid)) xs)"

record action_result =
  ar_startWorkflowResult :: "(string \<times> string) option"
  ar_scheduleTime :: "timestamp option"
  ar_actualTime :: "timestamp option"

record execution_result =
  er_scheduledAt :: int
  er_takenAt :: int
  er_workflowId :: string
  er_firstExecutionRunId :: string

definition decode_action_result :: "action_result \<Rightarrow> js_error + execution_result" where
  "decode_action_result r = (case ar_startWorkflowResult r of
     None \<Rightarrow> Inl (TypeError ''Unsupported schedule action'')
   | Some (wid, rid) \<Rightarrow>
       bind_res (requiredTsToDate (ar_scheduleTime r) ''scheduleTime'') (\<lambda>s.
       bind_res (requiredTsToDate (ar_actualTime r) ''actualTime'') (\<lambda>t.
         Inr \<lparr>er_scheduledAt = s, er_takenAt = t, er_workflowId = wid, er_firstExecutionRunId = rid\<rparr>)))"

definition decodeScheduleRecentActions :: "action_result list option \<Rightarrow> js_error + execution_result list" where
  "decodeScheduleRecentActions pb = (case pb of None \<Rightarrow> Inr [] | Some rs \<Rightarrow> map_res decode_action_result rs)"

section \<open>A calendar comes back\<close>

text \<open>
  A component is accepted when it is a value of the field or an object whose start is one. What it means by the documentation of \<^verbatim>\<open>Range\<close>: from its start to its
  end, which is the start when there is none or when it does not come after it, in steps of 1 when there is no other.
\<close>

definition range_item :: "calendar_coders \<Rightarrow> jsval \<Rightarrow> bool" where
  "range_item cf item \<longleftrightarrow> encodeValueFn cf (field_of item ''start'') \<noteq> None"

definition item_ok :: "calendar_coders \<Rightarrow> jsval \<Rightarrow> bool" where
  "item_ok cf item \<longleftrightarrow> range_item cf item \<or> encodeValueFn cf item \<noteq> None"

definition item_step :: "jsval \<Rightarrow> int" where
  "item_step item = (case field_of item ''step'' of JNum n \<Rightarrow> if n > 0 then n else 1 | _ \<Rightarrow> 1)"

definition meant :: "calendar_coders \<Rightarrow> jsval \<Rightarrow> cal_range" where
  "meant cf item =
     (if range_item cf item
      then \<lparr>cr_start = field_of item ''start'',
            cr_end = (case encodeValueFn cf (field_of item ''end'') of
                None \<Rightarrow> field_of item ''start''
              | Some e \<Rightarrow> if e > the (encodeValueFn cf (field_of item ''start'')) then field_of item ''end'' else field_of item ''start''),
            cr_step = item_step item\<rparr>
      else \<lparr>cr_start = item, cr_end = item, cr_step = 1\<rparr>)"

text \<open>The exception: a range with no end that starts below the value with the number 1 is sent with that value as its end.\<close>

definition end_forgotten :: "calendar_coders \<Rightarrow> jsval \<Rightarrow> bool" where
  "end_forgotten cf item \<longleftrightarrow> range_item cf item \<and> field_of item ''end'' = Undefined \<and> the (encodeValueFn cf (field_of item ''start'')) < 1"

definition described_item :: "calendar_coders \<Rightarrow> jsval \<Rightarrow> cal_range" where
  "described_item cf item =
     (if end_forgotten cf item then (meant cf item)\<lparr>cr_end := the (decodeValueFn cf 1)\<rparr> else meant cf item)"

definition described_range :: "calendar_coders \<Rightarrow> proto_range \<Rightarrow> cal_range" where
  "described_range cf r = \<lparr>cr_start = the (decodeValueFn cf (rg_start r)), cr_end = the (decodeValueFn cf (rg_end r)), cr_step = max 1 (rg_step r)\<rparr>"

definition described_component :: "calendar_coders \<Rightarrow> jsval \<Rightarrow> cal_range list" where
  "described_component cf input =
     (if input = Undefined then map (described_range cf) (defaultValue cf)
      else if input = JStr ''*'' then map (described_range cf) (matchAllValue cf)
      else map (described_item cf) (component_items input))"

definition component_ok :: "calendar_coders \<Rightarrow> jsval \<Rightarrow> bool" where
  "component_ok cf input \<longleftrightarrow> input = Undefined \<or> input = JStr ''*'' \<or> list_all (item_ok cf) (component_items input)"

text \<open>
  What the coders of a field promise: the values are numbers or names, decoding undoes encoding, a value has one number, the number 1 is always a value, and
  the fixed ranges are in order.
\<close>

locale calendar_field =
  fixes cf :: calendar_coders
  assumes value_kinds: "encodeValueFn cf u = Some n \<Longrightarrow> (\<exists>i. u = JNum i) \<or> (\<exists>s. u = JStr s)"
    and decode_encode: "encodeValueFn cf u = Some n \<Longrightarrow> decodeValueFn cf n = Some u"
    and same_number: "decodeValueFn cf m = Some u \<Longrightarrow> encodeValueFn cf u = Some n \<Longrightarrow> m = n"
    and one: "decodeValueFn cf 1 \<noteq> None"
    and fixed: "list_all (\<lambda>r. decodeValueFn cf (rg_start r) \<noteq> None \<and> decodeValueFn cf (rg_end r) \<noteq> None \<and> rg_start r \<le> rg_end r)
      (defaultValue cf @ matchAllValue cf)"
begin

lemma no_value: "encodeValueFn cf Undefined = None" "encodeValueFn cf Null = None" "encodeValueFn cf (JObj fs) = None"
  using value_kinds [of Undefined] value_kinds [of Null] value_kinds [of "JObj fs"] by (cases "encodeValueFn cf Undefined"; cases "encodeValueFn cf Null"; cases "encodeValueFn cf (JObj fs)"; auto)+

lemma encode_item_iff: "(\<exists>r. encode_item cf item = Inr r) \<longleftrightarrow> item_ok cf item"
  by (cases item) (auto simp: encode_item_def encode_unit_def item_ok_def range_item_def no_value split: option.splits)

lemma item_roundtrip: "item_ok cf item \<Longrightarrow> bind_res (encode_item cf item) (decode_range cf) = Inr (described_item cf item)"
proof (cases "range_item cf item")
  case True
  then obtain fs s where item: "item = JObj fs" and s: "encodeValueFn cf (field_of item ''start'') = Some s"
    by (cases item) (auto simp: range_item_def no_value)
  have st: "field_of item ''start'' \<noteq> Undefined" using s by (auto simp: no_value)
  have "encode_item cf item = Inr \<lparr>rg_start = s, rg_end = (if field_of item ''end'' \<noteq> Undefined
      then (case encodeValueFn cf (field_of item ''end'') of None \<Rightarrow> s | Some e \<Rightarrow> e) else 1), rg_step = item_step item\<rparr>"
    using s st item by (simp add: encode_item_def item_step_def)
  moreover have "item_step item > 0" by (simp add: item_step_def split: jsval.split)
  ultimately show ?thesis
    using s True one decode_encode [OF s] decode_encode [of "field_of item ''end''"]
    by (auto simp: decode_range_def described_item_def end_forgotten_def meant_def no_value split: option.splits)
next
  case False
  assume "item_ok cf item"
  then obtain v where v: "encodeValueFn cf item = Some v" using False by (auto simp: item_ok_def)
  then have "encode_item cf item = Inr \<lparr>rg_start = v, rg_end = v, rg_step = 1\<rparr>"
    using value_kinds [OF v] by (auto simp: encode_item_def encode_unit_def)
  then show ?thesis using False decode_encode [OF v]
    by (simp add: decode_range_def described_item_def end_forgotten_def meant_def)
qed

lemma items_roundtrip: "map_res (encode_item cf) items = Inr rs \<Longrightarrow> map_res (decode_range cf) rs = Inr (map (described_item cf) items)"
proof (induction items arbitrary: rs)
  case (Cons item items)
  then obtain r rs' where r: "encode_item cf item = Inr r" "map_res (encode_item cf) items = Inr rs'" "rs = r # rs'"
    by (auto simp: bind_res_Inr_iff)
  then have "decode_range cf r = Inr (described_item cf item)"
    using item_roundtrip [of item] encode_item_iff [of item] by auto
  then show ?case using Cons.IH [OF r(2)] r(3) by simp
qed simp

lemma fixed_decoded: "r \<in> set (defaultValue cf @ matchAllValue cf) \<Longrightarrow> decode_range cf r = Inr (described_range cf r)"
proof -
  assume "r \<in> set (defaultValue cf @ matchAllValue cf)"
  then have "decodeValueFn cf (rg_start r) \<noteq> None \<and> decodeValueFn cf (rg_end r) \<noteq> None \<and> rg_start r \<le> rg_end r"
    using fixed unfolding list_all_iff by blast
  then show ?thesis by (cases "rg_start r = rg_end r") (auto simp: decode_range_def described_range_def max_def)
qed

lemma component_roundtrip: "calendar_encoder cf input = Inr rs \<Longrightarrow> calendar_decoder cf (Some rs) = Inr (described_component cf input)"
  by (auto simp: calendar_encoder_def calendar_decoder_def described_component_def fixed_decoded items_roundtrip
      intro: map_res_all_Inr split: if_splits)

lemma map_res_total: "list_all (\<lambda>x. \<exists>y. f x = Inr y) xs \<longleftrightarrow> (\<exists>ys. map_res f xs = Inr ys)"
  by (induction xs) (auto simp: bind_res_Inr_iff)

lemma component_accepted: "(\<exists>rs. calendar_encoder cf input = Inr rs) \<longleftrightarrow> component_ok cf input"
  using map_res_total [of "encode_item cf" "component_items input"]
  by (auto simp: calendar_encoder_def component_ok_def encode_item_iff)

text \<open>A range that was read can be sent again, as the type of the options of an update says: it means the same as before.\<close>

lemma range_sent_again:
  assumes "decode_range cf pb = Inr r" and "encodeValueFn cf (cr_start r) = Some s" and "encodeValueFn cf (cr_end r) = Some e"
  shows "bind_res (encode_item cf (JObj [(''start'', cr_start r), (''end'', cr_end r), (''step'', JNum (cr_step r))])) (decode_range cf) = Inr r"
proof -
  let ?item = "JObj [(''start'', cr_start r), (''end'', cr_end r), (''step'', JNum (cr_step r))]"
  have "item_ok cf ?item" using assms(2) by (simp add: item_ok_def range_item_def)
  moreover have "described_item cf ?item = r"
    using assms no_value(1) same_number [of "rg_start pb"] same_number [of "rg_end pb"]
    by (cases r) (auto simp: described_item_def end_forgotten_def meant_def range_item_def item_step_def decode_range_def split: option.splits if_splits)
  ultimately show ?thesis using item_roundtrip by simp
qed

end

lemma name_index_nth: "name_index xs s = Some i \<Longrightarrow> i < length xs \<and> xs ! i = s"
  by (induction xs arbitrary: i) (auto split: if_splits)

lemma name_at_index: "name_index xs s = Some i \<Longrightarrow> name_at xs (int i) = Some (JStr s)"
  using name_index_nth by (fastforce simp: name_at_def)

lemma index_name_at: "distinct xs \<Longrightarrow> name_at xs i = Some (JStr s) \<Longrightarrow> name_index xs s = Some j \<Longrightarrow> i = int j"
  using name_index_nth [of xs s j] by (auto simp: name_at_def nth_eq_iff_index_eq split: if_splits)

lemmas coders_defs = second_coders_def minute_coders_def hour_coders_def dayOfMonth_coders_def month_coders_def year_coders_def
  dayOfWeek_coders_def from_to_def

lemma names_distinct: "distinct MONTHS" "distinct DAYS_OF_WEEK"
  by (simp_all add: MONTHS_def DAYS_OF_WEEK_def)

lemma names_known:
  "name_at MONTHS 0 = Some (JStr ''JANUARY'')" "name_at MONTHS 11 = Some (JStr ''DECEMBER'')"
  "name_at DAYS_OF_WEEK 0 = Some (JStr ''SUNDAY'')" "name_at DAYS_OF_WEEK 1 = Some (JStr ''MONDAY'')" "name_at DAYS_OF_WEEK 6 = Some (JStr ''SATURDAY'')"
  by (simp_all add: name_at_def MONTHS_def DAYS_OF_WEEK_def)

interpretation second_field: calendar_field second_coders
  by unfold_locales (auto simp: coders_defs number_between_def split: jsval.splits if_splits)

interpretation minute_field: calendar_field minute_coders
  by unfold_locales (auto simp: coders_defs number_between_def split: jsval.splits if_splits)

interpretation hour_field: calendar_field hour_coders
  by unfold_locales (auto simp: coders_defs number_between_def split: jsval.splits if_splits)

interpretation dayOfMonth_field: calendar_field dayOfMonth_coders
  by unfold_locales (auto simp: coders_defs number_between_def split: jsval.splits if_splits)

interpretation year_field: calendar_field year_coders
  by unfold_locales (auto simp: coders_defs any_number_def split: jsval.splits)

interpretation month_field: calendar_field month_coders
proof unfold_locales
  show "m = n" if "decodeValueFn month_coders m = Some u" "encodeValueFn month_coders u = Some n" for m u n
    using that index_name_at [OF names_distinct(1), of "m - 1"] by (fastforce simp: coders_defs monthNameToNumber_def split: jsval.splits)
qed (auto simp: coders_defs monthNameToNumber_def name_at_index names_known split: jsval.splits)

interpretation dayOfWeek_field: calendar_field dayOfWeek_coders
proof unfold_locales
  show "m = n" if "decodeValueFn dayOfWeek_coders m = Some u" "encodeValueFn dayOfWeek_coders u = Some n" for m u n
    using that index_name_at [OF names_distinct(2), of m] by (auto simp: coders_defs dayOfWeekNameToNumber_def split: jsval.splits)
qed (auto simp: coders_defs dayOfWeekNameToNumber_def name_at_index names_known split: jsval.splits)

lemmas components_roundtrip = second_field.component_roundtrip minute_field.component_roundtrip hour_field.component_roundtrip
  dayOfMonth_field.component_roundtrip month_field.component_roundtrip year_field.component_roundtrip dayOfWeek_field.component_roundtrip

definition described_calendar :: "calendar_spec \<Rightarrow> calendar_description" where
  "described_calendar c = \<lparr>cd_second = described_component second_coders (cs_second c), cd_minute = described_component minute_coders (cs_minute c),
     cd_hour = described_component hour_coders (cs_hour c), cd_dayOfMonth = described_component dayOfMonth_coders (cs_dayOfMonth c),
     cd_month = described_component month_coders (cs_month c), cd_year = described_component year_coders (cs_year c),
     cd_dayOfWeek = described_component dayOfWeek_coders (cs_dayOfWeek c), cd_comment = cs_comment c\<rparr>"

lemma calendar_roundtrip: "encode_calendar c = Inr pb \<Longrightarrow> decode_calendar pb = Inr (described_calendar c)"
  by (auto simp: encode_calendar_def decode_calendar_def described_calendar_def bind_res_Inr_iff components_roundtrip)

text \<open>A calendar is sent exactly when each of its components is accepted; otherwise the encoder throws.\<close>

lemma calendar_accepted:
  "(\<exists>pb. encode_calendar c = Inr pb) \<longleftrightarrow> component_ok second_coders (cs_second c) \<and> component_ok minute_coders (cs_minute c) \<and>
     component_ok hour_coders (cs_hour c) \<and> component_ok dayOfMonth_coders (cs_dayOfMonth c) \<and> component_ok month_coders (cs_month c) \<and>
     component_ok year_coders (cs_year c) \<and> component_ok dayOfWeek_coders (cs_dayOfWeek c)"
  unfolding second_field.component_accepted [symmetric] minute_field.component_accepted [symmetric] hour_field.component_accepted [symmetric]
    dayOfMonth_field.component_accepted [symmetric] month_field.component_accepted [symmetric] year_field.component_accepted [symmetric]
    dayOfWeek_field.component_accepted [symmetric]
  by (auto simp: encode_calendar_def bind_res_Inr_iff)

text \<open>A Sunday that was given as the start of a range with no end comes back as Sunday and Monday.\<close>

lemma sunday_range:
  "described_component dayOfWeek_coders (JObj [(''start'', JStr ''SUNDAY'')]) = [\<lparr>cr_start = JStr ''SUNDAY'', cr_end = JStr ''MONDAY'', cr_step = 1\<rparr>] \<and>
   described_component dayOfWeek_coders (JObj [(''start'', JStr ''TUESDAY'')]) = [\<lparr>cr_start = JStr ''TUESDAY'', cr_end = JStr ''TUESDAY'', cr_step = 1\<rparr>]"
  by (simp add: described_component_def component_items_def described_item_def end_forgotten_def range_item_def meant_def item_step_def
      coders_defs dayOfWeekNameToNumber_def DAYS_OF_WEEK_def name_at_def)

section \<open>A specification comes back\<close>

text \<open>
  The number of milliseconds a duration stands for. Durations that are not negative and fit into 64 bits are read back as that number without
  its fraction.
\<close>

definition duration_value :: "(string \<Rightarrow> rat option) \<Rightarrow> duration \<Rightarrow> rat option" where
  "duration_value ms d = (case d of Millis (Num r) \<Rightarrow> Some r | Millis _ \<Rightarrow> None | MsString s \<Rightarrow> ms s)"

definition duration_ok :: "(string \<Rightarrow> rat option) \<Rightarrow> duration \<Rightarrow> bool" where
  "duration_ok ms d = (case duration_value ms d of None \<Rightarrow> False | Some r \<Rightarrow> 0 \<le> r \<and> r < 2 ^ 63)"

definition duration_ms :: "(string \<Rightarrow> rat option) \<Rightarrow> duration \<Rightarrow> int" where
  "duration_ms ms d = (case duration_value ms d of None \<Rightarrow> 0 | Some r \<Rightarrow> \<lfloor>r\<rfloor>)"

lemma msNumberToTs_floor:
  assumes "0 \<le> r" and "r < 2 ^ 63"
  shows "\<exists>t. msNumberToTs (Num r) = Inr t \<and> tsToMs (Some t) = Inr \<lfloor>r\<rfloor>"
proof -
  have "\<lfloor>js_rem r 1000\<rfloor> = \<lfloor>r\<rfloor> - 1000 * \<lfloor>r / 1000\<rfloor>"
    using assms(1) floor_diff_of_int [of r "1000 * \<lfloor>r / 1000\<rfloor>"] by (simp add: js_rem_def)
  then have sum: "\<lfloor>r / 1000\<rfloor> * 1000 + \<lfloor>js_rem r 1000 * 1000000 / 1000000\<rfloor> = \<lfloor>r\<rfloor>" by simp
  have "0 \<le> \<lfloor>r\<rfloor>" "\<lfloor>r\<rfloor> < 2 ^ 63" using assms by (simp_all add: floor_less_iff)
  then have "tsToMs (Some \<lparr>seconds = Some \<lfloor>r / 1000\<rfloor>, nanos = Some (js_rem r 1000 * 1000000)\<rparr>) = Inr \<lfloor>r\<rfloor>"
    using tsToMs_signed [of "\<lfloor>r / 1000\<rfloor>" "js_rem r 1000 * 1000000"] sum by simp
  then show ?thesis by (simp add: msNumberToTs_def)
qed

lemma duration_roundtrip: "duration_ok ms d \<Longrightarrow> \<exists>t. msToTs ms d = Inr t \<and> tsToMs (Some t) = Inr (duration_ms ms d)"
  using msNumberToTs_floor
  by (cases d) (auto simp: duration_ok_def duration_ms_def duration_value_def msToTs_def msWithValidation_def split: option.splits jsnum.splits)

lemma optional_duration_roundtrip:
  "pred_option (duration_ok ms) d \<Longrightarrow> \<exists>t. msOptionalToTs ms d = Inr t \<and> optionalTsToMs t = Inr (map_option (duration_ms ms) d)"
  using duration_roundtrip by (cases d) (fastforce simp: msOptionalToTs_def optionalTsToMs_def)+

definition date_ok :: "int \<Rightarrow> bool" where
  "date_ok d \<longleftrightarrow> 0 \<le> d \<and> d < 2 ^ 63"

lemma optional_date_roundtrip:
  assumes "pred_option date_ok d"
  shows "\<exists>t. optionalDateToTs d = Inr t \<and> optionalTsToDate t = Inr d"
proof (cases d)
  case (Some i)
  then have "\<exists>t. msNumberToTs (Num (of_int i)) = Inr t \<and> tsToMs (Some t) = Inr i"
    using msNumberToTs_floor [of "of_int i"] assms by (simp add: date_ok_def)
  then show ?thesis using Some by (auto simp: optionalDateToTs_def optionalTsToDate_def)
qed (simp add: optionalDateToTs_def optionalTsToDate_def)

text \<open>
  A message after it went over the wire, as the protobuf runtime delivers it: a list that was not set is empty, a string empty, a boolean false, and an
  enumeration 0. Messages that were not set stay absent.
\<close>

definition wired_calendar :: "proto_calendar \<Rightarrow> proto_calendar" where
  "wired_calendar pb = pb\<lparr>pc_comment := Some (or_default (pc_comment pb) [])\<rparr>"

definition wired_calendars :: "proto_calendar list option \<Rightarrow> proto_calendar list option" where
  "wired_calendars cs = Some (map wired_calendar (or_default cs []))"

definition wired_spec :: "proto_schedule_spec \<Rightarrow> proto_schedule_spec" where
  "wired_spec pb = pb\<lparr>pp_structuredCalendar := wired_calendars (pp_structuredCalendar pb), pp_interval := Some (or_default (pp_interval pb) []),
     pp_cronString := Some (or_default (pp_cronString pb) []), pp_excludeStructuredCalendar := wired_calendars (pp_excludeStructuredCalendar pb),
     pp_timezoneName := Some (or_default (pp_timezoneName pb) [])\<rparr>"

definition described_calendars :: "calendar_spec list option \<Rightarrow> calendar_description list" where
  "described_calendars cs = map (\<lambda>c. (described_calendar c)\<lparr>cd_comment := Some (or_default (cs_comment c) [])\<rparr>) (or_default cs [])"

definition described_spec :: "(string \<Rightarrow> rat option) \<Rightarrow> schedule_spec \<Rightarrow> spec_description" where
  "described_spec ms spec = \<lparr>sd_calendars = described_calendars (sp_calendars spec),
     sd_intervals = map (\<lambda>(e, p). (Some (duration_ms ms e), map_option (duration_ms ms) p)) (or_default (sp_intervals spec) []),
     sd_skip = described_calendars (sp_skip spec), sd_startAt = sp_startAt spec, sd_endAt = sp_endAt spec,
     sd_jitter = map_option (duration_ms ms) (sp_jitter spec), sd_timezone = Some (or_default (sp_timezone spec) [])\<rparr>"

definition spec_times_ok :: "(string \<Rightarrow> rat option) \<Rightarrow> schedule_spec \<Rightarrow> bool" where
  "spec_times_ok ms spec \<longleftrightarrow> list_all (\<lambda>(e, p). duration_ok ms e \<and> pred_option (duration_ok ms) p) (or_default (sp_intervals spec) []) \<and>
     pred_option date_ok (sp_startAt spec) \<and> pred_option date_ok (sp_endAt spec) \<and> pred_option (duration_ok ms) (sp_jitter spec)"

lemma wired_calendar_roundtrip:
  assumes "encode_calendar c = Inr pb"
  shows "decode_calendar (wired_calendar pb) = Inr ((described_calendar c)\<lparr>cd_comment := Some (or_default (cs_comment c) [])\<rparr>)"
proof -
  have "pc_comment pb = cs_comment c" using assms by (auto simp: encode_calendar_def bind_res_Inr_iff)
  then show ?thesis using calendar_roundtrip [OF assms] by (auto simp: decode_calendar_def wired_calendar_def described_calendar_def bind_res_Inr_iff)
qed

lemma map_res_roundtrip:
  assumes "map_res f xs = Inr ys" and "\<And>x y. x \<in> set xs \<Longrightarrow> f x = Inr y \<Longrightarrow> g (h y) = Inr (k x)"
  shows "map_res g (map h ys) = Inr (map k xs)"
  using assms by (induction xs arbitrary: ys) (auto simp: bind_res_Inr_iff)

lemma calendars_roundtrip:
  "encodeOptionalStructuredCalendarSpecs cs = Inr pbs \<Longrightarrow>
     decodeOptionalStructuredCalendarSpecs (wired_calendars pbs) = Inr (described_calendars cs)"
  by (cases cs) (auto simp: encodeOptionalStructuredCalendarSpecs_def decodeOptionalStructuredCalendarSpecs_def compile_optional_def wired_calendars_def
      described_calendars_def or_default_def bind_res_Inr_iff wired_calendar_roundtrip intro!: map_res_roundtrip)

lemma interval_roundtrip:
  assumes "duration_ok ms (fst i)" and "pred_option (duration_ok ms) (snd i)" and "encode_interval ms i = Inr x"
  shows "decode_interval x = Inr (Some (duration_ms ms (fst i)), map_option (duration_ms ms) (snd i))"
  using duration_roundtrip [OF assms(1)] optional_duration_roundtrip [OF assms(2)] assms(3)
  by (auto simp: encode_interval_def decode_interval_def optionalTsToMs_def)

lemma intervals_roundtrip:
  assumes "list_all (\<lambda>(e, p). duration_ok ms e \<and> pred_option (duration_ok ms) p) (or_default is [])"
    and "compile_optional (map_res (encode_interval ms)) is = Inr xs"
  shows "map_res decode_interval (or_default xs []) = Inr (map (\<lambda>(e, p). (Some (duration_ms ms e), map_option (duration_ms ms) p)) (or_default is []))"
proof (cases "is")
  case (Some js)
  then obtain ys where ys: "map_res (encode_interval ms) js = Inr ys" "xs = Some ys" using assms(2) by (auto simp: compile_optional_def bind_res_Inr_iff)
  have "map_res decode_interval (map (\<lambda>y. y) ys) = Inr (map (\<lambda>(e, p). (Some (duration_ms ms e), map_option (duration_ms ms) p)) js)"
    by (rule map_res_roundtrip [OF ys(1)]) (use assms(1) Some interval_roundtrip in \<open>fastforce simp: list_all_iff or_default_def\<close>)
  then show ?thesis using Some ys(2) by (simp add: or_default_def)
qed (use assms(2) in \<open>auto simp: compile_optional_def or_default_def\<close>)

lemma spec_roundtrip:
  assumes "encodeScheduleSpec ms spec = Inr pb" and "spec_times_ok ms spec"
  shows "decodeScheduleSpec (wired_spec pb) = Inr (described_spec ms spec)"
proof -
  obtain cal ivs skip st et j where e: "encodeOptionalStructuredCalendarSpecs (sp_calendars spec) = Inr cal"
      "compile_optional (map_res (encode_interval ms)) (sp_intervals spec) = Inr ivs" "encodeOptionalStructuredCalendarSpecs (sp_skip spec) = Inr skip"
      "optionalDateToTs (sp_startAt spec) = Inr st" "optionalDateToTs (sp_endAt spec) = Inr et" "msOptionalToTs ms (sp_jitter spec) = Inr j"
      "pb = \<lparr>pp_structuredCalendar = cal, pp_interval = ivs, pp_cronString = sp_cronExpressions spec, pp_excludeStructuredCalendar = skip,
        pp_startTime = st, pp_endTime = et, pp_jitter = j, pp_timezoneName = sp_timezone spec\<rparr>"
    using assms(1) by (auto simp: encodeScheduleSpec_def bind_res_Inr_iff)
  have ok: "list_all (\<lambda>(e, p). duration_ok ms e \<and> pred_option (duration_ok ms) p) (or_default (sp_intervals spec) [])"
    "pred_option date_ok (sp_startAt spec)" "pred_option date_ok (sp_endAt spec)" "pred_option (duration_ok ms) (sp_jitter spec)"
    using assms(2) by (simp_all add: spec_times_ok_def)
  have "optionalTsToDate st = Inr (sp_startAt spec)" "optionalTsToDate et = Inr (sp_endAt spec)"
    "optionalTsToMs j = Inr (map_option (duration_ms ms) (sp_jitter spec))"
    using optional_date_roundtrip [OF ok(2)] optional_date_roundtrip [OF ok(3)] optional_duration_roundtrip [OF ok(4)] e(4-6) by auto
  moreover have "or_default (Some xs) ys = xs" for xs ys :: "(timestamp option \<times> timestamp option) list" by (simp add: or_default_def)
  ultimately show ?thesis
    using calendars_roundtrip [OF e(1)] calendars_roundtrip [OF e(3)] intervals_roundtrip [OF ok(1) e(2)]
    by (simp add: e(7) decodeScheduleSpec_def wired_spec_def described_spec_def)
qed

section \<open>An action comes back\<close>

definition wired_start :: "payload option proto_start \<Rightarrow> payload proto_start" where
  "wired_start s = \<lparr>ps_workflowId = ps_workflowId s, ps_workflowType = ps_workflowType s, ps_input = ps_input s, ps_taskQueue = ps_taskQueue s,
     ps_executionTimeout = ps_executionTimeout s, ps_runTimeout = ps_runTimeout s, ps_taskTimeout = ps_taskTimeout s,
     ps_retryPolicy = ps_retryPolicy s, ps_memo = map_option (map (\<lambda>(k, p). (k, the p))) (ps_memo s), ps_searchAttributes = ps_searchAttributes s,
     ps_header = ps_header s, ps_userMetadata = ps_userMetadata s, ps_priority = ps_priority s\<rparr>"

text \<open>Options of an action that survive the way: plain values, ordinary durations, no search attributes.\<close>

definition action_ok :: "(string \<Rightarrow> rat option) \<Rightarrow> compiled_action \<Rightarrow> bool" where
  "action_ok ms ca \<longleftrightarrow> list_all plain_value (ca_args ca) \<and> list_all (\<lambda>(k, v). plain_value v) (or_default (ka_memo (ca_action ca)) []) \<and>
     pred_option (duration_ok ms) (ka_executionTimeout (ca_action ca)) \<and> pred_option (duration_ok ms) (ka_runTimeout (ca_action ca)) \<and>
     pred_option (duration_ok ms) (ka_taskTimeout (ca_action ca)) \<and>
     ka_searchAttributes (ca_action ca) = None \<and> ka_typedSearchAttributes (ca_action ca) = None"

definition describes_action :: "(string \<Rightarrow> rat option) \<Rightarrow> compiled_action \<Rightarrow> action_description \<Rightarrow> bool" where
  "describes_action ms ca d \<longleftrightarrow> ad_workflowId d = ca_workflowId ca \<and> ad_workflowType d = ca_workflowType ca \<and>
     ad_taskQueue d = ka_taskQueue (ca_action ca) \<and> ad_args d = ca_args ca \<and> ad_memo d = ka_memo (ca_action ca) \<and>
     ad_executionTimeout d = map_option (duration_ms ms) (ka_executionTimeout (ca_action ca)) \<and>
     ad_runTimeout d = map_option (duration_ms ms) (ka_runTimeout (ca_action ca)) \<and>
     ad_taskTimeout d = map_option (duration_ms ms) (ka_taskTimeout (ca_action ca)) \<and>
     ad_staticSummary d = string_value (ka_staticSummary (ca_action ca)) \<and> ad_staticDetails d = string_value (ka_staticDetails (ca_action ca))"

lemma memo_roundtrip:
  assumes "payloadConverter dc = DefaultPayloadConverter sv" and "list_all lossless_codec (payloadCodecs dc)"
    and "list_all (\<lambda>(k, v). plain_value v) (or_default m [])" and "compile_optional (\<lambda>m. encodeMapToPayloads dc m ctx) m = Inr memo"
  shows "decodeMapFromPayloads dc (map_option (map (\<lambda>(k, p). (k, the p))) memo) ctx = Inr m"
proof (cases m)
  case (Some es)
  then obtain fs where fs: "encodeMapToPayloads dc es ctx = Inr (map (\<lambda>(k, p). (k, Some p)) fs)" "decodeMapFromPayloads dc (Some fs) ctx = Inr (Some es)"
    using map_through_codecs [OF assms(1,2), of es ctx] assms(3) by (auto simp: or_default_def)
  have "map (\<lambda>(k, p). (k, the p)) (map (\<lambda>(k, p). (k, Some p)) fs) = fs" by (simp add: case_prod_unfold o_def)
  then show ?thesis using fs Some assms(4) by (auto simp: compile_optional_def)
qed (use assms(4) in \<open>auto simp: compile_optional_def decodeMapFromPayloads_def\<close>)

lemma decompile_total: "\<exists>r. decompileRetryPolicy q = Inr r"
  by (auto simp: decompileRetryPolicy_def optionalTsToMs_def tsToMs_def split: option.split)

lemma no_attributes: "decodeSearchAttributes env None = Inr []" "decodeTypedSearchAttributes env None = Inr []"
  by (simp_all add: decodeSearchAttributes_def decodeTypedSearchAttributes_def new_TypedSearchAttributes_def)

lemma action_roundtrip:
  assumes "payloadConverter (cl_data cl) = DefaultPayloadConverter sv" and "list_all lossless_codec (payloadCodecs (cl_data cl))"
    and "action_ok (cl_ms cl) ca" and "encodeScheduleAction cl ca headers = Inr pb"
  shows "\<exists>d. decodeScheduleAction cl (Some (wired_start pb)) = Inr d \<and> describes_action (cl_ms cl) ca d"
proof -
  define ctx where "ctx = Some (client_context cl (ca_workflowId ca))"
  let ?a = "ca_action ca" and ?dc = "cl_data cl" and ?ms = "cl_ms cl"
  obtain inp et rt tt rp memo um prio where
    e: "encodeToPayloadsWithContext ?dc ctx (ca_args ca) None = Inr inp" "msOptionalToTs ?ms (ka_executionTimeout ?a) = Inr et"
      "msOptionalToTs ?ms (ka_runTimeout ?a) = Inr rt" "msOptionalToTs ?ms (ka_taskTimeout ?a) = Inr tt"
      "compile_optional (\<lambda>m. encodeMapToPayloads ?dc m ctx) (ka_memo ?a) = Inr memo"
      "encodeUserMetadata ?dc (ka_staticSummary ?a) (ka_staticDetails ?a) ctx = Inr um"
    and pb: "pb = \<lparr>ps_workflowId = ca_workflowId ca, ps_workflowType = Some (ca_workflowType ca), ps_input = inp,
             ps_taskQueue = Some (ka_taskQueue ?a), ps_executionTimeout = et, ps_runTimeout = rt, ps_taskTimeout = tt,
             ps_retryPolicy = rp, ps_memo = memo, ps_searchAttributes = None, ps_header = Some headers, ps_userMetadata = um,
             ps_priority = prio\<rparr>"
    using assms(3,4) by (auto simp: encodeScheduleAction_def bind_res_Inr_iff Let_def ctx_def encode_attributes_def action_ok_def)
  have ok: "list_all plain_value (ca_args ca)" "list_all (\<lambda>(k, v). plain_value v) (or_default (ka_memo ?a) [])"
      "pred_option (duration_ok ?ms) (ka_executionTimeout ?a)" "pred_option (duration_ok ?ms) (ka_runTimeout ?a)"
      "pred_option (duration_ok ?ms) (ka_taskTimeout ?a)"
    using assms(3) by (simp_all add: action_ok_def)
  have "decodeArrayFromPayloads ?dc inp ctx None = Inr (ca_args ca)" using values_through_codecs [OF assms(1,2) ok(1), of ctx] e(1) by auto
  moreover have "decodeMapFromPayloads ?dc (map_option (map (\<lambda>(k, p). (k, the p))) memo) ctx = Inr (ka_memo ?a)"
    by (rule memo_roundtrip [OF assms(1,2) ok(2) e(5)])
  moreover have "decodeUserMetadata ?dc um ctx = Inr (string_value (ka_staticSummary ?a), string_value (ka_staticDetails ?a))"
    using metadata_through_codecs [OF assms(1,2), of "ka_staticSummary ?a" "ka_staticDetails ?a" ctx] e(6) by auto
  moreover have "optionalTsToMs et = Inr (map_option (duration_ms ?ms) (ka_executionTimeout ?a))" "optionalTsToMs rt = Inr (map_option (duration_ms ?ms) (ka_runTimeout ?a))"
      "optionalTsToMs tt = Inr (map_option (duration_ms ?ms) (ka_taskTimeout ?a))"
    using optional_duration_roundtrip [OF ok(3)] optional_duration_roundtrip [OF ok(4)] optional_duration_roundtrip [OF ok(5)] e(2-4) by auto
  moreover obtain r where "decompileRetryPolicy rp = Inr r" using decompile_total by blast
  ultimately show ?thesis
    by (simp add: decodeScheduleAction_def pb wired_start_def ctx_def [symmetric] Let_def name_of_message_def no_attributes describes_action_def)
qed

end
