(* ===== verification/ScheduleClient.thy ===== *)
theory ScheduleClient
  imports Schedules
begin

text \<open>
  \<^verbatim>\<open>packages/client/src/schedule-client.ts\<close>: creating, describing, listing, updating, patching and deleting schedules, and the errors
  the client throws. As for workflows, the service and the storage behind it are a state that every remote procedure call reads and
  changes, and the calls and the visits of messages are functions of the client record.
\<close>

section \<open>Options and messages\<close>

record schedule_options =
  sc_scheduleId :: string
  sc_spec :: schedule_spec
  sc_action :: schedule_action
  sc_policies :: "schedule_policies option"
  sc_state :: "schedule_state option"
  sc_memo :: "(string \<times> jsval) list option"
  sc_searchAttributes :: "(string \<times> sa_value list option) list option"
  sc_typedSearchAttributes :: "typed_input option"

record compiled_schedule =
  cz_options :: schedule_options
  cz_action :: compiled_action

record schedule_update =
  su_spec :: schedule_spec
  su_action :: schedule_action
  su_policies :: "schedule_policies option"
  su_state :: "schedule_state option"
  su_searchAttributes :: "(string \<times> sa_value list option) list option"
  su_typedSearchAttributes :: "typed_input option"

text \<open>\<^verbatim>\<open>temporal.api.schedule.v1.Schedule\<close>. The action is a message that may be missing, and it may hold no workflow to start.\<close>

record 'm proto_schedule =
  sh_spec :: "proto_schedule_spec option"
  sh_action :: "'m proto_start option option"
  sh_policies :: "proto_policies option"
  sh_state :: "proto_state option"

type_synonym backfill_request = "timestamp option \<times> timestamp option \<times> enum_value option"

record create_schedule_request =
  zq_namespace :: string
  zq_identity :: string
  zq_requestId :: string
  zq_scheduleId :: string
  zq_schedule :: "payload option proto_schedule"
  zq_memo :: "(string \<times> payload option) list option"
  zq_searchAttributes :: "(string \<times> payload) list option"
  zq_triggerImmediately :: "enum_value option"
  zq_backfillRequest :: "backfill_request list option"

record update_schedule_request =
  zu_namespace :: string
  zu_scheduleId :: string
  zu_schedule :: "payload option proto_schedule"
  zu_identity :: string
  zu_requestId :: string
  zu_searchAttributes :: "(string \<times> payload) list option"

datatype schedule_patch =
    PausePatch string
  | UnpausePatch string
  | TriggerPatch "enum_value option"
  | BackfillPatch "backfill_request list"

record patch_schedule_request =
  zp_namespace :: string
  zp_scheduleId :: string
  zp_identity :: string
  zp_requestId :: string
  zp_patch :: schedule_patch

record schedule_info =
  zi_recentActions :: "action_result list option"
  zi_futureActionTimes :: "timestamp list option"
  zi_createTime :: "timestamp option"
  zi_updateTime :: "timestamp option"
  zi_runningWorkflows :: "(string \<times> string) list option"
  zi_missedCatchupWindow :: "int option"
  zi_overlapSkipped :: "int option"
  zi_actionCount :: "int option"

record describe_schedule_response =
  zr_schedule :: "payload proto_schedule option"
  zr_memo :: "(string \<times> payload) list option"
  zr_searchAttributes :: "(string \<times> payload) list option"
  zr_info :: "schedule_info option"

record list_info =
  zl_spec :: "proto_schedule_spec option"
  zl_workflowType :: "string option"
  zl_notes :: "string option"
  zl_paused :: "bool option"
  zl_recentActions :: "action_result list option"
  zl_futureActionTimes :: "timestamp list option"

record list_entry =
  ze_scheduleId :: string
  ze_memo :: "(string \<times> payload) list option"
  ze_searchAttributes :: "(string \<times> payload) list option"
  ze_info :: "list_info option"

record list_request =
  zt_nextPageToken :: "string option"
  zt_namespace :: string
  zt_maximumPageSize :: "int option"
  zt_query :: "string option"

record list_response =
  zs_schedules :: "list_entry list option"
  zs_nextPageToken :: "string option"

section \<open>Descriptions\<close>

record schedule_description =
  de_scheduleId :: string
  de_spec :: spec_description
  de_action :: action_description
  de_memo :: "(string \<times> jsval) list option"
  de_searchAttributes :: "(string \<times> sa_value list) list"
  de_typedSearchAttributes :: typed_attributes
  de_overlap :: string
  de_catchupWindow :: int
  de_pauseOnFailure :: bool
  de_paused :: bool
  de_note :: "string option"
  de_remainingActions :: "int option"
  de_recentActions :: "execution_result list"
  de_nextActionTimes :: "int list"
  de_createdAt :: int
  de_lastUpdatedAt :: "int option"
  de_runningActions :: "(string \<times> string) list"
  de_numActionsMissedCatchupWindow :: int
  de_numActionsSkippedOverlap :: int
  de_numActionsTaken :: int
  de_raw :: describe_schedule_response

record schedule_summary =
  sy_scheduleId :: string
  sy_spec :: spec_description
  sy_workflowType :: "string option"
  sy_memo :: "(string \<times> jsval) list option"
  sy_searchAttributes :: "(string \<times> sa_value list) list"
  sy_typedSearchAttributes :: typed_attributes
  sy_paused :: bool
  sy_note :: "string option"
  sy_recentActions :: "execution_result list"
  sy_nextActionTimes :: "int list"

section \<open>The client\<close>

text \<open>The options and tools a client for schedules shares with the one for workflows are those of \<open>zc_base\<close>.\<close>

record 'w schedule_client =
  zc_base :: "'w client"
  zc_interceptors :: "(compiled_schedule \<times> (string \<times> payload) list, ('w, string) cl_act) interceptor list"
  store_createSchedule :: "create_schedule_request \<Rightarrow> ('w, create_schedule_request) cl_act"
  rpc_createSchedule :: "create_schedule_request \<Rightarrow> ('w, string) cl_act"
  rpc_describeSchedule :: "string \<times> string \<Rightarrow> ('w, describe_schedule_response) cl_act"
  fetch_describeSchedule :: "describe_schedule_response \<Rightarrow> ('w, describe_schedule_response) cl_act"
  store_updateSchedule :: "update_schedule_request \<Rightarrow> ('w, update_schedule_request) cl_act"
  rpc_updateSchedule :: "update_schedule_request \<Rightarrow> ('w, unit) cl_act"
  rpc_patchSchedule :: "patch_schedule_request \<Rightarrow> ('w, unit) cl_act"
  rpc_deleteSchedule :: "string \<times> string \<times> string \<Rightarrow> ('w, unit) cl_act"
  rpc_listSchedules :: "list_request \<Rightarrow> ('w, list_response) cl_act"
  fetch_listSchedules :: "list_response \<Rightarrow> ('w, list_response) cl_act"

definition invalid_spec_prefix :: string where
  "invalid_spec_prefix = ''3 INVALID_ARGUMENT: Invalid schedule spec: ''"

definition rethrowScheduleError :: "proto_decoders \<Rightarrow> client_error \<Rightarrow> string \<Rightarrow> string option \<Rightarrow> client_error" where
  "rethrowScheduleError pd err fallbackMessage scheduleId = (case err of
     GrpcServiceError e \<Rightarrow> (case rethrowKnownErrorTypes pd e of
       Inl e' \<Rightarrow> e'
     | Inr _ \<Rightarrow>
         if ge_code e = grpc_NOT_FOUND then ScheduleNotFoundError (ge_details e) (or_default scheduleId [])
         else if ge_code e = grpc_INVALID_ARGUMENT \<and> starts_with (ge_message e) invalid_spec_prefix
         then Thrown (TypeError (strip_prefix invalid_spec_prefix (ge_message e)))
         else ServiceError fallbackMessage err)
   | _ \<Rightarrow> if is_ExternalStorageError err then ServiceError ''External storage failed'' err
          else ServiceError ''Unexpected error while making gRPC request'' err)"

definition assert_action :: "string \<Rightarrow> schedule_action \<Rightarrow> js_error + unit" where
  "assert_action structureName a =
     (if ka_taskQueue a = []
      then Inl (TypeError (''Missing '' @ structureName @ ''.action.taskQueue for '' @ [CHR 0x27] @ ''startWorkflow'' @ [CHR 0x27] @ '' action''))
      else if ka_workflowType a = WorkflowName []
      then Inl (TypeError (''Missing '' @ structureName @ ''.action.workflowType for '' @ [CHR 0x27] @ ''startWorkflow'' @ [CHR 0x27] @ '' action''))
      else Inr ())"

definition assertRequiredScheduleOptions_create :: "schedule_options \<Rightarrow> js_error + unit" where
  "assertRequiredScheduleOptions_create opts =
     (if sc_scheduleId opts = [] then Inl (TypeError ''Missing ScheduleOptions.scheduleId'')
      else assert_action ''ScheduleOptions'' (sc_action opts))"

definition assertRequiredScheduleOptions_update :: "schedule_update \<Rightarrow> js_error + unit" where
  "assertRequiredScheduleOptions_update opts = assert_action ''ScheduleUpdateOptions'' (su_action opts)"

definition compileScheduleOptions :: "schedule_options \<Rightarrow> js_error + compiled_schedule" where
  "compileScheduleOptions opts =
     bind_res (compile_action (sc_scheduleId opts) (sc_action opts)) (\<lambda>ca. Inr \<lparr>cz_options = opts, cz_action = ca\<rparr>)"

definition compileUpdatedScheduleOptions :: "string \<Rightarrow> schedule_update \<Rightarrow> js_error + schedule_update \<times> compiled_action" where
  "compileUpdatedScheduleOptions scheduleId opts =
     bind_res (compile_action scheduleId (su_action opts)) (\<lambda>ca. Inr (opts, ca))"

section \<open>Creating\<close>

definition ALLOW_ALL :: enum_value where "ALLOW_ALL = EnumNum 6"

text \<open>The schedule of a request, the same when one is created and when one is updated.\<close>

definition encode_schedule ::
  "'w client \<Rightarrow> schedule_spec \<Rightarrow> compiled_action \<Rightarrow> schedule_policies option \<Rightarrow> schedule_state option \<Rightarrow> (string \<times> payload) list \<Rightarrow>
     js_error + payload option proto_schedule" where
  "encode_schedule cl spec action policies st headers =
     bind_res (encodeScheduleSpec (cl_ms cl) spec) (\<lambda>sp.
     bind_res (encodeScheduleAction cl action headers) (\<lambda>ac.
     bind_res (encodeSchedulePolicies (cl_ms cl) policies) (\<lambda>po.
       Inr \<lparr>sh_spec = Some sp, sh_action = Some (Some ac), sh_policies = Some po, sh_state = Some (encodeScheduleState st)\<rparr>)))"

definition encode_backfill :: "backfill \<Rightarrow> js_error + backfill_request" where
  "encode_backfill b =
     bind_res (optionalDateToTs (Some (bf_start b))) (\<lambda>s.
     bind_res (optionalDateToTs (Some (bf_end b))) (\<lambda>e.
     bind_res (encode_overlap (bf_overlap b)) (\<lambda>op. Inr (s, e, op))))"

definition create_request ::
  "'w client \<Rightarrow> string \<Rightarrow> compiled_schedule \<Rightarrow> (string \<times> payload) list \<Rightarrow> js_error + create_schedule_request" where
  "create_request cl requestId cz headers =
     (let opts = cz_options cz; st = sc_state opts in
      bind_res (encode_schedule cl (sc_spec opts) (cz_action cz) (sc_policies opts) st headers) (\<lambda>sch.
      bind_res (compile_optional (\<lambda>m. encodeMapToPayloads (cl_data cl) m None) (sc_memo opts)) (\<lambda>memo.
      bind_res (encode_attributes (cl_sa cl) (sc_searchAttributes opts) (sc_typedSearchAttributes opts)) (\<lambda>sas.
      bind_res (compile_optional (map_res encode_backfill) (Option.bind st ss_backfill)) (\<lambda>bf.
        Inr \<lparr>zq_namespace = cl_namespace cl, zq_identity = cl_identity cl, zq_requestId = requestId, zq_scheduleId = sc_scheduleId opts,
             zq_schedule = sch, zq_memo = memo, zq_searchAttributes = sas,
             zq_triggerImmediately = (if (case st of None \<Rightarrow> False | Some s \<Rightarrow> ss_triggerImmediately s) then Some ALLOW_ALL else None),
             zq_backfillRequest = bf\<rparr>)))))"

text \<open>What the handler throws when the call fails.\<close>

definition rethrow_create_error :: "'w client \<Rightarrow> string \<Rightarrow> client_error \<Rightarrow> client_error" where
  "rethrow_create_error cl scheduleId err = (case err of
     GrpcServiceError g \<Rightarrow>
       if ge_code g = grpc_ALREADY_EXISTS then ScheduleAlreadyRunning ''Schedule already exists and is running'' scheduleId
       else rethrowScheduleError (cl_decoders cl) err ''Failed to create schedule'' (Some scheduleId)
   | _ \<Rightarrow> rethrowScheduleError (cl_decoders cl) err ''Failed to create schedule'' (Some scheduleId))"

definition createScheduleHandler :: "'w schedule_client \<Rightarrow> compiled_schedule \<times> (string \<times> payload) list \<Rightarrow> ('w, string) cl_act" where
  "createScheduleHandler zc inp =
     eff_bind (new_uuid (zc_base zc)) (\<lambda>requestId.
     eff_bind (lift_js (create_request (zc_base zc) requestId (fst inp) (snd inp))) (\<lambda>req.
     rethrow (eff_bind (store_createSchedule zc req) (rpc_createSchedule zc))
       (rethrow_create_error (zc_base zc) (sc_scheduleId (cz_options (fst inp))))))"

text \<open>\<^verbatim>\<open>create\<close> with \<^verbatim>\<open>_createSchedule\<close>; the handle it returns is the id.\<close>

definition create_schedule :: "'w schedule_client \<Rightarrow> schedule_options \<Rightarrow> ('w, string) cl_act" where
  "create_schedule zc opts =
     eff_bind (lift_js (assertRequiredScheduleOptions_create opts)) (\<lambda>_.
     eff_bind (lift_js (compileScheduleOptions opts)) (\<lambda>cz.
     eff_bind (composeInterceptors (zc_interceptors zc) (createScheduleHandler zc) (cz, [])) (\<lambda>_.
       eff_return (sc_scheduleId opts))))"

section \<open>Describing\<close>

definition describeSchedule :: "'w schedule_client \<Rightarrow> string \<Rightarrow> ('w, describe_schedule_response) cl_act" where
  "describeSchedule zc scheduleId =
     rethrow (eff_bind (rpc_describeSchedule zc (cl_namespace (zc_base zc), scheduleId)) (fetch_describeSchedule zc))
       (\<lambda>e. rethrowScheduleError (cl_decoders (zc_base zc)) e ''Failed to describe schedule'' (Some scheduleId))"

definition wire_enum :: "enum_value option \<Rightarrow> enum_input" where
  "wire_enum v = (case v of None \<Rightarrow> NoEnum | Some (EnumNum n) \<Rightarrow> EnumNumber n | Some (InheritedMember m) \<Rightarrow> EnumOther ''function'')"

definition decode_policies :: "proto_policies option \<Rightarrow> js_error + string \<times> int \<times> bool" where
  "decode_policies p =
     bind_res (decodeEnum scheduleOverlapPolicy_table (wire_enum (Option.bind p pq_overlapPolicy))) (\<lambda>ov.
     bind_res (optionalTsToMs (Option.bind p pq_catchupWindow)) (\<lambda>cw.
       Inr (or_default ov ''SKIP'', or_default cw (365 * 24 * 60 * 60 * 1000), Option.bind p pq_pauseOnFailure = Some True)))"

definition decode_remaining :: "proto_state option \<Rightarrow> int option" where
  "decode_remaining st = (case st of
     None \<Rightarrow> None
   | Some s \<Rightarrow> if pt_limitedActions s then Some (or_default (pt_remainingActions s) 0) else None)"

definition decode_times :: "timestamp list option \<Rightarrow> js_error + int list" where
  "decode_times ts = map_res tsToDate (or_default ts [])"

definition decode_description :: "'w client \<Rightarrow> string \<Rightarrow> describe_schedule_response \<Rightarrow> js_error + schedule_description" where
  "decode_description cl scheduleId raw = (case zr_schedule raw of
     None \<Rightarrow> Inl (PlainError ''Received invalid Schedule description from server'')
   | Some sch \<Rightarrow> (case (sh_spec sch, sh_action sch) of
       (Some sp, Some ac) \<Rightarrow>
         (let info = zr_info raw in
          bind_res (decodeScheduleSpec sp) (\<lambda>spec.
          bind_res (decodeScheduleAction cl ac) (\<lambda>action.
          bind_res (decodeMapFromPayloads (cl_data cl) (zr_memo raw) None) (\<lambda>memo.
          bind_res (decodeSearchAttributes (cl_sa cl) (zr_searchAttributes raw)) (\<lambda>sas.
          bind_res (decodeTypedSearchAttributes (cl_sa cl) (zr_searchAttributes raw)) (\<lambda>tsas.
          bind_res (decode_policies (sh_policies sch)) (\<lambda>(overlap, catchup, pof).
          bind_res (decodeScheduleRecentActions (Option.bind info zi_recentActions)) (\<lambda>recent.
          bind_res (decode_times (Option.bind info zi_futureActionTimes)) (\<lambda>nxt.
          bind_res (requiredTsToDate (Option.bind info zi_createTime) ''createTime'') (\<lambda>created.
          bind_res (optionalTsToDate (Option.bind info zi_updateTime)) (\<lambda>updated.
            Inr \<lparr>de_scheduleId = scheduleId, de_spec = spec, de_action = action, de_memo = memo, de_searchAttributes = sas,
                 de_typedSearchAttributes = tsas, de_overlap = overlap, de_catchupWindow = catchup, de_pauseOnFailure = pof,
                 de_paused = (Option.bind (sh_state sch) pt_paused = Some True), de_note = Option.bind (sh_state sch) pt_notes,
                 de_remainingActions = decode_remaining (sh_state sch), de_recentActions = recent, de_nextActionTimes = nxt,
                 de_createdAt = created, de_lastUpdatedAt = updated,
                 de_runningActions = decodeScheduleRunningActions (Option.bind info zi_runningWorkflows),
                 de_numActionsMissedCatchupWindow = or_default (Option.bind info zi_missedCatchupWindow) 0,
                 de_numActionsSkippedOverlap = or_default (Option.bind info zi_overlapSkipped) 0,
                 de_numActionsTaken = or_default (Option.bind info zi_actionCount) 0, de_raw = raw\<rparr>)))))))))))
     | _ \<Rightarrow> Inl (PlainError ''Received invalid Schedule description from server'')))"

definition describe :: "'w schedule_client \<Rightarrow> string \<Rightarrow> ('w, schedule_description) cl_act" where
  "describe zc scheduleId =
     eff_bind (describeSchedule zc scheduleId) (\<lambda>raw. lift_js (decode_description (zc_base zc) scheduleId raw))"

section \<open>Updating, patching and deleting\<close>

definition updateSchedule ::
  "'w schedule_client \<Rightarrow> string \<Rightarrow> schedule_update \<times> compiled_action \<Rightarrow> (string \<times> payload) list \<Rightarrow> ('w, unit) cl_act" where
  "updateSchedule zc scheduleId compiled header =
     (let cl = zc_base zc; opts = fst compiled in
      eff_bind (lift_js (encode_schedule cl (su_spec opts) (snd compiled) (su_policies opts) (su_state opts) header)) (\<lambda>sch.
      eff_bind (new_uuid cl) (\<lambda>requestId.
      eff_bind (lift_js (encode_attributes (cl_sa cl) (su_searchAttributes opts) (su_typedSearchAttributes opts))) (\<lambda>sas.
      rethrow (eff_bind (store_updateSchedule zc \<lparr>zu_namespace = cl_namespace cl, zu_scheduleId = scheduleId, zu_schedule = sch,
             zu_identity = cl_identity cl, zu_requestId = requestId, zu_searchAttributes = sas\<rparr>) (rpc_updateSchedule zc))
        (\<lambda>e. rethrowScheduleError (cl_decoders cl) e ''Failed to update schedule'' (Some scheduleId))))))"

text \<open>The headers of the schedule are kept: they are taken from the description the update starts from.\<close>

definition current_header :: "schedule_description \<Rightarrow> (string \<times> payload) list" where
  "current_header d =
     or_default (Option.bind (Option.bind (Option.bind (zr_schedule (de_raw d)) sh_action) (\<lambda>x. x)) ps_header) []"

definition update_schedule ::
  "'w schedule_client \<Rightarrow> string \<Rightarrow> (schedule_description \<Rightarrow> js_error + schedule_update) \<Rightarrow> ('w, unit) cl_act" where
  "update_schedule zc scheduleId updateFn =
     eff_bind (describe zc scheduleId) (\<lambda>current.
     eff_bind (lift_js (updateFn current)) (\<lambda>updated.
     eff_bind (lift_js (assertRequiredScheduleOptions_update updated)) (\<lambda>_.
     eff_bind (lift_js (compileUpdatedScheduleOptions scheduleId updated)) (\<lambda>compiled.
       updateSchedule zc scheduleId compiled (current_header current)))))"

definition patchSchedule :: "'w schedule_client \<Rightarrow> string \<Rightarrow> schedule_patch \<Rightarrow> ('w, unit) cl_act" where
  "patchSchedule zc scheduleId patch =
     (let cl = zc_base zc in
      rethrow (eff_bind (new_uuid cl) (\<lambda>requestId.
          rpc_patchSchedule zc \<lparr>zp_namespace = cl_namespace cl, zp_scheduleId = scheduleId, zp_identity = cl_identity cl,
            zp_requestId = requestId, zp_patch = patch\<rparr>))
        (\<lambda>e. rethrowScheduleError (cl_decoders cl) e ''Failed to patch schedule'' (Some scheduleId)))"

definition delete_schedule :: "'w schedule_client \<Rightarrow> string \<Rightarrow> ('w, unit) cl_act" where
  "delete_schedule zc scheduleId =
     rethrow (rpc_deleteSchedule zc (cl_namespace (zc_base zc), cl_identity (zc_base zc), scheduleId))
       (\<lambda>e. rethrowScheduleError (cl_decoders (zc_base zc)) e ''Failed to delete schedule'' (Some scheduleId))"

definition pause :: "'w schedule_client \<Rightarrow> string \<Rightarrow> string option \<Rightarrow> ('w, unit) cl_act" where
  "pause zc scheduleId note = patchSchedule zc scheduleId (PausePatch (or_default note (''Paused via TypeScript SDK'' @ [CHR 0x22])))"

definition unpause :: "'w schedule_client \<Rightarrow> string \<Rightarrow> string option \<Rightarrow> ('w, unit) cl_act" where
  "unpause zc scheduleId note = patchSchedule zc scheduleId (UnpausePatch (or_default note (''Unpaused via TypeScript SDK'' @ [CHR 0x22])))"

definition trigger :: "'w schedule_client \<Rightarrow> string \<Rightarrow> string option \<Rightarrow> ('w, unit) cl_act" where
  "trigger zc scheduleId overlap =
     eff_bind (lift_js (if overlap = None \<or> overlap = Some [] then Inr (Some ALLOW_ALL)
                        else encodeEnum scheduleOverlapPolicy_table (enum_name overlap))) (\<lambda>op.
       patchSchedule zc scheduleId (TriggerPatch op))"

definition backfill_schedule :: "'w schedule_client \<Rightarrow> string \<Rightarrow> backfill list \<Rightarrow> ('w, unit) cl_act" where
  "backfill_schedule zc scheduleId backfills =
     eff_bind (lift_js (map_res encode_backfill backfills)) (\<lambda>bs. patchSchedule zc scheduleId (BackfillPatch bs))"

section \<open>Listing\<close>

definition empty_proto_spec :: proto_schedule_spec where
  "empty_proto_spec = \<lparr>pp_structuredCalendar = None, pp_interval = None, pp_cronString = None, pp_excludeStructuredCalendar = None,
     pp_startTime = None, pp_endTime = None, pp_jitter = None, pp_timezoneName = None\<rparr>"

definition decode_summary :: "'w client \<Rightarrow> list_entry \<Rightarrow> js_error + schedule_summary" where
  "decode_summary cl raw =
     (let info = ze_info raw in
      bind_res (decodeScheduleSpec (or_default (Option.bind info zl_spec) empty_proto_spec)) (\<lambda>spec.
      bind_res (decodeMapFromPayloads (cl_data cl) (ze_memo raw) None) (\<lambda>memo.
      bind_res (decodeSearchAttributes (cl_sa cl) (ze_searchAttributes raw)) (\<lambda>sas.
      bind_res (decodeTypedSearchAttributes (cl_sa cl) (ze_searchAttributes raw)) (\<lambda>tsas.
      bind_res (decodeScheduleRecentActions (Option.bind info zl_recentActions)) (\<lambda>recent.
      bind_res (decode_times (Option.bind info zl_futureActionTimes)) (\<lambda>nxt.
        Inr \<lparr>sy_scheduleId = ze_scheduleId raw, sy_spec = spec, sy_workflowType = Option.bind info zl_workflowType, sy_memo = memo,
             sy_searchAttributes = sas, sy_typedSearchAttributes = tsas, sy_paused = (Option.bind info zl_paused = Some True),
             sy_note = Option.bind info zl_notes, sy_recentActions = recent, sy_nextActionTimes = nxt\<rparr>)))))))"

text \<open>The summaries an iteration over a page yields, and the error that ends it early.\<close>

fun yield_summaries :: "'w client \<Rightarrow> list_entry list \<Rightarrow> schedule_summary list \<times> client_error option" where
  "yield_summaries cl [] = ([], None)"
| "yield_summaries cl (e # es) = (case decode_summary cl e of
     Inl err \<Rightarrow> ([], Some (Thrown err))
   | Inr s \<Rightarrow> (case yield_summaries cl es of (ss, r) \<Rightarrow> (s # ss, r)))"

definition list_page :: "'w schedule_client \<Rightarrow> int option \<Rightarrow> string option \<Rightarrow> string option \<Rightarrow> ('w, list_response) cl_act" where
  "list_page zc pageSize query token =
     rethrow (eff_bind (rpc_listSchedules zc \<lparr>zt_nextPageToken = token, zt_namespace = cl_namespace (zc_base zc),
          zt_maximumPageSize = pageSize, zt_query = query\<rparr>) (fetch_listSchedules zc))
       (\<lambda>e. rethrowScheduleError (cl_decoders (zc_base zc)) e ''Failed to list schedules'' None)"

text \<open>
  \<^verbatim>\<open>list\<close> for a caller that takes every element: the summaries that were yielded and the error that ended the iteration, if one did.
  A service that always names another page is asked for ever.
\<close>

partial_function (option) list_schedules ::
  "'w schedule_client \<Rightarrow> int option \<Rightarrow> string option \<Rightarrow> string option \<Rightarrow> 'w \<Rightarrow> ('w \<times> schedule_summary list \<times> client_error option) option" where
  "list_schedules zc pageSize query token w = (case list_page zc pageSize query token w of
     (w', Inl e) \<Rightarrow> Some (w', [], Some e)
   | (w', Inr res) \<Rightarrow> (case yield_summaries (zc_base zc) (or_default (zs_schedules res) []) of
       (ss, Some e) \<Rightarrow> Some (w', ss, Some e)
     | (ss, None) \<Rightarrow>
         if zs_nextPageToken res = None \<or> zs_nextPageToken res = Some [] then Some (w', ss, None)
         else Option.bind (list_schedules zc pageSize query (zs_nextPageToken res) w') (\<lambda>(w'', rest, r). Some (w'', ss @ rest, r))))"

text \<open>When every page names one that comes later in some order that ends, the iteration ends.\<close>

theorem list_schedules_ends:
  fixes rank :: "string option \<Rightarrow> nat"
  assumes "\<And>tok u u' res. list_page zc pageSize query tok u = (u', Inr res) \<Longrightarrow> zs_nextPageToken res \<noteq> None \<Longrightarrow>
      zs_nextPageToken res \<noteq> Some [] \<Longrightarrow> rank (zs_nextPageToken res) < rank tok"
  shows "\<exists>r. list_schedules zc pageSize query tok w = Some r"
proof (induction "rank tok" arbitrary: tok w rule: less_induct)
  case less
  show ?case
  proof (cases "list_page zc pageSize query tok w")
    case (Pair w' out)
    have "\<exists>r. list_schedules zc pageSize query (zs_nextPageToken res) w' = Some r"
      if "out = Inr res" "zs_nextPageToken res \<noteq> None" "zs_nextPageToken res \<noteq> Some []" for res
      using less [of "zs_nextPageToken res"] assms Pair that by blast
    then show ?thesis using Pair
      by (subst list_schedules.simps) (auto split: sum.split prod.split option.split)
  qed
qed

text \<open>A schedule with a calendar that is not accepted is refused before the service is called: only an identifier is drawn.\<close>

theorem invalid_calendar_refused:
  assumes "zc_interceptors zc = []" and "c \<in> set (or_default (sp_calendars (sc_spec o')) [])" and "\<forall>pb. encode_calendar c \<noteq> Inr pb"
  shows "\<exists>e. snd (create_schedule zc o' w) = Inl (Thrown e) \<and>
     (fst (create_schedule zc o' w) = w \<or> fst (create_schedule zc o' w) = fst (cl_randomUUID (zc_base zc) w))"
proof -
  have "\<exists>e. map_res encode_calendar cs = Inl e" if "c \<in> set cs" for cs
    using that assms(3) by (induction cs) (auto simp: bind_res_def split: sum.split)
  then obtain e where "encodeOptionalStructuredCalendarSpecs (sp_calendars (sc_spec o')) = Inl e"
    using assms(2) by (cases "sp_calendars (sc_spec o')") (fastforce simp: encodeOptionalStructuredCalendarSpecs_def compile_optional_def or_default_def)+
  then have "create_request cl rid \<lparr>cz_options = o', cz_action = ca\<rparr> headers = Inl e" for cl :: "'a client" and rid ca headers
    by (simp add: create_request_def encode_schedule_def encodeScheduleSpec_def)
  then show ?thesis using assms(1)
    by (auto simp: create_schedule_def createScheduleHandler_def compileScheduleOptions_def new_uuid_def lift_js_def eff_defs bind_res_def
        split: sum.splits prod.splits)
qed

section \<open>What was created is described\<close>

definition wired_policies :: "proto_policies \<Rightarrow> proto_policies" where
  "wired_policies p = p\<lparr>pq_overlapPolicy := Some (or_default (pq_overlapPolicy p) (EnumNum 0)),
     pq_pauseOnFailure := Some (or_default (pq_pauseOnFailure p) False)\<rparr>"

definition wired_state :: "proto_state \<Rightarrow> proto_state" where
  "wired_state s = s\<lparr>pt_paused := Some (or_default (pt_paused s) False), pt_notes := Some (or_default (pt_notes s) []),
     pt_remainingActions := Some (or_default (pt_remainingActions s) 0)\<rparr>"

definition wired_schedule :: "payload option proto_schedule \<Rightarrow> payload proto_schedule" where
  "wired_schedule s = \<lparr>sh_spec = map_option wired_spec (sh_spec s), sh_action = map_option (map_option wired_start) (sh_action s),
     sh_policies = map_option wired_policies (sh_policies s), sh_state = map_option wired_state (sh_state s)\<rparr>"

text \<open>
  A service that keeps what it is sent: after a schedule was created, its description holds the schedule and the memo of the request, as they come over the wire, a time
  of creation and no action that was taken.
\<close>

definition holds :: "create_schedule_request \<Rightarrow> describe_schedule_response \<Rightarrow> bool" where
  "holds req res \<longleftrightarrow> zr_schedule res = Some (wired_schedule (zq_schedule req)) \<and>
     zr_memo res = map_option (map (\<lambda>(k, p). (k, the p))) (zq_memo req) \<and> zr_searchAttributes res = zq_searchAttributes req \<and>
     (\<exists>i t. zr_info res = Some i \<and> zi_createTime i = Some t \<and> or_default (zi_recentActions i) [] = [])"

definition described_overlap :: "string option \<Rightarrow> string" where
  "described_overlap o' = (case o' of
     None \<Rightarrow> ''SKIP''
   | Some s \<Rightarrow> if s = [] \<or> shorten scheduleOverlapPolicy_table s = ''UNSPECIFIED'' then ''SKIP'' else shorten scheduleOverlapPolicy_table s)"

definition options_ok :: "(string \<Rightarrow> rat option) \<Rightarrow> schedule_options \<Rightarrow> bool" where
  "options_ok ms o' \<longleftrightarrow> spec_times_ok ms (sc_spec o') \<and> pred_option (duration_ok ms) (Option.bind (sc_policies o') po_catchupWindow) \<and>
     pred_option (\<lambda>s. shorten scheduleOverlapPolicy_table s \<notin> set object_members) (Option.bind (sc_policies o') po_overlap) \<and>
     pred_option (\<lambda>n. - (2 ^ 63) \<le> n \<and> n < 2 ^ 63) (Option.bind (sc_state o') ss_remainingActions) \<and>
     list_all (\<lambda>(k, v). plain_value v) (or_default (sc_memo o') []) \<and>
     sc_searchAttributes o' = None \<and> sc_typedSearchAttributes o' = None \<and>
     (\<forall>ca. compile_action (sc_scheduleId o') (sc_action o') = Inr ca \<longrightarrow> action_ok ms ca)"

text \<open>What a description has to say about the options a schedule was created with.\<close>

definition describes :: "(string \<Rightarrow> rat option) \<Rightarrow> schedule_options \<Rightarrow> compiled_action \<Rightarrow> schedule_description \<Rightarrow> bool" where
  "describes ms o' ca d \<longleftrightarrow> de_scheduleId d = sc_scheduleId o' \<and> de_spec d = described_spec ms (sc_spec o') \<and>
     describes_action ms ca (de_action d) \<and> de_memo d = sc_memo o' \<and>
     de_overlap d = described_overlap (Option.bind (sc_policies o') po_overlap) \<and>
     de_catchupWindow d = (case Option.bind (sc_policies o') po_catchupWindow of None \<Rightarrow> 31536000000 | Some c \<Rightarrow> duration_ms ms c) \<and>
     de_pauseOnFailure d = (Option.bind (sc_policies o') po_pauseOnFailure = Some True) \<and>
     de_paused d = (Option.bind (sc_state o') ss_paused = Some True) \<and>
     de_note d = Some (or_default (Option.bind (sc_state o') ss_note) []) \<and>
     de_remainingActions d = Option.bind (sc_state o') ss_remainingActions \<and> de_recentActions d = []"

lemma overlap_roundtrip:
  assumes "encode_overlap o' = Inr v" and "pred_option (\<lambda>s. shorten scheduleOverlapPolicy_table s \<notin> set object_members) o'"
  shows "\<exists>x. decodeEnum scheduleOverlapPolicy_table (wire_enum (Some (or_default v (EnumNum 0)))) = Inr x \<and> or_default x ''SKIP'' = described_overlap o'"
proof (cases "o' = None \<or> o' = Some []")
  case True
  then show ?thesis
    using assms(1) by (auto simp: encode_overlap_def wire_enum_def or_default_def described_overlap_def hasUnspecified_def scheduleOverlapPolicy_table_def)
next
  case False
  then obtain s n where s: "o' = Some s" "s \<noteq> []" "map_of (mapTable scheduleOverlapPolicy_table) (shorten scheduleOverlapPolicy_table s) = Some n" "v = Some (EnumNum n)"
    using assms by (auto simp: encode_overlap_def enum_name_def split: option.splits if_splits)
  then have k: "(shorten scheduleOverlapPolicy_table s, n) \<in> set (mapTable scheduleOverlapPolicy_table)" by (auto dest: map_of_SomeD)
  show ?thesis
  proof (cases "n = 0")
    case True
    then have "shorten scheduleOverlapPolicy_table s = ''UNSPECIFIED''" using k by (simp add: scheduleOverlapPolicy_table_def)
    then show ?thesis using True s by (simp add: wire_enum_def or_default_def described_overlap_def hasUnspecified_def scheduleOverlapPolicy_table_def)
  next
    case False
    then have "shorten scheduleOverlapPolicy_table s \<noteq> ''UNSPECIFIED''" using s(3) by (auto simp: scheduleOverlapPolicy_table_def)
    then show ?thesis using scheduleOverlapPolicy.decode_key [OF k] False s by (simp add: wire_enum_def or_default_def described_overlap_def)
  qed
qed

lemma policies_roundtrip:
  assumes "encodeSchedulePolicies ms p = Inr q" and "pred_option (duration_ok ms) (Option.bind p po_catchupWindow)"
    and "pred_option (\<lambda>s. shorten scheduleOverlapPolicy_table s \<notin> set object_members) (Option.bind p po_overlap)"
  shows "decode_policies (Some (wired_policies q)) = Inr (described_overlap (Option.bind p po_overlap),
     (case Option.bind p po_catchupWindow of None \<Rightarrow> 31536000000 | Some c \<Rightarrow> duration_ms ms c), Option.bind p po_pauseOnFailure = Some True)"
proof -
  obtain cw op where e: "msOptionalToTs ms (Option.bind p po_catchupWindow) = Inr cw" "encode_overlap (Option.bind p po_overlap) = Inr op"
      "q = \<lparr>pq_catchupWindow = cw, pq_overlapPolicy = op, pq_pauseOnFailure = Option.bind p po_pauseOnFailure\<rparr>"
    using assms(1) by (auto simp: encodeSchedulePolicies_def bind_res_Inr_iff)
  obtain x where x: "decodeEnum scheduleOverlapPolicy_table (wire_enum (Some (or_default op (EnumNum 0)))) = Inr x"
      "or_default x ''SKIP'' = described_overlap (Option.bind p po_overlap)"
    using overlap_roundtrip [OF e(2) assms(3)] by blast
  have "optionalTsToMs cw = Inr (map_option (duration_ms ms) (Option.bind p po_catchupWindow))"
    using optional_duration_roundtrip [OF assms(2)] e(1) by auto
  then show ?thesis using x
    by (auto simp: decode_policies_def wired_policies_def e(3) or_default_def split: option.split)
qed

lemma remaining_roundtrip:
  "pred_option (\<lambda>n. - (2 ^ 63) \<le> n \<and> n < 2 ^ 63) (Option.bind st ss_remainingActions) \<Longrightarrow>
     decode_remaining (Some (wired_state (encodeScheduleState st))) = Option.bind st ss_remainingActions"
  by (cases "Option.bind st ss_remainingActions")
    (auto simp: decode_remaining_def wired_state_def encodeScheduleState_def Let_def or_default_def Long_fromNumber_def)

lemma times_decoded: "\<exists>ts'. decode_times ts = Inr ts'"
proof -
  have "\<exists>ys. map_res tsToDate xs = Inr ys" for xs
    by (induction xs) (auto simp: bind_res_Inr_iff tsToDate_def tsToMs_def)
  then show ?thesis by (simp add: decode_times_def)
qed

text \<open>The request that options give, read back as a description.\<close>

lemma request_described:
  assumes "payloadConverter (cl_data cl) = DefaultPayloadConverter sv" and "list_all lossless_codec (payloadCodecs (cl_data cl))"
    and "options_ok (cl_ms cl) o'" and "compile_action (sc_scheduleId o') (sc_action o') = Inr ca"
    and "create_request cl rid \<lparr>cz_options = o', cz_action = ca\<rparr> headers = Inr req" and "holds req res"
  shows "\<exists>d. decode_description cl (sc_scheduleId o') res = Inr d \<and> describes (cl_ms cl) o' ca d"
proof -
  let ?ms = "cl_ms cl"
  obtain sp ac po memo where e: "encodeScheduleSpec ?ms (sc_spec o') = Inr sp" "encodeScheduleAction cl ca headers = Inr ac"
      "encodeSchedulePolicies ?ms (sc_policies o') = Inr po" "compile_optional (\<lambda>m. encodeMapToPayloads (cl_data cl) m None) (sc_memo o') = Inr memo"
      "zq_schedule req = \<lparr>sh_spec = Some sp, sh_action = Some (Some ac), sh_policies = Some po, sh_state = Some (encodeScheduleState (sc_state o'))\<rparr>"
      "zq_memo req = memo" "zq_searchAttributes req = None"
    using assms(3,5) by (auto simp: create_request_def encode_schedule_def bind_res_Inr_iff Let_def encode_attributes_def options_ok_def)
  have ok: "spec_times_ok ?ms (sc_spec o')" "pred_option (duration_ok ?ms) (Option.bind (sc_policies o') po_catchupWindow)"
      "pred_option (\<lambda>s. shorten scheduleOverlapPolicy_table s \<notin> set object_members) (Option.bind (sc_policies o') po_overlap)"
      "pred_option (\<lambda>n. - (2 ^ 63) \<le> n \<and> n < 2 ^ 63) (Option.bind (sc_state o') ss_remainingActions)"
      "list_all (\<lambda>(k, v). plain_value v) (or_default (sc_memo o') [])" "action_ok ?ms ca"
    using assms(3,4) by (simp_all add: options_ok_def)
  obtain i t where i: "zr_info res = Some i" "zi_createTime i = Some t" "or_default (zi_recentActions i) [] = []"
    using assms(6) by (auto simp: holds_def)
  obtain ad where ad: "decodeScheduleAction cl (Some (wired_start ac)) = Inr ad" "describes_action ?ms ca ad"
    using action_roundtrip [OF assms(1,2) ok(6) e(2)] by blast
  have memo: "decodeMapFromPayloads (cl_data cl) (zr_memo res) None = Inr (sc_memo o')"
    using memo_roundtrip [OF assms(1,2) ok(5) e(4)] assms(6) e(6) by (simp add: holds_def)
  obtain nxt where "decode_times (zi_futureActionTimes i) = Inr nxt" using times_decoded by blast
  moreover obtain cr where "requiredTsToDate (Some t) ''createTime'' = Inr cr" by (simp add: requiredTsToDate_def requiredTsToMs_def tsToMs_def)
  moreover obtain up where "optionalTsToDate (zi_updateTime i) = Inr up"
    by (cases "zi_updateTime i") (auto simp: optionalTsToDate_def tsToMs_def)
  moreover have "decodeScheduleRecentActions (zi_recentActions i) = Inr []"
    using i(3) by (auto simp: decodeScheduleRecentActions_def or_default_def split: option.splits)
  moreover have "zr_schedule res = Some (wired_schedule (zq_schedule req))" "zr_searchAttributes res = None" using assms(6) e(7) by (simp_all add: holds_def)
  moreover have "(pt_paused (wired_state (encodeScheduleState st)) = Some True) = (Option.bind st ss_paused = Some True)"
      "pt_notes (wired_state (encodeScheduleState st)) = Some (or_default (Option.bind st ss_note) [])" for st
    by (auto simp: wired_state_def encodeScheduleState_def Let_def or_default_def split: option.split)
  ultimately show ?thesis
    using spec_roundtrip [OF e(1) ok(1)] ad memo policies_roundtrip [OF e(3) ok(2,3)] remaining_roundtrip [OF ok(4)] i(1,2)
    by (simp add: decode_description_def e(5) wired_schedule_def no_attributes describes_def)
qed

text \<open>
  C1: (Round trip.) A schedule is described the way it was created. With the default converters and lossless codecs, and a service that
  keeps the schedule of a request: when \<^verbatim>\<open>create\<close> returns, the handle it returns describes the schedule without an error, and the description gives the
  calendars, intervals, times and jitter of the options (each component of a calendar as the ranges it stands for, absent ones as their defaults), the action with its
  workflow id (derived from the id of the schedule when none was given), arguments, memo, timeouts and metadata, the policies with
  the defaults of those that were not set, and the state with the number of remaining actions.
\<close>

theorem created_schedule_described:
  assumes "cl_data (zc_base zc) = default_data_converter sv env enc cs" and "list_all lossless_codec cs"
    and "zc_interceptors zc = []" and "store_createSchedule zc = eff_return" and "fetch_describeSchedule zc = eff_return"
    and service: "\<And>req u u' r. rpc_createSchedule zc req u = (u', Inr r) \<Longrightarrow>
      \<exists>res. rpc_describeSchedule zc (zq_namespace req, zq_scheduleId req) u' = (u', Inr res) \<and> holds req res"
    and "options_ok (cl_ms (zc_base zc)) o'" and "create_schedule zc o' w = (w', Inr sid)"
  shows "\<exists>ca d. compile_action (sc_scheduleId o') (sc_action o') = Inr ca \<and> describe zc sid w' = (w', Inr d) \<and>
     describes (cl_ms (zc_base zc)) o' ca d"
proof -
  let ?cl = "zc_base zc"
  have dc: "payloadConverter (cl_data ?cl) = DefaultPayloadConverter sv" "list_all lossless_codec (payloadCodecs (cl_data ?cl))"
    using assms(1,2) by (simp_all add: default_data_converter_def)
  obtain ca rid req w1 tok where c: "compile_action (sc_scheduleId o') (sc_action o') = Inr ca" "sid = sc_scheduleId o'"
      "create_request ?cl rid \<lparr>cz_options = o', cz_action = ca\<rparr> [] = Inr req" "rpc_createSchedule zc req w1 = (w', Inr tok)"
    using assms(3,4,8)
    by (auto simp: create_schedule_def createScheduleHandler_def compileScheduleOptions_def rethrow_def new_uuid_def lift_js_def eff_defs bind_res_Inr_iff
        split: sum.splits prod.splits)
  have ids: "zq_namespace req = cl_namespace ?cl" "zq_scheduleId req = sc_scheduleId o'"
    using c(3) by (auto simp: create_request_def bind_res_Inr_iff Let_def)
  obtain res where res: "rpc_describeSchedule zc (cl_namespace ?cl, sc_scheduleId o') w' = (w', Inr res)" "holds req res"
    using service [OF c(4)] ids by auto
  obtain d where d: "decode_description ?cl (sc_scheduleId o') res = Inr d" "describes (cl_ms ?cl) o' ca d"
    using request_described [OF dc assms(7) c(1,3) res(2)] by blast
  have "describe zc sid w' = (w', Inr d)"
    using res(1) d(1) c(2) assms(5) by (simp add: describe_def describeSchedule_def rethrow_def lift_js_def eff_defs)
  then show ?thesis using c(1) d(2) by blast
qed

section \<open>An example\<close>

text \<open>A service that keeps the last schedule it was sent and offers nothing else.\<close>

definition unavailable :: "'q \<Rightarrow> ('w, 'a) cl_act" where
  "unavailable q = eff_throw (Thrown (PlainError ''unavailable''))"

type_synonym kept_schedule = "create_schedule_request option"

definition schedule_base :: "kept_schedule client" where
  "schedule_base = \<lparr>cl_namespace = ''default'', cl_identity = ''me'', cl_data = default_data_converter (\<lambda>v. []) example_env False [reverse_codec],
     cl_decoders = cl_decoders example_client, cl_ms = (\<lambda>s. if s = ''1 day'' then Some 86400000 else None), cl_sa = example_sa_env,
     cl_supportsEagerStart = False, cl_queryRejectCondition = None, cl_randomUUID = (\<lambda>w. (w, ''u'')),
     rpc_history = unavailable, fetch_history = eff_return, rpc_start = unavailable, store_start = eff_return, rpc_signalWithStart = unavailable,
     rpc_update = unavailable, store_update = eff_return, fetch_update = eff_return, rpc_poll = unavailable, rpc_multi = unavailable,
     store_multi = eff_return, fetch_multi = eff_return, rpc_query = unavailable, store_query = eff_return, fetch_query = eff_return,
     rpc_signal = unavailable, store_signal = eff_return, rpc_terminate = unavailable, store_terminate = eff_return, rpc_cancel = unavailable\<rparr>"

definition kept_response :: "create_schedule_request \<Rightarrow> describe_schedule_response" where
  "kept_response req = \<lparr>zr_schedule = Some (wired_schedule (zq_schedule req)), zr_memo = map_option (map (\<lambda>(k, p). (k, the p))) (zq_memo req),
     zr_searchAttributes = zq_searchAttributes req,
     zr_info = Some \<lparr>zi_recentActions = None, zi_futureActionTimes = None, zi_createTime = Some \<lparr>seconds = Some 1, nanos = None\<rparr>,
       zi_updateTime = None, zi_runningWorkflows = None, zi_missedCatchupWindow = None, zi_overlapSkipped = None, zi_actionCount = None\<rparr>\<rparr>"

definition example_schedules :: "kept_schedule schedule_client" where
  "example_schedules = \<lparr>zc_base = schedule_base, zc_interceptors = [], store_createSchedule = eff_return,
     rpc_createSchedule = (\<lambda>req w. (Some req, Inr ''token'')),
     rpc_describeSchedule = (\<lambda>q w. (w, case w of None \<Rightarrow> Inl (Thrown (PlainError ''none'')) | Some req \<Rightarrow> Inr (kept_response req))),
     fetch_describeSchedule = eff_return, store_updateSchedule = eff_return, rpc_updateSchedule = unavailable, rpc_patchSchedule = unavailable,
     rpc_deleteSchedule = unavailable, rpc_listSchedules = unavailable, fetch_listSchedules = eff_return\<rparr>"

definition weekdays_at_nine :: calendar_spec where
  "weekdays_at_nine = \<lparr>cs_second = Undefined, cs_minute = Undefined, cs_hour = JNum 9, cs_dayOfMonth = Undefined, cs_month = JStr ''*'', cs_year = Undefined,
     cs_dayOfWeek = JArr [JObj [(''start'', JStr ''MONDAY''), (''end'', JStr ''FRIDAY'')]], cs_comment = None\<rparr>"

definition example_schedule :: schedule_options where
  "example_schedule = \<lparr>sc_scheduleId = ''daily'',
     sc_spec = \<lparr>sp_calendars = Some [weekdays_at_nine], sp_intervals = Some [(MsString ''1 day'', None)], sp_cronExpressions = None, sp_skip = None,
       sp_startAt = Some 0, sp_endAt = None, sp_jitter = Some (Millis (Num 500)), sp_timezone = None\<rparr>,
     sc_action = \<lparr>ka_workflowType = WorkflowName ''report'', ka_workflowId = None, ka_args = Some [JNum 5], ka_taskQueue = ''q'', ka_executionTimeout = None,
       ka_runTimeout = Some (MsString ''1 day''), ka_taskTimeout = None, ka_retry = None, ka_memo = None, ka_searchAttributes = None,
       ka_typedSearchAttributes = None, ka_staticSummary = None, ka_staticDetails = None, ka_priority = None\<rparr>,
     sc_policies = Some \<lparr>po_catchupWindow = None, po_overlap = Some ''BUFFER_ONE'', po_pauseOnFailure = None\<rparr>,
     sc_state = Some \<lparr>ss_paused = Some True, ss_note = Some ''wait'', ss_remainingActions = Some 0, ss_triggerImmediately = False, ss_backfill = None\<rparr>,
     sc_memo = None, sc_searchAttributes = None, sc_typedSearchAttributes = None\<rparr>"

definition example_action :: compiled_action where
  "example_action = \<lparr>ca_action = sc_action example_schedule, ca_workflowId = ''daily-workflow'', ca_workflowType = ''report'', ca_args = [JNum 5]\<rparr>"

lemma example_compiled_action: "compile_action ''daily'' (sc_action example_schedule) = Inr example_action"
  by (simp add: compile_action_def example_action_def example_schedule_def extractWorkflowType_def extractWorkflowTypeAndConfig_def or_default_def)

lemma example_spec_encoded: "\<exists>sp. encodeScheduleSpec (cl_ms schedule_base) (sc_spec example_schedule) = Inr sp"
proof -
  have "\<exists>pb. encode_calendar weekdays_at_nine = Inr pb"
    by (simp add: encode_calendar_def weekdays_at_nine_def calendar_encoder_def component_items_def encode_item_def encode_unit_def coders_defs
        number_between_def dayOfWeekNameToNumber_def DAYS_OF_WEEK_def)
  then show ?thesis
    by (auto simp: encodeScheduleSpec_def example_schedule_def schedule_base_def encodeOptionalStructuredCalendarSpecs_def compile_optional_def encode_interval_def
        msToTs_def msWithValidation_def msNumberToTs_def msOptionalToTs_def optionalDateToTs_def)
qed

lemma example_action_encoded: "\<exists>ac. encodeScheduleAction schedule_base example_action [] = Inr ac"
proof -
  have dc: "payloadConverter (cl_data schedule_base) = DefaultPayloadConverter (\<lambda>v. [])" "list_all lossless_codec (payloadCodecs (cl_data schedule_base))"
    by (simp_all add: schedule_base_def default_data_converter_def lossless_reverse_codec)
  obtain inp where "encodeToPayloadsWithContext (cl_data schedule_base) (Some (client_context schedule_base ''daily-workflow'')) [JNum 5] None = Inr inp"
    using values_through_codecs [OF dc, of "[JNum 5]" "Some (client_context schedule_base ''daily-workflow'')"] by auto
  then show ?thesis
    by (simp add: encodeScheduleAction_def example_action_def example_schedule_def msOptionalToTs_def msToTs_def msWithValidation_def msNumberToTs_def
        schedule_base_def compile_optional_def encode_attributes_def encodeUserMetadata_def Let_def)
qed

lemma example_created: "\<exists>w'. create_schedule example_schedules example_schedule None = (w', Inr ''daily'')"
proof -
  obtain sp ac where e: "encodeScheduleSpec (cl_ms schedule_base) (sc_spec example_schedule) = Inr sp" "encodeScheduleAction schedule_base example_action [] = Inr ac"
    using example_spec_encoded example_action_encoded by blast
  have "\<exists>po. encodeSchedulePolicies (cl_ms schedule_base) (sc_policies example_schedule) = Inr po"
    by (simp add: encodeSchedulePolicies_def example_schedule_def msOptionalToTs_def encode_overlap_def enum_name_def scheduleOverlapPolicy_table_def
        shorten_def starts_with_def)
  then obtain req where "create_request schedule_base ''u'' \<lparr>cz_options = example_schedule, cz_action = example_action\<rparr> [] = Inr req"
    using e by (auto simp: create_request_def encode_schedule_def example_schedule_def compile_optional_def encode_attributes_def)
  moreover have "assertRequiredScheduleOptions_create example_schedule = Inr ()" "sc_scheduleId example_schedule = ''daily''"
    by (simp_all add: assertRequiredScheduleOptions_create_def assert_action_def example_schedule_def)
  moreover have "cl_randomUUID schedule_base w = (w, ''u'')" for w by (simp add: schedule_base_def)
  ultimately show ?thesis
    by (simp add: create_schedule_def createScheduleHandler_def compileScheduleOptions_def example_compiled_action example_schedules_def new_uuid_def
        lift_js_def rethrow_def eff_defs)
qed

lemma example_options_ok: "options_ok (cl_ms schedule_base) example_schedule"
proof -
  have "action_ok (cl_ms schedule_base) example_action"
    by (simp add: action_ok_def example_action_def example_schedule_def or_default_def duration_ok_def duration_value_def schedule_base_def)
  moreover have "sc_scheduleId example_schedule = ''daily''" by (simp add: example_schedule_def)
  ultimately have "\<forall>ca. compile_action (sc_scheduleId example_schedule) (sc_action example_schedule) = Inr ca \<longrightarrow> action_ok (cl_ms schedule_base) ca"
    by (simp add: example_compiled_action)
  then show ?thesis
    unfolding options_ok_def
    by (simp add: example_schedule_def spec_times_ok_def or_default_def duration_ok_def duration_value_def date_ok_def schedule_base_def
        shorten_def starts_with_def scheduleOverlapPolicy_table_def object_members_def)
qed

theorem created_schedule_described_witness:
  "\<exists>w' d. create_schedule example_schedules example_schedule None = (w', Inr ''daily'') \<and> describe example_schedules ''daily'' w' = (w', Inr d) \<and>
     ad_workflowId (de_action d) = ''daily-workflow'' \<and> ad_args (de_action d) = [JNum 5] \<and> ad_runTimeout (de_action d) = Some 86400000 \<and>
     map cd_dayOfWeek (sd_calendars (de_spec d)) = [[\<lparr>cr_start = JStr ''MONDAY'', cr_end = JStr ''FRIDAY'', cr_step = 1\<rparr>]] \<and>
     de_overlap d = ''BUFFER_ONE'' \<and> de_remainingActions d = Some 0"
proof -
  obtain w' where w': "create_schedule example_schedules example_schedule None = (w', Inr ''daily'')" using example_created by blast
  have base: "zc_base example_schedules = schedule_base" by (simp add: example_schedules_def)
  have "\<exists>ca d. compile_action (sc_scheduleId example_schedule) (sc_action example_schedule) = Inr ca \<and>
      describe example_schedules ''daily'' w' = (w', Inr d) \<and> describes (cl_ms (zc_base example_schedules)) example_schedule ca d"
  proof (rule created_schedule_described [OF _ _ _ _ _ _ _ w'])
    show "cl_data (zc_base example_schedules) = default_data_converter (\<lambda>v. []) example_env False [reverse_codec]"
      by (simp add: base schedule_base_def)
    show "list_all lossless_codec [reverse_codec]" by (simp add: lossless_reverse_codec)
    show "\<exists>res. rpc_describeSchedule example_schedules (zq_namespace req, zq_scheduleId req) u' = (u', Inr res) \<and> holds req res"
      if "rpc_createSchedule example_schedules req u = (u', Inr r)" for req u u' r
      using that by (auto simp: example_schedules_def holds_def kept_response_def or_default_def)
    show "options_ok (cl_ms (zc_base example_schedules)) example_schedule" using example_options_ok base by simp
  qed (simp_all add: example_schedules_def)
  moreover have "sc_scheduleId example_schedule = ''daily''" by (simp add: example_schedule_def)
  ultimately obtain d where d: "describe example_schedules ''daily'' w' = (w', Inr d)" "describes (cl_ms schedule_base) example_schedule example_action d"
    by (auto simp: example_compiled_action base)
  have "map cd_dayOfWeek (sd_calendars (described_spec (cl_ms schedule_base) (sc_spec example_schedule))) =
      [[\<lparr>cr_start = JStr ''MONDAY'', cr_end = JStr ''FRIDAY'', cr_step = 1\<rparr>]]"
    by (simp add: described_spec_def described_calendars_def described_calendar_def example_schedule_def weekdays_at_nine_def or_default_def
        described_component_def component_items_def described_item_def end_forgotten_def meant_def range_item_def item_step_def coders_defs
        dayOfWeekNameToNumber_def DAYS_OF_WEEK_def)
  moreover have "described_overlap (Some ''BUFFER_ONE'') = ''BUFFER_ONE''"
    by (simp add: described_overlap_def shorten_def starts_with_def scheduleOverlapPolicy_table_def)
  moreover have "duration_ms (cl_ms schedule_base) (MsString ''1 day'') = 86400000" by (simp add: duration_ms_def duration_value_def schedule_base_def)
  ultimately show ?thesis using w' d
    by (auto simp: describes_def describes_action_def example_action_def example_schedule_def)
qed

end
