(* ===== verification/Spec2Isabelle.thy ===== *)
theory Spec2Isabelle
  imports Time Enums RetryPolicy SdkFlags FailureConverter EventGroups Executions
    WorkerLifecycle WorkerActivations ActivityTasks Semaphore ExternalStorage WorkflowClient NexusTokens NexusLinks StreamReading
    ScheduleClient
begin

text \<open>
  \<^bold>\<open>The Temporal SDK for TypeScript.\<close>

  The SDK runs workflows and activities for a Temporal server. The core of it, a native library, polls the server; the
  worker (\<^verbatim>\<open>packages/worker\<close>) takes activations of workflows and tasks for activities from the core and answers each
  with a completion; the workflow library (\<^verbatim>\<open>packages/workflow\<close>) runs inside an isolated context, one per execution, and turns an activation into
  calls of user code and the commands the code asks for; the client (\<^verbatim>\<open>packages/client\<close>) starts, signals, queries, updates and waits for workflows from outside;
  the common library (\<^verbatim>\<open>packages/common\<close>) converts values, failures, times and enumerations between the program and the wire.

  \<^bold>\<open>Foundations.\<close>
  \<open>Prelude\<close> has results with errors (\<open>bind_res\<close>, \<open>map_res\<close>), JavaScript maps with insertion order (\<open>js_get\<close>, \<open>js_set\<close>, \<open>js_delete\<close>)
  and the locale \<open>machine\<close>: an invariant that holds in the start states and is kept by steps holds in every reachable state.
  \<open>JsRuntime\<close> has values and payloads, promises with their reactions and the queue of microtasks.
  \<open>Errors\<close> has the classes of errors and failures (\<^verbatim>\<open>common/src/failure.ts\<close>, \<^verbatim>\<open>errors.ts\<close>) and the wire form of failures.

  \<^bold>\<open>Values on the wire\<close> (\<^verbatim>\<open>packages/common/src\<close>).
  \<open>Time\<close> (\<^verbatim>\<open>time.ts\<close>; seconds are 64-bit words), \<open>Enums\<close> (\<^verbatim>\<open>internal-workflow/enums-helpers.ts\<close> and every table made with it), \<open>RetryPolicy\<close>
  (\<^verbatim>\<open>retry-policy.ts\<close>, \<^verbatim>\<open>priority.ts\<close>), \<open>Encoding\<close> (\<^verbatim>\<open>encoding.ts\<close>: the UTF-8 decoder and encoder, byte by byte), \<open>Json\<close> (\<open>JSON.stringify\<close> and \<open>JSON.parse\<close> for
  the values that survive), \<open>PayloadConverter\<close> and \<open>Converters\<close> (\<^verbatim>\<open>converter/payload-converter.ts\<close>; the locales \<open>lossless_converter\<close> and
  \<open>encoding_converter\<close>, interpreted for every converter of the SDK), \<open>Regex\<close> and \<open>FailureConverter\<close> (\<^verbatim>\<open>converter/failure-converter.ts\<close>).
  \<open>Codecs\<close> (\<^verbatim>\<open>internal-non-workflow/codec-helpers.ts\<close>) takes values, maps and failures through a list of codecs, a parameter with the law that decoding
  undoes encoding; \<open>SearchAttributes\<close> (\<^verbatim>\<open>search-attributes.ts\<close>, \<^verbatim>\<open>converter/payload-search-attributes.ts\<close>) has the typed and untyped attributes and their converters.
  Shown: conversions accept what they should and give back what they were given, failures keep their causes, the encoder fills its array without losing a
  character, and where each of these fails.

  \<^bold>\<open>External storage.\<close>
  \<open>Semaphore\<close> (\<^verbatim>\<open>concurrency\<close>), \<open>PayloadCache\<close> (\<^verbatim>\<open>internal-non-workflow/in-memory-payload-cache.ts\<close>; the locale \<open>payload_cache\<close>), \<open>StorageDrivers\<close>
  (\<^verbatim>\<open>contrib/external-storage-s3\<close>, \<^verbatim>\<open>contrib/external-storage-gcs\<close>) and \<open>ExternalStorage\<close> (\<^verbatim>\<open>internal-non-workflow/external-storage-runner.ts\<close>, \<^verbatim>\<open>extstore-helpers.ts\<close>; the
  locale \<open>runner_cache\<close>, which extends \<open>payload_cache\<close> and is interpreted on the in-memory cache). Shown: the cache refines an abstract least-recently-used list, drivers give back
  what was stored, keys of the cache are unambiguous, and a message comes back whole.

  \<^bold>\<open>Inside a workflow\<close> (\<^verbatim>\<open>packages/workflow/src\<close>).
  \<open>ActivatorState\<close> is the record of an execution, \<open>ActivatorCore\<close> its commands, patches, flags, failures and the conclusion of an activation,
  \<open>CancellationScopes\<close> the tree of scopes, \<open>ActivatorResolve\<close> the jobs that settle promises, \<open>Interceptors\<close> the composition of interceptors,
  \<open>ActivatorMessages\<close> signals, updates, queries and their buffers (all of \<^verbatim>\<open>internals.ts\<close>), \<open>EventGroups\<close> (\<^verbatim>\<open>event-groups.ts\<close>), \<open>SdkFlags\<close> (\<^verbatim>\<open>flags.ts\<close>),
  \<open>WorkflowApi\<close> the functions user code calls (\<^verbatim>\<open>workflow.ts\<close>), \<open>WorkerInterface\<close> the loop over jobs and conditions (\<^verbatim>\<open>worker-interface.ts\<close>), \<open>VmWorkflow\<close>
  the instance (\<^verbatim>\<open>packages/worker/src/workflow/vm-shared.ts\<close>). User code is a parameter: what it does when it is called or resumed, by way of the
  operations of the API. \<open>ExecutionFrame\<close> shows what the operations leave alone, \<open>Executions\<close> puts activations in sequence.
  Shown: numbers of commands are never reused, a promise is settled once, cancellation reaches what it should and nothing else, buffered messages are
  dispatched, patches and flags are final, a failed task blocks the execution.

  \<^bold>\<open>The worker\<close> (\<^verbatim>\<open>packages/worker/src\<close>).
  \<open>WorkerLifecycle\<close> (the states and the outcome of \<^verbatim>\<open>run\<close>), \<open>WorkerActivations\<close> (the activations of one execution, with creation and eviction of instances),
  \<open>Heartbeats\<close> (the stream of heartbeats of an activity), \<open>ActivityTasks\<close> (tasks of one token, \<^verbatim>\<open>activity.ts\<close>). The streams of the program are sequences of steps;
  what runs concurrently is interleaved freely. Shown: every activation and every start of an activity is answered once, the last heartbeat is flushed, the
  first fatal error is what \<^verbatim>\<open>run\<close> reports, counters count.

  \<^bold>\<open>The client\<close> (\<^verbatim>\<open>packages/client/src\<close>).
  \<open>GrpcRetry\<close> (\<^verbatim>\<open>grpc-retry.ts\<close>: the interceptor as a machine over the statuses a call ends with), \<open>ClientErrors\<close> (\<^verbatim>\<open>errors.ts\<close>, \<^verbatim>\<open>helpers.ts\<close>) and \<open>WorkflowClient\<close>
  (\<^verbatim>\<open>workflow-client.ts\<close>: every operation as a function on the state of the service, whose methods are a parameter; the loop that waits for a result is a
  \<open>partial_function\<close>, and its specification, the relation \<open>follows\<close>, follows the chain of runs). Shown: retries are bounded, waiting for a result refines following
  the chain of runs and returns exactly when the chain is answered, the handle of an update with start is settled once.
  \<open>Schedules\<close> (\<^verbatim>\<open>schedule-helpers.ts\<close>, \<^verbatim>\<open>schedule-types.ts\<close>; the locale \<open>calendar_field\<close> is the contract of the coders of a calendar field and is interpreted for all
  seven) and \<open>ScheduleClient\<close> (\<^verbatim>\<open>schedule-client.ts\<close>; the iteration over lists is a \<open>partial_function\<close>, and \<open>list_schedules_ends\<close> shows when it ends). Shown: a schedule is described the way
  it was created, calendars are refused exactly when a component is not a value of its field, and what a range without an end turns into.

  \<^bold>\<open>Nexus\<close> (\<^verbatim>\<open>packages/nexus/src\<close>).
  \<open>NexusTokens\<close> (\<^verbatim>\<open>token.ts\<close>) and \<open>NexusLinks\<close> (\<^verbatim>\<open>link-converter.ts\<close>; URLs are parsed as the URL standard says). Shown: tokens and links are read back as they were written,
  and which links are not.

  \<^bold>\<open>Workflow streams\<close> (\<^verbatim>\<open>contrib/workflow-streams/src\<close>).
  \<open>StreamCodec\<close> (\<^verbatim>\<open>codec.ts\<close>: base64 and the protobuf form of a payload, byte by byte), \<open>WorkflowStreams\<close> (\<^verbatim>\<open>workflow.ts\<close>: the log inside a workflow, with deduplication by
  publisher and sequence number, polls, truncation and snapshots), \<open>StreamClient\<close> (\<^verbatim>\<open>client.ts\<close>: buffer, batches, retries, the background flusher and subscriptions; the
  loops of \<open>flush\<close> and of disposal are partial functions). \<open>StreamDelivery\<close> composes a client, the signals under way and the stream into a step
  relation in which signals are lost, delayed and repeated and the workflow continues as new; \<open>StreamReading\<close> composes the stream and a subscriber. Shown: payloads
  come back, every batch is appended once and in order as long as retries end before the record of the publisher does, a subscriber gets each entry of its topics
  in order and once, and the cases in which data is lost.

  \<^bold>\<open>Fuel.\<close> Only three functions have fuel: the drain of the microtask queue and the loops over conditions and buffered messages, because user code
  can keep them busy for ever; the theorems about them show that the fuel they name is enough (\<open>buffered_messages_dispatched\<close>, \<open>tryUnblockConditions_exact\<close>), or hold for
  every amount. The parser of JSON texts gets fuel from the length of the text, which \<open>json_roundtrip\<close> shows to suffice. Everything else is total.

  \<^bold>\<open>Not modelled.\<close> The native core and its bridge, connections, logging and metrics, the bundler, worker threads and the set-up of VM contexts are I/O
  or facilities of Node; protocol buffers are generated code, so their wire and JSON forms are parameters with the laws the program relies on; the
  clients for activities and Nexus endpoints, the handlers of Nexus operations, environment configuration and the command line tools are listed in the manifest.
\<close>

end
